(* ===== verification/Prelude.thy ===== *)
theory Prelude
  imports Main "HOL-Library.Word" "HOL-Library.Char_ord" "HOL-Library.List_Lexorder"
begin

section \<open>Shared types, results and list lemmas\<close>

text \<open>
  This theory holds what every component uses: the fixed-width integer types of the C++ code, the
  exceptions it throws and the result type that carries them, the sequencing of fallible steps and
  loops, and a few lemmas on lists and bytes.

  A C++ \<open>std::string\<close> is a \<open>string\<close> (a list of 8-bit characters), a \<open>std::vector<std::byte>\<close> a
  list of 8-bit words, a \<open>std::uint64_t\<close> a 64-bit word. \<open>operator<\<close> on \<open>std::string\<close> compares the
  unsigned bytes lexicographically, which is the order of \<open>HOL-Library.List_Lexorder\<close> over
  \<open>HOL-Library.Char_ord\<close>.
\<close>

unbundle bit_operations_syntax

named_theorems res_simps \<open>unfolding of sequenced results\<close>
named_theorems validate_defs \<open>definitions of the validators\<close>

type_synonym byte = "8 word"
type_synonym u8 = "8 word"
type_synonym u16 = "16 word"
type_synonym u32 = "32 word"
type_synonym u64 = "64 word"

subsection \<open>Exceptions\<close>

text \<open>The error kinds of the metadata classes, as their \<open>enum class\<close> declarations list them.\<close>

datatype finalize_upload_error_kind =
  SessionNotFound | SessionNotOpen | Conflict | ChunkNotAvailableOnTarget
  | ChunkUnderReplicated | FinalizeVersionRetired

datatype gc_error_kind =
  GcRunNotFound | GcRunConflict | GcAnotherRunOpen | OpenUploadSessionsPresent
  | GcRunNotOpen | GcInProgress | GcReplicationInProgress

datatype lifecycle_error_kind =
  InvalidRequest | PolicyNotFound | LifecycleRunNotFound | LifecycleVersionNotFound
  | LifecycleVersionRetired | LifecycleRunConflict | BlockedByOpenUploadSessions
  | BlockedByGc | BlockedByReplication | InvalidArtifactKind | PolicyConflict

datatype replication_error_kind =
  ReplRunNotFound | ReplRunConflict | ReplAnotherRunOpen | ReplGcInProgress | ReplRunNotOpen
  | ReplVersionNotFound | ReplVersionNotCommitted | ReplSourceUnavailable | UnderReplicated
  | TargetDisabled | ReplVersionRetired

datatype restore_plan_error_kind =
  RestoreVersionNotFound | RestoreVersionNotCommitted | RestoreSourceUnavailable
  | RestoreVersionRetired

datatype http_client_error_kind = ConnectError | WriteError | ReadError | Timeout | ResponseTooLarge

text \<open>
  An exception is its class and, where the class has one, its kind; the message text, which no code
  inspects, is left out. \<open>Foreign_key_violation\<close>, \<open>Unique_violation\<close>, \<open>Check_violation\<close> and
  \<open>Unexpected_rows\<close> are the exceptions of the database client.
\<close>

datatype exn =
  Invalid_argument | Logic_error | Length_error
  | Runtime_error | Overflow_error | System_error
  | Foreign_key_violation | Unique_violation | Check_violation | Unexpected_rows
  | Finalize_upload_error finalize_upload_error_kind "string option"
  | Gc_error gc_error_kind
  | Lifecycle_error lifecycle_error_kind
  | Replication_error replication_error_kind
  | Restore_plan_error restore_plan_error_kind
  | Remote_api_error | Remote_protocol_error
  | Http_client_error http_client_error_kind

text \<open>Whether \<open>catch (const std::runtime_error&)\<close> catches the exception: the three classes under
  \<open>std::logic_error\<close> are not caught, everything else derives from \<open>std::runtime_error\<close>.\<close>

fun is_runtime_error :: "exn \<Rightarrow> bool" where
  "is_runtime_error Invalid_argument = False"
| "is_runtime_error Logic_error = False"
| "is_runtime_error Length_error = False"
| "is_runtime_error _ = True"

subsection \<open>Results and their sequencing\<close>

type_synonym 'a res = "exn + 'a"

definition rbind :: "'a res \<Rightarrow> ('a \<Rightarrow> 'b res) \<Rightarrow> 'b res" where
  "rbind m f = (case m of Inl e \<Rightarrow> Inl e | Inr x \<Rightarrow> f x)"

lemma rbind_simps [simp]:
  "rbind (Inl e) f = Inl e"
  "rbind (Inr x) f = f x"
  by (simp_all add: rbind_def)

lemma rbind_eq_Inr [res_simps]:
  "rbind m f = Inr y \<longleftrightarrow> (\<exists>x. m = Inr x \<and> f x = Inr y)"
  by (cases m) auto

lemma rbind_eq_Inl [res_simps]:
  "rbind m f = Inl e \<longleftrightarrow> m = Inl e \<or> (\<exists>x. m = Inr x \<and> f x = Inl e)"
  by (cases m) auto

lemma if_Inl_eq_Inr [res_simps]:
  "(if b then Inl e else m) = Inr y \<longleftrightarrow> \<not> b \<and> m = Inr y"
  by simp

lemma rbind_cong [fundef_cong]:
  "m = n \<Longrightarrow> (\<And>x. n = Inr x \<Longrightarrow> f x = g x) \<Longrightarrow> rbind m f = rbind n g"
  by (cases n) auto

text \<open>A range-for loop whose body may throw: over a state, and collecting one value per element.\<close>

fun fold_res :: "('a \<Rightarrow> 's \<Rightarrow> 's res) \<Rightarrow> 'a list \<Rightarrow> 's \<Rightarrow> 's res" where
  "fold_res f [] s = Inr s"
| "fold_res f (x # xs) s = rbind (f x s) (fold_res f xs)"

fun map_res :: "('a \<Rightarrow> 'b res) \<Rightarrow> 'a list \<Rightarrow> 'b list res" where
  "map_res f [] = Inr []"
| "map_res f (x # xs) = rbind (f x) (\<lambda>y. rbind (map_res f xs) (\<lambda>ys. Inr (y # ys)))"

definition check_all :: "('a \<Rightarrow> unit res) \<Rightarrow> 'a list \<Rightarrow> unit res" where
  "check_all f xs = fold_res (\<lambda>x _. f x) xs ()"

lemma check_all_simps [simp]:
  "check_all f [] = Inr ()"
  "check_all f (x # xs) = rbind (f x) (\<lambda>_. check_all f xs)"
  by (simp_all add: check_all_def)

lemma check_all_ok [res_simps]:
  "check_all f xs = Inr u \<longleftrightarrow> (\<forall>x \<in> set xs. f x = Inr ())"
  by (induction xs) (auto simp: rbind_eq_Inr)

lemma check_all_error:
  "(\<And>x e. x \<in> set xs \<Longrightarrow> f x = Inl e \<Longrightarrow> e = c) \<Longrightarrow> check_all f xs = Inl d \<Longrightarrow> d = c"
proof (induction xs)
  case (Cons x xs)
  then show ?case by (cases "f x") auto
qed simp

lemma fold_res_append:
  "fold_res f (xs @ ys) s = rbind (fold_res f xs s) (fold_res f ys)"
  by (induction xs arbitrary: s) (auto simp: rbind_def split: sum.splits)

lemma fold_res_invariant:
  assumes "fold_res f xs s = Inr t" and "P s"
    and "\<And>x s t. x \<in> set xs \<Longrightarrow> P s \<Longrightarrow> f x s = Inr t \<Longrightarrow> P t"
  shows "P t"
  using assms
proof (induction xs arbitrary: s)
  case (Cons x xs)
  then obtain u where "f x s = Inr u" and "fold_res f xs u = Inr t"
    by (auto simp: rbind_eq_Inr)
  with Cons show ?case by (metis list.set_intros)
qed simp

lemma map_res_ok:
  "map_res f xs = Inr ys \<longleftrightarrow> length ys = length xs \<and> (\<forall>i < length xs. f (xs ! i) = Inr (ys ! i))"
proof (induction xs arbitrary: ys)
  case (Cons x xs)
  show ?case
  proof (cases ys)
    case Nil
    then show ?thesis by (auto simp: rbind_eq_Inr)
  next
    case (Cons y zs)
    then show ?thesis
      using Cons.IH [of zs] by (auto simp: rbind_eq_Inr less_Suc_eq_0_disj)
  qed
qed auto

lemma map_res_length: "map_res f xs = Inr ys \<Longrightarrow> length ys = length xs"
  by (simp add: map_res_ok)

lemma map_res_nth: "map_res f xs = Inr ys \<Longrightarrow> i < length xs \<Longrightarrow> f (xs ! i) = Inr (ys ! i)"
  by (simp add: map_res_ok)

lemma map_res_set: "map_res f xs = Inr ys \<Longrightarrow> y \<in> set ys \<Longrightarrow> \<exists>x \<in> set xs. f x = Inr y"
  by (metis in_set_conv_nth map_res_ok)

lemma map_res_set_inv: "map_res f xs = Inr ys \<Longrightarrow> x \<in> set xs \<Longrightarrow> \<exists>y \<in> set ys. f x = Inr y"
  by (metis in_set_conv_nth map_res_ok)

subsection \<open>Lists\<close>

lemma append_eq_append_same_length:
  "length xs = length us \<Longrightarrow> xs @ ys = us @ vs \<longleftrightarrow> xs = us \<and> ys = vs"
  by simp

text \<open>\<open>std::ranges::sort\<close> and \<open>ORDER BY\<close> on a key.\<close>

lemma sort_key_filter_set [simp]: "set (sort_key f (filter P xs)) = {x \<in> set xs. P x}"
  by auto

text \<open>
  Sorting by a comparator that is a strict total order on the elements, which leaves one possible
  result: \<open>std::ranges::sort\<close> with a comparator, \<open>ORDER BY\<close> on several columns.
\<close>

fun insert_by :: "('a \<Rightarrow> 'a \<Rightarrow> bool) \<Rightarrow> 'a \<Rightarrow> 'a list \<Rightarrow> 'a list" where
  "insert_by before x [] = [x]"
| "insert_by before x (y # ys) = (if before x y then x # y # ys else y # insert_by before x ys)"

definition sort_by :: "('a \<Rightarrow> 'a \<Rightarrow> bool) \<Rightarrow> 'a list \<Rightarrow> 'a list" where
  "sort_by before xs = foldr (insert_by before) xs []"

lemma set_insert_by [simp]: "set (insert_by before x ys) = insert x (set ys)"
  by (induction ys) auto

lemma length_insert_by [simp]: "length (insert_by before x ys) = Suc (length ys)"
  by (induction ys) auto

lemma distinct_insert_by [simp]: "distinct (insert_by before x ys) \<longleftrightarrow> x \<notin> set ys \<and> distinct ys"
  by (induction ys) auto

lemma set_sort_by [simp]: "set (sort_by before xs) = set xs"
  by (induction xs) (simp_all add: sort_by_def)

lemma length_sort_by [simp]: "length (sort_by before xs) = length xs"
  by (induction xs) (simp_all add: sort_by_def)

lemma distinct_sort_by [simp]: "distinct (sort_by before xs) \<longleftrightarrow> distinct xs"
  by (induction xs) (simp_all add: sort_by_def, simp flip: sort_by_def)

lemma sorted_insert_by:
  assumes "transp before" and "\<And>y. y \<in> set ys \<Longrightarrow> before x y \<or> before y x" and "sorted_wrt before ys"
  shows "sorted_wrt before (insert_by before x ys)"
  using assms(2,3)
proof (induction ys)
  case (Cons y ys)
  then show ?case using assms(1) by (auto dest: transpD)
qed simp

lemma sorted_sort_by:
  assumes "transp before" and "distinct xs"
    and "\<And>x y. x \<in> set xs \<Longrightarrow> y \<in> set xs \<Longrightarrow> x \<noteq> y \<Longrightarrow> before x y \<or> before y x"
  shows "sorted_wrt before (sort_by before xs)"
  using assms(2,3)
proof (induction xs)
  case (Cons x xs)
  have "sorted_wrt before (insert_by before x (sort_by before xs))"
    by (rule sorted_insert_by [OF assms(1)]) (use Cons in auto)
  then show ?case by (simp add: sort_by_def)
qed (simp add: sort_by_def)

lemma sorted_wrt_unique:
  assumes trans: "transp before" and irrefl: "irreflp before"
    and "sorted_wrt before xs" and "sorted_wrt before ys" and "set xs = set ys"
  shows "xs = ys"
  using assms(3-5)
proof (induction xs arbitrary: ys)
  case Nil
  then show ?case by (cases ys) simp_all
next
  case (Cons x xs)
  then obtain y zs where ys: "ys = y # zs" by (cases ys) auto
  have no: False if "before a b" "before b a" for a b
    using transpD [OF trans that] irreflpD [OF irrefl, of a] by simp
  have x: "\<And>z. z \<in> set xs \<Longrightarrow> before x z" "sorted_wrt before xs" using Cons.prems(1) by simp_all
  have y: "\<And>z. z \<in> set zs \<Longrightarrow> before y z" "sorted_wrt before zs" using Cons.prems(2) ys by simp_all
  have eq: "insert x (set xs) = insert y (set zs)" using Cons.prems(3) ys by simp
  have xy: "y = x"
  proof (rule ccontr)
    assume ne: "y \<noteq> x"
    have "x \<in> insert y (set zs)" unfolding eq [symmetric] by (rule insertI1)
    then have "x \<in> set zs" using ne by (simp add: eq_commute)
    moreover have "y \<in> insert x (set xs)" unfolding eq by (rule insertI1)
    then have "y \<in> set xs" using ne by simp
    ultimately show False using no [OF x(1) y(1)] by simp
  qed
  have "x \<notin> set xs" using x(1) [of x] no [of x x] by argo
  moreover have "x \<notin> set zs" using y(1) [of x] no [of x x] xy by argo
  ultimately have "set xs = set zs" using eq unfolding xy by (rule insert_ident [THEN iffD1])
  then have "xs = zs" by (rule Cons.IH [OF x(2) y(2)])
  then show ?case unfolding ys xy by simp
qed

lemma sorted_wrt_less_distinct: "sorted_wrt (<) (xs :: 'a :: linorder list) \<Longrightarrow> distinct xs"
  by (simp add: strict_sorted_iff)

subsection \<open>Bytes of characters\<close>

text \<open>\<open>std::as_bytes\<close> over the characters of a string.\<close>

definition byte_of_char :: "char \<Rightarrow> byte" where
  "byte_of_char c = word_of_nat (of_char c)"

abbreviation as_bytes :: "string \<Rightarrow> byte list" where
  "as_bytes s \<equiv> map byte_of_char s"

lemma inj_byte_of_char: "inj byte_of_char"
proof (rule injI)
  fix c d
  assume "byte_of_char c = byte_of_char d"
  then have "unat (byte_of_char c) = unat (byte_of_char d)" by simp
  then have "(of_char c :: nat) mod 256 = of_char d mod 256"
    by (simp add: byte_of_char_def unat_of_nat)
  moreover have "of_char c < (256 :: nat)" "of_char d < (256 :: nat)" by simp_all
  ultimately have "(of_char c :: nat) = of_char d" by simp
  then show "c = d" by (simp only: of_char_eq_iff)
qed

lemma as_bytes_inject: "as_bytes s = as_bytes t \<longleftrightarrow> s = t"
  using inj_byte_of_char by (rule inj_map_eq_map)

end
