(* ===== verification/Enums.thy ===== *)
theory Enums
  imports Prelude
begin

section \<open>Enumerations and their stored text\<close>

text \<open>
  The \<open>enum class\<close> types of the metadata headers, and the \<open>*_to_string\<close> / \<open>*_from_string\<close> pairs that
  translate them to the text the database and the HTTP bodies carry. Every pair meets one contract,
  the locale \<open>text_codec\<close>: parsing what was printed gives the value back, and an accepted text is
  the printed form of its value.
\<close>

locale text_codec =
  fixes print :: "'a \<Rightarrow> string"
    and parse :: "string \<Rightarrow> 'a res"
  assumes parse_print: "parse (print x) = Inr x"
    and print_parse: "parse s = Inr x \<Longrightarrow> print x = s"
    and parse_error: "parse s = Inl e \<Longrightarrow> e = Runtime_error"
begin

lemma print_inject: "print x = print y \<longleftrightarrow> x = y"
  by (metis Inr_inject parse_print)

lemma parse_inject: "parse s = Inr x \<Longrightarrow> parse t = Inr x \<Longrightarrow> s = t"
  using print_parse by blast

lemma parse_rejects: "(\<forall>x. print x \<noteq> s) \<longleftrightarrow> parse s = Inl Runtime_error"
proof
  assume *: "\<forall>x. print x \<noteq> s"
  show "parse s = Inl Runtime_error"
  proof (cases "parse s")
    case (Inl e)
    then show ?thesis using parse_error by blast
  next
    case (Inr x)
    then show ?thesis using * print_parse by blast
  qed
next
  assume "parse s = Inl Runtime_error"
  then show "\<forall>x. print x \<noteq> s" using parse_print by force
qed

end

subsection \<open>Chunking strategy\<close>

datatype chunking_strategy = FixedSize | FastCdc

fun chunking_strategy_to_string :: "chunking_strategy \<Rightarrow> string" where
  "chunking_strategy_to_string FixedSize = ''fixed-size''"
| "chunking_strategy_to_string FastCdc = ''fastcdc''"

definition chunking_strategy_from_string :: "string \<Rightarrow> chunking_strategy res" where
  "chunking_strategy_from_string s =
     (if s = ''fixed-size'' then Inr FixedSize
      else if s = ''fastcdc'' then Inr FastCdc
      else Inl Runtime_error)"

fun chunking_strategy_code :: "chunking_strategy \<Rightarrow> u8" where
  "chunking_strategy_code FixedSize = 1"
| "chunking_strategy_code FastCdc = 2"

interpretation strategy: text_codec chunking_strategy_to_string chunking_strategy_from_string
proof
  show "chunking_strategy_from_string (chunking_strategy_to_string x) = Inr x" for x
    by (cases x) (simp_all add: chunking_strategy_from_string_def)
qed (auto simp: chunking_strategy_from_string_def split: if_splits)

lemma chunking_strategy_code_inject:
  "chunking_strategy_code x = chunking_strategy_code y \<longleftrightarrow> x = y"
  by (cases x; cases y) simp_all

subsection \<open>States of stored rows\<close>

datatype version_state = Staging | VersionCommitted | Failed

fun version_state_to_string :: "version_state \<Rightarrow> string" where
  "version_state_to_string Staging = ''staging''"
| "version_state_to_string VersionCommitted = ''committed''"
| "version_state_to_string Failed = ''failed''"

definition version_state_from_string :: "string \<Rightarrow> version_state res" where
  "version_state_from_string s =
     (if s = ''staging'' then Inr Staging
      else if s = ''committed'' then Inr VersionCommitted
      else if s = ''failed'' then Inr Failed
      else Inl Runtime_error)"

interpretation version_state: text_codec version_state_to_string version_state_from_string
proof
  show "version_state_from_string (version_state_to_string x) = Inr x" for x
    by (cases x) (simp_all add: version_state_from_string_def)
qed (auto simp: version_state_from_string_def split: if_splits)

datatype storage_location_state = Available | Missing | Corrupt

fun storage_location_state_to_string :: "storage_location_state \<Rightarrow> string" where
  "storage_location_state_to_string Available = ''available''"
| "storage_location_state_to_string Missing = ''missing''"
| "storage_location_state_to_string Corrupt = ''corrupt''"

definition storage_location_state_from_string :: "string \<Rightarrow> storage_location_state res" where
  "storage_location_state_from_string s =
     (if s = ''available'' then Inr Available
      else if s = ''missing'' then Inr Missing
      else if s = ''corrupt'' then Inr Corrupt
      else Inl Runtime_error)"

interpretation location_state:
  text_codec storage_location_state_to_string storage_location_state_from_string
proof
  show "storage_location_state_from_string (storage_location_state_to_string x) = Inr x" for x
    by (cases x) (simp_all add: storage_location_state_from_string_def)
qed (auto simp: storage_location_state_from_string_def split: if_splits)

datatype storage_node_state = Active | Draining | Disabled

fun storage_node_state_to_string :: "storage_node_state \<Rightarrow> string" where
  "storage_node_state_to_string Active = ''active''"
| "storage_node_state_to_string Draining = ''draining''"
| "storage_node_state_to_string Disabled = ''disabled''"

definition storage_node_state_from_string :: "string \<Rightarrow> storage_node_state res" where
  "storage_node_state_from_string s =
     (if s = ''active'' then Inr Active
      else if s = ''draining'' then Inr Draining
      else if s = ''disabled'' then Inr Disabled
      else Inl Runtime_error)"

interpretation node_state: text_codec storage_node_state_to_string storage_node_state_from_string
proof
  show "storage_node_state_from_string (storage_node_state_to_string x) = Inr x" for x
    by (cases x) (simp_all add: storage_node_state_from_string_def)
qed (auto simp: storage_node_state_from_string_def split: if_splits)

datatype upload_session_state = SessionOpen | SessionCommitted | SessionAborted

fun upload_session_state_to_string :: "upload_session_state \<Rightarrow> string" where
  "upload_session_state_to_string SessionOpen = ''open''"
| "upload_session_state_to_string SessionCommitted = ''committed''"
| "upload_session_state_to_string SessionAborted = ''aborted''"

definition upload_session_state_from_string :: "string \<Rightarrow> upload_session_state res" where
  "upload_session_state_from_string s =
     (if s = ''open'' then Inr SessionOpen
      else if s = ''committed'' then Inr SessionCommitted
      else if s = ''aborted'' then Inr SessionAborted
      else Inl Runtime_error)"

interpretation session_state: text_codec upload_session_state_to_string upload_session_state_from_string
proof
  show "upload_session_state_from_string (upload_session_state_to_string x) = Inr x" for x
    by (cases x) (simp_all add: upload_session_state_from_string_def)
qed (auto simp: upload_session_state_from_string_def split: if_splits)

subsection \<open>Garbage collection and replication runs\<close>

datatype gc_run_mode = GcApply | GcDryRun

fun gc_run_mode_to_string :: "gc_run_mode \<Rightarrow> string" where
  "gc_run_mode_to_string GcApply = ''apply''"
| "gc_run_mode_to_string GcDryRun = ''dry-run''"

definition gc_run_mode_from_string :: "string \<Rightarrow> gc_run_mode res" where
  "gc_run_mode_from_string s =
     (if s = ''apply'' then Inr GcApply
      else if s = ''dry-run'' then Inr GcDryRun
      else Inl Runtime_error)"

interpretation gc_mode: text_codec gc_run_mode_to_string gc_run_mode_from_string
proof
  show "gc_run_mode_from_string (gc_run_mode_to_string x) = Inr x" for x
    by (cases x) (simp_all add: gc_run_mode_from_string_def)
qed (auto simp: gc_run_mode_from_string_def split: if_splits)

datatype gc_run_state = GcOpen | GcCompleted

fun gc_run_state_to_string :: "gc_run_state \<Rightarrow> string" where
  "gc_run_state_to_string GcOpen = ''open''"
| "gc_run_state_to_string GcCompleted = ''completed''"

definition gc_run_state_from_string :: "string \<Rightarrow> gc_run_state res" where
  "gc_run_state_from_string s =
     (if s = ''open'' then Inr GcOpen
      else if s = ''completed'' then Inr GcCompleted
      else Inl Runtime_error)"

interpretation gc_state: text_codec gc_run_state_to_string gc_run_state_from_string
proof
  show "gc_run_state_from_string (gc_run_state_to_string x) = Inr x" for x
    by (cases x) (simp_all add: gc_run_state_from_string_def)
qed (auto simp: gc_run_state_from_string_def split: if_splits)

datatype replication_run_state = ReplOpen | ReplCompleted

fun replication_run_state_to_string :: "replication_run_state \<Rightarrow> string" where
  "replication_run_state_to_string ReplOpen = ''open''"
| "replication_run_state_to_string ReplCompleted = ''completed''"

definition replication_run_state_from_string :: "string \<Rightarrow> replication_run_state res" where
  "replication_run_state_from_string s =
     (if s = ''open'' then Inr ReplOpen
      else if s = ''completed'' then Inr ReplCompleted
      else Inl Runtime_error)"

interpretation repl_state:
  text_codec replication_run_state_to_string replication_run_state_from_string
proof
  show "replication_run_state_from_string (replication_run_state_to_string x) = Inr x" for x
    by (cases x) (simp_all add: replication_run_state_from_string_def)
qed (auto simp: replication_run_state_from_string_def split: if_splits)

subsection \<open>Lifecycle\<close>

datatype artifact_kind =
  Generic | ModelCheckpoint | DatasetSnapshot | EmbeddingIndex | EvaluationOutput

fun artifact_kind_to_string :: "artifact_kind \<Rightarrow> string" where
  "artifact_kind_to_string Generic = ''generic''"
| "artifact_kind_to_string ModelCheckpoint = ''model-checkpoint''"
| "artifact_kind_to_string DatasetSnapshot = ''dataset-snapshot''"
| "artifact_kind_to_string EmbeddingIndex = ''embedding-index''"
| "artifact_kind_to_string EvaluationOutput = ''evaluation-output''"

definition artifact_kind_from_string :: "string \<Rightarrow> artifact_kind res" where
  "artifact_kind_from_string s =
     (if s = ''generic'' then Inr Generic
      else if s = ''model-checkpoint'' then Inr ModelCheckpoint
      else if s = ''dataset-snapshot'' then Inr DatasetSnapshot
      else if s = ''embedding-index'' then Inr EmbeddingIndex
      else if s = ''evaluation-output'' then Inr EvaluationOutput
      else Inl Runtime_error)"

interpretation kind: text_codec artifact_kind_to_string artifact_kind_from_string
proof
  show "artifact_kind_from_string (artifact_kind_to_string x) = Inr x" for x
    by (cases x) (simp_all add: artifact_kind_from_string_def)
qed (auto simp: artifact_kind_from_string_def split: if_splits)

datatype lifecycle_run_mode = LifecycleDryRun | LifecycleApply

fun lifecycle_run_mode_to_string :: "lifecycle_run_mode \<Rightarrow> string" where
  "lifecycle_run_mode_to_string LifecycleDryRun = ''dry-run''"
| "lifecycle_run_mode_to_string LifecycleApply = ''apply''"

definition lifecycle_run_mode_from_string :: "string \<Rightarrow> lifecycle_run_mode res" where
  "lifecycle_run_mode_from_string s =
     (if s = ''dry-run'' then Inr LifecycleDryRun
      else if s = ''apply'' then Inr LifecycleApply
      else Inl Runtime_error)"

interpretation lifecycle_mode: text_codec lifecycle_run_mode_to_string lifecycle_run_mode_from_string
proof
  show "lifecycle_run_mode_from_string (lifecycle_run_mode_to_string x) = Inr x" for x
    by (cases x) (simp_all add: lifecycle_run_mode_from_string_def)
qed (auto simp: lifecycle_run_mode_from_string_def split: if_splits)

datatype lifecycle_decision_reason =
  Pinned | Tagged | ManifestReferenced | KeepLastN | AgeNotReached | PolicyRetire

fun lifecycle_decision_reason_to_string :: "lifecycle_decision_reason \<Rightarrow> string" where
  "lifecycle_decision_reason_to_string Pinned = ''pinned''"
| "lifecycle_decision_reason_to_string Tagged = ''tagged''"
| "lifecycle_decision_reason_to_string ManifestReferenced = ''manifest-referenced''"
| "lifecycle_decision_reason_to_string KeepLastN = ''keep-last-n''"
| "lifecycle_decision_reason_to_string AgeNotReached = ''age-not-reached''"
| "lifecycle_decision_reason_to_string PolicyRetire = ''policy-retire''"

definition lifecycle_decision_reason_from_string :: "string \<Rightarrow> lifecycle_decision_reason res" where
  "lifecycle_decision_reason_from_string s =
     (if s = ''pinned'' then Inr Pinned
      else if s = ''tagged'' then Inr Tagged
      else if s = ''manifest-referenced'' then Inr ManifestReferenced
      else if s = ''keep-last-n'' then Inr KeepLastN
      else if s = ''age-not-reached'' then Inr AgeNotReached
      else if s = ''policy-retire'' then Inr PolicyRetire
      else Inl Runtime_error)"

interpretation reason:
  text_codec lifecycle_decision_reason_to_string lifecycle_decision_reason_from_string
proof
  show "lifecycle_decision_reason_from_string (lifecycle_decision_reason_to_string x) = Inr x" for x
    by (cases x) (simp_all add: lifecycle_decision_reason_from_string_def)
qed (auto simp: lifecycle_decision_reason_from_string_def split: if_splits)

end
