(* ===== verification/Bytes.thy ===== *)
theory Bytes
  imports Prelude
begin

section \<open>Canonical byte encodings and hexadecimal identifiers\<close>

text \<open>
  The helpers every canonical descriptor is built from: big-endian integers, length-prefixed
  strings, hexadecimal identifiers appended as raw bytes, and the rendering of a digest in lowercase
  hexadecimal. The C++ code repeats them in each file that serializes (\<open>object_layout_descriptor.cpp\<close>,
  \<open>artifact_model.cpp\<close>, \<open>manifest_model.cpp\<close>); the copies are identical and modelled once.

  The lemmas of the collection \<open>enc_inject\<close> split an equation between two encodings at the field
  boundary: equal concatenations have equal first fields and equal rests.
\<close>

named_theorems enc_inject \<open>two encodings followed by rests are equal only field by field\<close>

subsection \<open>Big-endian integers\<close>

definition append_uint32_big_endian :: "byte list \<Rightarrow> u32 \<Rightarrow> byte list" where
  "append_uint32_big_endian out v =
     out @ map (\<lambda>shift. ucast (drop_bit shift v AND 0xFF)) [24, 16, 8, 0]"

definition append_uint64_big_endian :: "byte list \<Rightarrow> u64 \<Rightarrow> byte list" where
  "append_uint64_big_endian out v =
     out @ map (\<lambda>shift. ucast (drop_bit shift v AND 0xFF)) [56, 48, 40, 32, 24, 16, 8, 0]"

abbreviation uint32_be :: "u32 \<Rightarrow> byte list" where
  "uint32_be v \<equiv> append_uint32_big_endian [] v"

abbreviation uint64_be :: "u64 \<Rightarrow> byte list" where
  "uint64_be v \<equiv> append_uint64_big_endian [] v"

lemma append_uint32_eq: "append_uint32_big_endian out v = out @ uint32_be v"
  by (simp add: append_uint32_big_endian_def)

lemma append_uint64_eq: "append_uint64_big_endian out v = out @ uint64_be v"
  by (simp add: append_uint64_big_endian_def)

lemma length_uint32_be [simp]: "length (uint32_be v) = 4"
  by (simp add: append_uint32_big_endian_def)

lemma length_uint64_be [simp]: "length (uint64_be v) = 8"
  by (simp add: append_uint64_big_endian_def)

lemma bit_byte_of:
  "i < 8 \<Longrightarrow> bit (ucast (drop_bit s (v :: u64) AND 0xFF) :: byte) i \<longleftrightarrow> bit v (s + i)"
proof -
  assume i: "i < 8"
  have mask: "(0xFF :: u64) = mask 8" by (simp add: mask_eq_exp_minus_1)
  show ?thesis
    using i unfolding mask
    by (auto simp: bit_simps bit_mask_iff dest: bit_imp_le_length)
qed

lemma bit_of_byte_eq:
  fixes v w :: u64
  assumes "(ucast (drop_bit s v AND 0xFF) :: byte) = ucast (drop_bit s w AND 0xFF)" and "i < 8"
  shows "bit v (s + i) \<longleftrightarrow> bit w (s + i)"
  using assms bit_byte_of by metis

lemma uint64_be_inject [enc_inject, simp]: "uint64_be v = uint64_be w \<longleftrightarrow> v = w"
proof
  assume eq: "uint64_be v = uint64_be w"
  show "v = w"
  proof (rule bit_word_eqI)
    fix n
    assume n: "n < LENGTH(64)"
    define i where "i = n mod 8"
    define s where "s = 8 * (n div 8)"
    have ni: "n = s + i" and i: "i < 8" by (simp_all add: i_def s_def)
    from n have "n div 8 \<in> {0, 1, 2, 3, 4, 5, 6, 7}" by auto
    then have "s \<in> {0, 8, 16, 24, 32, 40, 48, 56}" by (auto simp: s_def)
    then have "(ucast (drop_bit s v AND 0xFF) :: byte) = ucast (drop_bit s w AND 0xFF)"
      using eq by (auto simp: append_uint64_big_endian_def)
    then show "bit v n \<longleftrightarrow> bit w n" unfolding ni using i by (rule bit_of_byte_eq)
  qed
qed simp

lemma uint64_be_append_inject [enc_inject]:
  "uint64_be v @ xs = uint64_be w @ ys \<longleftrightarrow> v = w \<and> xs = ys"
  by (subst append_eq_append_same_length) simp_all

subsection \<open>Hexadecimal identifiers\<close>

definition is_digit_char :: "char \<Rightarrow> bool" where
  "is_digit_char c \<longleftrightarrow> CHR ''0'' \<le> c \<and> c \<le> CHR ''9''"

definition is_lower_hex :: "char \<Rightarrow> bool" where
  "is_lower_hex c \<longleftrightarrow> is_digit_char c \<or> (CHR ''a'' \<le> c \<and> c \<le> CHR ''f'')"

definition hex_nibble :: "char \<Rightarrow> u8 res" where
  "hex_nibble c =
     (if CHR ''0'' \<le> c \<and> c \<le> CHR ''9'' then Inr (byte_of_char c - byte_of_char (CHR ''0''))
      else if CHR ''a'' \<le> c \<and> c \<le> CHR ''f'' then Inr (10 + (byte_of_char c - byte_of_char (CHR ''a'')))
      else Inl Logic_error)"

text \<open>The loop over pairs of characters. The callers check an even length first; a trailing single
  character is an out-of-range read in the source and an error here.\<close>

fun append_hex_pairs :: "byte list \<Rightarrow> string \<Rightarrow> byte list res" where
  "append_hex_pairs out [] = Inr out"
| "append_hex_pairs out [c] = Inl Logic_error"
| "append_hex_pairs out (c # d # rest) =
     rbind (hex_nibble c) (\<lambda>high.
     rbind (hex_nibble d) (\<lambda>low.
     append_hex_pairs (out @ [push_bit 4 high OR low]) rest))"

definition append_hex_id :: "byte list \<Rightarrow> string \<Rightarrow> nat \<Rightarrow> byte list res" where
  "append_hex_id out hex_id expected_hex_length =
     (if length hex_id \<noteq> expected_hex_length then Inl Logic_error
      else append_hex_pairs out hex_id)"

definition append_content_id :: "byte list \<Rightarrow> string \<Rightarrow> byte list res" where
  "append_content_id out content_id =
     (if length content_id \<noteq> 64 then Inl Logic_error
      else append_hex_pairs out content_id)"

definition hex_digits :: string where
  "hex_digits = ''0123456789abcdef''"

definition digest_to_hex :: "byte list \<Rightarrow> string" where
  "digest_to_hex digest =
     concat (map (\<lambda>b. [hex_digits ! unat (drop_bit 4 b AND 0x0F), hex_digits ! unat (b AND 0x0F)]) digest)"

definition bytes_to_hex :: "byte list \<Rightarrow> string" where
  "bytes_to_hex bs =
     concat (map (\<lambda>b. [hex_digits ! unat (drop_bit 4 b AND 0x0F), hex_digits ! unat (b AND 0x0F)]) bs)"

lemma bytes_to_hex_eq: "bytes_to_hex = digest_to_hex"
  by (simp add: fun_eq_iff bytes_to_hex_def digest_to_hex_def)

subsection \<open>Length-prefixed strings\<close>

definition append_string :: "byte list \<Rightarrow> string \<Rightarrow> byte list" where
  "append_string out s = append_uint64_big_endian out (of_nat (length s)) @ as_bytes s"

text \<open>A length that a \<open>std::size_t\<close> holds, as every length in the program does.\<close>

definition fits64 :: "'a list \<Rightarrow> bool" where
  "fits64 xs \<longleftrightarrow> length xs < 2 ^ 64"

lemma of_nat_u64_inject: "m < 2 ^ 64 \<Longrightarrow> n < 2 ^ 64 \<Longrightarrow> (of_nat m :: u64) = of_nat n \<longleftrightarrow> m = n"
  by (simp add: word_of_nat_eq_iff take_bit_eq_mod)


lemma append_string_inject [enc_inject]:
  assumes "fits64 s" and "fits64 t"
  shows "append_string [] s @ xs = append_string [] t @ ys \<longleftrightarrow> s = t \<and> xs = ys"
proof
  assume eq: "append_string [] s @ xs = append_string [] t @ ys"
  then have "(of_nat (length s) :: u64) = of_nat (length t)"
    and rest: "as_bytes s @ xs = as_bytes t @ ys"
    by (simp_all add: append_string_def uint64_be_append_inject)
  with assms have "length s = length t" by (simp add: fits64_def of_nat_u64_inject)
  with rest have "as_bytes s = as_bytes t \<and> xs = ys" by simp
  then show "s = t \<and> xs = ys" by (simp add: as_bytes_inject)
qed auto

lemma append_string_eq: "append_string out s = out @ append_string [] s"
  by (simp add: append_string_def append_uint64_big_endian_def)

subsection \<open>Hexadecimal round trips\<close>

lemma lower_hex_cases:
  assumes "is_lower_hex c"
  shows "c \<in> set hex_digits"
proof -
  define n where "n = (of_char c :: nat)"
  have c: "c = char_of n" by (simp add: n_def)
  have digit: "48 \<le> n \<Longrightarrow> n \<le> 57 \<Longrightarrow> n = 48 \<or> n = 49 \<or> n = 50 \<or> n = 51 \<or> n = 52 \<or> n = 53
    \<or> n = 54 \<or> n = 55 \<or> n = 56 \<or> n = 57" by presburger
  have letter: "97 \<le> n \<Longrightarrow> n \<le> 102 \<Longrightarrow> n = 97 \<or> n = 98 \<or> n = 99 \<or> n = 100 \<or> n = 101 \<or> n = 102"
    by presburger
  from assms have "48 \<le> n \<and> n \<le> 57 \<or> 97 \<le> n \<and> n \<le> 102"
    by (simp add: is_lower_hex_def is_digit_char_def less_eq_char_def n_def)
  then show ?thesis
  proof
    assume "48 \<le> n \<and> n \<le> 57"
    then have "n = 48 \<or> n = 49 \<or> n = 50 \<or> n = 51 \<or> n = 52 \<or> n = 53 \<or> n = 54 \<or> n = 55 \<or> n = 56
      \<or> n = 57" using digit by blast
    then show ?thesis unfolding c hex_digits_def by (elim disjE) (simp_all add: char_of_def bit_0)
  next
    assume "97 \<le> n \<and> n \<le> 102"
    then have "n = 97 \<or> n = 98 \<or> n = 99 \<or> n = 100 \<or> n = 101 \<or> n = 102" using letter by blast
    then show ?thesis unfolding c hex_digits_def by (elim disjE) (simp_all add: char_of_def bit_0)
  qed
qed

lemma nibble_cases:
  "(n :: nat) < 16 \<Longrightarrow> n \<in> {0, 1, 2, 3, 4, 5, 6, 7, 8, 9, 10, 11, 12, 13, 14, 15}"
  unfolding insert_iff empty_iff by presburger

lemma hex_digits_lower_hex: "n < 16 \<Longrightarrow> is_lower_hex (hex_digits ! n)"
proof -
  assume "n < 16"
  then have "n \<in> {0, 1, 2, 3, 4, 5, 6, 7, 8, 9, 10, 11, 12, 13, 14, 15}" by (rule nibble_cases)
  then show ?thesis by (auto simp: hex_digits_def is_lower_hex_def is_digit_char_def)
qed

lemma hex_nibble_hex_digits: "n < 16 \<Longrightarrow> hex_nibble (hex_digits ! n) = Inr (of_nat n)"
proof -
  assume "n < 16"
  then have "n \<in> {0, 1, 2, 3, 4, 5, 6, 7, 8, 9, 10, 11, 12, 13, 14, 15}" by (rule nibble_cases)
  then show ?thesis by (auto simp: hex_digits_def hex_nibble_def byte_of_char_def)
qed

lemma hex_nibble_ok_iff: "(\<exists>h. hex_nibble c = Inr h) \<longleftrightarrow> is_lower_hex c"
  by (simp add: hex_nibble_def is_lower_hex_def is_digit_char_def)

lemma hex_nibble_value:
  assumes "hex_nibble c = Inr h"
  shows "unat h < 16" and "hex_digits ! unat h = c"
proof -
  from assms have "is_lower_hex c" using hex_nibble_ok_iff by blast
  then have "unat h < 16 \<and> hex_digits ! unat h = c"
    using lower_hex_cases [of c] assms
    by (auto simp: hex_nibble_def hex_digits_def byte_of_char_def)
  then show "unat h < 16" and "hex_digits ! unat h = c" by simp_all
qed

lemma small_nibble_bit: "unat (l :: u8) < 16 \<Longrightarrow> 4 \<le> n \<Longrightarrow> \<not> bit l n"
proof -
  assume "unat l < 16" and n: "4 \<le> n"
  then have "take_bit 4 (unat l) = unat l" by (simp add: take_bit_nat_eq_self)
  with n have "\<not> bit (unat l) n" by (metis bit_take_bit_iff not_less)
  then show "\<not> bit l n" by (simp add: bit_simps)
qed

lemma nibble_mask: "(0x0F :: u8) = mask 4"
  by (simp add: mask_eq_exp_minus_1)

lemma nibble_bound: "unat (b AND 0x0F :: u8) < 16"
proof -
  have "b AND 0x0F \<le> (0x0F :: u8)" by (rule word_and_le1)
  then show ?thesis by (simp add: word_le_nat_alt)
qed

lemma join_nibbles:
  assumes "unat (h :: u8) < 16" and "unat l < 16"
  shows "drop_bit 4 (push_bit 4 h OR l) AND 0x0F = h"
    and "(push_bit 4 h OR l) AND 0x0F = l"
  using assms unfolding nibble_mask
  by (auto intro!: bit_word_eqI simp: bit_simps bit_mask_iff small_nibble_bit not_less
      dest: small_nibble_bit intro: ccontr)

lemma split_nibbles: "push_bit 4 (drop_bit 4 b AND 0x0F) OR (b AND 0x0F) = (b :: u8)"
  unfolding nibble_mask
  by (rule bit_word_eqI) (auto simp: bit_simps bit_mask_iff)

lemma append_hex_pairs_eq:
  "append_hex_pairs out s = rbind (append_hex_pairs [] s) (\<lambda>bs. Inr (out @ bs))"
proof (induction s arbitrary: out rule: induct_list012)
  case (3 c d rest)
  show ?case
  proof (cases "hex_nibble c")
    case (Inr h)
    note h = this
    show ?thesis
    proof (cases "hex_nibble d")
      case (Inr l)
      show ?thesis
        using h Inr "3.IH"(1) [of "out @ [push_bit 4 h OR l]"] "3.IH"(1) [of "[push_bit 4 h OR l]"]
        by (simp add: rbind_def split: sum.splits)
    qed (simp add: h)
  qed simp
qed simp_all

lemma append_hex_pairs_length:
  "append_hex_pairs [] s = Inr bs \<Longrightarrow> length s = 2 * length bs"
proof (induction s arbitrary: bs rule: induct_list012)
  case (3 c d rest)
  then obtain h l cs where "hex_nibble c = Inr h" "hex_nibble d = Inr l"
    and "append_hex_pairs [] rest = Inr cs" "bs = (push_bit 4 h OR l) # cs"
    by (auto simp: rbind_eq_Inr append_hex_pairs_eq [of "[_]"])
  with "3.IH"(1) show ?case by simp
qed simp_all

lemma digest_to_hex_Cons:
  "digest_to_hex (b # bs) =
   hex_digits ! unat (drop_bit 4 b AND 0x0F) # hex_digits ! unat (b AND 0x0F) # digest_to_hex bs"
  by (simp add: digest_to_hex_def)

lemma append_hex_pairs_print:
  "append_hex_pairs [] s = Inr bs \<Longrightarrow> digest_to_hex bs = s"
proof (induction s arbitrary: bs rule: induct_list012)
  case (3 c d rest)
  then obtain h l cs where hl: "hex_nibble c = Inr h" "hex_nibble d = Inr l"
    and cs: "append_hex_pairs [] rest = Inr cs" "bs = (push_bit 4 h OR l) # cs"
    by (auto simp: rbind_eq_Inr append_hex_pairs_eq [of "[_]"])
  note nibble = hex_nibble_value [OF hl(1)] hex_nibble_value [OF hl(2)]
  show ?case
    using "3.IH"(1) [OF cs(1)] unfolding cs(2) digest_to_hex_Cons join_nibbles [OF nibble(1,3)]
    by (simp add: nibble)
qed (simp_all add: digest_to_hex_def)

lemma append_hex_pairs_ok_iff:
  "(\<exists>bs. append_hex_pairs [] s = Inr bs) \<longleftrightarrow> even (length s) \<and> (\<forall>c \<in> set s. is_lower_hex c)"
proof (induction s rule: induct_list012)
  case (3 c d rest)
  then show ?case
    using hex_nibble_ok_iff [of c] hex_nibble_ok_iff [of d]
    by (auto simp: rbind_eq_Inr append_hex_pairs_eq [of "[_]"])
qed simp_all

lemma unat_to_word: "of_nat (unat (w :: u8)) = w"
  by simp

lemma append_hex_pairs_digest: "append_hex_pairs [] (digest_to_hex bs) = Inr bs"
proof (induction bs)
  case (Cons b bs)
  note small = nibble_bound [of "drop_bit 4 b"] nibble_bound [of b]
  show ?case
    unfolding digest_to_hex_Cons append_hex_pairs.simps
      hex_nibble_hex_digits [OF small(1)] hex_nibble_hex_digits [OF small(2)]
    by (simp only: rbind_simps append_hex_pairs_eq [of "[b]"] Cons.IH append_Nil append_Cons
        unat_to_word split_nibbles)
qed (simp add: digest_to_hex_def)

lemma length_digest_to_hex: "length (digest_to_hex bs) = 2 * length bs"
  by (induction bs) (simp_all add: digest_to_hex_def)

lemma digest_to_hex_inject [simp]: "digest_to_hex bs = digest_to_hex cs \<longleftrightarrow> bs = cs"
  by (metis Inr_inject append_hex_pairs_digest)

subsection \<open>Content identifiers\<close>

text \<open>64 lowercase hexadecimal characters: what every identifier validator of the program accepts.\<close>

definition is_content_id :: "string \<Rightarrow> bool" where
  "is_content_id s \<longleftrightarrow> length s = 64 \<and> (\<forall>c \<in> set s. is_lower_hex c)"

lemma is_content_id_digest: "length bs = 32 \<Longrightarrow> is_content_id (digest_to_hex bs)"
  using append_hex_pairs_ok_iff [of "digest_to_hex bs"] append_hex_pairs_digest [of bs]
  by (auto simp: is_content_id_def length_digest_to_hex)

text \<open>The raw bytes of an identifier, for identifiers that have them.\<close>

definition hex_bytes :: "string \<Rightarrow> byte list" where
  "hex_bytes s = (case append_hex_pairs [] s of Inr bs \<Rightarrow> bs | Inl _ \<Rightarrow> [])"

lemma append_hex_pairs_bytes:
  "even (length s) \<Longrightarrow> \<forall>c \<in> set s. is_lower_hex c \<Longrightarrow>
   append_hex_pairs out s = Inr (out @ hex_bytes s)"
  using append_hex_pairs_ok_iff [of s]
  by (auto simp: append_hex_pairs_eq [of out] hex_bytes_def)

lemma length_hex_bytes:
  "even (length s) \<Longrightarrow> \<forall>c \<in> set s. is_lower_hex c \<Longrightarrow> length (hex_bytes s) = length s div 2"
  using append_hex_pairs_ok_iff [of s] append_hex_pairs_length [of s]
  by (auto simp: hex_bytes_def)

lemma hex_bytes_inject:
  assumes "even (length s)" "\<forall>c \<in> set s. is_lower_hex c"
    and "even (length t)" "\<forall>c \<in> set t. is_lower_hex c"
  shows "hex_bytes s = hex_bytes t \<longleftrightarrow> s = t"
proof
  assume eq: "hex_bytes s = hex_bytes t"
  have "digest_to_hex ([] @ hex_bytes s) = s"
    by (rule append_hex_pairs_print [OF append_hex_pairs_bytes [OF assms(1,2)]])
  moreover have "digest_to_hex ([] @ hex_bytes t) = t"
    by (rule append_hex_pairs_print [OF append_hex_pairs_bytes [OF assms(3,4)]])
  ultimately show "s = t" using eq by simp
qed simp

lemma append_content_id_ok: "is_content_id s \<Longrightarrow> append_content_id out s = Inr (out @ hex_bytes s)"
  by (simp add: append_content_id_def is_content_id_def append_hex_pairs_bytes)

lemma append_hex_id_ok: "is_content_id s \<Longrightarrow> append_hex_id out s 64 = Inr (out @ hex_bytes s)"
  by (simp add: append_hex_id_def is_content_id_def append_hex_pairs_bytes)

lemma length_content_id_bytes: "is_content_id s \<Longrightarrow> length (hex_bytes s) = 32"
  using length_hex_bytes [of s] by (simp add: is_content_id_def)

lemma content_id_bytes_append_inject [enc_inject]:
  assumes "is_content_id s" and "is_content_id t"
  shows "hex_bytes s @ xs = hex_bytes t @ ys \<longleftrightarrow> s = t \<and> xs = ys"
proof -
  have "hex_bytes s = hex_bytes t \<longleftrightarrow> s = t"
    using assms by (intro hex_bytes_inject) (auto simp: is_content_id_def)
  moreover have "length (hex_bytes s) = length (hex_bytes t)"
    by (simp only: length_content_id_bytes [OF assms(1)] length_content_id_bytes [OF assms(2)])
  ultimately show ?thesis by (simp only: append_eq_append_same_length)
qed

end
