(* ===== verification/Chunking.thy ===== *)
theory Chunking
  imports Bytes Enums
begin

section \<open>Content chunking\<close>

text \<open>
  The two chunkers of \<open>src/chunking\<close>, and the validation of FastCDC parameters of
  \<open>src/metadata/chunking.cpp\<close>. A chunker buffers bytes and hands finished chunks to a consumer;
  the consumer is called synchronously and cannot reach the chunker, so \<open>update\<close> and \<open>finalize\<close>
  return the chunks they hand out, in order. The argument \<open>consumer\<close> says whether the
  \<open>std::function\<close> holds a target, which the code checks. \<open>std::size_t\<close> lengths of in-memory
  buffers are \<open>nat\<close>; offsets in the object are 64-bit words.

  Both chunkers meet the contract of the locale \<open>content_chunker\<close>: no byte is lost, reordered or
  invented, chunks are non-empty and contiguous, and their bounds do not depend on how the input
  was cut into reads.
\<close>

record chunk_buffer =
  cb_offset :: u64
  cb_bytes :: "byte list"

text \<open>The bytes of a list of chunks, and chunks that follow each other from \<open>off\<close> to \<open>off'\<close>.\<close>

definition chunk_bytes :: "chunk_buffer list \<Rightarrow> byte list" where
  "chunk_bytes chunks = concat (map cb_bytes chunks)"

fun contiguous_chunks :: "u64 \<Rightarrow> chunk_buffer list \<Rightarrow> u64 \<Rightarrow> bool" where
  "contiguous_chunks off [] off' \<longleftrightarrow> off' = off"
| "contiguous_chunks off (c # cs) off' \<longleftrightarrow>
     cb_offset c = off \<and> contiguous_chunks (off + of_nat (length (cb_bytes c))) cs off'"

lemma chunk_bytes_simps [simp]:
  "chunk_bytes [] = []"
  "chunk_bytes (c # cs) = cb_bytes c @ chunk_bytes cs"
  "chunk_bytes (cs @ ds) = chunk_bytes cs @ chunk_bytes ds"
  by (simp_all add: chunk_bytes_def)

lemma contiguous_chunks_append:
  "contiguous_chunks off (xs @ ys) off'' \<longleftrightarrow>
   (\<exists>off'. contiguous_chunks off xs off' \<and> contiguous_chunks off' ys off'')"
  by (induction xs arbitrary: off) auto

lemma contiguous_chunks_end:
  "contiguous_chunks off xs off' \<Longrightarrow> off' = off + of_nat (length (chunk_bytes xs))"
proof (induction xs arbitrary: off)
  case (Cons c cs)
  then have "off' = off + of_nat (length (cb_bytes c)) + of_nat (length (chunk_bytes cs))" by simp
  then show ?case by (simp add: add.assoc)
qed simp

text \<open>
  Feeding the reads of a file to a chunker and finishing it: the loop that the two scans of the push
  engine run over the callbacks of their chunker.
\<close>

type_synonym 'c chunk_step = "'c \<Rightarrow> byte list \<Rightarrow> bool \<Rightarrow> ('c \<times> chunk_buffer list) res"
type_synonym 'c chunk_finish = "'c \<Rightarrow> bool \<Rightarrow> ('c \<times> chunk_buffer list) res"

fun feed_reads :: "'c chunk_step \<Rightarrow> 'c \<Rightarrow> byte list list \<Rightarrow> ('c \<times> chunk_buffer list) res" where
  "feed_reads update c [] = Inr (c, [])"
| "feed_reads update c (r # rs) =
     rbind (update c r True) (\<lambda>(c', out).
     rbind (feed_reads update c' rs) (\<lambda>(c'', out'). Inr (c'', out @ out')))"

definition scan_reads ::
  "'c chunk_step \<Rightarrow> 'c chunk_finish \<Rightarrow> 'c \<Rightarrow> byte list list \<Rightarrow> chunk_buffer list res" where
  "scan_reads update finish c reads =
     rbind (feed_reads update c reads) (\<lambda>(c', out).
     rbind (finish c' True) (\<lambda>(_, out'). Inr (out @ out')))"

subsection \<open>The contract\<close>

locale content_chunker =
  fixes update :: "'c \<Rightarrow> byte list \<Rightarrow> bool \<Rightarrow> ('c \<times> chunk_buffer list) res"
    and finish :: "'c \<Rightarrow> bool \<Rightarrow> ('c \<times> chunk_buffer list) res"
    and pending :: "'c \<Rightarrow> byte list"
    and position :: "'c \<Rightarrow> u64"
    and live :: "'c \<Rightarrow> bool"
    and limit :: "'c \<Rightarrow> nat"
  assumes update_ok: "live c \<Longrightarrow> \<exists>c' out. update c data True = Inr (c', out)"
    and update_live: "live c \<Longrightarrow> update c data True = Inr (c', out) \<Longrightarrow> live c' \<and> limit c' = limit c"
    and update_bytes: "live c \<Longrightarrow> update c data True = Inr (c', out) \<Longrightarrow>
      chunk_bytes out @ pending c' = pending c @ data"
    and update_contiguous: "live c \<Longrightarrow> update c data True = Inr (c', out) \<Longrightarrow>
      contiguous_chunks (position c) out (position c')"
    and update_sizes: "live c \<Longrightarrow> update c data True = Inr (c', out) \<Longrightarrow> ch \<in> set out \<Longrightarrow>
      cb_bytes ch \<noteq> [] \<and> length (cb_bytes ch) \<le> limit c"
    and update_append: "live c \<Longrightarrow> update c xs True = Inr (c', out) \<Longrightarrow>
      update c' ys True = Inr (c'', out') \<Longrightarrow> update c (xs @ ys) True = Inr (c'', out @ out')"
    and finish_ok: "live c \<Longrightarrow> \<exists>c'. finish c True =
      Inr (c', if pending c = [] then [] else [\<lparr>cb_offset = position c, cb_bytes = pending c\<rparr>])"
    and pending_bound: "live c \<Longrightarrow> length (pending c) \<le> limit c"
begin

lemma update_total:
  assumes "live c"
  obtains c' out where "update c data True = Inr (c', out)" "live c'" "limit c' = limit c"
    "chunk_bytes out @ pending c' = pending c @ data"
    "contiguous_chunks (position c) out (position c')"
    "\<forall>ch \<in> set out. cb_bytes ch \<noteq> [] \<and> length (cb_bytes ch) \<le> limit c"
proof -
  obtain c' out where u: "update c data True = Inr (c', out)" using update_ok [OF assms] by blast
  show ?thesis
    using that [OF u] update_live [OF assms u] update_bytes [OF assms u]
      update_contiguous [OF assms u] update_sizes [OF assms u] by blast
qed

lemma feed_total:
  assumes "live c"
  shows "\<exists>c' out. feed_reads update c reads = Inr (c', out) \<and> live c' \<and> limit c' = limit c \<and>
    chunk_bytes out @ pending c' = pending c @ concat reads \<and>
    contiguous_chunks (position c) out (position c') \<and>
    (\<forall>ch \<in> set out. cb_bytes ch \<noteq> [] \<and> length (cb_bytes ch) \<le> limit c)"
  using assms
proof (induction reads arbitrary: c)
  case (Cons r rs)
  obtain c' out where u: "update c r True = Inr (c', out)" "live c'" "limit c' = limit c"
    "chunk_bytes out @ pending c' = pending c @ r"
    "contiguous_chunks (position c) out (position c')"
    "\<forall>ch \<in> set out. cb_bytes ch \<noteq> [] \<and> length (cb_bytes ch) \<le> limit c"
    using Cons.prems by (rule update_total)
  obtain c'' out' where f: "feed_reads update c' rs = Inr (c'', out')" "live c''" "limit c'' = limit c'"
    "chunk_bytes out' @ pending c'' = pending c' @ concat rs"
    "contiguous_chunks (position c') out' (position c'')"
    "\<forall>ch \<in> set out'. cb_bytes ch \<noteq> [] \<and> length (cb_bytes ch) \<le> limit c'"
    using Cons.IH [OF u(2)] by blast
  have "chunk_bytes (out @ out') @ pending c'' = pending c @ concat (r # rs)"
    using u(4) f(4) by (metis append_assoc chunk_bytes_simps(3) concat.simps(2))
  moreover have "contiguous_chunks (position c) (out @ out') (position c'')"
    using u(5) f(5) by (auto simp: contiguous_chunks_append)
  ultimately show ?case using u f by auto
qed simp

lemma scan_total:
  assumes "live c"
  shows "\<exists>out. scan_reads update finish c reads = Inr out \<and> chunk_bytes out = pending c @ concat reads \<and>
    contiguous_chunks (position c) out (position c + of_nat (length (pending c @ concat reads))) \<and>
    (\<forall>ch \<in> set out. cb_bytes ch \<noteq> [] \<and> length (cb_bytes ch) \<le> limit c)"
proof -
  obtain c' out where f: "feed_reads update c reads = Inr (c', out)" "live c'" "limit c' = limit c"
    "chunk_bytes out @ pending c' = pending c @ concat reads"
    "contiguous_chunks (position c) out (position c')"
    "\<forall>ch \<in> set out. cb_bytes ch \<noteq> [] \<and> length (cb_bytes ch) \<le> limit c"
    using feed_total [OF assms] by blast
  define out' where "out' = (if pending c' = [] then []
    else [\<lparr>cb_offset = position c', cb_bytes = pending c'\<rparr>])"
  obtain d where d: "finish c' True = Inr (d, out')"
    using finish_ok [OF f(2)] out'_def by blast
  have s: "scan_reads update finish c reads = Inr (out @ out')" by (simp add: scan_reads_def f(1) d)
  have b: "chunk_bytes (out @ out') = pending c @ concat reads"
    using f(4) by (auto simp: out'_def)
  have k: "contiguous_chunks (position c) (out @ out') (position c' + of_nat (length (pending c')))"
    using f(5) by (auto simp: contiguous_chunks_append out'_def)
  have e: "position c' + of_nat (length (pending c')) =
      position c + of_nat (length (pending c @ concat reads))"
    using contiguous_chunks_end [OF k] unfolding b .
  have "\<forall>ch \<in> set (out @ out'). cb_bytes ch \<noteq> [] \<and> length (cb_bytes ch) \<le> limit c"
    using f(3,6) pending_bound [OF f(2)] by (auto simp: out'_def)
  then show ?thesis using s b k e by auto
qed

lemma feed_concat: "live c \<Longrightarrow> feed_reads update c reads = update c (concat reads) True \<or> reads = []"
proof (induction reads arbitrary: c)
  case (Cons r rs)
  obtain c' out where u: "update c r True = Inr (c', out)" "live c'"
    using update_total [OF Cons.prems, of r] by metis
  show ?case
  proof (cases "rs = []")
    case True
    then show ?thesis using u by simp
  next
    case False
    with Cons.IH [OF u(2)] have "feed_reads update c' rs = update c' (concat rs) True" by simp
    moreover obtain c'' out' where v: "update c' (concat rs) True = Inr (c'', out')"
      using update_ok [OF u(2)] by blast
    ultimately show ?thesis using update_append [OF Cons.prems u(1) v] u by simp
  qed
qed simp

text \<open>Content-defined: the chunks depend on the bytes, not on the reads that delivered them.\<close>

lemma scan_reads_irrelevant:
  assumes "live c" and "concat reads = concat reads'" and "reads \<noteq> []" and "reads' \<noteq> []"
  shows "scan_reads update finish c reads = scan_reads update finish c reads'"
  using feed_concat [OF assms(1), of reads] feed_concat [OF assms(1), of reads'] assms(2-4)
  by (simp add: scan_reads_def)

end


subsection \<open>Fixed-size chunks\<close>

record fixed_size_chunker =
  fs_chunk_size :: nat
  fs_buffer :: "byte list"
  fs_next_chunk_offset :: u64
  fs_finalized :: bool

definition fixed_size_chunker :: "nat \<Rightarrow> fixed_size_chunker res" where
  "fixed_size_chunker chunk_size =
     (if chunk_size = 0 then Inl Invalid_argument
      else Inr \<lparr>fs_chunk_size = chunk_size, fs_buffer = [], fs_next_chunk_offset = 0,
                fs_finalized = False\<rparr>)"

definition fs_emit_current_chunk :: "fixed_size_chunker \<Rightarrow> fixed_size_chunker \<times> chunk_buffer" where
  "fs_emit_current_chunk c =
     (let chunk = \<lparr>cb_offset = fs_next_chunk_offset c, cb_bytes = fs_buffer c\<rparr>
      in (c\<lparr>fs_buffer := [],
           fs_next_chunk_offset := fs_next_chunk_offset c + of_nat (length (cb_bytes chunk))\<rparr>,
          chunk))"

text \<open>What the constructor establishes and every operation keeps: a positive chunk size and a
  buffer that is not yet full between two iterations.\<close>

definition fs_invariant :: "fixed_size_chunker \<Rightarrow> bool" where
  "fs_invariant c \<longleftrightarrow> length (fs_buffer c) < fs_chunk_size c"

text \<open>
  The \<open>while (position < data.size())\<close> loop; \<open>data\<close> is the input from \<open>position\<close> on. The second
  disjunct of the exit test is never taken from a constructed chunker (\<open>fs_invariant\<close> holds at every
  iteration); it makes the recursion terminate for the records no constructor returns.
\<close>

function fs_update_loop ::
  "fixed_size_chunker \<Rightarrow> byte list \<Rightarrow> chunk_buffer list \<Rightarrow> fixed_size_chunker \<times> chunk_buffer list" where
  "fs_update_loop c data out =
     (if data = [] \<or> \<not> fs_invariant c then (c, out)
      else let remaining_capacity = fs_chunk_size c - length (fs_buffer c);
               bytes_to_copy = min remaining_capacity (length data);
               c' = c\<lparr>fs_buffer := fs_buffer c @ take bytes_to_copy data\<rparr>;
               data' = drop bytes_to_copy data
           in if length (fs_buffer c') = fs_chunk_size c'
              then let (c'', chunk) = fs_emit_current_chunk c' in fs_update_loop c'' data' (out @ [chunk])
              else fs_update_loop c' data' out)"
  by pat_completeness auto
termination
  by (relation "measure (\<lambda>(c, data, out). length data)") (auto simp: fs_invariant_def)

declare fs_update_loop.simps [simp del]

definition fs_update ::
  "fixed_size_chunker \<Rightarrow> byte list \<Rightarrow> bool \<Rightarrow> (fixed_size_chunker \<times> chunk_buffer list) res" where
  "fs_update c data consumer =
     (if fs_finalized c then Inl Logic_error
      else if \<not> consumer then Inl Invalid_argument
      else Inr (fs_update_loop c data []))"

definition fs_finalize ::
  "fixed_size_chunker \<Rightarrow> bool \<Rightarrow> (fixed_size_chunker \<times> chunk_buffer list) res" where
  "fs_finalize c consumer =
     (if fs_finalized c then Inl Logic_error
      else if \<not> consumer then Inl Invalid_argument
      else if fs_buffer c \<noteq> []
      then let (c', chunk) = fs_emit_current_chunk c in Inr (c'\<lparr>fs_finalized := True\<rparr>, [chunk])
      else Inr (c\<lparr>fs_finalized := True\<rparr>, []))"

definition fs_bytes_received :: "fixed_size_chunker \<Rightarrow> u64" where
  "fs_bytes_received c = fs_next_chunk_offset c + of_nat (length (fs_buffer c))"

text \<open>The reference: cut a byte string into pieces of \<open>n\<close>, with a shorter last piece.\<close>

function pieces :: "nat \<Rightarrow> 'a list \<Rightarrow> 'a list list" where
  "pieces n xs = (if xs = [] \<or> n = 0 then [] else take n xs # pieces n (drop n xs))"
  by pat_completeness auto
termination
  by (relation "measure (\<lambda>(n, xs). length xs)") auto

declare pieces.simps [simp del]

lemma pieces_Nil [simp]: "pieces n [] = []"
  by (simp add: pieces.simps)

lemma pieces_short: "xs \<noteq> [] \<Longrightarrow> length xs \<le> n \<Longrightarrow> pieces n xs = [xs]"
  by (subst pieces.simps, cases xs) auto

lemma pieces_full: "length xs = n \<Longrightarrow> 0 < n \<Longrightarrow> pieces n (xs @ ys) = xs # pieces n ys"
  by (subst pieces.simps) auto

lemma concat_pieces: "0 < n \<Longrightarrow> concat (pieces n xs) = xs"
proof (induction n xs rule: pieces.induct)
  case (1 n xs)
  then show ?case by (subst pieces.simps) auto
qed

lemma fs_emit_simps [simp]:
  "fs_emit_current_chunk c =
   (c\<lparr>fs_buffer := [], fs_next_chunk_offset := fs_next_chunk_offset c + of_nat (length (fs_buffer c))\<rparr>,
    \<lparr>cb_offset = fs_next_chunk_offset c, cb_bytes = fs_buffer c\<rparr>)"
  by (simp add: fs_emit_current_chunk_def Let_def)

lemma fs_update_loop_Nil: "fs_update_loop c [] out = (c, out)"
  by (simp add: fs_update_loop.simps)

text \<open>The two ways one iteration ends: the buffer fills up, or the input does.\<close>

lemma fs_update_loop_fill:
  assumes "length (fs_buffer c) < fs_chunk_size c"
    and "fs_chunk_size c \<le> length (fs_buffer c) + length data"
  defines "n \<equiv> fs_chunk_size c - length (fs_buffer c)"
  shows "fs_update_loop c data out =
    fs_update_loop
      (c\<lparr>fs_buffer := [], fs_next_chunk_offset := fs_next_chunk_offset c + of_nat (fs_chunk_size c)\<rparr>)
      (drop n data)
      (out @ [\<lparr>cb_offset = fs_next_chunk_offset c, cb_bytes = fs_buffer c @ take n data\<rparr>])"
  using assms by (subst fs_update_loop.simps) (auto simp: fs_invariant_def Let_def)

lemma fs_update_loop_rest:
  assumes "length (fs_buffer c) + length data < fs_chunk_size c"
  shows "fs_update_loop c data out = (c\<lparr>fs_buffer := fs_buffer c @ data\<rparr>, out)"
proof (cases "data = []")
  case True
  then show ?thesis by (simp add: fs_update_loop_Nil)
next
  case False
  with assms show ?thesis
    by (subst fs_update_loop.simps) (auto simp: fs_invariant_def Let_def fs_update_loop_Nil)
qed


definition fs_after :: "fixed_size_chunker \<Rightarrow> byte list \<Rightarrow> fixed_size_chunker \<Rightarrow> chunk_buffer list \<Rightarrow> bool" where
  "fs_after c data c' new \<longleftrightarrow>
     fs_invariant c' \<and> fs_chunk_size c' = fs_chunk_size c \<and> fs_finalized c' = fs_finalized c \<and>
     chunk_bytes new @ fs_buffer c' = fs_buffer c @ data \<and>
     contiguous_chunks (fs_next_chunk_offset c) new (fs_next_chunk_offset c') \<and>
     (\<forall>ch \<in> set new. length (cb_bytes ch) = fs_chunk_size c)"

lemma fs_update_loop_spec:
  "fs_invariant c \<Longrightarrow> \<exists>c' new. fs_update_loop c data out = (c', out @ new) \<and> fs_after c data c' new"
proof (induction "length data" arbitrary: c data out rule: less_induct)
  case less
  note inv = less.prems [unfolded fs_invariant_def]
  show ?case
  proof (cases "fs_chunk_size c \<le> length (fs_buffer c) + length data")
    case True
    define n where "n = fs_chunk_size c - length (fs_buffer c)"
    define d where "d = c\<lparr>fs_buffer := [],
      fs_next_chunk_offset := fs_next_chunk_offset c + of_nat (fs_chunk_size c)\<rparr>"
    define ch where "ch = \<lparr>cb_offset = fs_next_chunk_offset c, cb_bytes = fs_buffer c @ take n data\<rparr>"
    have "length (drop n data) < length data" using inv True by (simp add: n_def)
    moreover have "fs_invariant d" using inv by (simp add: d_def fs_invariant_def)
    ultimately obtain c' new where
      loop: "fs_update_loop d (drop n data) (out @ [ch]) = (c', (out @ [ch]) @ new)"
      and after: "fs_after d (drop n data) c' new" using less.hyps by blast
    have "fs_update_loop c data out = (c', out @ (ch # new))"
      using fs_update_loop_fill [OF inv True, of out] loop by (simp add: n_def d_def ch_def)
    moreover have "length (cb_bytes ch) = fs_chunk_size c" using inv True by (simp add: ch_def n_def)
    moreover have "chunk_bytes (ch # new) @ fs_buffer c' = fs_buffer c @ data"
      using after by (simp add: fs_after_def ch_def d_def)
    ultimately have "fs_update_loop c data out = (c', out @ (ch # new)) \<and> fs_after c data c' (ch # new)"
      using after by (simp add: fs_after_def d_def ch_def)
    then show ?thesis by blast
  next
    case False
    then have "fs_update_loop c data out = (c\<lparr>fs_buffer := fs_buffer c @ data\<rparr>, out @ [])"
      by (simp add: fs_update_loop_rest)
    moreover have "fs_after c data (c\<lparr>fs_buffer := fs_buffer c @ data\<rparr>) []"
      using False by (simp add: fs_after_def fs_invariant_def)
    ultimately show ?thesis by blast
  qed
qed

lemma fs_update_loop_absorb:
  assumes "length (fs_buffer c) + length xs < fs_chunk_size c"
  shows "fs_update_loop c (xs @ ys) out = fs_update_loop (c\<lparr>fs_buffer := fs_buffer c @ xs\<rparr>) ys out"
proof (cases "fs_chunk_size c \<le> length (fs_buffer c) + length xs + length ys")
  case True
  then show ?thesis
    using assms by (subst (1 2) fs_update_loop_fill) (simp_all add: add.assoc)
next
  case False
  then show ?thesis
    using assms by (subst (1 2) fs_update_loop_rest) simp_all
qed

lemma fs_update_loop_append:
  "fs_invariant c \<Longrightarrow> fs_update_loop c xs out = (c', out') \<Longrightarrow>
   fs_update_loop c (xs @ ys) out = fs_update_loop c' ys out'"
proof (induction "length xs" arbitrary: c xs out rule: less_induct)
  case less
  note inv = less.prems(1) [unfolded fs_invariant_def]
  show ?case
  proof (cases "fs_chunk_size c \<le> length (fs_buffer c) + length xs")
    case True
    define n where "n = fs_chunk_size c - length (fs_buffer c)"
    have n: "n \<le> length xs" "0 < n" using True inv by (simp_all add: n_def)
    let ?d = "c\<lparr>fs_buffer := [],
      fs_next_chunk_offset := fs_next_chunk_offset c + of_nat (fs_chunk_size c)\<rparr>"
    let ?o = "out @ [\<lparr>cb_offset = fs_next_chunk_offset c, cb_bytes = fs_buffer c @ take n xs\<rparr>]"
    have "fs_update_loop ?d (drop n xs) ?o = (c', out')"
      using less.prems(2) fs_update_loop_fill [OF inv True, of out] by (simp add: n_def)
    moreover have "fs_invariant ?d" using inv by (simp add: fs_invariant_def)
    moreover have "length (drop n xs) < length xs" using n by simp
    ultimately have "fs_update_loop ?d (drop n xs @ ys) ?o = fs_update_loop c' ys out'"
      using less.hyps by blast
    then show ?thesis
      using fs_update_loop_fill [OF inv, of "xs @ ys" out] True n by (simp add: n_def)
  next
    case False
    then show ?thesis
      using less.prems(2) by (simp add: fs_update_loop_rest fs_update_loop_absorb)
  qed
qed

lemma fs_update_loop_out:
  "fs_update_loop c data out = (let (c', new) = fs_update_loop c data [] in (c', out @ new))"
proof (induction "length data" arbitrary: c data out rule: less_induct)
  case less
  show ?case
  proof (cases "data = [] \<or> \<not> fs_invariant c")
    case True
    then show ?thesis by (simp add: fs_update_loop.simps [of c data])
  next
    case False
    then have inv: "length (fs_buffer c) < fs_chunk_size c" by (simp add: fs_invariant_def)
    show ?thesis
    proof (cases "fs_chunk_size c \<le> length (fs_buffer c) + length data")
      case True
      let ?n = "fs_chunk_size c - length (fs_buffer c)"
      have "length (drop ?n data) < length data" using inv True by simp
      note IH = less.hyps [OF this]
      show ?thesis
        unfolding fs_update_loop_fill [OF inv True]
        by (subst IH, subst (2) IH) (simp add: Let_def split: prod.splits)
    qed (simp add: fs_update_loop_rest)
  qed
qed

definition fs_live :: "fixed_size_chunker \<Rightarrow> bool" where
  "fs_live c \<longleftrightarrow> fs_invariant c \<and> \<not> fs_finalized c"

lemma fs_update_live:
  assumes "fs_live c" and "fs_update c data True = Inr (c', out)"
  shows "fs_after c data c' out" and "fs_live c'"
  using assms fs_update_loop_spec [of c data "[]"]
  by (auto simp: fs_live_def fs_update_def fs_after_def)

interpretation fixed: content_chunker fs_update fs_finalize fs_buffer fs_next_chunk_offset fs_live fs_chunk_size
proof
  fix c data c' out
  assume c: "fs_live c"
  show "\<exists>c' out. fs_update c data True = Inr (c', out)"
    using c by (cases "fs_update_loop c data []") (simp add: fs_live_def fs_update_def)
  show "\<exists>c'. fs_finalize c True =
      Inr (c', if fs_buffer c = [] then []
               else [\<lparr>cb_offset = fs_next_chunk_offset c, cb_bytes = fs_buffer c\<rparr>])"
    using c by (simp add: fs_live_def fs_finalize_def)
  show "length (fs_buffer c) \<le> fs_chunk_size c" using c by (simp add: fs_live_def fs_invariant_def)
  assume u: "fs_update c data True = Inr (c', out)"
  note after = fs_update_live [OF c u]
  show "fs_live c' \<and> fs_chunk_size c' = fs_chunk_size c"
    and "chunk_bytes out @ fs_buffer c' = fs_buffer c @ data"
    and "contiguous_chunks (fs_next_chunk_offset c) out (fs_next_chunk_offset c')"
    using after by (simp_all add: fs_after_def)
  show "cb_bytes ch \<noteq> [] \<and> length (cb_bytes ch) \<le> fs_chunk_size c" if "ch \<in> set out" for ch
    using that after(1) c by (fastforce simp: fs_after_def fs_live_def fs_invariant_def)
next
  fix c xs c' out ys c'' out'
  assume c: "fs_live c" and u: "fs_update c xs True = Inr (c', out)"
    and v: "fs_update c' ys True = Inr (c'', out')"
  note c' = fs_update_live(2) [OF c u]
  have "fs_update_loop c xs [] = (c', out)" and ys: "fs_update_loop c' ys [] = (c'', out')"
    using c u v by (simp_all add: fs_live_def fs_update_def split: if_splits)
  then have "fs_update_loop c (xs @ ys) [] = fs_update_loop c' ys out"
    using c by (intro fs_update_loop_append) (simp_all add: fs_live_def)
  also have "\<dots> = (c'', out @ out')" by (subst fs_update_loop_out) (simp add: ys)
  finally show "fs_update c (xs @ ys) True = Inr (c'', out @ out')"
    using c by (simp add: fs_update_def fs_live_def)
qed


text \<open>The fixed-size chunker computes the reference cut.\<close>

lemma pieces_of_chunks:
  "0 < n \<Longrightarrow> \<forall>ch \<in> set chunks. length (cb_bytes ch) = n \<Longrightarrow> length rest \<le> n \<Longrightarrow>
   pieces n (chunk_bytes chunks @ rest) = map cb_bytes chunks @ (if rest = [] then [] else [rest])"
  by (induction chunks) (auto simp: pieces_full pieces_short)

lemma fs_scan_pieces:
  assumes "fs_live c" and "fs_buffer c = []"
  shows "\<exists>out. scan_reads fs_update fs_finalize c reads = Inr out \<and>
    map cb_bytes out = pieces (fs_chunk_size c) (concat reads)"
proof -
  obtain c' out where f: "feed_reads fs_update c reads = Inr (c', out)" "fs_live c'"
    and a: "fs_after c (concat reads) c' out"
  proof (cases "reads = []")
    case True
    show ?thesis
      using that [of c "[]"] True assms by (simp add: fs_after_def fs_live_def)
  next
    case False
    obtain c' out where "fs_update c (concat reads) True = Inr (c', out)"
      using fixed.update_ok [OF assms(1)] by blast
    then show ?thesis
      using that fs_update_live [OF assms(1)] fixed.feed_concat [OF assms(1), of reads] False by metis
  qed
  obtain d where d: "fs_finalize c' True = Inr (d, if fs_buffer c' = [] then []
      else [\<lparr>cb_offset = fs_next_chunk_offset c', cb_bytes = fs_buffer c'\<rparr>])"
    using fixed.finish_ok [OF f(2)] by blast
  have size: "0 < fs_chunk_size c" "length (fs_buffer c') \<le> fs_chunk_size c"
    using a by (auto simp: fs_after_def fs_invariant_def)
  have "pieces (fs_chunk_size c) (concat reads) =
      map cb_bytes out @ (if fs_buffer c' = [] then [] else [fs_buffer c'])"
    using pieces_of_chunks [OF size(1) _ size(2), of out] a assms(2) by (simp add: fs_after_def)
  then show ?thesis by (simp add: scan_reads_def f(1) d)
qed

subsection \<open>FastCDC parameters\<close>

record fastcdc_parameters =
  min_chunk_size_bytes :: u64
  avg_chunk_size_bytes :: u64
  max_chunk_size_bytes :: u64

definition is_power_of_two :: "u64 \<Rightarrow> bool" where
  "is_power_of_two value \<longleftrightarrow> value \<noteq> 0 \<and> value AND (value - 1) = 0"

definition validate_fastcdc_parameters :: "fastcdc_parameters \<Rightarrow> unit res" where
  "validate_fastcdc_parameters p =
     (if min_chunk_size_bytes p < 64 then Inl Invalid_argument
      else if avg_chunk_size_bytes p < 64 then Inl Invalid_argument
      else if \<not> is_power_of_two (avg_chunk_size_bytes p) then Inl Invalid_argument
      else if min_chunk_size_bytes p > avg_chunk_size_bytes p then Inl Invalid_argument
      else if avg_chunk_size_bytes p > max_chunk_size_bytes p then Inl Invalid_argument
      else if max_chunk_size_bytes p > 8 * 1024 * 1024 then Inl Invalid_argument
      else Inr ())"

definition validate_fastcdc_chunker_parameters :: "u64 \<Rightarrow> u64 \<Rightarrow> u64 \<Rightarrow> unit res" where
  "validate_fastcdc_chunker_parameters min_size avg_size max_size =
     (if min_size < 64 then Inl Invalid_argument
      else if avg_size < 64 then Inl Invalid_argument
      else if \<not> is_power_of_two avg_size then Inl Invalid_argument
      else if min_size > avg_size then Inl Invalid_argument
      else if avg_size > max_size then Inl Invalid_argument
      else if max_size > 8 * 1024 * 1024 then Inl Invalid_argument
      else Inr ())"

text \<open>The two copies of the check agree: a session's parameters are accepted by the chunker.\<close>

lemma fastcdc_validators_agree:
  "validate_fastcdc_parameters p = validate_fastcdc_chunker_parameters
     (min_chunk_size_bytes p) (avg_chunk_size_bytes p) (max_chunk_size_bytes p)"
  by (simp add: validate_fastcdc_parameters_def validate_fastcdc_chunker_parameters_def)

lemma validate_fastcdc_ok:
  "validate_fastcdc_chunker_parameters mn av mx = Inr () \<longleftrightarrow>
   64 \<le> mn \<and> is_power_of_two av \<and> mn \<le> av \<and> av \<le> mx \<and> mx \<le> 8 * 1024 * 1024"
  by (auto simp: validate_fastcdc_chunker_parameters_def not_less)

text \<open>\<open>std::countr_zero\<close>: the number of low zero bits, 64 for zero.\<close>

definition countr_zero :: "u64 \<Rightarrow> nat" where
  "countr_zero v = length (takeWhile (\<lambda>n. \<not> bit v n) [0..<64])"

text \<open>The shift amounts leave the range 0--63 exactly when \<open>avg\<close> is 0 or odd: there the C++ shift
  is undefined, while \<open>push_bit\<close> shifts everything out. The constructor computes both masks before
  it validates, and rejects such sizes afterwards.\<close>

definition compute_mask_s :: "u64 \<Rightarrow> u64" where
  "compute_mask_s avg = push_bit (countr_zero avg + 1) 1 - 1"

definition compute_mask_l :: "u64 \<Rightarrow> u64" where
  "compute_mask_l avg =
     push_bit (if countr_zero avg = 0 then 2 ^ 32 - 1 else countr_zero avg - 1) 1 - 1"

subsection \<open>The gear table\<close>

definition kGearSeed :: u64 where
  "kGearSeed = 0xA15C0DE5A15C0DE5"

definition splitmix64 :: "u64 \<Rightarrow> u64" where
  "splitmix64 v0 =
     (let v1 = v0 + 0x9E3779B97F4A7C15;
          v2 = (v1 XOR drop_bit 30 v1) * 0xBF58476D1CE4E5B9;
          v3 = (v2 XOR drop_bit 27 v2) * 0x94D049BB133111EB
      in v3 XOR drop_bit 31 v3)"

fun gear_entries :: "nat \<Rightarrow> u64 \<Rightarrow> u64 list" where
  "gear_entries 0 state = []"
| "gear_entries (Suc n) state = splitmix64 state # gear_entries n (splitmix64 state)"

definition make_gear_table :: "u64 list" where
  "make_gear_table = gear_entries 256 kGearSeed"

lemma length_gear_entries: "length (gear_entries n state) = n"
  by (induction n arbitrary: state) simp_all

text \<open>A byte always indexes the table.\<close>

lemma gear_table_index: "unat (b :: byte) < length make_gear_table"
  using unsigned_less [of b, where 'a = nat] by (simp add: make_gear_table_def length_gear_entries)


subsection \<open>FastCDC chunks\<close>

record fastcdc_chunker =
  fc_min_chunk_size :: u64
  fc_avg_chunk_size :: u64
  fc_max_chunk_size :: u64
  fc_mask_s :: u64
  fc_mask_l :: u64
  fc_buffer :: "byte list"
  fc_gear_hash :: u64
  fc_next_chunk_offset :: u64
  fc_finalized :: bool

definition fastcdc_chunker :: "u64 \<Rightarrow> u64 \<Rightarrow> u64 \<Rightarrow> fastcdc_chunker res" where
  "fastcdc_chunker min_size avg_size max_size =
     rbind (validate_fastcdc_chunker_parameters min_size avg_size max_size) (\<lambda>_.
     Inr \<lparr>fc_min_chunk_size = min_size, fc_avg_chunk_size = avg_size, fc_max_chunk_size = max_size,
          fc_mask_s = compute_mask_s avg_size, fc_mask_l = compute_mask_l avg_size,
          fc_buffer = [], fc_gear_hash = 0, fc_next_chunk_offset = 0, fc_finalized = False\<rparr>)"

definition fc_emit_current_chunk :: "fastcdc_chunker \<Rightarrow> fastcdc_chunker \<times> chunk_buffer" where
  "fc_emit_current_chunk c =
     (let chunk = \<lparr>cb_offset = fc_next_chunk_offset c, cb_bytes = fc_buffer c\<rparr>
      in (c\<lparr>fc_buffer := [], fc_gear_hash := 0,
           fc_next_chunk_offset := fc_next_chunk_offset c + of_nat (length (cb_bytes chunk))\<rparr>,
          chunk))"

definition fc_process_buffered_bytes :: "fastcdc_chunker \<Rightarrow> fastcdc_chunker \<times> chunk_buffer list" where
  "fc_process_buffered_bytes c =
     (let buffered_size = length (fc_buffer c);
          emit = (let (c', chunk) = fc_emit_current_chunk c in (c', [chunk]))
      in if buffered_size < unat (fc_min_chunk_size c) then (c, [])
         else if unat (fc_max_chunk_size c) \<le> buffered_size then emit
         else if buffered_size < unat (fc_avg_chunk_size c)
         then (if fc_gear_hash c AND fc_mask_s c = 0 then emit else (c, []))
         else if fc_gear_hash c AND fc_mask_l c = 0 then emit else (c, []))"

text \<open>The body of the loop over the bytes of the input, and the loop.\<close>

definition fc_push_byte :: "byte \<Rightarrow> fastcdc_chunker \<Rightarrow> fastcdc_chunker \<times> chunk_buffer list" where
  "fc_push_byte b c =
     fc_process_buffered_bytes
       (c\<lparr>fc_buffer := fc_buffer c @ [b],
          fc_gear_hash := push_bit 1 (fc_gear_hash c) + make_gear_table ! unat b\<rparr>)"

fun fc_update_loop :: "fastcdc_chunker \<Rightarrow> byte list \<Rightarrow> fastcdc_chunker \<times> chunk_buffer list" where
  "fc_update_loop c [] = (c, [])"
| "fc_update_loop c (b # bs) =
     (let (c', out) = fc_push_byte b c; (c'', out') = fc_update_loop c' bs in (c'', out @ out'))"

definition fc_update ::
  "fastcdc_chunker \<Rightarrow> byte list \<Rightarrow> bool \<Rightarrow> (fastcdc_chunker \<times> chunk_buffer list) res" where
  "fc_update c data consumer =
     (if fc_finalized c then Inl Logic_error
      else if \<not> consumer then Inl Invalid_argument
      else Inr (fc_update_loop c data))"

definition fc_finalize :: "fastcdc_chunker \<Rightarrow> bool \<Rightarrow> (fastcdc_chunker \<times> chunk_buffer list) res" where
  "fc_finalize c consumer =
     (if fc_finalized c then Inl Logic_error
      else if \<not> consumer then Inl Invalid_argument
      else if fc_buffer c \<noteq> []
      then let (c', chunk) = fc_emit_current_chunk c in Inr (c'\<lparr>fc_finalized := True\<rparr>, [chunk])
      else Inr (c\<lparr>fc_finalized := True\<rparr>, []))"

definition fc_bytes_received :: "fastcdc_chunker \<Rightarrow> u64" where
  "fc_bytes_received c = fc_next_chunk_offset c + of_nat (length (fc_buffer c))"

lemma fc_emit_simps [simp]:
  "fc_emit_current_chunk c =
   (c\<lparr>fc_buffer := [], fc_gear_hash := 0,
      fc_next_chunk_offset := fc_next_chunk_offset c + of_nat (length (fc_buffer c))\<rparr>,
    \<lparr>cb_offset = fc_next_chunk_offset c, cb_bytes = fc_buffer c\<rparr>)"
  by (simp add: fc_emit_current_chunk_def Let_def)

text \<open>A live chunker: valid sizes, a buffer below the maximum, not finalized.\<close>

definition fc_live :: "fastcdc_chunker \<Rightarrow> bool" where
  "fc_live c \<longleftrightarrow>
     validate_fastcdc_chunker_parameters (fc_min_chunk_size c) (fc_avg_chunk_size c) (fc_max_chunk_size c)
       = Inr () \<and>
     length (fc_buffer c) < unat (fc_max_chunk_size c) \<and> \<not> fc_finalized c"

definition fc_limit :: "fastcdc_chunker \<Rightarrow> nat" where
  "fc_limit c = unat (fc_max_chunk_size c)"

text \<open>One byte: either the buffer grows, or one chunk within the bounds is handed out.\<close>

lemma fc_push_byte_cases:
  assumes "fc_live c"
  obtains (grow) h where "fc_push_byte b c = (c\<lparr>fc_buffer := fc_buffer c @ [b], fc_gear_hash := h\<rparr>, [])"
      "Suc (length (fc_buffer c)) < unat (fc_max_chunk_size c)"
  | (cut) "fc_push_byte b c =
      (c\<lparr>fc_buffer := [], fc_gear_hash := 0,
         fc_next_chunk_offset := fc_next_chunk_offset c + of_nat (Suc (length (fc_buffer c)))\<rparr>,
       [\<lparr>cb_offset = fc_next_chunk_offset c, cb_bytes = fc_buffer c @ [b]\<rparr>])"
      "unat (fc_min_chunk_size c) \<le> Suc (length (fc_buffer c))"
      "Suc (length (fc_buffer c)) \<le> unat (fc_max_chunk_size c)"
proof -
  have sizes: "unat (fc_min_chunk_size c) \<le> unat (fc_max_chunk_size c)"
    "length (fc_buffer c) < unat (fc_max_chunk_size c)"
    using assms by (auto simp: fc_live_def validate_fastcdc_ok word_le_nat_alt)
  define d where "d = c\<lparr>fc_buffer := fc_buffer c @ [b],
    fc_gear_hash := push_bit 1 (fc_gear_hash c) + make_gear_table ! unat b\<rparr>"
  have d: "length (fc_buffer d) = Suc (length (fc_buffer c))"
    "fc_min_chunk_size d = fc_min_chunk_size c" "fc_max_chunk_size d = fc_max_chunk_size c"
    by (simp_all add: d_def)
  have "fc_process_buffered_bytes d = (d, []) \<and> Suc (length (fc_buffer c)) < unat (fc_max_chunk_size c)
    \<or> fc_process_buffered_bytes d = (let (d', chunk) = fc_emit_current_chunk d in (d', [chunk]))
      \<and> unat (fc_min_chunk_size c) \<le> Suc (length (fc_buffer c))"
    using sizes by (simp add: fc_process_buffered_bytes_def Let_def d not_le not_less)
  then show ?thesis
  proof
    assume "fc_process_buffered_bytes d = (d, []) \<and> Suc (length (fc_buffer c)) < unat (fc_max_chunk_size c)"
    then show ?thesis by (intro grow) (simp_all add: fc_push_byte_def d_def)
  next
    assume "fc_process_buffered_bytes d = (let (d', chunk) = fc_emit_current_chunk d in (d', [chunk]))
      \<and> unat (fc_min_chunk_size c) \<le> Suc (length (fc_buffer c))"
    then show ?thesis using sizes by (intro cut) (simp_all add: fc_push_byte_def d_def)
  qed
qed

definition fc_after :: "fastcdc_chunker \<Rightarrow> byte list \<Rightarrow> fastcdc_chunker \<Rightarrow> chunk_buffer list \<Rightarrow> bool" where
  "fc_after c data c' new \<longleftrightarrow>
     fc_live c' \<and> fc_min_chunk_size c' = fc_min_chunk_size c \<and>
     fc_max_chunk_size c' = fc_max_chunk_size c \<and>
     chunk_bytes new @ fc_buffer c' = fc_buffer c @ data \<and>
     contiguous_chunks (fc_next_chunk_offset c) new (fc_next_chunk_offset c') \<and>
     (\<forall>ch \<in> set new. unat (fc_min_chunk_size c) \<le> length (cb_bytes ch) \<and>
        length (cb_bytes ch) \<le> unat (fc_max_chunk_size c))"

lemma fc_push_byte_after:
  assumes "fc_live c" and "fc_push_byte b c = (c', out)"
  shows "fc_after c [b] c' out"
  using assms by (cases rule: fc_push_byte_cases [OF assms(1), of b]) (auto simp: fc_after_def fc_live_def)

lemma fc_update_loop_after:
  "fc_live c \<Longrightarrow> fc_update_loop c data = (c', out) \<Longrightarrow> fc_after c data c' out"
proof (induction data arbitrary: c out)
  case Nil
  then show ?case by (simp add: fc_after_def)
next
  case (Cons b bs)
  obtain d o1 where p: "fc_push_byte b c = (d, o1)" by fastforce
  obtain o2 where q: "fc_update_loop d bs = (c', o2)" and out: "out = o1 @ o2"
    using Cons.prems(2) p by (auto split: prod.splits)
  have a: "fc_after c [b] d o1" using Cons.prems(1) p by (rule fc_push_byte_after)
  then have "fc_after d bs c' o2" using Cons.IH [OF _ q] by (simp add: fc_after_def)
  with a show ?case
    by (auto simp: fc_after_def out contiguous_chunks_append)
qed

lemma fc_update_loop_append:
  "fc_update_loop c (xs @ ys) =
   (let (c', out) = fc_update_loop c xs; (c'', out') = fc_update_loop c' ys in (c'', out @ out'))"
  by (induction xs arbitrary: c) (auto simp: Let_def split: prod.splits)

lemma fc_update_after:
  "fc_live c \<Longrightarrow> fc_update c data True = Inr (c', out) \<Longrightarrow> fc_after c data c' out"
  using fc_update_loop_after by (simp add: fc_update_def fc_live_def)

interpretation fastcdc: content_chunker fc_update fc_finalize fc_buffer fc_next_chunk_offset fc_live fc_limit
proof
  fix c data c' out
  assume c: "fc_live c"
  show "\<exists>c' out. fc_update c data True = Inr (c', out)"
    using c by (cases "fc_update_loop c data") (simp add: fc_live_def fc_update_def)
  show "\<exists>c'. fc_finalize c True =
      Inr (c', if fc_buffer c = [] then []
               else [\<lparr>cb_offset = fc_next_chunk_offset c, cb_bytes = fc_buffer c\<rparr>])"
    using c by (simp add: fc_live_def fc_finalize_def)
  show "length (fc_buffer c) \<le> fc_limit c" using c by (simp add: fc_live_def fc_limit_def)
  assume u: "fc_update c data True = Inr (c', out)"
  note after = fc_update_after [OF c u]
  show "fc_live c' \<and> fc_limit c' = fc_limit c"
    and "chunk_bytes out @ fc_buffer c' = fc_buffer c @ data"
    and "contiguous_chunks (fc_next_chunk_offset c) out (fc_next_chunk_offset c')"
    using after by (simp_all add: fc_after_def fc_limit_def)
  show "cb_bytes ch \<noteq> [] \<and> length (cb_bytes ch) \<le> fc_limit c" if "ch \<in> set out" for ch
  proof -
    have "64 \<le> fc_min_chunk_size c" using c by (simp add: fc_live_def validate_fastcdc_ok)
    then have "0 < unat (fc_min_chunk_size c)" by (simp add: word_le_nat_alt)
    with that after show ?thesis by (fastforce simp: fc_after_def fc_limit_def)
  qed
next
  fix c xs c' out ys c'' out'
  assume c: "fc_live c" and u: "fc_update c xs True = Inr (c', out)"
    and v: "fc_update c' ys True = Inr (c'', out')"
  then show "fc_update c (xs @ ys) True = Inr (c'', out @ out')"
    by (simp add: fc_update_def fc_update_loop_append split: if_splits prod.splits)
qed


subsection \<open>Content-defined boundaries\<close>

text \<open>The offset labels chunks and decides nothing.\<close>

lemma fc_push_byte_offset:
  "fc_push_byte b (c\<lparr>fc_next_chunk_offset := off\<rparr>) =
   (let (c', out) = fc_push_byte b c;
        d = fc_next_chunk_offset c' - fc_next_chunk_offset c
    in (c'\<lparr>fc_next_chunk_offset := off + d\<rparr>, map (\<lambda>ch. ch\<lparr>cb_offset := off\<rparr>) out))"
  by (simp add: fc_push_byte_def fc_process_buffered_bytes_def Let_def)

lemma fc_update_loop_offset:
  "fc_update_loop c data = (c', out) \<Longrightarrow>
   \<exists>off' out'. fc_update_loop (c\<lparr>fc_next_chunk_offset := off\<rparr>) data
       = (c'\<lparr>fc_next_chunk_offset := off'\<rparr>, out') \<and> map cb_bytes out' = map cb_bytes out"
proof (induction data arbitrary: c off out)
  case Nil
  then show ?case by auto
next
  case (Cons b bs)
  obtain d o1 where p: "fc_push_byte b c = (d, o1)" by fastforce
  obtain o2 where q: "fc_update_loop d bs = (c', o2)" and out: "out = o1 @ o2"
    using Cons.prems p by (auto split: prod.splits)
  define off1 where "off1 = off + (fc_next_chunk_offset d - fc_next_chunk_offset c)"
  obtain off' o2' where r: "fc_update_loop (d\<lparr>fc_next_chunk_offset := off1\<rparr>) bs =
      (c'\<lparr>fc_next_chunk_offset := off'\<rparr>, o2')" "map cb_bytes o2' = map cb_bytes o2"
    using Cons.IH [OF q, of off1] by blast
  have "fc_push_byte b (c\<lparr>fc_next_chunk_offset := off\<rparr>) =
      (d\<lparr>fc_next_chunk_offset := off1\<rparr>, map (\<lambda>ch. ch\<lparr>cb_offset := off\<rparr>) o1)"
    by (simp add: fc_push_byte_offset p off1_def)
  then have "fc_update_loop (c\<lparr>fc_next_chunk_offset := off\<rparr>) (b # bs) =
      (c'\<lparr>fc_next_chunk_offset := off'\<rparr>, map (\<lambda>ch. ch\<lparr>cb_offset := off\<rparr>) o1 @ o2')"
    using r(1) by simp
  then show ?case using r(2) by (auto simp: out o_def)
qed

text \<open>The rolling hash restarts with the buffer.\<close>

definition fc_fresh_when_empty :: "fastcdc_chunker \<Rightarrow> bool" where
  "fc_fresh_when_empty c \<longleftrightarrow> (fc_buffer c = [] \<longrightarrow> fc_gear_hash c = 0)"

definition fc_same_rules :: "fastcdc_chunker \<Rightarrow> fastcdc_chunker \<Rightarrow> bool" where
  "fc_same_rules c d \<longleftrightarrow>
     fc_min_chunk_size d = fc_min_chunk_size c \<and> fc_avg_chunk_size d = fc_avg_chunk_size c \<and>
     fc_max_chunk_size d = fc_max_chunk_size c \<and> fc_mask_s d = fc_mask_s c \<and>
     fc_mask_l d = fc_mask_l c \<and> fc_finalized d = fc_finalized c"

lemma fc_push_byte_rules:
  "fc_push_byte b c = (c', out) \<Longrightarrow> fc_same_rules c c' \<and> fc_fresh_when_empty c'"
  by (auto simp: fc_push_byte_def fc_process_buffered_bytes_def fc_same_rules_def
      fc_fresh_when_empty_def Let_def split: if_splits)

lemma fc_update_loop_rules:
  "fc_fresh_when_empty c \<Longrightarrow> fc_update_loop c data = (c', out) \<Longrightarrow>
   fc_same_rules c c' \<and> fc_fresh_when_empty c'"
proof (induction data arbitrary: c out)
  case Nil
  then show ?case by (simp add: fc_same_rules_def)
next
  case (Cons b bs)
  obtain d o1 o2 where p: "fc_push_byte b c = (d, o1)" and q: "fc_update_loop d bs = (c', o2)"
    using Cons.prems(2) by (auto split: prod.splits)
  from fc_push_byte_rules [OF p] Cons.IH [OF _ q] show ?case by (simp add: fc_same_rules_def)
qed

lemma fastcdc_chunker_live:
  assumes "fastcdc_chunker mn av mx = Inr c"
  shows "fc_live c" and "fc_buffer c = []" and "fc_next_chunk_offset c = 0"
    and "fc_fresh_when_empty c" and "fc_min_chunk_size c = mn" and "fc_max_chunk_size c = mx"
    and "fc_gear_hash c = 0"
proof -
  have ok: "validate_fastcdc_chunker_parameters mn av mx = Inr ()"
    using assms by (auto simp: fastcdc_chunker_def rbind_eq_Inr)
  then have "64 \<le> mx" by (auto simp: validate_fastcdc_ok)
  then have "0 < unat mx" by (simp add: word_le_nat_alt)
  with assms ok show "fc_live c" by (auto simp: fastcdc_chunker_def fc_live_def)
qed (use assms in \<open>auto simp: fastcdc_chunker_def rbind_eq_Inr fc_fresh_when_empty_def\<close>)

lemma fixed_size_chunker_live:
  assumes "fixed_size_chunker n = Inr c"
  shows "fs_live c" and "fs_buffer c = []" and "fs_next_chunk_offset c = 0" and "fs_chunk_size c = n"
  using assms by (auto simp: fixed_size_chunker_def fs_live_def fs_invariant_def split: if_splits)

lemma fc_scan_eq:
  assumes "fc_live c"
  shows "scan_reads fc_update fc_finalize c reads =
    rbind (fc_update c (concat reads) True) (\<lambda>(c', out).
    rbind (fc_finalize c' True) (\<lambda>(_, out'). Inr (out @ out')))"
  using fastcdc.feed_concat [OF assms, of reads] assms
  by (auto simp: scan_reads_def fc_update_def fc_live_def)

subsection \<open>Masks\<close>

lemma power_of_two_even: "is_power_of_two v \<Longrightarrow> 64 \<le> v \<Longrightarrow> countr_zero v \<noteq> 0"
proof
  assume p: "is_power_of_two v" and "64 \<le> v" and "countr_zero v = 0"
  then have b0: "bit v 0" by (auto simp: countr_zero_def upt_conv_Cons split: if_splits)
  have "v AND (v - 1) = v - 1"
  proof (rule bit_word_eqI)
    fix n
    have "v - 1 = v XOR 1"
      using b0 by (simp add: xor_one_eq bit_0)
    then show "bit (v AND (v - 1)) n \<longleftrightarrow> bit (v - 1) n"
      using b0 by (auto simp: bit_simps bit_0)
  qed
  with p have "v = 1" by (simp add: is_power_of_two_def)
  with \<open>64 \<le> v\<close> show False by (simp add: word_le_nat_alt)
qed


lemma mask_weaker: "m \<le> n \<Longrightarrow> h AND mask n = (0 :: u64) \<Longrightarrow> h AND mask m = 0"
proof -
  assume "m \<le> n" and z: "h AND mask n = 0"
  then have "take_bit m h = take_bit m (take_bit n h)" by simp
  also have "take_bit n h = 0" using z by (simp add: take_bit_eq_mask)
  finally show ?thesis by (simp add: take_bit_eq_mask)
qed

lemma compute_mask_s_mask: "compute_mask_s av = mask (countr_zero av + 1)"
  unfolding compute_mask_s_def by (simp add: mask_eq_exp_minus_1 push_bit_eq_mult)

lemma compute_mask_l_mask:
  "countr_zero av \<noteq> 0 \<Longrightarrow> compute_mask_l av = mask (countr_zero av - 1)"
  unfolding compute_mask_l_def by (simp add: mask_eq_exp_minus_1 push_bit_eq_mult)

subsection \<open>Properties\<close>

text \<open>
  C21: The fixed-size chunker, fed any sequence of reads and finished, hands out exactly the pieces of
  \<open>chunk_size\<close> bytes of the concatenated input (a shorter last piece), with contiguous offsets from
  0; the result does not depend on the read boundaries, and no call fails.
\<close>

theorem fixed_size_scan_is_reference_cut:
  assumes "fixed_size_chunker n = Inr c"
  shows "\<exists>chunks. scan_reads fs_update fs_finalize c reads = Inr chunks \<and>
    map cb_bytes chunks = pieces n (concat reads) \<and>
    contiguous_chunks 0 chunks (of_nat (length (concat reads)))"
proof -
  note c = fixed_size_chunker_live [OF assms]
  obtain out where out: "scan_reads fs_update fs_finalize c reads = Inr out"
    and cut: "map cb_bytes out = pieces n (concat reads)"
    using fs_scan_pieces [OF c(1,2), of reads] unfolding c(4) by blast
  moreover have "contiguous_chunks 0 out (of_nat (length (concat reads)))"
    using fixed.scan_total [OF c(1), of reads] out unfolding c(2,3) by auto
  ultimately show ?thesis by blast
qed

theorem fixed_size_scan_is_reference_cut_witness:
  "\<exists>c chunks. fixed_size_chunker 3 = Inr c \<and>
     scan_reads fs_update fs_finalize c [[1, 2], [3, 4, 5], [6, 7]] = Inr chunks \<and>
     map cb_bytes chunks = [[1, 2, 3], [4, 5, 6], [7]] \<and> contiguous_chunks 0 chunks 7"
proof -
  define c where "c = \<lparr>fs_chunk_size = 3, fs_buffer = [], fs_next_chunk_offset = 0, fs_finalized = False\<rparr>"
  have c: "fixed_size_chunker 3 = Inr c" by (simp add: fixed_size_chunker_def c_def)
  have "pieces 3 [1, 2, 3, 4, 5, 6, 7 :: byte] = [[1, 2, 3], [4, 5, 6], [7]]"
    by (simp add: pieces.simps)
  with c fixed_size_scan_is_reference_cut [OF c, of "[[1, 2], [3, 4, 5], [6, 7]]"]
  show ?thesis by auto
qed

text \<open>
  C22: The FastCDC chunker, fed any sequence of reads and finished, loses and invents no byte; its
  chunks are contiguous from 0, non-empty and at most \<open>max\<close> long, and all but the last are at least
  \<open>min\<close> long. No call fails.
\<close>

theorem fastcdc_scan_bounds:
  assumes "fastcdc_chunker mn av mx = Inr c"
  shows "\<exists>chunks. scan_reads fc_update fc_finalize c reads = Inr chunks \<and>
    chunk_bytes chunks = concat reads \<and>
    contiguous_chunks 0 chunks (of_nat (length (concat reads))) \<and>
    (\<forall>ch \<in> set chunks. cb_bytes ch \<noteq> [] \<and> length (cb_bytes ch) \<le> unat mx) \<and>
    (\<forall>ch \<in> set (butlast chunks). unat mn \<le> length (cb_bytes ch))"
proof -
  note c = fastcdc_chunker_live [OF assms]
  obtain out where scan: "scan_reads fc_update fc_finalize c reads = Inr out"
    and basic: "chunk_bytes out = concat reads" "contiguous_chunks 0 out (of_nat (length (concat reads)))"
      "\<forall>ch \<in> set out. cb_bytes ch \<noteq> [] \<and> length (cb_bytes ch) \<le> unat mx"
    using fastcdc.scan_total [OF c(1), of reads] unfolding c(2,3) fc_limit_def c(6) by auto
  obtain c' o1 where u: "fc_update c (concat reads) True = Inr (c', o1)"
    using fastcdc.update_ok [OF c(1)] by blast
  note a = fc_update_after [OF c(1) u]
  obtain d o2 where "fc_finalize c' True = Inr (d, o2)" and o2: "length o2 \<le> 1"
    using fastcdc.finish_ok [of c'] a by (fastforce simp: fc_after_def)
  with scan u have "out = o1 @ o2" by (simp add: fc_scan_eq [OF c(1)])
  then have "set (butlast out) \<subseteq> set o1"
    using o2 by (cases o2) (auto simp: butlast_append dest: in_set_butlastD)
  moreover have "\<forall>ch \<in> set o1. unat mn \<le> length (cb_bytes ch)"
    using a by (simp add: fc_after_def c(5))
  ultimately show ?thesis using scan basic by blast
qed

theorem fastcdc_scan_bounds_witness:
  "\<exists>c chunks. fastcdc_chunker 64 64 128 = Inr c \<and>
     scan_reads fc_update fc_finalize c [[1, 2], [3]] = Inr chunks \<and> chunk_bytes chunks = [1, 2, 3]"
proof -
  obtain c where c: "fastcdc_chunker 64 64 128 = Inr c"
    by (simp add: fastcdc_chunker_def validate_fastcdc_chunker_parameters_def is_power_of_two_def)
  from fastcdc_scan_bounds [OF c, of "[[1, 2], [3]]"] c show ?thesis by auto
qed

text \<open>
  C23: FastCDC boundaries resynchronise: after any prefix \<open>xs\<close> that ends at a cut, the chunks of what
  follows are the chunks a fresh chunker cuts from it, byte for byte, whatever the prefix was. Inputs
  that differ before a common cut share every later chunk.
\<close>

theorem fastcdc_resynchronises_at_cuts:
  assumes "fastcdc_chunker mn av mx = Inr c"
    and "fc_update c xs True = Inr (c1, out1)" and "fc_buffer c1 = []"
    and "fc_update c ys True = Inr (c2, out2)"
  shows "\<exists>c3 out3. fc_update c (xs @ ys) True = Inr (c3, out1 @ out3) \<and>
    map cb_bytes out3 = map cb_bytes out2 \<and> fc_buffer c3 = fc_buffer c2"
proof -
  note c = fastcdc_chunker_live [OF assms(1)]
  have live: "\<not> fc_finalized c" using c(1) by (simp add: fc_live_def)
  have l1: "fc_update_loop c xs = (c1, out1)" and l2: "fc_update_loop c ys = (c2, out2)"
    using assms(2,4) live by (simp_all add: fc_update_def)
  have "fc_same_rules c c1 \<and> fc_gear_hash c1 = 0"
    using fc_update_loop_rules [OF c(4) l1] assms(3) by (simp add: fc_fresh_when_empty_def)
  then have "c1 = c\<lparr>fc_next_chunk_offset := fc_next_chunk_offset c1\<rparr>"
    using assms(3) c(2,7) by (intro fastcdc_chunker.equality) (simp_all add: fc_same_rules_def)
  then obtain off' out3 where l3: "fc_update_loop c1 ys = (c2\<lparr>fc_next_chunk_offset := off'\<rparr>, out3)"
    and same: "map cb_bytes out3 = map cb_bytes out2"
    using fc_update_loop_offset [OF l2, of "fc_next_chunk_offset c1"] by metis
  have "fc_update c (xs @ ys) True = Inr (c2\<lparr>fc_next_chunk_offset := off'\<rparr>, out1 @ out3)"
    using live by (simp add: fc_update_def fc_update_loop_append l1 l3)
  then show ?thesis using same by auto
qed

lemma fc_exact_max:
  assumes "fastcdc_chunker 64 64 64 = Inr c" and "length xs = 64"
  obtains c1 out1 where "fc_update c xs True = Inr (c1, out1)" and "fc_buffer c1 = []"
proof -
  note c = fastcdc_chunker_live [OF assms(1)]
  obtain c1 out1 where u: "fc_update c xs True = Inr (c1, out1)"
    using fastcdc.update_ok [OF c(1)] by blast
  note a = fc_update_after [OF c(1) u]
  then have "out1 \<noteq> []" using assms(2) c(2,6) by (auto simp: fc_after_def fc_live_def)
  then obtain ch rest where out1: "out1 = ch # rest" by (cases out1) auto
  have "length (cb_bytes ch) = 64" using a c(5,6) by (auto simp: fc_after_def out1)
  moreover have "length (cb_bytes ch) + length (chunk_bytes rest) + length (fc_buffer c1) = 64"
    using a assms(2) c(2) unfolding fc_after_def out1
    by (metis append_Nil chunk_bytes_simps(2) length_append)
  ultimately have "fc_buffer c1 = []" by simp
  with u that show ?thesis by blast
qed

theorem fastcdc_resynchronises_at_cuts_witness:
  "\<exists>c c1 out1 c2 out2 c3 out3. fastcdc_chunker 64 64 64 = Inr c \<and>
     fc_update c (replicate 64 7) True = Inr (c1, out1) \<and>
     fc_update c [1, 2] True = Inr (c2, out2) \<and>
     fc_update c (replicate 64 7 @ [1, 2]) True = Inr (c3, out1 @ out3) \<and>
     map cb_bytes out3 = map cb_bytes out2"
proof -
  obtain c where c: "fastcdc_chunker 64 64 64 = Inr c"
    by (simp add: fastcdc_chunker_def validate_fastcdc_chunker_parameters_def is_power_of_two_def)
  obtain c1 out1 where u: "fc_update c (replicate 64 7) True = Inr (c1, out1)" and e: "fc_buffer c1 = []"
    by (rule fc_exact_max [OF c, of "replicate 64 7"]) auto
  obtain c2 out2 where v: "fc_update c [1, 2] True = Inr (c2, out2)"
    using fastcdc.update_ok [OF fastcdc_chunker_live(1) [OF c]] by blast
  from fastcdc_resynchronises_at_cuts [OF c u e v] c u v show ?thesis by blast
qed

text \<open>For every accepted average size, a hash that passes the strict mask (used below the average)
  passes the loose mask (used from the average on): the cut condition only gets easier as the chunk
  grows.
\<close>

theorem fastcdc_masks_loosen:
  assumes "fastcdc_chunker mn av mx = Inr c" and "h AND fc_mask_s c = 0"
  shows "h AND fc_mask_l c = 0"
proof -
  have ok: "is_power_of_two av" "64 \<le> av"
    and masks: "fc_mask_s c = compute_mask_s av" "fc_mask_l c = compute_mask_l av"
    using assms(1) by (auto simp: fastcdc_chunker_def rbind_eq_Inr validate_fastcdc_ok)
  have nz: "countr_zero av \<noteq> 0" using ok by (rule power_of_two_even)
  show ?thesis
    using assms(2) unfolding masks compute_mask_s_mask compute_mask_l_mask [OF nz]
    by (rule mask_weaker [rotated]) simp
qed

theorem fastcdc_masks_loosen_witness:
  "\<exists>c. fastcdc_chunker 64 64 128 = Inr c \<and> (0x700 :: u64) AND fc_mask_l c = 0"
proof -
  obtain c where c: "fastcdc_chunker 64 64 128 = Inr c"
    by (simp add: fastcdc_chunker_def validate_fastcdc_chunker_parameters_def is_power_of_two_def)
  have "countr_zero 64 = 6" by (simp add: countr_zero_def upt_conv_Cons)
  then have "fc_mask_s c = mask 7"
    using c by (auto simp: fastcdc_chunker_def rbind_eq_Inr compute_mask_s_mask)
  then have "(0x700 :: u64) AND fc_mask_s c = 0" by (simp add: mask_eq_exp_minus_1)
  from fastcdc_masks_loosen [OF c this] c show ?thesis by blast
qed

end
