(* ===== verification/Identity.thy ===== *)
theory Identity
  imports Chunking
begin

section \<open>Content-addressed identities\<close>

text \<open>
  The immutable objects of \<open>src/metadata\<close> and the identifiers they are addressed by: UUIDs
  (\<open>uuid_v7.cpp\<close>), objects (\<open>object.cpp\<close>), object layouts (\<open>object_layout.cpp\<close>), layout descriptors
  (\<open>object_layout_descriptor.cpp\<close>), artifacts and versions (\<open>artifact_model.cpp\<close>), manifests
  (\<open>manifest_model.cpp\<close>) and runs (\<open>run_model.cpp\<close>).

  SHA-256 itself is OpenSSL's and a parameter \<open>H\<close> of the definitions that hash; the wrapper class
  \<open>Sha256\<close> (\<open>sha256.cpp\<close>) is modelled, with its use-after-finalize checks. Nothing is assumed of
  \<open>H\<close> beyond the digest length where a lemma says so; in particular \<open>H\<close> is never assumed injective.

  A \<open>std::map\<close> is the list of its entries in key order (\<open>is_std_map\<close>).
\<close>

subsection \<open>SHA-256 wrapper\<close>

type_synonym hash = "byte list \<Rightarrow> byte list"

definition sha_length_ok :: "hash \<Rightarrow> bool" where
  "sha_length_ok H \<longleftrightarrow> (\<forall>x. length (H x) = 32)"

record sha256 =
  sha_data :: "byte list"
  sha_finalized :: bool

definition sha256_new :: sha256 where
  "sha256_new = \<lparr>sha_data = [], sha_finalized = False\<rparr>"

definition sha256_update :: "sha256 \<Rightarrow> byte list \<Rightarrow> sha256 res" where
  "sha256_update s data =
     (if sha_finalized s then Inl Logic_error
      else if data = [] then Inr s
      else Inr (s\<lparr>sha_data := sha_data s @ data\<rparr>))"

definition sha256_finalize :: "hash \<Rightarrow> sha256 \<Rightarrow> (sha256 \<times> byte list) res" where
  "sha256_finalize H s =
     (if sha_finalized s then Inl Logic_error
      else let digest = H (sha_data s)
           in if length digest \<noteq> 32 then Inl Runtime_error
              else Inr (s\<lparr>sha_finalized := True\<rparr>, digest))"

text \<open>One-shot hashing, \<open>hash_canonical_bytes\<close> of the three descriptor classes.\<close>

definition hash_canonical_bytes :: "hash \<Rightarrow> byte list \<Rightarrow> string res" where
  "hash_canonical_bytes H canonical =
     rbind (sha256_update sha256_new canonical) (\<lambda>hasher.
     rbind (sha256_finalize H hasher) (\<lambda>(_, digest). Inr (digest_to_hex digest)))"

lemma sha256_update_live:
  "\<not> sha_finalized s \<Longrightarrow> sha256_update s data = Inr (s\<lparr>sha_data := sha_data s @ data\<rparr>)"
  by (simp add: sha256_update_def)

lemma hash_canonical_bytes_eq:
  "hash_canonical_bytes H bs =
   (if length (H bs) = 32 then Inr (digest_to_hex (H bs)) else Inl Runtime_error)"
  by (simp add: hash_canonical_bytes_def sha256_new_def sha256_update_live sha256_finalize_def Let_def)

lemma hash_canonical_bytes_ok:
  "hash_canonical_bytes H bs = Inr i \<longleftrightarrow> length (H bs) = 32 \<and> i = digest_to_hex (H bs)"
  by (auto simp: hash_canonical_bytes_eq)

lemma hash_canonical_bytes_content_id: "hash_canonical_bytes H bs = Inr i \<Longrightarrow> is_content_id i"
  by (auto simp: hash_canonical_bytes_ok is_content_id_digest)

subsection \<open>Validators\<close>

text \<open>The 64-character check, as every file of \<open>src/metadata\<close> that takes an identifier spells it.\<close>

definition check_content_id :: "string \<Rightarrow> unit res" where
  "check_content_id s =
     (if length s \<noteq> 64 then Inl Invalid_argument
      else check_all (\<lambda>c. if \<not> is_digit_char c \<and> \<not> (CHR ''a'' \<le> c \<and> c \<le> CHR ''f'')
                           then Inl Invalid_argument else Inr ()) s)"

lemma check_content_id_ok [res_simps]: "check_content_id s = Inr u \<longleftrightarrow> is_content_id s"
  by (auto simp: check_content_id_def is_content_id_def is_lower_hex_def check_all_ok)

lemma check_content_id_valid [simp]: "is_content_id s \<Longrightarrow> check_content_id s = Inr ()"
  by (simp add: check_content_id_ok)

lemma check_content_id_error: "check_content_id s = Inl e \<Longrightarrow> e = Invalid_argument"
  by (auto simp: check_content_id_def split: if_splits dest!: check_all_error [rotated])

text \<open>The node identifier check: 1 to 128 characters of \<open>[A-Za-z0-9._-]\<close>.\<close>

definition is_node_id_char :: "char \<Rightarrow> bool" where
  "is_node_id_char c \<longleftrightarrow>
     (CHR ''A'' \<le> c \<and> c \<le> CHR ''Z'') \<or> (CHR ''a'' \<le> c \<and> c \<le> CHR ''z'') \<or> is_digit_char c \<or>
     c = CHR ''-'' \<or> c = CHR ''_'' \<or> c = CHR ''.''"

definition is_valid_node_id :: "string \<Rightarrow> bool" where
  "is_valid_node_id s \<longleftrightarrow> s \<noteq> [] \<and> length s \<le> 128 \<and> list_all is_node_id_char s"

definition check_node_id :: "string \<Rightarrow> unit res" where
  "check_node_id s =
     (if s = [] \<or> 128 < length s then Inl Invalid_argument
      else check_all (\<lambda>c. if \<not> is_node_id_char c then Inl Invalid_argument else Inr ()) s)"

lemma check_node_id_ok [res_simps]: "check_node_id s = Inr u \<longleftrightarrow> is_valid_node_id s"
  by (auto simp: check_node_id_def is_valid_node_id_def check_all_ok list_all_iff)

lemma check_node_id_valid [simp]: "is_valid_node_id s \<Longrightarrow> check_node_id s = Inr ()"
  by (simp add: check_node_id_ok)

subsection \<open>UUIDs\<close>

definition kMaxTimestamp :: int where
  "kMaxTimestamp = 2 ^ 48 - 1"

definition validate_uuid :: "string \<Rightarrow> unit res" where
  "validate_uuid value =
     (if length value \<noteq> 36 then Inl Invalid_argument
      else if \<exists>position \<in> set [8, 13, 18, 23]. value ! position \<noteq> CHR ''-'' then Inl Invalid_argument
      else if \<exists>index \<in> set [0..<length value].
                \<not> (index = 8 \<or> index = 13 \<or> index = 18 \<or> index = 23) \<and> \<not> is_lower_hex (value ! index)
      then Inl Invalid_argument
      else if value ! 14 \<noteq> CHR ''7'' then Inl Invalid_argument
      else let variant = value ! 19
           in if variant \<noteq> CHR ''8'' \<and> variant \<noteq> CHR ''9'' \<and> variant \<noteq> CHR ''a'' \<and> variant \<noteq> CHR ''b''
              then Inl Invalid_argument else Inr ())"

text \<open>The constructor: a UUID is its validated text.\<close>

definition uuid_v7 :: "string \<Rightarrow> string res" where
  "uuid_v7 value = rbind (validate_uuid value) (\<lambda>_. Inr value)"

definition is_uuid :: "string \<Rightarrow> bool" where
  "is_uuid u \<longleftrightarrow> validate_uuid u = Inr ()"

definition format_uuid :: "byte list \<Rightarrow> string" where
  "format_uuid bytes =
     concat (map (\<lambda>index.
       (if index = 4 \<or> index = 6 \<or> index = 8 \<or> index = 10 then ''-'' else []) @
       [hex_digits ! unat (drop_bit 4 (bytes ! index) AND 0x0F), hex_digits ! unat (bytes ! index AND 0x0F)])
       [0..<length bytes])"

text \<open>
  \<open>generate\<close>: the clock reading in milliseconds and the ten random bytes are arguments. A failing
  \<open>RAND_bytes\<close> is \<open>None\<close>.
\<close>

definition generate_uuid :: "int \<Rightarrow> byte list option \<Rightarrow> string res" where
  "generate_uuid milliseconds random_bytes =
     (if milliseconds < 0 then Inl Runtime_error
      else if milliseconds > kMaxTimestamp then Inl Runtime_error
      else case random_bytes of
        None \<Rightarrow> Inl Runtime_error
      | Some r \<Rightarrow>
          let timestamp = (word_of_int milliseconds :: u64);
              time_bytes = map (\<lambda>index. (ucast (drop_bit ((5 - index) * 8) timestamp AND 0xFF) :: byte)) [0..<6];
              bytes = time_bytes @ [0x70 OR (r ! 0 AND 0x0F), r ! 1, 0x80 OR (r ! 2 AND 0x3F)]
                      @ map (\<lambda>index. r ! (index - 6)) [9..<16]
          in uuid_v7 (format_uuid bytes))"


lemma drop_split_at:
  assumes "k \<le> n" and "n < length u"
  shows "drop k u = take (n - k) (drop k u) @ u ! n # drop (Suc n) u"
proof -
  have "drop n u = u ! n # drop (Suc n) u" using assms(2) by (rule Cons_nth_drop_Suc [symmetric])
  moreover have "drop (n - k) (drop k u) = drop n u" using assms(1) by simp
  ultimately show ?thesis by (metis append_take_drop_id)
qed

definition uuid_groups :: "string \<Rightarrow> string list" where
  "uuid_groups u = [take 8 u, take 4 (drop 9 u), take 4 (drop 14 u), take 4 (drop 19 u), drop 24 u]"

lemma uuid_split:
  assumes "length u = 36"
  shows "u = take 8 u @ u ! 8 # take 4 (drop 9 u) @ u ! 13 # take 4 (drop 14 u) @ u ! 18 #
             take 4 (drop 19 u) @ u ! 23 # drop 24 u"
  using drop_split_at [of 0 8 u] drop_split_at [of 9 13 u] drop_split_at [of 14 18 u]
    drop_split_at [of 19 23 u] assms
  by simp

lemma is_uuid_shape:
  "is_uuid u \<longleftrightarrow>
   length u = 36 \<and> u ! 8 = CHR ''-'' \<and> u ! 13 = CHR ''-'' \<and> u ! 18 = CHR ''-'' \<and> u ! 23 = CHR ''-'' \<and>
   (\<forall>i < 36. i \<notin> {8, 13, 18, 23} \<longrightarrow> is_lower_hex (u ! i)) \<and>
   u ! 14 = CHR ''7'' \<and> u ! 19 \<in> {CHR ''8'', CHR ''9'', CHR ''a'', CHR ''b''}"
  unfolding is_uuid_def validate_uuid_def Let_def
  by (auto split: if_splits)

lemma is_uuid_split:
  assumes "is_uuid u"
  shows "u = take 8 u @ ''-'' @ take 4 (drop 9 u) @ ''-'' @ take 4 (drop 14 u) @ ''-'' @
             take 4 (drop 19 u) @ ''-'' @ drop 24 u"
  using uuid_split [of u] assms by (simp add: is_uuid_shape)

lemma uuid_groups_lower_hex:
  assumes "is_uuid u" and "g \<in> set (uuid_groups u)"
  shows "\<forall>c \<in> set g. is_lower_hex c"
proof -
  have hex: "\<And>i. i < 36 \<Longrightarrow> i \<notin> {8, 13, 18, 23} \<Longrightarrow> is_lower_hex (u ! i)" and len: "length u = 36"
    using assms(1) by (simp_all add: is_uuid_shape)
  have part: "\<forall>c \<in> set (take n (drop k u)). is_lower_hex c"
    if "\<And>i. i < n \<Longrightarrow> k + i < 36 \<and> k + i \<notin> {8, 13, 18, 23}" for n k
    using that hex len by (fastforce simp: in_set_conv_nth)
  have "drop 24 u = take 12 (drop 24 u)" using len by simp
  then show ?thesis
    using assms(2) part [of 8 0] part [of 4 9] part [of 4 14] part [of 4 19] part [of 12 24]
    by (auto simp: uuid_groups_def)
qed

text \<open>\<open>append_uuid\<close> drops the hyphens and appends the 32 remaining digits as 16 bytes.\<close>

definition compact_uuid :: "string \<Rightarrow> string" where
  "compact_uuid u = filter (\<lambda>character. character \<noteq> CHR ''-'') u"

definition append_uuid :: "byte list \<Rightarrow> string \<Rightarrow> byte list res" where
  "append_uuid out u = append_hex_id out (compact_uuid u) 32"

lemma lower_hex_not_hyphen: "is_lower_hex c \<Longrightarrow> c \<noteq> CHR ''-''"
  by (auto simp: is_lower_hex_def is_digit_char_def)

lemma compact_uuid_groups: "is_uuid u \<Longrightarrow> compact_uuid u = concat (uuid_groups u)"
proof -
  assume u: "is_uuid u"
  have keep: "filter (\<lambda>c. c \<noteq> CHR ''-'') g = g" if "g \<in> set (uuid_groups u)" for g
    using uuid_groups_lower_hex [OF u that] lower_hex_not_hyphen by (auto simp: filter_id_conv)
  show ?thesis
    unfolding compact_uuid_def
    by (subst is_uuid_split [OF u]) (use keep in \<open>simp add: uuid_groups_def\<close>)
qed

lemma compact_uuid_ok:
  assumes "is_uuid u"
  shows "length (compact_uuid u) = 32" and "\<forall>c \<in> set (compact_uuid u). is_lower_hex c"
proof -
  have "length u = 36" using assms by (simp add: is_uuid_shape)
  then show "length (compact_uuid u) = 32"
    by (simp add: compact_uuid_groups [OF assms] uuid_groups_def)
  show "\<forall>c \<in> set (compact_uuid u). is_lower_hex c"
    unfolding compact_uuid_groups [OF assms] using uuid_groups_lower_hex [OF assms] by auto
qed

lemma compact_uuid_inject:
  assumes "is_uuid u" and "is_uuid v" and "compact_uuid u = compact_uuid v"
  shows "u = v"
proof -
  have "length u = 36" "length v = 36" using assms by (simp_all add: is_uuid_shape)
  then have "uuid_groups u = uuid_groups v"
    using assms(3) unfolding compact_uuid_groups [OF assms(1)] compact_uuid_groups [OF assms(2)]
    by (simp add: uuid_groups_def)
  then show ?thesis
    using is_uuid_split [OF assms(1)] is_uuid_split [OF assms(2)] by (simp add: uuid_groups_def)
qed

lemma append_uuid_ok: "is_uuid u \<Longrightarrow> append_uuid out u = Inr (out @ hex_bytes (compact_uuid u))"
  using compact_uuid_ok [of u] by (simp add: append_uuid_def append_hex_id_def append_hex_pairs_bytes)

lemma uuid_bytes_append_inject [enc_inject]:
  assumes "is_uuid u" and "is_uuid v"
  shows "hex_bytes (compact_uuid u) @ xs = hex_bytes (compact_uuid v) @ ys \<longleftrightarrow> u = v \<and> xs = ys"
proof -
  note ok = compact_uuid_ok [OF assms(1)] compact_uuid_ok [OF assms(2)]
  have "length (hex_bytes (compact_uuid u)) = length (hex_bytes (compact_uuid v))"
    using ok by (simp add: length_hex_bytes)
  moreover have "hex_bytes (compact_uuid u) = hex_bytes (compact_uuid v) \<longleftrightarrow> u = v"
    using ok hex_bytes_inject [of "compact_uuid u" "compact_uuid v"] compact_uuid_inject [OF assms]
    by auto
  ultimately show ?thesis by simp
qed

text \<open>What \<open>generate\<close> formats is a UUID.\<close>

definition nibble_pair :: "byte \<Rightarrow> string" where
  "nibble_pair b = [hex_digits ! unat (drop_bit 4 b AND 0x0F), hex_digits ! unat (b AND 0x0F)]"

lemma nibble_pair_lower_hex: "\<forall>c \<in> set (nibble_pair b). is_lower_hex c"
  using nibble_bound [of b] nibble_bound [of "drop_bit 4 b"]
  by (simp add: nibble_pair_def hex_digits_lower_hex)

lemma length_concat_nibble_pairs [simp]: "length (concat (map nibble_pair bs)) = 2 * length bs"
  by (induction bs) (simp_all add: nibble_pair_def)

lemma lower_hex_nibble_pairs: "\<forall>c \<in> set (concat (map nibble_pair bs)). is_lower_hex c"
  using nibble_pair_lower_hex by auto

lemma format_uuid_groups:
  assumes "length bs = 16"
  shows "format_uuid bs = concat (map nibble_pair (take 4 bs)) @ ''-'' @
    concat (map nibble_pair (take 2 (drop 4 bs))) @ ''-'' @ concat (map nibble_pair (take 2 (drop 6 bs))) @ ''-'' @
    concat (map nibble_pair (take 2 (drop 8 bs))) @ ''-'' @ concat (map nibble_pair (drop 10 bs))"
proof -
  obtain b0 b1 b2 b3 b4 b5 b6 b7 b8 b9 b10 b11 b12 b13 b14 b15
    where "bs = [b0, b1, b2, b3, b4, b5, b6, b7, b8, b9, b10, b11, b12, b13, b14, b15]"
    using assms by (auto simp: length_Suc_conv numeral_eq_Suc)
  then show ?thesis by (simp add: format_uuid_def nibble_pair_def upt_rec)
qed

lemma nth_lower_hex_group:
  "\<forall>c \<in> set g. is_lower_hex c \<Longrightarrow> i < length g \<Longrightarrow> is_lower_hex (g ! i)"
  by simp

lemma is_uuid_groups:
  assumes "length a = 8" "length b = 4" "length c = 4" "length d = 4" "length e = 12"
    and "\<forall>x \<in> set (a @ b @ c @ d @ e). is_lower_hex x"
    and "c ! 0 = CHR ''7''" and "d ! 0 \<in> {CHR ''8'', CHR ''9'', CHR ''a'', CHR ''b''}"
  shows "is_uuid (a @ ''-'' @ b @ ''-'' @ c @ ''-'' @ d @ ''-'' @ e)"
proof -
  have "is_lower_hex ((a @ ''-'' @ b @ ''-'' @ c @ ''-'' @ d @ ''-'' @ e) ! i)"
    if i: "i < 36" "i \<notin> {8, 13, 18, 23}" for i
  proof -
    have "i < 8 \<or> (\<exists>j < 4. i = 9 + j) \<or> (\<exists>j < 4. i = 14 + j) \<or> (\<exists>j < 4. i = 19 + j) \<or> (\<exists>j < 12. i = 24 + j)"
      using i by simp presburger
    then show ?thesis using assms(1-6) by (elim disjE exE) (auto simp: nth_append)
  qed
  then show ?thesis using assms by (simp add: is_uuid_shape nth_append)
qed

lemma format_uuid_is_uuid:
  assumes len: "length bs = 16"
    and version: "hex_digits ! unat (drop_bit 4 (bs ! 6) AND 0x0F) = CHR ''7''"
    and variant: "hex_digits ! unat (drop_bit 4 (bs ! 8) AND 0x0F) \<in> {CHR ''8'', CHR ''9'', CHR ''a'', CHR ''b''}"
  shows "is_uuid (format_uuid bs)"
  unfolding format_uuid_groups [OF len]
proof (rule is_uuid_groups)
  have first: "concat (map nibble_pair (take 2 (drop n bs))) ! 0 = hex_digits ! unat (drop_bit 4 (bs ! n) AND 0x0F)"
    if "n < 16" for n
    using that len by (simp add: Cons_nth_drop_Suc [symmetric] nibble_pair_def numeral_2_eq_2)
  show "concat (map nibble_pair (take 2 (drop 6 bs))) ! 0 = CHR ''7''" by (simp only: first version)
  show "concat (map nibble_pair (take 2 (drop 8 bs))) ! 0 \<in> {CHR ''8'', CHR ''9'', CHR ''a'', CHR ''b''}"
    using variant by (simp only: first)
qed (use len lower_hex_nibble_pairs in auto)

lemma version_nibble: "drop_bit 4 (0x70 OR (r AND 0x0F) :: byte) AND 0x0F = 7"
  by (rule bit_word_eqI) (auto simp: bit_simps numeral_eq_Suc less_Suc_eq)

lemma two_bits_cases: "(w :: byte) AND 3 \<in> {0, 1, 2, 3}"
proof -
  have "w AND 3 \<le> 3" by (rule word_and_le1)
  then have "unat (w AND 3) \<le> 3" by (simp add: word_le_nat_alt)
  then have "unat (w AND 3) \<in> {0, 1, 2, 3}" unfolding insert_iff empty_iff by presburger
  then have "(of_nat (unat (w AND 3)) :: byte) \<in> of_nat ` {0, 1, 2, 3}" by (rule imageI)
  then show ?thesis by (simp only: unat_to_word image_insert image_empty semiring_1_class.of_nat_0 of_nat_1 of_nat_numeral)
qed

lemma variant_nibble: "drop_bit 4 (0x80 OR (r AND 0x3F) :: byte) AND 0x0F = 8 OR (drop_bit 4 r AND 3)"
  by (rule bit_word_eqI) (auto simp: bit_simps numeral_eq_Suc less_Suc_eq)

text \<open>A generated identifier is a valid UUIDv7: for every clock reading within 48 bits and every ten
  random bytes, \<open>generate\<close> returns normally and its text passes the validation of the constructor.
\<close>

theorem generate_uuid_valid:
  assumes "0 \<le> milliseconds" and "milliseconds \<le> kMaxTimestamp" and "length r = 10"
  shows "\<exists>u. generate_uuid milliseconds (Some r) = Inr u \<and> is_uuid u"
proof -
  define bytes where "bytes = map (\<lambda>index. (ucast (drop_bit ((5 - index) * 8) (word_of_int milliseconds :: u64) AND 0xFF) :: byte)) [0..<6] @
    [0x70 OR (r ! 0 AND 0x0F), r ! 1, 0x80 OR (r ! 2 AND 0x3F)] @ map (\<lambda>index. r ! (index - 6)) [9..<16]"
  have six: "bytes ! 6 = 0x70 OR (r ! 0 AND 0x0F)" and eight: "bytes ! 8 = 0x80 OR (r ! 2 AND 0x3F)"
    and len: "length bytes = 16"
    by (simp_all add: bytes_def nth_append)
  have "is_uuid (format_uuid bytes)"
  proof (rule format_uuid_is_uuid [OF len])
    show "hex_digits ! unat (drop_bit 4 (bytes ! 6) AND 0x0F) = CHR ''7''"
      by (simp add: six version_nibble hex_digits_def)
    show "hex_digits ! unat (drop_bit 4 (bytes ! 8) AND 0x0F) \<in> {CHR ''8'', CHR ''9'', CHR ''a'', CHR ''b''}"
      using two_bits_cases [of "drop_bit 4 (r ! 2)"] by (auto simp: eight variant_nibble hex_digits_def)
  qed
  moreover have "generate_uuid milliseconds (Some r) = uuid_v7 (format_uuid bytes)"
    using assms by (simp add: generate_uuid_def Let_def bytes_def)
  ultimately show ?thesis by (simp add: uuid_v7_def is_uuid_def)
qed

theorem generate_uuid_valid_witness:
  "\<exists>u. generate_uuid 1700000000000 (Some [1, 2, 3, 4, 5, 6, 7, 8, 9, 10]) = Inr u \<and> is_uuid u"
  by (rule generate_uuid_valid) (simp_all add: kMaxTimestamp_def)

end
