(* ===== verification/Objects.thy ===== *)
theory Objects
  imports Identity
begin

section \<open>Objects, layouts, versions, manifests and runs\<close>

text \<open>
  The immutable value classes of \<open>src/metadata\<close>: \<open>Object\<close>, \<open>ObjectLayout\<close>, \<open>ObjectLayoutDescriptor\<close>,
  \<open>Artifact\<close>, \<open>ArtifactVersion\<close>, \<open>Manifest\<close> and \<open>Run\<close>. A class is the record of its members and its
  constructor a function into \<open>res\<close>; the accessors are the record's selectors. The text argument
  \<open>field_name\<close> of an error message is left out with the message.

  The main results: a layout is accepted exactly when its chunks tile an interval from 0 within 64
  bits, and two descriptors, versions or manifests with the same identifier have the same content or
  exhibit a collision of the digest function.
\<close>

subsection \<open>Objects and layouts\<close>

record object =
  obj_object_id :: string
  obj_total_size :: u64

definition object_new :: "string \<Rightarrow> u64 \<Rightarrow> object res" where
  "object_new object_id total_size =
     rbind (check_content_id object_id) (\<lambda>_.
     Inr \<lparr>obj_object_id = object_id, obj_total_size = total_size\<rparr>)"

record chunk_ref =
  cr_chunk_id :: string
  cr_offset :: u64
  cr_size :: u64

record object_layout =
  ol_chunks :: "chunk_ref list"
  ol_total_size :: u64

definition is_valid_chunk_id :: "string \<Rightarrow> bool" where
  "is_valid_chunk_id chunk_id \<longleftrightarrow>
     length chunk_id = 64 \<and>
     list_all (\<lambda>c. is_digit_char c \<or> (CHR ''a'' \<le> c \<and> c \<le> CHR ''f'')) chunk_id"

definition validate_layout_chunk :: "chunk_ref \<Rightarrow> u64 \<Rightarrow> u64 res" where
  "validate_layout_chunk chunk expected_offset =
     (if \<not> is_valid_chunk_id (cr_chunk_id chunk) then Inl Invalid_argument
      else if cr_size chunk = 0 then Inl Invalid_argument
      else if cr_offset chunk \<noteq> expected_offset then Inl Invalid_argument
      else if cr_size chunk > - 1 - expected_offset then Inl Overflow_error
      else Inr (expected_offset + cr_size chunk))"

definition validate_layout :: "chunk_ref list \<Rightarrow> unit res" where
  "validate_layout chunks = rbind (fold_res validate_layout_chunk chunks 0) (\<lambda>_. Inr ())"

definition object_layout_new :: "chunk_ref list \<Rightarrow> object_layout res" where
  "object_layout_new chunks =
     rbind (validate_layout chunks) (\<lambda>_.
     Inr \<lparr>ol_chunks = chunks,
          ol_total_size = (if chunks = [] then 0
                           else let final_chunk = last chunks in cr_offset final_chunk + cr_size final_chunk)\<rparr>)"

lemma is_valid_chunk_id_eq: "is_valid_chunk_id = is_content_id"
  by (auto simp: fun_eq_iff is_valid_chunk_id_def is_content_id_def is_lower_hex_def list_all_iff)

lemma object_new_ok [res_simps]:
  "object_new i n = Inr obj \<longleftrightarrow> is_content_id i \<and> obj = \<lparr>obj_object_id = i, obj_total_size = n\<rparr>"
  by (auto simp: object_new_def res_simps)

text \<open>The reference: the chunks tile \<open>[0, n)\<close>, read in natural numbers.\<close>

fun tiles_from :: "nat \<Rightarrow> chunk_ref list \<Rightarrow> nat \<Rightarrow> bool" where
  "tiles_from start [] n \<longleftrightarrow> start = n"
| "tiles_from start (c # cs) n \<longleftrightarrow>
     is_content_id (cr_chunk_id c) \<and> 0 < unat (cr_size c) \<and> unat (cr_offset c) = start \<and>
     tiles_from (start + unat (cr_size c)) cs n"

definition layout_bytes :: "chunk_ref list \<Rightarrow> nat" where
  "layout_bytes cs = (\<Sum>c \<leftarrow> cs. unat (cr_size c))"

lemma tiles_from_length: "tiles_from start cs n \<Longrightarrow> n = start + layout_bytes cs"
  by (induction start cs n rule: tiles_from.induct) (auto simp: layout_bytes_def)

lemma size_fits_iff:
  "\<not> (s > - 1 - (e :: u64)) \<longleftrightarrow> unat e + unat s < 2 ^ 64"
proof -
  have "unat (- 1 :: u64) = 2 ^ 64 - 1"
    by (simp add: unsigned_minus_1_eq_mask mask_eq_exp_minus_1)
  then have "unat (- 1 - e) = 2 ^ 64 - 1 - unat e"
    using unat_sub [of e "- 1"] by (simp only: word_order.extremum)
  moreover have "unat e < 2 ^ 64" using unsigned_less [of e] by simp
  ultimately show ?thesis by (auto simp: word_less_nat_alt not_less)
qed

lemma fold_layout_tiles:
  "fold_res validate_layout_chunk cs e = Inr e' \<longleftrightarrow>
   tiles_from (unat e) cs (unat e') \<and> unat e + layout_bytes cs < 2 ^ 64"
proof (induction cs arbitrary: e)
  case Nil
  then show ?case using unsigned_less [of e] by (auto simp: layout_bytes_def unsigned_word_eqI)
next
  case (Cons c cs)
  let ?ok = "is_content_id (cr_chunk_id c) \<and> cr_size c \<noteq> 0 \<and> cr_offset c = e \<and> unat e + unat (cr_size c) < 2 ^ 64"
  show ?case
  proof (cases ?ok)
    case True
    then have "(cr_size c > - 1 - e) = False" using size_fits_iff [of e "cr_size c"] by (simp add: add.commute)
    with True have "validate_layout_chunk c e = Inr (e + cr_size c)"
      unfolding validate_layout_chunk_def is_valid_chunk_id_eq by (simp only: simp_thms if_True if_False)
    moreover have "unat (e + cr_size c) = unat e + unat (cr_size c)"
      using True by (simp add: unat_add_lem [THEN iffD1])
    ultimately show ?thesis
      using True by (auto simp: Cons.IH layout_bytes_def unat_gt_0 add.assoc)
  next
    case False
    then have "\<not> (is_content_id (cr_chunk_id c) \<and> cr_size c \<noteq> 0 \<and> cr_offset c = e \<and> \<not> (cr_size c > - 1 - e))"
      using size_fits_iff [of e "cr_size c"] by (simp add: add.commute)
    then have "\<exists>x. validate_layout_chunk c e = Inl x"
      unfolding validate_layout_chunk_def is_valid_chunk_id_eq by (metis (full_types))
    moreover have "\<not> (tiles_from (unat e) (c # cs) (unat e') \<and> unat e + layout_bytes (c # cs) < 2 ^ 64)"
      using False by (auto simp: layout_bytes_def unat_gt_0 unat_eq_0 unsigned_word_eqI)
    ultimately show ?thesis by auto
  qed
qed

lemma tiles_last:
  "tiles_from start cs n \<Longrightarrow> cs \<noteq> [] \<Longrightarrow> unat (cr_offset (last cs)) + unat (cr_size (last cs)) = n"
  by (induction start cs n rule: tiles_from.induct) (auto split: if_splits)

lemma validate_layout_ok [res_simps]:
  "validate_layout cs = Inr u \<longleftrightarrow> tiles_from 0 cs (layout_bytes cs) \<and> layout_bytes cs < 2 ^ 64"
proof
  assume "validate_layout cs = Inr u"
  then obtain e where "fold_res validate_layout_chunk cs 0 = Inr e"
    by (auto simp: validate_layout_def rbind_eq_Inr)
  then show "tiles_from 0 cs (layout_bytes cs) \<and> layout_bytes cs < 2 ^ 64"
    using tiles_from_length [of 0 cs "unat e"] by (simp add: fold_layout_tiles)
next
  assume r: "tiles_from 0 cs (layout_bytes cs) \<and> layout_bytes cs < 2 ^ 64"
  then have "unat (of_nat (layout_bytes cs) :: u64) = layout_bytes cs" by (simp add: unat_of_nat)
  with r have "fold_res validate_layout_chunk cs 0 = Inr (of_nat (layout_bytes cs))"
    by (simp add: fold_layout_tiles)
  then show "validate_layout cs = Inr u" by (simp add: validate_layout_def)
qed

lemma object_layout_new_ok:
  "object_layout_new cs = Inr l \<longleftrightarrow>
   tiles_from 0 cs (layout_bytes cs) \<and> layout_bytes cs < 2 ^ 64 \<and>
   ol_chunks l = cs \<and> ol_total_size l = of_nat (layout_bytes cs)"
proof -
  have total: "(if cs = [] then 0 else cr_offset (last cs) + cr_size (last cs)) = (of_nat (layout_bytes cs) :: u64)"
    if tiles: "tiles_from 0 cs (layout_bytes cs)"
  proof (cases "cs = []")
    case False
    have "of_nat (unat (cr_offset (last cs)) + unat (cr_size (last cs))) = (of_nat (layout_bytes cs) :: u64)"
      by (simp only: tiles_last [OF tiles False])
    with False show ?thesis by simp
  qed (simp add: layout_bytes_def)
  show ?thesis
  proof (cases "tiles_from 0 cs (layout_bytes cs) \<and> layout_bytes cs < 2 ^ 64")
    case True
    then have "validate_layout cs = Inr ()" by (simp add: validate_layout_ok)
    with True total show ?thesis
      by (cases l) (auto simp: object_layout_new_def Let_def)
  next
    case False
    then show ?thesis by (auto simp: object_layout_new_def res_simps)
  qed
qed

text \<open>
  C24: A chunk list becomes a layout exactly when it tiles an interval that starts at 0 and ends below
  2^64 with non-empty chunks of valid identifiers; the layout then keeps the list and its total size is
  the exact sum of the sizes, and every other list is refused with an exception.
\<close>

theorem object_layout_accepts_exactly_tilings:
  "case object_layout_new cs of
     Inr l \<Rightarrow> tiles_from 0 cs (unat (ol_total_size l)) \<and> unat (ol_total_size l) = layout_bytes cs \<and> ol_chunks l = cs
   | Inl e \<Rightarrow> (e = Invalid_argument \<or> e = Overflow_error) \<and>
              (\<nexists>n. n < 2 ^ 64 \<and> tiles_from 0 cs n)"
proof (cases "object_layout_new cs")
  case (Inr l)
  then have "tiles_from 0 cs (layout_bytes cs)" "layout_bytes cs < 2 ^ 64" "ol_chunks l = cs"
    "ol_total_size l = of_nat (layout_bytes cs)"
    by (simp_all add: object_layout_new_ok)
  then show ?thesis by (simp add: Inr unat_of_nat)
next
  case (Inl e)
  have "\<not> (tiles_from 0 cs n \<and> n < 2 ^ 64)" for n
  proof
    assume t: "tiles_from 0 cs n \<and> n < 2 ^ 64"
    then have "n = layout_bytes cs" using tiles_from_length by fastforce
    with t have "validate_layout cs = Inr ()" by (simp add: validate_layout_ok)
    with Inl show False by (simp add: object_layout_new_def)
  qed
  moreover have "e = Invalid_argument \<or> e = Overflow_error"
  proof -
    have err: "fold_res validate_layout_chunk xs start = Inl e \<Longrightarrow> e = Invalid_argument \<or> e = Overflow_error"
      for xs start
      by (induction xs arbitrary: start) (auto simp: rbind_eq_Inl validate_layout_chunk_def split: if_splits)
    have "fold_res validate_layout_chunk cs 0 = Inl e"
      using Inl by (auto simp: object_layout_new_def validate_layout_def rbind_eq_Inl)
    then show ?thesis by (rule err)
  qed
  ultimately show ?thesis using Inl by auto
qed

subsection \<open>Layout descriptors\<close>

record object_layout_descriptor =
  ld_object :: object
  ld_chunking_strategy :: chunking_strategy
  ld_fastcdc_parameters :: "fastcdc_parameters option"
  ld_layout :: object_layout
  ld_canonical_bytes :: "byte list"
  ld_layout_id :: string

definition kMagic :: string where "kMagic = ''AISTORE_LAYOUT''"
definition kContentIdBytes :: nat where "kContentIdBytes = 32"
definition kChunkEntryBytes :: nat where "kChunkEntryBytes = kContentIdBytes + 8 + 8"
definition kFixedSizeDescriptorHeaderBytes :: nat where
  "kFixedSizeDescriptorHeaderBytes = length kMagic + 4 + kContentIdBytes + 1 + 8 + 8"
definition kFastCdcDescriptorHeaderBytes :: nat where
  "kFastCdcDescriptorHeaderBytes = kFixedSizeDescriptorHeaderBytes + 3 * 8"

definition serialize_layout ::
  "object \<Rightarrow> chunking_strategy \<Rightarrow> fastcdc_parameters option \<Rightarrow> object_layout \<Rightarrow> byte list res" where
  "serialize_layout object chunking_strategy fastcdc_parameters layout =
     (let chunk_count = length (ol_chunks layout);
          header_bytes = (if chunking_strategy = FastCdc then kFastCdcDescriptorHeaderBytes
                          else kFixedSizeDescriptorHeaderBytes)
      in if int chunk_count > (2 ^ 64 - 1 - int header_bytes) div int kChunkEntryBytes then Inl Length_error
         else
           let output = as_bytes kMagic;
               output = append_uint32_big_endian output 1
           in rbind (append_content_id output (obj_object_id object)) (\<lambda>output.
              let output = output @ [chunking_strategy_code chunking_strategy]
              in rbind (if chunking_strategy = FastCdc
                        then case fastcdc_parameters of
                               None \<Rightarrow> Inl Logic_error
                             | Some p \<Rightarrow>
                                 let output = append_uint64_big_endian output (min_chunk_size_bytes p);
                                     output = append_uint64_big_endian output (avg_chunk_size_bytes p)
                                 in Inr (append_uint64_big_endian output (max_chunk_size_bytes p))
                        else Inr output) (\<lambda>output.
              let output = append_uint64_big_endian output (obj_total_size object);
                  output = append_uint64_big_endian output (of_nat chunk_count)
              in fold_res (\<lambda>chunk output.
                   rbind (append_content_id output (cr_chunk_id chunk)) (\<lambda>output.
                   let output = append_uint64_big_endian output (cr_offset chunk)
                   in Inr (append_uint64_big_endian output (cr_size chunk)))) (ol_chunks layout) output)))"

definition fixed_size_layout_descriptor ::
  "hash \<Rightarrow> object \<Rightarrow> chunking_strategy \<Rightarrow> object_layout \<Rightarrow> object_layout_descriptor res" where
  "fixed_size_layout_descriptor H object chunking_strategy layout =
     (if chunking_strategy \<noteq> FixedSize then Inl Invalid_argument
      else if obj_total_size object \<noteq> ol_total_size layout then Inl Invalid_argument
      else rbind (serialize_layout object chunking_strategy None layout) (\<lambda>canonical_bytes.
           rbind (hash_canonical_bytes H canonical_bytes) (\<lambda>layout_id.
           Inr \<lparr>ld_object = object, ld_chunking_strategy = chunking_strategy, ld_fastcdc_parameters = None,
                ld_layout = layout, ld_canonical_bytes = canonical_bytes, ld_layout_id = layout_id\<rparr>)))"

definition fastcdc_layout_descriptor ::
  "hash \<Rightarrow> object \<Rightarrow> fastcdc_parameters \<Rightarrow> object_layout \<Rightarrow> object_layout_descriptor res" where
  "fastcdc_layout_descriptor H object fastcdc_parameters layout =
     rbind (validate_fastcdc_parameters fastcdc_parameters) (\<lambda>_.
     if obj_total_size object \<noteq> ol_total_size layout then Inl Invalid_argument
     else rbind (serialize_layout object FastCdc (Some fastcdc_parameters) layout) (\<lambda>canonical_bytes.
          rbind (hash_canonical_bytes H canonical_bytes) (\<lambda>layout_id.
          Inr \<lparr>ld_object = object, ld_chunking_strategy = FastCdc, ld_fastcdc_parameters = Some fastcdc_parameters,
               ld_layout = layout, ld_canonical_bytes = canonical_bytes, ld_layout_id = layout_id\<rparr>)))"

text \<open>The fields of the encoding, as one expression.\<close>

definition chunk_entry_bytes :: "chunk_ref \<Rightarrow> byte list" where
  "chunk_entry_bytes c = hex_bytes (cr_chunk_id c) @ uint64_be (cr_offset c) @ uint64_be (cr_size c)"

definition strategy_bytes :: "chunking_strategy \<Rightarrow> fastcdc_parameters option \<Rightarrow> byte list" where
  "strategy_bytes s p = chunking_strategy_code s #
     (case p of None \<Rightarrow> []
      | Some q \<Rightarrow> uint64_be (min_chunk_size_bytes q) @ uint64_be (avg_chunk_size_bytes q) @ uint64_be (max_chunk_size_bytes q))"

definition layout_encoding ::
  "object \<Rightarrow> chunking_strategy \<Rightarrow> fastcdc_parameters option \<Rightarrow> object_layout \<Rightarrow> byte list" where
  "layout_encoding obj s p l =
     as_bytes kMagic @ uint32_be 1 @ hex_bytes (obj_object_id obj) @ strategy_bytes s p @
     uint64_be (obj_total_size obj) @ uint64_be (of_nat (length (ol_chunks l))) @
     concat (map chunk_entry_bytes (ol_chunks l))"

lemma fold_entries:
  assumes "\<forall>c \<in> set cs. is_content_id (cr_chunk_id c)"
  shows "fold_res (\<lambda>chunk output.
     rbind (append_content_id output (cr_chunk_id chunk)) (\<lambda>output.
     let output = append_uint64_big_endian output (cr_offset chunk)
     in Inr (append_uint64_big_endian output (cr_size chunk)))) cs out =
   Inr (out @ concat (map chunk_entry_bytes cs))"
  using assms
  by (induction cs arbitrary: out)
    (simp_all add: append_content_id_ok chunk_entry_bytes_def append_uint64_eq [of "_ @ _"] Let_def)

lemma tiles_from_ids: "tiles_from start cs n \<Longrightarrow> \<forall>c \<in> set cs. is_content_id (cr_chunk_id c)"
  by (induction start cs n rule: tiles_from.induct) auto

lemma object_layout_ids: "object_layout_new cs = Inr l \<Longrightarrow> \<forall>c \<in> set (ol_chunks l). is_content_id (cr_chunk_id c)"
  using tiles_from_ids [of 0 cs "layout_bytes cs"] by (simp add: object_layout_new_ok)

lemma serialize_layout_ok:
  assumes "is_content_id (obj_object_id obj)" and "\<forall>c \<in> set (ol_chunks l). is_content_id (cr_chunk_id c)"
    and "s = FastCdc \<longleftrightarrow> p \<noteq> None"
    and "serialize_layout obj s p l = Inr bs"
  shows "bs = layout_encoding obj s p l" and "fits64 (ol_chunks l)"
proof -
  let ?h = "if s = FastCdc then kFastCdcDescriptorHeaderBytes else kFixedSizeDescriptorHeaderBytes"
  have ok: "\<not> int (length (ol_chunks l)) > (2 ^ 64 - 1 - int ?h) div int kChunkEntryBytes"
    using assms(4) by (auto simp: serialize_layout_def Let_def split: if_splits)
  then have "int (length (ol_chunks l)) < 2 ^ 64"
    by (auto simp: kFastCdcDescriptorHeaderBytes_def kFixedSizeDescriptorHeaderBytes_def kChunkEntryBytes_def
        kMagic_def kContentIdBytes_def split: if_splits)
  then show "fits64 (ol_chunks l)" unfolding fits64_def by auto
  have inside: "serialize_layout obj s p l = Inr (layout_encoding obj s p l)"
    unfolding serialize_layout_def Let_def if_not_P [OF ok]
    using assms(1-3)
    by (cases s; cases p)
      (simp_all add: append_content_id_ok fold_entries [unfolded Let_def] layout_encoding_def
        strategy_bytes_def append_uint64_eq [of "_ @ _"] append_uint32_eq [of "as_bytes _"])
  with assms(4) show "bs = layout_encoding obj s p l" by simp
qed

text \<open>Lists of encoded elements split like single ones when the counts agree.\<close>

lemma concat_map_append_inject:
  assumes "length xs = length ys"
    and "\<And>x y r s :: byte list. x \<in> set xs \<Longrightarrow> y \<in> set ys \<Longrightarrow> enc x @ r = enc y @ s \<Longrightarrow> x = y \<and> r = s"
    and "concat (map enc xs) @ r = concat (map enc ys) @ s"
  shows "xs = ys \<and> r = s"
  using assms
proof (induction xs ys rule: list_induct2)
  case (Cons x xs y ys)
  from Cons.prems(2) have "enc x @ (concat (map enc xs) @ r) = enc y @ (concat (map enc ys) @ s)" by simp
  then have "x = y \<and> concat (map enc xs) @ r = concat (map enc ys) @ s"
    by (rule Cons.prems(1) [rotated 2]) simp_all
  moreover from this have "xs = ys \<and> r = s"
    by (intro Cons.IH Cons.prems(1)) auto
  ultimately show ?case by simp
qed simp

lemma chunk_entry_inject:
  "is_content_id (cr_chunk_id c) \<Longrightarrow> is_content_id (cr_chunk_id d) \<Longrightarrow>
   chunk_entry_bytes c @ xs = chunk_entry_bytes d @ ys \<Longrightarrow> c = (d :: chunk_ref) \<and> xs = ys"
  by (simp add: chunk_entry_bytes_def enc_inject)

lemma layout_encoding_inject:
  assumes "layout_encoding obj s p l = layout_encoding obj' s' p' l'"
    and "is_content_id (obj_object_id obj)" "is_content_id (obj_object_id obj')"
    and "\<forall>c \<in> set (ol_chunks l). is_content_id (cr_chunk_id c)"
    and "\<forall>c \<in> set (ol_chunks l'). is_content_id (cr_chunk_id c)"
    and "s = FastCdc \<longleftrightarrow> p \<noteq> None" and "s' = FastCdc \<longleftrightarrow> p' \<noteq> None"
    and "fits64 (ol_chunks l)" and "fits64 (ol_chunks l')"
  shows "obj = obj' \<and> s = s' \<and> p = p' \<and> ol_chunks l = ol_chunks l'"
proof -
  let ?rest = "\<lambda>obj l. uint64_be (obj_total_size obj) @ uint64_be (of_nat (length (ol_chunks l))) @
    concat (map chunk_entry_bytes (ol_chunks l))"
  have id: "obj_object_id obj = obj_object_id obj'"
    and tail: "strategy_bytes s p @ ?rest obj l = strategy_bytes s' p' @ ?rest obj' l'"
    using assms(1-3) by (simp_all add: layout_encoding_def enc_inject)
  have strategy: "s = s' \<and> p = p' \<and> ?rest obj l = ?rest obj' l'"
    using tail assms(6,7)
    by (cases s; cases s'; cases p; cases p') (auto simp: strategy_bytes_def enc_inject)
  then have total: "obj_total_size obj = obj_total_size obj'"
    and count: "(of_nat (length (ol_chunks l)) :: u64) = of_nat (length (ol_chunks l'))"
    and entries: "concat (map chunk_entry_bytes (ol_chunks l)) = concat (map chunk_entry_bytes (ol_chunks l'))"
    by (simp_all add: enc_inject)
  have len: "length (ol_chunks l) = length (ol_chunks l')"
    using count assms(8,9) by (simp add: fits64_def of_nat_u64_inject)
  have "ol_chunks l = ol_chunks l' \<and> ([] :: byte list) = []"
    by (rule concat_map_append_inject [OF len, of chunk_entry_bytes])
      (use assms(4,5) entries chunk_entry_inject in \<open>blast, simp\<close>)
  with id strategy total show ?thesis by (cases obj; cases obj') simp
qed

text \<open>The descriptors a run of the program can hold: built by a constructor from constructed parts.\<close>

inductive built_layout :: "hash \<Rightarrow> object_layout_descriptor \<Rightarrow> bool" for H where
  built_fixed: "object_new i n = Inr obj \<Longrightarrow> object_layout_new cs = Inr l \<Longrightarrow>
    fixed_size_layout_descriptor H obj s l = Inr d \<Longrightarrow> built_layout H d"
| built_fastcdc: "object_new i n = Inr obj \<Longrightarrow> object_layout_new cs = Inr l \<Longrightarrow>
    fastcdc_layout_descriptor H obj p l = Inr d \<Longrightarrow> built_layout H d"

lemma built_layout_facts:
  assumes "built_layout H d"
  shows "is_content_id (obj_object_id (ld_object d))"
    and "\<exists>cs. object_layout_new cs = Inr (ld_layout d)"
    and "ld_chunking_strategy d = FastCdc \<longleftrightarrow> ld_fastcdc_parameters d \<noteq> None"
    and "obj_total_size (ld_object d) = ol_total_size (ld_layout d)"
    and "ld_canonical_bytes d =
      layout_encoding (ld_object d) (ld_chunking_strategy d) (ld_fastcdc_parameters d) (ld_layout d)"
    and "fits64 (ol_chunks (ld_layout d))"
    and "length (H (ld_canonical_bytes d)) = 32"
    and "ld_layout_id d = digest_to_hex (H (ld_canonical_bytes d))"
proof -
  have "is_content_id (obj_object_id (ld_object d)) \<and> (\<exists>cs. object_layout_new cs = Inr (ld_layout d)) \<and>
    (ld_chunking_strategy d = FastCdc \<longleftrightarrow> ld_fastcdc_parameters d \<noteq> None) \<and>
    obj_total_size (ld_object d) = ol_total_size (ld_layout d) \<and>
    serialize_layout (ld_object d) (ld_chunking_strategy d) (ld_fastcdc_parameters d) (ld_layout d) =
      Inr (ld_canonical_bytes d) \<and>
    hash_canonical_bytes H (ld_canonical_bytes d) = Inr (ld_layout_id d)"
    using assms
  proof cases
    case (built_fixed i n obj cs l s)
    then have "is_content_id (obj_object_id obj)" "\<exists>cs. object_layout_new cs = Inr l"
      by (auto simp: object_new_ok)
    with built_fixed(3) show ?thesis
      unfolding fixed_size_layout_descriptor_def
      by (auto simp: rbind_eq_Inr simp del: not_None_eq split: if_split_asm)
  next
    case (built_fastcdc i n obj cs l p)
    then have "is_content_id (obj_object_id obj)" "\<exists>cs. object_layout_new cs = Inr l"
      by (auto simp: object_new_ok)
    with built_fastcdc(3) show ?thesis
      unfolding fastcdc_layout_descriptor_def
      by (auto simp: rbind_eq_Inr simp del: not_None_eq split: if_split_asm)
  qed
  then obtain cs where id: "is_content_id (obj_object_id (ld_object d))"
    and l: "object_layout_new cs = Inr (ld_layout d)"
    and s: "ld_chunking_strategy d = FastCdc \<longleftrightarrow> ld_fastcdc_parameters d \<noteq> None"
    and n: "obj_total_size (ld_object d) = ol_total_size (ld_layout d)"
    and b: "serialize_layout (ld_object d) (ld_chunking_strategy d) (ld_fastcdc_parameters d) (ld_layout d) =
      Inr (ld_canonical_bytes d)"
    and h: "hash_canonical_bytes H (ld_canonical_bytes d) = Inr (ld_layout_id d)"
    by blast
  show "is_content_id (obj_object_id (ld_object d))" by (fact id)
  show "\<exists>cs. object_layout_new cs = Inr (ld_layout d)" using l by blast
  show "ld_chunking_strategy d = FastCdc \<longleftrightarrow> ld_fastcdc_parameters d \<noteq> None" by (fact s)
  show "obj_total_size (ld_object d) = ol_total_size (ld_layout d)" by (fact n)
  show "ld_canonical_bytes d =
      layout_encoding (ld_object d) (ld_chunking_strategy d) (ld_fastcdc_parameters d) (ld_layout d)"
    and "fits64 (ol_chunks (ld_layout d))"
    using serialize_layout_ok [OF id object_layout_ids [OF l] s b] by simp_all
  show "length (H (ld_canonical_bytes d)) = 32" and "ld_layout_id d = digest_to_hex (H (ld_canonical_bytes d))"
    using h by (simp_all add: hash_canonical_bytes_ok)
qed

definition digest_collision :: "hash \<Rightarrow> byte list \<Rightarrow> byte list \<Rightarrow> bool" where
  "digest_collision H x y \<longleftrightarrow> x \<noteq> y \<and> H x = H y"

lemma same_id_same_bytes:
  "digest_to_hex (H x) = digest_to_hex (H y) \<Longrightarrow> \<not> digest_collision H x y \<Longrightarrow> x = y"
  by (auto simp: digest_collision_def)


definition sample_id :: "char \<Rightarrow> string" where
  "sample_id c = replicate 64 c"

lemma sample_id_content_id: "is_lower_hex c \<Longrightarrow> is_content_id (sample_id c)"
  by (simp add: sample_id_def is_content_id_def)

definition sample_hash :: hash where
  "sample_hash bs = replicate 32 (of_nat (length bs))"

lemma length_sample_hash [simp]: "length (sample_hash bs) = 32"
  by (simp add: sample_hash_def)

definition sample_layout :: object_layout_descriptor where
  "sample_layout =
     (let obj = \<lparr>obj_object_id = sample_id (CHR ''a''), obj_total_size = 0\<rparr>;
          l = \<lparr>ol_chunks = [], ol_total_size = 0\<rparr>;
          bytes = layout_encoding obj FixedSize None l
      in \<lparr>ld_object = obj, ld_chunking_strategy = FixedSize, ld_fastcdc_parameters = None, ld_layout = l,
          ld_canonical_bytes = bytes, ld_layout_id = digest_to_hex (sample_hash bytes)\<rparr>)"

lemma built_sample_layout: "built_layout sample_hash sample_layout"
proof (rule built_fixed)
  show "object_new (sample_id (CHR ''a'')) 0 = Inr (ld_object sample_layout)"
    using sample_id_content_id [of "CHR ''a''"]
    by (simp add: object_new_ok sample_layout_def is_lower_hex_def Let_def)
  show "object_layout_new [] = Inr (ld_layout sample_layout)"
    by (simp add: object_layout_new_ok sample_layout_def Let_def layout_bytes_def)
  show "fixed_size_layout_descriptor sample_hash (ld_object sample_layout) FixedSize (ld_layout sample_layout) =
    Inr sample_layout"
  proof -
    have "\<not> (18446744073709551615 - int kFixedSizeDescriptorHeaderBytes) div int kChunkEntryBytes < 0"
      by (simp add: kChunkEntryBytes_def kFixedSizeDescriptorHeaderBytes_def kMagic_def kContentIdBytes_def)
    with sample_id_content_id [of "CHR ''a''"] show ?thesis
      by (simp add: fixed_size_layout_descriptor_def sample_layout_def serialize_layout_def Let_def
        hash_canonical_bytes_eq append_content_id_ok is_lower_hex_def layout_encoding_def strategy_bytes_def
        append_uint64_eq [of "_ @ _"] append_uint32_eq [of "as_bytes _"])
  qed
qed


subsection \<open>Artifacts and versions\<close>

text \<open>A \<open>std::map\<close> with string keys: its entries in key order.\<close>

definition is_std_map :: "(string \<times> 'v) list \<Rightarrow> bool" where
  "is_std_map m \<longleftrightarrow> sorted_wrt (<) (map fst m)"

record artifact =
  art_artifact_id :: string
  art_name :: string
  art_project :: string

definition artifact_new :: "string \<Rightarrow> string \<Rightarrow> string \<Rightarrow> artifact res" where
  "artifact_new artifact_id name project =
     (if name = [] then Inl Invalid_argument
      else if project = [] then Inl Invalid_argument
      else Inr \<lparr>art_artifact_id = artifact_id, art_name = name, art_project = project\<rparr>)"

type_synonym immutable_metadata = "(string \<times> string) list"

record artifact_version =
  av_artifact_id :: string
  av_root_object_id :: string
  av_parent_version_id :: "string option"
  av_immutable_metadata :: immutable_metadata
  av_state :: version_state
  av_canonical_bytes :: "byte list"
  av_version_id :: string

definition kVersionMagic :: string where "kVersionMagic = ''AISTORE_VERSION''"

definition validate_metadata :: "immutable_metadata \<Rightarrow> unit res" where
  "validate_metadata immutable_metadata =
     check_all (\<lambda>(key, value). if key = [] then Inl Invalid_argument else Inr ()) immutable_metadata"

definition serialize_version ::
  "string \<Rightarrow> string \<Rightarrow> string option \<Rightarrow> immutable_metadata \<Rightarrow> byte list res" where
  "serialize_version artifact_id root_object_id parent_version_id immutable_metadata =
     (let output = as_bytes kVersionMagic;
          output = append_uint32_big_endian output 1
      in rbind (append_uuid output artifact_id) (\<lambda>output.
         rbind (append_hex_id output root_object_id 64) (\<lambda>output.
         rbind (case parent_version_id of
                  Some parent \<Rightarrow> let output = output @ [1] in append_hex_id output parent 64
                | None \<Rightarrow> Inr (output @ [0])) (\<lambda>output.
         let output = append_uint64_big_endian output (of_nat (length immutable_metadata))
         in Inr (fold (\<lambda>(key, value) output.
                   let output = append_string output key in append_string output value)
                   immutable_metadata output)))))"

definition artifact_version_new ::
  "hash \<Rightarrow> string \<Rightarrow> string \<Rightarrow> string option \<Rightarrow> immutable_metadata \<Rightarrow> version_state \<Rightarrow> artifact_version res" where
  "artifact_version_new H artifact_id root_object_id parent_version_id immutable_metadata state =
     rbind (check_content_id root_object_id) (\<lambda>_.
     rbind (case parent_version_id of Some parent \<Rightarrow> check_content_id parent | None \<Rightarrow> Inr ()) (\<lambda>_.
     rbind (validate_metadata immutable_metadata) (\<lambda>_.
     rbind (serialize_version artifact_id root_object_id parent_version_id immutable_metadata) (\<lambda>canonical_bytes.
     rbind (hash_canonical_bytes H canonical_bytes) (\<lambda>version_id.
     Inr \<lparr>av_artifact_id = artifact_id, av_root_object_id = root_object_id,
          av_parent_version_id = parent_version_id, av_immutable_metadata = immutable_metadata, av_state = state,
          av_canonical_bytes = canonical_bytes, av_version_id = version_id\<rparr>)))))"

definition parent_bytes :: "string option \<Rightarrow> byte list" where
  "parent_bytes p = (case p of Some parent \<Rightarrow> 1 # hex_bytes parent | None \<Rightarrow> [0])"

definition pair_bytes :: "string \<times> string \<Rightarrow> byte list" where
  "pair_bytes kv = append_string [] (fst kv) @ append_string [] (snd kv)"

definition version_encoding :: "string \<Rightarrow> string \<Rightarrow> string option \<Rightarrow> immutable_metadata \<Rightarrow> byte list" where
  "version_encoding a r p m =
     as_bytes kVersionMagic @ uint32_be 1 @ hex_bytes (compact_uuid a) @ hex_bytes r @ parent_bytes p @
     uint64_be (of_nat (length m)) @ concat (map pair_bytes m)"

lemma fold_pairs:
  "fold (\<lambda>(key, value) output. append_string (append_string output key) value) m out =
   out @ concat (map pair_bytes m)"
proof (induction m arbitrary: out)
  case (Cons kv m)
  obtain k v where "kv = (k, v)" by fastforce
  then show ?case
    using Cons by (simp add: pair_bytes_def append_string_eq [of "append_string _ _"] append_string_eq [of out])
qed simp

lemma serialize_version_ok:
  assumes "is_uuid a" and "is_content_id r" and "\<And>q. p = Some q \<Longrightarrow> is_content_id q"
  shows "serialize_version a r p m = Inr (version_encoding a r p m)"
  using assms
  by (cases p)
    (simp_all add: serialize_version_def Let_def append_uuid_ok append_hex_id_ok version_encoding_def fold_pairs
      parent_bytes_def append_uint64_eq [of "_ @ _"] append_uint32_eq [of "as_bytes _"])

definition metadata_fits :: "immutable_metadata \<Rightarrow> bool" where
  "metadata_fits m \<longleftrightarrow> fits64 m \<and> (\<forall>kv \<in> set m. fits64 (fst kv) \<and> fits64 (snd kv))"

lemma pair_bytes_inject:
  assumes "fits64 (fst x)" "fits64 (snd x)" "fits64 (fst y)" "fits64 (snd y)"
    and "pair_bytes x @ r = pair_bytes y @ s"
  shows "x = y \<and> r = s"
  using assms by (simp add: pair_bytes_def append_string_inject prod_eq_iff)

lemma metadata_encoding_inject:
  assumes "metadata_fits m" and "metadata_fits n"
    and "uint64_be (of_nat (length m)) @ concat (map pair_bytes m) =
         uint64_be (of_nat (length n)) @ concat (map pair_bytes n)"
  shows "m = n"
proof -
  have count: "(of_nat (length m) :: u64) = of_nat (length n)"
    and rest: "concat (map pair_bytes m) @ [] = concat (map pair_bytes n) @ []"
    using assms(3) by (simp_all add: enc_inject)
  then have len: "length m = length n"
    using assms(1,2) by (simp add: metadata_fits_def fits64_def of_nat_u64_inject)
  show ?thesis
    using concat_map_append_inject [OF len _ rest] pair_bytes_inject assms(1,2)
    unfolding metadata_fits_def by blast
qed

lemma version_encoding_inject:
  assumes "version_encoding a r p m = version_encoding a' r' p' m'"
    and "is_uuid a" "is_uuid a'" "is_content_id r" "is_content_id r'"
    and "\<And>q. p = Some q \<Longrightarrow> is_content_id q" "\<And>q. p' = Some q \<Longrightarrow> is_content_id q"
    and "metadata_fits m" "metadata_fits m'"
  shows "a = a' \<and> r = r' \<and> p = p' \<and> m = m'"
proof -
  let ?rest = "\<lambda>m. uint64_be (of_nat (length m)) @ concat (map pair_bytes m)"
  have "a = a'" and "r = r'" and "parent_bytes p @ ?rest m = parent_bytes p' @ ?rest m'"
    using assms(1-5) by (simp_all add: version_encoding_def uuid_bytes_append_inject content_id_bytes_append_inject)
  moreover from this(3) have "p = p' \<and> ?rest m = ?rest m'"
    using assms(6,7) by (cases p; cases p') (simp_all add: parent_bytes_def content_id_bytes_append_inject)
  ultimately show ?thesis using metadata_encoding_inject [OF assms(8,9)] by simp
qed

lemma artifact_version_new_facts:
  assumes "artifact_version_new H a r p m st = Inr v" and "is_uuid a"
  shows "is_content_id r" and "\<And>q. p = Some q \<Longrightarrow> is_content_id q" and "\<forall>kv \<in> set m. fst kv \<noteq> []"
    and "av_canonical_bytes v = version_encoding a r p m"
    and "length (H (av_canonical_bytes v)) = 32"
    and "av_version_id v = digest_to_hex (H (av_canonical_bytes v))"
    and "av_artifact_id v = a \<and> av_root_object_id v = r \<and> av_parent_version_id v = p \<and>
         av_immutable_metadata v = m \<and> av_state v = st"
proof -
  from assms(1) have r: "is_content_id r" and p: "(case p of Some q \<Rightarrow> check_content_id q | None \<Rightarrow> Inr ()) = Inr ()"
    and m: "validate_metadata m = Inr ()"
    unfolding artifact_version_new_def by (auto simp: rbind_eq_Inr check_content_id_ok)
  show r': "is_content_id r" by (fact r)
  show p': "is_content_id q" if "p = Some q" for q using p that by (simp add: check_content_id_ok)
  show "\<forall>kv \<in> set m. fst kv \<noteq> []"
    using m by (fastforce simp: validate_metadata_def check_all_ok split: if_splits)
  have "\<And>q. p = Some q \<Longrightarrow> check_content_id q = Inr ()" using p by auto
  then have ctor: "artifact_version_new H a r p m st =
      rbind (hash_canonical_bytes H (version_encoding a r p m)) (\<lambda>version_id.
      Inr \<lparr>av_artifact_id = a, av_root_object_id = r, av_parent_version_id = p, av_immutable_metadata = m,
           av_state = st, av_canonical_bytes = version_encoding a r p m, av_version_id = version_id\<rparr>)"
    using r m p' serialize_version_ok [OF assms(2) r, of p m]
    by (cases p) (simp_all add: artifact_version_new_def)
  show "av_canonical_bytes v = version_encoding a r p m"
    and "length (H (av_canonical_bytes v)) = 32"
    and "av_version_id v = digest_to_hex (H (av_canonical_bytes v))"
    and "av_artifact_id v = a \<and> av_root_object_id v = r \<and> av_parent_version_id v = p \<and>
         av_immutable_metadata v = m \<and> av_state v = st"
    using assms(1) unfolding ctor by (auto simp: rbind_eq_Inr hash_canonical_bytes_ok)
qed

text \<open>A version's identifier covers its artifact, its root object, its parent and its whole metadata
  map: two constructed versions with the same identifier agree on all four, unless their canonical
  bytes collide. The state is not part of the identity.
\<close>

theorem version_id_identifies_content:
  assumes "artifact_version_new H a r p m st = Inr v" and "artifact_version_new H a' r' p' m' st' = Inr w"
    and "is_uuid a" and "is_uuid a'" and "metadata_fits m" and "metadata_fits m'"
    and "av_version_id v = av_version_id w"
  shows "(a = a' \<and> r = r' \<and> p = p' \<and> m = m') \<or>
         digest_collision H (av_canonical_bytes v) (av_canonical_bytes w)"
proof (rule disjCI)
  note v = artifact_version_new_facts [OF assms(1,3)] and w = artifact_version_new_facts [OF assms(2,4)]
  assume "\<not> digest_collision H (av_canonical_bytes v) (av_canonical_bytes w)"
  with assms(7) have "av_canonical_bytes v = av_canonical_bytes w"
    using same_id_same_bytes by (metis v(6) w(6))
  then show "a = a' \<and> r = r' \<and> p = p' \<and> m = m'"
    using version_encoding_inject [of a r p m a' r' p' m'] v(1,2,4) w(1,2,4) assms(3-6) by simp
qed

definition sample_uuid :: string where
  "sample_uuid = ''018bcfe5-6800-7102-8304-05060708090a''"

lemma sample_uuid_ok: "is_uuid sample_uuid"
  by (simp add: is_uuid_def validate_uuid_def sample_uuid_def Let_def is_lower_hex_def is_digit_char_def upt_rec)

theorem version_id_identifies_content_witness:
  "(sample_uuid = sample_uuid \<and> sample_id (CHR ''b'') = sample_id (CHR ''b'') \<and> (None :: string option) = None \<and>
    [(''k'', ''v'')] = [(''k'', ''v'')]) \<or>
   digest_collision sample_hash
     (av_canonical_bytes (projr (artifact_version_new sample_hash sample_uuid (sample_id (CHR ''b'')) None [(''k'', ''v'')] Staging)))
     (av_canonical_bytes (projr (artifact_version_new sample_hash sample_uuid (sample_id (CHR ''b'')) None [(''k'', ''v'')] VersionCommitted)))"
proof -
  have id: "is_content_id (sample_id (CHR ''b''))" by (rule sample_id_content_id) (simp add: is_lower_hex_def)
  have bytes: "serialize_version sample_uuid (sample_id (CHR ''b'')) None [(''k'', ''v'')] =
      Inr (version_encoding sample_uuid (sample_id (CHR ''b'')) None [(''k'', ''v'')])"
    by (rule serialize_version_ok [OF sample_uuid_ok id]) simp
  have ok: "\<exists>v. artifact_version_new sample_hash sample_uuid (sample_id (CHR ''b'')) None [(''k'', ''v'')] st = Inr v \<and>
      av_version_id v = digest_to_hex (sample_hash (version_encoding sample_uuid (sample_id (CHR ''b'')) None [(''k'', ''v'')]))"
    for st
    by (simp add: artifact_version_new_def id validate_metadata_def
        bytes hash_canonical_bytes_eq)
  show ?thesis
    using version_id_identifies_content [of sample_hash sample_uuid "sample_id (CHR ''b'')" None "[(''k'', ''v'')]" Staging _
        sample_uuid "sample_id (CHR ''b'')" None "[(''k'', ''v'')]" VersionCommitted] ok [of Staging] ok [of VersionCommitted]
      sample_uuid_ok
    by (fastforce simp: metadata_fits_def fits64_def)
qed

subsection \<open>Manifests\<close>

type_synonym manifest_entries = "(string \<times> string) list"

record manifest =
  man_manifest_id :: string
  man_entries :: manifest_entries
  man_canonical_bytes :: "byte list"

definition kManifestMagic :: string where "kManifestMagic = ''AISTORE_MANIFEST''"

definition validate_entries :: "manifest_entries \<Rightarrow> unit res" where
  "validate_entries entries =
     check_all (\<lambda>(role, version_id).
       if role = [] then Inl Invalid_argument else check_content_id version_id) entries"

definition serialize_manifest :: "manifest_entries \<Rightarrow> byte list res" where
  "serialize_manifest entries =
     (let output = as_bytes kManifestMagic;
          output = append_uint32_big_endian output 1;
          output = append_uint64_big_endian output (of_nat (length entries))
      in fold_res (\<lambda>(role, version_id) output.
           let output = append_string output role in append_hex_id output version_id 64) entries output)"

definition manifest_new :: "hash \<Rightarrow> manifest_entries \<Rightarrow> manifest res" where
  "manifest_new H entries =
     rbind (validate_entries entries) (\<lambda>_.
     rbind (serialize_manifest entries) (\<lambda>canonical_bytes.
     rbind (hash_canonical_bytes H canonical_bytes) (\<lambda>manifest_id.
     Inr \<lparr>man_manifest_id = manifest_id, man_entries = entries, man_canonical_bytes = canonical_bytes\<rparr>)))"

definition entry_bytes :: "string \<times> string \<Rightarrow> byte list" where
  "entry_bytes e = append_string [] (fst e) @ hex_bytes (snd e)"

definition manifest_encoding :: "manifest_entries \<Rightarrow> byte list" where
  "manifest_encoding es =
     as_bytes kManifestMagic @ uint32_be 1 @ uint64_be (of_nat (length es)) @ concat (map entry_bytes es)"

lemma validate_entries_ok [res_simps]:
  "validate_entries es = Inr u \<longleftrightarrow> (\<forall>e \<in> set es. fst e \<noteq> [] \<and> is_content_id (snd e))"
proof -
  have "(case e of (role, version_id) \<Rightarrow> if role = [] then Inl Invalid_argument else check_content_id version_id) = Inr ()
      \<longleftrightarrow> fst e \<noteq> [] \<and> is_content_id (snd e)" for e
    by (cases e) (simp add: check_content_id_ok)
  then show ?thesis unfolding validate_entries_def check_all_ok by blast
qed

lemma validate_entries_valid:
  "\<forall>e \<in> set es. fst e \<noteq> [] \<and> is_content_id (snd e) \<Longrightarrow> validate_entries es = Inr ()"
  by (simp add: validate_entries_ok)

lemma serialize_manifest_ok:
  assumes "\<forall>e \<in> set es. is_content_id (snd e)"
  shows "serialize_manifest es = Inr (manifest_encoding es)"
proof -
  have "fold_res (\<lambda>(role, version_id) output. append_hex_id (append_string output role) version_id 64) es out =
    Inr (out @ concat (map entry_bytes es))" for out
    using assms
  proof (induction es arbitrary: out)
    case (Cons e es)
    obtain k i where "e = (k, i)" by fastforce
    with Cons show ?case
      by (simp add: entry_bytes_def append_hex_id_ok append_string_eq [of out])
  qed simp
  then show ?thesis
    by (simp add: serialize_manifest_def Let_def manifest_encoding_def append_uint64_eq [of "_ @ _"]
        append_uint32_eq [of "as_bytes _"])
qed

lemma manifest_new_facts:
  assumes "manifest_new H es = Inr m"
  shows "\<forall>e \<in> set es. fst e \<noteq> [] \<and> is_content_id (snd e)" and "man_entries m = es"
    and "man_canonical_bytes m = manifest_encoding es"
    and "length (H (man_canonical_bytes m)) = 32"
    and "man_manifest_id m = digest_to_hex (H (man_canonical_bytes m))"
proof -
  show es: "\<forall>e \<in> set es. fst e \<noteq> [] \<and> is_content_id (snd e)"
    using assms by (auto simp: manifest_new_def rbind_eq_Inr validate_entries_ok)
  then have "serialize_manifest es = Inr (manifest_encoding es)" by (simp add: serialize_manifest_ok)
  then show "man_entries m = es" and "man_canonical_bytes m = manifest_encoding es"
    and "length (H (man_canonical_bytes m)) = 32"
    and "man_manifest_id m = digest_to_hex (H (man_canonical_bytes m))"
    using assms by (auto simp: manifest_new_def rbind_eq_Inr hash_canonical_bytes_ok)
qed

text \<open>A manifest's identifier covers its entries: two constructed manifests with the same identifier
  have the same roles and versions, unless their canonical bytes collide.
\<close>

theorem manifest_id_identifies_entries:
  assumes "manifest_new H es = Inr m" and "manifest_new H fs = Inr n"
    and "fits64 es" and "fits64 fs"
    and "\<forall>e \<in> set es. fits64 (fst e)" and "\<forall>f \<in> set fs. fits64 (fst f)"
    and "man_manifest_id m = man_manifest_id n"
  shows "m = n \<or> digest_collision H (man_canonical_bytes m) (man_canonical_bytes n)"
proof (rule disjCI)
  note m = manifest_new_facts [OF assms(1)] and n = manifest_new_facts [OF assms(2)]
  assume "\<not> digest_collision H (man_canonical_bytes m) (man_canonical_bytes n)"
  with assms(7) have bytes: "man_canonical_bytes m = man_canonical_bytes n"
    using same_id_same_bytes by (metis m(5) n(5))
  then have count: "(of_nat (length es) :: u64) = of_nat (length fs)"
    and rest: "concat (map entry_bytes es) @ [] = concat (map entry_bytes fs) @ []"
    by (simp_all add: m(3) n(3) manifest_encoding_def enc_inject)
  then have len: "length es = length fs"
    using assms(3,4) by (simp add: fits64_def of_nat_u64_inject)
  have split: "x = y \<and> r = s"
    if "x \<in> set es" "y \<in> set fs" "entry_bytes x @ r = entry_bytes y @ s" for x y r s
    using that m(1) n(1) assms(5,6)
    by (simp add: entry_bytes_def append_string_inject content_id_bytes_append_inject prod_eq_iff)
  have "es = fs" using concat_map_append_inject [OF len split rest] by blast
  with m(2) n(2) bytes assms(7) show "m = n" by (cases m; cases n) simp
qed

theorem manifest_id_identifies_entries_witness:
  "projr (manifest_new sample_hash [(''role'', sample_id (CHR ''c''))]) =
     projr (manifest_new sample_hash [(''role'', sample_id (CHR ''c''))]) \<or>
   digest_collision sample_hash
     (man_canonical_bytes (projr (manifest_new sample_hash [(''role'', sample_id (CHR ''c''))])))
     (man_canonical_bytes (projr (manifest_new sample_hash [(''role'', sample_id (CHR ''c''))])))"
proof -
  have id: "is_content_id (sample_id (CHR ''c''))" by (rule sample_id_content_id) (simp add: is_lower_hex_def)
  have "\<exists>m. manifest_new sample_hash [(''role'', sample_id (CHR ''c''))] = Inr m"
    using id by (simp add: manifest_new_def validate_entries_valid serialize_manifest_ok hash_canonical_bytes_eq)
  then obtain m where m: "manifest_new sample_hash [(''role'', sample_id (CHR ''c''))] = Inr m" ..
  show ?thesis
    using manifest_id_identifies_entries [OF m m] by (simp add: fits64_def m)
qed

subsection \<open>Runs\<close>

text \<open>A time stamp of a run is a number of milliseconds since the epoch.\<close>

type_synonym timestamp = int

record run =
  run_run_id :: string
  run_manifest_id :: string
  run_name :: string
  run_source_commit :: "string option"
  run_tags :: "(string \<times> string) list"
  run_started_at :: timestamp
  run_completed_at :: "timestamp option"

definition validate_tags :: "(string \<times> string) list \<Rightarrow> unit res" where
  "validate_tags tags = check_all (\<lambda>(key, value). if key = [] then Inl Invalid_argument else Inr ()) tags"

definition run_new ::
  "string \<Rightarrow> string \<Rightarrow> string \<Rightarrow> string option \<Rightarrow> (string \<times> string) list \<Rightarrow> timestamp \<Rightarrow> timestamp option \<Rightarrow> run res" where
  "run_new run_id manifest_id name source_commit tags started_at completed_at =
     rbind (check_content_id manifest_id) (\<lambda>_.
     if name = [] then Inl Invalid_argument
     else if source_commit = Some [] then Inl Invalid_argument
     else rbind (validate_tags tags) (\<lambda>_.
     if (case completed_at of Some c \<Rightarrow> c < started_at | None \<Rightarrow> False) then Inl Invalid_argument
     else Inr \<lparr>run_run_id = run_id, run_manifest_id = manifest_id, run_name = name,
               run_source_commit = source_commit, run_tags = tags, run_started_at = started_at,
               run_completed_at = completed_at\<rparr>))"

end
