(* ===== verification/Placement.thy ===== *)
theory Placement
  imports Objects
begin

section \<open>Storage nodes and replica placement\<close>

text \<open>
  The storage-node validators of \<open>storage_node.cpp\<close> and the rendezvous placement of \<open>placement.cpp\<close>:
  every node of the placement set is ranked by the digest of the chunk and node identifiers, and the
  first \<open>replication_factor\<close> nodes of the ranking are the replicas.

  Whether a text is a numeric IP address is decided by Boost.Asio and is the parameter \<open>is_ip\<close>.

  The lemmas show that the ranking is the only list sorted by the comparator, that adding a node to
  the set inserts it into the ranking and changes nothing else, and hence that a change of the set
  moves at most the chunks the new node wins.
\<close>

subsection \<open>Storage nodes\<close>

record storage_node =
  sn_node_id :: string
  sn_address :: string
  sn_port :: u16
  sn_state :: storage_node_state

definition validate_storage_node_id :: "string \<Rightarrow> unit res" where
  "validate_storage_node_id node_id = check_node_id node_id"

definition validate_storage_node_address :: "(string \<Rightarrow> bool) \<Rightarrow> string \<Rightarrow> unit res" where
  "validate_storage_node_address is_ip address =
     (if address = [] then Inl Invalid_argument
      else if \<not> is_ip address then Inl Invalid_argument
      else Inr ())"

definition validate_storage_node_port :: "u16 \<Rightarrow> unit res" where
  "validate_storage_node_port port = (if port = 0 then Inl Invalid_argument else Inr ())"

definition validate_storage_node :: "(string \<Rightarrow> bool) \<Rightarrow> storage_node \<Rightarrow> unit res" where
  "validate_storage_node is_ip node =
     rbind (validate_storage_node_id (sn_node_id node)) (\<lambda>_.
     rbind (validate_storage_node_address is_ip (sn_address node)) (\<lambda>_.
     validate_storage_node_port (sn_port node)))"

lemma validate_storage_node_ok [res_simps]:
  "validate_storage_node is_ip node = Inr u \<longleftrightarrow>
   is_valid_node_id (sn_node_id node) \<and> sn_address node \<noteq> [] \<and> is_ip (sn_address node) \<and> sn_port node \<noteq> 0"
  by (auto simp: validate_storage_node_def validate_storage_node_id_def validate_storage_node_address_def
      validate_storage_node_port_def rbind_eq_Inr check_node_id_ok split: if_splits)

subsection \<open>Placement\<close>

definition kPlacementPrefix :: string where
  "kPlacementPrefix = ''AISTORE_PLACEMENT_V1''"

definition placement_digest :: "hash \<Rightarrow> string \<Rightarrow> string \<Rightarrow> byte list res" where
  "placement_digest H chunk_id node_id =
     rbind (sha256_update sha256_new (as_bytes kPlacementPrefix)) (\<lambda>hasher.
     rbind (sha256_update hasher [0]) (\<lambda>hasher.
     rbind (sha256_update hasher (as_bytes chunk_id)) (\<lambda>hasher.
     rbind (sha256_update hasher [0]) (\<lambda>hasher.
     rbind (sha256_update hasher (as_bytes node_id)) (\<lambda>hasher.
     rbind (sha256_finalize H hasher) (\<lambda>(_, digest). Inr digest))))))"

text \<open>The comparator: larger digests first, equal digests in node order.\<close>

record ranked_node =
  rn_digest :: "byte list"
  rn_node_id :: string

fun digest_order :: "byte list \<Rightarrow> byte list \<Rightarrow> bool option" where
  "digest_order (l # ls) (r # rs) = (if l \<noteq> r then Some (r < l) else digest_order ls rs)"
| "digest_order _ _ = None"

definition ranked_before :: "ranked_node \<Rightarrow> ranked_node \<Rightarrow> bool" where
  "ranked_before left right =
     (case digest_order (rn_digest left) (rn_digest right) of
        Some b \<Rightarrow> b
      | None \<Rightarrow> rn_node_id left < rn_node_id right)"

definition select_replica_nodes :: "hash \<Rightarrow> string \<Rightarrow> string list \<Rightarrow> nat \<Rightarrow> string list res" where
  "select_replica_nodes H chunk_id placement_node_ids replication_factor =
     rbind (check_content_id chunk_id) (\<lambda>_.
     if placement_node_ids = [] \<or> 64 < length placement_node_ids then Inl Invalid_argument
     else if replication_factor < 1 \<or> 8 < replication_factor \<or> length placement_node_ids < replication_factor
     then Inl Invalid_argument
     else
       rbind (fold_res (\<lambda>index unique_ids.
                let node_id = placement_node_ids ! index
                in rbind (validate_storage_node_id node_id) (\<lambda>_.
                   if 0 < index \<and> node_id \<le> placement_node_ids ! (index - 1) then Inl Invalid_argument
                   else if node_id \<in> set unique_ids then Inl Invalid_argument
                   else Inr (node_id # unique_ids)))
              [0..<length placement_node_ids] []) (\<lambda>_.
       rbind (map_res (\<lambda>node_id.
                rbind (placement_digest H chunk_id node_id) (\<lambda>digest.
                Inr \<lparr>rn_digest = digest, rn_node_id = node_id\<rparr>)) placement_node_ids) (\<lambda>ranked.
       Inr (map rn_node_id (take replication_factor (sort_by ranked_before ranked))))))"

subsection \<open>The validity of a placement set\<close>

definition valid_placement :: "string list \<Rightarrow> bool" where
  "valid_placement ns \<longleftrightarrow>
     ns \<noteq> [] \<and> length ns \<le> 64 \<and> (\<forall>n \<in> set ns. is_valid_node_id n) \<and> sorted_wrt (<) ns"

lemma sorted_wrt_adjacent:
  "sorted_wrt (<) (xs :: 'a :: linorder list) \<longleftrightarrow> (\<forall>i < length xs. 0 < i \<longrightarrow> xs ! (i - 1) < xs ! i)"
proof -
  have "sorted_wrt (<) xs \<longleftrightarrow> (\<forall>i. Suc i < length xs \<longrightarrow> xs ! i < xs ! Suc i)"
    by (rule sorted_wrt_iff_nth_Suc_transp) (rule transp_on_less)
  also have "\<dots> \<longleftrightarrow> (\<forall>i < length xs. 0 < i \<longrightarrow> xs ! (i - 1) < xs ! i)"
    by (metis Suc_pred diff_Suc_1 zero_less_Suc)
  finally show ?thesis .
qed

text \<open>The loop over the nodes accepts exactly the sorted lists of valid identifiers.\<close>

lemma placement_loop_step:
  "(let node_id = ns ! index
    in rbind (validate_storage_node_id node_id) (\<lambda>_.
       if 0 < index \<and> node_id \<le> ns ! (index - 1) then Inl Invalid_argument
       else if node_id \<in> set seen then Inl Invalid_argument
       else Inr (node_id # seen))) = Inr seen' \<longleftrightarrow>
   is_valid_node_id (ns ! index) \<and> (0 < index \<longrightarrow> ns ! (index - 1) < ns ! index) \<and>
   ns ! index \<notin> set seen \<and> seen' = ns ! index # seen"
  by (auto simp: Let_def rbind_eq_Inr validate_storage_node_id_def check_node_id_ok)

lemma sorted_take_Suc:
  fixes ns :: "'a :: linorder list"
  assumes "k < length ns"
  shows "sorted_wrt (<) (take (Suc k) ns) \<longleftrightarrow>
    sorted_wrt (<) (take k ns) \<and> (0 < k \<longrightarrow> ns ! (k - 1) < ns ! k)"
proof -
  have "(\<forall>i < Suc k. 0 < i \<longrightarrow> ns ! (i - 1) < ns ! i) \<longleftrightarrow>
    (\<forall>i < k. 0 < i \<longrightarrow> ns ! (i - 1) < ns ! i) \<and> (0 < k \<longrightarrow> ns ! (k - 1) < ns ! k)"
    by (auto simp: less_Suc_eq)
  moreover have "length (take (Suc k) ns) = Suc k" "length (take k ns) = k" using assms by simp_all
  ultimately show ?thesis
    unfolding sorted_wrt_adjacent by (metis nth_take less_imp_diff_less)
qed

lemma placement_loop_prefix:
  "k \<le> length ns \<Longrightarrow>
   fold_res (\<lambda>index unique_ids.
      let node_id = ns ! index
      in rbind (validate_storage_node_id node_id) (\<lambda>_.
         if 0 < index \<and> node_id \<le> ns ! (index - 1) then Inl Invalid_argument
         else if node_id \<in> set unique_ids then Inl Invalid_argument
         else Inr (node_id # unique_ids))) [0..<k] [] = Inr seen \<longleftrightarrow>
   (\<forall>n \<in> set (take k ns). is_valid_node_id n) \<and> sorted_wrt (<) (take k ns) \<and> seen = rev (take k ns)"
proof (induction k arbitrary: seen)
  case (Suc k)
  have k: "k < length ns" using Suc.prems by simp
  have take: "take (Suc k) ns = take k ns @ [ns ! k]"
    using k by (rule take_Suc_conv_app_nth)
  have adj: "sorted_wrt (<) (take k ns @ [ns ! k]) \<longleftrightarrow>
      sorted_wrt (<) (take k ns) \<and> (0 < k \<longrightarrow> ns ! (k - 1) < ns ! k)"
    using sorted_take_Suc [OF k] unfolding take .
  have fresh: "sorted_wrt (<) (take k ns @ [ns ! k]) \<Longrightarrow> ns ! k \<notin> set (take k ns)"
    by (auto simp: sorted_wrt_append)
  show ?case
    unfolding upt_Suc_append [OF le0] fold_res_append rbind_eq_Inr fold_res.simps
    unfolding Suc.IH [OF less_imp_le [OF k]] placement_loop_step take
    using adj fresh by (auto simp: placement_loop_step)
qed auto

subsection \<open>The ranking\<close>

text \<open>The digest of a node, and the order of two nodes, for one chunk.\<close>

definition node_digest :: "hash \<Rightarrow> string \<Rightarrow> string \<Rightarrow> byte list" where
  "node_digest H chunk_id node_id = H (as_bytes kPlacementPrefix @ [0] @ as_bytes chunk_id @ [0] @ as_bytes node_id)"

definition node_before :: "hash \<Rightarrow> string \<Rightarrow> string \<Rightarrow> string \<Rightarrow> bool" where
  "node_before H c m n \<longleftrightarrow>
     node_digest H c n < node_digest H c m \<or> (node_digest H c m = node_digest H c n \<and> m < n)"

definition ranking :: "hash \<Rightarrow> string \<Rightarrow> string list \<Rightarrow> string list" where
  "ranking H c ns = sort_by (node_before H c) ns"

lemma digest_order_eq:
  "length l = length r \<Longrightarrow> digest_order l r = (if l = r then None else Some (r < l))"
  by (induction l r rule: list_induct2) auto

lemma placement_digest_ok:
  "sha_length_ok H \<Longrightarrow> placement_digest H c n = Inr (node_digest H c n)"
  by (simp add: placement_digest_def sha256_update_live sha256_new_def sha256_finalize_def Let_def
      node_digest_def sha_length_ok_def)

lemma length_node_digest: "sha_length_ok H \<Longrightarrow> length (node_digest H c n) = 32"
  by (simp add: node_digest_def sha_length_ok_def)

lemma ranked_before_nodes:
  assumes "sha_length_ok H"
  shows "ranked_before \<lparr>rn_digest = node_digest H c m, rn_node_id = m\<rparr> \<lparr>rn_digest = node_digest H c n, rn_node_id = n\<rparr>
    \<longleftrightarrow> node_before H c m n"
  by (auto simp: ranked_before_def node_before_def digest_order_eq length_node_digest [OF assms])

lemma map_insert_by:
  "insert_by b (f x) (map f ys) = map f (insert_by (\<lambda>x y. b (f x) (f y)) x ys)"
  by (induction ys) auto

lemma sort_by_map: "sort_by b (map f xs) = map f (sort_by (\<lambda>x y. b (f x) (f y)) xs)"
  by (induction xs) (simp_all add: sort_by_def map_insert_by)

lemma map_res_Inr: "(\<And>x. x \<in> set xs \<Longrightarrow> f x = Inr (g x)) \<Longrightarrow> map_res f xs = Inr (map g xs)"
  by (induction xs) simp_all

lemma select_replica_nodes_eq:
  assumes "sha_length_ok H"
  shows "select_replica_nodes H c ns rf = Inr sel \<longleftrightarrow>
    is_content_id c \<and> valid_placement ns \<and> 1 \<le> rf \<and> rf \<le> 8 \<and> rf \<le> length ns \<and> sel = take rf (ranking H c ns)"
proof -
  have ranked: "map_res (\<lambda>node_id. rbind (placement_digest H c node_id) (\<lambda>digest.
      Inr \<lparr>rn_digest = digest, rn_node_id = node_id\<rparr>)) ns =
    Inr (map (\<lambda>n. \<lparr>rn_digest = node_digest H c n, rn_node_id = n\<rparr>) ns)"
    by (rule map_res_Inr) (simp add: placement_digest_ok [OF assms])
  have rank: "map rn_node_id (take rf (sort_by ranked_before (map (\<lambda>n. \<lparr>rn_digest = node_digest H c n, rn_node_id = n\<rparr>) ns)))
    = take rf (ranking H c ns)"
    by (simp add: sort_by_map ranked_before_nodes [OF assms] take_map ranking_def comp_def)
  show ?thesis
    unfolding select_replica_nodes_def ranked rbind_simps rank rbind_eq_Inr check_content_id_ok if_Inl_eq_Inr
      placement_loop_prefix [OF le_refl] valid_placement_def
    by auto
qed

lemma transp_node_before: "transp (node_before H c)"
  by (rule transpI) (auto simp: node_before_def)

lemma irreflp_node_before: "irreflp (node_before H c)"
  by (rule irreflpI) (auto simp: node_before_def)

lemma node_before_total: "m \<noteq> n \<Longrightarrow> node_before H c m n \<or> node_before H c n m"
  by (auto simp: node_before_def)

lemma sorted_ranking: "distinct ns \<Longrightarrow> sorted_wrt (node_before H c) (ranking H c ns)"
  unfolding ranking_def by (rule sorted_sort_by [OF transp_node_before _ node_before_total])

lemma set_ranking [simp]: "set (ranking H c ns) = set ns"
  by (simp add: ranking_def)

lemma length_ranking [simp]: "length (ranking H c ns) = length ns"
  by (simp add: ranking_def)

lemma distinct_ranking [simp]: "distinct (ranking H c ns) \<longleftrightarrow> distinct ns"
  by (simp add: ranking_def)

text \<open>Taking a node out of the set takes it out of the ranking.\<close>

lemma ranking_remove:
  assumes "distinct ns" and "distinct ms" and "set ns = set ms - {n}"
  shows "ranking H c ns = filter (\<lambda>m. m \<noteq> n) (ranking H c ms)"
proof (rule sorted_wrt_unique [OF transp_node_before [of H c] irreflp_node_before [of H c]])
  show "sorted_wrt (node_before H c) (ranking H c ns)" using assms(1) by (rule sorted_ranking)
  show "sorted_wrt (node_before H c) (filter (\<lambda>m. m \<noteq> n) (ranking H c ms))"
    using sorted_ranking [OF assms(2)] by (rule sorted_wrt_filter)
  show "set (ranking H c ns) = set (filter (\<lambda>m. m \<noteq> n) (ranking H c ms))"
    unfolding set_filter set_ranking assms(3) by blast
qed

lemma valid_placement_distinct: "valid_placement ns \<Longrightarrow> distinct ns"
  by (simp add: valid_placement_def sorted_wrt_less_distinct)

text \<open>
  C5: Placement returns exactly \<open>replication_factor\<close> distinct nodes of the placement set, and they are
  the best of it: every node that is not selected ranks after every selected one.
\<close>

theorem selected_replicas_are_the_best:
  assumes "sha_length_ok H" and "select_replica_nodes H c ns rf = Inr sel"
  shows "length sel = rf \<and> distinct sel \<and> set sel \<subseteq> set ns \<and>
    (\<forall>s \<in> set sel. \<forall>n \<in> set ns - set sel. node_before H c s n)"
proof -
  from assms have valid: "valid_placement ns" and rf: "rf \<le> length ns" and sel: "sel = take rf (ranking H c ns)"
    by (auto simp: select_replica_nodes_eq)
  note distinct = valid_placement_distinct [OF valid]
  have split: "sorted_wrt (node_before H c) (sel @ drop rf (ranking H c ns))"
    using sorted_ranking [OF distinct, of H c] unfolding sel by simp
  have "set ns = set sel \<union> set (drop rf (ranking H c ns))"
    unfolding sel by (metis append_take_drop_id set_append set_ranking)
  moreover have "node_before H c s n" if "s \<in> set sel" "n \<in> set (drop rf (ranking H c ns))" for s n
    using split that by (simp add: sorted_wrt_append)
  moreover have "length sel = rf" "distinct sel" using rf distinct unfolding sel by simp_all
  ultimately show ?thesis by blast
qed

definition sample_nodes :: "string list" where
  "sample_nodes = [''node-a'', ''node-b'', ''node-c'']"

lemma sha_length_sample_hash: "sha_length_ok sample_hash"
  by (simp add: sha_length_ok_def)

lemma sample_nodes_valid: "valid_placement sample_nodes"
  by (simp add: valid_placement_def sample_nodes_def is_valid_node_id_def is_node_id_char_def is_digit_char_def)

lemma select_sample_nodes:
  "select_replica_nodes sample_hash (sample_id (CHR ''a'')) sample_nodes 2 =
   Inr (take 2 (ranking sample_hash (sample_id (CHR ''a'')) sample_nodes))"
  using sample_nodes_valid sample_id_content_id [of "CHR ''a''"]
  by (simp add: select_replica_nodes_eq sha_length_sample_hash is_lower_hex_def) (simp add: sample_nodes_def)

theorem selected_replicas_are_the_best_witness:
  "length (projr (select_replica_nodes sample_hash (sample_id (CHR ''a'')) sample_nodes 2)) = 2"
  using selected_replicas_are_the_best [OF sha_length_sample_hash select_sample_nodes]
  by (simp add: select_sample_nodes)

text \<open>
  C20: A placement change moves only what it must. When one node \<open>n\<close> joins the placement set, the new
  replicas of a chunk are either the old ones or the old ones with \<open>n\<close> in place of one of them.
\<close>

theorem placement_minimal_disruption:
  assumes "sha_length_ok H"
    and "select_replica_nodes H c old rf = Inr before" and "select_replica_nodes H c new rf = Inr after"
    and "set new = insert n (set old)" and "n \<notin> set old"
  shows "after = before \<or> (n \<in> set after \<and> set after - {n} \<subseteq> set before)"
proof -
  let ?R = "ranking H c new"
  have old: "before = take rf (ranking H c old)" "distinct old" and new: "after = take rf ?R" "distinct new"
    using assms(1-3) by (auto simp: select_replica_nodes_eq valid_placement_distinct)
  have rank: "ranking H c old = filter (\<lambda>m. m \<noteq> n) ?R"
    by (rule ranking_remove [OF old(2) new(2)]) (use assms(4,5) in auto)
  let ?A = "filter (\<lambda>m. m \<noteq> n) (take rf ?R)" and ?B = "filter (\<lambda>m. m \<noteq> n) (drop rf ?R)"
  have split: "ranking H c old = ?A @ ?B"
    unfolding rank by (metis append_take_drop_id filter_append)
  show ?thesis
  proof (cases "n \<in> set after")
    case True
    have "take (length ?A) before = ?A"
      unfolding old(1) split by (simp add: min_absorb1 length_filter_le [THEN order_trans])
    then have "set ?A \<subseteq> set before" by (metis set_take_subset)
    then show ?thesis using True new(1) by auto
  next
    case False
    then have A: "?A = take rf ?R" using new(1) by (simp only: filter_id_conv) blast
    have "rf \<le> length ?R" using assms(1,3) by (simp add: select_replica_nodes_eq)
    then have "before = take rf ?R" unfolding old(1) split A by simp
    then show ?thesis using new(1) by simp
  qed
qed

definition fewer_nodes :: "string list" where
  "fewer_nodes = [''node-a'', ''node-c'']"

lemma select_fewer_nodes:
  "select_replica_nodes sample_hash (sample_id (CHR ''a'')) fewer_nodes 2 =
   Inr (take 2 (ranking sample_hash (sample_id (CHR ''a'')) fewer_nodes))"
proof -
  have "valid_placement fewer_nodes"
    by (simp add: valid_placement_def fewer_nodes_def is_valid_node_id_def is_node_id_char_def is_digit_char_def)
  then show ?thesis
    using sample_id_content_id [of "CHR ''a''"]
    by (simp add: select_replica_nodes_eq sha_length_sample_hash is_lower_hex_def) (simp add: fewer_nodes_def)
qed

theorem placement_minimal_disruption_witness:
  "let before = projr (select_replica_nodes sample_hash (sample_id (CHR ''a'')) fewer_nodes 2);
       after = projr (select_replica_nodes sample_hash (sample_id (CHR ''a'')) sample_nodes 2)
   in after = before \<or> (''node-b'' \<in> set after \<and> set after - {''node-b''} \<subseteq> set before)"
proof -
  have added: "set sample_nodes = insert ''node-b'' (set fewer_nodes)" "''node-b'' \<notin> set fewer_nodes"
    by (auto simp: sample_nodes_def fewer_nodes_def)
  show ?thesis
    using placement_minimal_disruption
      [OF sha_length_sample_hash select_fewer_nodes select_sample_nodes added]
    unfolding Let_def select_fewer_nodes select_sample_nodes sum.sel .
qed

end
