(* ===== verification/Sessions.thy ===== *)
theory Sessions
  imports Placement
begin

section \<open>Upload sessions and lifecycle policies as values\<close>

text \<open>
  The class \<open>UploadSession\<close> (\<open>upload_session.cpp\<close>) with its private constructor and the four public
  ones that delegate to it, the comparison that decides whether a repeated create request is the same
  request, and the policy validation and artifact-kind resolution of \<open>lifecycle.cpp\<close>.

  The lemmas characterise the sessions the constructor accepts; every accepted placement list is a
  valid input of \<open>select_replica_nodes\<close> with the session's replication factor.
\<close>

subsection \<open>Upload sessions\<close>

record upload_session =
  us_session_id :: string
  us_artifact_id :: string
  us_target_node_id :: string
  us_replication_factor :: u8
  us_placement_node_ids :: "string list"
  us_chunking_strategy :: chunking_strategy
  us_fixed_chunk_size_bytes :: "u64 option"
  us_fastcdc_parameters :: "fastcdc_parameters option"
  us_parent_version_id :: "string option"
  us_immutable_metadata :: immutable_metadata
  us_state :: upload_session_state
  us_finalized_version_id :: "string option"

definition validate_replication_configuration :: "u8 \<Rightarrow> string list \<Rightarrow> string \<Rightarrow> unit res" where
  "validate_replication_configuration replication_factor placement_node_ids target_node_id =
     (if replication_factor < 1 \<or> 8 < replication_factor then Inl Invalid_argument
      else if placement_node_ids = [] \<or> 64 < length placement_node_ids then Inl Invalid_argument
      else if length placement_node_ids < unat replication_factor then Inl Invalid_argument
      else if hd placement_node_ids \<noteq> target_node_id then Inl Invalid_argument
      else check_all (\<lambda>index.
             rbind (check_node_id (placement_node_ids ! index)) (\<lambda>_.
             if 0 < index \<and> placement_node_ids ! index \<le> placement_node_ids ! (index - 1)
             then Inl Invalid_argument else Inr ())) [0..<length placement_node_ids])"

definition validate_strategy_parameters ::
  "chunking_strategy \<Rightarrow> u64 option \<Rightarrow> fastcdc_parameters option \<Rightarrow> unit res" where
  "validate_strategy_parameters chunking_strategy fixed_chunk_size_bytes fastcdc_parameters =
     (case chunking_strategy of
        FixedSize \<Rightarrow>
          if fixed_chunk_size_bytes = None \<or> fixed_chunk_size_bytes = Some 0 then Inl Invalid_argument
          else if fastcdc_parameters \<noteq> None then Inl Invalid_argument
          else Inr ()
      | FastCdc \<Rightarrow>
          if fixed_chunk_size_bytes \<noteq> None then Inl Invalid_argument
          else (case fastcdc_parameters of
                  None \<Rightarrow> Inl Invalid_argument
                | Some p \<Rightarrow> validate_fastcdc_parameters p))"

definition validate_session_state :: "upload_session_state \<Rightarrow> string option \<Rightarrow> unit res" where
  "validate_session_state state finalized_version_id =
     (case state of
        SessionCommitted \<Rightarrow> if finalized_version_id = None then Inl Invalid_argument else Inr ()
      | _ \<Rightarrow> if finalized_version_id \<noteq> None then Inl Invalid_argument else Inr ())"

definition check_optional_content_id :: "string option \<Rightarrow> unit res" where
  "check_optional_content_id content_id =
     (case content_id of Some i \<Rightarrow> check_content_id i | None \<Rightarrow> Inr ())"

text \<open>The private constructor.\<close>

definition upload_session_new ::
  "string \<Rightarrow> string \<Rightarrow> u8 \<Rightarrow> string list \<Rightarrow> chunking_strategy \<Rightarrow> u64 option \<Rightarrow> fastcdc_parameters option \<Rightarrow>
   string option \<Rightarrow> immutable_metadata \<Rightarrow> upload_session_state \<Rightarrow> string option \<Rightarrow> upload_session res" where
  "upload_session_new session_id artifact_id replication_factor placement_node_ids chunking_strategy
     fixed_chunk_size_bytes fastcdc_parameters parent_version_id immutable_metadata state finalized_version_id =
     (let target_node_id = (if placement_node_ids = [] then [] else hd placement_node_ids)
      in rbind (check_node_id target_node_id) (\<lambda>_.
         rbind (validate_replication_configuration replication_factor placement_node_ids target_node_id) (\<lambda>_.
         rbind (validate_strategy_parameters chunking_strategy fixed_chunk_size_bytes fastcdc_parameters) (\<lambda>_.
         rbind (check_optional_content_id parent_version_id) (\<lambda>_.
         rbind (validate_metadata immutable_metadata) (\<lambda>_.
         rbind (check_optional_content_id finalized_version_id) (\<lambda>_.
         rbind (validate_session_state state finalized_version_id) (\<lambda>_.
         if parent_version_id \<noteq> None \<and> finalized_version_id \<noteq> None \<and> parent_version_id = finalized_version_id
         then Inl Invalid_argument
         else Inr \<lparr>us_session_id = session_id, us_artifact_id = artifact_id, us_target_node_id = target_node_id,
                   us_replication_factor = replication_factor, us_placement_node_ids = placement_node_ids,
                   us_chunking_strategy = chunking_strategy, us_fixed_chunk_size_bytes = fixed_chunk_size_bytes,
                   us_fastcdc_parameters = fastcdc_parameters, us_parent_version_id = parent_version_id,
                   us_immutable_metadata = immutable_metadata, us_state = state,
                   us_finalized_version_id = finalized_version_id\<rparr>))))))))"

text \<open>The public constructors.\<close>

definition upload_session_single_fixed ::
  "string \<Rightarrow> string \<Rightarrow> string \<Rightarrow> chunking_strategy \<Rightarrow> u64 \<Rightarrow> string option \<Rightarrow> immutable_metadata \<Rightarrow>
   upload_session_state \<Rightarrow> string option \<Rightarrow> upload_session res" where
  "upload_session_single_fixed session_id artifact_id target_node_id chunking_strategy chunk_size_bytes
     parent_version_id immutable_metadata state finalized_version_id =
     rbind (upload_session_new session_id artifact_id 1 [target_node_id] chunking_strategy (Some chunk_size_bytes) None
              parent_version_id immutable_metadata state finalized_version_id) (\<lambda>session.
     if chunking_strategy \<noteq> FixedSize then Inl Invalid_argument else Inr session)"

definition upload_session_single_fastcdc ::
  "string \<Rightarrow> string \<Rightarrow> string \<Rightarrow> fastcdc_parameters \<Rightarrow> string option \<Rightarrow> immutable_metadata \<Rightarrow>
   upload_session_state \<Rightarrow> string option \<Rightarrow> upload_session res" where
  "upload_session_single_fastcdc session_id artifact_id target_node_id fastcdc_parameters
     parent_version_id immutable_metadata state finalized_version_id =
     upload_session_new session_id artifact_id 1 [target_node_id] FastCdc None (Some fastcdc_parameters)
       parent_version_id immutable_metadata state finalized_version_id"

definition upload_session_fixed ::
  "string \<Rightarrow> string \<Rightarrow> u8 \<Rightarrow> string list \<Rightarrow> chunking_strategy \<Rightarrow> u64 \<Rightarrow> string option \<Rightarrow> immutable_metadata \<Rightarrow>
   upload_session_state \<Rightarrow> string option \<Rightarrow> upload_session res" where
  "upload_session_fixed session_id artifact_id replication_factor placement_node_ids chunking_strategy
     chunk_size_bytes parent_version_id immutable_metadata state finalized_version_id =
     rbind (upload_session_new session_id artifact_id replication_factor placement_node_ids chunking_strategy
              (Some chunk_size_bytes) None parent_version_id immutable_metadata state finalized_version_id) (\<lambda>session.
     if chunking_strategy \<noteq> FixedSize then Inl Invalid_argument else Inr session)"

definition upload_session_fastcdc ::
  "string \<Rightarrow> string \<Rightarrow> u8 \<Rightarrow> string list \<Rightarrow> fastcdc_parameters \<Rightarrow> string option \<Rightarrow> immutable_metadata \<Rightarrow>
   upload_session_state \<Rightarrow> string option \<Rightarrow> upload_session res" where
  "upload_session_fastcdc session_id artifact_id replication_factor placement_node_ids fastcdc_parameters
     parent_version_id immutable_metadata state finalized_version_id =
     upload_session_new session_id artifact_id replication_factor placement_node_ids FastCdc None
       (Some fastcdc_parameters) parent_version_id immutable_metadata state finalized_version_id"

definition us_chunk_size_bytes :: "upload_session \<Rightarrow> u64 res" where
  "us_chunk_size_bytes session =
     (case us_fixed_chunk_size_bytes session of None \<Rightarrow> Inl Logic_error | Some n \<Rightarrow> Inr n)"

definition upload_session_identity_matches :: "upload_session \<Rightarrow> upload_session \<Rightarrow> bool" where
  "upload_session_identity_matches left right \<longleftrightarrow>
     us_session_id left = us_session_id right \<and> us_artifact_id left = us_artifact_id right \<and>
     us_target_node_id left = us_target_node_id right \<and>
     us_replication_factor left = us_replication_factor right \<and>
     us_placement_node_ids left = us_placement_node_ids right \<and>
     us_chunking_strategy left = us_chunking_strategy right \<and>
     us_fixed_chunk_size_bytes left = us_fixed_chunk_size_bytes right \<and>
     us_fastcdc_parameters left = us_fastcdc_parameters right \<and>
     us_parent_version_id left = us_parent_version_id right \<and>
     us_immutable_metadata left = us_immutable_metadata right"

subsection \<open>What the constructor accepts\<close>

lemma validate_replication_configuration_ok [res_simps]:
  "validate_replication_configuration rf ns t = Inr u \<longleftrightarrow>
   1 \<le> unat rf \<and> unat rf \<le> 8 \<and> unat rf \<le> length ns \<and> valid_placement ns \<and> hd ns = t"
proof -
  have nodes: "check_all (\<lambda>index.
      rbind (check_node_id (ns ! index)) (\<lambda>_.
      if 0 < index \<and> ns ! index \<le> ns ! (index - 1) then Inl Invalid_argument else Inr ())) [0..<length ns] = Inr u \<longleftrightarrow>
    (\<forall>n \<in> set ns. is_valid_node_id n) \<and> sorted_wrt (<) ns"
    for u
    unfolding check_all_ok rbind_eq_Inr check_node_id_ok if_Inl_eq_Inr sorted_wrt_adjacent all_set_conv_all_nth
    by auto
  have rf: "\<not> (rf < 1 \<or> 8 < rf) \<longleftrightarrow> 1 \<le> unat rf \<and> unat rf \<le> 8"
    by (auto simp: word_less_nat_alt)
  show ?thesis
    unfolding validate_replication_configuration_def if_Inl_eq_Inr rf nodes valid_placement_def by auto
qed

lemma validate_metadata_ok [res_simps]:
  "validate_metadata m = Inr u \<longleftrightarrow> (\<forall>kv \<in> set m. fst kv \<noteq> [])"
proof -
  have "(case kv of (key, value) \<Rightarrow> if key = [] then Inl Invalid_argument else Inr ()) = Inr () \<longleftrightarrow> fst kv \<noteq> []" for kv
    by (cases kv) auto
  then show ?thesis unfolding validate_metadata_def check_all_ok by blast
qed

lemma check_optional_content_id_ok [res_simps]:
  "check_optional_content_id i = Inr u \<longleftrightarrow> (\<forall>x. i = Some x \<longrightarrow> is_content_id x)"
  by (cases i) (simp_all add: check_optional_content_id_def check_content_id_ok)

lemma validate_session_state_ok [res_simps]:
  "validate_session_state st f = Inr u \<longleftrightarrow> (st = SessionCommitted \<longleftrightarrow> f \<noteq> None)"
  by (cases st) (auto simp: validate_session_state_def)

definition strategy_parameters_ok ::
  "chunking_strategy \<Rightarrow> u64 option \<Rightarrow> fastcdc_parameters option \<Rightarrow> bool" where
  "strategy_parameters_ok s f p \<longleftrightarrow>
     (case s of
        FixedSize \<Rightarrow> (\<exists>n. f = Some n \<and> n \<noteq> 0) \<and> p = None
      | FastCdc \<Rightarrow> f = None \<and> (\<exists>q. p = Some q \<and> validate_fastcdc_parameters q = Inr ()))"

lemma validate_strategy_parameters_ok [res_simps]:
  "validate_strategy_parameters s f p = Inr u \<longleftrightarrow> strategy_parameters_ok s f p"
  by (cases s; cases f; cases p) (auto simp: validate_strategy_parameters_def strategy_parameters_ok_def)

text \<open>The invariant of the class: what holds of every session a constructor returned.\<close>

definition valid_session :: "upload_session \<Rightarrow> bool" where
  "valid_session s \<longleftrightarrow>
     valid_placement (us_placement_node_ids s) \<and> us_target_node_id s = hd (us_placement_node_ids s) \<and>
     1 \<le> unat (us_replication_factor s) \<and> unat (us_replication_factor s) \<le> 8 \<and>
     unat (us_replication_factor s) \<le> length (us_placement_node_ids s) \<and>
     strategy_parameters_ok (us_chunking_strategy s) (us_fixed_chunk_size_bytes s) (us_fastcdc_parameters s) \<and>
     (\<forall>i. us_parent_version_id s = Some i \<longrightarrow> is_content_id i) \<and>
     (\<forall>i. us_finalized_version_id s = Some i \<longrightarrow> is_content_id i) \<and>
     (\<forall>kv \<in> set (us_immutable_metadata s). fst kv \<noteq> []) \<and>
     (us_state s = SessionCommitted \<longleftrightarrow> us_finalized_version_id s \<noteq> None) \<and>
     (us_parent_version_id s = None \<or> us_parent_version_id s \<noteq> us_finalized_version_id s)"

lemma valid_placement_hd: "valid_placement ns \<Longrightarrow> is_valid_node_id (hd ns)"
  by (simp add: valid_placement_def)

lemma upload_session_new_ok:
  "upload_session_new sid a rf ns cs f p par m st fin = Inr s \<longleftrightarrow>
   valid_session s \<and>
   s = \<lparr>us_session_id = sid, us_artifact_id = a, us_target_node_id = hd ns, us_replication_factor = rf,
        us_placement_node_ids = ns, us_chunking_strategy = cs, us_fixed_chunk_size_bytes = f,
        us_fastcdc_parameters = p, us_parent_version_id = par, us_immutable_metadata = m, us_state = st,
        us_finalized_version_id = fin\<rparr>"
proof (cases "ns = []")
  case True
  then show ?thesis
    by (auto simp: upload_session_new_def valid_session_def valid_placement_def check_node_id_def)
next
  case False
  then show ?thesis
    unfolding upload_session_new_def Let_def if_not_P [OF False] rbind_eq_Inr if_Inl_eq_Inr res_simps
    by (auto simp: valid_session_def valid_placement_hd)
qed

text \<open>The sessions the four public constructors return.\<close>

inductive built_session :: "upload_session \<Rightarrow> bool" where
  built_single_fixed: "upload_session_single_fixed sid a t cs n par m st fin = Inr s \<Longrightarrow> built_session s"
| built_single_fastcdc: "upload_session_single_fastcdc sid a t q par m st fin = Inr s \<Longrightarrow> built_session s"
| built_fixed_session: "upload_session_fixed sid a rf ns cs n par m st fin = Inr s \<Longrightarrow> built_session s"
| built_fastcdc_session: "upload_session_fastcdc sid a rf ns q par m st fin = Inr s \<Longrightarrow> built_session s"

text \<open>
  C29: The class invariant of upload sessions. Whatever constructor built it, a session has a sorted
  duplicate-free placement list of valid nodes whose first entry is the target, a replication factor
  between 1 and 8 that the list can satisfy, exactly the parameters of its chunking strategy, a
  finalized version exactly when it is committed, and never itself as parent; and every such session is
  built by a constructor.
\<close>

theorem session_constructors_exact: "built_session s \<longleftrightarrow> valid_session s"
proof
  assume "built_session s"
  then show "valid_session s"
    by cases
      (auto simp: upload_session_single_fixed_def upload_session_single_fastcdc_def upload_session_fixed_def
        upload_session_fastcdc_def upload_session_new_ok rbind_eq_Inr split: if_splits)
next
  assume valid: "valid_session s"
  have build: "upload_session_new (us_session_id s) (us_artifact_id s) (us_replication_factor s)
      (us_placement_node_ids s) (us_chunking_strategy s) (us_fixed_chunk_size_bytes s) (us_fastcdc_parameters s)
      (us_parent_version_id s) (us_immutable_metadata s) (us_state s) (us_finalized_version_id s) = Inr s"
    using valid unfolding upload_session_new_ok by (simp add: valid_session_def)
  show "built_session s"
  proof (cases "us_chunking_strategy s")
    case FixedSize
    then obtain n where n: "us_fixed_chunk_size_bytes s = Some n" "us_fastcdc_parameters s = None"
      using valid by (auto simp: valid_session_def strategy_parameters_ok_def)
    have "upload_session_fixed (us_session_id s) (us_artifact_id s) (us_replication_factor s)
        (us_placement_node_ids s) FixedSize n (us_parent_version_id s) (us_immutable_metadata s)
        (us_state s) (us_finalized_version_id s) = Inr s"
      using build FixedSize n by (simp add: upload_session_fixed_def)
    then show ?thesis by (rule built_fixed_session)
  next
    case FastCdc
    then obtain q where q: "us_fixed_chunk_size_bytes s = None" "us_fastcdc_parameters s = Some q"
      using valid by (auto simp: valid_session_def strategy_parameters_ok_def)
    show ?thesis
      by (rule built_fastcdc_session [where q = q])
        (use build FastCdc q in \<open>simp add: upload_session_fastcdc_def\<close>)
  qed
qed

text \<open>A session can place every chunk.\<close>

lemma valid_session_selects:
  assumes "sha_length_ok H" and "valid_session s" and "is_content_id c"
  shows "select_replica_nodes H c (us_placement_node_ids s) (unat (us_replication_factor s)) =
    Inr (take (unat (us_replication_factor s)) (ranking H c (us_placement_node_ids s)))"
  using assms by (simp add: select_replica_nodes_eq valid_session_def)

subsection \<open>Lifecycle policies\<close>

definition kMaxKeepLastN :: u32 where "kMaxKeepLastN = 1000"
definition kMaxAgeSeconds :: u64 where "kMaxAgeSeconds = 315360000"
definition kMaxPolicyNameBytes :: nat where "kMaxPolicyNameBytes = 128"
definition kExpectedRuleCount :: nat where "kExpectedRuleCount = 5"

definition kAllArtifactKinds :: "artifact_kind list" where
  "kAllArtifactKinds = [Generic, ModelCheckpoint, DatasetSnapshot, EmbeddingIndex, EvaluationOutput]"

definition kArtifactKindMetadataKey :: string where
  "kArtifactKindMetadataKey = ''aistore.artifact_kind''"

record lifecycle_rule =
  lr_artifact_kind :: artifact_kind
  lr_keep_last_n :: u32
  lr_max_age_seconds :: "u64 option"

text \<open>The rules are a \<open>std::map\<close> keyed by kind: an association list without duplicate keys.\<close>

record lifecycle_policy =
  lp_policy_id :: string
  lp_name :: string
  lp_rules :: "(artifact_kind \<times> lifecycle_rule) list"

definition resolve_artifact_kind :: "string option \<Rightarrow> artifact_kind res" where
  "resolve_artifact_kind metadata_value =
     (case metadata_value of
        None \<Rightarrow> Inr Generic
      | Some v \<Rightarrow>
          (case artifact_kind_from_string v of
             Inr k \<Rightarrow> Inr k
           | Inl e \<Rightarrow> if is_runtime_error e then Inl (Lifecycle_error InvalidArtifactKind) else Inl e))"

definition validate_lifecycle_policy :: "lifecycle_policy \<Rightarrow> unit res" where
  "validate_lifecycle_policy policy =
     (if lp_name policy = [] \<or> kMaxPolicyNameBytes < length (lp_name policy) then Inl (Lifecycle_error InvalidRequest)
      else if length (lp_rules policy) \<noteq> kExpectedRuleCount then Inl (Lifecycle_error InvalidRequest)
      else check_all (\<lambda>kind.
             case map_of (lp_rules policy) kind of
               None \<Rightarrow> Inl (Lifecycle_error InvalidRequest)
             | Some rule \<Rightarrow>
                 if lr_artifact_kind rule \<noteq> kind then Inl (Lifecycle_error InvalidRequest)
                 else if lr_keep_last_n rule > kMaxKeepLastN then Inl (Lifecycle_error InvalidRequest)
                 else if (case lr_max_age_seconds rule of Some a \<Rightarrow> a > kMaxAgeSeconds | None \<Rightarrow> False)
                 then Inl (Lifecycle_error InvalidRequest)
                 else Inr ()) kAllArtifactKinds)"

lemma all_kinds: "k \<in> set kAllArtifactKinds"
  by (cases k) (simp_all add: kAllArtifactKinds_def)

text \<open>A valid policy has one rule per kind, and the rule is for that kind.\<close>

lemma validate_lifecycle_policy_rules:
  assumes "validate_lifecycle_policy p = Inr ()"
  shows "\<exists>rule. map_of (lp_rules p) k = Some rule \<and> lr_artifact_kind rule = k"
  using assms all_kinds [of k]
  by (auto simp: validate_lifecycle_policy_def check_all_ok split: if_splits option.splits) blast+

end
