(* ===== verification/Database.thy ===== *)
theory Database
  imports Sessions
begin

section \<open>The metadata database\<close>

text \<open>
  The state of \<open>PostgresMetadataRepository\<close>: the tables of the migrations as lists of rows, and the SQL
  statements of \<open>postgres_metadata_repository.cpp\<close> as functions on them. A transaction is a function
  from a database to a result; an exception before \<open>commit\<close> leaves the database as it was, so the error
  side carries no state. The service runs every request under one mutex over one connection, so
  transactions are atomic and the row and advisory locks have no further effect.

  A \<open>BIGINT\<close> column is an \<open>int\<close>. A text column whose CHECK constraint admits the printed names of an
  enumeration holds the value of the enumeration; the codecs of \<open>Enums\<close> round trip. Foreign keys,
  primary and unique keys are enforced by the insert and delete statements; CHECK constraints are
  enforced where the C++ code has not already validated the value. \<open>ORDER BY\<close> on a text column is
  bytewise (the C collation). The columns no statement reads back (\<open>updated_at\<close>, \<open>completed_at\<close>, most
  \<open>created_at\<close>) are left out; time stamps that are read are microseconds since the epoch and come from
  an argument \<open>now\<close>.
\<close>

subsection \<open>Rows\<close>

record object_row =
  o_object_id :: string
  o_total_size_bytes :: int

record chunk_row =
  c_chunk_id :: string
  c_size_bytes :: int

record layout_row =
  l_layout_id :: string
  l_object_id :: string
  l_descriptor_version :: int
  l_chunking_strategy :: chunking_strategy
  l_fastcdc_min :: "int option"
  l_fastcdc_avg :: "int option"
  l_fastcdc_max :: "int option"
  l_canonical_descriptor :: "byte list"
  l_total_size_bytes :: int
  l_chunk_count :: int

record layout_chunk_row =
  lc_layout_id :: string
  lc_chunk_index :: int
  lc_chunk_id :: string
  lc_byte_offset :: int
  lc_chunk_size_bytes :: int

record location_row =
  sl_chunk_id :: string
  sl_node_id :: string
  sl_storage_path :: string
  sl_state :: storage_location_state

record node_row =
  n_node_id :: string
  n_address :: string
  n_port :: int
  n_state :: storage_node_state

record version_row =
  v_version_id :: string
  v_artifact_id :: string
  v_root_object_id :: string
  v_parent_version_id :: "string option"
  v_descriptor_version :: int
  v_canonical_descriptor :: "byte list"
  v_state :: version_state
  v_created_at :: int

text \<open>Key-value rows of an owner: version and session metadata, manifest entries, run tags.\<close>

record text_row =
  t_owner :: string
  t_key :: string
  t_value :: string

record tag_row =
  tg_artifact_id :: string
  tg_tag_name :: string
  tg_version_id :: string

record manifest_row =
  m_manifest_id :: string
  m_descriptor_version :: int
  m_canonical_descriptor :: "byte list"
  m_entry_count :: int

record run_row =
  ru_run_id :: string
  ru_manifest_id :: string
  ru_name :: string
  ru_source_commit :: "string option"
  ru_started_at :: int
  ru_completed_at :: "int option"

record session_row =
  s_session_id :: string
  s_artifact_id :: string
  s_target_node_id :: string
  s_replication_factor :: int
  s_chunking_strategy :: chunking_strategy
  s_chunk_size_bytes :: "int option"
  s_fastcdc_min :: "int option"
  s_fastcdc_avg :: "int option"
  s_fastcdc_max :: "int option"
  s_parent_version_id :: "string option"
  s_state :: upload_session_state
  s_finalized_version_id :: "string option"

text \<open>Ranked nodes of an owner: the placement snapshots of sessions and replication runs.\<close>

record rank_row =
  r_owner :: string
  r_node_rank :: int
  r_node_id :: string

record finalization_row =
  f_session_id :: string
  f_layout_id :: "string option"

record gc_run_row =
  g_run_id :: string
  g_target_node_id :: string
  g_mode :: gc_run_mode
  g_state :: gc_run_state
  g_physical_chunks_scanned :: int
  g_physical_bytes_scanned :: int
  g_collectible_chunks :: int
  g_collectible_bytes :: int
  g_physically_deleted_chunks :: int
  g_physically_deleted_bytes :: int
  g_storage_locations_swept :: int
  g_chunk_rows_swept :: int
  g_object_layouts_swept :: int
  g_objects_swept :: int

record replication_run_row =
  rr_run_id :: string
  rr_version_id :: string
  rr_layout_id :: string
  rr_replication_factor :: int
  rr_state :: replication_run_state
  rr_chunks_scanned :: int
  rr_chunks_under_replicated :: int
  rr_replicas_verified :: int
  rr_replicas_written :: int
  rr_bytes_copied :: int
  rr_source_failovers :: int

record policy_row =
  p_policy_id :: string
  p_name :: string

record rule_row =
  pr_policy_id :: string
  pr_artifact_kind :: artifact_kind
  pr_keep_last_n :: int
  pr_max_age_seconds :: "int option"

record pin_row =
  pin_version_id :: string
  pin_reason :: string

record lifecycle_run_row =
  lrn_run_id :: string
  lrn_policy_id :: string
  lrn_mode :: lifecycle_run_mode
  lrn_evaluated_at_ms :: int
  lrn_versions_scanned :: int
  lrn_versions_protected :: int
  lrn_versions_retained_by_policy :: int
  lrn_versions_candidates :: int
  lrn_versions_retired :: int
  lrn_logical_bytes_candidates :: int
  lrn_logical_bytes_retired :: int

record decision_row =
  d_run_id :: string
  d_version_id :: string
  d_artifact_id :: string
  d_artifact_kind :: artifact_kind
  d_retire :: bool
  d_reason :: lifecycle_decision_reason
  d_logical_size_bytes :: int

record retirement_row =
  ret_version_id :: string
  ret_lifecycle_run_id :: string
  ret_artifact_kind :: artifact_kind
  ret_reason :: lifecycle_decision_reason

subsection \<open>Tables\<close>

record database =
  artifacts :: "artifact list"
  objects :: "object_row list"
  chunks :: "chunk_row list"
  object_layouts :: "layout_row list"
  object_layout_chunks :: "layout_chunk_row list"
  storage_locations :: "location_row list"
  storage_nodes :: "node_row list"
  artifact_versions :: "version_row list"
  artifact_version_metadata :: "text_row list"
  tags :: "tag_row list"
  manifests :: "manifest_row list"
  manifest_entries :: "text_row list"
  runs :: "run_row list"
  run_tag_rows :: "text_row list"
  upload_sessions :: "session_row list"
  upload_session_metadata :: "text_row list"
  upload_session_nodes :: "rank_row list"
  upload_session_finalizations :: "finalization_row list"
  gc_runs :: "gc_run_row list"
  replication_runs :: "replication_run_row list"
  replication_run_nodes :: "rank_row list"
  lifecycle_policies :: "policy_row list"
  lifecycle_policy_rules :: "rule_row list"
  artifact_version_pins :: "pin_row list"
  lifecycle_runs :: "lifecycle_run_row list"
  lifecycle_run_decisions :: "decision_row list"
  artifact_version_retirements :: "retirement_row list"

definition empty_database :: database where
  "empty_database =
     \<lparr>artifacts = [], objects = [], chunks = [], object_layouts = [], object_layout_chunks = [],
      storage_locations = [], storage_nodes = [], artifact_versions = [], artifact_version_metadata = [],
      tags = [], manifests = [], manifest_entries = [], runs = [], run_tag_rows = [], upload_sessions = [],
      upload_session_metadata = [], upload_session_nodes = [], upload_session_finalizations = [],
      gc_runs = [], replication_runs = [], replication_run_nodes = [], lifecycle_policies = [],
      lifecycle_policy_rules = [], artifact_version_pins = [], lifecycle_runs = [],
      lifecycle_run_decisions = [], artifact_version_retirements = []\<rparr>"

subsection \<open>Query results\<close>

text \<open>\<open>query01\<close>: at most one row; \<open>query_value\<close>: exactly one.\<close>

definition query01 :: "'r list \<Rightarrow> 'r option res" where
  "query01 rows = (case rows of [] \<Rightarrow> Inr None | [r] \<Rightarrow> Inr (Some r) | _ \<Rightarrow> Inl Unexpected_rows)"

definition query_value :: "'r list \<Rightarrow> 'r res" where
  "query_value rows = (case rows of [r] \<Rightarrow> Inr r | _ \<Rightarrow> Inl Unexpected_rows)"

lemma query01_None [res_simps]: "query01 rows = Inr None \<longleftrightarrow> rows = []"
  by (simp add: query01_def split: list.splits)

lemma query01_Some [res_simps]: "query01 rows = Inr (Some r) \<longleftrightarrow> rows = [r]"
  by (simp add: query01_def split: list.splits)

text \<open>The common shapes of a step over a query result, for taking a successful run apart.\<close>

lemma option_case_Inr: "(case x of None \<Rightarrow> Inl e | Some r \<Rightarrow> f r) = Inr y \<longleftrightarrow> (\<exists>r. x = Some r \<and> f r = Inr y)"
  by (cases x) auto

lemma pair_case_Inr: "(case p of (a, b) \<Rightarrow> f a b) = Inr y \<longleftrightarrow> (\<exists>a b. p = (a, b) \<and> f a b = Inr y)"
  by (cases p) auto

lemma Inr_eq_Inr: "(Inr x :: 'a res) = Inr y \<longleftrightarrow> x = y"
  by simp

lemmas run_simps = option_case_Inr pair_case_Inr rbind_eq_Inr if_Inl_eq_Inr Inr_eq_Inr

lemma query_value_Inr [res_simps]: "query_value rows = Inr r \<longleftrightarrow> rows = [r]"
  by (simp add: query_value_def split: list.splits)

subsection \<open>Conversions\<close>

definition to_postgres_bigint :: "u64 \<Rightarrow> int res" where
  "to_postgres_bigint v = (if uint v > 2 ^ 63 - 1 then Inl Overflow_error else Inr (uint v))"

definition size_to_postgres_bigint :: "nat \<Rightarrow> int res" where
  "size_to_postgres_bigint n = (if int n > 2 ^ 63 - 1 then Inl Overflow_error else Inr (int n))"

definition optional_bigint :: "u64 option \<Rightarrow> int option res" where
  "optional_bigint v =
     (case v of None \<Rightarrow> Inr None | Some x \<Rightarrow> rbind (to_postgres_bigint x) (\<lambda>y. Inr (Some y)))"

text \<open>\<open>static_cast<std::uint64_t>\<close> of a \<open>long long\<close>, and the check before it.\<close>

definition require_non_negative :: "int \<Rightarrow> u64 res" where
  "require_non_negative v = (if v < 0 then Inl Runtime_error else Inr (word_of_int v))"

lemma to_postgres_bigint_ok [res_simps]:
  "to_postgres_bigint v = Inr i \<longleftrightarrow> unat v < 2 ^ 63 \<and> i = uint v"
proof -
  have "int (unat v) < int (2 ^ 63) \<longleftrightarrow> unat v < 2 ^ 63" by (rule of_nat_less_iff)
  then have "unat v < 2 ^ 63 \<longleftrightarrow> uint v < 2 ^ 63" by (simp only: uint_nat of_nat_power of_nat_numeral)
  then show ?thesis by (auto simp: to_postgres_bigint_def)
qed

lemma size_to_postgres_bigint_ok [res_simps]:
  "size_to_postgres_bigint n = Inr i \<longleftrightarrow> n < 2 ^ 63 \<and> i = int n"
  by (auto simp: size_to_postgres_bigint_def)

lemma require_non_negative_ok [res_simps]:
  "require_non_negative i = Inr v \<longleftrightarrow> 0 \<le> i \<and> v = word_of_int i"
  by (auto simp: require_non_negative_def)

lemma bigint_round_trip:
  "to_postgres_bigint v = Inr i \<Longrightarrow> require_non_negative i = Inr v"
  by (simp add: to_postgres_bigint_ok require_non_negative_ok)

lemma optional_bigint_ok [res_simps]:
  "optional_bigint v = Inr i \<longleftrightarrow>
   (case v of None \<Rightarrow> i = None | Some x \<Rightarrow> unat x < 2 ^ 63 \<and> i = Some (uint x))"
  by (cases v) (auto simp: optional_bigint_def rbind_eq_Inr to_postgres_bigint_ok)

definition timestamp_to_unix_milliseconds :: "timestamp \<Rightarrow> int" where
  "timestamp_to_unix_milliseconds t = t"

definition timestamp_from_unix_milliseconds :: "int \<Rightarrow> timestamp" where
  "timestamp_from_unix_milliseconds ms = ms"

subsection \<open>Statements shared by the operations\<close>

definition has_version :: "database \<Rightarrow> string \<Rightarrow> bool" where
  "has_version db version_id \<longleftrightarrow> (\<exists>v \<in> set (artifact_versions db). v_version_id v = version_id)"

definition has_artifact_version :: "database \<Rightarrow> string \<Rightarrow> string \<Rightarrow> bool" where
  "has_artifact_version db artifact_id version_id \<longleftrightarrow>
     (\<exists>v \<in> set (artifact_versions db). v_artifact_id v = artifact_id \<and> v_version_id v = version_id)"

definition has_artifact :: "database \<Rightarrow> string \<Rightarrow> bool" where
  "has_artifact db artifact_id \<longleftrightarrow> (\<exists>a \<in> set (artifacts db). art_artifact_id a = artifact_id)"

definition has_object :: "database \<Rightarrow> string \<Rightarrow> bool" where
  "has_object db object_id \<longleftrightarrow> (\<exists>ob \<in> set (objects db). o_object_id ob = object_id)"

definition has_chunk :: "database \<Rightarrow> string \<Rightarrow> bool" where
  "has_chunk db chunk_id \<longleftrightarrow> (\<exists>c \<in> set (chunks db). c_chunk_id c = chunk_id)"

definition has_layout :: "database \<Rightarrow> string \<Rightarrow> bool" where
  "has_layout db layout_id \<longleftrightarrow> (\<exists>l \<in> set (object_layouts db). l_layout_id l = layout_id)"

definition is_version_retired :: "database \<Rightarrow> string \<Rightarrow> bool" where
  "is_version_retired db version_id \<longleftrightarrow>
     (\<exists>r \<in> set (artifact_version_retirements db). ret_version_id r = version_id)"

text \<open>\<open>kLiveLayoutPredicate\<close> over the layout row \<open>ol\<close>.\<close>

definition live_layout :: "database \<Rightarrow> layout_row \<Rightarrow> bool" where
  "live_layout db ol \<longleftrightarrow>
     (\<exists>av \<in> set (artifact_versions db).
        v_root_object_id av = l_object_id ol \<and> \<not> is_version_retired db (v_version_id av)) \<or>
     (\<exists>usf \<in> set (upload_session_finalizations db). \<exists>us \<in> set (upload_sessions db).
        s_session_id us = f_session_id usf \<and> f_layout_id usf = Some (l_layout_id ol) \<and>
        (\<exists>v. s_finalized_version_id us = Some v \<and> \<not> is_version_retired db v))"

lemma live_layout_code [code]:
  "live_layout db ol \<longleftrightarrow>
     (\<exists>av \<in> set (artifact_versions db).
        v_root_object_id av = l_object_id ol \<and> \<not> is_version_retired db (v_version_id av)) \<or>
     (\<exists>usf \<in> set (upload_session_finalizations db). \<exists>us \<in> set (upload_sessions db).
        s_session_id us = f_session_id usf \<and> f_layout_id usf = Some (l_layout_id ol) \<and>
        (case s_finalized_version_id us of Some v \<Rightarrow> \<not> is_version_retired db v | None \<Rightarrow> False))"
proof -
  have "(\<exists>v. x = Some v \<and> P v) \<longleftrightarrow> (case x of Some v \<Rightarrow> P v | None \<Rightarrow> False)" for x :: "string option" and P
    by (cases x) simp_all
  then show ?thesis unfolding live_layout_def by simp
qed

text \<open>Whether a live layout uses the chunk: the subquery of the classification and of the sweep.\<close>

definition chunk_in_live_layout :: "database \<Rightarrow> string \<Rightarrow> bool" where
  "chunk_in_live_layout db chunk_id \<longleftrightarrow>
     (\<exists>olc \<in> set (object_layout_chunks db). \<exists>ol \<in> set (object_layouts db).
        l_layout_id ol = lc_layout_id olc \<and> lc_chunk_id olc = chunk_id \<and> live_layout db ol)"

text \<open>\<open>kMultiNodeRestorableChunkPredicate\<close>.\<close>

definition multi_node_restorable_chunk :: "database \<Rightarrow> string \<Rightarrow> bool" where
  "multi_node_restorable_chunk db chunk_id \<longleftrightarrow>
     (\<exists>sl \<in> set (storage_locations db). \<exists>sn \<in> set (storage_nodes db).
        n_node_id sn = sl_node_id sl \<and> sl_chunk_id sl = chunk_id \<and> sl_state sl = Available \<and>
        (n_state sn = Active \<or> n_state sn = Draining))"

definition gc_in_progress :: "database \<Rightarrow> bool" where
  "gc_in_progress db \<longleftrightarrow> (\<exists>g \<in> set (gc_runs db). g_state g = GcOpen)"

definition replication_in_progress :: "database \<Rightarrow> bool" where
  "replication_in_progress db \<longleftrightarrow> (\<exists>r \<in> set (replication_runs db). rr_state r = ReplOpen)"

definition open_upload_sessions_present :: "database \<Rightarrow> bool" where
  "open_upload_sessions_present db \<longleftrightarrow> (\<exists>s \<in> set (upload_sessions db). s_state s = SessionOpen)"

definition ensure_no_open_upload_sessions :: "database \<Rightarrow> unit res" where
  "ensure_no_open_upload_sessions db =
     (if open_upload_sessions_present db then Inl (Gc_error OpenUploadSessionsPresent) else Inr ())"

definition validate_source_node_id :: "string \<Rightarrow> unit res" where
  "validate_source_node_id node_id = check_node_id node_id"

text \<open>The map of an owner's key-value rows, in key order (\<open>ORDER BY key\<close> into a \<open>std::map\<close>).\<close>

definition owner_map :: "text_row list \<Rightarrow> string \<Rightarrow> (string \<times> string) list" where
  "owner_map rows i =
     sort_key fst (map (\<lambda>t. (t_key t, t_value t)) (filter (\<lambda>t. t_owner t = i) rows))"

definition insert_text_row :: "string \<Rightarrow> string \<times> string \<Rightarrow> text_row list \<Rightarrow> text_row list res" where
  "insert_text_row i kv rows =
     (if \<exists>t \<in> set rows. t_owner t = i \<and> t_key t = fst kv then Inl Unique_violation
      else if fst kv = [] then Inl Check_violation
      else Inr (rows @ [\<lparr>t_owner = i, t_key = fst kv, t_value = snd kv\<rparr>]))"

text \<open>The node identifiers of an owner in rank order: \<open>load_upload_session_placement_nodes\<close> and
  \<open>load_replication_run_placement_nodes\<close>.\<close>

definition ranked_nodes :: "rank_row list \<Rightarrow> string \<Rightarrow> string list" where
  "ranked_nodes rows i = map r_node_id (sort_key r_node_rank (filter (\<lambda>r. r_owner r = i) rows))"

definition load_upload_session_placement_nodes :: "database \<Rightarrow> string \<Rightarrow> string list" where
  "load_upload_session_placement_nodes db session_id = ranked_nodes (upload_session_nodes db) session_id"

definition load_replication_run_placement_nodes :: "database \<Rightarrow> string \<Rightarrow> string list" where
  "load_replication_run_placement_nodes db run_id = ranked_nodes (replication_run_nodes db) run_id"

definition insert_rank_row :: "string \<Rightarrow> nat \<times> string \<Rightarrow> rank_row list \<Rightarrow> rank_row list res" where
  "insert_rank_row i rn rows =
     (if \<exists>r \<in> set rows. r_owner r = i \<and> (r_node_rank r = int (fst rn) \<or> r_node_id r = snd rn)
      then Inl Unique_violation
      else Inr (rows @ [\<lparr>r_owner = i, r_node_rank = int (fst rn), r_node_id = snd rn\<rparr>]))"

lemma fold_res_appends:
  assumes "\<And>x s t. f x s = Inr t \<Longrightarrow> t = s @ [g x]"
  shows "fold_res f xs rows = Inr rows' \<Longrightarrow> rows' = rows @ map g xs"
proof (induction xs arbitrary: rows)
  case (Cons x xs)
  then obtain mid where "f x rows = Inr mid" "fold_res f xs mid = Inr rows'" by (auto simp: rbind_eq_Inr)
  with Cons.IH [of mid] assms [of x rows mid] show ?case by simp
qed simp

lemma insert_rank_rows_ok:
  "fold_res (insert_rank_row i) rns rows = Inr rows' \<Longrightarrow>
   rows' = rows @ map (\<lambda>rn. \<lparr>r_owner = i, r_node_rank = int (fst rn), r_node_id = snd rn\<rparr>) rns"
  by (rule fold_res_appends) (auto simp: insert_rank_row_def split: if_splits)

lemma insert_text_rows_ok:
  "fold_res (insert_text_row i) kvs rows = Inr rows' \<Longrightarrow>
   rows' = rows @ map (\<lambda>kv. \<lparr>t_owner = i, t_key = fst kv, t_value = snd kv\<rparr>) kvs"
  by (rule fold_res_appends) (auto simp: insert_text_row_def split: if_splits)

end
