(* ===== verification/Repo_Catalog.thy ===== *)
theory Repo_Catalog
  imports Database
begin

section \<open>Repository: the catalog\<close>

text \<open>
  The operations of \<open>PostgresMetadataRepository\<close> on artifacts, objects, layouts, versions, tags,
  manifests, runs, storage nodes, storage locations and chunks, in the order of
  \<open>postgres_metadata_repository.cpp\<close>, with the private helpers they use. An operation that writes maps
  a database to a result holding the new database; an operation that only reads returns its value.

  The lemmas show what a successful registration stores (a chunk size, an object size, a layout whose
  rows pass the verification) and that a stored layout loads back as the registered descriptor.
\<close>

subsection \<open>Maps built by insertion\<close>

text \<open>\<open>std::map::emplace\<close>: the map, the value now stored under the key, and whether it was inserted.\<close>

definition emplace :: "string \<Rightarrow> 'v \<Rightarrow> (string \<times> 'v) list \<Rightarrow> (string \<times> 'v) list \<times> 'v \<times> bool" where
  "emplace k v m =
     (case map_of m k of
        Some w \<Rightarrow> (m, w, False)
      | None \<Rightarrow> (insort_key fst (k, v) m, v, True))"

subsection \<open>Artifacts\<close>

definition create_artifact :: "database \<Rightarrow> artifact \<Rightarrow> database res" where
  "create_artifact db artifact =
     (if has_artifact db (art_artifact_id artifact) then Inl Unique_violation
      else if \<exists>a \<in> set (artifacts db). art_project a = art_project artifact \<and> art_name a = art_name artifact
      then Inl Unique_violation
      else Inr (db\<lparr>artifacts := artifacts db @ [artifact]\<rparr>))"

definition get_artifact :: "database \<Rightarrow> string \<Rightarrow> artifact option res" where
  "get_artifact db artifact_id =
     rbind (query01 (filter (\<lambda>a. art_artifact_id a = artifact_id) (artifacts db))) (\<lambda>stored.
     case stored of
       None \<Rightarrow> Inr None
     | Some a \<Rightarrow>
         rbind (uuid_v7 (art_artifact_id a)) (\<lambda>i.
         rbind (artifact_new i (art_name a) (art_project a)) (\<lambda>artifact. Inr (Some artifact))))"

subsection \<open>Objects\<close>

definition register_object_in_transaction :: "database \<Rightarrow> object \<Rightarrow> database res" where
  "register_object_in_transaction db object =
     rbind (to_postgres_bigint (obj_total_size object)) (\<lambda>total_size.
     let db = (if has_object db (obj_object_id object) then db
               else db\<lparr>objects := objects db @
                      [\<lparr>o_object_id = obj_object_id object, o_total_size_bytes = total_size\<rparr>]\<rparr>)
     in rbind (query_value (map o_total_size_bytes
                (filter (\<lambda>ob. o_object_id ob = obj_object_id object) (objects db)))) (\<lambda>stored_total_size.
        if stored_total_size \<noteq> total_size then Inl Runtime_error else Inr db))"

definition register_object :: "database \<Rightarrow> object \<Rightarrow> database res" where
  "register_object db object = register_object_in_transaction db object"

definition get_object :: "database \<Rightarrow> string \<Rightarrow> object option res" where
  "get_object db object_id =
     rbind (check_content_id object_id) (\<lambda>_.
     rbind (query01 (filter (\<lambda>ob. o_object_id ob = object_id) (objects db))) (\<lambda>stored.
     case stored of
       None \<Rightarrow> Inr None
     | Some row \<Rightarrow>
         if o_total_size_bytes row < 0 then Inl Runtime_error
         else rbind (object_new (o_object_id row) (word_of_int (o_total_size_bytes row))) (\<lambda>object.
              Inr (Some object))))"

subsection \<open>Object layouts\<close>

definition stored_fastcdc_columns_match ::
  "int option \<Rightarrow> int option \<Rightarrow> int option \<Rightarrow> object_layout_descriptor \<Rightarrow> bool" where
  "stored_fastcdc_columns_match stored_min stored_avg stored_max descriptor =
     (if ld_chunking_strategy descriptor = FixedSize
      then stored_min = None \<and> stored_avg = None \<and> stored_max = None
      else (case (ld_fastcdc_parameters descriptor, stored_min, stored_avg, stored_max) of
              (Some params, Some mn, Some av, Some mx) \<Rightarrow>
                mn = uint (min_chunk_size_bytes params) \<and> av = uint (avg_chunk_size_bytes params) \<and>
                mx = uint (max_chunk_size_bytes params)
            | _ \<Rightarrow> False))"

text \<open>The rows of a layout in index order.\<close>

definition layout_rows :: "database \<Rightarrow> string \<Rightarrow> layout_chunk_row list" where
  "layout_rows db layout_id =
     sort_key lc_chunk_index (filter (\<lambda>r. lc_layout_id r = layout_id) (object_layout_chunks db))"

definition verify_layout_row :: "chunk_ref list \<Rightarrow> layout_chunk_row \<Rightarrow> nat \<Rightarrow> nat res" where
  "verify_layout_row layout_chunks row expected_index =
     (if expected_index \<ge> length layout_chunks then Inl Runtime_error
      else let expected = layout_chunks ! expected_index
           in rbind (size_to_postgres_bigint expected_index) (\<lambda>i.
              if lc_chunk_index row \<noteq> i \<or> lc_chunk_id row \<noteq> cr_chunk_id expected then Inl Runtime_error
              else rbind (to_postgres_bigint (cr_offset expected)) (\<lambda>off.
                   if lc_byte_offset row \<noteq> off then Inl Runtime_error
                   else rbind (to_postgres_bigint (cr_size expected)) (\<lambda>size.
                        if lc_chunk_size_bytes row \<noteq> size then Inl Runtime_error
                        else Inr (expected_index + 1)))))"

definition verify_registered_object_layout :: "database \<Rightarrow> object_layout_descriptor \<Rightarrow> unit res" where
  "verify_registered_object_layout db descriptor =
     (let layout = ld_layout descriptor
      in rbind (query01 (filter (\<lambda>l. l_layout_id l = ld_layout_id descriptor) (object_layouts db))) (\<lambda>stored.
      case stored of
        None \<Rightarrow> Inl Runtime_error
      | Some row \<Rightarrow>
          if l_object_id row \<noteq> obj_object_id (ld_object descriptor) \<or> l_descriptor_version row \<noteq> 1 \<or>
             l_chunking_strategy row \<noteq> ld_chunking_strategy descriptor \<or>
             \<not> stored_fastcdc_columns_match (l_fastcdc_min row) (l_fastcdc_avg row) (l_fastcdc_max row) descriptor \<or>
             bytes_to_hex (l_canonical_descriptor row) \<noteq> bytes_to_hex (ld_canonical_bytes descriptor)
          then Inl Runtime_error
          else rbind (to_postgres_bigint (ol_total_size layout)) (\<lambda>total_size.
               if l_total_size_bytes row \<noteq> total_size then Inl Runtime_error
               else rbind (size_to_postgres_bigint (length (ol_chunks layout))) (\<lambda>chunk_count.
                    if l_chunk_count row \<noteq> chunk_count then Inl Runtime_error
                    else rbind (fold_res (verify_layout_row (ol_chunks layout))
                                  (layout_rows db (ld_layout_id descriptor)) 0) (\<lambda>expected_index.
                         if expected_index \<noteq> length (ol_chunks layout) then Inl Runtime_error else Inr ())))))"

text \<open>\<open>INSERT INTO chunks ... ON CONFLICT DO NOTHING\<close> and the size read back.\<close>

definition insert_chunk :: "database \<Rightarrow> string \<Rightarrow> int \<Rightarrow> database res" where
  "insert_chunk db chunk_id chunk_size =
     (if has_chunk db chunk_id then Inr db
      else if chunk_size \<le> 0 then Inl Check_violation
      else Inr (db\<lparr>chunks := chunks db @ [\<lparr>c_chunk_id = chunk_id, c_size_bytes = chunk_size\<rparr>]\<rparr>))"

definition stored_chunk_sizes :: "database \<Rightarrow> string \<Rightarrow> int list" where
  "stored_chunk_sizes db chunk_id = map c_size_bytes (filter (\<lambda>c. c_chunk_id c = chunk_id) (chunks db))"

definition ensure_chunk :: "string \<Rightarrow> u64 \<Rightarrow> database \<Rightarrow> database res" where
  "ensure_chunk chunk_id size_bytes db =
     rbind (to_postgres_bigint size_bytes) (\<lambda>chunk_size.
     rbind (insert_chunk db chunk_id chunk_size) (\<lambda>db.
     rbind (query_value (stored_chunk_sizes db chunk_id)) (\<lambda>stored_chunk_size.
     if stored_chunk_size \<noteq> chunk_size then Inl Runtime_error else Inr db)))"

definition insert_layout_chunk :: "string \<Rightarrow> nat \<times> chunk_ref \<Rightarrow> database \<Rightarrow> database res" where
  "insert_layout_chunk layout_id ic db =
     rbind (size_to_postgres_bigint (fst ic)) (\<lambda>index.
     rbind (to_postgres_bigint (cr_offset (snd ic))) (\<lambda>off.
     rbind (to_postgres_bigint (cr_size (snd ic))) (\<lambda>size.
     if \<exists>r \<in> set (object_layout_chunks db). lc_layout_id r = layout_id \<and>
          (lc_chunk_index r = index \<or> lc_byte_offset r = off)
     then Inl Unique_violation
     else if \<not> has_layout db layout_id then Inl Foreign_key_violation
     else if \<not> (\<exists>c \<in> set (chunks db). c_chunk_id c = cr_chunk_id (snd ic) \<and> c_size_bytes c = size)
     then Inl Foreign_key_violation
     else Inr (db\<lparr>object_layout_chunks := object_layout_chunks db @
            [\<lparr>lc_layout_id = layout_id, lc_chunk_index = index, lc_chunk_id = cr_chunk_id (snd ic),
              lc_byte_offset = off, lc_chunk_size_bytes = size\<rparr>]\<rparr>))))"

definition insert_object_layout :: "database \<Rightarrow> layout_row \<Rightarrow> (database \<times> nat) res" where
  "insert_object_layout db row =
     (if has_layout db (l_layout_id row) then Inr (db, 0)
      else if \<not> (\<exists>ob \<in> set (objects db). o_object_id ob = l_object_id row \<and>
                  o_total_size_bytes ob = l_total_size_bytes row)
      then Inl Foreign_key_violation
      else if l_chunk_count row = 0 \<and> l_total_size_bytes row \<noteq> 0 then Inl Check_violation
      else Inr (db\<lparr>object_layouts := object_layouts db @ [row]\<rparr>, 1))"

text \<open>The parameters of the layout insert; each conversion may overflow.\<close>

definition layout_row_of :: "object_layout_descriptor \<Rightarrow> layout_row res" where
  "layout_row_of descriptor =
     rbind (to_postgres_bigint (ol_total_size (ld_layout descriptor))) (\<lambda>total_size.
     rbind (size_to_postgres_bigint (length (ol_chunks (ld_layout descriptor)))) (\<lambda>chunk_count.
     rbind (optional_bigint (map_option min_chunk_size_bytes (ld_fastcdc_parameters descriptor))) (\<lambda>fastcdc_min.
     rbind (optional_bigint (map_option avg_chunk_size_bytes (ld_fastcdc_parameters descriptor))) (\<lambda>fastcdc_avg.
     rbind (optional_bigint (map_option max_chunk_size_bytes (ld_fastcdc_parameters descriptor))) (\<lambda>fastcdc_max.
     Inr \<lparr>l_layout_id = ld_layout_id descriptor, l_object_id = obj_object_id (ld_object descriptor),
          l_descriptor_version = 1, l_chunking_strategy = ld_chunking_strategy descriptor,
          l_fastcdc_min = fastcdc_min, l_fastcdc_avg = fastcdc_avg, l_fastcdc_max = fastcdc_max,
          l_canonical_descriptor = ld_canonical_bytes descriptor, l_total_size_bytes = total_size,
          l_chunk_count = chunk_count\<rparr>)))))"

definition register_object_layout_in_transaction ::
  "database \<Rightarrow> object_layout_descriptor \<Rightarrow> database res" where
  "register_object_layout_in_transaction db descriptor =
     (let object = ld_object descriptor; layout = ld_layout descriptor
      in rbind (query01 (map o_total_size_bytes
           (filter (\<lambda>ob. o_object_id ob = obj_object_id object) (objects db)))) (\<lambda>stored_object_size.
      case stored_object_size of
        None \<Rightarrow> Inl Runtime_error
      | Some stored_size \<Rightarrow>
          rbind (to_postgres_bigint (obj_total_size object)) (\<lambda>object_size.
          if stored_size \<noteq> object_size then Inl Runtime_error
          else
            rbind (fold_res (\<lambda>chunk. ensure_chunk (cr_chunk_id chunk) (cr_size chunk)) (ol_chunks layout) db) (\<lambda>db.
            rbind (layout_row_of descriptor) (\<lambda>row.
            rbind (insert_object_layout db row) (\<lambda>(db, affected_rows).
            rbind (if affected_rows = 1
                   then fold_res (insert_layout_chunk (ld_layout_id descriptor))
                          (zip [0..<length (ol_chunks layout)] (ol_chunks layout)) db
                   else Inr db) (\<lambda>db.
            rbind (verify_registered_object_layout db descriptor) (\<lambda>_. Inr db))))))))"

definition register_object_layout :: "database \<Rightarrow> object_layout_descriptor \<Rightarrow> database res" where
  "register_object_layout db descriptor = register_object_layout_in_transaction db descriptor"

definition load_layout_row :: "layout_chunk_row \<Rightarrow> nat \<times> chunk_ref list \<Rightarrow> (nat \<times> chunk_ref list) res" where
  "load_layout_row row acc =
     (case acc of (expected_index, refs) \<Rightarrow>
        rbind (size_to_postgres_bigint expected_index) (\<lambda>i.
        if lc_chunk_index row \<noteq> i then Inl Runtime_error
        else if lc_byte_offset row < 0 \<or> lc_chunk_size_bytes row \<le> 0 then Inl Runtime_error
        else Inr (expected_index + 1,
                  refs @ [\<lparr>cr_chunk_id = lc_chunk_id row, cr_offset = word_of_int (lc_byte_offset row),
                           cr_size = word_of_int (lc_chunk_size_bytes row)\<rparr>])))"

text \<open>The descriptor rebuilt from a layout row and its chunk list: the lambda in the middle of
  \<open>load_object_layout\<close>.\<close>

definition rebuild_descriptor ::
  "hash \<Rightarrow> layout_row \<Rightarrow> chunk_ref list \<Rightarrow> object_layout_descriptor res" where
  "rebuild_descriptor H row refs =
     rbind (object_new (l_object_id row) (word_of_int (l_total_size_bytes row))) (\<lambda>object.
     rbind (object_layout_new refs) (\<lambda>layout.
     if l_chunking_strategy row = FixedSize then
       if l_fastcdc_min row \<noteq> None \<or> l_fastcdc_avg row \<noteq> None \<or> l_fastcdc_max row \<noteq> None
       then Inl Runtime_error
       else fixed_size_layout_descriptor H object (l_chunking_strategy row) layout
     else
       (case (l_fastcdc_min row, l_fastcdc_avg row, l_fastcdc_max row) of
          (Some mn, Some av, Some mx) \<Rightarrow>
            fastcdc_layout_descriptor H object
              \<lparr>min_chunk_size_bytes = word_of_int mn, avg_chunk_size_bytes = word_of_int av,
               max_chunk_size_bytes = word_of_int mx\<rparr> layout
        | _ \<Rightarrow> Inl Runtime_error)))"

definition load_object_layout ::
  "hash \<Rightarrow> database \<Rightarrow> string \<Rightarrow> object_layout_descriptor option res" where
  "load_object_layout H db layout_id =
     rbind (check_content_id layout_id) (\<lambda>_.
     rbind (query01 (filter (\<lambda>l. l_layout_id l = layout_id) (object_layouts db))) (\<lambda>stored.
     case stored of
       None \<Rightarrow> Inr None
     | Some row \<Rightarrow>
         if l_descriptor_version row \<noteq> 1 then Inl Runtime_error
         else if l_total_size_bytes row < 0 \<or> l_chunk_count row < 0 then Inl Runtime_error
         else
           rbind (fold_res load_layout_row (layout_rows db layout_id) (0, [])) (\<lambda>(expected_index, refs).
           if int expected_index \<noteq> l_chunk_count row then Inl Runtime_error
           else
             rbind (rebuild_descriptor H row refs) (\<lambda>descriptor.
             if ld_layout_id descriptor \<noteq> layout_id then Inl Runtime_error
             else if bytes_to_hex (ld_canonical_bytes descriptor) \<noteq> bytes_to_hex (l_canonical_descriptor row)
             then Inl Runtime_error
             else if \<not> stored_fastcdc_columns_match (l_fastcdc_min row) (l_fastcdc_avg row) (l_fastcdc_max row) descriptor
             then Inl Runtime_error
             else Inr (Some descriptor)))))"

definition get_object_layout :: "hash \<Rightarrow> database \<Rightarrow> string \<Rightarrow> object_layout_descriptor option res" where
  "get_object_layout H db layout_id = load_object_layout H db layout_id"

definition get_object_layouts :: "hash \<Rightarrow> database \<Rightarrow> string \<Rightarrow> object_layout_descriptor list res" where
  "get_object_layouts H db object_id =
     rbind (check_content_id object_id) (\<lambda>_.
     map_res (\<lambda>layout_id.
       rbind (load_object_layout H db layout_id) (\<lambda>descriptor.
       case descriptor of None \<Rightarrow> Inl Runtime_error | Some d \<Rightarrow> Inr d))
       (sort (map l_layout_id (filter (\<lambda>l. l_object_id l = object_id) (object_layouts db)))))"

subsection \<open>Versions\<close>

text \<open>The row an \<open>INSERT INTO artifact_versions\<close> writes, and the constraints it checks.\<close>

definition version_row_of :: "int \<Rightarrow> artifact_version \<Rightarrow> version_row" where
  "version_row_of now version =
     \<lparr>v_version_id = av_version_id version, v_artifact_id = av_artifact_id version,
      v_root_object_id = av_root_object_id version, v_parent_version_id = av_parent_version_id version,
      v_descriptor_version = 1, v_canonical_descriptor = av_canonical_bytes version,
      v_state = av_state version, v_created_at = now\<rparr>"

definition insert_version_row :: "database \<Rightarrow> version_row \<Rightarrow> database res" where
  "insert_version_row db row =
     (if \<not> has_artifact db (v_artifact_id row) then Inl Foreign_key_violation
      else if \<not> has_object db (v_root_object_id row) then Inl Foreign_key_violation
      else case v_parent_version_id row of
        None \<Rightarrow> Inr (db\<lparr>artifact_versions := artifact_versions db @ [row]\<rparr>)
      | Some parent \<Rightarrow>
          if parent = v_version_id row then Inl Check_violation
          else if \<not> has_artifact_version db (v_artifact_id row) parent then Inl Foreign_key_violation
          else Inr (db\<lparr>artifact_versions := artifact_versions db @ [row]\<rparr>))"

definition insert_version_metadata :: "database \<Rightarrow> artifact_version \<Rightarrow> database res" where
  "insert_version_metadata db version =
     rbind (fold_res (insert_text_row (av_version_id version)) (av_immutable_metadata version)
              (artifact_version_metadata db)) (\<lambda>rows.
     Inr (db\<lparr>artifact_version_metadata := rows\<rparr>))"

definition create_version :: "database \<Rightarrow> int \<Rightarrow> artifact_version \<Rightarrow> database res" where
  "create_version db now version =
     (if has_version db (av_version_id version) then Inl Unique_violation
      else rbind (insert_version_row db (version_row_of now version)) (\<lambda>db.
           insert_version_metadata db version))"

definition load_version :: "hash \<Rightarrow> database \<Rightarrow> string \<Rightarrow> artifact_version option res" where
  "load_version H db version_id =
     rbind (query01 (filter (\<lambda>v. v_version_id v = version_id) (artifact_versions db))) (\<lambda>stored.
     case stored of
       None \<Rightarrow> Inr None
     | Some row \<Rightarrow>
         if v_descriptor_version row \<noteq> 1 then Inl Runtime_error
         else
           let immutable_metadata = owner_map (artifact_version_metadata db) version_id
           in rbind (uuid_v7 (v_artifact_id row)) (\<lambda>artifact_id.
              rbind (artifact_version_new H artifact_id (v_root_object_id row) (v_parent_version_id row)
                       immutable_metadata (v_state row)) (\<lambda>reconstructed.
              if av_version_id reconstructed \<noteq> v_version_id row then Inl Runtime_error
              else if bytes_to_hex (av_canonical_bytes reconstructed) \<noteq> bytes_to_hex (v_canonical_descriptor row)
              then Inl Runtime_error
              else Inr (Some reconstructed))))"

definition get_version :: "hash \<Rightarrow> database \<Rightarrow> string \<Rightarrow> artifact_version option res" where
  "get_version H db version_id =
     rbind (check_content_id version_id) (\<lambda>_. load_version H db version_id)"

definition artifact_version_identity_matches :: "database \<Rightarrow> artifact_version \<Rightarrow> bool res" where
  "artifact_version_identity_matches db expected =
     rbind (query01 (filter (\<lambda>v. v_version_id v = av_version_id expected) (artifact_versions db))) (\<lambda>stored.
     case stored of
       None \<Rightarrow> Inr False
     | Some row \<Rightarrow>
         if v_version_id row \<noteq> av_version_id expected \<or> v_artifact_id row \<noteq> av_artifact_id expected \<or>
            v_root_object_id row \<noteq> av_root_object_id expected \<or>
            v_parent_version_id row \<noteq> av_parent_version_id expected \<or>
            v_descriptor_version row \<noteq> 1 \<or>
            bytes_to_hex (v_canonical_descriptor row) \<noteq> bytes_to_hex (av_canonical_bytes expected)
         then Inr False
         else Inr (owner_map (artifact_version_metadata db) (av_version_id expected) =
                   av_immutable_metadata expected))"

definition set_version_state :: "database \<Rightarrow> string \<Rightarrow> version_state \<Rightarrow> database res" where
  "set_version_state db version_id state =
     rbind (check_content_id version_id) (\<lambda>_.
     if length (filter (\<lambda>v. v_version_id v = version_id) (artifact_versions db)) \<noteq> 1 then Inl Runtime_error
     else Inr (db\<lparr>artifact_versions :=
            map (\<lambda>v. if v_version_id v = version_id then v\<lparr>v_state := state\<rparr> else v) (artifact_versions db)\<rparr>))"

subsection \<open>Tags\<close>

definition set_tag :: "database \<Rightarrow> string \<Rightarrow> string \<Rightarrow> string \<Rightarrow> database res" where
  "set_tag db artifact_id tag_name version_id =
     (if tag_name = [] then Inl Invalid_argument
      else rbind (check_content_id version_id) (\<lambda>_.
           if is_version_retired db version_id then Inl (Lifecycle_error LifecycleVersionRetired)
           else if \<not> has_artifact db artifact_id \<or> \<not> has_artifact_version db artifact_id version_id
           then Inl Foreign_key_violation
           else Inr (db\<lparr>tags :=
                  (if \<exists>t \<in> set (tags db). tg_artifact_id t = artifact_id \<and> tg_tag_name t = tag_name
                   then map (\<lambda>t. if tg_artifact_id t = artifact_id \<and> tg_tag_name t = tag_name
                                 then t\<lparr>tg_version_id := version_id\<rparr> else t) (tags db)
                   else tags db @ [\<lparr>tg_artifact_id = artifact_id, tg_tag_name = tag_name,
                                    tg_version_id = version_id\<rparr>])\<rparr>)))"

definition get_tag :: "database \<Rightarrow> string \<Rightarrow> string \<Rightarrow> string option res" where
  "get_tag db artifact_id tag_name =
     (if tag_name = [] then Inl Invalid_argument
      else query01 (map tg_version_id
             (filter (\<lambda>t. tg_artifact_id t = artifact_id \<and> tg_tag_name t = tag_name) (tags db))))"

subsection \<open>Manifests\<close>

definition verify_registered_manifest :: "database \<Rightarrow> manifest \<Rightarrow> unit res" where
  "verify_registered_manifest db manifest =
     rbind (query01 (filter (\<lambda>m. m_manifest_id m = man_manifest_id manifest) (manifests db))) (\<lambda>stored.
     case stored of
       None \<Rightarrow> Inl Runtime_error
     | Some row \<Rightarrow>
         if m_descriptor_version row \<noteq> 1 \<or>
            bytes_to_hex (m_canonical_descriptor row) \<noteq> bytes_to_hex (man_canonical_bytes manifest)
         then Inl Runtime_error
         else rbind (size_to_postgres_bigint (length (man_entries manifest))) (\<lambda>entry_count.
              if m_entry_count row \<noteq> entry_count then Inl Runtime_error
              else
                rbind (fold_res (\<lambda>kv expected.
                         case expected of
                           [] \<Rightarrow> Inl Runtime_error
                         | e # rest \<Rightarrow> if kv \<noteq> e then Inl Runtime_error else Inr rest)
                       (owner_map (manifest_entries db) (man_manifest_id manifest)) (man_entries manifest)) (\<lambda>expected.
                if expected \<noteq> [] then Inl Runtime_error else Inr ())))"

definition insert_manifest_entry :: "string \<Rightarrow> string \<times> string \<Rightarrow> database \<Rightarrow> database res" where
  "insert_manifest_entry manifest_id entry db =
     rbind (insert_text_row manifest_id entry (manifest_entries db)) (\<lambda>rows.
     if \<not> has_version db (snd entry) then Inl Foreign_key_violation
     else Inr (db\<lparr>manifest_entries := rows\<rparr>))"

definition register_manifest :: "database \<Rightarrow> manifest \<Rightarrow> database res" where
  "register_manifest db manifest =
     rbind (check_all (\<lambda>(role, version_id).
              if is_version_retired db version_id then Inl (Lifecycle_error LifecycleVersionRetired) else Inr ())
            (man_entries manifest)) (\<lambda>_.
     rbind (size_to_postgres_bigint (length (man_entries manifest))) (\<lambda>entry_count.
     let manifest_was_inserted = \<not> (\<exists>m \<in> set (manifests db). m_manifest_id m = man_manifest_id manifest);
         db = (if manifest_was_inserted
               then db\<lparr>manifests := manifests db @
                      [\<lparr>m_manifest_id = man_manifest_id manifest, m_descriptor_version = 1,
                        m_canonical_descriptor = man_canonical_bytes manifest, m_entry_count = entry_count\<rparr>]\<rparr>
               else db)
     in rbind (if manifest_was_inserted
               then fold_res (insert_manifest_entry (man_manifest_id manifest)) (man_entries manifest) db
               else Inr db) (\<lambda>db.
        rbind (verify_registered_manifest db manifest) (\<lambda>_. Inr db))))"

definition get_manifest :: "hash \<Rightarrow> database \<Rightarrow> string \<Rightarrow> manifest option res" where
  "get_manifest H db manifest_id =
     rbind (check_content_id manifest_id) (\<lambda>_.
     rbind (query01 (filter (\<lambda>m. m_manifest_id m = manifest_id) (manifests db))) (\<lambda>stored.
     case stored of
       None \<Rightarrow> Inr None
     | Some row \<Rightarrow>
         if m_descriptor_version row \<noteq> 1 then Inl Runtime_error
         else if m_entry_count row < 0 then Inl Runtime_error
         else
           let entries = owner_map (manifest_entries db) manifest_id
           in if int (length entries) \<noteq> m_entry_count row then Inl Runtime_error
              else rbind (manifest_new H entries) (\<lambda>reconstructed.
                   if man_manifest_id reconstructed \<noteq> m_manifest_id row then Inl Runtime_error
                   else if bytes_to_hex (man_canonical_bytes reconstructed) \<noteq> bytes_to_hex (m_canonical_descriptor row)
                   then Inl Runtime_error
                   else Inr (Some reconstructed))))"

subsection \<open>Runs\<close>

text \<open>\<open>to_timestamp(ms / 1000.0)\<close> and \<open>ROUND(EXTRACT(EPOCH) * 1000)\<close> are inverse on whole
  milliseconds; a time stamp is stored in milliseconds.\<close>

definition create_run :: "database \<Rightarrow> run \<Rightarrow> database res" where
  "create_run db run =
     (let started_at_ms = timestamp_to_unix_milliseconds (run_started_at run);
          completed_at_ms = map_option timestamp_to_unix_milliseconds (run_completed_at run)
      in if \<exists>r \<in> set (runs db). ru_run_id r = run_run_id run then Inl Unique_violation
         else if \<not> (\<exists>m \<in> set (manifests db). m_manifest_id m = run_manifest_id run) then Inl Foreign_key_violation
         else
           let db = db\<lparr>runs := runs db @
                      [\<lparr>ru_run_id = run_run_id run, ru_manifest_id = run_manifest_id run, ru_name = run_name run,
                        ru_source_commit = run_source_commit run, ru_started_at = started_at_ms,
                        ru_completed_at = completed_at_ms\<rparr>]\<rparr>
           in rbind (fold_res (insert_text_row (run_run_id run)) (run_tags run) (run_tag_rows db)) (\<lambda>rows.
              Inr (db\<lparr>run_tag_rows := rows\<rparr>)))"

definition get_run :: "database \<Rightarrow> string \<Rightarrow> run option res" where
  "get_run db run_id =
     rbind (query01 (filter (\<lambda>r. ru_run_id r = run_id) (runs db))) (\<lambda>stored.
     case stored of
       None \<Rightarrow> Inr None
     | Some row \<Rightarrow>
         let run_tag_map = owner_map (run_tag_rows db) run_id;
             completed_at = map_option timestamp_from_unix_milliseconds (ru_completed_at row)
         in rbind (uuid_v7 (ru_run_id row)) (\<lambda>i.
            rbind (run_new i (ru_manifest_id row) (ru_name row) (ru_source_commit row) run_tag_map
                     (timestamp_from_unix_milliseconds (ru_started_at row)) completed_at) (\<lambda>reconstructed.
            Inr (Some reconstructed))))"

subsection \<open>Storage nodes\<close>

definition register_storage_node :: "(string \<Rightarrow> bool) \<Rightarrow> database \<Rightarrow> storage_node \<Rightarrow> database res" where
  "register_storage_node is_ip db node =
     rbind (validate_storage_node is_ip node) (\<lambda>_.
     let row = \<lparr>n_node_id = sn_node_id node, n_address = sn_address node, n_port = uint (sn_port node),
                n_state = sn_state node\<rparr>
     in Inr (db\<lparr>storage_nodes :=
          (if \<exists>n \<in> set (storage_nodes db). n_node_id n = sn_node_id node
           then map (\<lambda>n. if n_node_id n = sn_node_id node then row else n) (storage_nodes db)
           else storage_nodes db @ [row])\<rparr>))"

definition reconstruct_storage_node :: "node_row \<Rightarrow> storage_node res" where
  "reconstruct_storage_node row =
     (if n_port row < 0 \<or> 65535 < n_port row then Inl Runtime_error
      else Inr \<lparr>sn_node_id = n_node_id row, sn_address = n_address row, sn_port = word_of_int (n_port row),
                sn_state = n_state row\<rparr>)"

definition get_storage_node :: "database \<Rightarrow> string \<Rightarrow> storage_node option res" where
  "get_storage_node db node_id =
     rbind (validate_storage_node_id node_id) (\<lambda>_.
     rbind (query01 (filter (\<lambda>n. n_node_id n = node_id) (storage_nodes db))) (\<lambda>stored.
     case stored of
       None \<Rightarrow> Inr None
     | Some row \<Rightarrow> rbind (reconstruct_storage_node row) (\<lambda>node. Inr (Some node))))"

definition list_storage_nodes :: "database \<Rightarrow> storage_node list res" where
  "list_storage_nodes db = map_res reconstruct_storage_node (sort_key n_node_id (storage_nodes db))"

subsection \<open>Storage locations\<close>

definition register_storage_location :: "database \<Rightarrow> location_row \<Rightarrow> database res" where
  "register_storage_location db location =
     rbind (check_content_id (sl_chunk_id location)) (\<lambda>_.
     if sl_node_id location = [] then Inl Invalid_argument
     else if sl_storage_path location = [] then Inl Invalid_argument
     else if \<not> has_chunk db (sl_chunk_id location) then Inl Foreign_key_violation
     else if \<exists>l \<in> set (storage_locations db). sl_node_id l = sl_node_id location \<and>
               sl_storage_path l = sl_storage_path location \<and> sl_chunk_id l \<noteq> sl_chunk_id location
     then Inl Unique_violation
     else Inr (db\<lparr>storage_locations :=
            (if \<exists>l \<in> set (storage_locations db). sl_chunk_id l = sl_chunk_id location \<and>
                  sl_node_id l = sl_node_id location
             then map (\<lambda>l. if sl_chunk_id l = sl_chunk_id location \<and> sl_node_id l = sl_node_id location
                           then location else l) (storage_locations db)
             else storage_locations db @ [location])\<rparr>))"

definition get_storage_locations :: "database \<Rightarrow> string \<Rightarrow> location_row list res" where
  "get_storage_locations db chunk_id =
     rbind (check_content_id chunk_id) (\<lambda>_.
     Inr (sort_key sl_node_id (filter (\<lambda>l. sl_chunk_id l = chunk_id) (storage_locations db))))"

subsection \<open>Chunks\<close>

record chunk_metadata =
  cm_chunk_id :: string
  cm_size_bytes :: u64

definition collect_unique_chunk ::
  "chunk_metadata \<Rightarrow> (string \<times> u64) list \<Rightarrow> (string \<times> u64) list res" where
  "collect_unique_chunk chunk unique_chunks =
     rbind (check_content_id (cm_chunk_id chunk)) (\<lambda>_.
     if cm_size_bytes chunk = 0 then Inl Invalid_argument
     else case emplace (cm_chunk_id chunk) (cm_size_bytes chunk) unique_chunks of
       (unique_chunks, stored, inserted) \<Rightarrow>
         if \<not> inserted \<and> stored \<noteq> cm_size_bytes chunk then Inl Invalid_argument else Inr unique_chunks)"

definition register_chunks :: "database \<Rightarrow> chunk_metadata list \<Rightarrow> database res" where
  "register_chunks db metadata =
     (if metadata = [] then Inr db
      else rbind (fold_res collect_unique_chunk metadata []) (\<lambda>unique_chunks.
           fold_res (\<lambda>(chunk_id, size_bytes). ensure_chunk chunk_id size_bytes) unique_chunks db))"

definition get_chunk_size :: "database \<Rightarrow> string \<Rightarrow> u64 option res" where
  "get_chunk_size db chunk_id =
     rbind (check_content_id chunk_id) (\<lambda>_.
     rbind (query01 (stored_chunk_sizes db chunk_id)) (\<lambda>stored.
     case stored of
       None \<Rightarrow> Inr None
     | Some size_bytes \<Rightarrow>
         if size_bytes \<le> 0 then Inl Runtime_error else Inr (Some (word_of_int size_bytes))))"

subsection \<open>Chunk negotiation\<close>

record chunk_negotiation_entry =
  ne_chunk :: chunk_metadata
  ne_metadata_was_known :: bool
  ne_available_node_ids :: "string list"

record chunk_size_conflict =
  sc_chunk_id :: string
  sc_requested_size_bytes :: u64
  sc_stored_size_bytes :: u64

record chunk_negotiation_batch =
  nb_chunks :: "chunk_negotiation_entry list"
  nb_conflict :: "chunk_size_conflict option"

definition collect_distinct_chunk ::
  "chunk_metadata \<Rightarrow> chunk_metadata list \<times> (string \<times> u64) list \<Rightarrow>
   (chunk_metadata list \<times> (string \<times> u64) list) res" where
  "collect_distinct_chunk chunk acc =
     (case acc of (distinct_chunks, seen_sizes) \<Rightarrow>
        rbind (check_content_id (cm_chunk_id chunk)) (\<lambda>_.
        if cm_size_bytes chunk = 0 then Inl Invalid_argument
        else rbind (to_postgres_bigint (cm_size_bytes chunk)) (\<lambda>_.
             case emplace (cm_chunk_id chunk) (cm_size_bytes chunk) seen_sizes of
               (seen_sizes, stored, inserted) \<Rightarrow>
                 if \<not> inserted
                 then if stored \<noteq> cm_size_bytes chunk then Inl Invalid_argument
                      else Inr (distinct_chunks, seen_sizes)
                 else Inr (distinct_chunks @ [chunk], seen_sizes))))"

text \<open>The first pass over the stored sizes: either the first conflict or one flag per chunk.\<close>

fun known_flags ::
  "database \<Rightarrow> chunk_metadata list \<Rightarrow> bool list \<Rightarrow> (chunk_size_conflict + bool list) res" where
  "known_flags db [] was_known = Inr (Inr was_known)"
| "known_flags db (chunk # rest) was_known =
     rbind (to_postgres_bigint (cm_size_bytes chunk)) (\<lambda>requested_size.
     rbind (query01 (stored_chunk_sizes db (cm_chunk_id chunk))) (\<lambda>stored.
     case stored of
       None \<Rightarrow> known_flags db rest (was_known @ [False])
     | Some stored_size \<Rightarrow>
         if stored_size \<le> 0 then Inl Runtime_error
         else if stored_size \<noteq> requested_size
         then Inr (Inl \<lparr>sc_chunk_id = cm_chunk_id chunk, sc_requested_size_bytes = cm_size_bytes chunk,
                        sc_stored_size_bytes = word_of_int stored_size\<rparr>)
         else known_flags db rest (was_known @ [True])))"

fun recheck_sizes :: "database \<Rightarrow> chunk_metadata list \<Rightarrow> chunk_size_conflict option res" where
  "recheck_sizes db [] = Inr None"
| "recheck_sizes db (chunk # rest) =
     rbind (to_postgres_bigint (cm_size_bytes chunk)) (\<lambda>requested_size.
     rbind (query_value (stored_chunk_sizes db (cm_chunk_id chunk))) (\<lambda>stored_chunk_size.
     if stored_chunk_size \<noteq> requested_size
     then Inr (Some \<lparr>sc_chunk_id = cm_chunk_id chunk, sc_requested_size_bytes = cm_size_bytes chunk,
                     sc_stored_size_bytes = word_of_int stored_chunk_size\<rparr>)
     else recheck_sizes db rest))"

definition available_node_ids :: "database \<Rightarrow> string \<Rightarrow> string list" where
  "available_node_ids db chunk_id =
     sort (map sl_node_id (filter (\<lambda>l. sl_chunk_id l = chunk_id \<and> sl_state l = Available) (storage_locations db)))"

text \<open>A conflict returns before the commit, so the database is the one before.\<close>

definition negotiate_chunks ::
  "database \<Rightarrow> chunk_metadata list \<Rightarrow> (database \<times> chunk_negotiation_batch) res" where
  "negotiate_chunks db metadata =
     rbind (fold_res collect_distinct_chunk metadata ([], [])) (\<lambda>(distinct_chunks, seen_sizes).
     if distinct_chunks = [] then Inr (db, \<lparr>nb_chunks = [], nb_conflict = None\<rparr>)
     else
       rbind (known_flags db distinct_chunks []) (\<lambda>flags.
       case flags of
         Inl conflict \<Rightarrow> Inr (db, \<lparr>nb_chunks = [], nb_conflict = Some conflict\<rparr>)
       | Inr was_known \<Rightarrow>
           rbind (fold_res (\<lambda>index db'.
                    if was_known ! index then Inr db'
                    else let chunk = distinct_chunks ! index
                         in rbind (to_postgres_bigint (cm_size_bytes chunk)) (\<lambda>chunk_size.
                            insert_chunk db' (cm_chunk_id chunk) chunk_size))
                  [0..<length distinct_chunks] db) (\<lambda>db'.
           rbind (recheck_sizes db' distinct_chunks) (\<lambda>late_conflict.
           case late_conflict of
             Some conflict \<Rightarrow> Inr (db, \<lparr>nb_chunks = [], nb_conflict = Some conflict\<rparr>)
           | None \<Rightarrow>
               let entries = map (\<lambda>index.
                     let chunk = distinct_chunks ! index
                     in \<lparr>ne_chunk = chunk, ne_metadata_was_known = was_known ! index,
                         ne_available_node_ids = available_node_ids db' (cm_chunk_id chunk)\<rparr>)
                     [0..<length distinct_chunks]
               in Inr (db', \<lparr>nb_chunks = entries, nb_conflict = None\<rparr>)))))"

subsection \<open>A registered layout loads back\<close>

text \<open>The row that stands for chunk \<open>c\<close> at index \<open>i\<close>.\<close>

definition row_matches :: "layout_chunk_row \<Rightarrow> nat \<Rightarrow> chunk_ref \<Rightarrow> bool" where
  "row_matches row i c \<longleftrightarrow>
     i < 2 ^ 63 \<and> lc_chunk_index row = int i \<and> lc_chunk_id row = cr_chunk_id c \<and>
     lc_byte_offset row = uint (cr_offset c) \<and> lc_chunk_size_bytes row = uint (cr_size c)"

lemma verify_layout_row_ok:
  "verify_layout_row cs row i = Inr j \<Longrightarrow> i < length cs \<and> row_matches row i (cs ! i) \<and> j = i + 1"
  by (auto simp: verify_layout_row_def Let_def rbind_eq_Inr size_to_postgres_bigint_ok to_postgres_bigint_ok
      row_matches_def split: if_splits)

lemma verify_rows_ok:
  "fold_res (verify_layout_row cs) rows i = Inr n \<Longrightarrow> i \<le> length cs \<Longrightarrow>
   n = i + length rows \<and> n \<le> length cs \<and> (\<forall>j < length rows. row_matches (rows ! j) (i + j) (cs ! (i + j)))"
proof (induction rows arbitrary: i)
  case (Cons row rows)
  then obtain k where k: "verify_layout_row cs row i = Inr k" "fold_res (verify_layout_row cs) rows k = Inr n"
    by (auto simp: rbind_eq_Inr)
  with verify_layout_row_ok [OF k(1)] Cons.IH [OF k(2)] show ?case
    by (auto simp: nth_Cons split: nat.splits)
qed simp

lemma load_rows_ok:
  assumes "\<forall>j < length rows. row_matches (rows ! j) (i + j) (cs ! (i + j))"
    and "\<forall>c \<in> set cs. cr_size c \<noteq> 0" and "i + length rows \<le> length cs"
  shows "fold_res load_layout_row rows (i, refs) = Inr (i + length rows, refs @ take (length rows) (drop i cs))"
  using assms
proof (induction rows arbitrary: i refs)
  case (Cons row rows)
  have row: "row_matches row i (cs ! i)" using Cons.prems(1) by force
  have i: "i < length cs" using Cons.prems(3) by simp
  then have "cr_size (cs ! i) \<noteq> 0" using Cons.prems(2) by simp
  then have pos: "0 < uint (cr_size (cs ! i))"    using unsigned_eq_0_iff [of "cr_size (cs ! i)"] by (simp add: order_less_le)
  have "load_layout_row row (i, refs) = Inr (i + 1, refs @ [cs ! i])"
    using row pos by (simp add: load_layout_row_def row_matches_def size_to_postgres_bigint_def)
  moreover have "\<forall>j < length rows. row_matches (rows ! j) (Suc i + j) (cs ! (Suc i + j))"
    using Cons.prems(1) by fastforce
  then have "fold_res load_layout_row rows (Suc i, refs @ [cs ! i]) =
      Inr (Suc i + length rows, (refs @ [cs ! i]) @ take (length rows) (drop (Suc i) cs))"
    by (rule Cons.IH) (use Cons.prems in simp_all)
  ultimately show ?case using i by (simp add: Cons_nth_drop_Suc [symmetric])
qed simp

lemma built_layout_rebuild:
  assumes "built_layout H d"
  shows "if ld_chunking_strategy d = FixedSize
    then ld_fastcdc_parameters d = None \<and>
         fixed_size_layout_descriptor H (ld_object d) FixedSize (ld_layout d) = Inr d
    else \<exists>p. ld_fastcdc_parameters d = Some p \<and>
         fastcdc_layout_descriptor H (ld_object d) p (ld_layout d) = Inr d"
  using assms
proof cases
  case (built_fixed i n obj cs l s)
  then have "s = FixedSize" "ld_object d = obj" "ld_layout d = l" "ld_chunking_strategy d = FixedSize"
    "ld_fastcdc_parameters d = None"
    by (auto simp: fixed_size_layout_descriptor_def rbind_eq_Inr split: if_splits)
  with built_fixed(3) show ?thesis by simp
next
  case (built_fastcdc i n obj cs l p)
  then have "ld_object d = obj" "ld_layout d = l" "ld_chunking_strategy d = FastCdc"
    "ld_fastcdc_parameters d = Some p"
    by (auto simp: fastcdc_layout_descriptor_def rbind_eq_Inr split: if_splits)
  with built_fastcdc(3) show ?thesis by simp
qed

lemma built_layout_id: "built_layout H d \<Longrightarrow> is_content_id (ld_layout_id d)"
  using built_layout_facts(7,8) [of H d] by (simp add: is_content_id_digest)

lemma tiles_from_sizes: "tiles_from start cs n \<Longrightarrow> \<forall>c \<in> set cs. cr_size c \<noteq> 0"
  by (induction start cs n rule: tiles_from.induct) auto

lemma verified_layout_row:
  assumes "verify_registered_object_layout db d = Inr ()"
  obtains row where "filter (\<lambda>l. l_layout_id l = ld_layout_id d) (object_layouts db) = [row]"
    and "l_object_id row = obj_object_id (ld_object d)" and "l_descriptor_version row = 1"
    and "l_chunking_strategy row = ld_chunking_strategy d"
    and "stored_fastcdc_columns_match (l_fastcdc_min row) (l_fastcdc_avg row) (l_fastcdc_max row) d"
    and "l_canonical_descriptor row = ld_canonical_bytes d"
    and "l_total_size_bytes row = uint (ol_total_size (ld_layout d))"
    and "l_chunk_count row = int (length (ol_chunks (ld_layout d)))"
    and "fold_res (verify_layout_row (ol_chunks (ld_layout d))) (layout_rows db (ld_layout_id d)) 0 =
         Inr (length (ol_chunks (ld_layout d)))"
  using assms unfolding verify_registered_object_layout_def Let_def bytes_to_hex_eq digest_to_hex_inject
  by (auto simp: rbind_eq_Inr query01_Some to_postgres_bigint_ok size_to_postgres_bigint_ok
      split: option.splits if_splits)

lemma verified_layout_loads:
  assumes "built_layout H d" and "verify_registered_object_layout db d = Inr ()"
  shows "load_object_layout H db (ld_layout_id d) = Inr (Some d)"
proof -
  let ?cs = "ol_chunks (ld_layout d)"
  from verified_layout_row [OF assms(2)] obtain row where
    row: "filter (\<lambda>l. l_layout_id l = ld_layout_id d) (object_layouts db) = [row]"
    and fields: "l_object_id row = obj_object_id (ld_object d)" "l_descriptor_version row = 1"
      "l_chunking_strategy row = ld_chunking_strategy d" "l_canonical_descriptor row = ld_canonical_bytes d"
      "l_total_size_bytes row = uint (ol_total_size (ld_layout d))" "l_chunk_count row = int (length ?cs)"
    and cdc: "stored_fastcdc_columns_match (l_fastcdc_min row) (l_fastcdc_avg row) (l_fastcdc_max row) d"
    and rows: "fold_res (verify_layout_row ?cs) (layout_rows db (ld_layout_id d)) 0 = Inr (length ?cs)"
    by metis
  note facts = built_layout_facts [OF assms(1)]
  obtain cs where cs: "object_layout_new cs = Inr (ld_layout d)" using facts(2) by blast
  then have same: "cs = ?cs" and sizes: "\<forall>c \<in> set ?cs. cr_size c \<noteq> 0"
    using tiles_from_sizes by (auto simp: object_layout_new_ok)
  have "fold_res load_layout_row (layout_rows db (ld_layout_id d)) (0, []) = Inr (length ?cs, ?cs)"
    using verify_rows_ok [OF rows] load_rows_ok [of "layout_rows db (ld_layout_id d)" 0 ?cs "[]"] sizes by simp
  moreover have "rebuild_descriptor H row ?cs = Inr d"
  proof -
    have object: "object_new (l_object_id row) (word_of_int (l_total_size_bytes row)) = Inr (ld_object d)"
      using facts(1,4) by (simp add: object_new_ok fields)
    have layout: "object_layout_new ?cs = Inr (ld_layout d)" using cs same by simp
    show ?thesis
    proof (cases "ld_chunking_strategy d")
      case FixedSize
      then show ?thesis
        using built_layout_rebuild [OF assms(1)] cdc unfolding rebuild_descriptor_def object layout rbind_simps
        by (simp add: fields stored_fastcdc_columns_match_def)
    next
      case FastCdc
      then obtain p where p: "ld_fastcdc_parameters d = Some p"
          "fastcdc_layout_descriptor H (ld_object d) p (ld_layout d) = Inr d"
        using built_layout_rebuild [OF assms(1)] by auto
      have "l_fastcdc_min row = Some (uint (min_chunk_size_bytes p)) \<and>
          l_fastcdc_avg row = Some (uint (avg_chunk_size_bytes p)) \<and>
          l_fastcdc_max row = Some (uint (max_chunk_size_bytes p))"
        using cdc FastCdc p(1) by (auto simp: stored_fastcdc_columns_match_def split: option.splits)
      then show ?thesis
        using p(2) FastCdc unfolding rebuild_descriptor_def object layout rbind_simps
        by (cases p) (simp add: fields)
    qed
  qed
  ultimately show ?thesis
    using built_layout_id [OF assms(1)] row cdc fields
    by (simp add: load_object_layout_def query01_def)
qed

lemma register_layout_verified:
  "register_object_layout_in_transaction db d = Inr db' \<Longrightarrow> verify_registered_object_layout db' d = Inr ()"
  unfolding register_object_layout_in_transaction_def Let_def run_simps by (elim exE conjE) simp

text \<open>
  C3: A registered layout loads back. After \<open>register_object_layout\<close> succeeds, on a new or an existing
  layout identifier, \<open>get_object_layout\<close> returns exactly the registered descriptor.
\<close>

theorem registered_layout_round_trip:
  assumes "built_layout H d" and "register_object_layout db d = Inr db'"
  shows "get_object_layout H db' (ld_layout_id d) = Inr (Some d)"
  using assms verified_layout_loads register_layout_verified
  by (simp add: register_object_layout_def get_object_layout_def)

definition sample_object_db :: database where
  "sample_object_db =
     empty_database\<lparr>objects := [\<lparr>o_object_id = sample_id (CHR ''a''), o_total_size_bytes = 0\<rparr>]\<rparr>"

lemma sample_layout_fields [simp]:
  "ld_object sample_layout = \<lparr>obj_object_id = sample_id (CHR ''a''), obj_total_size = 0\<rparr>"
  "ld_chunking_strategy sample_layout = FixedSize"
  "ld_fastcdc_parameters sample_layout = None"
  "ld_layout sample_layout = \<lparr>ol_chunks = [], ol_total_size = 0\<rparr>"
  by (simp_all add: sample_layout_def Let_def)

definition sample_layout_row :: layout_row where
  "sample_layout_row =
     \<lparr>l_layout_id = ld_layout_id sample_layout, l_object_id = sample_id (CHR ''a''), l_descriptor_version = 1,
      l_chunking_strategy = FixedSize, l_fastcdc_min = None, l_fastcdc_avg = None, l_fastcdc_max = None,
      l_canonical_descriptor = ld_canonical_bytes sample_layout, l_total_size_bytes = 0, l_chunk_count = 0\<rparr>"

lemma register_sample_layout:
  "register_object_layout sample_object_db sample_layout =
   Inr (sample_object_db\<lparr>object_layouts := [sample_layout_row]\<rparr>)"
  by (simp add: register_object_layout_def register_object_layout_in_transaction_def sample_object_db_def
      empty_database_def query01_def to_postgres_bigint_def size_to_postgres_bigint_def optional_bigint_def
      layout_row_of_def insert_object_layout_def has_layout_def verify_registered_object_layout_def layout_rows_def
      stored_fastcdc_columns_match_def sample_layout_row_def Let_def)

theorem registered_layout_round_trip_witness:
  "get_object_layout sample_hash (sample_object_db\<lparr>object_layouts := [sample_layout_row]\<rparr>)
     (ld_layout_id sample_layout) = Inr (Some sample_layout)"
  by (rule registered_layout_round_trip [OF built_sample_layout register_sample_layout])

subsection \<open>What a negotiation stores and reports\<close>

lemma map_of_insort: "map_of m k = None \<Longrightarrow> map_of (insort_key fst (k, v) m) = (map_of m)(k \<mapsto> v)"
  by (induction m) (auto simp: fun_eq_iff split: if_splits)

lemma map_of_emplace:
  "emplace k v m = (m', w, ins) \<Longrightarrow>
   (if ins then map_of m k = None \<and> map_of m' = (map_of m)(k \<mapsto> v) \<and> w = v
    else map_of m k = Some w \<and> m' = m)"
  by (auto simp: emplace_def map_of_insort split: option.splits)

definition chunk_sizes :: "chunk_metadata list \<Rightarrow> (string \<times> u64) list" where
  "chunk_sizes ds = map (\<lambda>c. (cm_chunk_id c, cm_size_bytes c)) ds"

lemma chunk_sizes_None: "map_of (chunk_sizes ds) k = None \<longleftrightarrow> k \<notin> cm_chunk_id ` set ds"
  by (auto simp: chunk_sizes_def map_of_eq_None_iff image_iff)

lemma chunk_sizes_member:
  "map_of (chunk_sizes ds) (cm_chunk_id c) = Some (cm_size_bytes c) \<Longrightarrow> c \<in> set ds"
  by (induction ds) (auto simp: chunk_sizes_def split: if_splits)

lemma chunk_sizes_snoc:
  "map_of (chunk_sizes ds) (cm_chunk_id c) = None \<Longrightarrow>
   map_of (chunk_sizes (ds @ [c])) = (map_of (chunk_sizes ds))(cm_chunk_id c \<mapsto> cm_size_bytes c)"
  by (auto simp: chunk_sizes_def fun_eq_iff map_add_def split: option.splits)

lemma collect_distinct_ok:
  assumes "fold_res collect_distinct_chunk ms (ds, seen) = Inr (ds', seen')"
    and "map_of seen = map_of (chunk_sizes ds)" and "distinct (map cm_chunk_id ds)"
  shows "set ds' = set ds \<union> set ms \<and> distinct (map cm_chunk_id ds')"
  using assms
proof (induction ms arbitrary: ds seen)
  case (Cons c ms)
  then obtain acc where step: "collect_distinct_chunk c (ds, seen) = Inr acc"
    and rest: "fold_res collect_distinct_chunk ms acc = Inr (ds', seen')"
    by (auto simp: rbind_eq_Inr)
  obtain m w ins where em: "emplace (cm_chunk_id c) (cm_size_bytes c) seen = (m, w, ins)" by (cases rule: prod_cases3)
  note m = map_of_emplace [OF em]
  show ?case
  proof (cases ins)
    case True
    then have acc: "acc = (ds @ [c], m)"
      using step em by (auto simp: collect_distinct_chunk_def rbind_eq_Inr split: if_splits)
    have fresh: "map_of (chunk_sizes ds) (cm_chunk_id c) = None" using m True Cons.prems(2) by simp
    then have "map_of m = map_of (chunk_sizes (ds @ [c]))" "distinct (map cm_chunk_id (ds @ [c]))"
      using m True Cons.prems(2,3) chunk_sizes_snoc [OF fresh] by (simp_all add: chunk_sizes_None)
    with Cons.IH [OF rest [unfolded acc]] show ?thesis by simp
  next
    case False
    then have acc: "acc = (ds, seen)" and w: "w = cm_size_bytes c"
      using step em m by (auto simp: collect_distinct_chunk_def rbind_eq_Inr split: if_splits)
    then have "c \<in> set ds" using m False Cons.prems(2) chunk_sizes_member [of ds c] by simp
    with Cons.IH [OF rest [unfolded acc] Cons.prems(2,3)] show ?thesis by auto
  qed
qed simp

lemma known_flags_ok:
  "known_flags db ds acc = Inr (Inr flags) \<Longrightarrow>
   flags = acc @ map (\<lambda>c. stored_chunk_sizes db (cm_chunk_id c) \<noteq> []) ds \<and>
   (\<forall>c \<in> set ds. stored_chunk_sizes db (cm_chunk_id c) = [] \<or>
      stored_chunk_sizes db (cm_chunk_id c) = [uint (cm_size_bytes c)])"
proof (induction db ds acc rule: known_flags.induct)
  case (2 db c rest acc)
  from "2.prems" obtain stored where size: "to_postgres_bigint (cm_size_bytes c) = Inr (uint (cm_size_bytes c))"
    and q: "query01 (stored_chunk_sizes db (cm_chunk_id c)) = Inr stored"
    by (auto simp: rbind_eq_Inr to_postgres_bigint_ok)
  show ?case
  proof (cases stored)
    case None
    with q have "stored_chunk_sizes db (cm_chunk_id c) = []" by (simp add: query01_None)
    with "2.IH"(1) [OF size q None] "2.prems" size q None show ?thesis by simp
  next
    case (Some n)
    with q have s: "stored_chunk_sizes db (cm_chunk_id c) = [n]" by (simp add: query01_Some)
    have n: "\<not> n \<le> 0" "n = uint (cm_size_bytes c)" "known_flags db rest (acc @ [True]) = Inr (Inr flags)"
      using "2.prems" size q Some by (auto split: if_splits)
    with "2.IH"(2) [OF size q Some n(1)] s show ?thesis by simp
  qed
qed simp

lemma recheck_sizes_ok:
  "recheck_sizes db ds = Inr None \<Longrightarrow>
   \<forall>c \<in> set ds. stored_chunk_sizes db (cm_chunk_id c) = [uint (cm_size_bytes c)]"
  by (induction db ds rule: recheck_sizes.induct)
    (auto simp: rbind_eq_Inr to_postgres_bigint_ok query_value_Inr split: if_splits)

text \<open>Statements that only add chunk rows.\<close>

definition adds_chunks :: "database \<Rightarrow> database \<Rightarrow> bool" where
  "adds_chunks db db' \<longleftrightarrow> (\<exists>new. db' = db\<lparr>chunks := chunks db @ new\<rparr>)"

lemma adds_chunks_refl: "adds_chunks db db"
  unfolding adds_chunks_def by (rule exI [of _ "[]"]) simp

lemma adds_chunks_trans: "adds_chunks db db1 \<Longrightarrow> adds_chunks db1 db2 \<Longrightarrow> adds_chunks db db2"
  by (auto simp: adds_chunks_def)

lemma insert_chunk_adds: "insert_chunk db c n = Inr db' \<Longrightarrow> adds_chunks db db'"
  by (auto simp: insert_chunk_def adds_chunks_def adds_chunks_refl split: if_splits) (metis append_Nil2 database.surjective database.update_convs(3))

lemma ensure_chunk_adds: "ensure_chunk c n db = Inr db' \<Longrightarrow> adds_chunks db db'"
  by (auto simp: ensure_chunk_def rbind_eq_Inr insert_chunk_adds split: if_splits)

lemma fold_res_adds:
  assumes "\<And>x s t. f x s = Inr t \<Longrightarrow> adds_chunks s t" and "fold_res f xs db = Inr db'"
  shows "adds_chunks db db'"
  using assms(2)
proof (induction xs arbitrary: db)
  case (Cons x xs)
  then obtain mid where "f x db = Inr mid" "fold_res f xs mid = Inr db'" by (auto simp: rbind_eq_Inr)
  with Cons.IH assms(1) show ?case by (metis adds_chunks_trans)
qed (simp add: adds_chunks_refl)

lemma stored_after_adds:
  "adds_chunks db db' \<Longrightarrow> \<exists>more. stored_chunk_sizes db' c = stored_chunk_sizes db c @ more"
  by (auto simp: adds_chunks_def stored_chunk_sizes_def)

text \<open>
  C4: A successful negotiation without a conflict reports every requested chunk once, has every one of
  them stored with exactly its requested size, tells truthfully which ones were known before and which
  nodes hold them, and changes nothing but adding chunk rows; a conflict changes nothing at all.
\<close>

theorem negotiation_stores_what_it_reports:
  assumes "negotiate_chunks db ms = Inr (db', batch)"
  shows "case nb_conflict batch of
      Some c \<Rightarrow> db' = db \<and> nb_chunks batch = []
    | None \<Rightarrow>
        adds_chunks db db' \<and> set (map ne_chunk (nb_chunks batch)) = set ms \<and>
        distinct (map (cm_chunk_id \<circ> ne_chunk) (nb_chunks batch)) \<and>
        (\<forall>e \<in> set (nb_chunks batch).
           stored_chunk_sizes db' (cm_chunk_id (ne_chunk e)) = [uint (cm_size_bytes (ne_chunk e))] \<and>
           (ne_metadata_was_known e \<longleftrightarrow> has_chunk db (cm_chunk_id (ne_chunk e))) \<and>
           (\<forall>n. n \<in> set (ne_available_node_ids e) \<longleftrightarrow>
              (\<exists>l \<in> set (storage_locations db). sl_chunk_id l = cm_chunk_id (ne_chunk e) \<and>
                 sl_node_id l = n \<and> sl_state l = Available)))"
proof -
  from assms obtain ds seen where ds: "fold_res collect_distinct_chunk ms ([], []) = Inr (ds, seen)"
    by (auto simp: negotiate_chunks_def rbind_eq_Inr)
  have set: "set ds = set ms" and distinct: "distinct (map cm_chunk_id ds)"
    using collect_distinct_ok [OF ds] by (simp_all add: chunk_sizes_def)
  show ?thesis
  proof (cases "nb_conflict batch")
    case (Some c)
    have "ds \<noteq> []" using assms Some by (auto simp: negotiate_chunks_def ds)
    with assms obtain flags where flags: "known_flags db ds [] = Inr flags"
      by (auto simp: negotiate_chunks_def ds rbind_eq_Inr)
    show ?thesis
    proof (cases flags)
      case (Inl conflict)
      then show ?thesis using assms Some \<open>ds \<noteq> []\<close> by (auto simp: negotiate_chunks_def ds flags)
    next
      case (Inr known)
      with assms Some \<open>ds \<noteq> []\<close> obtain dbx late where "recheck_sizes dbx ds = Inr late"
        and rest: "(case late of Some conflict \<Rightarrow> Inr (db, \<lparr>nb_chunks = [], nb_conflict = Some conflict\<rparr>)
           | None \<Rightarrow> Inr (dbx, \<lparr>nb_chunks = map (\<lambda>index. \<lparr>ne_chunk = ds ! index, ne_metadata_was_known = known ! index,
               ne_available_node_ids = available_node_ids dbx (cm_chunk_id (ds ! index))\<rparr>) [0..<length ds],
               nb_conflict = None\<rparr>)) = (Inr (db', batch) :: (database \<times> chunk_negotiation_batch) res)"
        unfolding negotiate_chunks_def ds rbind_simps Let_def prod.case if_not_P [OF \<open>ds \<noteq> []\<close>] flags Inr sum.case
        by (auto simp: rbind_eq_Inr)
      then show ?thesis using Some by (cases late) auto
    qed
  next
    case None
    show ?thesis
    proof (cases "ds = []")
      case True
      then have "db' = db" "nb_chunks batch = []" using assms by (auto simp: negotiate_chunks_def ds)
      then show ?thesis using None set True by (simp add: adds_chunks_refl)
    next
      case False
      let ?step = "\<lambda>flags index db'. if flags ! index then Inr db'
          else let chunk = ds ! index in rbind (to_postgres_bigint (cm_size_bytes chunk)) (\<lambda>chunk_size.
               insert_chunk db' (cm_chunk_id chunk) chunk_size)"
      from assms False obtain result where result: "known_flags db ds [] = Inr result"
        by (auto simp: negotiate_chunks_def ds rbind_eq_Inr)
      have "\<exists>flags. result = Inr flags"
        using assms None False by (cases result) (auto simp: negotiate_chunks_def ds result)
      then obtain flags where flags: "known_flags db ds [] = Inr (Inr flags)" using result by auto
      let ?entries = "\<lambda>dbx. map (\<lambda>index. \<lparr>ne_chunk = ds ! index, ne_metadata_was_known = flags ! index,
            ne_available_node_ids = available_node_ids dbx (cm_chunk_id (ds ! index))\<rparr>) [0..<length ds]"
      from assms None False obtain dbx late where ins': "fold_res (?step flags) [0..<length ds] db = Inr dbx"
        and re': "recheck_sizes dbx ds = Inr late"
        and rest: "(case late of Some conflict \<Rightarrow> Inr (db, \<lparr>nb_chunks = [], nb_conflict = Some conflict\<rparr>)
           | None \<Rightarrow> Inr (dbx, \<lparr>nb_chunks = ?entries dbx, nb_conflict = None\<rparr>)) =
             (Inr (db', batch) :: (database \<times> chunk_negotiation_batch) res)"
        unfolding negotiate_chunks_def ds rbind_simps prod.case if_not_P [OF False] flags sum.case Let_def
        by (auto simp: rbind_eq_Inr)
      have "late = None" using rest None by (cases late) auto
      with rest have "dbx = db'" and entries: "nb_chunks batch = ?entries db'" by auto
      with ins' re' \<open>late = None\<close> have ins: "fold_res (?step flags) [0..<length ds] db = Inr db'"
        and re: "recheck_sizes db' ds = Inr None" by simp_all
      have adds: "adds_chunks db db'"
        by (rule fold_res_adds [OF _ ins])
          (auto simp: Let_def rbind_eq_Inr adds_chunks_refl insert_chunk_adds split: if_splits)
      have chunks: "map ne_chunk (nb_chunks batch) = ds"
        unfolding entries by (simp add: comp_def map_nth)
      have known: "flags ! i \<longleftrightarrow> has_chunk db (cm_chunk_id (ds ! i))" if "i < length ds" for i
        using known_flags_ok [OF flags] that
        by (auto simp: stored_chunk_sizes_def has_chunk_def filter_empty_conv)
      have locations: "storage_locations db' = storage_locations db" using adds by (auto simp: adds_chunks_def)
      have "distinct (map (cm_chunk_id \<circ> ne_chunk) (nb_chunks batch))"
        using distinct chunks by (metis map_map)
      moreover have "stored_chunk_sizes db' (cm_chunk_id (ne_chunk e)) = [uint (cm_size_bytes (ne_chunk e))] \<and>
           (ne_metadata_was_known e \<longleftrightarrow> has_chunk db (cm_chunk_id (ne_chunk e))) \<and>
           (\<forall>n. n \<in> set (ne_available_node_ids e) \<longleftrightarrow>
              (\<exists>l \<in> set (storage_locations db). sl_chunk_id l = cm_chunk_id (ne_chunk e) \<and>
                 sl_node_id l = n \<and> sl_state l = Available))"
        if "e \<in> set (nb_chunks batch)" for e
      proof -
        from that obtain i where i: "i < length ds" and e: "ne_chunk e = ds ! i" "ne_metadata_was_known e = flags ! i"
            "ne_available_node_ids e = available_node_ids db' (cm_chunk_id (ds ! i))"
          unfolding entries by auto
        have "ds ! i \<in> set ds" using i by simp
        then have "stored_chunk_sizes db' (cm_chunk_id (ds ! i)) = [uint (cm_size_bytes (ds ! i))]"
          using recheck_sizes_ok [OF re] by blast
        then show ?thesis using known [OF i] by (auto simp: e available_node_ids_def locations)
      qed
      moreover have "set (map ne_chunk (nb_chunks batch)) = set ms" unfolding chunks by (fact set)
      ultimately show ?thesis using None adds by simp
    qed
  qed
qed

definition sample_chunk :: chunk_metadata where
  "sample_chunk = \<lparr>cm_chunk_id = sample_id (CHR ''c''), cm_size_bytes = 5\<rparr>"

lemma negotiate_sample_chunk:
  "negotiate_chunks empty_database [sample_chunk, sample_chunk] =
   Inr (empty_database\<lparr>chunks := [\<lparr>c_chunk_id = sample_id (CHR ''c''), c_size_bytes = 5\<rparr>]\<rparr>,
        \<lparr>nb_chunks = [\<lparr>ne_chunk = sample_chunk, ne_metadata_was_known = False, ne_available_node_ids = []\<rparr>],
         nb_conflict = None\<rparr>)"
proof -
  have "is_content_id (sample_id (CHR ''c''))" by (rule sample_id_content_id) (simp add: is_lower_hex_def)
  then show ?thesis
    by (simp add: negotiate_chunks_def sample_chunk_def collect_distinct_chunk_def to_postgres_bigint_def
        emplace_def stored_chunk_sizes_def query01_def query_value_def insert_chunk_def has_chunk_def
        empty_database_def available_node_ids_def Let_def)
qed

theorem negotiation_stores_what_it_reports_witness:
  "stored_chunk_sizes (fst (projr (negotiate_chunks empty_database [sample_chunk, sample_chunk])))
     (sample_id (CHR ''c'')) = [5]"
  unfolding negotiate_sample_chunk sum.sel fst_conv
  using negotiation_stores_what_it_reports [OF negotiate_sample_chunk] by (simp add: sample_chunk_def)

end
