(* ===== verification/Repo_Uploads.thy ===== *)
theory Repo_Uploads
  imports Repo_Catalog
begin

section \<open>Repository: upload sessions and their finalization\<close>

text \<open>
  \<open>create_upload_session\<close>, \<open>get_upload_session\<close>, \<open>abort_upload_session\<close> and \<open>finalize_upload\<close>. The long
  body of \<open>finalize_upload\<close> is split at its paragraphs: the answer to a retry of a committed session, the
  checks of the submitted layout against the session, the replica check of each distinct chunk, the
  registration of object and layout, the insertion of the version, and the two writes that commit the
  session. Digests are computed by the parameter \<open>H\<close>; \<open>now\<close> is the transaction's time stamp.

  The lemmas show what a successful finalization leaves in the database, and that repeating the call
  returns the same result and writes nothing.
\<close>

subsection \<open>Loading sessions\<close>

definition reconstruct_upload_session :: "database \<Rightarrow> session_row \<Rightarrow> upload_session res" where
  "reconstruct_upload_session db stored =
     (if s_replication_factor stored < 1 \<or> 8 < s_replication_factor stored then Inl Runtime_error
      else
        let placement_node_ids = load_upload_session_placement_nodes db (s_session_id stored)
        in if placement_node_ids = [] then Inl Runtime_error
           else if hd placement_node_ids \<noteq> s_target_node_id stored then Inl Runtime_error
           else
             let replication_factor = word_of_int (s_replication_factor stored);
                 immutable_metadata = owner_map (upload_session_metadata db) (s_session_id stored)
             in if s_chunking_strategy stored = FixedSize
                then (case s_chunk_size_bytes stored of
                        None \<Rightarrow> Inl Runtime_error
                      | Some chunk_size \<Rightarrow>
                          if chunk_size \<le> 0 \<or> s_fastcdc_min stored \<noteq> None \<or> s_fastcdc_avg stored \<noteq> None \<or>
                             s_fastcdc_max stored \<noteq> None
                          then Inl Runtime_error
                          else rbind (uuid_v7 (s_session_id stored)) (\<lambda>session_id.
                               rbind (uuid_v7 (s_artifact_id stored)) (\<lambda>artifact_id.
                               upload_session_fixed session_id artifact_id replication_factor placement_node_ids
                                 (s_chunking_strategy stored) (word_of_int chunk_size) (s_parent_version_id stored)
                                 immutable_metadata (s_state stored) (s_finalized_version_id stored))))
                else if s_chunk_size_bytes stored \<noteq> None then Inl Runtime_error
                else (case (s_fastcdc_min stored, s_fastcdc_avg stored, s_fastcdc_max stored) of
                        (Some mn, Some av, Some mx) \<Rightarrow>
                          rbind (uuid_v7 (s_session_id stored)) (\<lambda>session_id.
                          rbind (uuid_v7 (s_artifact_id stored)) (\<lambda>artifact_id.
                          upload_session_fastcdc session_id artifact_id replication_factor placement_node_ids
                            \<lparr>min_chunk_size_bytes = word_of_int mn, avg_chunk_size_bytes = word_of_int av,
                             max_chunk_size_bytes = word_of_int mx\<rparr> (s_parent_version_id stored)
                            immutable_metadata (s_state stored) (s_finalized_version_id stored)))
                      | _ \<Rightarrow> Inl Runtime_error))"

definition session_rows :: "database \<Rightarrow> string \<Rightarrow> session_row list" where
  "session_rows db session_id = filter (\<lambda>s. s_session_id s = session_id) (upload_sessions db)"

definition load_upload_session :: "database \<Rightarrow> string \<Rightarrow> upload_session res" where
  "load_upload_session db session_id =
     rbind (query01 (session_rows db session_id)) (\<lambda>stored.
     case stored of None \<Rightarrow> Inl Runtime_error | Some row \<Rightarrow> reconstruct_upload_session db row)"

definition get_upload_session :: "database \<Rightarrow> string \<Rightarrow> upload_session option res" where
  "get_upload_session db session_id =
     rbind (query01 (session_rows db session_id)) (\<lambda>stored.
     case stored of
       None \<Rightarrow> Inr None
     | Some row \<Rightarrow> rbind (reconstruct_upload_session db row) (\<lambda>session. Inr (Some session)))"

subsection \<open>Creating and aborting sessions\<close>

definition check_placement_node :: "database \<Rightarrow> string \<Rightarrow> unit res" where
  "check_placement_node db placement_node_id =
     rbind (query01 (map n_state (filter (\<lambda>n. n_node_id n = placement_node_id) (storage_nodes db)))) (\<lambda>stored_state.
     case stored_state of
       None \<Rightarrow> Inl Invalid_argument
     | Some state \<Rightarrow> if state \<noteq> Active then Inl Invalid_argument else Inr ())"

definition insert_session_row :: "database \<Rightarrow> session_row \<Rightarrow> database res" where
  "insert_session_row db row =
     (if session_rows db (s_session_id row) \<noteq> [] then Inl Unique_violation
      else if \<not> has_artifact db (s_artifact_id row) then Inl Foreign_key_violation
      else if (case s_parent_version_id row of
                 Some parent \<Rightarrow> \<not> has_artifact_version db (s_artifact_id row) parent | None \<Rightarrow> False)
      then Inl Foreign_key_violation
      else Inr (db\<lparr>upload_sessions := upload_sessions db @ [row]\<rparr>))"

definition insert_upload_session :: "database \<Rightarrow> upload_session \<Rightarrow> database res" where
  "insert_upload_session db session =
     rbind (optional_bigint (us_fixed_chunk_size_bytes session)) (\<lambda>chunk_size_param.
     rbind (optional_bigint (map_option min_chunk_size_bytes (us_fastcdc_parameters session))) (\<lambda>fastcdc_min.
     rbind (optional_bigint (map_option avg_chunk_size_bytes (us_fastcdc_parameters session))) (\<lambda>fastcdc_avg.
     rbind (optional_bigint (map_option max_chunk_size_bytes (us_fastcdc_parameters session))) (\<lambda>fastcdc_max.
     rbind (insert_session_row db
              \<lparr>s_session_id = us_session_id session, s_artifact_id = us_artifact_id session,
               s_target_node_id = us_target_node_id session,
               s_replication_factor = uint (us_replication_factor session),
               s_chunking_strategy = us_chunking_strategy session, s_chunk_size_bytes = chunk_size_param,
               s_fastcdc_min = fastcdc_min, s_fastcdc_avg = fastcdc_avg, s_fastcdc_max = fastcdc_max,
               s_parent_version_id = us_parent_version_id session, s_state = us_state session,
               s_finalized_version_id = us_finalized_version_id session\<rparr>) (\<lambda>db.
     rbind (fold_res (insert_rank_row (us_session_id session))
              (zip [0..<length (us_placement_node_ids session)] (us_placement_node_ids session))
              (upload_session_nodes db)) (\<lambda>node_rows.
     rbind (fold_res (insert_text_row (us_session_id session)) (us_immutable_metadata session)
              (upload_session_metadata db)) (\<lambda>metadata_rows.
     Inr (db\<lparr>upload_session_nodes := node_rows, upload_session_metadata := metadata_rows\<rparr>))))))))"

definition create_upload_session :: "database \<Rightarrow> upload_session \<Rightarrow> database res" where
  "create_upload_session db session =
     (if us_state session \<noteq> SessionOpen then Inl Invalid_argument
      else if us_finalized_version_id session \<noteq> None then Inl Invalid_argument
      else if gc_in_progress db then Inl (Gc_error GcInProgress)
      else
        rbind (query01 (session_rows db (us_session_id session))) (\<lambda>existing_session.
        case existing_session of
          Some row \<Rightarrow>
            rbind (load_upload_session db (us_session_id session)) (\<lambda>existing.
            if us_state existing \<noteq> SessionOpen \<or> us_finalized_version_id existing \<noteq> None \<or>
               \<not> upload_session_identity_matches existing session
            then Inl Runtime_error else Inr db)
        | None \<Rightarrow>
            rbind (check_all (check_placement_node db) (us_placement_node_ids session)) (\<lambda>_.
            rbind (insert_upload_session db session) (\<lambda>db.
            rbind (load_upload_session db (us_session_id session)) (\<lambda>verified.
            if \<not> upload_session_identity_matches verified session \<or> us_state verified \<noteq> SessionOpen \<or>
               us_finalized_version_id verified \<noteq> None
            then Inl Runtime_error else Inr db)))))"

definition abort_upload_session :: "database \<Rightarrow> string \<Rightarrow> database res" where
  "abort_upload_session db session_id =
     rbind (query01 (map s_state (session_rows db session_id))) (\<lambda>stored.
     case stored of
       None \<Rightarrow> Inl Runtime_error
     | Some current_state \<Rightarrow>
         if current_state = SessionCommitted then Inl Runtime_error
         else if current_state = SessionOpen
         then Inr (db\<lparr>upload_sessions :=
                map (\<lambda>s. if s_session_id s = session_id then s\<lparr>s_state := SessionAborted\<rparr> else s) (upload_sessions db)\<rparr>)
         else Inr db)"

subsection \<open>Finalization\<close>

record finalize_upload_result =
  fr_session_id :: string
  fr_version_id :: string
  fr_object_id :: string
  fr_layout_id :: string

definition finalize_result :: "string \<Rightarrow> artifact_version \<Rightarrow> object_layout_descriptor \<Rightarrow> finalize_upload_result" where
  "finalize_result session_id version descriptor =
     \<lparr>fr_session_id = session_id, fr_version_id = av_version_id version,
      fr_object_id = obj_object_id (ld_object descriptor), fr_layout_id = ld_layout_id descriptor\<rparr>"

abbreviation finalize_conflict :: exn where
  "finalize_conflict \<equiv> Finalize_upload_error Conflict None"

text \<open>The branch for a session that is already committed: the retry must match what was committed.\<close>

definition finalize_committed_retry ::
  "hash \<Rightarrow> database \<Rightarrow> string \<Rightarrow> upload_session \<Rightarrow> artifact_version \<Rightarrow> object_layout_descriptor \<Rightarrow>
   finalize_upload_result res" where
  "finalize_committed_retry H db session_id session version descriptor =
     (case us_finalized_version_id session of
        None \<Rightarrow> Inl finalize_conflict
      | Some finalized_version_id \<Rightarrow>
          if is_version_retired db finalized_version_id then Inl (Finalize_upload_error FinalizeVersionRetired None)
          else
            rbind (query01 (map f_layout_id
                (filter (\<lambda>f. f_session_id f = session_id) (upload_session_finalizations db)))) (\<lambda>finalized_layout.
            if finalized_layout \<noteq> Some (Some (ld_layout_id descriptor)) \<or>
               finalized_version_id \<noteq> av_version_id version
            then Inl finalize_conflict
            else
              rbind (query01 (map o_total_size_bytes
                  (filter (\<lambda>ob. o_object_id ob = obj_object_id (ld_object descriptor)) (objects db)))) (\<lambda>stored_object_size.
              case stored_object_size of
                None \<Rightarrow> Inl finalize_conflict
              | Some stored_size \<Rightarrow>
                  rbind (to_postgres_bigint (obj_total_size (ld_object descriptor))) (\<lambda>total_size.
                  if stored_size \<noteq> total_size then Inl finalize_conflict
                  else
                    rbind (case load_object_layout H db (ld_layout_id descriptor) of
                             Inl e \<Rightarrow> if is_runtime_error e then Inl finalize_conflict else Inl e
                           | Inr stored_layout \<Rightarrow> Inr stored_layout) (\<lambda>stored_layout.
                    case stored_layout of
                      None \<Rightarrow> Inl finalize_conflict
                    | Some stored \<Rightarrow>
                        if obj_object_id (ld_object stored) \<noteq> obj_object_id (ld_object descriptor) \<or>
                           ld_chunking_strategy stored \<noteq> ld_chunking_strategy descriptor \<or>
                           ld_canonical_bytes stored \<noteq> ld_canonical_bytes descriptor
                        then Inl finalize_conflict
                        else rbind (artifact_version_identity_matches db version) (\<lambda>matches.
                             if \<not> matches then Inl finalize_conflict
                             else Inr (finalize_result session_id version descriptor)))))))"

text \<open>The chunk sizes of the submitted layout against the session's chunking configuration.\<close>

definition check_finalize_layout :: "upload_session \<Rightarrow> object_layout_descriptor \<Rightarrow> unit res" where
  "check_finalize_layout session descriptor =
     (let refs = ol_chunks (ld_layout descriptor)
      in if ld_chunking_strategy descriptor \<noteq> us_chunking_strategy session then Inl Invalid_argument
         else
           rbind (if refs \<noteq> [] \<and> us_chunking_strategy session = FixedSize
                  then rbind (check_all (\<lambda>index.
                                rbind (us_chunk_size_bytes session) (\<lambda>chunk_size.
                                if cr_size (refs ! index) \<noteq> chunk_size then Inl Invalid_argument else Inr ()))
                              [0..<length refs - 1]) (\<lambda>_.
                       let final_size = cr_size (last refs)
                       in rbind (us_chunk_size_bytes session) (\<lambda>chunk_size.
                          if final_size = 0 \<or> final_size > chunk_size then Inl Invalid_argument else Inr ()))
                  else Inr ()) (\<lambda>_.
           if refs \<noteq> [] \<and> us_chunking_strategy session = FastCdc
           then (case (us_fastcdc_parameters session, ld_fastcdc_parameters descriptor) of
                   (Some params, Some submitted) \<Rightarrow>
                     if params \<noteq> submitted then Inl Invalid_argument
                     else rbind (check_all (\<lambda>index.
                                   let chunk_size = cr_size (refs ! index)
                                   in if chunk_size < min_chunk_size_bytes params \<or> chunk_size > max_chunk_size_bytes params
                                      then Inl Invalid_argument else Inr ())
                                 [0..<length refs - 1]) (\<lambda>_.
                          let final_size = cr_size (last refs)
                          in if final_size = 0 \<or> final_size > max_chunk_size_bytes params
                             then Inl Invalid_argument else Inr ())
                 | _ \<Rightarrow> Inl Invalid_argument)
           else Inr ()))"

definition collect_layout_chunk :: "chunk_ref \<Rightarrow> (string \<times> u64) list \<Rightarrow> (string \<times> u64) list res" where
  "collect_layout_chunk chunk unique_chunks =
     (case emplace (cr_chunk_id chunk) (cr_size chunk) unique_chunks of
        (unique_chunks, existing, inserted) \<Rightarrow>
          if \<not> inserted \<and> existing \<noteq> cr_size chunk
          then Inl (Finalize_upload_error Conflict (Some (cr_chunk_id chunk)))
          else Inr unique_chunks)"

text \<open>A distinct chunk must be stored with its size and be available on every desired replica node.\<close>

definition check_chunk_replicas :: "hash \<Rightarrow> database \<Rightarrow> upload_session \<Rightarrow> string \<times> u64 \<Rightarrow> unit res" where
  "check_chunk_replicas H db session chunk =
     (case chunk of (chunk_id, chunk_size) \<Rightarrow>
        rbind (query01 (stored_chunk_sizes db chunk_id)) (\<lambda>stored_chunk.
        case stored_chunk of
          None \<Rightarrow> Inl (Finalize_upload_error Conflict (Some chunk_id))
        | Some stored_size \<Rightarrow>
            rbind (to_postgres_bigint chunk_size) (\<lambda>expected_size.
            if stored_size \<noteq> expected_size then Inl (Finalize_upload_error Conflict (Some chunk_id))
            else
              rbind (select_replica_nodes H chunk_id (us_placement_node_ids session)
                       (unat (us_replication_factor session))) (\<lambda>desired_node_ids.
              check_all (\<lambda>desired_node_id.
                rbind (query01 (map sl_state (filter (\<lambda>l. sl_chunk_id l = chunk_id \<and> sl_node_id l = desired_node_id)
                         (storage_locations db)))) (\<lambda>stored_location.
                if stored_location \<noteq> Some Available
                then Inl (Finalize_upload_error ChunkUnderReplicated (Some chunk_id)) else Inr ()))
                desired_node_ids))))"

definition register_finalized_layout :: "database \<Rightarrow> object_layout_descriptor \<Rightarrow> database res" where
  "register_finalized_layout db descriptor =
     (case rbind (register_object_in_transaction db (ld_object descriptor)) (\<lambda>db.
           register_object_layout_in_transaction db descriptor) of
        Inl e \<Rightarrow> if is_runtime_error e then Inl finalize_conflict else Inl e
      | Inr db \<Rightarrow> Inr db)"

definition finalize_version :: "database \<Rightarrow> int \<Rightarrow> artifact_version \<Rightarrow> database res" where
  "finalize_version db now version =
     (if \<not> has_version db (av_version_id version)
      then rbind (insert_version_row db (version_row_of now version)) (\<lambda>db. insert_version_metadata db version)
      else
        rbind (artifact_version_identity_matches db version) (\<lambda>matches.
        if \<not> matches then Inl finalize_conflict
        else if 1 < length (filter (\<lambda>v. v_version_id v = av_version_id version \<and> v_state v \<noteq> VersionCommitted)
                    (artifact_versions db))
        then Inl Runtime_error
        else Inr (db\<lparr>artifact_versions :=
               map (\<lambda>v. if v_version_id v = av_version_id version \<and> v_state v \<noteq> VersionCommitted
                        then v\<lparr>v_state := VersionCommitted\<rparr> else v) (artifact_versions db)\<rparr>)))"

definition insert_finalization :: "database \<Rightarrow> string \<Rightarrow> string \<Rightarrow> database res" where
  "insert_finalization db session_id layout_id =
     (if \<exists>f \<in> set (upload_session_finalizations db). f_session_id f = session_id then Inl finalize_conflict
      else if session_rows db session_id = [] then Inl Foreign_key_violation
      else if \<not> has_layout db layout_id then Inl Foreign_key_violation
      else Inr (db\<lparr>upload_session_finalizations := upload_session_finalizations db @
             [\<lparr>f_session_id = session_id, f_layout_id = Some layout_id\<rparr>]\<rparr>))"

definition commit_session_row :: "database \<Rightarrow> string \<Rightarrow> string \<Rightarrow> database res" where
  "commit_session_row db session_id version_id =
     (if length (session_rows db session_id) \<noteq> 1 then Inl Runtime_error
      else if \<exists>s \<in> set (session_rows db session_id). \<not> has_artifact_version db (s_artifact_id s) version_id
      then Inl Foreign_key_violation
      else Inr (db\<lparr>upload_sessions :=
             map (\<lambda>s. if s_session_id s = session_id
                      then s\<lparr>s_state := SessionCommitted, s_finalized_version_id := Some version_id\<rparr> else s)
               (upload_sessions db)\<rparr>))"

definition finalize_upload ::
  "hash \<Rightarrow> database \<Rightarrow> int \<Rightarrow> string \<Rightarrow> object_layout_descriptor \<Rightarrow> (database \<times> finalize_upload_result) res" where
  "finalize_upload H db now session_id descriptor =
     rbind (query01 (session_rows db session_id)) (\<lambda>stored.
     case stored of
       None \<Rightarrow> Inl (Finalize_upload_error SessionNotFound None)
     | Some row \<Rightarrow>
         rbind (reconstruct_upload_session db row) (\<lambda>session.
         rbind (artifact_version_new H (us_artifact_id session) (obj_object_id (ld_object descriptor))
                  (us_parent_version_id session) (us_immutable_metadata session) VersionCommitted) (\<lambda>version.
         if us_state session = SessionAborted then Inl (Finalize_upload_error SessionNotOpen None)
         else if is_version_retired db (av_version_id version)
         then Inl (Finalize_upload_error FinalizeVersionRetired None)
         else if us_state session = SessionCommitted
         then rbind (finalize_committed_retry H db session_id session version descriptor) (\<lambda>result. Inr (db, result))
         else
           rbind (check_finalize_layout session descriptor) (\<lambda>_.
           rbind (fold_res collect_layout_chunk (ol_chunks (ld_layout descriptor)) []) (\<lambda>unique_chunks.
           rbind (check_all (check_chunk_replicas H db session) unique_chunks) (\<lambda>_.
           rbind (register_finalized_layout db descriptor) (\<lambda>db.
           rbind (finalize_version db now version) (\<lambda>db.
           rbind (insert_finalization db session_id (ld_layout_id descriptor)) (\<lambda>db.
           rbind (commit_session_row db session_id (av_version_id version)) (\<lambda>db.
           Inr (db, finalize_result session_id version descriptor)))))))))))"

subsection \<open>Registration only adds catalog rows\<close>

definition catalog_grows :: "database \<Rightarrow> database \<Rightarrow> bool" where
  "catalog_grows db db' \<longleftrightarrow>
     (\<exists>os cs ls rs. db' = db\<lparr>objects := objects db @ os, chunks := chunks db @ cs,
        object_layouts := object_layouts db @ ls, object_layout_chunks := object_layout_chunks db @ rs\<rparr>)"

lemma catalog_growsI:
  "catalog_grows db (db\<lparr>objects := objects db @ os, chunks := chunks db @ cs,
     object_layouts := object_layouts db @ ls, object_layout_chunks := object_layout_chunks db @ rs\<rparr>)"
  unfolding catalog_grows_def by blast

lemma catalog_grows_single:
  "catalog_grows db (db\<lparr>objects := objects db @ os\<rparr>)"
  "catalog_grows db (db\<lparr>chunks := chunks db @ cs\<rparr>)"
  "catalog_grows db (db\<lparr>object_layouts := object_layouts db @ ls\<rparr>)"
  "catalog_grows db (db\<lparr>object_layout_chunks := object_layout_chunks db @ rs\<rparr>)"
  using catalog_growsI [where db = db and os = os and cs = "[]" and ls = "[]" and rs = "[]"]
    catalog_growsI [where db = db and os = "[]" and cs = cs and ls = "[]" and rs = "[]"]
    catalog_growsI [where db = db and os = "[]" and cs = "[]" and ls = ls and rs = "[]"]
    catalog_growsI [where db = db and os = "[]" and cs = "[]" and ls = "[]" and rs = rs]
  by simp_all

lemma catalog_grows_refl: "catalog_grows db db"
  using catalog_grows_single(1) [of db "[]"] by simp

lemma catalog_grows_trans: "catalog_grows db db1 \<Longrightarrow> catalog_grows db1 db2 \<Longrightarrow> catalog_grows db db2"
  unfolding catalog_grows_def by fastforce

lemma adds_chunks_catalog: "adds_chunks db db' \<Longrightarrow> catalog_grows db db'"
  by (auto simp: adds_chunks_def catalog_grows_single)

lemma register_object_ok:
  assumes "register_object_in_transaction db ob = Inr db'"
  shows "catalog_grows db db'"
    and "map o_total_size_bytes (filter (\<lambda>x. o_object_id x = obj_object_id ob) (objects db')) =
         [uint (obj_total_size ob)]"
    and "unat (obj_total_size ob) < 2 ^ 63"
proof -
  show "map o_total_size_bytes (filter (\<lambda>x. o_object_id x = obj_object_id ob) (objects db')) =
         [uint (obj_total_size ob)]"
    and "unat (obj_total_size ob) < 2 ^ 63"
    using assms
    by (auto simp: register_object_in_transaction_def rbind_eq_Inr to_postgres_bigint_ok Let_def query_value_Inr
        split: if_splits)
  have "db' = db \<or> db' = db\<lparr>objects := objects db @
      [\<lparr>o_object_id = obj_object_id ob, o_total_size_bytes = uint (obj_total_size ob)\<rparr>]\<rparr>"
    using assms
    by (auto simp: register_object_in_transaction_def rbind_eq_Inr to_postgres_bigint_ok Let_def split: if_splits)
  then show "catalog_grows db db'" by (auto simp: catalog_grows_refl catalog_grows_single)
qed

lemma fold_res_relation:
  assumes "\<And>x s t. f x s = Inr t \<Longrightarrow> R s t" and "\<And>s. R s s" and "\<And>s t u. R s t \<Longrightarrow> R t u \<Longrightarrow> R s u"
  shows "fold_res f xs s = Inr t \<Longrightarrow> R s t"
proof (induction xs arbitrary: s)
  case (Cons x xs)
  then obtain mid where "f x s = Inr mid" "fold_res f xs mid = Inr t" by (auto simp: rbind_eq_Inr)
  with Cons.IH assms show ?case by blast
qed (simp add: assms(2))

lemma insert_layout_chunk_grows: "insert_layout_chunk lid ic db = Inr db' \<Longrightarrow> catalog_grows db db'"
  by (auto simp: insert_layout_chunk_def rbind_eq_Inr catalog_grows_single split: if_splits)

lemma insert_object_layout_grows: "insert_object_layout db row = Inr (db', n) \<Longrightarrow> catalog_grows db db'"
  by (auto simp: insert_object_layout_def catalog_grows_refl catalog_grows_single split: if_splits)

lemma insert_object_layout_objects: "insert_object_layout db row = Inr (db', n) \<Longrightarrow> objects db' = objects db"
  by (auto simp: insert_object_layout_def split: if_splits)

lemma insert_layout_chunk_objects: "insert_layout_chunk lid ic db = Inr db' \<Longrightarrow> objects db' = objects db"
  by (auto simp: insert_layout_chunk_def rbind_eq_Inr split: if_splits)

lemma ensure_chunk_objects: "ensure_chunk c n db = Inr db' \<Longrightarrow> objects db' = objects db"
  using ensure_chunk_adds [of c n db db'] by (auto simp: adds_chunks_def)

lemma register_layout_steps:
  assumes "register_object_layout_in_transaction db d = Inr db'"
  obtains db1 db2 n row where
    "fold_res (\<lambda>chunk. ensure_chunk (cr_chunk_id chunk) (cr_size chunk)) (ol_chunks (ld_layout d)) db = Inr db1"
    and "layout_row_of d = Inr row" and "insert_object_layout db1 row = Inr (db2, n)"
    and "(if n = 1 then fold_res (insert_layout_chunk (ld_layout_id d))
            (zip [0..<length (ol_chunks (ld_layout d))] (ol_chunks (ld_layout d))) db2 else Inr db2) = Inr db'"
  using assms unfolding register_object_layout_in_transaction_def Let_def run_simps
  by (elim exE conjE) (hypsubst, rule that, assumption+)

lemma register_layout_ok:
  assumes "register_object_layout_in_transaction db d = Inr db'"
  shows "catalog_grows db db'" and "objects db' = objects db"
proof -
  obtain db1 db2 n row where
    1: "fold_res (\<lambda>chunk. ensure_chunk (cr_chunk_id chunk) (cr_size chunk)) (ol_chunks (ld_layout d)) db = Inr db1"
    and 2: "insert_object_layout db1 row = Inr (db2, n)"
    and 3: "(if n = 1 then fold_res (insert_layout_chunk (ld_layout_id d))
            (zip [0..<length (ol_chunks (ld_layout d))] (ol_chunks (ld_layout d))) db2 else Inr db2) = Inr db'"
    by (rule register_layout_steps [OF assms])
  have "catalog_grows db db1"
    by (rule fold_res_relation [OF _ catalog_grows_refl catalog_grows_trans 1])
      (rule adds_chunks_catalog, rule ensure_chunk_adds)
  moreover have "catalog_grows db1 db2" using 2 by (rule insert_object_layout_grows)
  moreover have "catalog_grows db2 db'"
  proof (cases "n = 1")
    case True
    with 3 have f: "fold_res (insert_layout_chunk (ld_layout_id d))
        (zip [0..<length (ol_chunks (ld_layout d))] (ol_chunks (ld_layout d))) db2 = Inr db'" by simp
    show ?thesis
      by (rule fold_res_relation [OF insert_layout_chunk_grows catalog_grows_refl catalog_grows_trans f])
  qed (use 3 catalog_grows_refl in simp)
  ultimately show "catalog_grows db db'" by (blast intro: catalog_grows_trans)
  have "objects db1 = objects db"
    by (rule fold_res_relation [where R = "\<lambda>s t. objects t = objects s", OF _ _ _ 1])
      (simp_all add: ensure_chunk_objects)
  moreover have "objects db2 = objects db1" using 2 by (rule insert_object_layout_objects)
  moreover have "objects db' = objects db2"
  proof (cases "n = 1")
    case True
    with 3 have f: "fold_res (insert_layout_chunk (ld_layout_id d))
        (zip [0..<length (ol_chunks (ld_layout d))] (ol_chunks (ld_layout d))) db2 = Inr db'" by simp
    show ?thesis
      by (rule fold_res_relation [where R = "\<lambda>s t. objects t = objects s", OF _ _ _ f])
        (simp_all add: insert_layout_chunk_objects)
  qed (use 3 in simp)
  ultimately show "objects db' = objects db" by simp
qed

lemma register_finalized_ok:
  assumes "register_finalized_layout db d = Inr db'"
  shows "catalog_grows db db'"
    and "map o_total_size_bytes (filter (\<lambda>x. o_object_id x = obj_object_id (ld_object d)) (objects db')) =
         [uint (obj_total_size (ld_object d))]"
    and "unat (obj_total_size (ld_object d)) < 2 ^ 63"
    and "verify_registered_object_layout db' d = Inr ()"
proof -
  from assms obtain db1 where 1: "register_object_in_transaction db (ld_object d) = Inr db1"
    and 2: "register_object_layout_in_transaction db1 d = Inr db'"
    by (auto simp: register_finalized_layout_def rbind_eq_Inr split: sum.splits if_splits)
  show "catalog_grows db db'"
    using register_object_ok(1) [OF 1] register_layout_ok(1) [OF 2] by (rule catalog_grows_trans)
  show "map o_total_size_bytes (filter (\<lambda>x. o_object_id x = obj_object_id (ld_object d)) (objects db')) =
         [uint (obj_total_size (ld_object d))]"
    unfolding register_layout_ok(2) [OF 2] by (rule register_object_ok(2) [OF 1])
  show "unat (obj_total_size (ld_object d)) < 2 ^ 63" by (rule register_object_ok(3) [OF 1])
  show "verify_registered_object_layout db' d = Inr ()" using 2 by (rule register_layout_verified)
qed

subsection \<open>A successful finalization\<close>

lemma query01_single: "query01 [r] = Inr (Some r)"
  by (simp add: query01_def)

lemma load_upload_session_row:
  assumes "load_upload_session db sid = Inr session"
  obtains row where "session_rows db sid = [row]" and "reconstruct_upload_session db row = Inr session"
  using assms that unfolding load_upload_session_def run_simps by (auto simp: query01_Some)

text \<open>The run of \<open>finalize_upload\<close> on an open session, taken apart.\<close>

lemma finalize_open_steps:
  assumes fin: "finalize_upload H db now sid d = Inr (db', r)"
    and session: "load_upload_session db sid = Inr session" and "open": "us_state session = SessionOpen"
  obtains version uniq db1 db2 db3 where
    "artifact_version_new H (us_artifact_id session) (obj_object_id (ld_object d)) (us_parent_version_id session)
       (us_immutable_metadata session) VersionCommitted = Inr version"
    and "\<not> is_version_retired db (av_version_id version)"
    and "check_finalize_layout session d = Inr ()"
    and "fold_res collect_layout_chunk (ol_chunks (ld_layout d)) [] = Inr uniq"
    and "check_all (check_chunk_replicas H db session) uniq = Inr ()"
    and "register_finalized_layout db d = Inr db1"
    and "finalize_version db1 now version = Inr db2"
    and "insert_finalization db2 sid (ld_layout_id d) = Inr db3"
    and "commit_session_row db3 sid (av_version_id version) = Inr db'"
    and "r = finalize_result sid version d"
proof -
  obtain row where row: "session_rows db sid = [row]" and rec: "reconstruct_upload_session db row = Inr session"
    by (rule load_upload_session_row [OF session])
  have ne: "(us_state session = SessionAborted) = False" "(us_state session = SessionCommitted) = False"
    using "open" by simp_all
  show thesis
    using fin
    unfolding finalize_upload_def row query01_single rbind_simps option.case rec ne if_False run_simps old.unit.split
    by (elim exE conjE) (simp only: prod.inject, rule that, assumption+, simp_all)
qed

text \<open>Distinct chunks: every chunk of the layout is in the map with its size.\<close>

lemma collect_layout_chunk_ok:
  assumes "fold_res collect_layout_chunk cs m = Inr m'"
  shows "(\<forall>k v. map_of m k = Some v \<longrightarrow> map_of m' k = Some v) \<and>
    (\<forall>c \<in> set cs. map_of m' (cr_chunk_id c) = Some (cr_size c))"
  using assms
proof (induction cs arbitrary: m)
  case (Cons c cs)
  then obtain m1 where step: "collect_layout_chunk c m = Inr m1" and rest: "fold_res collect_layout_chunk cs m1 = Inr m'"
    by (auto simp: rbind_eq_Inr)
  obtain n w ins where em: "emplace (cr_chunk_id c) (cr_size c) m = (n, w, ins)" by (cases rule: prod_cases3)
  have m1: "m1 = n" "ins \<or> w = cr_size c"
    using step em by (auto simp: collect_layout_chunk_def split: if_splits)
  then have "map_of m1 (cr_chunk_id c) = Some (cr_size c)" "\<forall>k v. map_of m k = Some v \<longrightarrow> map_of m1 k = Some v"
    using map_of_emplace [OF em] by (auto split: if_splits)
  with Cons.IH [OF rest] show ?case by auto
qed simp

lemma check_chunk_replicas_ok:
  assumes "check_chunk_replicas H db session (c, n) = Inr u"
  shows "stored_chunk_sizes db c = [uint n] \<and>
    (\<exists>sel. select_replica_nodes H c (us_placement_node_ids session) (unat (us_replication_factor session)) = Inr sel \<and>
       (\<forall>node \<in> set sel. map sl_state (filter (\<lambda>l. sl_chunk_id l = c \<and> sl_node_id l = node) (storage_locations db)) =
          [Available]))"
  using assms
  by (auto simp: check_chunk_replicas_def run_simps check_all_ok query01_Some to_postgres_bigint_ok)

lemma finalize_version_frame:
  assumes "finalize_version db now version = Inr db'"
  shows "\<exists>vs ms. db' = db\<lparr>artifact_versions := vs, artifact_version_metadata := ms\<rparr>"
proof (cases "has_version db (av_version_id version)")
  case True
  with assms have "\<exists>vs. db' = db\<lparr>artifact_versions := vs\<rparr>"
    by (auto simp: finalize_version_def run_simps)
  then obtain vs where "db' = db\<lparr>artifact_versions := vs\<rparr>" ..
  then have "db' = db\<lparr>artifact_versions := vs, artifact_version_metadata := artifact_version_metadata db\<rparr>" by simp
  then show ?thesis by blast
next
  case False
  with assms obtain dbv where v: "insert_version_row db (version_row_of now version) = Inr dbv"
    and m: "insert_version_metadata dbv version = Inr db'"
    by (auto simp: finalize_version_def rbind_eq_Inr)
  have "\<exists>vs. dbv = db\<lparr>artifact_versions := vs\<rparr>"
    using v by (auto simp: insert_version_row_def split: if_splits option.splits)
  moreover have "\<exists>ms. db' = dbv\<lparr>artifact_version_metadata := ms\<rparr>"
    using m by (auto simp: insert_version_metadata_def rbind_eq_Inr)
  ultimately show ?thesis by auto
qed

lemma artifact_version_new_state:
  "artifact_version_new H a r p m st = Inr v \<Longrightarrow>
   av_artifact_id v = a \<and> av_root_object_id v = r \<and> av_parent_version_id v = p \<and> av_immutable_metadata v = m \<and>
   av_state v = st"
  by (auto simp: artifact_version_new_def rbind_eq_Inr)

lemma finalize_version_committed:
  assumes "finalize_version db now version = Inr db'" and "av_state version = VersionCommitted"
  shows "\<exists>v \<in> set (artifact_versions db'). v_version_id v = av_version_id version \<and>
    v_artifact_id v = av_artifact_id version \<and>
    v_root_object_id v = av_root_object_id version \<and> v_state v = VersionCommitted"
proof (cases "has_version db (av_version_id version)")
  case True
  with assms have m: "artifact_version_identity_matches db version = Inr True"
    and db': "db' = db\<lparr>artifact_versions :=
      map (\<lambda>v. if v_version_id v = av_version_id version \<and> v_state v \<noteq> VersionCommitted
               then v\<lparr>v_state := VersionCommitted\<rparr> else v) (artifact_versions db)\<rparr>"
    by (auto simp: finalize_version_def run_simps)
  from m True obtain row where "filter (\<lambda>v. v_version_id v = av_version_id version) (artifact_versions db) = [row]"
    and row: "v_version_id row = av_version_id version" "v_root_object_id row = av_root_object_id version"
      "v_artifact_id row = av_artifact_id version"
    by (auto simp: artifact_version_identity_matches_def rbind_eq_Inr query01_def has_version_def filter_empty_conv
        split: list.splits if_splits)
  then have "row \<in> set (artifact_versions db)"    by (metis (mono_tags, lifting) list.set_intros(1) mem_Collect_eq set_filter)
  moreover define row' where "row' = (if v_state row \<noteq> VersionCommitted then row\<lparr>v_state := VersionCommitted\<rparr> else row)"
  ultimately have "row' \<in> set (artifact_versions db')"
    unfolding db' using row by (auto simp: image_iff intro!: bexI [of _ row])
  moreover have "v_version_id row' = av_version_id version \<and> v_artifact_id row' = av_artifact_id version \<and>
      v_root_object_id row' = av_root_object_id version \<and> v_state row' = VersionCommitted"
    using row by (simp add: row'_def)
  ultimately show ?thesis by blast
next
  case False
  with assms(1) obtain dbv where v: "insert_version_row db (version_row_of now version) = Inr dbv"
    and m: "insert_version_metadata dbv version = Inr db'"
    by (auto simp: finalize_version_def rbind_eq_Inr)
  have "version_row_of now version \<in> set (artifact_versions dbv)"
    using v by (auto simp: insert_version_row_def split: if_splits option.splits)
  moreover have "artifact_versions db' = artifact_versions dbv"
    using m by (auto simp: insert_version_metadata_def rbind_eq_Inr)
  ultimately show ?thesis
    using assms(2) by (intro bexI [of _ "version_row_of now version"]) (simp_all add: version_row_of_def)
qed

lemma verify_layout_cong:
  "object_layouts db' = object_layouts db \<Longrightarrow> object_layout_chunks db' = object_layout_chunks db \<Longrightarrow>
   verify_registered_object_layout db' d = verify_registered_object_layout db d"
  unfolding verify_registered_object_layout_def layout_rows_def by (simp only:)

lemma insert_finalization_ok:
  "insert_finalization db sid lid = Inr db' \<Longrightarrow>
   (\<forall>f \<in> set (upload_session_finalizations db). f_session_id f \<noteq> sid) \<and>
   db' = db\<lparr>upload_session_finalizations := upload_session_finalizations db @
     [\<lparr>f_session_id = sid, f_layout_id = Some lid\<rparr>]\<rparr>"
  by (auto simp: insert_finalization_def split: if_splits)

lemma commit_session_row_ok:
  assumes "commit_session_row db sid vid = Inr db'"
  obtains row where "session_rows db sid = [row]" and
    "db' = db\<lparr>upload_sessions := map (\<lambda>s. if s_session_id s = sid
        then s\<lparr>s_state := SessionCommitted, s_finalized_version_id := Some vid\<rparr> else s) (upload_sessions db)\<rparr>"
    and "session_rows db' sid = [row\<lparr>s_state := SessionCommitted, s_finalized_version_id := Some vid\<rparr>]"
proof -
  from assms have len: "length (session_rows db sid) = 1"
    and db': "db' = db\<lparr>upload_sessions := map (\<lambda>s. if s_session_id s = sid
        then s\<lparr>s_state := SessionCommitted, s_finalized_version_id := Some vid\<rparr> else s) (upload_sessions db)\<rparr>"
    by (auto simp: commit_session_row_def split: if_splits)
  then obtain row where row: "session_rows db sid = [row]" by (auto simp: length_Suc_conv)
  have "row \<in> set (session_rows db sid)" by (simp add: row)
  then have sid: "s_session_id row = sid" by (simp add: session_rows_def)
  have rows: "session_rows db' sid =
      map (\<lambda>s. s\<lparr>s_state := SessionCommitted, s_finalized_version_id := Some vid\<rparr>) (session_rows db sid)"
  proof -
    have "filter (\<lambda>s. s_session_id s = sid) (map (\<lambda>s. if s_session_id s = sid
        then s\<lparr>s_state := SessionCommitted, s_finalized_version_id := Some vid\<rparr> else s) xs) =
      map (\<lambda>s. s\<lparr>s_state := SessionCommitted, s_finalized_version_id := Some vid\<rparr>)
        (filter (\<lambda>s. s_session_id s = sid) xs)" for xs
      by (induction xs) simp_all
    then show ?thesis unfolding db' by (simp add: session_rows_def)
  qed
  show thesis by (rule that [OF row db' rows [unfolded row list.map]])
qed

text \<open>
  C1: What a successful finalization of an open session leaves behind. The session is committed to the
  returned version; that version exists, is committed, has the submitted object as its root and is not
  retired; the submitted layout loads back under the returned identifier and is recorded as the session's
  finalization; and every chunk of it is available on every node that placement selects for it.
\<close>

theorem finalize_upload_commits:
  assumes "built_layout H d" and "load_upload_session db sid = Inr session" and "us_state session = SessionOpen"
    and fin: "finalize_upload H db now sid d = Inr (db', r)"
  shows "(\<exists>row. session_rows db' sid = [row] \<and> s_state row = SessionCommitted \<and>
            s_finalized_version_id row = Some (fr_version_id r)) \<and>
    (\<exists>v \<in> set (artifact_versions db'). v_version_id v = fr_version_id r \<and> v_state v = VersionCommitted \<and>
            v_root_object_id v = obj_object_id (ld_object d)) \<and>
    \<not> is_version_retired db' (fr_version_id r) \<and>
    load_object_layout H db' (fr_layout_id r) = Inr (Some d) \<and>
    \<lparr>f_session_id = sid, f_layout_id = Some (fr_layout_id r)\<rparr> \<in> set (upload_session_finalizations db') \<and>
    (\<forall>c \<in> set (ol_chunks (ld_layout d)). \<exists>sel.
       select_replica_nodes H (cr_chunk_id c) (us_placement_node_ids session) (unat (us_replication_factor session)) =
         Inr sel \<and>
       (\<forall>node \<in> set sel. map sl_state (filter (\<lambda>l. sl_chunk_id l = cr_chunk_id c \<and> sl_node_id l = node)
          (storage_locations db')) = [Available]))"
proof -
  obtain version uniq db1 db2 db3 where
    ctor: "artifact_version_new H (us_artifact_id session) (obj_object_id (ld_object d)) (us_parent_version_id session)
       (us_immutable_metadata session) VersionCommitted = Inr version"
    and live: "\<not> is_version_retired db (av_version_id version)"
    and uniq: "fold_res collect_layout_chunk (ol_chunks (ld_layout d)) [] = Inr uniq"
    and replicas: "check_all (check_chunk_replicas H db session) uniq = Inr ()"
    and reg: "register_finalized_layout db d = Inr db1"
    and ver: "finalize_version db1 now version = Inr db2"
    and ins: "insert_finalization db2 sid (ld_layout_id d) = Inr db3"
    and com: "commit_session_row db3 sid (av_version_id version) = Inr db'"
    and r: "r = finalize_result sid version d"
    by (rule finalize_open_steps [OF fin assms(2,3)])
  note state = artifact_version_new_state [OF ctor]
  obtain row where db': "db' = db3\<lparr>upload_sessions := map (\<lambda>s. if s_session_id s = sid
        then s\<lparr>s_state := SessionCommitted, s_finalized_version_id := Some (av_version_id version)\<rparr> else s)
          (upload_sessions db3)\<rparr>"
    and row: "session_rows db' sid = [row\<lparr>s_state := SessionCommitted, s_finalized_version_id := Some (av_version_id version)\<rparr>]"
    by (rule commit_session_row_ok [OF com])
  note db3 = insert_finalization_ok [OF ins, THEN conjunct2]
  obtain vs ms where db2: "db2 = db1\<lparr>artifact_versions := vs, artifact_version_metadata := ms\<rparr>"
    using finalize_version_frame [OF ver] by blast
  note reg_ok = register_finalized_ok [OF reg]
  have frame: "storage_locations db1 = storage_locations db"
      "artifact_version_retirements db1 = artifact_version_retirements db"
    using reg_ok(1) by (auto simp: catalog_grows_def)
  have versions: "artifact_versions db' = artifact_versions db2" by (simp add: db' db3)
  have ids: "fr_version_id r = av_version_id version" "fr_layout_id r = ld_layout_id d"
    by (simp_all add: r finalize_result_def)
  have "verify_registered_object_layout db' d = Inr ()"
    using reg_ok(4) verify_layout_cong [of db' db1 d] by (simp add: db' db3 db2)
  then have loads: "load_object_layout H db' (fr_layout_id r) = Inr (Some d)"
    unfolding ids by (rule verified_layout_loads [OF assms(1)])
  have version: "\<exists>v \<in> set (artifact_versions db'). v_version_id v = fr_version_id r \<and> v_state v = VersionCommitted \<and>
            v_root_object_id v = obj_object_id (ld_object d)"
    using finalize_version_committed [OF ver] state unfolding versions ids by auto
  have not_retired: "\<not> is_version_retired db' (fr_version_id r)"
    using live unfolding ids by (simp add: is_version_retired_def db' db3 db2 frame)
  have locations: "storage_locations db' = storage_locations db" by (simp add: db' db3 db2 frame)
  have chunk: "\<exists>sel. select_replica_nodes H (cr_chunk_id c) (us_placement_node_ids session)
         (unat (us_replication_factor session)) = Inr sel \<and>
       (\<forall>node \<in> set sel. map sl_state (filter (\<lambda>l. sl_chunk_id l = cr_chunk_id c \<and> sl_node_id l = node)
          (storage_locations db')) = [Available])" if "c \<in> set (ol_chunks (ld_layout d))" for c
  proof -
    have "map_of uniq (cr_chunk_id c) = Some (cr_size c)"
      using collect_layout_chunk_ok [OF uniq] that by blast
    then have "check_chunk_replicas H db session (cr_chunk_id c, cr_size c) = Inr ()"
      using replicas by (simp add: check_all_ok map_of_SomeD)
    then show ?thesis unfolding locations using check_chunk_replicas_ok by blast
  qed
  have "\<lparr>f_session_id = sid, f_layout_id = Some (fr_layout_id r)\<rparr> \<in> set (upload_session_finalizations db')"
    by (simp add: db' db3 ids)
  then show ?thesis using row version not_retired loads chunk by (simp add: ids)
qed

subsection \<open>Retrying a finalization\<close>

text \<open>What the version tables always satisfy: metadata rows belong to versions, no version is its own
  parent.\<close>

definition versions_wf :: "database \<Rightarrow> bool" where
  "versions_wf db \<longleftrightarrow>
     (\<forall>t \<in> set (artifact_version_metadata db). has_version db (t_owner t)) \<and>
     (\<forall>v \<in> set (artifact_versions db). v_parent_version_id v \<noteq> Some (v_version_id v))"

lemma upload_session_fixed_ok:
  "upload_session_fixed sid a rf ns cs n par m st fin = Inr s \<longleftrightarrow>
   upload_session_new sid a rf ns cs (Some n) None par m st fin = Inr s \<and> cs = FixedSize"
  by (auto simp: upload_session_fixed_def rbind_eq_Inr)

text \<open>The chunking columns that \<open>reconstruct_upload_session\<close> accepts, with the parameters read from them.\<close>

definition stored_parameters :: "session_row \<Rightarrow> u64 option \<Rightarrow> fastcdc_parameters option \<Rightarrow> bool" where
  "stored_parameters row f p \<longleftrightarrow>
     (if s_chunking_strategy row = FixedSize
      then s_fastcdc_min row = None \<and> s_fastcdc_avg row = None \<and> s_fastcdc_max row = None \<and> p = None \<and>
           (\<exists>n > 0. s_chunk_size_bytes row = Some n \<and> f = Some (word_of_int n))
      else s_chunk_size_bytes row = None \<and> f = None \<and>
           (\<exists>mn av mx. s_fastcdc_min row = Some mn \<and> s_fastcdc_avg row = Some av \<and> s_fastcdc_max row = Some mx \<and>
              p = Some \<lparr>min_chunk_size_bytes = word_of_int mn, avg_chunk_size_bytes = word_of_int av,
                        max_chunk_size_bytes = word_of_int mx\<rparr>))"

lemma reconstruct_upload_session_ok:
  "reconstruct_upload_session db row = Inr s \<longleftrightarrow>
   1 \<le> s_replication_factor row \<and> s_replication_factor row \<le> 8 \<and>
   load_upload_session_placement_nodes db (s_session_id row) \<noteq> [] \<and>
   hd (load_upload_session_placement_nodes db (s_session_id row)) = s_target_node_id row \<and>
   is_uuid (s_session_id row) \<and> is_uuid (s_artifact_id row) \<and>
   (\<exists>f p. stored_parameters row f p \<and>
      upload_session_new (s_session_id row) (s_artifact_id row) (word_of_int (s_replication_factor row))
        (load_upload_session_placement_nodes db (s_session_id row))
        (s_chunking_strategy row) f p (s_parent_version_id row)
        (owner_map (upload_session_metadata db) (s_session_id row)) (s_state row) (s_finalized_version_id row) = Inr s)"
proof (cases "s_chunking_strategy row")
  case FixedSize
  then show ?thesis
    by (auto simp: reconstruct_upload_session_def stored_parameters_def Let_def upload_session_fixed_ok rbind_eq_Inr
        uuid_v7_def is_uuid_def not_less split: option.splits if_splits)
next
  case FastCdc
  then show ?thesis
    by (auto simp: reconstruct_upload_session_def stored_parameters_def Let_def upload_session_fastcdc_def rbind_eq_Inr
        uuid_v7_def is_uuid_def not_less split: option.splits if_splits)
qed

lemma reconstruct_committed:
  assumes "reconstruct_upload_session db row = Inr s"
    and "upload_session_nodes db' = upload_session_nodes db"
    and "upload_session_metadata db' = upload_session_metadata db"
    and "is_content_id vid" and "us_parent_version_id s \<noteq> Some vid"
  shows "reconstruct_upload_session db' (row\<lparr>s_state := SessionCommitted, s_finalized_version_id := Some vid\<rparr>) =
    Inr (s\<lparr>us_state := SessionCommitted, us_finalized_version_id := Some vid\<rparr>)"
proof -
  have commit: "upload_session_new sid a rf ns cs f p par m SessionCommitted (Some vid) =
      Inr (s\<lparr>us_state := SessionCommitted, us_finalized_version_id := Some vid\<rparr>)"
    if "upload_session_new sid a rf ns cs f p par m st fin = Inr s" for sid a rf ns cs f p par m st fin
    using that assms(4,5) unfolding upload_session_new_ok by (auto simp: valid_session_def)
  have same: "stored_parameters (row\<lparr>s_state := SessionCommitted, s_finalized_version_id := Some vid\<rparr>) f p =
      stored_parameters row f p" for f p
    by (simp add: stored_parameters_def)
  have nodes: "load_upload_session_placement_nodes db' i = load_upload_session_placement_nodes db i" for i
    by (simp add: load_upload_session_placement_nodes_def assms(2))
  show ?thesis
    using assms(1) unfolding reconstruct_upload_session_ok same nodes assms(3)
    by (auto intro: commit)
qed

lemma reconstruct_metadata:
  "reconstruct_upload_session db row = Inr s \<Longrightarrow>
   us_immutable_metadata s = owner_map (upload_session_metadata db) (s_session_id row) \<and>
   is_uuid (us_artifact_id s) \<and> us_state s = s_state row"
  unfolding reconstruct_upload_session_ok upload_session_new_ok by auto

lemma owner_map_sorted: "sorted (map fst (owner_map rows i))"
  by (simp add: owner_map_def)

lemma insert_version_row_ok:
  "insert_version_row db row = Inr db' \<Longrightarrow>
   db' = db\<lparr>artifact_versions := artifact_versions db @ [row]\<rparr> \<and> v_parent_version_id row \<noteq> Some (v_version_id row)"
  by (auto simp: insert_version_row_def split: if_splits option.splits)

lemma insert_version_metadata_ok:
  assumes "insert_version_metadata db version = Inr db'"
  shows "db' = db\<lparr>artifact_version_metadata := artifact_version_metadata db @
    map (\<lambda>kv. \<lparr>t_owner = av_version_id version, t_key = fst kv, t_value = snd kv\<rparr>) (av_immutable_metadata version)\<rparr>"
  using assms insert_text_rows_ok by (fastforce simp: insert_version_metadata_def rbind_eq_Inr)

lemma identity_matches_True:
  "artifact_version_identity_matches db version = Inr True \<longleftrightarrow>
   (\<exists>row. filter (\<lambda>v. v_version_id v = av_version_id version) (artifact_versions db) = [row] \<and>
      v_version_id row = av_version_id version \<and> v_artifact_id row = av_artifact_id version \<and>
      v_root_object_id row = av_root_object_id version \<and> v_parent_version_id row = av_parent_version_id version \<and>
      v_descriptor_version row = 1 \<and> v_canonical_descriptor row = av_canonical_bytes version) \<and>
   owner_map (artifact_version_metadata db) (av_version_id version) = av_immutable_metadata version"
  by (auto simp: artifact_version_identity_matches_def query01_def rbind_def bytes_to_hex_eq
      split: list.splits if_splits)

lemma finalize_version_matches:
  assumes fin: "finalize_version db now version = Inr db'" and wf: "versions_wf db"
    and sorted: "sorted (map fst (av_immutable_metadata version))"
  shows "artifact_version_identity_matches db' version = Inr True"
    and "av_parent_version_id version \<noteq> Some (av_version_id version)"
proof (atomize(full), cases "has_version db (av_version_id version)")
  case True
  with fin have m: "artifact_version_identity_matches db version = Inr True"
    and db': "db' = db\<lparr>artifact_versions :=
      map (\<lambda>v. if v_version_id v = av_version_id version \<and> v_state v \<noteq> VersionCommitted
               then v\<lparr>v_state := VersionCommitted\<rparr> else v) (artifact_versions db)\<rparr>"
    by (auto simp: finalize_version_def run_simps)
  have "filter (\<lambda>v. v_version_id v = i) (map (\<lambda>v. if v_version_id v = i \<and> v_state v \<noteq> VersionCommitted
        then v\<lparr>v_state := VersionCommitted\<rparr> else v) vs) =
      map (\<lambda>v. if v_version_id v = i \<and> v_state v \<noteq> VersionCommitted then v\<lparr>v_state := VersionCommitted\<rparr> else v)
        (filter (\<lambda>v. v_version_id v = i) vs)" for i and vs :: "version_row list"
    by (induction vs) simp_all
  with m have "artifact_version_identity_matches db' version = Inr True"
    unfolding identity_matches_True db' by auto
  moreover have "av_parent_version_id version \<noteq> Some (av_version_id version)"
  proof -
    from m obtain row where row: "filter (\<lambda>v. v_version_id v = av_version_id version) (artifact_versions db) = [row]"
        "v_version_id row = av_version_id version" "v_parent_version_id row = av_parent_version_id version"
      by (auto simp: identity_matches_True)
    then have "row \<in> set (artifact_versions db)"
      by (metis (mono_tags, lifting) list.set_intros(1) mem_Collect_eq set_filter)
    with wf row show ?thesis by (auto simp: versions_wf_def)
  qed
  ultimately show "artifact_version_identity_matches db' version = Inr True \<and>
    av_parent_version_id version \<noteq> Some (av_version_id version)" by simp
next
  case False
  with fin obtain dbv where v: "insert_version_row db (version_row_of now version) = Inr dbv"
    and m: "insert_version_metadata dbv version = Inr db'"
    by (auto simp: finalize_version_def rbind_eq_Inr)
  note dbv = insert_version_row_ok [OF v] and db' = insert_version_metadata_ok [OF m]
  have none: "filter (\<lambda>v. v_version_id v = av_version_id version) (artifact_versions db) = []"
      "filter (\<lambda>t. t_owner t = av_version_id version) (artifact_version_metadata db) = []"
    using False wf by (auto simp: has_version_def versions_wf_def filter_empty_conv)
  have "artifact_version_identity_matches db' version = Inr True"
    unfolding identity_matches_True db'
    using none sorted dbv
    by (simp add: version_row_of_def owner_map_def comp_def sort_key_id_if_sorted)
  then show "artifact_version_identity_matches db' version = Inr True \<and>
    av_parent_version_id version \<noteq> Some (av_version_id version)"
    using dbv by (simp add: version_row_of_def)
qed

lemma artifact_version_new_id: "artifact_version_new H a r p m st = Inr v \<Longrightarrow> is_content_id (av_version_id v)"
  by (auto simp: artifact_version_new_def rbind_eq_Inr hash_canonical_bytes_content_id)

lemma finalization_rows_single:
  assumes "\<forall>f \<in> set fs. f_session_id f \<noteq> sid"
  shows "map f_layout_id (filter (\<lambda>f. f_session_id f = sid) (fs @ [\<lparr>f_session_id = sid, f_layout_id = l\<rparr>])) = [l]"
  using assms by (simp add: filter_empty_conv)

text \<open>
  C2: Finalization is idempotent. When \<open>finalize_upload\<close> has committed an open session, calling it again
  with the same descriptor, at any later time, returns the same result and leaves the database unchanged.
\<close>

theorem finalize_upload_idempotent:
  assumes "built_layout H d" and "versions_wf db"
    and "load_upload_session db sid = Inr session" and "us_state session = SessionOpen"
    and fin: "finalize_upload H db now sid d = Inr (db', r)"
  shows "finalize_upload H db' later sid d = Inr (db', r)"
proof -
  obtain version uniq db1 db2 db3 where
    ctor: "artifact_version_new H (us_artifact_id session) (obj_object_id (ld_object d)) (us_parent_version_id session)
       (us_immutable_metadata session) VersionCommitted = Inr version"
    and live: "\<not> is_version_retired db (av_version_id version)"
    and reg: "register_finalized_layout db d = Inr db1"
    and ver: "finalize_version db1 now version = Inr db2"
    and ins: "insert_finalization db2 sid (ld_layout_id d) = Inr db3"
    and com: "commit_session_row db3 sid (av_version_id version) = Inr db'"
    and r: "r = finalize_result sid version d"
    by (rule finalize_open_steps [OF fin assms(3,4)])
  obtain row where row: "session_rows db sid = [row]" and rec: "reconstruct_upload_session db row = Inr session"
    by (rule load_upload_session_row [OF assms(3)])
  note state = artifact_version_new_state [OF ctor] and reg_ok = register_finalized_ok [OF reg]
  obtain vs ms where db2: "db2 = db1\<lparr>artifact_versions := vs, artifact_version_metadata := ms\<rparr>"
    using finalize_version_frame [OF ver] by blast
  note db3 = insert_finalization_ok [OF ins]
  obtain row' where row': "session_rows db3 sid = [row']"
    and db': "db' = db3\<lparr>upload_sessions := map (\<lambda>s. if s_session_id s = sid
        then s\<lparr>s_state := SessionCommitted, s_finalized_version_id := Some (av_version_id version)\<rparr> else s)
          (upload_sessions db3)\<rparr>"
    and rows': "session_rows db' sid =
        [row'\<lparr>s_state := SessionCommitted, s_finalized_version_id := Some (av_version_id version)\<rparr>]"
    by (rule commit_session_row_ok [OF com])
  have frame: "upload_sessions db1 = upload_sessions db" "artifact_version_retirements db1 = artifact_version_retirements db"
      "upload_session_nodes db1 = upload_session_nodes db" "upload_session_metadata db1 = upload_session_metadata db"
      "artifact_versions db1 = artifact_versions db" "artifact_version_metadata db1 = artifact_version_metadata db"
    using reg_ok(1) by (auto simp: catalog_grows_def)
  have "upload_sessions db3 = upload_sessions db" by (simp add: db3 db2 frame)
  then have "row' = row" using row row' by (simp add: session_rows_def)
  have wf1: "versions_wf db1" using assms(2) by (simp add: versions_wf_def has_version_def frame)
  have meta: "us_immutable_metadata session = owner_map (upload_session_metadata db) (s_session_id row)"
    using reconstruct_metadata [OF rec] by simp
  have sorted: "sorted (map fst (av_immutable_metadata version))"
    using state meta owner_map_sorted by simp
  note matches = finalize_version_matches [OF ver wf1 sorted]
  have rec': "reconstruct_upload_session db'
      (row'\<lparr>s_state := SessionCommitted, s_finalized_version_id := Some (av_version_id version)\<rparr>) =
    Inr (session\<lparr>us_state := SessionCommitted, us_finalized_version_id := Some (av_version_id version)\<rparr>)"
    unfolding \<open>row' = row\<close>
    by (rule reconstruct_committed [OF rec])
      (use artifact_version_new_id [OF ctor] matches(2) state in \<open>simp_all add: db' db3 db2 frame\<close>)
  have not_retired: "\<not> is_version_retired db' (av_version_id version)"
    using live by (simp add: is_version_retired_def db' db3 db2 frame)
  have "verify_registered_object_layout db' d = Inr ()"
    using reg_ok(4) verify_layout_cong [of db' db1 d] by (simp add: db' db3 db2)
  then have loads: "load_object_layout H db' (ld_layout_id d) = Inr (Some d)"
    by (rule verified_layout_loads [OF assms(1)])
  have "upload_session_finalizations db' = upload_session_finalizations db2 @
      [\<lparr>f_session_id = sid, f_layout_id = Some (ld_layout_id d)\<rparr>]"
    by (simp add: db' db3)
  then have layout: "map f_layout_id (filter (\<lambda>f. f_session_id f = sid) (upload_session_finalizations db')) =
      [Some (ld_layout_id d)]"
    using finalization_rows_single db3 by simp
  have object: "map o_total_size_bytes (filter (\<lambda>x. o_object_id x = obj_object_id (ld_object d)) (objects db')) =
      [uint (obj_total_size (ld_object d))]"
    using reg_ok(2) by (simp add: db' db3 db2)
  have size: "to_postgres_bigint (obj_total_size (ld_object d)) = Inr (uint (obj_total_size (ld_object d)))"
    using reg_ok(3) by (simp add: to_postgres_bigint_ok)
  have identity: "artifact_version_identity_matches db' version = Inr True"
    using matches(1) unfolding identity_matches_True by (simp add: db' db3)
  have retry: "finalize_committed_retry H db' sid
      (session\<lparr>us_state := SessionCommitted, us_finalized_version_id := Some (av_version_id version)\<rparr>) version d = Inr r"
    unfolding finalize_committed_retry_def layout object query01_single rbind_simps size loads identity
    by (simp add: not_retired r identity)
  show ?thesis
    unfolding finalize_upload_def rows' query01_single rbind_simps option.case rec'
    by (simp add: ctor not_retired retry)
qed

subsection \<open>A concrete upload\<close>

text \<open>One object of one 5-byte chunk, uploaded to one node with replication factor 1.\<close>

definition sample_chunk_ref :: chunk_ref where
  "sample_chunk_ref = \<lparr>cr_chunk_id = sample_id (CHR ''c''), cr_offset = 0, cr_size = 5\<rparr>"

definition sample_descriptor :: object_layout_descriptor where
  "sample_descriptor =
     (let obj = \<lparr>obj_object_id = sample_id (CHR ''a''), obj_total_size = 5\<rparr>;
          l = \<lparr>ol_chunks = [sample_chunk_ref], ol_total_size = 5\<rparr>;
          bytes = layout_encoding obj FixedSize None l
      in \<lparr>ld_object = obj, ld_chunking_strategy = FixedSize, ld_fastcdc_parameters = None, ld_layout = l,
          ld_canonical_bytes = bytes, ld_layout_id = digest_to_hex (sample_hash bytes)\<rparr>)"

lemma sample_ids [simp]:
  "is_content_id (sample_id (CHR ''a''))" "is_content_id (sample_id (CHR ''b''))" "is_content_id (sample_id (CHR ''c''))"
  by (rule sample_id_content_id, simp add: is_lower_hex_def)+

lemma built_sample_descriptor: "built_layout sample_hash sample_descriptor"
proof (rule built_fixed)
  show "object_new (sample_id (CHR ''a'')) 5 = Inr (ld_object sample_descriptor)"
    by (simp add: object_new_ok sample_descriptor_def Let_def)
  show "object_layout_new [sample_chunk_ref] = Inr (ld_layout sample_descriptor)"
    by (simp add: object_layout_new_ok sample_descriptor_def Let_def layout_bytes_def sample_chunk_ref_def)
  show "fixed_size_layout_descriptor sample_hash (ld_object sample_descriptor) FixedSize (ld_layout sample_descriptor) =
    Inr sample_descriptor"
    by (simp add: fixed_size_layout_descriptor_def sample_descriptor_def serialize_layout_def Let_def
        hash_canonical_bytes_eq append_content_id_ok layout_encoding_def strategy_bytes_def sample_chunk_ref_def
        chunk_entry_bytes_def kMagic_def kFixedSizeDescriptorHeaderBytes_def kContentIdBytes_def kChunkEntryBytes_def
        append_uint64_eq [of "_ @ _"] append_uint32_eq [of "as_bytes _"] append_uint64_eq [of "_ # _"]
        append_uint32_eq [of "_ # _"])
qed

definition sample_session_row :: session_row where
  "sample_session_row =
     \<lparr>s_session_id = sample_uuid, s_artifact_id = sample_uuid, s_target_node_id = ''node-a'',
      s_replication_factor = 1, s_chunking_strategy = FixedSize, s_chunk_size_bytes = Some 8,
      s_fastcdc_min = None, s_fastcdc_avg = None, s_fastcdc_max = None, s_parent_version_id = None,
      s_state = SessionOpen, s_finalized_version_id = None\<rparr>"

definition sample_upload_db :: database where
  "sample_upload_db = empty_database
     \<lparr>artifacts := [\<lparr>art_artifact_id = sample_uuid, art_name = ''model'', art_project = ''demo''\<rparr>],
      chunks := [\<lparr>c_chunk_id = sample_id (CHR ''c''), c_size_bytes = 5\<rparr>],
      storage_locations := [\<lparr>sl_chunk_id = sample_id (CHR ''c''), sl_node_id = ''node-a'', sl_storage_path = ''p'',
                             sl_state = Available\<rparr>],
      storage_nodes := [\<lparr>n_node_id = ''node-a'', n_address = ''127.0.0.1'', n_port = 9000, n_state = Active\<rparr>],
      upload_sessions := [sample_session_row],
      upload_session_nodes := [\<lparr>r_owner = sample_uuid, r_node_rank = 0, r_node_id = ''node-a''\<rparr>]\<rparr>"

definition sample_session :: upload_session where
  "sample_session =
     \<lparr>us_session_id = sample_uuid, us_artifact_id = sample_uuid, us_target_node_id = ''node-a'',
      us_replication_factor = 1, us_placement_node_ids = [''node-a''], us_chunking_strategy = FixedSize,
      us_fixed_chunk_size_bytes = Some 8, us_fastcdc_parameters = None, us_parent_version_id = None,
      us_immutable_metadata = [], us_state = SessionOpen, us_finalized_version_id = None\<rparr>"

lemma node_a_placement: "valid_placement [''node-a'']"
  by (simp add: valid_placement_def is_valid_node_id_def is_node_id_char_def is_digit_char_def)

lemma sample_session_valid: "valid_session sample_session"
  using node_a_placement by (simp add: valid_session_def sample_session_def strategy_parameters_ok_def)

lemma sample_session_new:
  "upload_session_new sample_uuid sample_uuid 1 [''node-a''] FixedSize (Some 8) None None [] SessionOpen None =
   Inr sample_session"
  using sample_session_valid by (simp add: upload_session_new_ok) (simp add: sample_session_def)

lemma load_sample_session: "load_upload_session sample_upload_db sample_uuid = Inr sample_session"
  by (simp add: load_upload_session_def session_rows_def sample_upload_db_def sample_session_row_def query01_def
      reconstruct_upload_session_def load_upload_session_placement_nodes_def ranked_nodes_def Let_def
      uuid_v7_def sample_uuid_ok [unfolded is_uuid_def] upload_session_fixed_def sample_session_new owner_map_def
      empty_database_def)

lemma sample_version_ok:
  "\<exists>v. artifact_version_new sample_hash sample_uuid (sample_id (CHR ''a'')) None [] VersionCommitted = Inr v"
  using serialize_version_ok [OF sample_uuid_ok, of "sample_id (CHR ''a'')" None "[]"]
  by (simp add: artifact_version_new_def validate_metadata_def hash_canonical_bytes_eq)

lemma select_node_a: "select_replica_nodes sample_hash (sample_id (CHR ''c'')) [''node-a''] 1 = Inr [''node-a'']"
  using node_a_placement
  by (simp add: select_replica_nodes_eq sha_length_sample_hash ranking_def sort_by_def)

lemma sample_descriptor_fields:
  "ld_object sample_descriptor = \<lparr>obj_object_id = sample_id (CHR ''a''), obj_total_size = 5\<rparr>"
  "ld_chunking_strategy sample_descriptor = FixedSize" "ld_fastcdc_parameters sample_descriptor = None"
  "ld_layout sample_descriptor = \<lparr>ol_chunks = [sample_chunk_ref], ol_total_size = 5\<rparr>"
  by (simp_all add: sample_descriptor_def Let_def)

lemma check_sample_descriptor: "check_finalize_layout sample_session sample_descriptor = Inr ()"
  by (simp add: check_finalize_layout_def sample_descriptor_fields sample_session_def us_chunk_size_bytes_def
      sample_chunk_ref_def Let_def)

lemma sample_replicas:
  "check_all (check_chunk_replicas sample_hash sample_upload_db sample_session) [(sample_id (CHR ''c''), 5)] = Inr ()"
  using select_node_a
  by (simp add: check_chunk_replicas_def sample_upload_db_def sample_session_def stored_chunk_sizes_def query01_def
      to_postgres_bigint_def empty_database_def)

lemma register_sample_descriptor: "\<exists>db'. register_finalized_layout sample_upload_db sample_descriptor = Inr db'"
  by (simp add: register_finalized_layout_def register_object_in_transaction_def sample_descriptor_fields
      register_object_layout_in_transaction_def to_postgres_bigint_def size_to_postgres_bigint_def
      has_object_def query_value_def query01_def ensure_chunk_def insert_chunk_def has_chunk_def stored_chunk_sizes_def
      layout_row_of_def optional_bigint_def insert_object_layout_def has_layout_def insert_layout_chunk_def
      verify_registered_object_layout_def layout_rows_def stored_fastcdc_columns_match_def verify_layout_row_def
      sample_upload_db_def empty_database_def sample_chunk_ref_def Let_def)

lemma finalize_sample: "\<exists>db' r. finalize_upload sample_hash sample_upload_db 0 sample_uuid sample_descriptor = Inr (db', r)"
proof -
  obtain v where v: "artifact_version_new sample_hash sample_uuid (sample_id (CHR ''a'')) None [] VersionCommitted = Inr v"
    using sample_version_ok by blast
  note fields = artifact_version_new_state [OF v]
  obtain db1 where reg: "register_finalized_layout sample_upload_db sample_descriptor = Inr db1"
    using register_sample_descriptor by blast
  note ok = register_finalized_ok [OF reg]
  have frame: "artifacts db1 = artifacts sample_upload_db" "artifact_versions db1 = []" "artifact_version_metadata db1 = []"
      "upload_session_finalizations db1 = []" "upload_sessions db1 = [sample_session_row]"
    using ok(1) by (auto simp: catalog_grows_def sample_upload_db_def empty_database_def)
  have object: "has_object db1 (sample_id (CHR ''a''))"
    using ok(2) by (auto simp: has_object_def sample_descriptor_fields filter_eq_Cons_iff)
  have layout: "has_layout db1 (ld_layout_id sample_descriptor)"
    using verified_layout_row [OF ok(4)] by (metis (mono_tags, lifting) has_layout_def list.set_intros(1) mem_Collect_eq set_filter)
  obtain db2 where db2: "finalize_version db1 0 v = Inr db2"
    and db2': "db2 = db1\<lparr>artifact_versions := [version_row_of 0 v]\<rparr>"
    using object fields
    by (simp add: finalize_version_def has_version_def frame insert_version_row_def version_row_of_def has_artifact_def
        sample_upload_db_def insert_version_metadata_def)
  have ins: "insert_finalization db2 sample_uuid (ld_layout_id sample_descriptor) =
      Inr (db2\<lparr>upload_session_finalizations := [\<lparr>f_session_id = sample_uuid, f_layout_id = Some (ld_layout_id sample_descriptor)\<rparr>]\<rparr>)"
    using layout by (simp add: insert_finalization_def db2' frame session_rows_def sample_session_row_def has_layout_def)
  have com: "\<exists>db'. commit_session_row (db2\<lparr>upload_session_finalizations :=
      [\<lparr>f_session_id = sample_uuid, f_layout_id = Some (ld_layout_id sample_descriptor)\<rparr>]\<rparr>) sample_uuid (av_version_id v) = Inr db'"
    using fields by (simp add: commit_session_row_def db2' frame session_rows_def sample_session_row_def
        has_artifact_version_def version_row_of_def)
  have rows: "session_rows sample_upload_db sample_uuid = [sample_session_row]"
    by (simp add: session_rows_def sample_upload_db_def sample_session_row_def)
  have rec: "reconstruct_upload_session sample_upload_db sample_session_row = Inr sample_session"
    using load_sample_session by (simp add: load_upload_session_def rows query01_def)
  have open_session: "us_state sample_session = SessionOpen" "us_artifact_id sample_session = sample_uuid"
      "us_parent_version_id sample_session = None" "us_immutable_metadata sample_session = []"
    by (simp_all add: sample_session_def)
  have uniq: "collect_layout_chunk sample_chunk_ref [] = Inr [(sample_id (CHR ''c''), 5)]"
    by (simp add: collect_layout_chunk_def emplace_def sample_chunk_ref_def)
  have not_retired: "\<not> is_version_retired sample_upload_db i" for i
    by (simp add: is_version_retired_def sample_upload_db_def empty_database_def)
  show ?thesis
    using com
    by (auto simp: finalize_upload_def rows query01_single rec open_session sample_descriptor_fields v not_retired
        check_sample_descriptor uniq sample_replicas reg db2 ins simp del: check_all_simps)
qed

theorem finalize_upload_commits_witness:
  "case finalize_upload sample_hash sample_upload_db 0 sample_uuid sample_descriptor of
     Inr (db', r) \<Rightarrow> \<not> is_version_retired db' (fr_version_id r) \<and>
       load_object_layout sample_hash db' (fr_layout_id r) = Inr (Some sample_descriptor)
   | Inl e \<Rightarrow> False"
proof -
  obtain db' r where fin: "finalize_upload sample_hash sample_upload_db 0 sample_uuid sample_descriptor = Inr (db', r)"
    using finalize_sample by blast
  have "us_state sample_session = SessionOpen" by (simp add: sample_session_def)
  then show ?thesis
    using finalize_upload_commits [OF built_sample_descriptor load_sample_session _ fin] by (simp add: fin)
qed

theorem finalize_upload_idempotent_witness:
  "case finalize_upload sample_hash sample_upload_db 0 sample_uuid sample_descriptor of
     Inr (db', r) \<Rightarrow> finalize_upload sample_hash db' 1000 sample_uuid sample_descriptor = Inr (db', r)
   | Inl e \<Rightarrow> False"
proof -
  obtain db' r where fin: "finalize_upload sample_hash sample_upload_db 0 sample_uuid sample_descriptor = Inr (db', r)"
    using finalize_sample by blast
  have "us_state sample_session = SessionOpen" by (simp add: sample_session_def)
  moreover have "versions_wf sample_upload_db" by (simp add: versions_wf_def sample_upload_db_def empty_database_def)
  ultimately show ?thesis
    using finalize_upload_idempotent [OF built_sample_descriptor _ load_sample_session _ fin, of 1000]
    by (simp add: fin)
qed

end
