(* ===== verification/Runs.thy ===== *)
theory Runs
  imports Database
begin

section \<open>Runs that complete once\<close>

text \<open>
  Garbage-collection runs and replication runs share a contract: a run is a row found by its identifier; completing
  it stores the run as completed, and completing a completed run returns what is stored and changes
  nothing. A client may therefore repeat the request when the answer was lost. The two providers are
  \<open>complete_gc_run\<close> and \<open>complete_replication_run\<close>.
\<close>

locale completable_run =
  fixes rows :: "database \<Rightarrow> string \<Rightarrow> 'row list"
    and read_row :: "database \<Rightarrow> 'row \<Rightarrow> 'run res"
    and completed :: "'run \<Rightarrow> bool"
    and complete :: "database \<Rightarrow> string \<Rightarrow> 'stats \<Rightarrow> (database \<times> 'run) res"
  assumes complete_stored:
      "rows db rid = row # rest \<Longrightarrow> read_row db row = Inr run \<Longrightarrow> completed run \<Longrightarrow> complete db rid s = Inr (db, run)"
    and complete_stores:
      "complete db rid s = Inr (db', run) \<Longrightarrow>
       completed run \<and> (\<exists>row rest. rows db' rid = row # rest \<and> read_row db' row = Inr run)"
begin

lemma idempotent:
  assumes "complete db rid s = Inr (db', run)"
  shows "completed run \<and> complete db' rid s' = Inr (db', run)"
  using complete_stores [OF assms] complete_stored by blast

text \<open>Any number of repetitions of the request leaves the database of the first one.\<close>

lemma repeated:
  assumes "complete db rid s = Inr (db', run)"
  shows "fold_res (\<lambda>t d. rbind (complete d rid t) (\<lambda>(d, r). Inr d)) ss db' = Inr db'"
proof (induction ss)
  case (Cons t ss)
  have "complete db' rid t = Inr (db', run)" using idempotent [OF assms] by blast
  with Cons show ?case by simp
qed simp

end

end
