(* ===== verification/Repo_Gc.thy ===== *)
theory Repo_Gc
  imports Repo_Uploads Runs
begin

section \<open>Repository: garbage collection runs\<close>

text \<open>
  \<open>start_gc_run\<close>, \<open>get_gc_run\<close>, \<open>classify_gc_chunks\<close> and \<open>complete_gc_run\<close> with the sweep of the
  metadata and its dry-run counterpart. The four \<open>DELETE\<close> statements of the sweep run one after the
  other, each on the state its predecessor left; deleting a layout cascades to its chunk rows, clears
  the finalizations that name it and is refused while a replication run names it.

  The lemmas show that the sweep removes exactly the dead layouts and keeps every row a live layout
  needs, that nothing collectible is left behind, and how the dry run's counts relate to the sweep's.
\<close>

subsection \<open>Runs\<close>

record gc_physical_stats =
  physical_chunks_scanned :: u64
  physical_bytes_scanned :: u64
  collectible_chunks :: u64
  collectible_bytes :: u64
  physically_deleted_chunks :: u64
  physically_deleted_bytes :: u64

record gc_metadata_stats =
  storage_locations_swept :: u64
  chunk_rows_swept :: u64
  object_layouts_swept :: u64
  objects_swept :: u64

record gc_run =
  gr_run_id :: string
  gr_target_node_id :: string
  gr_mode :: gc_run_mode
  gr_state :: gc_run_state
  gr_physical_stats :: gc_physical_stats
  gr_metadata_stats :: gc_metadata_stats

record gc_chunk_decision =
  gd_chunk_id :: string
  gd_collectible :: bool

definition gc_run_has_zero_stats :: "gc_run \<Rightarrow> bool" where
  "gc_run_has_zero_stats run =
     (let physical = gr_physical_stats run; metadata = gr_metadata_stats run
      in physical_chunks_scanned physical = 0 \<and> physical_bytes_scanned physical = 0 \<and>
         collectible_chunks physical = 0 \<and> collectible_bytes physical = 0 \<and>
         physically_deleted_chunks physical = 0 \<and> physically_deleted_bytes physical = 0 \<and>
         storage_locations_swept metadata = 0 \<and> chunk_rows_swept metadata = 0 \<and>
         object_layouts_swept metadata = 0 \<and> objects_swept metadata = 0)"

definition validate_gc_run_start_request :: "gc_run \<Rightarrow> unit res" where
  "validate_gc_run_start_request requested_run =
     (if gr_state requested_run \<noteq> GcOpen then Inl Invalid_argument
      else rbind (validate_source_node_id (gr_target_node_id requested_run)) (\<lambda>_.
           if \<not> gc_run_has_zero_stats requested_run then Inl Invalid_argument else Inr ()))"

definition reconstruct_gc_run_from_row :: "gc_run_row \<Rightarrow> gc_run res" where
  "reconstruct_gc_run_from_row row =
     rbind (uuid_v7 (g_run_id row)) (\<lambda>run_id.
     rbind (require_non_negative (g_physical_chunks_scanned row)) (\<lambda>chunks_scanned.
     rbind (require_non_negative (g_physical_bytes_scanned row)) (\<lambda>bytes_scanned.
     rbind (require_non_negative (g_collectible_chunks row)) (\<lambda>coll_chunks.
     rbind (require_non_negative (g_collectible_bytes row)) (\<lambda>coll_bytes.
     rbind (require_non_negative (g_physically_deleted_chunks row)) (\<lambda>deleted_chunks.
     rbind (require_non_negative (g_physically_deleted_bytes row)) (\<lambda>deleted_bytes.
     rbind (require_non_negative (g_storage_locations_swept row)) (\<lambda>locations.
     rbind (require_non_negative (g_chunk_rows_swept row)) (\<lambda>chunk_rows.
     rbind (require_non_negative (g_object_layouts_swept row)) (\<lambda>layouts.
     rbind (require_non_negative (g_objects_swept row)) (\<lambda>objs.
     Inr \<lparr>gr_run_id = run_id, gr_target_node_id = g_target_node_id row, gr_mode = g_mode row,
          gr_state = g_state row,
          gr_physical_stats =
            \<lparr>physical_chunks_scanned = chunks_scanned, physical_bytes_scanned = bytes_scanned,
             collectible_chunks = coll_chunks, collectible_bytes = coll_bytes,
             physically_deleted_chunks = deleted_chunks, physically_deleted_bytes = deleted_bytes\<rparr>,
          gr_metadata_stats =
            \<lparr>storage_locations_swept = locations, chunk_rows_swept = chunk_rows,
             object_layouts_swept = layouts, objects_swept = objs\<rparr>\<rparr>)))))))))))"

definition gc_run_rows :: "database \<Rightarrow> string \<Rightarrow> gc_run_row list" where
  "gc_run_rows db run_id = filter (\<lambda>g. g_run_id g = run_id) (gc_runs db)"

definition load_gc_run :: "database \<Rightarrow> string \<Rightarrow> gc_run option res" where
  "load_gc_run db run_id =
     rbind (query01 (gc_run_rows db run_id)) (\<lambda>stored.
     case stored of
       None \<Rightarrow> Inr None
     | Some row \<Rightarrow> rbind (reconstruct_gc_run_from_row row) (\<lambda>run. Inr (Some run)))"

definition get_gc_run :: "database \<Rightarrow> string \<Rightarrow> gc_run option res" where
  "get_gc_run db run_id = load_gc_run db run_id"

text \<open>The partial unique index admits one open run.\<close>

definition insert_gc_run :: "database \<Rightarrow> gc_run \<Rightarrow> database res" where
  "insert_gc_run db run =
     (if gc_run_rows db (gr_run_id run) \<noteq> [] \<or> (gr_state run = GcOpen \<and> gc_in_progress db)
      then Inl Unique_violation
      else Inr (db\<lparr>gc_runs := gc_runs db @
             [\<lparr>g_run_id = gr_run_id run, g_target_node_id = gr_target_node_id run, g_mode = gr_mode run,
               g_state = gr_state run, g_physical_chunks_scanned = 0, g_physical_bytes_scanned = 0,
               g_collectible_chunks = 0, g_collectible_bytes = 0, g_physically_deleted_chunks = 0,
               g_physically_deleted_bytes = 0, g_storage_locations_swept = 0, g_chunk_rows_swept = 0,
               g_object_layouts_swept = 0, g_objects_swept = 0\<rparr>]\<rparr>))"

definition start_gc_run :: "database \<Rightarrow> gc_run \<Rightarrow> (database \<times> gc_run) res" where
  "start_gc_run db requested_run =
     rbind (validate_gc_run_start_request requested_run) (\<lambda>_.
     rbind (load_gc_run db (gr_run_id requested_run)) (\<lambda>existing.
     case existing of
       Some run \<Rightarrow>
         if gr_target_node_id run = gr_target_node_id requested_run \<and> gr_mode run = gr_mode requested_run
         then Inr (db, run) else Inl (Gc_error GcRunConflict)
     | None \<Rightarrow>
         if gc_in_progress db then Inl (Gc_error GcAnotherRunOpen)
         else if replication_in_progress db then Inl (Gc_error GcReplicationInProgress)
         else
           rbind (ensure_no_open_upload_sessions db) (\<lambda>_.
           rbind (insert_gc_run db requested_run) (\<lambda>db.
           rbind (load_gc_run db (gr_run_id requested_run)) (\<lambda>loaded.
           case loaded of None \<Rightarrow> Inl Runtime_error | Some run \<Rightarrow> Inr (db, run))))))"

subsection \<open>Classification\<close>

definition classify_gc_chunks :: "database \<Rightarrow> string \<Rightarrow> string list \<Rightarrow> gc_chunk_decision list res" where
  "classify_gc_chunks db run_id chunk_ids =
     (if chunk_ids = [] \<or> 256 < length chunk_ids then Inl Invalid_argument
      else
        rbind (fold_res (\<lambda>chunk_id unique_chunk_ids.
                 rbind (check_content_id chunk_id) (\<lambda>_.
                 if chunk_id \<in> set unique_chunk_ids then Inl Invalid_argument
                 else Inr (chunk_id # unique_chunk_ids))) chunk_ids []) (\<lambda>_.
        rbind (load_gc_run db run_id) (\<lambda>run.
        case run of
          None \<Rightarrow> Inl (Gc_error GcRunNotFound)
        | Some r \<Rightarrow>
            if gr_state r \<noteq> GcOpen then Inl (Gc_error GcRunNotOpen)
            else Inr (map (\<lambda>chunk_id. \<lparr>gd_chunk_id = chunk_id,
                            gd_collectible = (\<not> chunk_in_live_layout db chunk_id)\<rparr>) chunk_ids))))"

subsection \<open>The sweep\<close>

definition sweepable_location :: "database \<Rightarrow> string \<Rightarrow> location_row \<Rightarrow> bool" where
  "sweepable_location db target_node_id sl \<longleftrightarrow>
     sl_node_id sl = target_node_id \<and> \<not> chunk_in_live_layout db (sl_chunk_id sl)"

definition sweepable_object :: "database \<Rightarrow> object_row \<Rightarrow> bool" where
  "sweepable_object db ob \<longleftrightarrow>
     \<not> (\<exists>av \<in> set (artifact_versions db). v_root_object_id av = o_object_id ob) \<and>
     \<not> (\<exists>ol \<in> set (object_layouts db). l_object_id ol = o_object_id ob)"

definition sweepable_chunk :: "database \<Rightarrow> chunk_row \<Rightarrow> bool" where
  "sweepable_chunk db c \<longleftrightarrow>
     \<not> (\<exists>olc \<in> set (object_layout_chunks db). lc_chunk_id olc = c_chunk_id c) \<and>
     \<not> (\<exists>sl \<in> set (storage_locations db). sl_chunk_id sl = c_chunk_id c)"

definition count_gc_metadata_sweep_candidates :: "database \<Rightarrow> string \<Rightarrow> gc_metadata_stats" where
  "count_gc_metadata_sweep_candidates db target_node_id =
     \<lparr>storage_locations_swept = of_nat (length (filter (sweepable_location db target_node_id) (storage_locations db))),
      chunk_rows_swept = of_nat (length (filter (sweepable_chunk db) (chunks db))),
      object_layouts_swept = of_nat (length (filter (\<lambda>ol. \<not> live_layout db ol) (object_layouts db))),
      objects_swept = of_nat (length (filter (sweepable_object db) (objects db)))\<rparr>"

definition delete_storage_locations :: "database \<Rightarrow> string \<Rightarrow> database" where
  "delete_storage_locations db target_node_id =
     db\<lparr>storage_locations := filter (\<lambda>sl. \<not> sweepable_location db target_node_id sl) (storage_locations db)\<rparr>"

text \<open>\<open>DELETE FROM object_layouts\<close> with its foreign keys: RESTRICT from \<open>replication_runs\<close>, CASCADE to
  \<open>object_layout_chunks\<close>, SET NULL in \<open>upload_session_finalizations\<close>.\<close>

definition delete_dead_layouts :: "database \<Rightarrow> database res" where
  "delete_dead_layouts db =
     (let dead = map l_layout_id (filter (\<lambda>ol. \<not> live_layout db ol) (object_layouts db))
      in if \<exists>rr \<in> set (replication_runs db). rr_layout_id rr \<in> set dead then Inl Foreign_key_violation
         else Inr (db\<lparr>object_layouts := filter (live_layout db) (object_layouts db),
                      object_layout_chunks := filter (\<lambda>r. lc_layout_id r \<notin> set dead) (object_layout_chunks db),
                      upload_session_finalizations :=
                        map (\<lambda>f. case f_layout_id f of
                               Some lid \<Rightarrow> if lid \<in> set dead then f\<lparr>f_layout_id := None\<rparr> else f
                             | None \<Rightarrow> f) (upload_session_finalizations db)\<rparr>))"

definition delete_objects :: "database \<Rightarrow> database" where
  "delete_objects db = db\<lparr>objects := filter (\<lambda>ob. \<not> sweepable_object db ob) (objects db)\<rparr>"

definition delete_chunks :: "database \<Rightarrow> database" where
  "delete_chunks db = db\<lparr>chunks := filter (\<lambda>c. \<not> sweepable_chunk db c) (chunks db)\<rparr>"

definition sweep_gc_metadata :: "database \<Rightarrow> string \<Rightarrow> (database \<times> gc_metadata_stats) res" where
  "sweep_gc_metadata db0 target_node_id =
     (let db1 = delete_storage_locations db0 target_node_id
      in rbind (delete_dead_layouts db1) (\<lambda>db2.
         let db3 = delete_objects db2; db4 = delete_chunks db3
         in Inr (db4,
              \<lparr>storage_locations_swept = of_nat (length (storage_locations db0) - length (storage_locations db1)),
               chunk_rows_swept = of_nat (length (chunks db3) - length (chunks db4)),
               object_layouts_swept = of_nat (length (object_layouts db1) - length (object_layouts db2)),
               objects_swept = of_nat (length (objects db2) - length (objects db3))\<rparr>)))"

subsection \<open>Completion\<close>

definition complete_gc_row ::
  "gc_physical_stats \<Rightarrow> gc_metadata_stats \<Rightarrow> gc_run_row \<Rightarrow> gc_run_row res" where
  "complete_gc_row physical_stats metadata_stats row =
     rbind (to_postgres_bigint (physical_chunks_scanned physical_stats)) (\<lambda>chunks_scanned.
     rbind (to_postgres_bigint (physical_bytes_scanned physical_stats)) (\<lambda>bytes_scanned.
     rbind (to_postgres_bigint (collectible_chunks physical_stats)) (\<lambda>coll_chunks.
     rbind (to_postgres_bigint (collectible_bytes physical_stats)) (\<lambda>coll_bytes.
     rbind (to_postgres_bigint (physically_deleted_chunks physical_stats)) (\<lambda>deleted_chunks.
     rbind (to_postgres_bigint (physically_deleted_bytes physical_stats)) (\<lambda>deleted_bytes.
     rbind (to_postgres_bigint (storage_locations_swept metadata_stats)) (\<lambda>locations.
     rbind (to_postgres_bigint (chunk_rows_swept metadata_stats)) (\<lambda>chunk_rows.
     rbind (to_postgres_bigint (object_layouts_swept metadata_stats)) (\<lambda>layouts.
     rbind (to_postgres_bigint (objects_swept metadata_stats)) (\<lambda>objs.
     Inr (row\<lparr>g_physical_chunks_scanned := chunks_scanned, g_physical_bytes_scanned := bytes_scanned,
              g_collectible_chunks := coll_chunks, g_collectible_bytes := coll_bytes,
              g_physically_deleted_chunks := deleted_chunks, g_physically_deleted_bytes := deleted_bytes,
              g_storage_locations_swept := locations, g_chunk_rows_swept := chunk_rows,
              g_object_layouts_swept := layouts, g_objects_swept := objs, g_state := GcCompleted\<rparr>)))))))))))"

definition update_gc_run :: "database \<Rightarrow> string \<Rightarrow> gc_physical_stats \<Rightarrow> gc_metadata_stats \<Rightarrow> database res" where
  "update_gc_run db run_id physical_stats metadata_stats =
     rbind (map_res (\<lambda>g. if g_run_id g = run_id then complete_gc_row physical_stats metadata_stats g else Inr g)
              (gc_runs db)) (\<lambda>rows.
     Inr (db\<lparr>gc_runs := rows\<rparr>))"

definition complete_gc_run :: "database \<Rightarrow> string \<Rightarrow> gc_physical_stats \<Rightarrow> (database \<times> gc_run) res" where
  "complete_gc_run db run_id physical_stats =
     (case gc_run_rows db run_id of
        [] \<Rightarrow> Inl (Gc_error GcRunNotFound)
      | row # _ \<Rightarrow>
          rbind (reconstruct_gc_run_from_row row) (\<lambda>stored_run.
          if gr_state stored_run = GcCompleted then Inr (db, stored_run)
          else if gr_state stored_run \<noteq> GcOpen then Inl (Gc_error GcRunNotOpen)
          else
            rbind (ensure_no_open_upload_sessions db) (\<lambda>_.
            rbind (if gr_mode stored_run = GcDryRun
                   then Inr (db, count_gc_metadata_sweep_candidates db (gr_target_node_id stored_run))
                   else sweep_gc_metadata db (gr_target_node_id stored_run)) (\<lambda>(db, metadata_stats).
            rbind (update_gc_run db run_id physical_stats metadata_stats) (\<lambda>db.
            rbind (load_gc_run db run_id) (\<lambda>completed.
            case completed of None \<Rightarrow> Inl Runtime_error | Some run \<Rightarrow> Inr (db, run)))))))"

subsection \<open>What a sweep removes\<close>

text \<open>\<open>layout_id\<close> is the primary key of \<open>object_layouts\<close>.\<close>

definition layout_ids_distinct :: "database \<Rightarrow> bool" where
  "layout_ids_distinct db \<longleftrightarrow> distinct (map l_layout_id (object_layouts db))"

definition dead_layout_ids :: "database \<Rightarrow> string set" where
  "dead_layout_ids db = l_layout_id ` {ol \<in> set (object_layouts db). \<not> live_layout db ol}"

lemma live_layout_not_dead_id:
  assumes "layout_ids_distinct db" and "ol \<in> set (object_layouts db)" and "live_layout db ol"
  shows "l_layout_id ol \<notin> dead_layout_ids db"
  using assms by (auto simp: dead_layout_ids_def layout_ids_distinct_def distinct_map dest: inj_onD)

text \<open>Liveness looks at the versions, their retirements, the sessions and the finalizations only.\<close>

lemma live_layout_cong:
  assumes "artifact_versions db' = artifact_versions db"
    and "artifact_version_retirements db' = artifact_version_retirements db"
    and "upload_sessions db' = upload_sessions db"
    and "upload_session_finalizations db' = upload_session_finalizations db"
  shows "live_layout db' ol = live_layout db ol"
  using assms by (simp add: live_layout_def is_version_retired_def)

definition clear_finalization :: "string set \<Rightarrow> finalization_row \<Rightarrow> finalization_row" where
  "clear_finalization dead f =
     (case f_layout_id f of
        Some lid \<Rightarrow> if lid \<in> dead then f\<lparr>f_layout_id := None\<rparr> else f
      | None \<Rightarrow> f)"

lemma clear_finalization_simps [simp]:
  "f_session_id (clear_finalization dead f) = f_session_id f"
  "f_layout_id (clear_finalization dead f) = Some lid \<longleftrightarrow> f_layout_id f = Some lid \<and> lid \<notin> dead"
  by (auto simp: clear_finalization_def split: option.splits)

lemma clear_finalization_empty [simp]: "map (clear_finalization {}) fs = fs"
  by (rule map_idI) (simp add: clear_finalization_def split: option.splits)

lemma delete_dead_layouts_eq:
  "delete_dead_layouts db =
     (if \<exists>rr \<in> set (replication_runs db). rr_layout_id rr \<in> dead_layout_ids db then Inl Foreign_key_violation
      else Inr (db\<lparr>object_layouts := filter (live_layout db) (object_layouts db),
        object_layout_chunks := filter (\<lambda>r. lc_layout_id r \<notin> dead_layout_ids db) (object_layout_chunks db),
        upload_session_finalizations :=
          map (clear_finalization (dead_layout_ids db)) (upload_session_finalizations db)\<rparr>))"
  by (simp add: delete_dead_layouts_def Let_def dead_layout_ids_def clear_finalization_def fun_eq_iff
      cong: option.case_cong)

text \<open>The database after a sweep.\<close>

definition swept :: "database \<Rightarrow> string \<Rightarrow> database" where
  "swept db node =
     (let db1 = delete_storage_locations db node;
          db2 = db1\<lparr>object_layouts := filter (live_layout db) (object_layouts db),
                   object_layout_chunks := filter (\<lambda>r. lc_layout_id r \<notin> dead_layout_ids db) (object_layout_chunks db),
                   upload_session_finalizations :=
                     map (clear_finalization (dead_layout_ids db)) (upload_session_finalizations db)\<rparr>
      in delete_chunks (delete_objects db2))"

lemma delete_storage_locations_live [simp]:
  "live_layout (delete_storage_locations db node) = live_layout db"
  "dead_layout_ids (delete_storage_locations db node) = dead_layout_ids db"
  by (simp_all add: delete_storage_locations_def live_layout_def is_version_retired_def dead_layout_ids_def fun_eq_iff)

lemma sweep_ok:
  assumes "sweep_gc_metadata db node = Inr (db', stats)"
  shows "db' = swept db node" and "\<forall>rr \<in> set (replication_runs db). rr_layout_id rr \<notin> dead_layout_ids db"
proof -
  let ?db1 = "delete_storage_locations db node"
  have frame: "replication_runs ?db1 = replication_runs db" "object_layouts ?db1 = object_layouts db"
    "object_layout_chunks ?db1 = object_layout_chunks db"
    "upload_session_finalizations ?db1 = upload_session_finalizations db"
    by (simp_all add: delete_storage_locations_def)
  from assms show "\<forall>rr \<in> set (replication_runs db). rr_layout_id rr \<notin> dead_layout_ids db"
    unfolding sweep_gc_metadata_def Let_def delete_dead_layouts_eq frame delete_storage_locations_live
    by (simp split: if_splits)
  with assms show "db' = swept db node"
    unfolding sweep_gc_metadata_def Let_def delete_dead_layouts_eq frame delete_storage_locations_live swept_def
    by (simp add: live_layout_def is_version_retired_def delete_storage_locations_def)
qed

lemma swept_fields:
  "object_layouts (swept db node) = filter (live_layout db) (object_layouts db)"
  "object_layout_chunks (swept db node) = filter (\<lambda>r. lc_layout_id r \<notin> dead_layout_ids db) (object_layout_chunks db)"
  "upload_session_finalizations (swept db node) =
     map (clear_finalization (dead_layout_ids db)) (upload_session_finalizations db)"
  "storage_locations (swept db node) =
     filter (\<lambda>sl. \<not> sweepable_location db node sl) (storage_locations db)"
  "artifact_versions (swept db node) = artifact_versions db"
  "artifact_version_retirements (swept db node) = artifact_version_retirements db"
  "upload_sessions (swept db node) = upload_sessions db"
  "replication_runs (swept db node) = replication_runs db"
  "gc_runs (swept db node) = gc_runs db"
  "storage_nodes (swept db node) = storage_nodes db"
  by (simp_all add: swept_def Let_def delete_storage_locations_def delete_objects_def delete_chunks_def)

lemma swept_live_layout:
  assumes "layout_ids_distinct db" and "ol \<in> set (object_layouts db)"
  shows "live_layout (swept db node) ol = live_layout db ol"
proof -
  have "live_layout (swept db node) ol \<longleftrightarrow>
      (\<exists>av \<in> set (artifact_versions db). v_root_object_id av = l_object_id ol \<and> \<not> is_version_retired db (v_version_id av)) \<or>
      (\<exists>usf \<in> set (upload_session_finalizations db). \<exists>us \<in> set (upload_sessions db).
         s_session_id us = f_session_id usf \<and>
         (f_layout_id usf = Some (l_layout_id ol) \<and> l_layout_id ol \<notin> dead_layout_ids db) \<and>
         (\<exists>v. s_finalized_version_id us = Some v \<and> \<not> is_version_retired db v))"
    unfolding live_layout_def is_version_retired_def swept_fields list.set_map bex_simps clear_finalization_simps ..
  moreover have "live_layout db ol \<Longrightarrow> l_layout_id ol \<notin> dead_layout_ids db"
    using assms by (rule live_layout_not_dead_id)
  ultimately show ?thesis unfolding live_layout_def by blast
qed

lemma swept_layout_rows:
  assumes "layout_ids_distinct db" and "ol \<in> set (object_layouts db)" and "live_layout db ol"
  shows "layout_rows (swept db node) (l_layout_id ol) = layout_rows db (l_layout_id ol)"
proof -
  note kept = live_layout_not_dead_id [OF assms]
  show ?thesis
    unfolding layout_rows_def swept_fields filter_filter
    by (rule arg_cong [where f = "sort_key lc_chunk_index"], rule filter_cong [OF refl]) (use kept in auto)
qed

lemma swept_chunk_in_live_layout:
  assumes "layout_ids_distinct db"
  shows "chunk_in_live_layout (swept db node) c = chunk_in_live_layout db c"
proof
  assume "chunk_in_live_layout (swept db node) c"
  then show "chunk_in_live_layout db c"
    using swept_live_layout [OF assms] unfolding chunk_in_live_layout_def swept_fields by auto
next
  assume "chunk_in_live_layout db c"
  then obtain olc ol where olc: "olc \<in> set (object_layout_chunks db)" "lc_chunk_id olc = c"
    and ol: "ol \<in> set (object_layouts db)" "l_layout_id ol = lc_layout_id olc" "live_layout db ol"
    unfolding chunk_in_live_layout_def by blast
  have "lc_layout_id olc \<notin> dead_layout_ids db"
    using live_layout_not_dead_id [OF assms ol(1,3)] ol(2) by simp
  then show "chunk_in_live_layout (swept db node) c"
    using olc ol swept_live_layout [OF assms ol(1)] unfolding chunk_in_live_layout_def swept_fields by auto
qed

lemma swept_chunks:
  assumes "layout_ids_distinct db" and "chunk_in_live_layout db c"
  shows "stored_chunk_sizes (swept db node) c = stored_chunk_sizes db c"
proof -
  let ?s = "swept db node"
  from assms have "chunk_in_live_layout ?s c" by (simp add: swept_chunk_in_live_layout)
  then obtain olc where olc: "olc \<in> set (object_layout_chunks ?s)" "lc_chunk_id olc = c"
    unfolding chunk_in_live_layout_def by blast
  have chunks: "chunks ?s = filter (\<lambda>x. \<not> sweepable_chunk ?s x) (chunks db)"
    by (simp add: swept_def Let_def delete_chunks_def delete_objects_def delete_storage_locations_def sweepable_chunk_def
        cong: filter_cong)
  have "\<not> sweepable_chunk ?s x" if "c_chunk_id x = c" for x
    using olc that by (auto simp: sweepable_chunk_def)
  then have "filter (\<lambda>x. \<not> sweepable_chunk ?s x \<and> c_chunk_id x = c) (chunks db) =
      filter (\<lambda>x. c_chunk_id x = c) (chunks db)"
    by (intro filter_cong) auto
  then show ?thesis by (simp add: stored_chunk_sizes_def chunks conj_commute)
qed

lemma swept_locations:
  assumes "chunk_in_live_layout db c"
  shows "filter (\<lambda>sl. sl_chunk_id sl = c) (storage_locations (swept db node)) =
         filter (\<lambda>sl. sl_chunk_id sl = c) (storage_locations db)"
  unfolding swept_fields filter_filter
  by (rule filter_cong [OF refl]) (use assms in \<open>auto simp: sweepable_location_def\<close>)

lemma swept_objects:
  assumes "ol \<in> set (object_layouts (swept db node))"
  shows "filter (\<lambda>ob. o_object_id ob = l_object_id ol) (objects (swept db node)) =
         filter (\<lambda>ob. o_object_id ob = l_object_id ol) (objects db)"
proof -
  let ?s = "swept db node"
  have objects: "objects ?s = filter (\<lambda>x. \<not> sweepable_object ?s x) (objects db)"
    unfolding swept_def Let_def delete_chunks_def delete_objects_def delete_storage_locations_def sweepable_object_def
    by simp
  have "\<not> sweepable_object ?s x" if "o_object_id x = l_object_id ol" for x
    using assms that by (auto simp: sweepable_object_def)
  then show ?thesis unfolding objects filter_filter by (intro filter_cong) auto
qed

text \<open>
  C30: The sweep is safe. Exactly the layouts that are not live disappear; a live layout keeps its chunk
  rows and its object row and is still live, so it loads as before; and every chunk of a live layout keeps
  its chunk row and all its storage locations. Locations on other nodes are untouched.
\<close>

theorem sweep_keeps_live_data:
  assumes "layout_ids_distinct db" and "sweep_gc_metadata db node = Inr (db', stats)"
  shows "object_layouts db' = filter (live_layout db) (object_layouts db) \<and>
    (\<forall>ol \<in> set (object_layouts db'). live_layout db' ol \<and>
       layout_rows db' (l_layout_id ol) = layout_rows db (l_layout_id ol) \<and>
       filter (\<lambda>ob. o_object_id ob = l_object_id ol) (objects db') =
       filter (\<lambda>ob. o_object_id ob = l_object_id ol) (objects db)) \<and>
    (\<forall>c. chunk_in_live_layout db c \<longrightarrow> chunk_in_live_layout db' c \<and>
       stored_chunk_sizes db' c = stored_chunk_sizes db c \<and>
       filter (\<lambda>sl. sl_chunk_id sl = c) (storage_locations db') =
       filter (\<lambda>sl. sl_chunk_id sl = c) (storage_locations db)) \<and>
    filter (\<lambda>sl. sl_node_id sl \<noteq> node) (storage_locations db') =
    filter (\<lambda>sl. sl_node_id sl \<noteq> node) (storage_locations db)"
proof -
  note db' = sweep_ok(1) [OF assms(2)] and wf = assms(1)
  have layouts: "live_layout (swept db node) ol \<and>
      layout_rows (swept db node) (l_layout_id ol) = layout_rows db (l_layout_id ol) \<and>
      filter (\<lambda>ob. o_object_id ob = l_object_id ol) (objects (swept db node)) =
      filter (\<lambda>ob. o_object_id ob = l_object_id ol) (objects db)"
    if "ol \<in> set (object_layouts (swept db node))" for ol
    using that swept_live_layout [OF wf] swept_layout_rows [OF wf] swept_objects [OF that]
    by (simp add: swept_fields(1))
  have others: "filter (\<lambda>sl. sl_node_id sl \<noteq> node) (storage_locations (swept db node)) =
      filter (\<lambda>sl. sl_node_id sl \<noteq> node) (storage_locations db)"
    unfolding swept_fields filter_filter by (rule filter_cong [OF refl]) (auto simp: sweepable_location_def)
  show ?thesis
    unfolding db' using layouts others swept_chunks [OF wf] swept_locations
    by (simp only: swept_fields(1) swept_chunk_in_live_layout [OF wf]) blast
qed

lemma delete_nothing:
  "(\<And>sl. sl \<in> set (storage_locations db) \<Longrightarrow> \<not> sweepable_location db node sl) \<Longrightarrow>
     delete_storage_locations db node = db"
  "(\<And>ob. ob \<in> set (objects db) \<Longrightarrow> \<not> sweepable_object db ob) \<Longrightarrow> delete_objects db = db"
  "(\<And>c. c \<in> set (chunks db) \<Longrightarrow> \<not> sweepable_chunk db c) \<Longrightarrow> delete_chunks db = db"
  by (simp_all add: delete_storage_locations_def delete_objects_def delete_chunks_def filter_id_conv
      cong: filter_cong)

lemma swept_objects_chunks:
  "objects (swept db node) = filter (\<lambda>ob. \<not> sweepable_object (swept db node) ob) (objects db)"
  "chunks (swept db node) = filter (\<lambda>c. \<not> sweepable_chunk (swept db node) c) (chunks db)"
  unfolding swept_def Let_def delete_chunks_def delete_objects_def delete_storage_locations_def
    sweepable_object_def sweepable_chunk_def by simp_all

lemma swept_no_dead:
  assumes "layout_ids_distinct db"
  shows "filter (live_layout (swept db node)) (object_layouts (swept db node)) = object_layouts (swept db node)"
    and "dead_layout_ids (swept db node) = {}"
proof -
  have live: "\<forall>ol \<in> set (object_layouts (swept db node)). live_layout (swept db node) ol"
    using swept_live_layout [OF assms] by (simp add: swept_fields(1))
  then show "filter (live_layout (swept db node)) (object_layouts (swept db node)) = object_layouts (swept db node)"
    by (rule filter_True)
  show "dead_layout_ids (swept db node) = {}"
    using live unfolding dead_layout_ids_def by blast
qed

text \<open>The sweep is complete: whatever a sweep could remove for the node is gone when it returns. A
  second sweep of the same node succeeds, removes nothing and leaves the database as it is.
\<close>

theorem sweep_is_complete:
  assumes "layout_ids_distinct db" and "sweep_gc_metadata db node = Inr (db', stats)"
  shows "sweep_gc_metadata db' node =
    Inr (db', \<lparr>storage_locations_swept = 0, chunk_rows_swept = 0, object_layouts_swept = 0, objects_swept = 0\<rparr>)"
proof -
  let ?s = "swept db node"
  note no_dead = swept_no_dead [OF assms(1)] and live = swept_chunk_in_live_layout [OF assms(1)]
  have locations: "delete_storage_locations ?s node = ?s"
    by (rule delete_nothing) (simp add: swept_fields(4) sweepable_location_def live)
  have layouts: "delete_dead_layouts ?s = Inr ?s"
    unfolding delete_dead_layouts_eq by (simp add: no_dead)
  have objects: "delete_objects ?s = ?s"
    by (rule delete_nothing) (subst (asm) swept_objects_chunks, simp)
  have chunks: "delete_chunks ?s = ?s"
    by (rule delete_nothing) (subst (asm) swept_objects_chunks, simp)
  show ?thesis
    unfolding sweep_ok(1) [OF assms(2)] sweep_gc_metadata_def Let_def locations layouts rbind_simps objects chunks
    by simp
qed

subsection \<open>Dry runs\<close>

text \<open>The rows the four statements of the sweep remove, as list lengths.\<close>

lemma length_filter_le_imp:
  "(\<And>x. x \<in> set xs \<Longrightarrow> P x \<Longrightarrow> Q x) \<Longrightarrow> length (filter P xs) \<le> length (filter Q xs)"
  by (induction xs) auto

lemma length_filter_removed: "length xs - length (filter (\<lambda>x. \<not> P x) xs) = length (filter P xs)"
  using sum_length_filter_compl [of P xs] by linarith

lemma sweep_stats:
  assumes "sweep_gc_metadata db node = Inr (db', stats)"
  shows "stats = \<lparr>storage_locations_swept = of_nat (length (filter (sweepable_location db node) (storage_locations db))),
      chunk_rows_swept = of_nat (length (filter (sweepable_chunk db') (chunks db))),
      object_layouts_swept = of_nat (length (filter (\<lambda>ol. \<not> live_layout db ol) (object_layouts db))),
      objects_swept = of_nat (length (filter (sweepable_object db') (objects db)))\<rparr>"
proof -
  let ?db1 = "delete_storage_locations db node"
  define counts where "counts db2 =
      \<lparr>storage_locations_swept = (of_nat (length (storage_locations db) - length (storage_locations ?db1)) :: u64),
       chunk_rows_swept = of_nat (length (chunks (delete_objects db2)) - length (chunks (delete_chunks (delete_objects db2)))),
       object_layouts_swept = of_nat (length (object_layouts ?db1) - length (object_layouts db2)),
       objects_swept = of_nat (length (objects db2) - length (objects (delete_objects db2)))\<rparr>" for db2
  have "\<exists>db2. delete_dead_layouts ?db1 = Inr db2 \<and>
      (Inr (delete_chunks (delete_objects db2), counts db2) :: _ res) = Inr (db', stats)"
    using assms unfolding sweep_gc_metadata_def Let_def rbind_eq_Inr counts_def .
  then obtain db2 where del: "delete_dead_layouts ?db1 = Inr db2"
    and db': "db' = delete_chunks (delete_objects db2)" and stats: "stats = counts db2"
    by blast
  have db2: "objects db2 = objects db" "chunks db2 = chunks db"
    "object_layouts db2 = filter (live_layout db) (object_layouts db)"
    using del unfolding delete_dead_layouts_eq delete_storage_locations_live if_Inl_eq_Inr Inr_eq_Inr
    by (elim conjE, hypsubst, simp add: delete_storage_locations_def)+
  have same: "sweepable_object db2 = sweepable_object db'" "sweepable_chunk (delete_objects db2) = sweepable_chunk db'"
    unfolding db' by (simp_all add: fun_eq_iff sweepable_object_def sweepable_chunk_def delete_chunks_def delete_objects_def)
  have locations: "storage_locations ?db1 = filter (\<lambda>sl. \<not> sweepable_location db node sl) (storage_locations db)"
    "object_layouts ?db1 = object_layouts db"
    by (simp_all add: delete_storage_locations_def)
  have objects: "objects (delete_objects db2) = filter (\<lambda>ob. \<not> sweepable_object db' ob) (objects db)"
    by (simp add: delete_objects_def db2 same)
  have chunks: "chunks (delete_objects db2) = chunks db"
    by (simp add: delete_objects_def db2)
  have kept: "chunks (delete_chunks (delete_objects db2)) = filter (\<lambda>c. \<not> sweepable_chunk db' c) (chunks db)"
    by (simp add: delete_chunks_def same chunks)
  have dead: "length (object_layouts db) - length (filter (live_layout db) (object_layouts db)) =
      length (filter (\<lambda>ol. \<not> live_layout db ol) (object_layouts db))"
    using sum_length_filter_compl [of "live_layout db" "object_layouts db"] by linarith
  have "length (storage_locations db) - length (storage_locations ?db1) =
      length (filter (sweepable_location db node) (storage_locations db))"
    unfolding locations(1) by (rule length_filter_removed)
  moreover have "length (chunks (delete_objects db2)) - length (chunks (delete_chunks (delete_objects db2))) =
      length (filter (sweepable_chunk db') (chunks db))"
    unfolding chunks kept by (rule length_filter_removed)
  moreover have "length (object_layouts ?db1) - length (object_layouts db2) =
      length (filter (\<lambda>ol. \<not> live_layout db ol) (object_layouts db))"
    unfolding locations(2) db2(3) by (rule dead)
  moreover have "length (objects db2) - length (objects (delete_objects db2)) =
      length (filter (sweepable_object db') (objects db))"
    unfolding objects db2(1) by (rule length_filter_removed)
  ultimately show ?thesis
    unfolding stats counts_def by (simp only:)
qed

text \<open>What a dry run announces, against what the sweep then does on the same database. The counts of
  storage locations and layouts agree; the counts of objects and chunk rows are lower bounds, because the
  dry run counts on the database before the other deletions.
\<close>

theorem dry_run_counts_bound_sweep:
  assumes "sweep_gc_metadata db node = Inr (db', stats)"
    and "length (chunks db) < 2 ^ 64" and "length (objects db) < 2 ^ 64"
  shows "let dry = count_gc_metadata_sweep_candidates db node
    in storage_locations_swept dry = storage_locations_swept stats \<and>
       object_layouts_swept dry = object_layouts_swept stats \<and>
       objects_swept dry \<le> objects_swept stats \<and> chunk_rows_swept dry \<le> chunk_rows_swept stats"
proof -
  note db' = sweep_ok(1) [OF assms(1)]
  have mono: "sweepable_object db ob \<Longrightarrow> sweepable_object db' ob" "sweepable_chunk db c \<Longrightarrow> sweepable_chunk db' c" for ob c
    unfolding db' by (auto simp: sweepable_object_def sweepable_chunk_def swept_fields)
  have small: "length (filter P xs) < 2 ^ 64" if "length xs < 2 ^ 64" for P and xs :: "'a list"
    using that length_filter_le [of P xs] by linarith
  have le: "(of_nat m :: u64) \<le> of_nat n" if "m \<le> n" "n < 2 ^ 64" for m n
    using that by (simp add: word_le_nat_alt unat_of_nat)
  show ?thesis
    unfolding sweep_stats [OF assms(1)] count_gc_metadata_sweep_candidates_def Let_def gc_metadata_stats.simps
    using le [OF length_filter_le_imp small [OF assms(3)]] le [OF length_filter_le_imp small [OF assms(2)]] mono
    by simp
qed

subsection \<open>Completing a run\<close>

lemma complete_gc_row_state:
  "complete_gc_row physical_stats metadata_stats row = Inr row' \<Longrightarrow>
   g_state row' = GcCompleted \<and> g_run_id row' = g_run_id row \<and> g_mode row' = g_mode row \<and>
   g_target_node_id row' = g_target_node_id row"
  unfolding complete_gc_row_def run_simps by (elim exE conjE) (hypsubst, simp)

lemma load_gc_run_row:
  assumes "load_gc_run db rid = Inr (Some run)"
  obtains row where "gc_run_rows db rid = [row]" and "reconstruct_gc_run_from_row row = Inr run"
proof -
  obtain stored where stored: "query01 (gc_run_rows db rid) = Inr stored"
    using assms unfolding load_gc_run_def rbind_eq_Inr by blast
  then have eq: "(case stored of None \<Rightarrow> Inr None
      | Some row \<Rightarrow> rbind (reconstruct_gc_run_from_row row) (\<lambda>run. Inr (Some run))) = Inr (Some run)"
    using assms unfolding load_gc_run_def by simp
  then obtain row where row: "stored = Some row" by (cases stored) simp_all
  show thesis
    by (rule that [of row]) (use stored eq row in \<open>auto simp: query01_Some rbind_eq_Inr\<close>)
qed

lemma reconstruct_gc_run_state:
  "reconstruct_gc_run_from_row row = Inr run \<Longrightarrow>
   gr_state run = g_state row \<and> gr_mode run = g_mode row \<and> gr_target_node_id run = g_target_node_id row"
  unfolding reconstruct_gc_run_from_row_def run_simps by (elim exE conjE) (hypsubst, simp)

lemma update_gc_run_completed:
  assumes "update_gc_run db rid physical_stats metadata_stats = Inr db'" and "row \<in> set (gc_run_rows db' rid)"
  shows "g_state row = GcCompleted"
proof -
  obtain rows where rows: "map_res (\<lambda>g. if g_run_id g = rid then complete_gc_row physical_stats metadata_stats g else Inr g)
      (gc_runs db) = Inr rows" and db': "db' = db\<lparr>gc_runs := rows\<rparr>"
    using assms(1) unfolding update_gc_run_def run_simps by blast
  from assms(2) have "row \<in> set rows" and id: "g_run_id row = rid" unfolding db' gc_run_rows_def by simp_all
  from map_res_set [OF rows this(1)] obtain g where "(if g_run_id g = rid
      then complete_gc_row physical_stats metadata_stats g else Inr g) = Inr row" by blast
  with id show ?thesis by (auto split: if_splits dest: complete_gc_row_state)
qed

interpretation gc_runs: completable_run gc_run_rows "\<lambda>db. reconstruct_gc_run_from_row"
  "\<lambda>run. gr_state run = GcCompleted" complete_gc_run
proof unfold_locales
  fix db rid row rest run and s :: gc_physical_stats
  assume "gc_run_rows db rid = row # rest" and "reconstruct_gc_run_from_row row = Inr run" and "gr_state run = GcCompleted"
  then show "complete_gc_run db rid s = Inr (db, run)" by (simp add: complete_gc_run_def)
next
  fix db db' rid run and s :: gc_physical_stats
  assume ok: "complete_gc_run db rid s = Inr (db', run)"
  obtain row rest where rows: "gc_run_rows db rid = row # rest"
    using ok unfolding complete_gc_run_def by (cases "gc_run_rows db rid") simp_all
  obtain stored where stored: "reconstruct_gc_run_from_row row = Inr stored"
    using ok unfolding complete_gc_run_def rows list.case rbind_eq_Inr by blast
  note run = ok [unfolded complete_gc_run_def rows list.case stored rbind_simps]
  show "gr_state run = GcCompleted \<and>
      (\<exists>row rest. gc_run_rows db' rid = row # rest \<and> reconstruct_gc_run_from_row row = Inr run)"
  proof (cases "gr_state stored = GcCompleted")
    case True
    with run rows stored show ?thesis by simp
  next
    case False
    have "\<exists>a b. update_gc_run a rid s b = Inr db' \<and> load_gc_run db' rid = Inr (Some run)"
      using run unfolding if_not_P [OF False] run_simps prod.inject
      by (elim exE conjE) (hypsubst, simp, blast)
    then obtain a b where upd: "update_gc_run a rid s b = Inr db'"
      and loaded: "load_gc_run db' rid = Inr (Some run)" by blast
    obtain row' where row': "gc_run_rows db' rid = [row']" "reconstruct_gc_run_from_row row' = Inr run"
      by (rule load_gc_run_row [OF loaded])
    have "gr_state run = GcCompleted"
      using update_gc_run_completed [OF upd, of row'] reconstruct_gc_run_state [OF row'(2)] row'(1) by simp
    with row' show ?thesis by simp
  qed
qed

text \<open>Completing a run is idempotent: once \<open>complete_gc_run\<close> has returned a run, the run is completed,
  and completing it again, with whatever statistics, returns the same run and changes nothing.
\<close>

theorem complete_gc_run_idempotent:
  assumes "complete_gc_run db rid physical_stats = Inr (db', run)"
  shows "gr_state run = GcCompleted \<and> complete_gc_run db' rid other_stats = Inr (db', run)"
  using assms by (rule gc_runs.idempotent)

text \<open>
  C33: A replication run outlives the layout it names. \<open>replication_runs.layout_id\<close> restricts the
  deletion of the layout, so once the replicated version is retired and its layout is no longer live,
  completing an open run in apply mode fails with a foreign key violation, whatever the statistics. The
  run stays open, and while it does no upload session can be created.
\<close>

theorem stale_replication_run_blocks_gc:
  assumes "gc_run_rows db rid = [row]" and "g_state row = GcOpen" and "g_mode row = GcApply"
    and "reconstruct_gc_run_from_row row = Inr run" and "\<not> open_upload_sessions_present db"
    and "rr \<in> set (replication_runs db)" and "ol \<in> set (object_layouts db)"
    and "l_layout_id ol = rr_layout_id rr" and "\<not> live_layout db ol"
  shows "complete_gc_run db rid physical_stats = Inl Foreign_key_violation \<and>
    (\<forall>session. \<exists>e. create_upload_session db session = Inl e)"
proof -
  have "rr_layout_id rr \<in> dead_layout_ids db"
    unfolding dead_layout_ids_def using assms(7-9) by (metis (mono_tags, lifting) imageI mem_Collect_eq)
  then have "\<exists>rr \<in> set (replication_runs (delete_storage_locations db node)).
      rr_layout_id rr \<in> dead_layout_ids (delete_storage_locations db node)" for node
    using assms(6) unfolding delete_storage_locations_live
    by (rule_tac bexI [of _ rr]) (simp_all add: delete_storage_locations_def)
  then have sweep: "sweep_gc_metadata db node = Inl Foreign_key_violation" for node
    by (simp only: sweep_gc_metadata_def Let_def delete_dead_layouts_eq if_True rbind_simps)
  have "gr_state run = GcOpen" "gr_mode run = GcApply"
    using reconstruct_gc_run_state [OF assms(4)] assms(2,3) by simp_all
  then have "complete_gc_run db rid physical_stats = Inl Foreign_key_violation"
    unfolding complete_gc_run_def assms(1) list.case assms(4) rbind_simps
    using assms(5) by (simp add: ensure_no_open_upload_sessions_def sweep)
  moreover have "gc_in_progress db"
  proof -
    have "row \<in> set (filter (\<lambda>g. g_run_id g = rid) (gc_runs db))"
      using assms(1) unfolding gc_run_rows_def by simp
    with assms(2) show ?thesis unfolding gc_in_progress_def by auto
  qed
  then have "\<exists>e. create_upload_session db session = Inl e" for session
    by (simp add: create_upload_session_def)
  ultimately show ?thesis by blast
qed

subsection \<open>A worked database\<close>

text \<open>Two layouts of one chunk each on the node \<open>node-a\<close>. Only the object \<open>a\<close> is the root of a version, so
  the layout of \<open>b\<close> is dead. One open run in apply mode.\<close>

definition sample_gc_layout :: "char \<Rightarrow> char \<Rightarrow> layout_row" where
  "sample_gc_layout l ob =
     \<lparr>l_layout_id = sample_id l, l_object_id = sample_id ob, l_descriptor_version = 1, l_chunking_strategy = FixedSize,
      l_fastcdc_min = None, l_fastcdc_avg = None, l_fastcdc_max = None, l_canonical_descriptor = [],
      l_total_size_bytes = 5, l_chunk_count = 1\<rparr>"

definition sample_gc_row :: gc_run_row where
  "sample_gc_row =
     \<lparr>g_run_id = sample_uuid, g_target_node_id = ''node-a'', g_mode = GcApply, g_state = GcOpen,
      g_physical_chunks_scanned = 0, g_physical_bytes_scanned = 0, g_collectible_chunks = 0,
      g_collectible_bytes = 0, g_physically_deleted_chunks = 0, g_physically_deleted_bytes = 0,
      g_storage_locations_swept = 0, g_chunk_rows_swept = 0, g_object_layouts_swept = 0, g_objects_swept = 0\<rparr>"

definition sample_gc_db :: database where
  "sample_gc_db = empty_database
     \<lparr>objects := [\<lparr>o_object_id = sample_id (CHR ''a''), o_total_size_bytes = 5\<rparr>,
                  \<lparr>o_object_id = sample_id (CHR ''b''), o_total_size_bytes = 5\<rparr>],
      chunks := [\<lparr>c_chunk_id = sample_id (CHR ''c''), c_size_bytes = 5\<rparr>,
                 \<lparr>c_chunk_id = sample_id (CHR ''d''), c_size_bytes = 5\<rparr>],
      object_layouts := [sample_gc_layout (CHR ''1'') (CHR ''a''), sample_gc_layout (CHR ''2'') (CHR ''b'')],
      object_layout_chunks :=
        [\<lparr>lc_layout_id = sample_id (CHR ''1''), lc_chunk_index = 0, lc_chunk_id = sample_id (CHR ''c''),
          lc_byte_offset = 0, lc_chunk_size_bytes = 5\<rparr>,
         \<lparr>lc_layout_id = sample_id (CHR ''2''), lc_chunk_index = 0, lc_chunk_id = sample_id (CHR ''d''),
          lc_byte_offset = 0, lc_chunk_size_bytes = 5\<rparr>],
      storage_locations :=
        [\<lparr>sl_chunk_id = sample_id (CHR ''c''), sl_node_id = ''node-a'', sl_storage_path = ''p'', sl_state = Available\<rparr>,
         \<lparr>sl_chunk_id = sample_id (CHR ''d''), sl_node_id = ''node-a'', sl_storage_path = ''p'', sl_state = Available\<rparr>],
      artifact_versions :=
        [\<lparr>v_version_id = sample_id (CHR ''e''), v_artifact_id = sample_uuid, v_root_object_id = sample_id (CHR ''a''),
          v_parent_version_id = None, v_descriptor_version = 1, v_canonical_descriptor = [],
          v_state = VersionCommitted, v_created_at = 0\<rparr>],
      gc_runs := [sample_gc_row]\<rparr>"

lemma sample_gc_fields [simp]:
  "l_layout_id (sample_gc_layout l ob) = sample_id l"
  "l_object_id (sample_gc_layout l ob) = sample_id ob"
  by (simp_all add: sample_gc_layout_def)

lemma sample_gc_live:
  "live_layout sample_gc_db (sample_gc_layout l ob) \<longleftrightarrow> sample_id ob = sample_id (CHR ''a'')"
  by (auto simp: live_layout_def is_version_retired_def sample_gc_db_def empty_database_def)

lemma sample_gc_facts:
  "layout_ids_distinct sample_gc_db"
  "filter (live_layout sample_gc_db) (object_layouts sample_gc_db) = [sample_gc_layout (CHR ''1'') (CHR ''a'')]"
  "replication_runs sample_gc_db = []" "length (chunks sample_gc_db) = 2" "length (objects sample_gc_db) = 2"
  "object_layouts sample_gc_db = [sample_gc_layout (CHR ''1'') (CHR ''a''), sample_gc_layout (CHR ''2'') (CHR ''b'')]"
proof -
  show layouts: "object_layouts sample_gc_db =
      [sample_gc_layout (CHR ''1'') (CHR ''a''), sample_gc_layout (CHR ''2'') (CHR ''b'')]"
    by (simp add: sample_gc_db_def)
  show "layout_ids_distinct sample_gc_db" by (simp add: layout_ids_distinct_def layouts sample_id_def)
  show "filter (live_layout sample_gc_db) (object_layouts sample_gc_db) = [sample_gc_layout (CHR ''1'') (CHR ''a'')]"
    unfolding layouts by (simp add: sample_gc_live) (simp add: sample_id_def)
qed (simp_all add: sample_gc_db_def empty_database_def)

lemma sample_sweep_ok: "\<exists>db' stats. sweep_gc_metadata sample_gc_db ''node-a'' = Inr (db', stats)"
proof -
  have "replication_runs (delete_storage_locations sample_gc_db ''node-a'') = []"
    by (simp add: delete_storage_locations_def sample_gc_facts)
  then show ?thesis
    by (simp add: sweep_gc_metadata_def Let_def delete_dead_layouts_eq)
qed

theorem sweep_keeps_live_data_witness:
  "case sweep_gc_metadata sample_gc_db ''node-a'' of
     Inr (db', stats) \<Rightarrow> object_layouts db' = [sample_gc_layout (CHR ''1'') (CHR ''a'')]
   | Inl e \<Rightarrow> False"
proof -
  from sample_sweep_ok obtain db' stats where sweep: "sweep_gc_metadata sample_gc_db ''node-a'' = Inr (db', stats)"
    by blast
  show ?thesis
    using sweep_keeps_live_data [OF sample_gc_facts(1) sweep, THEN conjunct1] unfolding sweep sample_gc_facts(2) by simp
qed

theorem sweep_is_complete_witness:
  "case sweep_gc_metadata sample_gc_db ''node-a'' of
     Inr (db', stats) \<Rightarrow> sweep_gc_metadata db' ''node-a'' = Inr (db',
        \<lparr>storage_locations_swept = 0, chunk_rows_swept = 0, object_layouts_swept = 0, objects_swept = 0\<rparr>)
   | Inl e \<Rightarrow> False"
proof -
  from sample_sweep_ok obtain db' stats where sweep: "sweep_gc_metadata sample_gc_db ''node-a'' = Inr (db', stats)"
    by blast
  show ?thesis
    using sweep_is_complete [OF sample_gc_facts(1) sweep] by (simp add: sweep)
qed

theorem dry_run_counts_bound_sweep_witness:
  "case sweep_gc_metadata sample_gc_db ''node-a'' of
     Inr (db', stats) \<Rightarrow>
       object_layouts_swept (count_gc_metadata_sweep_candidates sample_gc_db ''node-a'') = object_layouts_swept stats
   | Inl e \<Rightarrow> False"
proof -
  from sample_sweep_ok obtain db' stats where sweep: "sweep_gc_metadata sample_gc_db ''node-a'' = Inr (db', stats)"
    by blast
  show ?thesis
    using dry_run_counts_bound_sweep [OF sweep] by (simp add: sweep sample_gc_facts Let_def)
qed

text \<open>The counts of objects and chunks are strict lower bounds here: the dry run still sees the rows of the dead
  layout, which the sweep deletes first.\<close>

lemma sample_dry_run_undercounts:
  "case sweep_gc_metadata sample_gc_db ''node-a'' of
     Inr (db', stats) \<Rightarrow>
       let dry = count_gc_metadata_sweep_candidates sample_gc_db ''node-a''
       in objects_swept dry = 0 \<and> objects_swept stats = 1 \<and> chunk_rows_swept dry = 0 \<and> chunk_rows_swept stats = 1
   | Inl e \<Rightarrow> False"
  by code_simp

text \<open>The same database with a completed replication run that names the dead layout.\<close>

definition stale_run_db :: database where
  "stale_run_db = sample_gc_db
     \<lparr>replication_runs :=
        [\<lparr>rr_run_id = sample_uuid, rr_version_id = sample_id (CHR ''f''), rr_layout_id = sample_id (CHR ''2''),
          rr_replication_factor = 1, rr_state = ReplCompleted, rr_chunks_scanned = 0, rr_chunks_under_replicated = 0,
          rr_replicas_verified = 0, rr_replicas_written = 0, rr_bytes_copied = 0, rr_source_failovers = 0\<rparr>]\<rparr>"

definition zero_physical_stats :: gc_physical_stats where
  "zero_physical_stats =
     \<lparr>physical_chunks_scanned = 0, physical_bytes_scanned = 0, collectible_chunks = 0, collectible_bytes = 0,
      physically_deleted_chunks = 0, physically_deleted_bytes = 0\<rparr>"

lemma sample_gc_run: "\<exists>run. reconstruct_gc_run_from_row sample_gc_row = Inr run"
  using sample_uuid_ok
  by (simp add: reconstruct_gc_run_from_row_def sample_gc_row_def require_non_negative_def uuid_v7_def is_uuid_def)

theorem stale_replication_run_blocks_gc_witness:
  "complete_gc_run stale_run_db sample_uuid zero_physical_stats = Inl Foreign_key_violation"
proof -
  obtain run where run: "reconstruct_gc_run_from_row sample_gc_row = Inr run" using sample_gc_run by blast
  have stale_run: "hd (replication_runs stale_run_db) \<in> set (replication_runs stale_run_db)"
    by (simp add: stale_run_db_def)
  have dead: "\<not> live_layout stale_run_db (sample_gc_layout (CHR ''2'') (CHR ''b''))"
    by (simp add: live_layout_def is_version_retired_def stale_run_db_def sample_gc_db_def empty_database_def sample_id_def)
  show ?thesis
    by (rule stale_replication_run_blocks_gc [THEN conjunct1, OF _ _ _ run _ stale_run _ _ dead])
      (simp_all add: gc_run_rows_def stale_run_db_def sample_gc_db_def sample_gc_row_def empty_database_def
        open_upload_sessions_present_def)
qed

definition dry_run_db :: database where
  "dry_run_db = empty_database\<lparr>gc_runs := [sample_gc_row\<lparr>g_mode := GcDryRun\<rparr>]\<rparr>"

lemma complete_dry_run: "\<exists>p. complete_gc_run dry_run_db sample_uuid zero_physical_stats = Inr p"
  using sample_uuid_ok
  by (simp add: complete_gc_run_def gc_run_rows_def dry_run_db_def sample_gc_row_def empty_database_def
      reconstruct_gc_run_from_row_def require_non_negative_def uuid_v7_def is_uuid_def
      ensure_no_open_upload_sessions_def open_upload_sessions_present_def count_gc_metadata_sweep_candidates_def
      update_gc_run_def complete_gc_row_def to_postgres_bigint_def zero_physical_stats_def load_gc_run_def query01_def)

theorem complete_gc_run_idempotent_witness:
  "case complete_gc_run dry_run_db sample_uuid zero_physical_stats of
     Inr (db', run) \<Rightarrow> complete_gc_run db' sample_uuid zero_physical_stats = Inr (db', run)
   | Inl e \<Rightarrow> False"
proof -
  obtain db' run where run: "complete_gc_run dry_run_db sample_uuid zero_physical_stats = Inr (db', run)"
    using complete_dry_run by fast
  show ?thesis using complete_gc_run_idempotent [OF run] by (simp add: run)
qed

end
