(* ===== verification/Repo_Lifecycle.thy ===== *)
theory Repo_Lifecycle
  imports Repo_Gc
begin

section \<open>Repository: lifecycle policies and runs\<close>

text \<open>
  \<open>register_lifecycle_policy\<close>, the pins, \<open>run_lifecycle\<close> with its candidates, ranking, decisions and
  statistics, and \<open>list_lifecycle_decisions\<close>. The clock reading of a run, in milliseconds, is an
  argument. The C++ code holds \<open>created_at\<close> and the ages in \<open>double\<close> seconds; the model computes with
  exact integers (microseconds), of which the double comparisons are the rounded form.

  The lemmas relate the running rank to a count over the sorted candidates and show what a retirement
  implies, that a dry run announces exactly the retirements of an apply run, that the statistics
  partition the scanned versions, and that the pages of the decision list cover it.
\<close>

subsection \<open>Policies\<close>

text \<open>\<open>std::map::operator==\<close> on the rules: the same kinds with the same rules.\<close>

definition rules_equal ::
  "(artifact_kind \<times> lifecycle_rule) list \<Rightarrow> (artifact_kind \<times> lifecycle_rule) list \<Rightarrow> bool" where
  "rules_equal l r \<longleftrightarrow> (\<forall>k \<in> set kAllArtifactKinds. map_of l k = map_of r k)"

definition load_policy_rule ::
  "rule_row \<Rightarrow> (artifact_kind \<times> lifecycle_rule) list \<Rightarrow> (artifact_kind \<times> lifecycle_rule) list res" where
  "load_policy_rule row rules =
     (if pr_keep_last_n row < 0 then Inl Runtime_error
      else if (case pr_max_age_seconds row of Some age \<Rightarrow> age < 0 | None \<Rightarrow> False) then Inl Runtime_error
      else if map_of rules (pr_artifact_kind row) \<noteq> None then Inr rules
      else Inr (rules @ [(pr_artifact_kind row,
             \<lparr>lr_artifact_kind = pr_artifact_kind row, lr_keep_last_n = word_of_int (pr_keep_last_n row),
              lr_max_age_seconds = map_option word_of_int (pr_max_age_seconds row)\<rparr>)]))"

definition policy_rule_rows :: "database \<Rightarrow> string \<Rightarrow> rule_row list" where
  "policy_rule_rows db policy_id =
     sort_key (\<lambda>r. artifact_kind_to_string (pr_artifact_kind r))
       (filter (\<lambda>r. pr_policy_id r = policy_id) (lifecycle_policy_rules db))"

definition load_lifecycle_policy :: "database \<Rightarrow> string \<Rightarrow> lifecycle_policy option res" where
  "load_lifecycle_policy db policy_id =
     rbind (query01 (filter (\<lambda>p. p_policy_id p = policy_id) (lifecycle_policies db))) (\<lambda>stored.
     case stored of
       None \<Rightarrow> Inr None
     | Some row \<Rightarrow>
         rbind (uuid_v7 (p_policy_id row)) (\<lambda>stored_policy_id.
         rbind (fold_res load_policy_rule (policy_rule_rows db policy_id) []) (\<lambda>rules.
         Inr (Some \<lparr>lp_policy_id = stored_policy_id, lp_name = p_name row, lp_rules = rules\<rparr>))))"

definition get_lifecycle_policy :: "database \<Rightarrow> string \<Rightarrow> lifecycle_policy option res" where
  "get_lifecycle_policy db policy_id = load_lifecycle_policy db policy_id"

definition insert_policy_rule ::
  "string \<Rightarrow> artifact_kind \<times> lifecycle_rule \<Rightarrow> rule_row list \<Rightarrow> rule_row list res" where
  "insert_policy_rule policy_id kr rows =
     (case kr of (kind, rule) \<Rightarrow>
        rbind (optional_bigint (lr_max_age_seconds rule)) (\<lambda>max_age.
        if \<exists>r \<in> set rows. pr_policy_id r = policy_id \<and> pr_artifact_kind r = kind then Inl Unique_violation
        else Inr (rows @ [\<lparr>pr_policy_id = policy_id, pr_artifact_kind = kind,
               pr_keep_last_n = sint (lr_keep_last_n rule), pr_max_age_seconds = max_age\<rparr>])))"

definition register_lifecycle_policy :: "database \<Rightarrow> lifecycle_policy \<Rightarrow> database res" where
  "register_lifecycle_policy db policy =
     rbind (validate_lifecycle_policy policy) (\<lambda>_.
     rbind (load_lifecycle_policy db (lp_policy_id policy)) (\<lambda>existing.
     case existing of
       Some stored \<Rightarrow>
         if lp_name stored = lp_name policy \<and> rules_equal (lp_rules stored) (lp_rules policy) then Inr db
         else Inl (Lifecycle_error PolicyConflict)
     | None \<Rightarrow>
         rbind (fold_res (insert_policy_rule (lp_policy_id policy)) (lp_rules policy) (lifecycle_policy_rules db))
           (\<lambda>rows.
         Inr (db\<lparr>lifecycle_policies := lifecycle_policies db @
                   [\<lparr>p_policy_id = lp_policy_id policy, p_name = lp_name policy\<rparr>],
                 lifecycle_policy_rules := rows\<rparr>))))"

subsection \<open>Pins\<close>

definition kMaxPinReasonBytes :: nat where
  "kMaxPinReasonBytes = 256"

definition pin_version :: "hash \<Rightarrow> database \<Rightarrow> string \<Rightarrow> string \<Rightarrow> database res" where
  "pin_version H db version_id reason =
     rbind (check_content_id version_id) (\<lambda>_.
     if reason = [] \<or> kMaxPinReasonBytes < length reason then Inl (Lifecycle_error InvalidRequest)
     else
       rbind (load_version H db version_id) (\<lambda>version.
       case version of
         None \<Rightarrow> Inl (Lifecycle_error LifecycleVersionNotFound)
       | Some v \<Rightarrow>
           if av_state v \<noteq> VersionCommitted then Inl (Lifecycle_error InvalidRequest)
           else if is_version_retired db version_id then Inl (Lifecycle_error LifecycleVersionRetired)
           else if \<exists>p \<in> set (artifact_version_pins db). pin_version_id p = version_id
           then Inr (db\<lparr>artifact_version_pins :=
                  map (\<lambda>p. if pin_version_id p = version_id then p\<lparr>pin_reason := reason\<rparr> else p)
                    (artifact_version_pins db)\<rparr>)
           else Inr (db\<lparr>artifact_version_pins := artifact_version_pins db @
                  [\<lparr>pin_version_id = version_id, pin_reason = reason\<rparr>]\<rparr>)))"

definition unpin_version :: "database \<Rightarrow> string \<Rightarrow> (database \<times> bool) res" where
  "unpin_version db version_id =
     rbind (check_content_id version_id) (\<lambda>_.
     let kept = filter (\<lambda>p. pin_version_id p \<noteq> version_id) (artifact_version_pins db)
     in Inr (db\<lparr>artifact_version_pins := kept\<rparr>, length kept < length (artifact_version_pins db)))"

definition get_version_pin :: "database \<Rightarrow> string \<Rightarrow> string option res" where
  "get_version_pin db version_id =
     rbind (check_content_id version_id) (\<lambda>_.
     query01 (map pin_reason (filter (\<lambda>p. pin_version_id p = version_id) (artifact_version_pins db))))"

subsection \<open>Runs and their statistics\<close>

record lifecycle_stats =
  versions_scanned :: u64
  versions_protected :: u64
  versions_retained_by_policy :: u64
  versions_candidates :: u64
  versions_retired :: u64
  logical_bytes_candidates :: u64
  logical_bytes_retired :: u64

record lifecycle_run =
  lcr_run_id :: string
  lcr_policy_id :: string
  lcr_mode :: lifecycle_run_mode
  lcr_evaluated_at_unix_ms :: int
  lcr_stats :: lifecycle_stats

record lifecycle_decision =
  ld_version_id :: string
  ld_artifact_id :: string
  ld_artifact_kind :: artifact_kind
  ld_retire :: bool
  ld_reason :: lifecycle_decision_reason
  ld_logical_size_bytes :: u64

definition lifecycle_run_rows :: "database \<Rightarrow> string \<Rightarrow> lifecycle_run_row list" where
  "lifecycle_run_rows db run_id = filter (\<lambda>r. lrn_run_id r = run_id) (lifecycle_runs db)"

definition reconstruct_lifecycle_run :: "lifecycle_run_row \<Rightarrow> lifecycle_run res" where
  "reconstruct_lifecycle_run row =
     rbind (uuid_v7 (lrn_run_id row)) (\<lambda>run_id.
     rbind (uuid_v7 (lrn_policy_id row)) (\<lambda>policy_id.
     rbind (require_non_negative (lrn_versions_scanned row)) (\<lambda>scanned.
     rbind (require_non_negative (lrn_versions_protected row)) (\<lambda>protected.
     rbind (require_non_negative (lrn_versions_retained_by_policy row)) (\<lambda>retained.
     rbind (require_non_negative (lrn_versions_candidates row)) (\<lambda>candidates.
     rbind (require_non_negative (lrn_versions_retired row)) (\<lambda>retired.
     rbind (require_non_negative (lrn_logical_bytes_candidates row)) (\<lambda>bytes_candidates.
     rbind (require_non_negative (lrn_logical_bytes_retired row)) (\<lambda>bytes_retired.
     Inr \<lparr>lcr_run_id = run_id, lcr_policy_id = policy_id, lcr_mode = lrn_mode row,
          lcr_evaluated_at_unix_ms = lrn_evaluated_at_ms row,
          lcr_stats = \<lparr>versions_scanned = scanned, versions_protected = protected,
            versions_retained_by_policy = retained, versions_candidates = candidates, versions_retired = retired,
            logical_bytes_candidates = bytes_candidates, logical_bytes_retired = bytes_retired\<rparr>\<rparr>)))))))))"

definition load_lifecycle_run :: "database \<Rightarrow> string \<Rightarrow> lifecycle_run option res" where
  "load_lifecycle_run db run_id =
     rbind (query01 (lifecycle_run_rows db run_id)) (\<lambda>stored.
     case stored of
       None \<Rightarrow> Inr None
     | Some row \<Rightarrow> rbind (reconstruct_lifecycle_run row) (\<lambda>run. Inr (Some run)))"

definition get_lifecycle_run :: "database \<Rightarrow> string \<Rightarrow> lifecycle_run option res" where
  "get_lifecycle_run db run_id = load_lifecycle_run db run_id"

subsection \<open>Candidates\<close>

record lifecycle_candidate =
  ca_version_id :: string
  ca_artifact_id :: string
  ca_artifact_kind :: artifact_kind
  ca_created_at :: int
  ca_logical_size_bytes :: u64
  ca_pinned :: bool
  ca_tagged :: bool
  ca_manifest_referenced :: bool
  ca_rank_in_kind :: u32

definition is_pinned :: "database \<Rightarrow> string \<Rightarrow> bool" where
  "is_pinned db version_id \<longleftrightarrow> (\<exists>p \<in> set (artifact_version_pins db). pin_version_id p = version_id)"

definition is_tagged :: "database \<Rightarrow> string \<Rightarrow> bool" where
  "is_tagged db version_id \<longleftrightarrow> (\<exists>t \<in> set (tags db). tg_version_id t = version_id)"

definition is_manifest_referenced :: "database \<Rightarrow> string \<Rightarrow> bool" where
  "is_manifest_referenced db version_id \<longleftrightarrow> (\<exists>e \<in> set (manifest_entries db). t_value e = version_id)"

text \<open>The rows of the candidate query: a committed version without a retirement, joined with its object.\<close>

definition candidate_rows :: "database \<Rightarrow> (version_row \<times> int) list" where
  "candidate_rows db =
     concat (map (\<lambda>v. map (\<lambda>ob. (v, o_total_size_bytes ob))
                    (filter (\<lambda>ob. o_object_id ob = v_root_object_id v) (objects db)))
       (filter (\<lambda>v. v_state v = VersionCommitted \<and> \<not> is_version_retired db (v_version_id v))
          (artifact_versions db)))"

text \<open>The scalar subquery fails on more than one row.\<close>

definition candidate_kind_metadata :: "database \<Rightarrow> string \<Rightarrow> string option res" where
  "candidate_kind_metadata db version_id =
     query01 (map t_value (filter (\<lambda>t. t_owner t = version_id \<and> t_key t = kArtifactKindMetadataKey)
       (artifact_version_metadata db)))"

definition candidate_of :: "database \<Rightarrow> version_row \<times> int \<Rightarrow> lifecycle_candidate res" where
  "candidate_of db row =
     (case row of (v, total_size_bytes) \<Rightarrow>
        rbind (candidate_kind_metadata db (v_version_id v)) (\<lambda>kind_metadata.
        if total_size_bytes < 0 then Inl Runtime_error
        else
          rbind (uuid_v7 (v_artifact_id v)) (\<lambda>artifact_id.
          rbind (resolve_artifact_kind kind_metadata) (\<lambda>kind.
          Inr \<lparr>ca_version_id = v_version_id v, ca_artifact_id = artifact_id, ca_artifact_kind = kind,
               ca_created_at = v_created_at v, ca_logical_size_bytes = word_of_int total_size_bytes,
               ca_pinned = is_pinned db (v_version_id v), ca_tagged = is_tagged db (v_version_id v),
               ca_manifest_referenced = is_manifest_referenced db (v_version_id v), ca_rank_in_kind = 0\<rparr>))))"

text \<open>The comparator of \<open>std::ranges::sort\<close>: newest first within an artifact and kind.\<close>

definition candidate_before :: "lifecycle_candidate \<Rightarrow> lifecycle_candidate \<Rightarrow> bool" where
  "candidate_before left right =
     (if ca_artifact_id left \<noteq> ca_artifact_id right then ca_artifact_id left < ca_artifact_id right
      else
        let left_kind = artifact_kind_to_string (ca_artifact_kind left);
            right_kind = artifact_kind_to_string (ca_artifact_kind right)
        in if left_kind \<noteq> right_kind then left_kind < right_kind
           else if ca_created_at left \<noteq> ca_created_at right then ca_created_at left > ca_created_at right
           else ca_version_id left < ca_version_id right)"

text \<open>The ranking loop with its three local variables.\<close>

fun rank_candidates ::
  "string \<Rightarrow> string \<Rightarrow> u32 \<Rightarrow> lifecycle_candidate list \<Rightarrow> lifecycle_candidate list" where
  "rank_candidates partition_artifact partition_kind rank [] = []"
| "rank_candidates partition_artifact partition_kind rank (candidate # rest) =
     (let artifact_key = ca_artifact_id candidate;
          kind_key = artifact_kind_to_string (ca_artifact_kind candidate);
          rank' = (if artifact_key \<noteq> partition_artifact \<or> kind_key \<noteq> partition_kind then 0 else rank) + 1
      in candidate\<lparr>ca_rank_in_kind := rank'\<rparr> # rank_candidates artifact_key kind_key rank' rest)"

definition ranked_candidates :: "database \<Rightarrow> lifecycle_candidate list res" where
  "ranked_candidates db =
     rbind (map_res (candidate_of db) (candidate_rows db)) (\<lambda>candidates.
     Inr (rank_candidates [] [] 0 (sort_by candidate_before candidates)))"

subsection \<open>Decisions\<close>

definition decide_candidate ::
  "lifecycle_policy \<Rightarrow> int \<Rightarrow> lifecycle_candidate \<Rightarrow> lifecycle_decision res" where
  "decide_candidate policy evaluated_at_ms candidate =
     (case map_of (lp_rules policy) (ca_artifact_kind candidate) of
        None \<Rightarrow> Inl Runtime_error
      | Some rule \<Rightarrow>
          let decision = \<lparr>ld_version_id = ca_version_id candidate, ld_artifact_id = ca_artifact_id candidate,
                ld_artifact_kind = ca_artifact_kind candidate, ld_retire = False, ld_reason = PolicyRetire,
                ld_logical_size_bytes = ca_logical_size_bytes candidate\<rparr>
          in Inr (
            if ca_pinned candidate then decision\<lparr>ld_reason := Pinned\<rparr>
            else if ca_tagged candidate then decision\<lparr>ld_reason := Tagged\<rparr>
            else if ca_manifest_referenced candidate then decision\<lparr>ld_reason := ManifestReferenced\<rparr>
            else if ca_rank_in_kind candidate \<le> lr_keep_last_n rule then decision\<lparr>ld_reason := KeepLastN\<rparr>
            else if (case lr_max_age_seconds rule of
                       Some max_age \<Rightarrow> evaluated_at_ms * 1000 - ca_created_at candidate < uint max_age * 1000000
                     | None \<Rightarrow> False)
            then decision\<lparr>ld_reason := AgeNotReached\<rparr>
            else decision\<lparr>ld_retire := True, ld_reason := PolicyRetire\<rparr>))"

definition count_decision :: "lifecycle_decision \<Rightarrow> lifecycle_stats \<Rightarrow> lifecycle_stats" where
  "count_decision decision stats =
     (case ld_reason decision of
        Pinned \<Rightarrow> stats\<lparr>versions_protected := versions_protected stats + 1\<rparr>
      | Tagged \<Rightarrow> stats\<lparr>versions_protected := versions_protected stats + 1\<rparr>
      | ManifestReferenced \<Rightarrow> stats\<lparr>versions_protected := versions_protected stats + 1\<rparr>
      | KeepLastN \<Rightarrow> stats\<lparr>versions_retained_by_policy := versions_retained_by_policy stats + 1\<rparr>
      | AgeNotReached \<Rightarrow> stats\<lparr>versions_retained_by_policy := versions_retained_by_policy stats + 1\<rparr>
      | PolicyRetire \<Rightarrow>
          stats\<lparr>versions_candidates := versions_candidates stats + 1,
                logical_bytes_candidates := logical_bytes_candidates stats + ld_logical_size_bytes decision\<rparr>)"

definition count_retirement :: "lifecycle_decision \<Rightarrow> lifecycle_stats \<Rightarrow> lifecycle_stats" where
  "count_retirement decision stats =
     stats\<lparr>versions_retired := versions_retired stats + 1,
           logical_bytes_retired := logical_bytes_retired stats + ld_logical_size_bytes decision\<rparr>"

definition zero_lifecycle_stats :: lifecycle_stats where
  "zero_lifecycle_stats =
     \<lparr>versions_scanned = 0, versions_protected = 0, versions_retained_by_policy = 0, versions_candidates = 0,
      versions_retired = 0, logical_bytes_candidates = 0, logical_bytes_retired = 0\<rparr>"

definition retirements_to_persist :: "lifecycle_run_mode \<Rightarrow> lifecycle_decision list \<Rightarrow> lifecycle_decision list" where
  "retirements_to_persist mode decisions =
     (if mode = LifecycleApply then filter (\<lambda>d. ld_retire d \<and> ld_reason d = PolicyRetire) decisions else [])"

definition lifecycle_stats_of :: "lifecycle_run_mode \<Rightarrow> lifecycle_decision list \<Rightarrow> lifecycle_stats" where
  "lifecycle_stats_of mode decisions =
     fold count_retirement (retirements_to_persist mode decisions)
       (fold count_decision decisions (zero_lifecycle_stats\<lparr>versions_scanned := of_nat (length decisions)\<rparr>))"

subsection \<open>Persisting a run\<close>

definition insert_lifecycle_run ::
  "database \<Rightarrow> string \<Rightarrow> string \<Rightarrow> lifecycle_run_mode \<Rightarrow> int \<Rightarrow> lifecycle_stats \<Rightarrow> database res" where
  "insert_lifecycle_run db run_id policy_id mode evaluated_at_ms stats =
     rbind (to_postgres_bigint (versions_scanned stats)) (\<lambda>scanned.
     rbind (to_postgres_bigint (versions_protected stats)) (\<lambda>protected.
     rbind (to_postgres_bigint (versions_retained_by_policy stats)) (\<lambda>retained.
     rbind (to_postgres_bigint (versions_candidates stats)) (\<lambda>candidates.
     rbind (to_postgres_bigint (versions_retired stats)) (\<lambda>retired.
     rbind (to_postgres_bigint (logical_bytes_candidates stats)) (\<lambda>bytes_candidates.
     rbind (to_postgres_bigint (logical_bytes_retired stats)) (\<lambda>bytes_retired.
     if lifecycle_run_rows db run_id \<noteq> [] then Inl Unique_violation
     else if \<not> (\<exists>p \<in> set (lifecycle_policies db). p_policy_id p = policy_id) then Inl Foreign_key_violation
     else Inr (db\<lparr>lifecycle_runs := lifecycle_runs db @
            [\<lparr>lrn_run_id = run_id, lrn_policy_id = policy_id, lrn_mode = mode, lrn_evaluated_at_ms = evaluated_at_ms,
              lrn_versions_scanned = scanned, lrn_versions_protected = protected,
              lrn_versions_retained_by_policy = retained, lrn_versions_candidates = candidates,
              lrn_versions_retired = retired, lrn_logical_bytes_candidates = bytes_candidates,
              lrn_logical_bytes_retired = bytes_retired\<rparr>]\<rparr>))))))))"

definition insert_retirement :: "string \<Rightarrow> lifecycle_decision \<Rightarrow> database \<Rightarrow> database res" where
  "insert_retirement run_id decision db =
     (if is_version_retired db (ld_version_id decision) then Inl Unique_violation
      else if \<not> has_version db (ld_version_id decision) then Inl Foreign_key_violation
      else Inr (db\<lparr>artifact_version_retirements := artifact_version_retirements db @
             [\<lparr>ret_version_id = ld_version_id decision, ret_lifecycle_run_id = run_id,
               ret_artifact_kind = ld_artifact_kind decision, ret_reason = ld_reason decision\<rparr>]\<rparr>))"

definition insert_decision :: "string \<Rightarrow> lifecycle_decision \<Rightarrow> database \<Rightarrow> database res" where
  "insert_decision run_id decision db =
     rbind (to_postgres_bigint (ld_logical_size_bytes decision)) (\<lambda>logical_size.
     if \<exists>d \<in> set (lifecycle_run_decisions db). d_run_id d = run_id \<and> d_version_id d = ld_version_id decision
     then Inl Unique_violation
     else if \<not> has_version db (ld_version_id decision) \<or> \<not> has_artifact db (ld_artifact_id decision)
     then Inl Foreign_key_violation
     else Inr (db\<lparr>lifecycle_run_decisions := lifecycle_run_decisions db @
            [\<lparr>d_run_id = run_id, d_version_id = ld_version_id decision, d_artifact_id = ld_artifact_id decision,
              d_artifact_kind = ld_artifact_kind decision, d_retire = ld_retire decision,
              d_reason = ld_reason decision, d_logical_size_bytes = logical_size\<rparr>]\<rparr>))"

definition persist_lifecycle_run ::
  "database \<Rightarrow> string \<Rightarrow> string \<Rightarrow> lifecycle_run_mode \<Rightarrow> int \<Rightarrow> lifecycle_decision list \<Rightarrow> database res" where
  "persist_lifecycle_run db run_id policy_id mode evaluated_at_ms decisions =
     rbind (insert_lifecycle_run db run_id policy_id mode evaluated_at_ms (lifecycle_stats_of mode decisions)) (\<lambda>db.
     rbind (fold_res (insert_retirement run_id) (retirements_to_persist mode decisions) db) (\<lambda>db.
     fold_res (insert_decision run_id) decisions db))"

definition run_lifecycle ::
  "database \<Rightarrow> int \<Rightarrow> string \<Rightarrow> string \<Rightarrow> lifecycle_run_mode \<Rightarrow> (database \<times> lifecycle_run) res" where
  "run_lifecycle db evaluated_at_ms run_id policy_id mode =
     rbind (load_lifecycle_run db run_id) (\<lambda>existing.
     case existing of
       Some run \<Rightarrow>
         if lcr_policy_id run = policy_id \<and> lcr_mode run = mode then Inr (db, run)
         else Inl (Lifecycle_error LifecycleRunConflict)
     | None \<Rightarrow>
         if open_upload_sessions_present db then Inl (Lifecycle_error BlockedByOpenUploadSessions)
         else if gc_in_progress db then Inl (Lifecycle_error BlockedByGc)
         else if replication_in_progress db then Inl (Lifecycle_error BlockedByReplication)
         else
           rbind (load_lifecycle_policy db policy_id) (\<lambda>policy.
           case policy of
             None \<Rightarrow> Inl (Lifecycle_error PolicyNotFound)
           | Some policy \<Rightarrow>
               rbind (ranked_candidates db) (\<lambda>candidates.
               rbind (map_res (decide_candidate policy evaluated_at_ms) candidates) (\<lambda>decisions.
               rbind (persist_lifecycle_run db run_id policy_id mode evaluated_at_ms decisions) (\<lambda>db.
               rbind (load_lifecycle_run db run_id) (\<lambda>loaded.
               case loaded of None \<Rightarrow> Inl Runtime_error | Some run \<Rightarrow> Inr (db, run)))))))"

subsection \<open>Reading the decisions back\<close>

definition kMaxLifecycleDecisionPageLimit :: nat where
  "kMaxLifecycleDecisionPageLimit = 256"

definition decision_of_row :: "decision_row \<Rightarrow> lifecycle_decision res" where
  "decision_of_row row =
     (if d_logical_size_bytes row < 0 then Inl Runtime_error
      else rbind (uuid_v7 (d_artifact_id row)) (\<lambda>artifact_id.
           Inr \<lparr>ld_version_id = d_version_id row, ld_artifact_id = artifact_id,
                ld_artifact_kind = d_artifact_kind row, ld_retire = d_retire row, ld_reason = d_reason row,
                ld_logical_size_bytes = word_of_int (d_logical_size_bytes row)\<rparr>))"

text \<open>The rows of the two queries: those after the cursor, in the order of the version identifiers.\<close>

definition decision_rows_after :: "database \<Rightarrow> string \<Rightarrow> string option \<Rightarrow> decision_row list" where
  "decision_rows_after db run_id after_version_id =
     (let rows = filter (\<lambda>d. d_run_id d = run_id) (lifecycle_run_decisions db)
      in sort_key d_version_id
           (case after_version_id of
              Some after \<Rightarrow> filter (\<lambda>d. after < d_version_id d) rows
            | None \<Rightarrow> rows))"

definition list_lifecycle_decisions ::
  "database \<Rightarrow> string \<Rightarrow> string option \<Rightarrow> nat \<Rightarrow> lifecycle_decision list res" where
  "list_lifecycle_decisions db run_id after_version_id limit =
     (if limit < 1 \<or> kMaxLifecycleDecisionPageLimit < limit then Inl (Lifecycle_error InvalidRequest)
      else
        rbind (check_optional_content_id after_version_id) (\<lambda>_.
        if lifecycle_run_rows db run_id = [] then Inl (Lifecycle_error LifecycleRunNotFound)
        else map_res decision_of_row (take limit (decision_rows_after db run_id after_version_id))))"

subsection \<open>The ranking\<close>

definition same_group :: "lifecycle_candidate \<Rightarrow> lifecycle_candidate \<Rightarrow> bool" where
  "same_group c d \<longleftrightarrow> ca_artifact_id c = ca_artifact_id d \<and> ca_artifact_kind c = ca_artifact_kind d"

lemma same_group_refl [simp]: "same_group c c"
  by (simp add: same_group_def)

text \<open>The running rank as a count over the candidates before it.\<close>

fun counted_candidates :: "lifecycle_candidate list \<Rightarrow> lifecycle_candidate list \<Rightarrow> lifecycle_candidate list" where
  "counted_candidates before [] = []"
| "counted_candidates before (c # rest) =
     c\<lparr>ca_rank_in_kind := of_nat (length (filter (same_group c) before) + 1)\<rparr> # counted_candidates (before @ [c]) rest"

lemma kind_string_inject: "artifact_kind_to_string k = artifact_kind_to_string l \<longleftrightarrow> k = l"
  by (cases k; cases l) simp_all

lemma candidate_before_convex:
  assumes "candidate_before x z" and "candidate_before z c" and "same_group x c"
  shows "same_group z c"
  using assms unfolding candidate_before_def same_group_def Let_def
  by (auto simp: kind_string_inject split: if_splits)

lemma transp_candidate_before: "transp candidate_before"
  by (rule transpI) (auto simp: candidate_before_def Let_def split: if_splits)

lemma rank_candidates_counts:
  assumes "sorted_wrt candidate_before (xs @ rest)" and "\<forall>c \<in> set rest. ca_artifact_id c \<noteq> []"
    and "xs = [] \<and> pa = [] \<or> (\<exists>z zs. xs = zs @ [z] \<and> pa = ca_artifact_id z \<and>
      pk = artifact_kind_to_string (ca_artifact_kind z) \<and> r = of_nat (length (filter (same_group z) xs)))"
  shows "rank_candidates pa pk r rest = counted_candidates xs rest"
  using assms
proof (induction rest arbitrary: xs pa pk r)
  case (Cons c rest)
  let ?new = "ca_artifact_id c \<noteq> pa \<or> artifact_kind_to_string (ca_artifact_kind c) \<noteq> pk"
  have rank: "(if ?new then 0 else r) + 1 = of_nat (length (filter (same_group c) xs) + 1)"
  proof (cases "xs = []")
    case True
    then show ?thesis using Cons.prems(2,3) by auto
  next
    case False
    then obtain z zs where z: "xs = zs @ [z]" "pa = ca_artifact_id z" "pk = artifact_kind_to_string (ca_artifact_kind z)"
      and r: "r = of_nat (length (filter (same_group z) xs))"
      using Cons.prems(3) by blast
    show ?thesis
    proof (cases ?new)
      case True
      then have other: "\<not> same_group z c" using z(2,3) by (auto simp: same_group_def)
      have "\<not> same_group c x" if "x \<in> set xs" for x
      proof
        assume group: "same_group c x"
        then have xz: "x \<in> set zs" using that other z(1) by (auto simp: same_group_def)
        have "candidate_before x z" "candidate_before z c"
          using Cons.prems(1) xz unfolding z(1) by (auto simp: sorted_wrt_append)
        with group other show False using candidate_before_convex [of x z c] by (auto simp: same_group_def)
      qed
      then have "filter (same_group c) xs = []" by (simp add: filter_empty_conv)
      then show ?thesis using True by simp
    next
      case False
      then have "same_group c = same_group z"
        using z(2,3) by (auto simp: same_group_def kind_string_inject fun_eq_iff)
      then show ?thesis using False r by simp
    qed
  qed
  have "rank_candidates (ca_artifact_id c) (artifact_kind_to_string (ca_artifact_kind c))
      (of_nat (length (filter (same_group c) xs) + 1)) rest = counted_candidates (xs @ [c]) rest"
    by (rule Cons.IH) (use Cons.prems(1,2) in simp_all)
  with rank show ?case by (simp only: rank_candidates.simps counted_candidates.simps Let_def)
qed simp

lemma counted_candidates_split:
  "counted_candidates xs ys ! i = (ys ! i)\<lparr>ca_rank_in_kind := of_nat (length (filter (same_group (ys ! i)) (xs @ take i ys)) + 1)\<rparr>"
  if "i < length ys"
  using that
proof (induction ys arbitrary: xs i)
  case (Cons c ys)
  then show ?case by (cases i) simp_all
qed simp

lemma length_counted_candidates [simp]: "length (counted_candidates xs ys) = length ys"
  by (induction ys arbitrary: xs) simp_all

subsection \<open>Decisions\<close>

definition age_reached :: "lifecycle_rule \<Rightarrow> int \<Rightarrow> int \<Rightarrow> bool" where
  "age_reached rule evaluated_at_ms created_at \<longleftrightarrow>
     (\<forall>max_age. lr_max_age_seconds rule = Some max_age \<longrightarrow> uint max_age * 1000000 \<le> evaluated_at_ms * 1000 - created_at)"

lemma decide_candidate_fields:
  "decide_candidate policy now c = Inr d \<Longrightarrow>
   ld_version_id d = ca_version_id c \<and> ld_artifact_id d = ca_artifact_id c \<and>
   ld_artifact_kind d = ca_artifact_kind c \<and> ld_logical_size_bytes d = ca_logical_size_bytes c \<and>
   (ld_retire d \<longleftrightarrow> ld_reason d = PolicyRetire)"
  unfolding decide_candidate_def Let_def option_case_Inr Inr_eq_Inr by (elim exE conjE) (hypsubst, simp)

lemma decide_candidate_retire:
  assumes "decide_candidate policy now c = Inr d"
  shows "ld_reason d = PolicyRetire \<longleftrightarrow> \<not> ca_pinned c \<and> \<not> ca_tagged c \<and> \<not> ca_manifest_referenced c \<and>
    (\<exists>rule. map_of (lp_rules policy) (ca_artifact_kind c) = Some rule \<and> lr_keep_last_n rule < ca_rank_in_kind c \<and>
       age_reached rule now (ca_created_at c))"
  using assms unfolding decide_candidate_def Let_def option_case_Inr Inr_eq_Inr age_reached_def
  by (elim exE conjE) (hypsubst, auto simp: not_le split: option.splits)

subsection \<open>What a run writes\<close>

definition retirement_row_of :: "string \<Rightarrow> lifecycle_decision \<Rightarrow> retirement_row" where
  "retirement_row_of run_id d =
     \<lparr>ret_version_id = ld_version_id d, ret_lifecycle_run_id = run_id, ret_artifact_kind = ld_artifact_kind d,
      ret_reason = ld_reason d\<rparr>"

definition decision_row_of :: "string \<Rightarrow> lifecycle_decision \<Rightarrow> decision_row" where
  "decision_row_of run_id d =
     \<lparr>d_run_id = run_id, d_version_id = ld_version_id d, d_artifact_id = ld_artifact_id d,
      d_artifact_kind = ld_artifact_kind d, d_retire = ld_retire d, d_reason = ld_reason d,
      d_logical_size_bytes = uint (ld_logical_size_bytes d)\<rparr>"

lemma insert_retirements_ok:
  "fold_res (insert_retirement run_id) ds db = Inr db' \<Longrightarrow>
   db' = db\<lparr>artifact_version_retirements := artifact_version_retirements db @ map (retirement_row_of run_id) ds\<rparr>"
proof (induction ds arbitrary: db)
  case (Cons d ds)
  then obtain db1 where "insert_retirement run_id d db = Inr db1" and rest: "fold_res (insert_retirement run_id) ds db1 = Inr db'"
    by (auto simp: rbind_eq_Inr)
  then have "db1 = db\<lparr>artifact_version_retirements := artifact_version_retirements db @ [retirement_row_of run_id d]\<rparr>"
    by (simp add: insert_retirement_def retirement_row_of_def split: if_splits)
  with Cons.IH [OF rest] show ?case by simp
qed simp

lemma insert_decisions_ok:
  "fold_res (insert_decision run_id) ds db = Inr db' \<Longrightarrow>
   db' = db\<lparr>lifecycle_run_decisions := lifecycle_run_decisions db @ map (decision_row_of run_id) ds\<rparr>"
proof (induction ds arbitrary: db)
  case (Cons d ds)
  then obtain db1 where ins: "insert_decision run_id d db = Inr db1" and rest: "fold_res (insert_decision run_id) ds db1 = Inr db'"
    by (auto simp: rbind_eq_Inr)
  from ins have "db1 = db\<lparr>lifecycle_run_decisions := lifecycle_run_decisions db @ [decision_row_of run_id d]\<rparr>"
    unfolding insert_decision_def run_simps to_postgres_bigint_ok
    by (elim exE conjE) (simp add: decision_row_of_def)
  with Cons.IH [OF rest] show ?case by simp
qed simp

lemma insert_lifecycle_run_ok:
  assumes "insert_lifecycle_run db run_id policy_id mode now stats = Inr db'"
  obtains row where "db' = db\<lparr>lifecycle_runs := lifecycle_runs db @ [row]\<rparr>" and "lrn_run_id row = run_id"
    and "lrn_policy_id row = policy_id" and "lrn_mode row = mode" and "lrn_evaluated_at_ms row = now"
    and "lrn_versions_retired row = uint (versions_retired stats)"
    and "lifecycle_run_rows db run_id = []"
  using assms unfolding insert_lifecycle_run_def run_simps to_postgres_bigint_ok
  by (elim exE conjE) (rule that, erule sym, simp_all)

lemma persist_lifecycle_run_ok:
  assumes "persist_lifecycle_run db run_id policy_id mode now ds = Inr db'"
  obtains row where "db' = db\<lparr>lifecycle_runs := lifecycle_runs db @ [row],
      artifact_version_retirements := artifact_version_retirements db @
        map (retirement_row_of run_id) (retirements_to_persist mode ds),
      lifecycle_run_decisions := lifecycle_run_decisions db @ map (decision_row_of run_id) ds\<rparr>"
    and "lrn_run_id row = run_id" and "lrn_mode row = mode" and "lrn_policy_id row = policy_id"
proof -
  obtain db1 db2 where run: "insert_lifecycle_run db run_id policy_id mode now (lifecycle_stats_of mode ds) = Inr db1"
    and ret: "fold_res (insert_retirement run_id) (retirements_to_persist mode ds) db1 = Inr db2"
    and dec: "fold_res (insert_decision run_id) ds db2 = Inr db'"
    using assms unfolding persist_lifecycle_run_def rbind_eq_Inr by blast
  obtain row where row: "db1 = db\<lparr>lifecycle_runs := lifecycle_runs db @ [row]\<rparr>" "lrn_run_id row = run_id"
    "lrn_mode row = mode" "lrn_policy_id row = policy_id"
    by (rule insert_lifecycle_run_ok [OF run]) blast
  have "db' = db\<lparr>lifecycle_runs := lifecycle_runs db @ [row],
      artifact_version_retirements := artifact_version_retirements db @
        map (retirement_row_of run_id) (retirements_to_persist mode ds),
      lifecycle_run_decisions := lifecycle_run_decisions db @ map (decision_row_of run_id) ds\<rparr>"
    using insert_retirements_ok [OF ret] insert_decisions_ok [OF dec] row(1) by simp
  then show thesis using row(2-4) by (rule that)
qed

text \<open>A successful run with a new identifier, taken apart.\<close>

lemma new_lifecycle_run_steps:
  assumes "run_lifecycle db now run_id policy_id mode = Inr (db', run)" and "load_lifecycle_run db run_id = Inr None"
  obtains policy cs ds where "load_lifecycle_policy db policy_id = Inr (Some policy)"
    and "ranked_candidates db = Inr cs" and "map_res (decide_candidate policy now) cs = Inr ds"
    and "persist_lifecycle_run db run_id policy_id mode now ds = Inr db'"
    and "load_lifecycle_run db' run_id = Inr (Some run)"
    and "\<not> open_upload_sessions_present db" "\<not> gc_in_progress db" "\<not> replication_in_progress db"
  using assms(1) unfolding run_lifecycle_def assms(2) rbind_simps option.case run_simps prod.inject
  by (elim exE conjE) (hypsubst, rule that)

subsection \<open>Retirements are justified\<close>

text \<open>Primary keys of \<open>artifact_versions\<close> and \<open>objects\<close>.\<close>

definition version_ids_distinct :: "database \<Rightarrow> bool" where
  "version_ids_distinct db \<longleftrightarrow> distinct (map v_version_id (artifact_versions db))"

definition object_ids_distinct :: "database \<Rightarrow> bool" where
  "object_ids_distinct db \<longleftrightarrow> distinct (map o_object_id (objects db))"

definition version_kind :: "database \<Rightarrow> version_row \<Rightarrow> artifact_kind res" where
  "version_kind db v = rbind (candidate_kind_metadata db (v_version_id v)) resolve_artifact_kind"

definition newer_version :: "version_row \<Rightarrow> version_row \<Rightarrow> bool" where
  "newer_version w v \<longleftrightarrow>
     v_created_at v < v_created_at w \<or> (v_created_at w = v_created_at v \<and> v_version_id w < v_version_id v)"

lemma distinct_map_key:
  "distinct (map f xs) \<Longrightarrow> x \<in> set xs \<Longrightarrow> y \<in> set xs \<Longrightarrow> f x = f y \<Longrightarrow> x = y"
  by (auto simp: distinct_map dest: inj_onD)

lemma filter_key_single:
  "distinct (map f xs) \<Longrightarrow> filter (\<lambda>x. f x = k) xs = [] \<or> (\<exists>x. filter (\<lambda>x. f x = k) xs = [x])"
  by (induction xs) (auto simp: filter_empty_conv image_iff)

lemma candidate_rows_length_distinct:
  assumes "object_ids_distinct db" and "version_ids_distinct db"
  shows "length (candidate_rows db) \<le> length (artifact_versions db)"
    and "distinct (map (\<lambda>r. v_version_id (fst r)) (candidate_rows db))"
proof -
  define join where "join = (\<lambda>v :: version_row. map (\<lambda>ob. (v, o_total_size_bytes ob)) (filter (\<lambda>ob. o_object_id ob = v_root_object_id v) (objects db)))"
  have one: "join v = [] \<or> (\<exists>n. join v = [(v, n)])" for v
    using filter_key_single [of o_object_id "objects db" "v_root_object_id v"] assms(1)
    by (auto simp: join_def object_ids_distinct_def)
  have len: "length (concat (map join vs)) \<le> length vs" for vs
  proof (induction vs)
    case (Cons v vs)
    with one [of v] show ?case by auto
  qed simp
  have sub: "v_version_id (fst r) \<in> v_version_id ` set vs" if "r \<in> set (concat (map join vs))" for r vs
    using that by (auto simp: join_def)
  have dist: "distinct (map v_version_id vs) \<Longrightarrow> distinct (map (\<lambda>r. v_version_id (fst r)) (concat (map join vs)))" for vs
  proof (induction vs)
    case (Cons v vs)
    then have "v_version_id v \<notin> v_version_id ` set vs" by simp
    then have "v_version_id v \<notin> (\<lambda>r. v_version_id (fst r)) ` set (concat (map join vs))"
      using sub [of _ vs] by (metis imageE)
    with Cons one [of v] show ?case by (elim disjE exE) simp_all
  qed simp
  have rows: "candidate_rows db = concat (map join
      (filter (\<lambda>v. v_state v = VersionCommitted \<and> \<not> is_version_retired db (v_version_id v)) (artifact_versions db)))"
    by (simp add: candidate_rows_def join_def)
  show "length (candidate_rows db) \<le> length (artifact_versions db)"
    unfolding rows by (rule order_trans [OF len length_filter_le])
  show "distinct (map (\<lambda>r. v_version_id (fst r)) (candidate_rows db))"
    unfolding rows by (rule dist) (use assms(2) in \<open>simp add: version_ids_distinct_def distinct_map_filter\<close>)
qed

lemma candidate_rows_mem:
  "(v, n) \<in> set (candidate_rows db) \<Longrightarrow>
   v \<in> set (artifact_versions db) \<and> v_state v = VersionCommitted \<and> \<not> is_version_retired db (v_version_id v)"
  by (auto simp: candidate_rows_def)

text \<open>How a candidate describes its version.\<close>

definition describes :: "database \<Rightarrow> lifecycle_candidate \<Rightarrow> version_row \<Rightarrow> bool" where
  "describes db c v \<longleftrightarrow>
     ca_version_id c = v_version_id v \<and> ca_artifact_id c = v_artifact_id v \<and> ca_created_at c = v_created_at v \<and>
     version_kind db v = Inr (ca_artifact_kind c) \<and> (ca_pinned c \<longleftrightarrow> is_pinned db (v_version_id v)) \<and>
     (ca_tagged c \<longleftrightarrow> is_tagged db (v_version_id v)) \<and>
     (ca_manifest_referenced c \<longleftrightarrow> is_manifest_referenced db (v_version_id v)) \<and> ca_artifact_id c \<noteq> []"

lemma uuid_v7_ok: "uuid_v7 u = Inr w \<longleftrightarrow> is_uuid u \<and> w = u"
  by (auto simp: uuid_v7_def is_uuid_def rbind_eq_Inr)

lemma is_uuid_nonempty: "is_uuid u \<Longrightarrow> u \<noteq> []"
  by (auto simp: is_uuid_def validate_uuid_def)

lemma candidate_of_describes:
  "candidate_of db (v, n) = Inr c \<Longrightarrow> describes db c v"
  unfolding candidate_of_def prod.case run_simps uuid_v7_ok
  by (elim exE conjE) (hypsubst, simp add: describes_def version_kind_def is_uuid_nonempty)

lemma ranked_candidates_ok:
  assumes "object_ids_distinct db" and "version_ids_distinct db" and "ranked_candidates db = Inr cs"
  obtains ys where "cs = counted_candidates [] ys" and "sorted_wrt candidate_before ys"
    and "distinct (map ca_version_id ys)" and "length ys \<le> length (artifact_versions db)"
    and "\<forall>c \<in> set ys. \<exists>v \<in> set (artifact_versions db). describes db c v \<and> v_state v = VersionCommitted \<and>
           \<not> is_version_retired db (v_version_id v)"
proof -
  obtain xs where xs: "map_res (candidate_of db) (candidate_rows db) = Inr xs"
    and cs: "cs = rank_candidates [] [] 0 (sort_by candidate_before xs)"
    using assms(3) unfolding ranked_candidates_def rbind_eq_Inr by auto
  let ?ys = "sort_by candidate_before xs"
  have each: "describes db (xs ! i) (fst (candidate_rows db ! i))" if "i < length xs" for i
  proof -
    have "candidate_of db (candidate_rows db ! i) = Inr (xs ! i)"
      using map_res_nth [OF xs] that map_res_length [OF xs] by simp
    then show ?thesis by (cases "candidate_rows db ! i") (simp add: candidate_of_describes)
  qed
  have mem: "\<exists>v \<in> set (artifact_versions db). describes db c v \<and> v_state v = VersionCommitted \<and>
      \<not> is_version_retired db (v_version_id v)" if "c \<in> set xs" for c
  proof -
    from that obtain i where i: "i < length xs" "c = xs ! i" by (metis in_set_conv_nth)
    then have row: "candidate_rows db ! i \<in> set (candidate_rows db)" using map_res_length [OF xs] by simp
    obtain v n where vn: "candidate_rows db ! i = (v, n)" by (cases "candidate_rows db ! i")
    show ?thesis using each [OF i(1)] candidate_rows_mem [of v n db] row i(2) unfolding vn by auto
  qed
  have "map ca_version_id xs = map (\<lambda>r. v_version_id (fst r)) (candidate_rows db)"
    by (rule nth_equalityI) (use each map_res_length [OF xs] in \<open>auto simp: describes_def\<close>)
  then have dist: "distinct (map ca_version_id xs)"
    using candidate_rows_length_distinct(2) [OF assms(1,2)] by simp
  have ordered: "sorted_wrt candidate_before ?ys"
  proof (rule sorted_sort_by [OF transp_candidate_before])
    show "distinct xs" using dist by (simp add: distinct_map)
    show "candidate_before x y \<or> candidate_before y x" if "x \<in> set xs" "y \<in> set xs" "x \<noteq> y" for x y
    proof -
      have "ca_version_id x \<noteq> ca_version_id y" using distinct_map_key [OF dist that(1,2)] that(3) by blast
      then show ?thesis by (auto simp: candidate_before_def Let_def)
    qed
  qed
  have counted: "cs = counted_candidates [] ?ys"
    unfolding cs by (rule rank_candidates_counts) (use ordered mem in \<open>auto simp: describes_def\<close>)
  have "set (map ca_version_id ?ys) = set (map ca_version_id xs)" "length ?ys = length xs" by simp_all
  then have dist': "distinct (map ca_version_id ?ys)" using dist by (metis card_distinct distinct_card length_map)
  have "length ?ys \<le> length (artifact_versions db)"
    using candidate_rows_length_distinct(1) [OF assms(1,2)] map_res_length [OF xs] by simp
  then show thesis by (rule that [OF counted ordered dist']) (use mem in simp)
qed

lemma filter_nth_position:
  "j < length (filter P xs) \<Longrightarrow>
   \<exists>p < length xs. xs ! p = filter P xs ! j \<and> P (xs ! p) \<and> length (filter P (take p xs)) = j"
proof (induction xs arbitrary: j)
  case (Cons x xs)
  show ?case
  proof (cases "P x \<and> j = 0")
    case True
    then show ?thesis by (intro exI [of _ 0]) simp
  next
    case False
    let ?j = "if P x then j - 1 else j"
    have "?j < length (filter P xs)" using Cons.prems False by auto
    from Cons.IH [OF this] obtain p where p: "p < length xs" "xs ! p = filter P xs ! ?j" "P (xs ! p)"
      "length (filter P (take p xs)) = ?j" by blast
    show ?thesis by (intro exI [of _ "Suc p"]) (use p False in \<open>auto split: if_splits\<close>)
  qed
qed simp

lemma retired_after_run:
  assumes "artifact_version_retirements db' = artifact_version_retirements db @ map (retirement_row_of rid) ds"
  shows "is_version_retired db' vid \<longleftrightarrow> is_version_retired db vid \<or> vid \<in> ld_version_id ` set ds"
proof -
  have "ret_version_id (retirement_row_of rid d) = ld_version_id d" for d
    by (simp add: retirement_row_of_def)
  then show ?thesis unfolding is_version_retired_def assms set_append bex_Un by (auto simp: image_iff)
qed

text \<open>
  C31: Retirements are justified and keep the newest versions. If a lifecycle run retires a version,
  the run was an apply run, and the version was committed, neither pinned nor tagged nor referenced by a
  manifest, and old enough for the rule of its kind; and at least \<open>keep_last_n\<close> newer committed versions
  of the same artifact and kind are still not retired after the run.
\<close>

theorem retirement_is_justified:
  assumes keys: "object_ids_distinct db" "version_ids_distinct db" and small: "length (artifact_versions db) < 2 ^ 32 - 1"
    and run: "run_lifecycle db now rid pid mode = Inr (db', run)" and new: "load_lifecycle_run db rid = Inr None"
    and policy: "load_lifecycle_policy db pid = Inr (Some policy)"
    and v: "v \<in> set (artifact_versions db)" "\<not> is_version_retired db (v_version_id v)" "is_version_retired db' (v_version_id v)"
  shows "mode = LifecycleApply \<and> v_state v = VersionCommitted \<and> \<not> is_pinned db (v_version_id v) \<and>
    \<not> is_tagged db (v_version_id v) \<and> \<not> is_manifest_referenced db (v_version_id v) \<and>
    (\<exists>kind rule. version_kind db v = Inr kind \<and> map_of (lp_rules policy) kind = Some rule \<and>
       age_reached rule now (v_created_at v) \<and>
       unat (lr_keep_last_n rule) \<le> card {w \<in> set (artifact_versions db). v_state w = VersionCommitted \<and>
          \<not> is_version_retired db' (v_version_id w) \<and> v_artifact_id w = v_artifact_id v \<and>
          version_kind db w = Inr kind \<and> newer_version w v})"
proof -
  obtain policy' cs ds where policy': "load_lifecycle_policy db pid = Inr (Some policy')"
    and cs: "ranked_candidates db = Inr cs" and ds: "map_res (decide_candidate policy' now) cs = Inr ds"
    and persist: "persist_lifecycle_run db rid pid mode now ds = Inr db'"
    by (rule new_lifecycle_run_steps [OF run new])
  have eq: "policy' = policy" using policy policy' by simp
  obtain row where db': "db' = db\<lparr>lifecycle_runs := lifecycle_runs db @ [row],
      artifact_version_retirements := artifact_version_retirements db @
        map (retirement_row_of rid) (retirements_to_persist mode ds),
      lifecycle_run_decisions := lifecycle_run_decisions db @ map (decision_row_of rid) ds\<rparr>"
    by (rule persist_lifecycle_run_ok [OF persist])
  have retired: "is_version_retired db' x \<longleftrightarrow>
      is_version_retired db x \<or> x \<in> ld_version_id ` set (retirements_to_persist mode ds)" for x
    by (rule retired_after_run [of _ _ rid]) (simp add: db')
  obtain ys where cs_eq: "cs = counted_candidates [] ys" and ordered: "sorted_wrt candidate_before ys"
    and dist: "distinct (map ca_version_id ys)" and len: "length ys \<le> length (artifact_versions db)"
    and describe: "\<forall>c \<in> set ys. \<exists>v \<in> set (artifact_versions db). describes db c v \<and>
      v_state v = VersionCommitted \<and> \<not> is_version_retired db (v_version_id v)"
    by (rule ranked_candidates_ok [OF keys cs])
  define rank where "rank p = length (filter (same_group (ys ! p)) (take p ys)) + 1" for p
  have lens: "length ds = length ys" using map_res_length [OF ds] by (simp add: cs_eq)
  have decision: "decide_candidate policy now ((ys ! p)\<lparr>ca_rank_in_kind := of_nat (rank p)\<rparr>) = Inr (ds ! p)"
    if "p < length ys" for p
    using map_res_nth [OF ds, of p] that
    by (simp add: cs_eq eq rank_def counted_candidates_split)
  have rank_small: "rank p < 2 ^ 32" if "p < length ys" for p
    using length_filter_le [of "same_group (ys ! p)" "take p ys"] len small that by (simp add: rank_def)
  have unat_rank: "unat (of_nat (rank p) :: u32) = rank p" if "p < length ys" for p
    using rank_small [OF that] by (simp add: unat_of_nat)
  note fields = decide_candidate_fields [OF decision] and retire = decide_candidate_retire [OF decision]
  from retired [of "v_version_id v"] v have "v_version_id v \<in> ld_version_id ` set (retirements_to_persist mode ds)"
    by simp
  then obtain d where apply_run: "mode = LifecycleApply" and d: "d \<in> set ds" "ld_reason d = PolicyRetire"
    "ld_version_id d = v_version_id v"
    by (auto simp: retirements_to_persist_def split: if_splits)
  then obtain i where i: "i < length ys" "ds ! i = d" by (metis in_set_conv_nth lens)
  let ?c = "ys ! i"
  obtain v' where "v' \<in> set (artifact_versions db)" "describes db ?c v'" and committed: "v_state v' = VersionCommitted"
    using describe [THEN bspec, of ?c] i(1) by auto
  moreover have "ca_version_id ?c = v_version_id v" using fields [OF i(1)] d(3) i(2) by simp
  ultimately have desc: "describes db ?c v" "v_state v = VersionCommitted"
    using distinct_map_key [OF keys(2) [unfolded version_ids_distinct_def], of v' v] v(1) by (auto simp: describes_def)
  obtain rule where rule: "map_of (lp_rules policy) (ca_artifact_kind ?c) = Some rule"
    and k: "lr_keep_last_n rule < of_nat (rank i)" and age: "age_reached rule now (ca_created_at ?c)"
    and free: "\<not> ca_pinned ?c" "\<not> ca_tagged ?c" "\<not> ca_manifest_referenced ?c"
    using retire [OF i(1)] d(2) i(2) by auto
  define L where "L = filter (same_group ?c) (take i ys)"
  have k_le: "unat (lr_keep_last_n rule) \<le> length L"
    using k unfolding word_less_nat_alt unat_rank [OF i(1)] by (simp add: L_def rank_def)
  let ?W = "take (unat (lr_keep_last_n rule)) L"
  let ?S = "{w \<in> set (artifact_versions db). v_state w = VersionCommitted \<and>
      \<not> is_version_retired db' (v_version_id w) \<and> v_artifact_id w = v_artifact_id v \<and>
      version_kind db w = Inr (ca_artifact_kind ?c) \<and> newer_version w v}"
  have survive: "ca_version_id ` set ?W \<subseteq> v_version_id ` ?S"
  proof
    fix x assume "x \<in> ca_version_id ` set ?W"
    then obtain j where j: "j < unat (lr_keep_last_n rule)" "j < length L" and x: "x = ca_version_id (L ! j)"
      by (auto simp: in_set_conv_nth)
    obtain p where p: "p < length (take i ys)" "take i ys ! p = L ! j" "same_group ?c (L ! j)"
      and count: "length (filter (same_group ?c) (take p (take i ys))) = j"
      using filter_nth_position [OF j(2) [unfolded L_def]] by (auto simp: L_def)
    have pi: "p < i" and at: "ys ! p = L ! j" and pl: "p < length ys" using p i(1) by simp_all
    have "same_group (ys ! p) = same_group ?c" using p(3) at by (auto simp: same_group_def fun_eq_iff)
    then have rank_p: "rank p = j + 1" using count pi by (simp add: rank_def min_absorb1)
    have keep: "\<not> lr_keep_last_n rule < of_nat (rank p)"
      unfolding word_less_nat_alt unat_rank [OF pl] using j(1) rank_p by simp
    have kind: "ca_artifact_kind (ys ! p) = ca_artifact_kind ?c" "ca_artifact_id (ys ! p) = ca_artifact_id ?c"
      using p(3) at by (simp_all add: same_group_def)
    have kept: "ld_reason (ds ! p) \<noteq> PolicyRetire"
      using retire [OF pl] keep rule by (simp add: kind)
    obtain w where w: "w \<in> set (artifact_versions db)" "describes db (ys ! p) w" "v_state w = VersionCommitted"
      "\<not> is_version_retired db (v_version_id w)"
      using describe [THEN bspec, of "ys ! p"] pl by auto
    have "\<not> is_version_retired db' (v_version_id w)"
    proof
      assume "is_version_retired db' (v_version_id w)"
      with w(4) retired obtain d' where "d' \<in> set ds" "ld_reason d' = PolicyRetire" "ld_version_id d' = v_version_id w"
        by (auto simp: retirements_to_persist_def split: if_splits)
      then obtain q where q: "q < length ys" "ds ! q = d'" by (metis in_set_conv_nth lens)
      then have "ca_version_id (ys ! q) = ca_version_id (ys ! p)"
        using fields [OF q(1)] \<open>ld_version_id d' = v_version_id w\<close> w(2) by (simp add: describes_def)
      then have "q = p" using dist q(1) pl by (simp add: distinct_conv_nth) metis
      with kept q(2) \<open>ld_reason d' = PolicyRetire\<close> show False by simp
    qed
    moreover have "candidate_before (ys ! p) ?c" using ordered pi i(1) by (simp add: sorted_wrt_iff_nth_less)
    then have "newer_version w v"
      using w(2) desc(1) kind by (auto simp: newer_version_def describes_def candidate_before_def Let_def split: if_splits)
    ultimately have "w \<in> ?S" using w kind desc(1) by (simp add: describes_def)
    moreover have "x = v_version_id w" using x at w(2) by (simp add: describes_def)
    ultimately show "x \<in> v_version_id ` ?S" by blast
  qed
  have "distinct (map ca_version_id ?W)"
    using dist unfolding L_def by (simp add: distinct_map_filter flip: take_map)
  then have "unat (lr_keep_last_n rule) = card (ca_version_id ` set ?W)"
    using k_le distinct_card [of "map ca_version_id ?W"] by simp
  also have "card (ca_version_id ` set ?W) \<le> card (v_version_id ` ?S)" using survive by (rule card_mono [rotated]) simp
  also have "\<dots> \<le> card ?S" by (rule card_image_le) simp
  finally have bound: "unat (lr_keep_last_n rule) \<le> card ?S" .
  have "version_kind db v = Inr (ca_artifact_kind ?c)" "age_reached rule now (v_created_at v)"
    using desc(1) age by (simp_all add: describes_def)
  moreover have "\<not> is_pinned db (v_version_id v)" "\<not> is_tagged db (v_version_id v)"
    "\<not> is_manifest_referenced db (v_version_id v)"
    using desc(1) free by (simp_all add: describes_def)
  ultimately show ?thesis using apply_run desc(2) rule bound by blast
qed

subsection \<open>Statistics\<close>

definition retire_decisions :: "lifecycle_decision list \<Rightarrow> lifecycle_decision list" where
  "retire_decisions ds = filter (\<lambda>d. ld_reason d = PolicyRetire) ds"

definition decided_versions :: "lifecycle_stats \<Rightarrow> u64" where
  "decided_versions s = versions_protected s + versions_retained_by_policy s + versions_candidates s"

lemma count_decision_step:
  "versions_scanned (count_decision d s) = versions_scanned s"
  "versions_retired (count_decision d s) = versions_retired s"
  "logical_bytes_retired (count_decision d s) = logical_bytes_retired s"
  "decided_versions (count_decision d s) = decided_versions s + 1"
  "versions_candidates (count_decision d s) =
     versions_candidates s + (if ld_reason d = PolicyRetire then 1 else 0)"
  "logical_bytes_candidates (count_decision d s) =
     logical_bytes_candidates s + (if ld_reason d = PolicyRetire then ld_logical_size_bytes d else 0)"
  by (cases "ld_reason d"; simp add: count_decision_def decided_versions_def)+

lemma fold_count_decision:
  "versions_scanned (fold count_decision ds s) = versions_scanned s"
  "versions_retired (fold count_decision ds s) = versions_retired s"
  "logical_bytes_retired (fold count_decision ds s) = logical_bytes_retired s"
  "decided_versions (fold count_decision ds s) = decided_versions s + of_nat (length ds)"
  "versions_candidates (fold count_decision ds s) = versions_candidates s + of_nat (length (retire_decisions ds))"
  "logical_bytes_candidates (fold count_decision ds s) =
     logical_bytes_candidates s + sum_list (map ld_logical_size_bytes (retire_decisions ds))"
  by (induction ds arbitrary: s) (simp_all add: count_decision_step retire_decisions_def)

lemma fold_count_retirement:
  "fold count_retirement ds s = s\<lparr>versions_retired := versions_retired s + of_nat (length ds),
     logical_bytes_retired := logical_bytes_retired s + sum_list (map ld_logical_size_bytes ds)\<rparr>"
  by (induction ds arbitrary: s) (simp_all add: count_retirement_def algebra_simps)

lemma inserted_run_stats:
  assumes "insert_lifecycle_run db rid pid mode now stats = Inr db'" and "load_lifecycle_run db' rid = Inr (Some run)"
  shows "lcr_stats run = stats \<and> lcr_mode run = mode \<and> lcr_policy_id run = pid \<and> lcr_evaluated_at_unix_ms run = now"
proof -
  from assms(1) have empty: "lifecycle_run_rows db rid = []"
    and db': "db' = db\<lparr>lifecycle_runs := lifecycle_runs db @
      [\<lparr>lrn_run_id = rid, lrn_policy_id = pid, lrn_mode = mode, lrn_evaluated_at_ms = now,
        lrn_versions_scanned = uint (versions_scanned stats), lrn_versions_protected = uint (versions_protected stats),
        lrn_versions_retained_by_policy = uint (versions_retained_by_policy stats),
        lrn_versions_candidates = uint (versions_candidates stats),
        lrn_versions_retired = uint (versions_retired stats),
        lrn_logical_bytes_candidates = uint (logical_bytes_candidates stats),
        lrn_logical_bytes_retired = uint (logical_bytes_retired stats)\<rparr>]\<rparr>"
    unfolding insert_lifecycle_run_def run_simps to_postgres_bigint_ok by (elim exE conjE, simp)+
  let ?row = "last (lifecycle_runs db')"
  have rows: "lifecycle_run_rows db' rid = [?row]" using empty by (simp add: lifecycle_run_rows_def db')
  have "reconstruct_lifecycle_run ?row = Inr run"
    using assms(2) unfolding load_lifecycle_run_def rows query01_single rbind_simps option.case
    by (cases "reconstruct_lifecycle_run ?row") simp_all
  moreover have "require_non_negative (uint w) = Inr w" for w by (simp add: require_non_negative_ok)
  ultimately show ?thesis
    unfolding reconstruct_lifecycle_run_def db' by (auto simp: run_simps uuid_v7_ok)
qed

lemma load_lifecycle_run_cong:
  "lifecycle_runs db' = lifecycle_runs db \<Longrightarrow> load_lifecycle_run db' rid = load_lifecycle_run db rid"
  by (simp add: load_lifecycle_run_def lifecycle_run_rows_def)

lemma persisted_run_stats:
  assumes "persist_lifecycle_run db rid pid mode now ds = Inr db'" and "load_lifecycle_run db' rid = Inr (Some run)"
  shows "lcr_stats run = lifecycle_stats_of mode ds"
proof -
  obtain db1 db2 where run: "insert_lifecycle_run db rid pid mode now (lifecycle_stats_of mode ds) = Inr db1"
    and ret: "fold_res (insert_retirement rid) (retirements_to_persist mode ds) db1 = Inr db2"
    and dec: "fold_res (insert_decision rid) ds db2 = Inr db'"
    using assms(1) unfolding persist_lifecycle_run_def rbind_eq_Inr by blast
  have "lifecycle_runs db' = lifecycle_runs db1"
    using insert_retirements_ok [OF ret] insert_decisions_ok [OF dec] by simp
  then have "load_lifecycle_run db1 rid = Inr (Some run)"
    using assms(2) load_lifecycle_run_cong by metis
  with inserted_run_stats [OF run] show ?thesis by blast
qed

lemma retirements_of_decisions:
  assumes "map_res (decide_candidate policy now) cs = Inr ds"
  shows "retirements_to_persist LifecycleApply ds = retire_decisions ds"
    and "filter ld_retire ds = retire_decisions ds"
proof -
  have "ld_retire d \<longleftrightarrow> ld_reason d = PolicyRetire" if d: "d \<in> set ds" for d
  proof -
    obtain c where "decide_candidate policy now c = Inr d" using map_res_set [OF assms d] by blast
    then show ?thesis using decide_candidate_fields by blast
  qed
  then show "retirements_to_persist LifecycleApply ds = retire_decisions ds" "filter ld_retire ds = retire_decisions ds"
    by (auto simp: retirements_to_persist_def retire_decisions_def intro!: filter_cong)
qed

text \<open>The statistics of a new run partition the versions it scanned: every scanned version is protected,
  retained by the policy or a candidate. An apply run retires exactly its candidates and a dry run none,
  and the counts agree with the rows the run wrote.
\<close>

theorem lifecycle_stats_partition:
  assumes "run_lifecycle db now rid pid mode = Inr (db', run)" and "load_lifecycle_run db rid = Inr None"
  shows "let s = lcr_stats run;
      decided = length (lifecycle_run_decisions db') - length (lifecycle_run_decisions db);
      retired = length (artifact_version_retirements db') - length (artifact_version_retirements db)
    in versions_scanned s = versions_protected s + versions_retained_by_policy s + versions_candidates s \<and>
       versions_scanned s = of_nat decided \<and> versions_retired s = of_nat retired \<and>
       versions_retired s = (if mode = LifecycleApply then versions_candidates s else 0) \<and>
       logical_bytes_retired s = (if mode = LifecycleApply then logical_bytes_candidates s else 0)"
proof -
  obtain policy cs ds where ds: "map_res (decide_candidate policy now) cs = Inr ds"
    and persist: "persist_lifecycle_run db rid pid mode now ds = Inr db'"
    and loaded: "load_lifecycle_run db' rid = Inr (Some run)"
    by (rule new_lifecycle_run_steps [OF assms])
  obtain row where db': "db' = db\<lparr>lifecycle_runs := lifecycle_runs db @ [row],
      artifact_version_retirements := artifact_version_retirements db @
        map (retirement_row_of rid) (retirements_to_persist mode ds),
      lifecycle_run_decisions := lifecycle_run_decisions db @ map (decision_row_of rid) ds\<rparr>"
    by (rule persist_lifecycle_run_ok [OF persist])
  have lens: "length (lifecycle_run_decisions db') - length (lifecycle_run_decisions db) = length ds"
    "length (artifact_version_retirements db') - length (artifact_version_retirements db) =
       length (retirements_to_persist mode ds)"
    by (simp_all add: db')
  have persisted: "retirements_to_persist mode ds = (if mode = LifecycleApply then retire_decisions ds else [])"
    using retirements_of_decisions(1) [OF ds] by (cases mode) (simp_all add: retirements_to_persist_def)
  define t where "t = fold count_decision ds (zero_lifecycle_stats\<lparr>versions_scanned := of_nat (length ds)\<rparr>)"
  have t: "versions_scanned t = of_nat (length ds)" "versions_retired t = 0" "logical_bytes_retired t = 0"
    "decided_versions t = of_nat (length ds)" "versions_candidates t = of_nat (length (retire_decisions ds))"
    "logical_bytes_candidates t = sum_list (map ld_logical_size_bytes (retire_decisions ds))"
    unfolding t_def fold_count_decision by (simp_all add: zero_lifecycle_stats_def decided_versions_def)
  have s: "lcr_stats run = t\<lparr>versions_retired := versions_retired t + of_nat (length (retirements_to_persist mode ds)),
      logical_bytes_retired := logical_bytes_retired t +
        sum_list (map ld_logical_size_bytes (retirements_to_persist mode ds))\<rparr>"
    unfolding persisted_run_stats [OF persist loaded] lifecycle_stats_of_def fold_count_retirement t_def ..
  have "versions_scanned (lcr_stats run) = decided_versions (lcr_stats run)"
    unfolding s using t(1,4) by (simp add: decided_versions_def)
  then show ?thesis
    unfolding lens Let_def decided_versions_def by (simp add: s t persisted)
qed

text \<open>
  C32: A dry run announces what an apply run does. On the same database, at the same time and with the
  same policy, a dry run and an apply run record the same decisions; the dry run retires nothing, the
  apply run retires exactly the versions the decisions mark.
\<close>

theorem dry_run_predicts_apply:
  assumes "run_lifecycle db now r1 pid LifecycleDryRun = Inr (db1, run1)" and "load_lifecycle_run db r1 = Inr None"
    and "run_lifecycle db now r2 pid LifecycleApply = Inr (db2, run2)" and "load_lifecycle_run db r2 = Inr None"
  shows "artifact_version_retirements db1 = artifact_version_retirements db \<and>
    (\<exists>ds. lifecycle_run_decisions db1 = lifecycle_run_decisions db @ map (decision_row_of r1) ds \<and>
      lifecycle_run_decisions db2 = lifecycle_run_decisions db @ map (decision_row_of r2) ds \<and>
      artifact_version_retirements db2 =
        artifact_version_retirements db @ map (retirement_row_of r2) (filter ld_retire ds))"
proof -
  obtain policy cs ds where p: "load_lifecycle_policy db pid = Inr (Some policy)" and cs: "ranked_candidates db = Inr cs"
    and ds: "map_res (decide_candidate policy now) cs = Inr ds"
    and persist1: "persist_lifecycle_run db r1 pid LifecycleDryRun now ds = Inr db1"
    by (rule new_lifecycle_run_steps [OF assms(1,2)])
  obtain policy' cs' ds' where "load_lifecycle_policy db pid = Inr (Some policy')" "ranked_candidates db = Inr cs'"
    "map_res (decide_candidate policy' now) cs' = Inr ds'"
    and persist2: "persist_lifecycle_run db r2 pid LifecycleApply now ds' = Inr db2"
    by (rule new_lifecycle_run_steps [OF assms(3,4)])
  with p cs ds have same: "ds' = ds" by simp
  obtain row1 where db1: "db1 = db\<lparr>lifecycle_runs := lifecycle_runs db @ [row1],
      artifact_version_retirements := artifact_version_retirements db @
        map (retirement_row_of r1) (retirements_to_persist LifecycleDryRun ds),
      lifecycle_run_decisions := lifecycle_run_decisions db @ map (decision_row_of r1) ds\<rparr>"
    by (rule persist_lifecycle_run_ok [OF persist1])
  obtain row2 where db2: "db2 = db\<lparr>lifecycle_runs := lifecycle_runs db @ [row2],
      artifact_version_retirements := artifact_version_retirements db @
        map (retirement_row_of r2) (retirements_to_persist LifecycleApply ds),
      lifecycle_run_decisions := lifecycle_run_decisions db @ map (decision_row_of r2) ds\<rparr>"
    by (rule persist_lifecycle_run_ok [OF persist2 [unfolded same]])
  have "artifact_version_retirements db1 = artifact_version_retirements db"
    by (simp add: db1 retirements_to_persist_def)
  moreover have "artifact_version_retirements db2 =
      artifact_version_retirements db @ map (retirement_row_of r2) (filter ld_retire ds)"
    using retirements_of_decisions [OF ds] by (simp add: db2)
  ultimately show ?thesis by (intro conjI exI [of _ ds]) (simp_all add: db1 db2)
qed

subsection \<open>Policies load back\<close>

lemma insert_policy_rules_ok:
  assumes "fold_res (insert_policy_rule pid) rules rows = Inr rows'"
  obtains new where "rows' = rows @ new" and "map_res (\<lambda>kr. rbind (optional_bigint (lr_max_age_seconds (snd kr)))
      (\<lambda>max_age. Inr \<lparr>pr_policy_id = pid, pr_artifact_kind = fst kr, pr_keep_last_n = sint (lr_keep_last_n (snd kr)),
        pr_max_age_seconds = max_age\<rparr>)) rules = Inr new"
    and "\<forall>k \<in> fst ` set rules. \<forall>r \<in> set rows. \<not> (pr_policy_id r = pid \<and> pr_artifact_kind r = k)"
  using assms
proof (induction rules arbitrary: rows thesis)
  case (Cons kr rules)
  obtain kind rule where kr: "kr = (kind, rule)" by (cases kr)
  obtain mid where mid: "insert_policy_rule pid kr rows = Inr mid" and rest: "fold_res (insert_policy_rule pid) rules mid = Inr rows'"
    using Cons.prems(2) by (auto simp: rbind_eq_Inr)
  obtain age where age: "optional_bigint (lr_max_age_seconds rule) = Inr age"
    and fresh: "\<not> (\<exists>r \<in> set rows. pr_policy_id r = pid \<and> pr_artifact_kind r = kind)"
    and mid_eq: "mid = rows @ [\<lparr>pr_policy_id = pid, pr_artifact_kind = kind, pr_keep_last_n = sint (lr_keep_last_n rule),
        pr_max_age_seconds = age\<rparr>]"
    using mid unfolding insert_policy_rule_def kr prod.case run_simps by blast
  obtain new where new: "rows' = mid @ new" "map_res (\<lambda>kr. rbind (optional_bigint (lr_max_age_seconds (snd kr)))
      (\<lambda>max_age. Inr \<lparr>pr_policy_id = pid, pr_artifact_kind = fst kr, pr_keep_last_n = sint (lr_keep_last_n (snd kr)),
        pr_max_age_seconds = max_age\<rparr>)) rules = Inr new"
    "\<forall>k \<in> fst ` set rules. \<forall>r \<in> set mid. \<not> (pr_policy_id r = pid \<and> pr_artifact_kind r = k)"
    by (rule Cons.IH [OF _ rest])
  show ?case
    by (rule Cons.prems(1) [of "\<lparr>pr_policy_id = pid, pr_artifact_kind = kind, pr_keep_last_n = sint (lr_keep_last_n rule),
        pr_max_age_seconds = age\<rparr> # new"]) (use new fresh age in \<open>auto simp: mid_eq kr\<close>)
qed simp

text \<open>The rule a row stands for.\<close>

definition rule_of_row :: "rule_row \<Rightarrow> artifact_kind \<times> lifecycle_rule" where
  "rule_of_row row = (pr_artifact_kind row,
     \<lparr>lr_artifact_kind = pr_artifact_kind row, lr_keep_last_n = word_of_int (pr_keep_last_n row),
      lr_max_age_seconds = map_option word_of_int (pr_max_age_seconds row)\<rparr>)"

lemma load_policy_rules_ok:
  assumes "\<forall>r \<in> set rows. 0 \<le> pr_keep_last_n r \<and> (\<forall>age. pr_max_age_seconds r = Some age \<longrightarrow> 0 \<le> age)"
    and "distinct (map pr_artifact_kind rows)" and "\<forall>r \<in> set rows. map_of rules (pr_artifact_kind r) = None"
  shows "fold_res load_policy_rule rows rules = Inr (rules @ map rule_of_row rows)"
  using assms
proof (induction rows arbitrary: rules)
  case (Cons row rows)
  have "load_policy_rule row rules = Inr (rules @ [rule_of_row row])"
    using Cons.prems by (auto simp: load_policy_rule_def rule_of_row_def split: option.splits)
  moreover have "fold_res load_policy_rule rows (rules @ [rule_of_row row]) =
      Inr ((rules @ [rule_of_row row]) @ map rule_of_row rows)"
    by (rule Cons.IH) (use Cons.prems in \<open>auto simp: rule_of_row_def map_add_def image_iff\<close>)
  ultimately show ?case by simp
qed simp

lemma load_lifecycle_policy_id:
  assumes "load_lifecycle_policy db pid = Inr (Some q)"
  shows "lp_policy_id q = pid"
proof -
  obtain stored where stored: "query01 (filter (\<lambda>p. p_policy_id p = pid) (lifecycle_policies db)) = Inr stored"
    using assms unfolding load_lifecycle_policy_def rbind_eq_Inr by blast
  have loaded: "(case stored of None \<Rightarrow> Inr None
      | Some row \<Rightarrow> rbind (uuid_v7 (p_policy_id row)) (\<lambda>stored_policy_id.
          rbind (fold_res load_policy_rule (policy_rule_rows db pid) []) (\<lambda>rules.
          Inr (Some \<lparr>lp_policy_id = stored_policy_id, lp_name = p_name row, lp_rules = rules\<rparr>)))) = Inr (Some q)"
    using assms unfolding load_lifecycle_policy_def stored rbind_simps .
  obtain row where row: "stored = Some row"
  proof (cases stored)
    case None
    with loaded show thesis by simp
  qed (rule that)
  have "filter (\<lambda>p. p_policy_id p = pid) (lifecycle_policies db) = [row]"
    using stored unfolding row query01_Some .
  then have "row \<in> set (filter (\<lambda>p. p_policy_id p = pid) (lifecycle_policies db))" by simp
  moreover have "lp_policy_id q = p_policy_id row"
    using loaded unfolding row option.case run_simps uuid_v7_ok option.inject by (elim exE conjE) (hypsubst, simp)
  ultimately show ?thesis by simp
qed

lemma load_lifecycle_policy_absent:
  assumes "load_lifecycle_policy db pid = Inr None"
  shows "filter (\<lambda>p. p_policy_id p = pid) (lifecycle_policies db) = []"
proof -
  obtain stored where stored: "query01 (filter (\<lambda>p. p_policy_id p = pid) (lifecycle_policies db)) = Inr stored"
    using assms unfolding load_lifecycle_policy_def rbind_eq_Inr by blast
  have "stored = None"
  proof (cases stored)
    case (Some row)
    have False
      using assms unfolding load_lifecycle_policy_def stored rbind_simps Some option.case run_simps by blast
    then show ?thesis ..
  qed
  with stored show ?thesis by (simp add: query01_None)
qed

lemma sint_small: "w \<le> (1000 :: u32) \<Longrightarrow> 0 \<le> sint w"
proof -
  assume "w \<le> 1000"
  then have "uint w \<le> 1000" by (simp add: word_le_def)
  then have "uint w div 2 ^ 31 = 0" by (intro div_pos_pos_trivial) simp_all
  then have "\<not> bit (uint w) 31" by (simp add: bit_iff_odd)
  then show "0 \<le> sint w" by (simp add: sint_uint)
qed

lemma stored_rule_round_trip:
  assumes "validate_lifecycle_policy p = Inr ()" and "distinct (map fst (lp_rules p))" and "kr \<in> set (lp_rules p)"
    and "optional_bigint (lr_max_age_seconds (snd kr)) = Inr age"
  shows "rule_of_row \<lparr>pr_policy_id = pid, pr_artifact_kind = fst kr, pr_keep_last_n = sint (lr_keep_last_n (snd kr)),
      pr_max_age_seconds = age\<rparr> = kr"
    and "0 \<le> sint (lr_keep_last_n (snd kr)) \<and> (\<forall>a. age = Some a \<longrightarrow> 0 \<le> a)"
proof -
  have "map_of (lp_rules p) (fst kr) = Some (snd kr)" using assms(2,3) by simp
  moreover have "(case map_of (lp_rules p) (fst kr) of
      None \<Rightarrow> Inl (Lifecycle_error InvalidRequest)
    | Some rule \<Rightarrow>
        if lr_artifact_kind rule \<noteq> fst kr then Inl (Lifecycle_error InvalidRequest)
        else if lr_keep_last_n rule > kMaxKeepLastN then Inl (Lifecycle_error InvalidRequest)
        else if (case lr_max_age_seconds rule of Some a \<Rightarrow> a > kMaxAgeSeconds | None \<Rightarrow> False)
        then Inl (Lifecycle_error InvalidRequest)
        else Inr ()) = Inr ()"
    using assms(1) all_kinds [of "fst kr"] unfolding validate_lifecycle_policy_def if_Inl_eq_Inr check_all_ok by blast
  ultimately have kind: "lr_artifact_kind (snd kr) = fst kr" and keep: "lr_keep_last_n (snd kr) \<le> kMaxKeepLastN"
    by (simp_all split: if_splits)
  show "rule_of_row \<lparr>pr_policy_id = pid, pr_artifact_kind = fst kr, pr_keep_last_n = sint (lr_keep_last_n (snd kr)),
      pr_max_age_seconds = age\<rparr> = kr"
    using assms(4) kind by (cases kr) (auto simp: rule_of_row_def optional_bigint_ok split: option.splits)
  show "0 \<le> sint (lr_keep_last_n (snd kr)) \<and> (\<forall>a. age = Some a \<longrightarrow> 0 \<le> a)"
    using assms(4) sint_small keep by (auto simp: optional_bigint_ok kMaxKeepLastN_def split: option.splits)
qed

text \<open>
  C34: A registered policy loads back: after \<open>register_lifecycle_policy\<close> succeeds for a policy with a valid
  identifier and one rule per kind, loading the identifier gives a policy with the same name and rules.
\<close>

theorem lifecycle_policy_round_trip:
  assumes "register_lifecycle_policy db p = Inr db'" and "is_uuid (lp_policy_id p)" and "distinct (map fst (lp_rules p))"
  shows "\<exists>q. get_lifecycle_policy db' (lp_policy_id p) = Inr (Some q) \<and> lp_policy_id q = lp_policy_id p \<and>
    lp_name q = lp_name p \<and> rules_equal (lp_rules q) (lp_rules p)"
proof -
  let ?pid = "lp_policy_id p"
  obtain existing where valid: "validate_lifecycle_policy p = Inr ()"
    and existing: "load_lifecycle_policy db ?pid = Inr existing"
    using assms(1) unfolding register_lifecycle_policy_def rbind_eq_Inr by auto
  note run = assms(1) [unfolded register_lifecycle_policy_def valid existing rbind_simps]
  show ?thesis
  proof (cases existing)
    case (Some q)
    have "lp_policy_id q = ?pid" using existing unfolding Some by (rule load_lifecycle_policy_id)
    then show ?thesis using run existing Some by (auto simp: get_lifecycle_policy_def split: if_splits)
  next
    case None
    obtain rows' where ins: "fold_res (insert_policy_rule ?pid) (lp_rules p) (lifecycle_policy_rules db) = Inr rows'"
      and db': "db' = db\<lparr>lifecycle_policies := lifecycle_policies db @ [\<lparr>p_policy_id = ?pid, p_name = lp_name p\<rparr>],
        lifecycle_policy_rules := rows'\<rparr>"
      using run None by (auto simp: rbind_eq_Inr)
    obtain new where rows': "rows' = lifecycle_policy_rules db @ new"
      and new: "map_res (\<lambda>kr. rbind (optional_bigint (lr_max_age_seconds (snd kr))) (\<lambda>max_age.
        Inr \<lparr>pr_policy_id = ?pid, pr_artifact_kind = fst kr, pr_keep_last_n = sint (lr_keep_last_n (snd kr)),
          pr_max_age_seconds = max_age\<rparr>)) (lp_rules p) = Inr new"
      and fresh: "\<forall>k \<in> fst ` set (lp_rules p). \<forall>r \<in> set (lifecycle_policy_rules db). \<not> (pr_policy_id r = ?pid \<and> pr_artifact_kind r = k)"
      by (rule insert_policy_rules_ok [OF ins])
    have absent: "filter (\<lambda>q. p_policy_id q = ?pid) (lifecycle_policies db) = []"
      using existing unfolding None by (rule load_lifecycle_policy_absent)
    have no_rules: "filter (\<lambda>r. pr_policy_id r = ?pid) (lifecycle_policy_rules db) = []"
      using fresh validate_lifecycle_policy_rules [OF valid] unfolding filter_empty_conv
      by (metis fst_conv image_eqI map_of_SomeD)
    have len: "length new = length (lp_rules p)" using map_res_length [OF new] .
    have each: "rule_of_row (new ! i) = lp_rules p ! i \<and> pr_policy_id (new ! i) = ?pid \<and>
        pr_artifact_kind (new ! i) = fst (lp_rules p ! i) \<and> 0 \<le> pr_keep_last_n (new ! i) \<and>
        (\<forall>a. pr_max_age_seconds (new ! i) = Some a \<longrightarrow> 0 \<le> a)" if "i < length (lp_rules p)" for i
      using map_res_nth [OF new that] stored_rule_round_trip [OF valid assms(3) nth_mem [OF that]]
      unfolding run_simps by (elim exE conjE) (drule sym [of _ "new ! i"], simp)
    have rules: "map rule_of_row new = lp_rules p" and kinds: "map pr_artifact_kind new = map fst (lp_rules p)"
      using each len by (auto intro: nth_equalityI)
    let ?sorted = "sort_key (\<lambda>r. artifact_kind_to_string (pr_artifact_kind r)) new"
    have "filter (\<lambda>r. pr_policy_id r = ?pid) new = new"
      using each len by (auto simp: filter_id_conv in_set_conv_nth)
    then have rows: "policy_rule_rows db' ?pid = ?sorted"
      using no_rules by (simp add: policy_rule_rows_def db' rows')
    have dist: "distinct (map pr_artifact_kind ?sorted)"
      using assms(3) unfolding kinds [symmetric] by (simp add: distinct_map)
    have "fold_res load_policy_rule ?sorted [] = Inr ([] @ map rule_of_row ?sorted)"
      by (rule load_policy_rules_ok) (use each len dist in \<open>auto simp: in_set_conv_nth\<close>)
    then have "get_lifecycle_policy db' ?pid =
        Inr (Some \<lparr>lp_policy_id = ?pid, lp_name = lp_name p, lp_rules = map rule_of_row ?sorted\<rparr>)"
      unfolding get_lifecycle_policy_def load_lifecycle_policy_def rows
      using absent assms(2) by (simp add: db' query01_single uuid_v7_def is_uuid_def)
    moreover have "map_of (map rule_of_row ?sorted) = map_of (lp_rules p)"
    proof (subst map_of_inject_set)
      have "map fst (map rule_of_row ?sorted) = map pr_artifact_kind ?sorted" by (simp add: rule_of_row_def)
      then show "distinct (map fst (map rule_of_row ?sorted))" using dist by (simp only:)
      show "distinct (map fst (lp_rules p))" by (rule assms(3))
      have "set (map rule_of_row ?sorted) = set (map rule_of_row new)" by simp
      then show "set (map rule_of_row ?sorted) = set (lp_rules p)" unfolding rules .
    qed
    ultimately show ?thesis by (simp add: rules_equal_def)
  qed
qed

subsection \<open>Paging through the decisions\<close>

lemma sort_key_distinct_sorted:
  "distinct (map f xs) \<Longrightarrow> sorted_wrt (\<lambda>x y. f x < f y) (sort_key f xs)"
proof -
  assume "distinct (map f xs)"
  then have "distinct (map f (sort_key f xs))" by (simp add: distinct_map)
  then have "sorted_wrt (<) (map f (sort_key f xs))" by (simp add: strict_sorted_iff)
  then show ?thesis by (simp add: sorted_wrt_map)
qed

lemma decision_of_row_id: "decision_of_row row = Inr d \<Longrightarrow> ld_version_id d = d_version_id row"
  unfolding decision_of_row_def run_simps by (elim exE conjE) (hypsubst, simp)

text \<open>In a strictly sorted list, the elements past the last of a prefix are the rest of the list.\<close>

lemma filter_after_prefix:
  fixes f :: "'a \<Rightarrow> 'b :: linorder"
  assumes "sorted_wrt (\<lambda>x y. f x < f y) (ps @ rs)" and "ps \<noteq> []"
  shows "filter (\<lambda>x. f (last ps) < f x) (ps @ rs) = rs"
proof -
  have upto: "\<not> f (last ps) < f x" if "x \<in> set ps" for x
  proof -
    have snoc: "ps = butlast ps @ [last ps]" using assms(2) by simp
    then have "x \<in> set (butlast ps) \<or> x = last ps" using that by (metis in_set_butlast_appendI set_ConsD rotate1.simps(2) set_rotate1)
    moreover have "f y < f (last ps)" if "y \<in> set (butlast ps)" for y
      using assms(1) that by (subst (asm) snoc) (auto simp: sorted_wrt_append)
    ultimately show ?thesis by (auto dest: less_asym)
  qed
  have "f (last ps) < f x" if "x \<in> set rs" for x
    using assms that by (auto simp: sorted_wrt_append)
  then show ?thesis using upto by (simp add: filter_id_conv filter_empty_conv)
qed

lemma filter_sort_key_commute: "filter P (sort_key f xs) = sort_key f (filter P xs)"
  by (simp add: filter_sort)

text \<open>Paging neither skips nor repeats a decision. When a page is followed by the page that starts after
  its last version, the two together are what one page of their joint size would have been.
\<close>

theorem decision_pages_compose:
  assumes "distinct (map d_version_id (filter (\<lambda>d. d_run_id d = rid) (lifecycle_run_decisions db)))"
    and "list_lifecycle_decisions db rid after n = Inr p" and "p \<noteq> []"
    and "list_lifecycle_decisions db rid (Some (ld_version_id (last p))) m = Inr q"
  shows "map_res decision_of_row (take (length p + m) (decision_rows_after db rid after)) = Inr (p @ q)"
proof -
  let ?S = "decision_rows_after db rid after" and ?rows = "filter (\<lambda>d. d_run_id d = rid) (lifecycle_run_decisions db)"
  have page: "map_res decision_of_row (take n ?S) = Inr p"
    using assms(2) unfolding list_lifecycle_decisions_def run_simps by blast
  have next_page: "map_res decision_of_row (take m (decision_rows_after db rid (Some (ld_version_id (last p))))) = Inr q"
    using assms(4) unfolding list_lifecycle_decisions_def run_simps by blast
  define k where "k = length p"
  have k: "take n ?S = take k ?S" "length (take k ?S) = k"
    using map_res_length [OF page] by (auto simp: k_def min_def)
  have "0 < k" using assms(3) by (simp add: k_def)
  then have nonempty: "take k ?S \<noteq> []" using k(2) by auto
  have split: "?S = take k ?S @ drop k ?S" by simp
  have last_id: "ld_version_id (last p) = d_version_id (last (take k ?S))"
  proof -
    have "decision_of_row (take n ?S ! (k - 1)) = Inr (p ! (k - 1))"
      by (rule map_res_nth [OF page]) (use k \<open>0 < k\<close> in simp)
    then have "ld_version_id (p ! (k - 1)) = d_version_id (take k ?S ! (k - 1))"
      unfolding k(1) by (rule decision_of_row_id)
    then show ?thesis using assms(3) nonempty k(2) by (simp add: last_conv_nth k_def)
  qed
  have sorted: "sorted_wrt (\<lambda>x y. d_version_id x < d_version_id y) ?S"
    unfolding decision_rows_after_def Let_def
    by (rule sort_key_distinct_sorted, cases after) (simp_all only: option.case assms(1) distinct_map_filter)
  have later: "filter (\<lambda>d. d_version_id (last (take k ?S)) < d_version_id d) ?S = drop k ?S"
    using filter_after_prefix [of d_version_id "take k ?S" "drop k ?S"] sorted nonempty by simp
  have last_after: "\<forall>a. after = Some a \<longrightarrow> a < d_version_id (last (take k ?S))"
  proof (intro allI impI)
    fix a assume a: "after = Some a"
    have "last (take k ?S) \<in> set ?S" using last_in_set [OF nonempty] by (rule in_set_takeD)
    then show "a < d_version_id (last (take k ?S))" by (simp add: decision_rows_after_def a)
  qed
  have "decision_rows_after db rid (Some (ld_version_id (last p))) = drop k ?S"
  proof -
    have "filter (\<lambda>d. d_version_id (last (take k ?S)) < d_version_id d) ?S =
        sort_key d_version_id (filter (\<lambda>d. d_version_id (last (take k ?S)) < d_version_id d) ?rows)"
      using last_after unfolding decision_rows_after_def [of db rid after] Let_def filter_sort_key_commute
      by (cases after) (auto simp: decision_rows_after_def intro!: arg_cong [where f = "sort_key d_version_id"] filter_cong)
    then show ?thesis using later unfolding last_id by (simp add: decision_rows_after_def Let_def)
  qed
  with next_page have rest: "map_res decision_of_row (take m (drop k ?S)) = Inr q" by simp
  have "map_res decision_of_row (xs @ ys) = Inr (us @ vs)"
    if "map_res decision_of_row xs = Inr us" "map_res decision_of_row ys = Inr vs" for xs ys us vs
    using that by (induction xs arbitrary: us) (auto simp: rbind_eq_Inr)
  from this [OF page [unfolded k(1)] rest] show ?thesis
    by (simp add: k_def [symmetric] take_add)
qed

subsection \<open>A worked run\<close>

text \<open>Two committed versions of one artifact under a policy that keeps the newest of each kind.\<close>

lemma sample_id_inject: "sample_id c = sample_id d \<longleftrightarrow> c = d"
  by (simp add: sample_id_def)

definition sample_version :: "char \<Rightarrow> int \<Rightarrow> version_row" where
  "sample_version c created_at =
     \<lparr>v_version_id = sample_id c, v_artifact_id = sample_uuid, v_root_object_id = sample_id (CHR ''a''),
      v_parent_version_id = None, v_descriptor_version = 1, v_canonical_descriptor = [],
      v_state = VersionCommitted, v_created_at = created_at\<rparr>"

definition keep_one_rule :: "artifact_kind \<Rightarrow> lifecycle_rule" where
  "keep_one_rule k = \<lparr>lr_artifact_kind = k, lr_keep_last_n = 1, lr_max_age_seconds = None\<rparr>"

definition sample_policy :: lifecycle_policy where
  "sample_policy = \<lparr>lp_policy_id = sample_uuid, lp_name = ''keep-one'',
     lp_rules = map (\<lambda>k. (k, keep_one_rule k)) kAllArtifactKinds\<rparr>"

definition sample_lifecycle_db :: database where
  "sample_lifecycle_db = empty_database
     \<lparr>artifacts := [\<lparr>art_artifact_id = sample_uuid, art_name = ''model'', art_project = ''demo''\<rparr>],
      objects := [\<lparr>o_object_id = sample_id (CHR ''a''), o_total_size_bytes = 5\<rparr>],
      artifact_versions := [sample_version (CHR ''e'') 1, sample_version (CHR ''f'') 2],
      lifecycle_policies := [\<lparr>p_policy_id = sample_uuid, p_name = ''keep-one''\<rparr>],
      lifecycle_policy_rules := map (\<lambda>k. \<lparr>pr_policy_id = sample_uuid, pr_artifact_kind = k, pr_keep_last_n = 1,
         pr_max_age_seconds = None\<rparr>) kAllArtifactKinds\<rparr>"

lemma uuid_v7_sample: "uuid_v7 sample_uuid = Inr sample_uuid"
  using sample_uuid_ok by (simp add: uuid_v7_def is_uuid_def)

lemma sample_policy_loads: "\<exists>rules. load_lifecycle_policy sample_lifecycle_db sample_uuid =
    Inr (Some \<lparr>lp_policy_id = sample_uuid, lp_name = ''keep-one'', lp_rules = rules\<rparr>) \<and>
    map_of rules Generic = Some (keep_one_rule Generic)"
  by (simp add: load_lifecycle_policy_def sample_lifecycle_db_def uuid_v7_sample policy_rule_rows_def
      kAllArtifactKinds_def load_policy_rule_def query01_def keep_one_rule_def)

lemma sample_candidates:
  "ranked_candidates sample_lifecycle_db = Inr
     [\<lparr>ca_version_id = sample_id (CHR ''f''), ca_artifact_id = sample_uuid, ca_artifact_kind = Generic, ca_created_at = 2,
       ca_logical_size_bytes = 5, ca_pinned = False, ca_tagged = False, ca_manifest_referenced = False,
       ca_rank_in_kind = 1\<rparr>,
      \<lparr>ca_version_id = sample_id (CHR ''e''), ca_artifact_id = sample_uuid, ca_artifact_kind = Generic, ca_created_at = 1,
       ca_logical_size_bytes = 5, ca_pinned = False, ca_tagged = False, ca_manifest_referenced = False,
       ca_rank_in_kind = 2\<rparr>]"
proof -
  have "sample_uuid \<noteq> []" by (simp add: sample_uuid_def)
  then show ?thesis
    by (simp add: ranked_candidates_def candidate_rows_def sample_lifecycle_db_def empty_database_def sample_version_def
        is_version_retired_def candidate_of_def candidate_kind_metadata_def query01_def uuid_v7_sample
        resolve_artifact_kind_def is_pinned_def is_tagged_def is_manifest_referenced_def sort_by_def
        candidate_before_def Let_def)
qed

definition sample_decisions :: "lifecycle_decision list" where
  "sample_decisions =
     [\<lparr>ld_version_id = sample_id (CHR ''f''), ld_artifact_id = sample_uuid, ld_artifact_kind = Generic,
       ld_retire = False, ld_reason = KeepLastN, ld_logical_size_bytes = 5\<rparr>,
      \<lparr>ld_version_id = sample_id (CHR ''e''), ld_artifact_id = sample_uuid, ld_artifact_kind = Generic,
       ld_retire = True, ld_reason = PolicyRetire, ld_logical_size_bytes = 5\<rparr>]"

lemma sample_decide:
  "map_of (lp_rules policy) Generic = Some (keep_one_rule Generic) \<Longrightarrow>
   map_res (decide_candidate policy now) (projr (ranked_candidates sample_lifecycle_db)) = Inr sample_decisions"
  unfolding sample_candidates by (simp add: decide_candidate_def sample_decisions_def keep_one_rule_def Let_def word_le_def)

lemma sample_persist:
  "\<exists>db' run. persist_lifecycle_run sample_lifecycle_db sample_uuid sample_uuid mode now sample_decisions = Inr db' \<and>
     load_lifecycle_run db' sample_uuid = Inr (Some run) \<and>
     (mode = LifecycleApply \<longrightarrow> is_version_retired db' (sample_id (CHR ''e'')))"
  by (cases mode)
    (simp_all add: persist_lifecycle_run_def insert_lifecycle_run_def lifecycle_stats_of_def sample_decisions_def
      retirements_to_persist_def count_decision_def count_retirement_def zero_lifecycle_stats_def to_postgres_bigint_def
      lifecycle_run_rows_def sample_lifecycle_db_def empty_database_def insert_retirement_def is_version_retired_def
      has_version_def sample_version_def insert_decision_def has_artifact_def sample_id_inject load_lifecycle_run_def
      query01_def reconstruct_lifecycle_run_def uuid_v7_sample require_non_negative_def)

lemma sample_fresh: "load_lifecycle_run sample_lifecycle_db sample_uuid = Inr None"
  by (simp add: load_lifecycle_run_def lifecycle_run_rows_def sample_lifecycle_db_def empty_database_def query01_def)

lemma sample_run:
  "\<exists>db' run. run_lifecycle sample_lifecycle_db now sample_uuid sample_uuid mode = Inr (db', run) \<and>
     (mode = LifecycleApply \<longrightarrow> is_version_retired db' (sample_id (CHR ''e'')))"
proof -
  obtain rules where policy: "load_lifecycle_policy sample_lifecycle_db sample_uuid =
      Inr (Some \<lparr>lp_policy_id = sample_uuid, lp_name = ''keep-one'', lp_rules = rules\<rparr>)"
    and generic: "map_of rules Generic = Some (keep_one_rule Generic)"
    using sample_policy_loads by blast
  obtain cs where cs: "ranked_candidates sample_lifecycle_db = Inr cs" using sample_candidates by blast
  have ds: "map_res (decide_candidate \<lparr>lp_policy_id = sample_uuid, lp_name = ''keep-one'', lp_rules = rules\<rparr> now) cs =
      Inr sample_decisions"
    using sample_decide [of "\<lparr>lp_policy_id = sample_uuid, lp_name = ''keep-one'', lp_rules = rules\<rparr>" now] generic
    by (simp add: cs)
  obtain db' run where db': "persist_lifecycle_run sample_lifecycle_db sample_uuid sample_uuid mode now sample_decisions = Inr db'"
    "load_lifecycle_run db' sample_uuid = Inr (Some run)"
    "mode = LifecycleApply \<longrightarrow> is_version_retired db' (sample_id (CHR ''e''))"
    using sample_persist by blast
  have quiet: "\<not> open_upload_sessions_present sample_lifecycle_db" "\<not> gc_in_progress sample_lifecycle_db"
    "\<not> replication_in_progress sample_lifecycle_db"
    by (simp_all add: open_upload_sessions_present_def gc_in_progress_def replication_in_progress_def
        sample_lifecycle_db_def empty_database_def)
  show ?thesis
    unfolding run_lifecycle_def sample_fresh rbind_simps option.case policy cs ds db'(1,2) using quiet db'(3) by simp
qed

theorem retirement_is_justified_witness:
  "case run_lifecycle sample_lifecycle_db 0 sample_uuid sample_uuid LifecycleApply of
     Inr (db', run) \<Rightarrow> is_version_retired db' (sample_id (CHR ''e'')) \<and>
       \<not> is_pinned sample_lifecycle_db (sample_id (CHR ''e''))
   | Inl e \<Rightarrow> False"
proof -
  obtain db' run where run: "run_lifecycle sample_lifecycle_db 0 sample_uuid sample_uuid LifecycleApply = Inr (db', run)"
    and retired: "is_version_retired db' (sample_id (CHR ''e''))"
    using sample_run [of 0 LifecycleApply] by blast
  obtain policy where policy: "load_lifecycle_policy sample_lifecycle_db sample_uuid = Inr (Some policy)"
    using sample_policy_loads by blast
  have keys: "object_ids_distinct sample_lifecycle_db" "version_ids_distinct sample_lifecycle_db"
    "length (artifact_versions sample_lifecycle_db) < 2 ^ 32 - 1"
    "sample_version (CHR ''e'') 1 \<in> set (artifact_versions sample_lifecycle_db)"
    "\<not> is_version_retired sample_lifecycle_db (v_version_id (sample_version (CHR ''e'') 1))"
    "v_version_id (sample_version (CHR ''e'') 1) = sample_id (CHR ''e'')"
    by (simp_all add: object_ids_distinct_def version_ids_distinct_def sample_lifecycle_db_def empty_database_def
        sample_version_def sample_id_inject is_version_retired_def)
  show ?thesis
    using retirement_is_justified [OF keys(1-3) run sample_fresh policy keys(4,5)] retired
    unfolding keys(6) run by simp
qed

theorem lifecycle_stats_partition_witness:
  "case run_lifecycle sample_lifecycle_db 0 sample_uuid sample_uuid LifecycleApply of
     Inr (db', run) \<Rightarrow> versions_retired (lcr_stats run) = versions_candidates (lcr_stats run)
   | Inl e \<Rightarrow> False"
proof -
  obtain db' run where run: "run_lifecycle sample_lifecycle_db 0 sample_uuid sample_uuid LifecycleApply = Inr (db', run)"
    using sample_run [of 0 LifecycleApply] by blast
  from lifecycle_stats_partition [OF run sample_fresh, unfolded Let_def, THEN conjunct2, THEN conjunct2, THEN conjunct2, THEN conjunct1]
  show ?thesis unfolding run by simp
qed

theorem dry_run_predicts_apply_witness:
  "case run_lifecycle sample_lifecycle_db 0 sample_uuid sample_uuid LifecycleDryRun of
     Inr (db', run) \<Rightarrow> artifact_version_retirements db' = []
   | Inl e \<Rightarrow> False"
proof -
  obtain db1 run1 where dry: "run_lifecycle sample_lifecycle_db 0 sample_uuid sample_uuid LifecycleDryRun = Inr (db1, run1)"
    using sample_run [of 0 LifecycleDryRun] by blast
  obtain db2 run2 where "run_lifecycle sample_lifecycle_db 0 sample_uuid sample_uuid LifecycleApply = Inr (db2, run2)"
    using sample_run [of 0 LifecycleApply] by blast
  from dry_run_predicts_apply [OF dry sample_fresh this sample_fresh, THEN conjunct1] show ?thesis
    unfolding dry by (simp add: sample_lifecycle_db_def empty_database_def)
qed

lemma register_sample_policy: "\<exists>db'. register_lifecycle_policy empty_database sample_policy = Inr db'"
  by (simp add: register_lifecycle_policy_def validate_lifecycle_policy_def sample_policy_def kMaxPolicyNameBytes_def
      kExpectedRuleCount_def kAllArtifactKinds_def keep_one_rule_def kMaxKeepLastN_def load_lifecycle_policy_def
      empty_database_def query01_def insert_policy_rule_def optional_bigint_def)

theorem lifecycle_policy_round_trip_witness:
  "case register_lifecycle_policy empty_database sample_policy of
     Inr db' \<Rightarrow> (case get_lifecycle_policy db' sample_uuid of
         Inr (Some q) \<Rightarrow> lp_name q = ''keep-one'' \<and> rules_equal (lp_rules q) (lp_rules sample_policy)
       | _ \<Rightarrow> False)
   | Inl e \<Rightarrow> False"
proof -
  obtain db' where reg: "register_lifecycle_policy empty_database sample_policy = Inr db'"
    using register_sample_policy by blast
  have id: "lp_policy_id sample_policy = sample_uuid" and fields: "is_uuid (lp_policy_id sample_policy)"
    "distinct (map fst (lp_rules sample_policy))" "lp_name sample_policy = ''keep-one''"
    using sample_uuid_ok by (simp_all add: sample_policy_def kAllArtifactKinds_def)
  obtain q where "get_lifecycle_policy db' sample_uuid = Inr (Some q)" "lp_name q = ''keep-one''"
    "rules_equal (lp_rules q) (lp_rules sample_policy)"
    using lifecycle_policy_round_trip [OF reg fields(1,2)] unfolding id fields(3) by blast
  then show ?thesis unfolding reg by simp
qed

text \<open>Two recorded decisions, read one per page.\<close>

definition sample_decisions_db :: database where
  "sample_decisions_db = empty_database
     \<lparr>lifecycle_runs := [\<lparr>lrn_run_id = sample_uuid, lrn_policy_id = sample_uuid, lrn_mode = LifecycleDryRun,
         lrn_evaluated_at_ms = 0, lrn_versions_scanned = 2, lrn_versions_protected = 0,
         lrn_versions_retained_by_policy = 1, lrn_versions_candidates = 1, lrn_versions_retired = 0,
         lrn_logical_bytes_candidates = 5, lrn_logical_bytes_retired = 0\<rparr>],
      lifecycle_run_decisions := map (decision_row_of sample_uuid) sample_decisions\<rparr>"

lemma sample_id_less: "c < d \<Longrightarrow> sample_id c < sample_id d"
  by (simp add: sample_id_def numeral_eq_Suc)

lemma sample_pages:
  "list_lifecycle_decisions sample_decisions_db sample_uuid None 1 = Inr [sample_decisions ! 1]"
  "list_lifecycle_decisions sample_decisions_db sample_uuid (Some (sample_id (CHR ''e''))) 1 = Inr [sample_decisions ! 0]"
proof -
  have less: "sample_id (CHR ''e'') < sample_id (CHR ''f'')"
    by (rule sample_id_less) (simp add: less_char_def)
  have "check_content_id (sample_id (CHR ''e'')) = Inr ()"
    using sample_id_content_id [of "CHR ''e''"] by (simp add: check_content_id_ok is_lower_hex_def)
  then show "list_lifecycle_decisions sample_decisions_db sample_uuid None 1 = Inr [sample_decisions ! 1]"
    "list_lifecycle_decisions sample_decisions_db sample_uuid (Some (sample_id (CHR ''e''))) 1 = Inr [sample_decisions ! 0]"
    using less less_imp_not_less [OF less]
    by (simp_all add: list_lifecycle_decisions_def kMaxLifecycleDecisionPageLimit_def check_optional_content_id_def
        lifecycle_run_rows_def sample_decisions_db_def decision_rows_after_def decision_row_of_def sample_decisions_def
        decision_of_row_def uuid_v7_sample not_le)
qed

theorem decision_pages_compose_witness:
  "map_res decision_of_row (take 2 (decision_rows_after sample_decisions_db sample_uuid None)) =
   Inr [sample_decisions ! 1, sample_decisions ! 0]"
proof -
  have dist: "distinct (map d_version_id (filter (\<lambda>d. d_run_id d = sample_uuid) (lifecycle_run_decisions sample_decisions_db)))"
    by (simp add: sample_decisions_db_def decision_row_of_def sample_decisions_def sample_id_inject)
  have cursor: "list_lifecycle_decisions sample_decisions_db sample_uuid
      (Some (ld_version_id (last [sample_decisions ! 1]))) 1 = Inr [sample_decisions ! 0]"
    using sample_pages(2) by (simp add: sample_decisions_def)
  show ?thesis
    using decision_pages_compose [OF dist sample_pages(1) _ cursor] by (simp add: numeral_2_eq_2)
qed

end
