(* ===== verification/Repo_Restore.thy ===== *)
theory Repo_Restore
  imports Repo_Lifecycle
begin

section \<open>Repository: restore plans\<close>

text \<open>
  The two queries a pull starts from (\<open>metadata/restore_plan.hpp\<close>, and \<open>resolve_restore_plan\<close> and
  \<open>resolve_multi_node_restore_plan\<close> in \<open>postgres_metadata_repository.cpp\<close>): which layout of a version's
  object to read, and from which nodes. The lemmas show that a plan can be served, that it exists whenever
  some layout of the object is available, and that garbage collection never changes one.
\<close>

subsection \<open>The plans\<close>

record restore_plan =
  rp_artifact_id :: string
  rp_version_id :: string
  rp_source_node_id :: string
  rp_layout_descriptor :: object_layout_descriptor

record restore_node_endpoint =
  en_node_id :: string
  en_address :: string
  en_port :: u16

record restore_chunk_sources =
  cs_chunk_id :: string
  cs_offset :: u64
  cs_size_bytes :: u64
  cs_sources :: "restore_node_endpoint list"

record multi_node_restore_plan =
  mp_artifact_id :: string
  mp_version_id :: string
  mp_object_id :: string
  mp_layout_id :: string
  mp_layout_descriptor :: object_layout_descriptor
  mp_chunks :: "restore_chunk_sources list"

subsection \<open>The shared statements\<close>

definition load_restorable_version :: "hash \<Rightarrow> database \<Rightarrow> string \<Rightarrow> artifact_version res" where
  "load_restorable_version H db version_id =
     rbind (load_version H db version_id) (\<lambda>version.
     case version of
       None \<Rightarrow> Inl (Restore_plan_error RestoreVersionNotFound)
     | Some v \<Rightarrow>
         if av_state v \<noteq> VersionCommitted then Inl (Restore_plan_error RestoreVersionNotCommitted)
         else if is_version_retired db version_id then Inl (Restore_plan_error RestoreVersionRetired)
         else Inr v)"

text \<open>\<open>SELECT layout_id \<dots> ORDER BY layout_id LIMIT 1\<close> over the layouts of an object whose chunks all
  satisfy the inner predicate.\<close>

definition complete_layouts :: "database \<Rightarrow> (string \<Rightarrow> bool) \<Rightarrow> string \<Rightarrow> layout_row list" where
  "complete_layouts db available object_id =
     filter (\<lambda>ol. l_object_id ol = object_id \<and>
               \<not> (\<exists>olc \<in> set (object_layout_chunks db).
                     lc_layout_id olc = l_layout_id ol \<and> \<not> available (lc_chunk_id olc)))
       (object_layouts db)"

definition select_layout :: "database \<Rightarrow> (string \<Rightarrow> bool) \<Rightarrow> string \<Rightarrow> string option" where
  "select_layout db available object_id =
     (case sort (map l_layout_id (complete_layouts db available object_id)) of [] \<Rightarrow> None | lid # _ \<Rightarrow> Some lid)"

definition available_on_node :: "database \<Rightarrow> string \<Rightarrow> string \<Rightarrow> bool" where
  "available_on_node db node_id chunk_id \<longleftrightarrow>
     (\<exists>sl \<in> set (storage_locations db).
        sl_chunk_id sl = chunk_id \<and> sl_node_id sl = node_id \<and> sl_state sl = Available)"

text \<open>The join of the available locations of a chunk with the nodes that may serve it.\<close>

definition source_rows :: "database \<Rightarrow> string \<Rightarrow> node_row list" where
  "source_rows db chunk_id =
     sort_key n_node_id
       (concat (map (\<lambda>sl. filter (\<lambda>sn. n_node_id sn = sl_node_id sl \<and> (n_state sn = Active \<or> n_state sn = Draining))
                            (storage_nodes db))
                  (filter (\<lambda>sl. sl_chunk_id sl = chunk_id \<and> sl_state sl = Available) (storage_locations db))))"

definition endpoint_of :: "node_row \<Rightarrow> restore_node_endpoint res" where
  "endpoint_of row =
     (if n_port row < 0 \<or> 65535 < n_port row then Inl Runtime_error
      else Inr \<lparr>en_node_id = n_node_id row, en_address = n_address row, en_port = word_of_int (n_port row)\<rparr>)"

definition restore_sources :: "database \<Rightarrow> chunk_ref \<Rightarrow> restore_chunk_sources res" where
  "restore_sources db chunk =
     rbind (map_res endpoint_of (source_rows db (cr_chunk_id chunk))) (\<lambda>sources.
     Inr \<lparr>cs_chunk_id = cr_chunk_id chunk, cs_offset = cr_offset chunk, cs_size_bytes = cr_size chunk,
          cs_sources = sources\<rparr>)"

text \<open>The selected layout, loaded and compared with the version's root object.\<close>

definition load_selected_layout ::
  "hash \<Rightarrow> database \<Rightarrow> artifact_version \<Rightarrow> string option \<Rightarrow> object_layout_descriptor res" where
  "load_selected_layout H db version selected_layout =
     (case selected_layout of
        None \<Rightarrow> Inl (Restore_plan_error RestoreSourceUnavailable)
      | Some layout_id \<Rightarrow>
          rbind (load_object_layout H db layout_id) (\<lambda>loaded.
          case loaded of
            None \<Rightarrow> Inl Runtime_error
          | Some descriptor \<Rightarrow>
              if obj_object_id (ld_object descriptor) \<noteq> av_root_object_id version then Inl Runtime_error
              else Inr descriptor))"

subsection \<open>The operations\<close>

definition resolve_restore_plan :: "hash \<Rightarrow> database \<Rightarrow> string \<Rightarrow> string \<Rightarrow> restore_plan res" where
  "resolve_restore_plan H db version_id source_node_id =
     rbind (check_content_id version_id) (\<lambda>_.
     rbind (validate_source_node_id source_node_id) (\<lambda>_.
     rbind (load_restorable_version H db version_id) (\<lambda>version.
     rbind (load_selected_layout H db version
              (select_layout db (available_on_node db source_node_id) (av_root_object_id version))) (\<lambda>descriptor.
     Inr \<lparr>rp_artifact_id = av_artifact_id version, rp_version_id = av_version_id version,
          rp_source_node_id = source_node_id, rp_layout_descriptor = descriptor\<rparr>))))"

definition resolve_multi_node_restore_plan :: "hash \<Rightarrow> database \<Rightarrow> string \<Rightarrow> multi_node_restore_plan res" where
  "resolve_multi_node_restore_plan H db version_id =
     rbind (check_content_id version_id) (\<lambda>_.
     rbind (load_restorable_version H db version_id) (\<lambda>version.
     rbind (load_selected_layout H db version
              (select_layout db (multi_node_restorable_chunk db) (av_root_object_id version))) (\<lambda>descriptor.
     rbind (map_res (restore_sources db) (ol_chunks (ld_layout descriptor))) (\<lambda>chunk_sources.
     Inr \<lparr>mp_artifact_id = av_artifact_id version, mp_version_id = av_version_id version,
          mp_object_id = obj_object_id (ld_object descriptor), mp_layout_id = ld_layout_id descriptor,
          mp_layout_descriptor = descriptor, mp_chunks = chunk_sources\<rparr>))))"

subsection \<open>What a loaded layout is\<close>

lemma load_layout_rows_ids:
  "fold_res load_layout_row rows (i, refs) = Inr (k, refs') \<Longrightarrow>
   map cr_chunk_id refs' = map cr_chunk_id refs @ map lc_chunk_id rows"
proof (induction rows arbitrary: i refs)
  case (Cons row rows)
  then obtain j mid where step: "load_layout_row row (i, refs) = Inr (j, mid)"
    and rest: "fold_res load_layout_row rows (j, mid) = Inr (k, refs')"
    by (auto simp: rbind_eq_Inr)
  from step have "map cr_chunk_id mid = map cr_chunk_id refs @ [lc_chunk_id row]"
    by (auto simp: load_layout_row_def rbind_eq_Inr split: if_splits)
  with Cons.IH [OF rest] show ?case by simp
qed simp

lemma rebuild_descriptor_built:
  assumes "rebuild_descriptor H row refs = Inr d"
  shows "built_layout H d" and "ol_chunks (ld_layout d) = refs" and "obj_object_id (ld_object d) = l_object_id row"
proof -
  obtain obj layout where obj: "object_new (l_object_id row) (word_of_int (l_total_size_bytes row)) = Inr obj"
    and layout: "object_layout_new refs = Inr layout"
    using assms by (auto simp: rebuild_descriptor_def rbind_eq_Inr)
  then have id: "obj_object_id obj = l_object_id row" and refs: "ol_chunks layout = refs"
    by (auto simp: object_new_ok object_layout_new_ok)
  show "built_layout H d" "ol_chunks (ld_layout d) = refs" "obj_object_id (ld_object d) = l_object_id row"
  proof (atomize (full), cases "l_chunking_strategy row = FixedSize")
    case True
    then have fixed: "fixed_size_layout_descriptor H obj FixedSize layout = Inr d"
      using assms unfolding rebuild_descriptor_def obj layout rbind_simps by (simp split: if_splits)
    then have "ld_object d = obj" "ld_layout d = layout"
      by (auto simp: fixed_size_layout_descriptor_def rbind_eq_Inr split: if_splits)
    with built_layout.built_fixed [OF obj layout fixed] id refs
    show "built_layout H d \<and> ol_chunks (ld_layout d) = refs \<and> obj_object_id (ld_object d) = l_object_id row" by simp
  next
    case False
    then obtain p where cdc: "fastcdc_layout_descriptor H obj p layout = Inr d"
      using assms unfolding rebuild_descriptor_def obj layout rbind_simps by (auto split: option.splits)
    then have "ld_object d = obj" "ld_layout d = layout"
      by (auto simp: fastcdc_layout_descriptor_def rbind_eq_Inr split: if_splits)
    with built_layout.built_fastcdc [OF obj layout cdc] id refs
    show "built_layout H d \<and> ol_chunks (ld_layout d) = refs \<and> obj_object_id (ld_object d) = l_object_id row" by simp
  qed
qed

lemma loaded_layout:
  assumes "load_object_layout H db layout_id = Inr (Some d)"
  shows "built_layout H d" and "ld_layout_id d = layout_id"
    and "map cr_chunk_id (ol_chunks (ld_layout d)) = map lc_chunk_id (layout_rows db layout_id)"
    and "\<exists>row \<in> set (object_layouts db). l_layout_id row = layout_id"
    and "\<forall>row \<in> set (object_layouts db). l_layout_id row = layout_id \<longrightarrow> l_object_id row = obj_object_id (ld_object d)"
proof -
  have "\<exists>row i refs. filter (\<lambda>l. l_layout_id l = layout_id) (object_layouts db) = [row] \<and>
      fold_res load_layout_row (layout_rows db layout_id) (0, []) = Inr (i, refs) \<and>
      rebuild_descriptor H row refs = Inr d \<and> ld_layout_id d = layout_id"
    using assms unfolding load_object_layout_def
    by (auto simp: rbind_eq_Inr query01_Some split: option.splits if_splits)
  then obtain row i refs where row: "filter (\<lambda>l. l_layout_id l = layout_id) (object_layouts db) = [row]"
    and rows: "fold_res load_layout_row (layout_rows db layout_id) (0, []) = Inr (i, refs)"
    and rebuilt: "rebuild_descriptor H row refs = Inr d" and id: "ld_layout_id d = layout_id"
    by blast
  note facts = rebuild_descriptor_built [OF rebuilt]
  show "built_layout H d" and "ld_layout_id d = layout_id" by (fact facts(1) id)+
  show "map cr_chunk_id (ol_chunks (ld_layout d)) = map lc_chunk_id (layout_rows db layout_id)"
    using load_layout_rows_ids [OF rows] facts(2) by simp
  have rows: "{l \<in> set (object_layouts db). l_layout_id l = layout_id} = {row}"
    using arg_cong [OF row, of set] by simp
  from rows show "\<exists>row \<in> set (object_layouts db). l_layout_id row = layout_id" by blast
  from rows facts(3) show "\<forall>row \<in> set (object_layouts db). l_layout_id row = layout_id \<longrightarrow>
      l_object_id row = obj_object_id (ld_object d)" by (metis (mono_tags, lifting) mem_Collect_eq singletonD)
qed

lemma loaded_version:
  assumes "load_version H db version_id = Inr (Some v)"
  shows "\<exists>row \<in> set (artifact_versions db). v_version_id row = version_id \<and> v_root_object_id row = av_root_object_id v"
proof -
  have "\<exists>row a m s. filter (\<lambda>v. v_version_id v = version_id) (artifact_versions db) = [row] \<and>
      artifact_version_new H a (v_root_object_id row) (v_parent_version_id row) m s = Inr v"
    using assms unfolding load_version_def
    by (auto simp: rbind_eq_Inr Let_def query01_def split: list.splits if_splits)
  then obtain row a m s where new: "artifact_version_new H a (v_root_object_id row) (v_parent_version_id row) m s = Inr v"
    and row: "filter (\<lambda>v. v_version_id v = version_id) (artifact_versions db) = [row]"
    by blast
  from new have root: "v_root_object_id row = av_root_object_id v"
    unfolding artifact_version_new_def run_simps by (elim exE conjE) (hypsubst, simp)
  have "row \<in> set (filter (\<lambda>v. v_version_id v = version_id) (artifact_versions db))" unfolding row by simp
  with root show ?thesis by auto
qed

subsection \<open>The selected layout\<close>

lemma select_layout_None: "select_layout db P oid = None \<longleftrightarrow> complete_layouts db P oid = []"
proof -
  have "sort (map l_layout_id (complete_layouts db P oid)) = [] \<longleftrightarrow> complete_layouts db P oid = []"
    by (metis length_0_conv length_map length_sort)
  then show ?thesis by (auto simp: select_layout_def split: list.splits)
qed

lemma select_layout_Some:
  assumes "select_layout db P oid = Some lid"
  shows "\<exists>ol \<in> set (complete_layouts db P oid). l_layout_id ol = lid"
    and "\<forall>ol \<in> set (complete_layouts db P oid). lid \<le> l_layout_id ol"
proof -
  obtain rest where sorted: "sort (map l_layout_id (complete_layouts db P oid)) = lid # rest"
    using assms by (auto simp: select_layout_def split: list.splits)
  then have "sorted (lid # rest)" by (metis sorted_sort)
  moreover have ids: "l_layout_id ` set (complete_layouts db P oid) = set (lid # rest)"
    unfolding sorted [symmetric] by simp
  ultimately show "\<forall>ol \<in> set (complete_layouts db P oid). lid \<le> l_layout_id ol"
    by (metis image_eqI order_refl set_ConsD sorted_simps(2))
  from ids show "\<exists>ol \<in> set (complete_layouts db P oid). l_layout_id ol = lid"
    by (metis (mono_tags, lifting) imageE list.set_intros(1))
qed

lemma complete_layout_chunk:
  assumes "ol \<in> set (complete_layouts db P oid)" and "c \<in> set (map lc_chunk_id (layout_rows db (l_layout_id ol)))"
  shows "P c"
  using assms by (auto simp: complete_layouts_def layout_rows_def)

lemma selected_layout_loads:
  assumes "load_selected_layout H db v (select_layout db P (av_root_object_id v)) = Inr d"
  shows "load_object_layout H db (ld_layout_id d) = Inr (Some d)" and "built_layout H d"
    and "obj_object_id (ld_object d) = av_root_object_id v"
    and "\<forall>c \<in> set (ol_chunks (ld_layout d)). P (cr_chunk_id c)"
    and "\<forall>ol \<in> set (complete_layouts db P (av_root_object_id v)). ld_layout_id d \<le> l_layout_id ol"
proof -
  obtain lid where lid: "select_layout db P (av_root_object_id v) = Some lid"
    and loaded: "load_object_layout H db lid = Inr (Some d)"
    and object: "obj_object_id (ld_object d) = av_root_object_id v"
    using assms unfolding load_selected_layout_def
    by (auto simp: rbind_eq_Inr split: option.splits if_splits)
  note layout = loaded_layout [OF loaded]
  show "load_object_layout H db (ld_layout_id d) = Inr (Some d)" using loaded layout(2) by simp
  show "built_layout H d" "obj_object_id (ld_object d) = av_root_object_id v" by (fact layout(1) object)+
  show "\<forall>ol \<in> set (complete_layouts db P (av_root_object_id v)). ld_layout_id d \<le> l_layout_id ol"
    using select_layout_Some(2) [OF lid] layout(2) by simp
  from select_layout_Some(1) [OF lid] obtain ol where ol: "ol \<in> set (complete_layouts db P (av_root_object_id v))"
    and id: "l_layout_id ol = lid" by blast
  have "P c" if "c \<in> set (map cr_chunk_id (ol_chunks (ld_layout d)))" for c
    using complete_layout_chunk [OF ol] that unfolding layout(3) id by blast
  then show "\<forall>c \<in> set (ol_chunks (ld_layout d)). P (cr_chunk_id c)" by simp
qed

lemma source_rows_mem:
  "sn \<in> set (source_rows db c) \<longleftrightarrow>
     sn \<in> set (storage_nodes db) \<and> (n_state sn = Active \<or> n_state sn = Draining) \<and>
     available_on_node db (n_node_id sn) c"
  by (auto simp: source_rows_def available_on_node_def)

lemma source_rows_nonempty: "source_rows db c \<noteq> [] \<longleftrightarrow> multi_node_restorable_chunk db c"
proof -
  have "source_rows db c \<noteq> [] \<longleftrightarrow> (\<exists>sn. sn \<in> set (source_rows db c))" by (cases "source_rows db c") auto
  also have "\<dots> \<longleftrightarrow> multi_node_restorable_chunk db c"
    unfolding source_rows_mem multi_node_restorable_chunk_def available_on_node_def by metis
  finally show ?thesis .
qed

lemma endpoints_of_rows:
  "map_res endpoint_of rows = Inr es \<Longrightarrow>
   map en_node_id es = map n_node_id rows \<and> map en_address es = map n_address rows \<and>
   map (uint \<circ> en_port) es = map n_port rows"
proof (induction rows arbitrary: es)
  case (Cons row rows)
  then obtain e es' where e: "endpoint_of row = Inr e" and es': "map_res endpoint_of rows = Inr es'" "es = e # es'"
    by (auto simp: rbind_eq_Inr)
  from e have "en_node_id e = n_node_id row \<and> en_address e = n_address row \<and> uint (en_port e) = n_port row"
    by (auto simp: endpoint_of_def uint_word_of_int split: if_splits)
  with Cons.IH [OF es'(1)] es'(2) show ?case by simp
qed simp

lemma restore_sources_ok:
  assumes "restore_sources db c = Inr s"
  shows "cs_chunk_id s = cr_chunk_id c \<and> cs_offset s = cr_offset c \<and> cs_size_bytes s = cr_size c"
    and "map_res endpoint_of (source_rows db (cr_chunk_id c)) = Inr (cs_sources s)"
  using assms by (auto simp: restore_sources_def rbind_eq_Inr)

lemma chunk_sources_refs:
  assumes "map_res (restore_sources db) cs = Inr ss"
  shows "map (\<lambda>s. \<lparr>cr_chunk_id = cs_chunk_id s, cr_offset = cs_offset s, cr_size = cs_size_bytes s\<rparr>) ss = cs"
  using assms
proof (induction cs arbitrary: ss)
  case (Cons c cs)
  then obtain s ss' where s: "restore_sources db c = Inr s" and ss': "map_res (restore_sources db) cs = Inr ss'" "ss = s # ss'"
    by (auto simp: rbind_eq_Inr)
  have "\<lparr>cr_chunk_id = cs_chunk_id s, cr_offset = cs_offset s, cr_size = cs_size_bytes s\<rparr> = c"
    using restore_sources_ok(1) [OF s] by (cases c) simp
  with Cons.IH [OF ss'(1)] ss'(2) show ?case by simp
qed simp

lemma load_restorable_version_ok:
  "load_restorable_version H db version_id = Inr v \<longleftrightarrow>
   load_version H db version_id = Inr (Some v) \<and> av_state v = VersionCommitted \<and> \<not> is_version_retired db version_id"
  by (auto simp: load_restorable_version_def rbind_eq_Inr split: option.splits)

lemma multi_node_plan_steps:
  assumes "resolve_multi_node_restore_plan H db version_id = Inr plan"
  obtains v where "check_content_id version_id = Inr ()" and "load_restorable_version H db version_id = Inr v"
    and "load_selected_layout H db v (select_layout db (multi_node_restorable_chunk db) (av_root_object_id v)) =
         Inr (mp_layout_descriptor plan)"
    and "map_res (restore_sources db) (ol_chunks (ld_layout (mp_layout_descriptor plan))) = Inr (mp_chunks plan)"
    and "mp_object_id plan = av_root_object_id v" and "mp_layout_id plan = ld_layout_id (mp_layout_descriptor plan)"
    and "mp_artifact_id plan = av_artifact_id v" and "mp_version_id plan = av_version_id v"
proof -
  have "\<exists>v. check_content_id version_id = Inr () \<and> load_restorable_version H db version_id = Inr v \<and>
     load_selected_layout H db v (select_layout db (multi_node_restorable_chunk db) (av_root_object_id v)) =
       Inr (mp_layout_descriptor plan) \<and>
     map_res (restore_sources db) (ol_chunks (ld_layout (mp_layout_descriptor plan))) = Inr (mp_chunks plan) \<and>
     mp_object_id plan = obj_object_id (ld_object (mp_layout_descriptor plan)) \<and>
     mp_layout_id plan = ld_layout_id (mp_layout_descriptor plan) \<and>
     mp_artifact_id plan = av_artifact_id v \<and> mp_version_id plan = av_version_id v"
    using assms unfolding resolve_multi_node_restore_plan_def run_simps by (elim exE conjE) (hypsubst, simp)
  then show thesis using that selected_layout_loads(3) by metis
qed

text \<open>
  C37: A multi-node restore plan can be served. The version is committed and not retired, the plan names the
  layout with the smallest identifier among those of its root object whose chunks are all available, that
  layout loads, and the planned chunks tile the object from 0 to its size; every chunk has at least one
  source, and the sources are exactly the active or draining nodes with an available location of the chunk,
  in node order, with their stored addresses and ports.
\<close>

theorem multi_node_plan_is_servable:
  assumes "resolve_multi_node_restore_plan H db version_id = Inr plan"
  shows "(\<exists>v. get_version H db version_id = Inr (Some v) \<and> av_state v = VersionCommitted \<and>
      \<not> is_version_retired db version_id \<and> mp_object_id plan = av_root_object_id v) \<and>
    get_object_layout H db (mp_layout_id plan) = Inr (Some (mp_layout_descriptor plan)) \<and>
    (\<forall>ol \<in> set (complete_layouts db (multi_node_restorable_chunk db) (mp_object_id plan)). mp_layout_id plan \<le> l_layout_id ol) \<and>
    tiles_from 0
      (map (\<lambda>s. \<lparr>cr_chunk_id = cs_chunk_id s, cr_offset = cs_offset s, cr_size = cs_size_bytes s\<rparr>) (mp_chunks plan))
      (unat (obj_total_size (ld_object (mp_layout_descriptor plan)))) \<and>
    (\<forall>s \<in> set (mp_chunks plan). cs_sources s \<noteq> [] \<and> sorted (map en_node_id (cs_sources s)) \<and>
      (\<forall>i a p. (i, a, p) \<in> (\<lambda>e. (en_node_id e, en_address e, uint (en_port e))) ` set (cs_sources s) \<longleftrightarrow>
         (\<exists>sn \<in> set (storage_nodes db). n_node_id sn = i \<and> n_address sn = a \<and> n_port sn = p \<and>
            (n_state sn = Active \<or> n_state sn = Draining) \<and> available_on_node db i (cs_chunk_id s))))"
proof -
  obtain v where valid: "check_content_id version_id = Inr ()" and v: "load_restorable_version H db version_id = Inr v"
    and sel: "load_selected_layout H db v (select_layout db (multi_node_restorable_chunk db) (av_root_object_id v)) =
         Inr (mp_layout_descriptor plan)"
    and srcs: "map_res (restore_sources db) (ol_chunks (ld_layout (mp_layout_descriptor plan))) = Inr (mp_chunks plan)"
    and obj: "mp_object_id plan = av_root_object_id v" and lid: "mp_layout_id plan = ld_layout_id (mp_layout_descriptor plan)"
    by (rule multi_node_plan_steps [OF assms])
  let ?d = "mp_layout_descriptor plan"
  note layout = selected_layout_loads [OF sel]
  have version: "\<exists>v. get_version H db version_id = Inr (Some v) \<and> av_state v = VersionCommitted \<and>
      \<not> is_version_retired db version_id \<and> mp_object_id plan = av_root_object_id v"
    using v obj valid by (simp add: load_restorable_version_ok get_version_def)
  have loads: "get_object_layout H db (mp_layout_id plan) = Inr (Some ?d)"
    using layout(1) by (simp add: get_object_layout_def lid)
  have least: "\<forall>ol \<in> set (complete_layouts db (multi_node_restorable_chunk db) (mp_object_id plan)). mp_layout_id plan \<le> l_layout_id ol"
    using layout(5) by (simp add: lid obj)
  obtain cs where "object_layout_new cs = Inr (ld_layout ?d)" using built_layout_facts(2) [OF layout(2)] by blast
  then have "tiles_from 0 (ol_chunks (ld_layout ?d)) (unat (obj_total_size (ld_object ?d)))"
    unfolding built_layout_facts(4) [OF layout(2)] by (auto simp: object_layout_new_ok unat_of_nat)
  then have tiles: "tiles_from 0
      (map (\<lambda>s. \<lparr>cr_chunk_id = cs_chunk_id s, cr_offset = cs_offset s, cr_size = cs_size_bytes s\<rparr>) (mp_chunks plan))
      (unat (obj_total_size (ld_object ?d)))"
    unfolding chunk_sources_refs [OF srcs] .
  have sources: "\<forall>s \<in> set (mp_chunks plan). cs_sources s \<noteq> [] \<and> sorted (map en_node_id (cs_sources s)) \<and>
      (\<forall>i a p. (i, a, p) \<in> (\<lambda>e. (en_node_id e, en_address e, uint (en_port e))) ` set (cs_sources s) \<longleftrightarrow>
         (\<exists>sn \<in> set (storage_nodes db). n_node_id sn = i \<and> n_address sn = a \<and> n_port sn = p \<and>
            (n_state sn = Active \<or> n_state sn = Draining) \<and> available_on_node db i (cs_chunk_id s)))"
  proof
    fix s assume "s \<in> set (mp_chunks plan)"
    with map_res_set [OF srcs] obtain c where c: "c \<in> set (ol_chunks (ld_layout ?d))" "restore_sources db c = Inr s" by blast
    note s = restore_sources_ok [OF c(2)]
    have "multi_node_restorable_chunk db (cr_chunk_id c)" using layout(4) c(1) by blast
    then have rows: "source_rows db (cr_chunk_id c) \<noteq> []" by (simp add: source_rows_nonempty)
    note es = endpoints_of_rows [OF s(2)]
    then have triples: "map (\<lambda>e. (en_node_id e, en_address e, uint (en_port e))) (cs_sources s) =
        map (\<lambda>r. (n_node_id r, n_address r, n_port r)) (source_rows db (cr_chunk_id c))"
      by (simp add: list_eq_iff_nth_eq comp_def)
    have sorted: "sorted (map en_node_id (cs_sources s))" using es by (simp add: source_rows_def)
    have "(\<lambda>e. (en_node_id e, en_address e, uint (en_port e))) ` set (cs_sources s) =
        (\<lambda>r. (n_node_id r, n_address r, n_port r)) ` set (source_rows db (cr_chunk_id c))"
      using arg_cong [OF triples, of set] by simp
    with rows sorted es s(1) show "cs_sources s \<noteq> [] \<and> sorted (map en_node_id (cs_sources s)) \<and>
      (\<forall>i a p. (i, a, p) \<in> (\<lambda>e. (en_node_id e, en_address e, uint (en_port e))) ` set (cs_sources s) \<longleftrightarrow>
         (\<exists>sn \<in> set (storage_nodes db). n_node_id sn = i \<and> n_address sn = a \<and> n_port sn = p \<and>
            (n_state sn = Active \<or> n_state sn = Draining) \<and> available_on_node db i (cs_chunk_id s)))"
      by (auto simp: image_iff Bex_def source_rows_mem)
  qed
  show ?thesis by (intro conjI version loads least tiles sources)
qed

subsection \<open>When a plan exists\<close>

lemma complete_layout_member:
  "ol \<in> set (complete_layouts db P oid) \<Longrightarrow> ol \<in> set (object_layouts db) \<and> l_object_id ol = oid"
  by (simp add: complete_layouts_def)

lemma endpoints_in_range:
  assumes "\<forall>sn \<in> set (storage_nodes db). 0 \<le> n_port sn \<and> n_port sn \<le> 65535"
  shows "\<exists>ss. map_res (restore_sources db) cs = Inr ss"
proof (induction cs)
  case (Cons c cs)
  have "\<exists>es. map_res endpoint_of rows = Inr es" if "set rows \<subseteq> set (storage_nodes db)" for rows
    using that
  proof (induction rows)
    case (Cons row rows)
    then have "0 \<le> n_port row \<and> n_port row \<le> 65535" using assms by simp
    with Cons show ?case by (auto simp: endpoint_of_def)
  qed simp
  then have "\<exists>es. map_res endpoint_of (source_rows db (cr_chunk_id c)) = Inr es"
    using source_rows_mem by blast
  with Cons show ?case by (auto simp: restore_sources_def)
qed simp

lemma complete_layout_resolves:
  assumes "check_content_id version_id = Inr ()" and "load_restorable_version H db version_id = Inr v"
    and "\<forall>ol \<in> set (object_layouts db). l_object_id ol = av_root_object_id v \<longrightarrow>
      (\<exists>d. load_object_layout H db (l_layout_id ol) = Inr (Some d))"
    and "\<forall>sn \<in> set (storage_nodes db). 0 \<le> n_port sn \<and> n_port sn \<le> 65535"
    and "complete_layouts db (multi_node_restorable_chunk db) (av_root_object_id v) \<noteq> []"
  shows "\<exists>plan. resolve_multi_node_restore_plan H db version_id = Inr plan \<and> mp_object_id plan = av_root_object_id v"
proof -
  obtain lid where lid: "select_layout db (multi_node_restorable_chunk db) (av_root_object_id v) = Some lid"
    using assms(5) select_layout_None by blast
  from select_layout_Some(1) [OF lid] obtain ol where ol: "ol \<in> set (object_layouts db)" "l_layout_id ol = lid"
    "l_object_id ol = av_root_object_id v"
    using complete_layout_member by metis
  with assms(3) obtain d where d: "load_object_layout H db lid = Inr (Some d)" by metis
  from loaded_layout(5) [OF d] ol have "obj_object_id (ld_object d) = av_root_object_id v" by metis
  moreover obtain ss where "map_res (restore_sources db) (ol_chunks (ld_layout d)) = Inr ss"
    using endpoints_in_range [OF assms(4)] by blast
  ultimately show ?thesis
    by (simp add: resolve_multi_node_restore_plan_def assms(1,2) lid load_selected_layout_def d)
qed


subsection \<open>Restore plans and garbage collection\<close>

lemma swept_restore_fields:
  "artifact_version_metadata (swept db node) = artifact_version_metadata db"
  by (simp add: swept_def Let_def delete_storage_locations_def delete_objects_def delete_chunks_def)

lemma swept_load_restorable_version:
  "load_restorable_version H (swept db node) version_id = load_restorable_version H db version_id"
  unfolding load_restorable_version_def load_version_def is_version_retired_def swept_fields swept_restore_fields ..

lemma restorable_version_layouts_live:
  assumes "load_restorable_version H db version_id = Inr v" and "l_object_id ol = av_root_object_id v"
  shows "live_layout db ol"
proof -
  from assms(1) have "\<not> is_version_retired db version_id" "load_version H db version_id = Inr (Some v)"
    by (simp_all add: load_restorable_version_ok)
  with loaded_version [of H db version_id v] assms(2) show ?thesis unfolding live_layout_def by metis
qed

lemma swept_filter_layout:
  assumes "layout_ids_distinct db" and "ol \<in> set (object_layouts db)" and "live_layout db ol"
  shows "filter (\<lambda>l. l_layout_id l = l_layout_id ol) (object_layouts (swept db node)) =
         filter (\<lambda>l. l_layout_id l = l_layout_id ol) (object_layouts db)"
proof -
  have "live_layout db l" if "l \<in> set (object_layouts db)" "l_layout_id l = l_layout_id ol" for l
    using assms that by (auto simp: layout_ids_distinct_def distinct_map dest: inj_onD)
  then show ?thesis unfolding swept_fields filter_filter by (intro filter_cong) auto
qed

lemma swept_load_layout:
  assumes "layout_ids_distinct db" and "ol \<in> set (object_layouts db)" and "live_layout db ol"
  shows "load_object_layout H (swept db node) (l_layout_id ol) = load_object_layout H db (l_layout_id ol)"
  unfolding load_object_layout_def swept_filter_layout [OF assms] swept_layout_rows [OF assms] ..

lemma live_layout_chunk:
  assumes "ol \<in> set (object_layouts db)" and "live_layout db ol"
    and "olc \<in> set (object_layout_chunks db)" and "lc_layout_id olc = l_layout_id ol"
  shows "chunk_in_live_layout db (lc_chunk_id olc)"
  using assms unfolding chunk_in_live_layout_def by metis

lemma swept_available:
  assumes "chunk_in_live_layout db c"
  shows "available_on_node (swept db node) i c = available_on_node db i c"
    and "multi_node_restorable_chunk (swept db node) c = multi_node_restorable_chunk db c"
    and "source_rows (swept db node) c = source_rows db c"
proof -
  note same = swept_locations [OF assms, of node]
  have members: "sl \<in> set (storage_locations (swept db node)) \<longleftrightarrow> sl \<in> set (storage_locations db)" if "sl_chunk_id sl = c" for sl
    using arg_cong [OF same, of set] that by auto
  show "available_on_node (swept db node) i c = available_on_node db i c"
    unfolding available_on_node_def using members by blast
  show "multi_node_restorable_chunk (swept db node) c = multi_node_restorable_chunk db c"
    unfolding multi_node_restorable_chunk_def swept_fields(10) using members by blast
  have "filter (\<lambda>sl. sl_chunk_id sl = c \<and> sl_state sl = Available) (storage_locations (swept db node)) =
      filter (\<lambda>sl. sl_chunk_id sl = c \<and> sl_state sl = Available) (storage_locations db)"
    using arg_cong [OF same, of "filter (\<lambda>sl. sl_state sl = Available)"] by (simp add: conj_commute)
  then show "source_rows (swept db node) c = source_rows db c"
    unfolding source_rows_def swept_fields(10) by simp
qed

lemma swept_complete_layouts:
  assumes "layout_ids_distinct db" and "\<And>ol. l_object_id ol = oid \<Longrightarrow> live_layout db ol"
    and "\<And>c. chunk_in_live_layout db c \<Longrightarrow> P' c = P c"
  shows "complete_layouts (swept db node) P' oid = complete_layouts db P oid"
proof -
  have "(\<exists>olc \<in> set (object_layout_chunks (swept db node)). lc_layout_id olc = l_layout_id ol \<and> \<not> P' (lc_chunk_id olc)) \<longleftrightarrow>
      (\<exists>olc \<in> set (object_layout_chunks db). lc_layout_id olc = l_layout_id ol \<and> \<not> P (lc_chunk_id olc))"
    if ol: "ol \<in> set (object_layouts db)" "l_object_id ol = oid" for ol
  proof -
    note live = assms(2) [OF ol(2)]
    have "l_layout_id ol \<notin> dead_layout_ids db" by (rule live_layout_not_dead_id [OF assms(1) ol(1) live])
    moreover have "P' (lc_chunk_id olc) = P (lc_chunk_id olc)"
      if "olc \<in> set (object_layout_chunks db)" "lc_layout_id olc = l_layout_id ol" for olc
      using assms(3) live_layout_chunk [OF ol(1) live that] .
    ultimately show ?thesis unfolding swept_fields(2) by auto
  qed
  then show ?thesis
    unfolding complete_layouts_def swept_fields(1) filter_filter
    by (intro filter_cong [OF refl]) (use assms(2) in auto)
qed

lemma swept_selected_layout:
  assumes "layout_ids_distinct db" and "load_restorable_version H db version_id = Inr v"
    and "\<And>c. chunk_in_live_layout db c \<Longrightarrow> P' c = P c"
  shows "load_selected_layout H (swept db node) v (select_layout (swept db node) P' (av_root_object_id v)) =
         load_selected_layout H db v (select_layout db P (av_root_object_id v))"
proof -
  note live = restorable_version_layouts_live [OF assms(2)]
  have same: "complete_layouts (swept db node) P' (av_root_object_id v) = complete_layouts db P (av_root_object_id v)"
    by (rule swept_complete_layouts [OF assms(1) live assms(3)])
  then have select: "select_layout (swept db node) P' (av_root_object_id v) = select_layout db P (av_root_object_id v)"
    by (simp add: select_layout_def)
  show ?thesis
  proof (cases "select_layout db P (av_root_object_id v)")
    case (Some lid)
    from select_layout_Some(1) [OF Some] obtain ol where ol: "ol \<in> set (object_layouts db)" "l_layout_id ol = lid"
      "l_object_id ol = av_root_object_id v"
      using complete_layout_member by metis
    have "load_object_layout H (swept db node) lid = load_object_layout H db lid"
      using swept_load_layout [OF assms(1) ol(1) live [OF ol(3)], of H node] ol(2) by simp
    then show ?thesis unfolding select Some load_selected_layout_def by simp
  qed (simp add: select load_selected_layout_def)
qed

lemma map_res_same: "(\<And>x. x \<in> set xs \<Longrightarrow> f x = g x) \<Longrightarrow> map_res f xs = map_res g xs"
  by (induction xs) simp_all

text \<open>
  C36: Garbage collection never changes a restore. After a metadata sweep for any node, both restore queries
  return for every version and source node exactly what they returned before, result or error.
\<close>

theorem sweep_preserves_restore_plans:
  assumes "layout_ids_distinct db" and "sweep_gc_metadata db node = Inr (db', stats)"
  shows "resolve_multi_node_restore_plan H db' version_id = resolve_multi_node_restore_plan H db version_id \<and>
    resolve_restore_plan H db' version_id source = resolve_restore_plan H db version_id source"
proof (cases "load_restorable_version H db version_id")
  case (Inl e)
  then show ?thesis
    unfolding resolve_multi_node_restore_plan_def resolve_restore_plan_def sweep_ok(1) [OF assms(2)]
      swept_load_restorable_version by simp
next
  case (Inr v)
  have single: "load_selected_layout H (swept db node) v
        (select_layout (swept db node) (available_on_node (swept db node) source) (av_root_object_id v)) =
      load_selected_layout H db v (select_layout db (available_on_node db source) (av_root_object_id v))"
    by (rule swept_selected_layout [OF assms(1) Inr]) (rule swept_available(1))
  have multi: "load_selected_layout H (swept db node) v
        (select_layout (swept db node) (multi_node_restorable_chunk (swept db node)) (av_root_object_id v)) =
      load_selected_layout H db v (select_layout db (multi_node_restorable_chunk db) (av_root_object_id v))"
    by (rule swept_selected_layout [OF assms(1) Inr]) (rule swept_available(2))
  have chunks: "map_res (restore_sources (swept db node)) (ol_chunks (ld_layout d)) =
      map_res (restore_sources db) (ol_chunks (ld_layout d))"
    if sel: "load_selected_layout H db v (select_layout db (multi_node_restorable_chunk db) (av_root_object_id v)) = Inr d" for d
  proof -
    note layout = selected_layout_loads [OF sel] and refs = loaded_layout [OF selected_layout_loads(1) [OF sel]]
    obtain ol where ol: "ol \<in> set (object_layouts db)" "l_layout_id ol = ld_layout_id d"
        "l_object_id ol = av_root_object_id v"
      using refs(4,5) layout(3) by metis
    note live = restorable_version_layouts_live [OF Inr ol(3)]
    have "restore_sources (swept db node) c = restore_sources db c" if "c \<in> set (ol_chunks (ld_layout d))" for c
    proof -
      have "cr_chunk_id c \<in> set (map lc_chunk_id (layout_rows db (ld_layout_id d)))"
        unfolding refs(3) [symmetric] using that by simp
      then obtain olc where "olc \<in> set (object_layout_chunks db)" "lc_layout_id olc = l_layout_id ol"
          "lc_chunk_id olc = cr_chunk_id c"
        unfolding ol(2) layout_rows_def by auto
      then have "chunk_in_live_layout db (cr_chunk_id c)" using live_layout_chunk [OF ol(1) live] by metis
      then show ?thesis by (simp add: restore_sources_def swept_available(3))
    qed
    then show ?thesis by (rule map_res_same)
  qed
  show ?thesis
    unfolding resolve_multi_node_restore_plan_def resolve_restore_plan_def sweep_ok(1) [OF assms(2)]
      swept_load_restorable_version Inr rbind_simps single multi
    using chunks
    by (cases "load_selected_layout H db v (select_layout db (multi_node_restorable_chunk db) (av_root_object_id v))") simp_all
qed

subsection \<open>From upload to restore\<close>

text \<open>Registering one layout leaves every other layout, and the nodes, as they were.\<close>

definition keeps_other_layouts :: "string \<Rightarrow> database \<Rightarrow> database \<Rightarrow> bool" where
  "keeps_other_layouts lid db db' \<longleftrightarrow>
     filter (\<lambda>l. l_layout_id l \<noteq> lid) (object_layouts db') = filter (\<lambda>l. l_layout_id l \<noteq> lid) (object_layouts db) \<and>
     filter (\<lambda>r. lc_layout_id r \<noteq> lid) (object_layout_chunks db') =
     filter (\<lambda>r. lc_layout_id r \<noteq> lid) (object_layout_chunks db) \<and>
     storage_nodes db' = storage_nodes db"

lemma keeps_other_layouts_refl: "keeps_other_layouts lid db db"
  by (simp add: keeps_other_layouts_def)

lemma keeps_other_layouts_trans:
  "keeps_other_layouts lid db db1 \<Longrightarrow> keeps_other_layouts lid db1 db2 \<Longrightarrow> keeps_other_layouts lid db db2"
  by (simp add: keeps_other_layouts_def)

lemma fold_keeps_other_layouts:
  assumes "\<And>x s t. f x s = Inr t \<Longrightarrow> keeps_other_layouts lid s t" and "fold_res f xs s = Inr t"
  shows "keeps_other_layouts lid s t"
  by (rule fold_res_relation [OF assms(1) keeps_other_layouts_refl keeps_other_layouts_trans assms(2)])

lemma layout_row_of_id: "layout_row_of d = Inr row \<Longrightarrow> l_layout_id row = ld_layout_id d"
  by (auto simp: layout_row_of_def rbind_eq_Inr)

lemma register_keeps_other_layouts:
  assumes "register_finalized_layout db d = Inr db'"
  shows "keeps_other_layouts (ld_layout_id d) db db'"
proof -
  from assms obtain db0 where obj: "register_object_in_transaction db (ld_object d) = Inr db0"
    and layout: "register_object_layout_in_transaction db0 d = Inr db'"
    by (auto simp: register_finalized_layout_def rbind_eq_Inr split: sum.splits if_splits)
  obtain db1 db2 n row where
    1: "fold_res (\<lambda>chunk. ensure_chunk (cr_chunk_id chunk) (cr_size chunk)) (ol_chunks (ld_layout d)) db0 = Inr db1"
    and row: "layout_row_of d = Inr row"
    and 2: "insert_object_layout db1 row = Inr (db2, n)"
    and 3: "(if n = 1 then fold_res (insert_layout_chunk (ld_layout_id d))
            (zip [0..<length (ol_chunks (ld_layout d))] (ol_chunks (ld_layout d))) db2 else Inr db2) = Inr db'"
    by (rule register_layout_steps [OF layout])
  have "keeps_other_layouts (ld_layout_id d) db db0"
    using obj by (auto simp: register_object_in_transaction_def rbind_eq_Inr Let_def keeps_other_layouts_def split: if_splits)
  moreover have "keeps_other_layouts (ld_layout_id d) s t" if "ensure_chunk c m s = Inr t" for c m s t
    using ensure_chunk_adds [OF that] by (auto simp: adds_chunks_def keeps_other_layouts_def)
  then have "keeps_other_layouts (ld_layout_id d) db0 db1" using 1 by (rule fold_keeps_other_layouts)
  moreover have "keeps_other_layouts (ld_layout_id d) db1 db2"
    using 2 layout_row_of_id [OF row] by (auto simp: insert_object_layout_def keeps_other_layouts_def split: if_splits)
  moreover have "keeps_other_layouts (ld_layout_id d) db2 db'"
  proof (cases "n = 1")
    case True
    with 3 have "fold_res (insert_layout_chunk (ld_layout_id d))
        (zip [0..<length (ol_chunks (ld_layout d))] (ol_chunks (ld_layout d))) db2 = Inr db'" by simp
    then show ?thesis
      by (rule fold_keeps_other_layouts [rotated]) (auto simp: insert_layout_chunk_def rbind_eq_Inr keeps_other_layouts_def split: if_splits)
  next
    case False
    with 3 show ?thesis by (simp add: keeps_other_layouts_refl)
  qed
  ultimately show ?thesis using keeps_other_layouts_trans by blast
qed

lemma kept_layout_loads:
  assumes "keeps_other_layouts lid db db'" and "lid' \<noteq> lid"
  shows "load_object_layout H db' lid' = load_object_layout H db lid'"
proof -
  have layouts: "filter (\<lambda>l. l_layout_id l = lid') ls = filter (\<lambda>l. l_layout_id l = lid') (filter (\<lambda>l. l_layout_id l \<noteq> lid) ls)" for ls
    using assms(2) unfolding filter_filter by (intro filter_cong) auto
  have rows: "filter (\<lambda>l. l_layout_id l = lid') (object_layouts db') = filter (\<lambda>l. l_layout_id l = lid') (object_layouts db)"
    using assms(1) layouts [of "object_layouts db'"] layouts [of "object_layouts db"] by (simp add: keeps_other_layouts_def)
  have chunks: "filter (\<lambda>r. lc_layout_id r = lid') rs = filter (\<lambda>r. lc_layout_id r = lid') (filter (\<lambda>r. lc_layout_id r \<noteq> lid) rs)" for rs
    using assms(2) unfolding filter_filter by (intro filter_cong) auto
  have "filter (\<lambda>r. lc_layout_id r = lid') (object_layout_chunks db') = filter (\<lambda>r. lc_layout_id r = lid') (object_layout_chunks db)"
    using assms(1) chunks [of "object_layout_chunks db'"] chunks [of "object_layout_chunks db"]
    by (simp add: keeps_other_layouts_def)
  then have chunk_rows: "layout_rows db' lid' = layout_rows db lid'" by (simp add: layout_rows_def)
  show ?thesis unfolding load_object_layout_def rows chunk_rows ..
qed

text \<open>The version that a finalization commits loads back.\<close>

lemma finalized_version_loads:
  assumes "versions_wf db" and "load_upload_session db sid = Inr session" and "us_state session = SessionOpen"
    and fin: "finalize_upload H db now sid d = Inr (db', r)"
  shows "\<exists>v. load_restorable_version H db' (fr_version_id r) = Inr v \<and> av_root_object_id v = obj_object_id (ld_object d) \<and>
      is_content_id (fr_version_id r)"
    and "fr_layout_id r = ld_layout_id d" and "verify_registered_object_layout db' d = Inr ()"
    and "storage_locations db' = storage_locations db" and "keeps_other_layouts (ld_layout_id d) db db'"
    and "\<exists>uniq. fold_res collect_layout_chunk (ol_chunks (ld_layout d)) [] = Inr uniq \<and>
      check_all (check_chunk_replicas H db session) uniq = Inr ()"
    and "replication_runs db' = replication_runs db \<and> replication_run_nodes db' = replication_run_nodes db \<and>
      gc_runs db' = gc_runs db \<and> lifecycle_runs db' = lifecycle_runs db"
proof -
  obtain version uniq db1 db2 db3 where
    ctor: "artifact_version_new H (us_artifact_id session) (obj_object_id (ld_object d)) (us_parent_version_id session)
       (us_immutable_metadata session) VersionCommitted = Inr version"
    and live: "\<not> is_version_retired db (av_version_id version)"
    and uniq: "fold_res collect_layout_chunk (ol_chunks (ld_layout d)) [] = Inr uniq"
      "check_all (check_chunk_replicas H db session) uniq = Inr ()"
    and reg: "register_finalized_layout db d = Inr db1"
    and ver: "finalize_version db1 now version = Inr db2"
    and ins: "insert_finalization db2 sid (ld_layout_id d) = Inr db3"
    and com: "commit_session_row db3 sid (av_version_id version) = Inr db'"
    and r: "r = finalize_result sid version d"
    by (rule finalize_open_steps [OF fin assms(2,3)])
  obtain row where rec: "reconstruct_upload_session db row = Inr session"
    by (rule load_upload_session_row [OF assms(2)])
  note state = artifact_version_new_state [OF ctor] and reg_ok = register_finalized_ok [OF reg]
  obtain vs ms where db2: "db2 = db1\<lparr>artifact_versions := vs, artifact_version_metadata := ms\<rparr>"
    using finalize_version_frame [OF ver] by blast
  obtain us where db': "db' = db3\<lparr>upload_sessions := us\<rparr>" by (rule commit_session_row_ok [OF com]) blast
  note db3 = insert_finalization_ok [OF ins]
  have frame: "artifact_version_retirements db1 = artifact_version_retirements db" "artifact_versions db1 = artifact_versions db"
      "artifact_version_metadata db1 = artifact_version_metadata db" "storage_locations db1 = storage_locations db"
      "replication_runs db1 = replication_runs db" "replication_run_nodes db1 = replication_run_nodes db"
      "gc_runs db1 = gc_runs db" "lifecycle_runs db1 = lifecycle_runs db"
    using reg_ok(1) by (auto simp: catalog_grows_def)
  have wf1: "versions_wf db1" using assms(1) by (simp add: versions_wf_def has_version_def frame)
  have sorted: "sorted (map fst (av_immutable_metadata version))"
    using state reconstruct_metadata [OF rec] owner_map_sorted by simp
  have "artifact_version_identity_matches db' version = Inr True"
    using finalize_version_matches(1) [OF ver wf1 sorted] unfolding identity_matches_True by (simp add: db' db3)
  then obtain v where v: "filter (\<lambda>v. v_version_id v = av_version_id version) (artifact_versions db') = [v]"
      "v_version_id v = av_version_id version" "v_artifact_id v = av_artifact_id version"
      "v_root_object_id v = av_root_object_id version" "v_parent_version_id v = av_parent_version_id version"
      "v_descriptor_version v = 1" "v_canonical_descriptor v = av_canonical_bytes version"
    and meta: "owner_map (artifact_version_metadata db') (av_version_id version) = av_immutable_metadata version"
    unfolding identity_matches_True by blast
  have "v_state v = VersionCommitted"
  proof -
    obtain w where w: "w \<in> set (artifact_versions db')" "v_version_id w = av_version_id version" "v_state w = VersionCommitted"
      using finalize_version_committed [OF ver] state by (auto simp: db' db3)
    then have "w \<in> set [v]" unfolding v(1) [symmetric] by simp
    with w(3) show ?thesis by simp
  qed
  moreover have "uuid_v7 (v_artifact_id v) = Inr (us_artifact_id session)"
    using reconstruct_metadata [OF rec] state v(3) by (simp add: uuid_v7_ok)
  ultimately have "load_version H db' (av_version_id version) = Inr (Some version)"
    using state ctor by (simp add: load_version_def v meta query01_single bytes_to_hex_eq)
  moreover have "\<not> is_version_retired db' (av_version_id version)"
    using live by (simp add: is_version_retired_def db' db3 db2 frame)
  ultimately show "\<exists>v. load_restorable_version H db' (fr_version_id r) = Inr v \<and>
      av_root_object_id v = obj_object_id (ld_object d) \<and> is_content_id (fr_version_id r)"
    using state artifact_version_new_id [OF ctor] by (simp add: load_restorable_version_ok r finalize_result_def)
  show "fr_layout_id r = ld_layout_id d" by (simp add: r finalize_result_def)
  show "verify_registered_object_layout db' d = Inr ()"
    using reg_ok(4) verify_layout_cong [of db' db1 d] by (simp add: db' db3 db2)
  show "storage_locations db' = storage_locations db" by (simp add: db' db3 db2 frame)
  show "keeps_other_layouts (ld_layout_id d) db db'"
    using register_keeps_other_layouts [OF reg] by (simp add: keeps_other_layouts_def db' db3 db2)
  show "\<exists>uniq. fold_res collect_layout_chunk (ol_chunks (ld_layout d)) [] = Inr uniq \<and>
      check_all (check_chunk_replicas H db session) uniq = Inr ()"
    using uniq by blast
  show "replication_runs db' = replication_runs db \<and> replication_run_nodes db' = replication_run_nodes db \<and>
      gc_runs db' = gc_runs db \<and> lifecycle_runs db' = lifecycle_runs db" by (simp add: db' db3 db2 frame)
qed

lemma finalized_layout_complete:
  assumes "sha_length_ok H" and "built_layout H d" and "versions_wf db"
    and "load_upload_session db sid = Inr session" and "us_state session = SessionOpen"
    and "finalize_upload H db now sid d = Inr (db', r)"
    and "\<forall>n \<in> set (us_placement_node_ids session). \<exists>sn \<in> set (storage_nodes db).
      n_node_id sn = n \<and> (n_state sn = Active \<or> n_state sn = Draining)"
  shows "complete_layouts db' (multi_node_restorable_chunk db') (obj_object_id (ld_object d)) \<noteq> []"
proof -
  note fin = finalized_version_loads [OF assms(3-6)]
  have nodes: "storage_nodes db' = storage_nodes db" using fin(5) by (simp add: keeps_other_layouts_def)
  have loads: "load_object_layout H db' (ld_layout_id d) = Inr (Some d)"
    by (rule verified_layout_loads [OF assms(2) fin(3)])
  obtain uniq where uniq: "fold_res collect_layout_chunk (ol_chunks (ld_layout d)) [] = Inr uniq"
    "check_all (check_chunk_replicas H db session) uniq = Inr ()"
    using fin(6) by blast
  have restorable: "multi_node_restorable_chunk db' (cr_chunk_id c)" if "c \<in> set (ol_chunks (ld_layout d))" for c
  proof -
    from that collect_layout_chunk_ok [OF uniq(1)] have "(cr_chunk_id c, cr_size c) \<in> set uniq" by (metis map_of_SomeD)
    with uniq(2) have "check_chunk_replicas H db session (cr_chunk_id c, cr_size c) = Inr ()" by (simp add: check_all_ok)
    from check_chunk_replicas_ok [OF this] obtain sel where
      sel: "select_replica_nodes H (cr_chunk_id c) (us_placement_node_ids session) (unat (us_replication_factor session)) = Inr sel"
      and stored: "\<forall>node \<in> set sel. map sl_state (filter (\<lambda>l. sl_chunk_id l = cr_chunk_id c \<and> sl_node_id l = node)
          (storage_locations db)) = [Available]" by blast
    note chosen = sel [unfolded select_replica_nodes_eq [OF assms(1)]]
    then have "length sel \<noteq> 0" by (simp add: length_take)
    then obtain node where node: "node \<in> set sel" by (cases sel) auto
    have subset: "set sel \<subseteq> set (us_placement_node_ids session)"
      using chosen set_take_subset [of _ "ranking H (cr_chunk_id c) (us_placement_node_ids session)"] by simp
    from node stored have "Available \<in> set (map sl_state (filter (\<lambda>l. sl_chunk_id l = cr_chunk_id c \<and> sl_node_id l = node)
          (storage_locations db)))" by simp
    then obtain sl where "sl \<in> set (storage_locations db)" "sl_chunk_id sl = cr_chunk_id c" "sl_node_id sl = node"
        "sl_state sl = Available" by auto
    moreover obtain sn where "sn \<in> set (storage_nodes db')" "n_node_id sn = node" "n_state sn = Active \<or> n_state sn = Draining"
      using assms(7) subset node unfolding nodes by blast
    ultimately show ?thesis unfolding multi_node_restorable_chunk_def fin(4) by metis
  qed
  have ids: "lc_chunk_id olc \<in> set (map cr_chunk_id (ol_chunks (ld_layout d)))"
    if "olc \<in> set (object_layout_chunks db')" "lc_layout_id olc = ld_layout_id d" for olc
    unfolding loaded_layout(3) [OF loads] layout_rows_def using that by simp
  obtain ol where ol: "ol \<in> set (object_layouts db')" "l_layout_id ol = ld_layout_id d"
      "l_object_id ol = obj_object_id (ld_object d)"
    using loaded_layout(4,5) [OF loads] by metis
  then have "ol \<in> set (complete_layouts db' (multi_node_restorable_chunk db') (obj_object_id (ld_object d)))"
    using ids restorable by (fastforce simp: complete_layouts_def)
  then show ?thesis by fastforce
qed


subsection \<open>Witnesses\<close>

text \<open>The concrete upload, finalized: its version has a restore plan.\<close>

lemma finalized_sample:
  obtains db' r v where "finalize_upload sample_hash sample_upload_db 0 sample_uuid sample_descriptor = Inr (db', r)"
    and "load_restorable_version sample_hash db' (fr_version_id r) = Inr v"
    and "av_root_object_id v = sample_id (CHR ''a'')" and "is_content_id (fr_version_id r)"
    and "load_object_layout sample_hash db' (ld_layout_id sample_descriptor) = Inr (Some sample_descriptor)"
    and "\<forall>ol \<in> set (object_layouts db'). l_layout_id ol = ld_layout_id sample_descriptor"
    and "layout_ids_distinct db'" and "storage_nodes db' = storage_nodes sample_upload_db"
    and "replication_runs db' = []" and "replication_run_nodes db' = []" and "gc_runs db' = []"
proof -
  obtain db' r where fin: "finalize_upload sample_hash sample_upload_db 0 sample_uuid sample_descriptor = Inr (db', r)"
    using finalize_sample by blast
  have session: "us_state sample_session = SessionOpen" by (simp add: sample_session_def)
  have wf: "versions_wf sample_upload_db" by (simp add: versions_wf_def sample_upload_db_def empty_database_def)
  note facts = finalized_version_loads [OF wf load_sample_session session fin]
  have loads: "load_object_layout sample_hash db' (ld_layout_id sample_descriptor) = Inr (Some sample_descriptor)"
    by (rule verified_layout_loads [OF built_sample_descriptor facts(3)])
  have empty: "object_layouts sample_upload_db = []" "replication_runs sample_upload_db = []"
      "replication_run_nodes sample_upload_db = []" "gc_runs sample_upload_db = []"
    by (simp_all add: sample_upload_db_def empty_database_def)
  have only: "\<forall>ol \<in> set (object_layouts db'). l_layout_id ol = ld_layout_id sample_descriptor"
    using facts(5) by (simp add: keeps_other_layouts_def empty filter_empty_conv)
  have "\<exists>row. filter (\<lambda>l. l_layout_id l = ld_layout_id sample_descriptor) (object_layouts db') = [row]"
    using verified_layout_row [OF facts(3)] by metis
  moreover have "filter (\<lambda>l. l_layout_id l = ld_layout_id sample_descriptor) (object_layouts db') = object_layouts db'"
    using only by (simp add: filter_id_conv)
  ultimately have "layout_ids_distinct db'" by (auto simp: layout_ids_distinct_def)
  moreover have "storage_nodes db' = storage_nodes sample_upload_db" using facts(5) by (simp add: keeps_other_layouts_def)
  moreover have "replication_runs db' = []" "replication_run_nodes db' = []" "gc_runs db' = []"
    using facts(7) empty by simp_all
  ultimately show thesis
    using that fin facts(1) loads only by (metis sample_descriptor_fields(1) object.select_convs(1))
qed

lemma sample_session_nodes:
  "\<forall>n \<in> set (us_placement_node_ids sample_session). \<exists>sn \<in> set (storage_nodes sample_upload_db).
     n_node_id sn = n \<and> (n_state sn = Active \<or> n_state sn = Draining)"
  "\<forall>sn \<in> set (storage_nodes sample_upload_db). 0 \<le> n_port sn \<and> n_port sn \<le> 65535"
  "object_layouts sample_upload_db = []" "versions_wf sample_upload_db" "us_state sample_session = SessionOpen"
  by (simp_all add: sample_session_def sample_upload_db_def empty_database_def versions_wf_def)


text \<open>The same database with its plan, for the remaining witnesses.\<close>

lemma sample_plan:
  obtains db' r v plan where "finalize_upload sample_hash sample_upload_db 0 sample_uuid sample_descriptor = Inr (db', r)"
    and "is_content_id (fr_version_id r)" and "load_restorable_version sample_hash db' (fr_version_id r) = Inr v"
    and "\<forall>ol \<in> set (object_layouts db'). \<exists>d. load_object_layout sample_hash db' (l_layout_id ol) = Inr (Some d)"
    and "\<forall>sn \<in> set (storage_nodes db'). 0 \<le> n_port sn \<and> n_port sn \<le> 65535"
    and "complete_layouts db' (multi_node_restorable_chunk db') (av_root_object_id v) \<noteq> []"
    and "resolve_multi_node_restore_plan sample_hash db' (fr_version_id r) = Inr plan"
    and "layout_ids_distinct db'" and "storage_nodes db' = storage_nodes sample_upload_db"
    and "replication_runs db' = []" and "replication_run_nodes db' = []" and "gc_runs db' = []"
    and "\<forall>ol \<in> set (object_layouts db'). l_layout_id ol = ld_layout_id sample_descriptor"
    and "load_object_layout sample_hash db' (ld_layout_id sample_descriptor) = Inr (Some sample_descriptor)"
proof (rule finalized_sample)
  fix db' r v
  assume fin: "finalize_upload sample_hash sample_upload_db 0 sample_uuid sample_descriptor = Inr (db', r)"
    and v: "load_restorable_version sample_hash db' (fr_version_id r) = Inr v" "av_root_object_id v = sample_id (CHR ''a'')"
    and id: "is_content_id (fr_version_id r)"
    and loads: "load_object_layout sample_hash db' (ld_layout_id sample_descriptor) = Inr (Some sample_descriptor)"
    and only: "\<forall>ol \<in> set (object_layouts db'). l_layout_id ol = ld_layout_id sample_descriptor"
    and rest: "layout_ids_distinct db'" "storage_nodes db' = storage_nodes sample_upload_db"
      "replication_runs db' = []" "replication_run_nodes db' = []" "gc_runs db' = []"
  note ok = sample_session_nodes
  have complete: "complete_layouts db' (multi_node_restorable_chunk db') (av_root_object_id v) \<noteq> []"
    using finalized_layout_complete [OF sha_length_sample_hash built_sample_descriptor ok(4) load_sample_session ok(5) fin ok(1)]
    by (simp add: v(2) sample_descriptor_fields)
  have all: "\<forall>ol \<in> set (object_layouts db'). \<exists>d. load_object_layout sample_hash db' (l_layout_id ol) = Inr (Some d)"
    using only loads by simp
  have ports: "\<forall>sn \<in> set (storage_nodes db'). 0 \<le> n_port sn \<and> n_port sn \<le> 65535" using ok(2) rest(2) by simp
  obtain plan where "resolve_multi_node_restore_plan sample_hash db' (fr_version_id r) = Inr plan"
    using complete_layout_resolves [OF check_content_id_valid [OF id] v(1) _ ports complete] all by blast
  then show thesis using that fin id v(1) all ports complete rest only loads by blast
qed

theorem multi_node_plan_is_servable_witness:
  "case finalize_upload sample_hash sample_upload_db 0 sample_uuid sample_descriptor of
     Inr (db', r) \<Rightarrow> (case resolve_multi_node_restore_plan sample_hash db' (fr_version_id r) of
         Inr plan \<Rightarrow> \<forall>s \<in> set (mp_chunks plan). cs_sources s \<noteq> []
       | Inl e \<Rightarrow> False)
   | Inl e \<Rightarrow> False"
proof (rule sample_plan)
  fix db' r plan
  assume fin: "finalize_upload sample_hash sample_upload_db 0 sample_uuid sample_descriptor = Inr (db', r)"
    and plan: "resolve_multi_node_restore_plan sample_hash db' (fr_version_id r) = Inr plan"
  show ?thesis using multi_node_plan_is_servable [OF plan] by (simp add: fin plan)
qed


theorem sweep_preserves_restore_plans_witness:
  "case finalize_upload sample_hash sample_upload_db 0 sample_uuid sample_descriptor of
     Inr (db', r) \<Rightarrow> (case sweep_gc_metadata db' ''node-a'' of
         Inr (db2, stats) \<Rightarrow> resolve_multi_node_restore_plan sample_hash db2 (fr_version_id r) =
           resolve_multi_node_restore_plan sample_hash db' (fr_version_id r)
       | Inl e \<Rightarrow> False)
   | Inl e \<Rightarrow> False"
proof (rule sample_plan)
  fix db' r
  assume fin: "finalize_upload sample_hash sample_upload_db 0 sample_uuid sample_descriptor = Inr (db', r)"
    and ids: "layout_ids_distinct db'" and runs: "replication_runs db' = []"
  have "replication_runs (delete_storage_locations db' ''node-a'') = []"
    by (simp add: delete_storage_locations_def runs)
  then obtain db2 stats where sweep: "sweep_gc_metadata db' ''node-a'' = Inr (db2, stats)"
    by (simp add: sweep_gc_metadata_def Let_def delete_dead_layouts_eq)
  show ?thesis using sweep_preserves_restore_plans [OF ids sweep] by (simp add: fin sweep)
qed

end
