(* ===== verification/Repo_Replication.thy ===== *)
theory Repo_Replication
  imports Repo_Restore
begin

section \<open>Repository: replication runs\<close>

text \<open>
  Replication runs (\<open>metadata/replication.hpp\<close>, and \<open>start_replication_run\<close>, \<open>get_replication_plan\<close> and
  \<open>complete_replication_run\<close> in \<open>postgres_metadata_repository.cpp\<close>): a run fixes a layout and a snapshot of
  the active nodes, its plan names for every chunk the nodes that must hold it, and it completes only when
  they all do. The lemmas show what completion guarantees, that carrying out the plan makes completion
  succeed, and how runs exclude garbage collection and lifecycle runs.
\<close>

subsection \<open>Runs and plans\<close>

record replication_stats =
  rst_chunks_scanned :: u64
  rst_chunks_under_replicated :: u64
  rst_replicas_verified :: u64
  rst_replicas_written :: u64
  rst_bytes_copied :: u64
  rst_source_failovers :: u64

record replication_run =
  rpr_run_id :: string
  rpr_version_id :: string
  rpr_layout_id :: string
  rpr_replication_factor :: u8
  rpr_placement_node_ids :: "string list"
  rpr_state :: replication_run_state
  rpr_stats :: replication_stats

record replication_node_endpoint =
  rne_node_id :: string
  rne_address :: string
  rne_port :: u16

record replication_chunk_plan =
  rcp_chunk_id :: string
  rcp_offset :: u64
  rcp_size_bytes :: u64
  rcp_desired_node_ids :: "string list"
  rcp_source_nodes :: "replication_node_endpoint list"
  rcp_target_nodes :: "replication_node_endpoint list"

record replication_plan =
  rpp_run_id :: string
  rpp_version_id :: string
  rpp_layout_id :: string
  rpp_replication_factor :: u8
  rpp_placement_node_ids :: "string list"
  rpp_chunks :: "replication_chunk_plan list"

subsection \<open>Loading runs\<close>

definition reconstruct_replication_run_from_row ::
  "replication_run_row \<Rightarrow> string list \<Rightarrow> replication_run res" where
  "reconstruct_replication_run_from_row row placement_node_ids =
     (if rr_replication_factor row < 1 \<or> 8 < rr_replication_factor row then Inl Runtime_error
      else
        rbind (uuid_v7 (rr_run_id row)) (\<lambda>run_id.
        rbind (require_non_negative (rr_chunks_scanned row)) (\<lambda>chunks_scanned.
        rbind (require_non_negative (rr_chunks_under_replicated row)) (\<lambda>chunks_under_replicated.
        rbind (require_non_negative (rr_replicas_verified row)) (\<lambda>replicas_verified.
        rbind (require_non_negative (rr_replicas_written row)) (\<lambda>replicas_written.
        rbind (require_non_negative (rr_bytes_copied row)) (\<lambda>bytes_copied.
        rbind (require_non_negative (rr_source_failovers row)) (\<lambda>source_failovers.
        Inr \<lparr>rpr_run_id = run_id, rpr_version_id = rr_version_id row, rpr_layout_id = rr_layout_id row,
             rpr_replication_factor = word_of_int (rr_replication_factor row),
             rpr_placement_node_ids = placement_node_ids, rpr_state = rr_state row,
             rpr_stats =
               \<lparr>rst_chunks_scanned = chunks_scanned, rst_chunks_under_replicated = chunks_under_replicated,
                rst_replicas_verified = replicas_verified, rst_replicas_written = replicas_written,
                rst_bytes_copied = bytes_copied, rst_source_failovers = source_failovers\<rparr>\<rparr>))))))))"

definition replication_run_rows :: "database \<Rightarrow> string \<Rightarrow> replication_run_row list" where
  "replication_run_rows db run_id = filter (\<lambda>r. rr_run_id r = run_id) (replication_runs db)"

definition load_replication_run :: "database \<Rightarrow> string \<Rightarrow> replication_run option res" where
  "load_replication_run db run_id =
     rbind (query01 (replication_run_rows db run_id)) (\<lambda>stored.
     case stored of
       None \<Rightarrow> Inr None
     | Some row \<Rightarrow>
         rbind (reconstruct_replication_run_from_row row (load_replication_run_placement_nodes db run_id)) (\<lambda>run.
         Inr (Some run)))"

definition get_replication_run :: "database \<Rightarrow> string \<Rightarrow> replication_run option res" where
  "get_replication_run db run_id = load_replication_run db run_id"

subsection \<open>Starting a run\<close>

definition active_node_ids :: "database \<Rightarrow> string list" where
  "active_node_ids db = sort (map n_node_id (filter (\<lambda>n. n_state n = Active) (storage_nodes db)))"

text \<open>The primary key, the foreign keys and the partial unique index on open runs.\<close>

definition insert_replication_run :: "database \<Rightarrow> string \<Rightarrow> string \<Rightarrow> string \<Rightarrow> u8 \<Rightarrow> database res" where
  "insert_replication_run db run_id version_id layout_id replication_factor =
     (if replication_run_rows db run_id \<noteq> [] \<or> replication_in_progress db then Inl Unique_violation
      else if \<not> has_version db version_id then Inl Foreign_key_violation
      else if \<not> has_layout db layout_id then Inl Foreign_key_violation
      else Inr (db\<lparr>replication_runs := replication_runs db @
             [\<lparr>rr_run_id = run_id, rr_version_id = version_id, rr_layout_id = layout_id,
               rr_replication_factor = uint replication_factor, rr_state = ReplOpen, rr_chunks_scanned = 0,
               rr_chunks_under_replicated = 0, rr_replicas_verified = 0, rr_replicas_written = 0,
               rr_bytes_copied = 0, rr_source_failovers = 0\<rparr>]\<rparr>))"

definition insert_replication_run_nodes :: "database \<Rightarrow> string \<Rightarrow> string list \<Rightarrow> database res" where
  "insert_replication_run_nodes db run_id nodes =
     rbind (fold_res (insert_rank_row run_id) (zip [0..<length nodes] nodes) (replication_run_nodes db)) (\<lambda>rows.
     Inr (db\<lparr>replication_run_nodes := rows\<rparr>))"

definition create_replication_run ::
  "hash \<Rightarrow> database \<Rightarrow> string \<Rightarrow> string \<Rightarrow> u8 \<Rightarrow> (database \<times> replication_run) res" where
  "create_replication_run H db run_id version_id replication_factor =
     rbind (load_version H db version_id) (\<lambda>version.
     case version of
       None \<Rightarrow> Inl (Replication_error ReplVersionNotFound)
     | Some v \<Rightarrow>
         if av_state v \<noteq> VersionCommitted then Inl (Replication_error ReplVersionNotCommitted)
         else if is_version_retired db version_id then Inl (Replication_error ReplVersionRetired)
         else
           (case select_layout db (multi_node_restorable_chunk db) (av_root_object_id v) of
              None \<Rightarrow> Inl (Replication_error ReplSourceUnavailable)
            | Some layout_id \<Rightarrow>
                let nodes = active_node_ids db
                in if 64 < length nodes \<or> length nodes < unat replication_factor
                   then Inl (Replication_error ReplSourceUnavailable)
                   else
                     rbind (insert_replication_run db run_id version_id layout_id replication_factor) (\<lambda>db.
                     rbind (insert_replication_run_nodes db run_id nodes) (\<lambda>db.
                     rbind (load_replication_run db run_id) (\<lambda>loaded.
                     case loaded of None \<Rightarrow> Inl Runtime_error | Some run \<Rightarrow> Inr (db, run))))))"

definition start_replication_run ::
  "hash \<Rightarrow> database \<Rightarrow> string \<Rightarrow> string \<Rightarrow> u8 \<Rightarrow> (database \<times> replication_run) res" where
  "start_replication_run H db run_id version_id replication_factor =
     rbind (check_content_id version_id) (\<lambda>_.
     if replication_factor < 1 \<or> 8 < replication_factor then Inl Invalid_argument
     else if gc_in_progress db then Inl (Replication_error ReplGcInProgress)
     else
       rbind (load_replication_run db run_id) (\<lambda>existing.
       case existing of
         Some run \<Rightarrow>
           if rpr_version_id run = version_id \<and> rpr_replication_factor run = replication_factor
           then Inr (db, run) else Inl (Replication_error ReplRunConflict)
       | None \<Rightarrow>
           if replication_in_progress db then Inl (Replication_error ReplAnotherRunOpen)
           else create_replication_run H db run_id version_id replication_factor))"

subsection \<open>The plan\<close>

definition check_target_enabled :: "database \<Rightarrow> string \<Rightarrow> unit res" where
  "check_target_enabled db node_id =
     rbind (query01 (map n_state (filter (\<lambda>n. n_node_id n = node_id) (storage_nodes db)))) (\<lambda>stored_state.
     if stored_state = None \<or> stored_state = Some Disabled then Inl (Replication_error TargetDisabled)
     else Inr ())"

definition replication_endpoint :: "string \<Rightarrow> node_row \<Rightarrow> replication_node_endpoint res" where
  "replication_endpoint node_id row =
     (if n_port row < 0 \<or> 65535 < n_port row then Inl Runtime_error
      else Inr \<lparr>rne_node_id = node_id, rne_address = n_address row, rne_port = word_of_int (n_port row)\<rparr>)"

definition target_endpoint :: "database \<Rightarrow> string \<Rightarrow> replication_node_endpoint res" where
  "target_endpoint db node_id =
     rbind (query01 (filter (\<lambda>n. n_node_id n = node_id) (storage_nodes db))) (\<lambda>stored_node.
     case stored_node of
       None \<Rightarrow> Inl (Replication_error TargetDisabled)
     | Some row \<Rightarrow>
         if n_state row = Disabled then Inl (Replication_error TargetDisabled) else replication_endpoint node_id row)"

definition plan_chunk :: "hash \<Rightarrow> database \<Rightarrow> replication_run \<Rightarrow> chunk_ref \<Rightarrow> replication_chunk_plan res" where
  "plan_chunk H db run chunk =
     rbind (select_replica_nodes H (cr_chunk_id chunk) (rpr_placement_node_ids run)
              (unat (rpr_replication_factor run))) (\<lambda>desired_node_ids.
     rbind (check_all (check_target_enabled db) desired_node_ids) (\<lambda>_.
     rbind (map_res (\<lambda>row. replication_endpoint (n_node_id row) row) (source_rows db (cr_chunk_id chunk))) (\<lambda>source_nodes.
     rbind (map_res (target_endpoint db) desired_node_ids) (\<lambda>target_nodes.
     Inr \<lparr>rcp_chunk_id = cr_chunk_id chunk, rcp_offset = cr_offset chunk, rcp_size_bytes = cr_size chunk,
          rcp_desired_node_ids = desired_node_ids, rcp_source_nodes = source_nodes,
          rcp_target_nodes = target_nodes\<rparr>))))"

definition get_replication_plan :: "hash \<Rightarrow> database \<Rightarrow> string \<Rightarrow> replication_plan res" where
  "get_replication_plan H db run_id =
     rbind (load_replication_run db run_id) (\<lambda>loaded.
     case loaded of
       None \<Rightarrow> Inl (Replication_error ReplRunNotFound)
     | Some run \<Rightarrow>
         if rpr_state run \<noteq> ReplOpen then Inl (Replication_error ReplRunNotOpen)
         else
           rbind (load_object_layout H db (rpr_layout_id run)) (\<lambda>descriptor.
           case descriptor of
             None \<Rightarrow> Inl Runtime_error
           | Some d \<Rightarrow>
               rbind (map_res (plan_chunk H db run) (ol_chunks (ld_layout d))) (\<lambda>chunk_plans.
               Inr \<lparr>rpp_run_id = rpr_run_id run, rpp_version_id = rpr_version_id run,
                    rpp_layout_id = rpr_layout_id run, rpp_replication_factor = rpr_replication_factor run,
                    rpp_placement_node_ids = rpr_placement_node_ids run, rpp_chunks = chunk_plans\<rparr>)))"

subsection \<open>Completing a run\<close>

definition check_replicated_chunk :: "hash \<Rightarrow> database \<Rightarrow> replication_run \<Rightarrow> chunk_ref \<Rightarrow> unit res" where
  "check_replicated_chunk H db run chunk =
     rbind (select_replica_nodes H (cr_chunk_id chunk) (rpr_placement_node_ids run)
              (unat (rpr_replication_factor run))) (\<lambda>desired_node_ids.
     check_all (\<lambda>desired_node_id.
       rbind (query01 (map sl_state (filter (\<lambda>l. sl_chunk_id l = cr_chunk_id chunk \<and> sl_node_id l = desired_node_id)
                (storage_locations db)))) (\<lambda>stored_location.
       if stored_location \<noteq> Some Available then Inl (Replication_error UnderReplicated) else Inr ()))
       desired_node_ids)"

definition complete_replication_row ::
  "replication_stats \<Rightarrow> replication_run_row \<Rightarrow> replication_run_row res" where
  "complete_replication_row stats row =
     rbind (to_postgres_bigint (rst_chunks_scanned stats)) (\<lambda>chunks_scanned.
     rbind (to_postgres_bigint (rst_chunks_under_replicated stats)) (\<lambda>chunks_under_replicated.
     rbind (to_postgres_bigint (rst_replicas_verified stats)) (\<lambda>replicas_verified.
     rbind (to_postgres_bigint (rst_replicas_written stats)) (\<lambda>replicas_written.
     rbind (to_postgres_bigint (rst_bytes_copied stats)) (\<lambda>bytes_copied.
     rbind (to_postgres_bigint (rst_source_failovers stats)) (\<lambda>source_failovers.
     Inr (row\<lparr>rr_chunks_scanned := chunks_scanned, rr_chunks_under_replicated := chunks_under_replicated,
             rr_replicas_verified := replicas_verified, rr_replicas_written := replicas_written,
             rr_bytes_copied := bytes_copied, rr_source_failovers := source_failovers,
             rr_state := ReplCompleted\<rparr>)))))))"

text \<open>\<open>run_id\<close> is the primary key, so the update rewrites the one row with it.\<close>

definition update_replication_run :: "database \<Rightarrow> string \<Rightarrow> replication_stats \<Rightarrow> database res" where
  "update_replication_run db run_id stats =
     rbind (map_res (\<lambda>r. if rr_run_id r = run_id then complete_replication_row stats r else Inr r)
              (replication_runs db)) (\<lambda>runs.
     Inr (db\<lparr>replication_runs := runs\<rparr>))"

definition complete_replication_run ::
  "hash \<Rightarrow> database \<Rightarrow> string \<Rightarrow> replication_stats \<Rightarrow> (database \<times> replication_run) res" where
  "complete_replication_run H db run_id stats =
     (case replication_run_rows db run_id of
        [] \<Rightarrow> Inl (Replication_error ReplRunNotFound)
      | row # _ \<Rightarrow>
          rbind (reconstruct_replication_run_from_row row (load_replication_run_placement_nodes db run_id)) (\<lambda>stored_run.
          if rpr_state stored_run = ReplCompleted then Inr (db, stored_run)
          else if rpr_state stored_run \<noteq> ReplOpen then Inl (Replication_error ReplRunNotOpen)
          else if gc_in_progress db then Inl (Replication_error ReplGcInProgress)
          else
            rbind (load_object_layout H db (rpr_layout_id stored_run)) (\<lambda>descriptor.
            case descriptor of
              None \<Rightarrow> Inl Runtime_error
            | Some d \<Rightarrow>
                rbind (check_all (check_replicated_chunk H db stored_run) (ol_chunks (ld_layout d))) (\<lambda>_.
                rbind (update_replication_run db run_id stats) (\<lambda>db.
                rbind (load_replication_run db run_id) (\<lambda>completed.
                case completed of None \<Rightarrow> Inl Runtime_error | Some run \<Rightarrow> Inr (db, run)))))))"

subsection \<open>Completion\<close>

lemma load_replication_run_row:
  assumes "load_replication_run db rid = Inr (Some run)"
  obtains row where "replication_run_rows db rid = [row]"
    and "reconstruct_replication_run_from_row row (load_replication_run_placement_nodes db rid) = Inr run"
proof -
  obtain stored where stored: "query01 (replication_run_rows db rid) = Inr stored"
    using assms unfolding load_replication_run_def rbind_eq_Inr by blast
  then have eq: "(case stored of None \<Rightarrow> Inr None
      | Some row \<Rightarrow> rbind (reconstruct_replication_run_from_row row (load_replication_run_placement_nodes db rid))
          (\<lambda>run. Inr (Some run))) = Inr (Some run)"
    using assms unfolding load_replication_run_def by simp
  then obtain row where row: "stored = Some row" by (cases stored) simp_all
  show thesis
    by (rule that [of row]) (use stored eq row in \<open>auto simp: query01_Some rbind_eq_Inr\<close>)
qed

lemma load_replication_run_cong:
  assumes "replication_runs db' = replication_runs db" and "replication_run_nodes db' = replication_run_nodes db"
  shows "load_replication_run db' rid = load_replication_run db rid"
proof -
  have nodes: "load_replication_run_placement_nodes db' = load_replication_run_placement_nodes db"
    by (rule ext) (simp add: load_replication_run_placement_nodes_def assms)
  show ?thesis unfolding load_replication_run_def replication_run_rows_def nodes assms(1) ..
qed

lemma load_replication_run_row':
  assumes "replication_run_rows db rid = [row]"
    and "reconstruct_replication_run_from_row row (load_replication_run_placement_nodes db rid) = Inr run"
  shows "load_replication_run db rid = Inr (Some run)"
  unfolding load_replication_run_def assms by (simp add: query01_def assms)

lemma reconstruct_replication_fields:
  assumes "reconstruct_replication_run_from_row row ns = Inr run"
  shows "rpr_state run = rr_state row" and "rpr_version_id run = rr_version_id row"
    and "rpr_layout_id run = rr_layout_id row" and "rpr_placement_node_ids run = ns"
    and "int (unat (rpr_replication_factor run)) = rr_replication_factor row"
proof -
  have range: "\<not> (rr_replication_factor row < 1 \<or> 8 < rr_replication_factor row)"
    using assms unfolding reconstruct_replication_run_from_row_def by (auto split: if_splits)
  note fields = assms [unfolded reconstruct_replication_run_from_row_def if_not_P [OF range] run_simps]
  show "rpr_state run = rr_state row" "rpr_version_id run = rr_version_id row"
    "rpr_layout_id run = rr_layout_id row" "rpr_placement_node_ids run = ns"
    using fields by (elim exE conjE, hypsubst, simp)+
  have "rpr_replication_factor run = word_of_int (rr_replication_factor row)"
    using fields by (elim exE conjE) (hypsubst, simp)
  with range show "int (unat (rpr_replication_factor run)) = rr_replication_factor row"
    by (simp add: uint_nat [symmetric] uint_word_of_int)
qed

text \<open>The row that completion writes reads back as the stored run with the new state and statistics.\<close>

lemma completed_row_reads_back:
  assumes "reconstruct_replication_run_from_row row ns = Inr run" and "complete_replication_row stats row = Inr row'"
  shows "reconstruct_replication_run_from_row row' ns = Inr (run\<lparr>rpr_state := ReplCompleted, rpr_stats := stats\<rparr>)"
    and "rr_run_id row' = rr_run_id row"
proof -
  have range: "\<not> (rr_replication_factor row < 1 \<or> 8 < rr_replication_factor row)"
    using assms(1) unfolding reconstruct_replication_run_from_row_def by (auto split: if_splits)
  have row': "row' = row\<lparr>rr_chunks_scanned := uint (rst_chunks_scanned stats),
      rr_chunks_under_replicated := uint (rst_chunks_under_replicated stats),
      rr_replicas_verified := uint (rst_replicas_verified stats), rr_replicas_written := uint (rst_replicas_written stats),
      rr_bytes_copied := uint (rst_bytes_copied stats), rr_source_failovers := uint (rst_source_failovers stats),
      rr_state := ReplCompleted\<rparr>"
    using assms(2) unfolding complete_replication_row_def run_simps to_postgres_bigint_ok
    by (elim exE conjE) (hypsubst, simp)
  show "rr_run_id row' = rr_run_id row" by (simp add: row')
  have "\<exists>u. uuid_v7 (rr_run_id row) = Inr u \<and> run\<lparr>rpr_state := ReplCompleted, rpr_stats := stats\<rparr> =
      \<lparr>rpr_run_id = u, rpr_version_id = rr_version_id row, rpr_layout_id = rr_layout_id row,
       rpr_replication_factor = word_of_int (rr_replication_factor row), rpr_placement_node_ids = ns,
       rpr_state = ReplCompleted, rpr_stats = stats\<rparr>"
    using assms(1) unfolding reconstruct_replication_run_from_row_def if_not_P [OF range] run_simps
    by (elim exE conjE) (hypsubst, simp)
  then show "reconstruct_replication_run_from_row row' ns = Inr (run\<lparr>rpr_state := ReplCompleted, rpr_stats := stats\<rparr>)"
    unfolding reconstruct_replication_run_from_row_def using range
    by (auto simp: row' require_non_negative_def)
qed

lemma update_replication_rows:
  assumes "update_replication_run db rid stats = Inr db'"
  shows "\<exists>rows. db' = db\<lparr>replication_runs := rows\<rparr>"
    and "map_res (complete_replication_row stats) (replication_run_rows db rid) = Inr (replication_run_rows db' rid)"
proof -
  obtain rows where rows: "map_res (\<lambda>r. if rr_run_id r = rid then complete_replication_row stats r else Inr r)
      (replication_runs db) = Inr rows" and db': "db' = db\<lparr>replication_runs := rows\<rparr>"
    using assms unfolding update_replication_run_def run_simps by blast
  from db' show "\<exists>rows. db' = db\<lparr>replication_runs := rows\<rparr>" by blast
  have "map_res (complete_replication_row stats) (filter (\<lambda>r. rr_run_id r = rid) rs) = Inr (filter (\<lambda>r. rr_run_id r = rid) rs')"
    if "map_res (\<lambda>r. if rr_run_id r = rid then complete_replication_row stats r else Inr r) rs = Inr rs'" for rs rs'
    using that
  proof (induction rs arbitrary: rs')
    case (Cons r rs)
    then obtain r' rest where r': "(if rr_run_id r = rid then complete_replication_row stats r else Inr r) = Inr r'"
      and rest: "map_res (\<lambda>r. if rr_run_id r = rid then complete_replication_row stats r else Inr r) rs = Inr rest"
      and rs': "rs' = r' # rest"
      by (auto simp: rbind_eq_Inr)
    have "rr_run_id r' = rr_run_id r"
      using r' unfolding complete_replication_row_def by (auto simp: rbind_eq_Inr split: if_splits)
    with Cons.IH [OF rest] r' rs' show ?case by (cases "rr_run_id r = rid") auto
  qed simp
  from this [OF rows] show "map_res (complete_replication_row stats) (replication_run_rows db rid) = Inr (replication_run_rows db' rid)"
    by (simp add: replication_run_rows_def db')
qed

lemma complete_open_run_steps:
  assumes "complete_replication_run H db rid stats = Inr (db', run)" and "replication_run_rows db rid = row # rest"
    and "reconstruct_replication_run_from_row row (load_replication_run_placement_nodes db rid) = Inr stored"
    and "rpr_state stored = ReplOpen"
  obtains d where "\<not> gc_in_progress db" and "load_object_layout H db (rpr_layout_id stored) = Inr (Some d)"
    and "check_all (check_replicated_chunk H db stored) (ol_chunks (ld_layout d)) = Inr ()"
    and "update_replication_run db rid stats = Inr db'" and "load_replication_run db' rid = Inr (Some run)"
proof -
  have state: "\<not> rpr_state stored = ReplCompleted" "\<not> rpr_state stored \<noteq> ReplOpen" using assms(4) by simp_all
  have "\<exists>d. \<not> gc_in_progress db \<and> load_object_layout H db (rpr_layout_id stored) = Inr (Some d) \<and>
      check_all (check_replicated_chunk H db stored) (ol_chunks (ld_layout d)) = Inr () \<and>
      update_replication_run db rid stats = Inr db' \<and> load_replication_run db' rid = Inr (Some run)"
    using assms(1) unfolding complete_replication_run_def assms(2) list.case assms(3) rbind_simps if_not_P [OF state(1)]
      if_not_P [OF state(2)] run_simps prod.inject
    by (elim exE conjE) (hypsubst, simp)
  with that show thesis by blast
qed

interpretation replication_runs: completable_run replication_run_rows
  "\<lambda>db row. reconstruct_replication_run_from_row row (load_replication_run_placement_nodes db (rr_run_id row))"
  "\<lambda>run. rpr_state run = ReplCompleted" "complete_replication_run H" for H
proof unfold_locales
  have key: "rr_run_id row = rid" if "replication_run_rows db rid = row # rest" for db rid row rest
    using that unfolding replication_run_rows_def by (auto simp: filter_eq_Cons_iff)
  fix db rid row rest run and s :: replication_stats
  assume rows: "replication_run_rows db rid = row # rest"
    and run: "reconstruct_replication_run_from_row row (load_replication_run_placement_nodes db (rr_run_id row)) = Inr run"
    and "rpr_state run = ReplCompleted"
  then show "complete_replication_run H db rid s = Inr (db, run)"
    using key [OF rows] by (simp add: complete_replication_run_def)
next
  have key: "rr_run_id row = rid" if "replication_run_rows db rid = row # rest" for db rid row rest
    using that unfolding replication_run_rows_def by (auto simp: filter_eq_Cons_iff)
  fix db db' rid run and s :: replication_stats
  assume ok: "complete_replication_run H db rid s = Inr (db', run)"
  obtain row rest where rows: "replication_run_rows db rid = row # rest"
    using ok unfolding complete_replication_run_def by (cases "replication_run_rows db rid") simp_all
  let ?ns = "load_replication_run_placement_nodes db rid"
  obtain stored where stored: "reconstruct_replication_run_from_row row ?ns = Inr stored"
    using ok unfolding complete_replication_run_def rows list.case rbind_eq_Inr by blast
  show "rpr_state run = ReplCompleted \<and> (\<exists>row rest. replication_run_rows db' rid = row # rest \<and>
      reconstruct_replication_run_from_row row (load_replication_run_placement_nodes db' (rr_run_id row)) = Inr run)"
  proof (cases "rpr_state stored")
    case ReplCompleted
    with ok stored have "db' = db" "run = stored" unfolding complete_replication_run_def rows list.case by simp_all
    with ReplCompleted rows stored key [OF rows] show ?thesis by auto
  next
    case ReplOpen
    obtain d where upd: "update_replication_run db rid s = Inr db'" and loaded: "load_replication_run db' rid = Inr (Some run)"
      by (rule complete_open_run_steps [OF ok rows stored ReplOpen])
    obtain row' where row': "replication_run_rows db' rid = [row']"
        "reconstruct_replication_run_from_row row' (load_replication_run_placement_nodes db' rid) = Inr run"
      by (rule load_replication_run_row [OF loaded])
    from update_replication_rows(2) [OF upd] row'(1) rows have "complete_replication_row s row = Inr row'"
      by (auto simp: rbind_eq_Inr)
    then have "rr_state row' = ReplCompleted"
      unfolding complete_replication_row_def run_simps by (elim exE conjE) (hypsubst, simp)
    with reconstruct_replication_fields(1) [OF row'(2)] row' key [OF row'(1)] show ?thesis by auto
  qed
qed

lemma load_object_layout_cong:
  assumes "object_layouts db' = object_layouts db" and "object_layout_chunks db' = object_layout_chunks db"
  shows "load_object_layout H db' lid = load_object_layout H db lid"
proof -
  have rows: "layout_rows db' lid = layout_rows db lid" by (simp add: layout_rows_def assms(2))
  show ?thesis unfolding load_object_layout_def assms(1) rows ..
qed

lemma check_replicated_chunk_ok:
  "check_replicated_chunk H db run c = Inr u \<longleftrightarrow>
   (\<exists>sel. select_replica_nodes H (cr_chunk_id c) (rpr_placement_node_ids run) (unat (rpr_replication_factor run)) = Inr sel \<and>
      (\<forall>n \<in> set sel. map sl_state (filter (\<lambda>l. sl_chunk_id l = cr_chunk_id c \<and> sl_node_id l = n) (storage_locations db)) =
         [Available]))"
  by (auto simp: check_replicated_chunk_def rbind_eq_Inr check_all_ok query01_Some if_Inl_eq_Inr)

text \<open>
  C39: What a completed run guarantees. When an open run completes, no garbage collection is in progress, the
  run is stored with the reported statistics and otherwise as it was started, the layout it fixed loads, and
  every chunk of it has an available location on every node that placement selects from the run's node
  snapshot. Nothing but the run's row changes, and asking again returns the same run.
\<close>

theorem completed_replication_is_full:
  assumes "load_replication_run db rid = Inr (Some stored)" and "rpr_state stored = ReplOpen"
    and "complete_replication_run H db rid stats = Inr (db', run)"
  shows "\<not> gc_in_progress db \<and> run = stored\<lparr>rpr_state := ReplCompleted, rpr_stats := stats\<rparr> \<and>
    db' = db\<lparr>replication_runs := replication_runs db'\<rparr> \<and>
    (\<exists>d. get_object_layout H db' (rpr_layout_id run) = Inr (Some d) \<and>
      (\<forall>c \<in> set (ol_chunks (ld_layout d)). \<exists>sel.
         select_replica_nodes H (cr_chunk_id c) (rpr_placement_node_ids run) (unat (rpr_replication_factor run)) = Inr sel \<and>
         (\<forall>n \<in> set sel. map sl_state (filter (\<lambda>l. sl_chunk_id l = cr_chunk_id c \<and> sl_node_id l = n)
            (storage_locations db')) = [Available]))) \<and>
    complete_replication_run H db' rid stats' = Inr (db', run)"
proof -
  obtain row where rows: "replication_run_rows db rid = [row]"
    and row: "reconstruct_replication_run_from_row row (load_replication_run_placement_nodes db rid) = Inr stored"
    by (rule load_replication_run_row [OF assms(1)])
  obtain d where gc: "\<not> gc_in_progress db" and d: "load_object_layout H db (rpr_layout_id stored) = Inr (Some d)"
    and replicas: "check_all (check_replicated_chunk H db stored) (ol_chunks (ld_layout d)) = Inr ()"
    and upd: "update_replication_run db rid stats = Inr db'" and loaded: "load_replication_run db' rid = Inr (Some run)"
    by (rule complete_open_run_steps [OF assms(3) rows row assms(2)])
  obtain runs where db': "db' = db\<lparr>replication_runs := runs\<rparr>" using update_replication_rows(1) [OF upd] by blast
  obtain row' where rows': "replication_run_rows db' rid = [row']"
      "reconstruct_replication_run_from_row row' (load_replication_run_placement_nodes db' rid) = Inr run"
    by (rule load_replication_run_row [OF loaded])
  from update_replication_rows(2) [OF upd] rows rows'(1) have "complete_replication_row stats row = Inr row'"
    by (auto simp: rbind_eq_Inr)
  from completed_row_reads_back(1) [OF row this] rows'(2)
  have run: "run = stored\<lparr>rpr_state := ReplCompleted, rpr_stats := stats\<rparr>"
    by (simp add: load_replication_run_placement_nodes_def db')
  have "load_object_layout H db' (rpr_layout_id run) = Inr (Some d)"
    using d load_object_layout_cong [of db' db H] by (simp add: run db')
  moreover have "\<forall>c \<in> set (ol_chunks (ld_layout d)). check_replicated_chunk H db stored c = Inr ()"
    using replicas by (simp add: check_all_ok)
  moreover have "complete_replication_run H db' rid stats' = Inr (db', run)"
    using replication_runs.idempotent [OF assms(3)] by blast
  ultimately show ?thesis
    unfolding check_replicated_chunk_ok get_object_layout_def using gc run by (simp add: db')
qed

subsection \<open>The plan suffices\<close>

lemma plan_chunk_ok:
  assumes "plan_chunk H db run c = Inr p"
  shows "rcp_chunk_id p = cr_chunk_id c"
    and "select_replica_nodes H (cr_chunk_id c) (rpr_placement_node_ids run) (unat (rpr_replication_factor run)) =
         Inr (rcp_desired_node_ids p)"
    and "map rne_node_id (rcp_target_nodes p) = rcp_desired_node_ids p"
proof -
  obtain sel ts where sel: "select_replica_nodes H (cr_chunk_id c) (rpr_placement_node_ids run)
        (unat (rpr_replication_factor run)) = Inr sel"
    and ts: "map_res (target_endpoint db) sel = Inr ts"
    and p: "rcp_chunk_id p = cr_chunk_id c" "rcp_desired_node_ids p = sel" "rcp_target_nodes p = ts"
    using assms unfolding plan_chunk_def by (auto simp: rbind_eq_Inr)
  have "rne_node_id t = n" if "target_endpoint db n = Inr t" for n t
    using that by (auto simp: target_endpoint_def replication_endpoint_def rbind_eq_Inr split: option.splits if_splits)
  then have "map rne_node_id ts = sel"
    using ts by (simp add: map_res_ok list_eq_iff_nth_eq)
  with sel p show "rcp_chunk_id p = cr_chunk_id c"
    "select_replica_nodes H (cr_chunk_id c) (rpr_placement_node_ids run) (unat (rpr_replication_factor run)) =
         Inr (rcp_desired_node_ids p)"
    "map rne_node_id (rcp_target_nodes p) = rcp_desired_node_ids p" by simp_all
qed

lemma replication_plan_steps:
  assumes "get_replication_plan H db rid = Inr plan"
  obtains run d where "load_replication_run db rid = Inr (Some run)" and "rpr_state run = ReplOpen"
    and "load_object_layout H db (rpr_layout_id run) = Inr (Some d)"
    and "map_res (plan_chunk H db run) (ol_chunks (ld_layout d)) = Inr (rpp_chunks plan)"
proof -
  have "\<exists>run d. load_replication_run db rid = Inr (Some run) \<and> rpr_state run = ReplOpen \<and>
      load_object_layout H db (rpr_layout_id run) = Inr (Some d) \<and>
      map_res (plan_chunk H db run) (ol_chunks (ld_layout d)) = Inr (rpp_chunks plan)"
    using assms unfolding get_replication_plan_def run_simps by (elim exE conjE) (hypsubst, simp)
  with that show thesis by blast
qed

lemma to_postgres_bigint_fits: "unat v < 2 ^ 63 \<Longrightarrow> to_postgres_bigint v = Inr (uint v)"
  by (simp only: to_postgres_bigint_ok)

definition stats_fit :: "replication_stats \<Rightarrow> bool" where
  "stats_fit s \<longleftrightarrow> unat (rst_chunks_scanned s) < 2 ^ 63 \<and> unat (rst_chunks_under_replicated s) < 2 ^ 63 \<and>
     unat (rst_replicas_verified s) < 2 ^ 63 \<and> unat (rst_replicas_written s) < 2 ^ 63 \<and>
     unat (rst_bytes_copied s) < 2 ^ 63 \<and> unat (rst_source_failovers s) < 2 ^ 63"

lemma update_single_replication_run:
  assumes "replication_run_rows db rid = [row]" and "stats_fit stats"
  shows "\<exists>db' row'. update_replication_run db rid stats = Inr db' \<and> complete_replication_row stats row = Inr row' \<and>
    replication_run_rows db' rid = [row'] \<and> replication_run_nodes db' = replication_run_nodes db"
proof -
  have fits: "\<exists>r'. complete_replication_row stats r = Inr r'" for r
    using assms(2) by (simp add: complete_replication_row_def to_postgres_bigint_fits stats_fit_def)
  have "\<exists>rows. map_res (\<lambda>r. if rr_run_id r = rid then complete_replication_row stats r else Inr r) rs = Inr rows" for rs
  proof (induction rs)
    case (Cons r rs)
    with fits [of r] show ?case by (cases "rr_run_id r = rid") auto
  qed simp
  then obtain db' where upd: "update_replication_run db rid stats = Inr db'"
    unfolding update_replication_run_def by (metis rbind_simps(2))
  from fits obtain row' where row': "complete_replication_row stats row = Inr row'" by blast
  from update_replication_rows(2) [OF upd] assms(1) row' have "replication_run_rows db' rid = [row']" by simp
  moreover have "replication_run_nodes db' = replication_run_nodes db" using update_replication_rows(1) [OF upd] by auto
  ultimately show ?thesis using upd row' by blast
qed

lemma replicated_run_completes:
  assumes "load_replication_run db rid = Inr (Some run)" and "rpr_state run = ReplOpen"
    and "load_object_layout H db (rpr_layout_id run) = Inr (Some d)"
    and "\<forall>c \<in> set (ol_chunks (ld_layout d)). check_replicated_chunk H db run c = Inr ()"
    and "\<not> gc_in_progress db" and "stats_fit stats"
  shows "\<exists>db'. complete_replication_run H db rid stats =
    Inr (db', run\<lparr>rpr_state := ReplCompleted, rpr_stats := stats\<rparr>)"
proof -
  obtain row where row: "replication_run_rows db rid = [row]"
      "reconstruct_replication_run_from_row row (load_replication_run_placement_nodes db rid) = Inr run"
    by (rule load_replication_run_row [OF assms(1)])
  have replicas: "check_all (check_replicated_chunk H db run) (ol_chunks (ld_layout d)) = Inr ()"
    using assms(4) by (simp add: check_all_ok)
  obtain db' row' where upd: "update_replication_run db rid stats = Inr db'"
    and row': "complete_replication_row stats row = Inr row'" "replication_run_rows db' rid = [row']"
      "replication_run_nodes db' = replication_run_nodes db"
    using update_single_replication_run [OF row(1) assms(6)] by blast
  have "load_replication_run db' rid = Inr (Some (run\<lparr>rpr_state := ReplCompleted, rpr_stats := stats\<rparr>))"
    by (rule load_replication_run_row' [OF row'(2)])
      (use completed_row_reads_back(1) [OF row(2) row'(1)] row'(3) in \<open>simp add: load_replication_run_placement_nodes_def\<close>)
  then show ?thesis
    unfolding complete_replication_run_def row list.case rbind_simps assms(3) option.case replicas upd
    using assms(2,5) by simp
qed

text \<open>
  C40: Carrying out the plan is enough. Take the plan of an open run, and let the storage locations change in
  any way after which every planned target of every chunk has an available location of the chunk. If no
  garbage collection is open, the run then completes, whatever (representable) statistics are reported.
\<close>

theorem replication_plan_suffices:
  assumes "get_replication_plan H db rid = Inr plan" and "\<not> gc_in_progress db" and "stats_fit stats"
    and "\<forall>p \<in> set (rpp_chunks plan). \<forall>t \<in> set (rcp_target_nodes p).
      map sl_state (filter (\<lambda>l. sl_chunk_id l = rcp_chunk_id p \<and> sl_node_id l = rne_node_id t) locations) = [Available]"
  shows "\<exists>db' run. complete_replication_run H (db\<lparr>storage_locations := locations\<rparr>) rid stats = Inr (db', run) \<and>
    rpr_state run = ReplCompleted \<and> rpr_stats run = stats"
proof -
  let ?db = "db\<lparr>storage_locations := locations\<rparr>"
  obtain run d where run: "load_replication_run db rid = Inr (Some run)" "rpr_state run = ReplOpen"
    and d: "load_object_layout H db (rpr_layout_id run) = Inr (Some d)"
    and plans: "map_res (plan_chunk H db run) (ol_chunks (ld_layout d)) = Inr (rpp_chunks plan)"
    by (rule replication_plan_steps [OF assms(1)])
  have run2: "load_replication_run ?db rid = Inr (Some run)"
    using run(1) load_replication_run_cong [of ?db db] by simp
  have replicas: "check_replicated_chunk H ?db run c = Inr ()" if c: "c \<in> set (ol_chunks (ld_layout d))" for c
  proof -
    from map_res_set_inv [OF plans c] obtain p where p: "p \<in> set (rpp_chunks plan)" "plan_chunk H db run c = Inr p" by blast
    note chunk = plan_chunk_ok [OF p(2)]
    have "\<forall>n \<in> set (rcp_desired_node_ids p).
        map sl_state (filter (\<lambda>l. sl_chunk_id l = cr_chunk_id c \<and> sl_node_id l = n) locations) = [Available]"
      unfolding chunk(3) [symmetric] using assms(4) p(1) chunk(1) by auto
    with chunk(2) show ?thesis unfolding check_replicated_chunk_ok by simp
  qed
  have layout: "load_object_layout H ?db (rpr_layout_id run) = Inr (Some d)"
    using d load_object_layout_cong [of ?db db H] by simp
  have "\<not> gc_in_progress ?db" using assms(2) by (simp add: gc_in_progress_def)
  from replicated_run_completes [OF run2 run(2) layout _ this assms(3)] replicas show ?thesis by fastforce
qed

subsection \<open>Starting a run\<close>

lemma started_run_steps:
  assumes "start_replication_run H db rid vid rf = Inr (db', run)" and "load_replication_run db rid = Inr None"
  obtains v lid row rank_rows where "1 \<le> unat rf" and "unat rf \<le> 8" and "\<not> gc_in_progress db"
    and "\<not> replication_in_progress db" and "load_version H db vid = Inr (Some v)" and "av_state v = VersionCommitted"
    and "\<not> is_version_retired db vid"
    and "select_layout db (multi_node_restorable_chunk db) (av_root_object_id v) = Some lid"
    and "length (active_node_ids db) \<le> 64" and "unat rf \<le> length (active_node_ids db)"
    and "row = \<lparr>rr_run_id = rid, rr_version_id = vid, rr_layout_id = lid, rr_replication_factor = uint rf,
      rr_state = ReplOpen, rr_chunks_scanned = 0, rr_chunks_under_replicated = 0, rr_replicas_verified = 0,
      rr_replicas_written = 0, rr_bytes_copied = 0, rr_source_failovers = 0\<rparr>"
    and "fold_res (insert_rank_row rid) (zip [0..<length (active_node_ids db)] (active_node_ids db))
           (replication_run_nodes db) = Inr rank_rows"
    and "db' = db\<lparr>replication_runs := replication_runs db @ [row], replication_run_nodes := rank_rows\<rparr>"
    and "load_replication_run db' rid = Inr (Some run)"
proof -
  have range: "\<not> (rf < 1 \<or> 8 < rf)" and fresh: "\<not> gc_in_progress db" "\<not> replication_in_progress db"
    and create: "create_replication_run H db rid vid rf = Inr (db', run)"
    using assms(1) unfolding start_replication_run_def assms(2) by (auto simp: rbind_eq_Inr split: if_splits)
  from range have rf: "1 \<le> unat rf" "unat rf \<le> 8"
    by (auto simp: word_less_nat_alt)
  have "\<exists>v lid db1 db2. load_version H db vid = Inr (Some v) \<and> av_state v = VersionCommitted \<and>
      \<not> is_version_retired db vid \<and> select_layout db (multi_node_restorable_chunk db) (av_root_object_id v) = Some lid \<and>
      \<not> (64 < length (active_node_ids db) \<or> length (active_node_ids db) < unat rf) \<and>
      insert_replication_run db rid vid lid rf = Inr db1 \<and>
      insert_replication_run_nodes db1 rid (active_node_ids db) = Inr db2 \<and>
      load_replication_run db2 rid = Inr (Some run) \<and> db' = db2"
    using create unfolding create_replication_run_def Let_def run_simps prod.inject
    by (elim exE conjE) (hypsubst, simp)
  then obtain v lid db1 where v: "load_version H db vid = Inr (Some v)" "av_state v = VersionCommitted" "\<not> is_version_retired db vid"
    and lid: "select_layout db (multi_node_restorable_chunk db) (av_root_object_id v) = Some lid"
    and len: "\<not> (64 < length (active_node_ids db) \<or> length (active_node_ids db) < unat rf)"
    and db1: "insert_replication_run db rid vid lid rf = Inr db1"
    and db': "insert_replication_run_nodes db1 rid (active_node_ids db) = Inr db'"
    and loaded: "load_replication_run db' rid = Inr (Some run)" by blast
  define row where "row = \<lparr>rr_run_id = rid, rr_version_id = vid, rr_layout_id = lid, rr_replication_factor = uint rf,
      rr_state = ReplOpen, rr_chunks_scanned = 0, rr_chunks_under_replicated = 0, rr_replicas_verified = 0,
      rr_replicas_written = 0, rr_bytes_copied = 0, rr_source_failovers = 0\<rparr>"
  have db1': "db1 = db\<lparr>replication_runs := replication_runs db @ [row]\<rparr>"
    using db1 unfolding insert_replication_run_def run_simps row_def by simp
  obtain rank_rows where ranks: "fold_res (insert_rank_row rid) (zip [0..<length (active_node_ids db)] (active_node_ids db))
      (replication_run_nodes db) = Inr rank_rows" and rows: "db' = db1\<lparr>replication_run_nodes := rank_rows\<rparr>"
    using db' unfolding insert_replication_run_nodes_def db1' by (auto simp: rbind_eq_Inr)
  from len have len': "length (active_node_ids db) \<le> 64" "unat rf \<le> length (active_node_ids db)" by simp_all
  from rows have db'': "db' = db\<lparr>replication_runs := replication_runs db @ [row], replication_run_nodes := rank_rows\<rparr>"
    unfolding db1' by simp
  show thesis by (rule that [OF rf fresh v lid len' row_def ranks db'' loaded])
qed

text \<open>Runs exclude one another. A replication run starts only while no garbage-collection run and no other
  replication run is open and its version is not retired; once it has started, it is open, and every new
  garbage-collection run, lifecycle run and other replication run is refused with the error for exactly that
  reason (a lifecycle run, which looks at open upload sessions first, when there are none).
\<close>

theorem replication_run_excludes_other_runs:
  assumes "load_replication_run db rid = Inr None" and "start_replication_run H db rid vid rf = Inr (db', run)"
  shows "\<not> gc_in_progress db \<and> \<not> replication_in_progress db \<and> \<not> is_version_retired db vid \<and>
    rpr_state run = ReplOpen \<and>
    (\<forall>g. validate_gc_run_start_request g = Inr () \<longrightarrow> load_gc_run db' (gr_run_id g) = Inr None \<longrightarrow>
       start_gc_run db' g = Inl (Gc_error GcReplicationInProgress)) \<and>
    (\<forall>now lid pid mode. load_lifecycle_run db' lid = Inr None \<longrightarrow> \<not> open_upload_sessions_present db' \<longrightarrow>
       run_lifecycle db' now lid pid mode = Inl (Lifecycle_error BlockedByReplication)) \<and>
    (\<forall>rid' vid' rf'. is_content_id vid' \<longrightarrow> 1 \<le> rf' \<longrightarrow> rf' \<le> 8 \<longrightarrow> load_replication_run db' rid' = Inr None \<longrightarrow>
       start_replication_run H db' rid' vid' rf' = Inl (Replication_error ReplAnotherRunOpen))"
proof -
  obtain v lid row rank_rows where gc: "\<not> gc_in_progress db" and repl: "\<not> replication_in_progress db"
    and retired: "\<not> is_version_retired db vid"
    and row: "row = \<lparr>rr_run_id = rid, rr_version_id = vid, rr_layout_id = lid, rr_replication_factor = uint rf,
      rr_state = ReplOpen, rr_chunks_scanned = 0, rr_chunks_under_replicated = 0, rr_replicas_verified = 0,
      rr_replicas_written = 0, rr_bytes_copied = 0, rr_source_failovers = 0\<rparr>"
    and db': "db' = db\<lparr>replication_runs := replication_runs db @ [row], replication_run_nodes := rank_rows\<rparr>"
    and loaded: "load_replication_run db' rid = Inr (Some run)"
    by (rule started_run_steps [OF assms(2,1)])
  have gc': "\<not> gc_in_progress db'" using gc by (simp add: gc_in_progress_def db')
  have open_run: "replication_in_progress db'" by (simp add: replication_in_progress_def db' row)
  obtain row' where row': "replication_run_rows db' rid = [row']"
      "reconstruct_replication_run_from_row row' (load_replication_run_placement_nodes db' rid) = Inr run"
    by (rule load_replication_run_row [OF loaded])
  have "row \<in> set (replication_run_rows db' rid)" by (simp add: replication_run_rows_def db' row)
  then have "row' = row" using row'(1) by simp
  then have state: "rpr_state run = ReplOpen"
    using reconstruct_replication_fields(1) [OF row'(2)] by (simp add: row)
  have "start_gc_run db' g = Inl (Gc_error GcReplicationInProgress)"
    if "validate_gc_run_start_request g = Inr ()" "load_gc_run db' (gr_run_id g) = Inr None" for g
    by (simp add: start_gc_run_def that gc' open_run)
  moreover have "run_lifecycle db' now lid pid mode = Inl (Lifecycle_error BlockedByReplication)"
    if "load_lifecycle_run db' lid = Inr None" "\<not> open_upload_sessions_present db'" for now lid pid mode
    by (simp add: run_lifecycle_def that gc' open_run)
  moreover have "start_replication_run H db' rid' vid' rf' = Inl (Replication_error ReplAnotherRunOpen)"
    if "is_content_id vid'" "1 \<le> rf'" "rf' \<le> 8" "load_replication_run db' rid' = Inr None" for rid' vid' rf'
  proof -
    have "rf' \<noteq> 0" using that(2) by auto
    with that(3) show ?thesis by (simp add: start_replication_run_def that(1,4) gc' open_run not_less)
  qed
  ultimately show ?thesis using gc repl retired state by blast
qed

lemma ranked_nodes_of_inserted:
  assumes "fold_res (insert_rank_row i) (zip [0..<length ns] ns) rows = Inr rows'" and "\<forall>r \<in> set rows. r_owner r \<noteq> i"
  shows "ranked_nodes rows' i = ns"
proof -
  have rows': "rows' = rows @ map (\<lambda>rn. \<lparr>r_owner = i, r_node_rank = int (fst rn), r_node_id = snd rn\<rparr>) (zip [0..<length ns] ns)"
    using insert_rank_rows_ok [OF assms(1)] by simp
  let ?new = "map (\<lambda>rn. \<lparr>r_owner = i, r_node_rank = int (fst rn), r_node_id = snd rn\<rparr>) (zip [0..<length ns] ns)"
  have "filter (\<lambda>r. r_owner r = i) rows' = ?new"
    using assms(2) by (simp add: rows' filter_empty_conv filter_id_conv)
  moreover have "sorted (map r_node_rank ?new)"
    by (simp add: comp_def sorted_iff_nth_mono)
  ultimately show ?thesis
    unfolding ranked_nodes_def by (simp add: sort_key_id_if_sorted comp_def)
qed

lemma active_node_ids_strict:
  assumes "distinct (map n_node_id (storage_nodes db))"
  shows "sorted_wrt (<) (active_node_ids db)"
proof -
  have "distinct (active_node_ids db)"
    using assms by (simp add: active_node_ids_def distinct_map_filter)
  then show ?thesis by (simp add: strict_sorted_iff active_node_ids_def)
qed

lemma active_node_row:
  assumes "distinct (map n_node_id (storage_nodes db))" and "n \<in> set (active_node_ids db)"
  shows "\<exists>row. filter (\<lambda>x. n_node_id x = n) (storage_nodes db) = [row] \<and> n_state row = Active \<and>
    row \<in> set (storage_nodes db)"
proof -
  from assms(2) obtain row where row: "row \<in> set (storage_nodes db)" "n_node_id row = n" "n_state row = Active"
    by (auto simp: active_node_ids_def)
  then have "row \<in> set (filter (\<lambda>x. n_node_id x = n) (storage_nodes db))" by simp
  moreover obtain x where "filter (\<lambda>x. n_node_id x = n) (storage_nodes db) = [] \<or>
      filter (\<lambda>x. n_node_id x = n) (storage_nodes db) = [x]"
    using filter_key_single [OF assms(1), of n] by blast
  ultimately have "filter (\<lambda>x. n_node_id x = n) (storage_nodes db) = [row]" by (elim disjE) simp_all
  with row show ?thesis by blast
qed

lemma active_targets:
  assumes "distinct (map n_node_id (storage_nodes db))"
    and "\<forall>sn \<in> set (storage_nodes db). 0 \<le> n_port sn \<and> n_port sn \<le> 65535"
    and "set ns \<subseteq> set (active_node_ids db)"
  shows "check_all (check_target_enabled db) ns = Inr ()"
    and "\<exists>ts. map_res (target_endpoint db) ns = Inr ts \<and> map rne_node_id ts = ns"
proof -
  have enabled: "check_target_enabled db n = Inr ()" if "n \<in> set ns" for n
  proof -
    obtain r where "filter (\<lambda>x. n_node_id x = n) (storage_nodes db) = [r]" "n_state r = Active"
      using active_node_row [OF assms(1), of n] assms(3) \<open>n \<in> set ns\<close> by blast
    then show ?thesis by (simp add: check_target_enabled_def query01_def)
  qed
  then show "check_all (check_target_enabled db) ns = Inr ()" by (simp add: check_all_ok)
  show "\<exists>ts. map_res (target_endpoint db) ns = Inr ts \<and> map rne_node_id ts = ns"
    using assms(3)
  proof (induction ns)
    case (Cons n ns)
    then obtain r where r: "filter (\<lambda>x. n_node_id x = n) (storage_nodes db) = [r]" "n_state r = Active"
        "r \<in> set (storage_nodes db)"
      using active_node_row [OF assms(1), of n] by auto
    then have "\<exists>t. target_endpoint db n = Inr t \<and> rne_node_id t = n"
      using assms(2) by (auto simp: target_endpoint_def query01_def replication_endpoint_def)
    with Cons show ?case by auto
  qed simp
qed

lemma replication_sources:
  assumes "\<forall>sn \<in> set (storage_nodes db). 0 \<le> n_port sn \<and> n_port sn \<le> 65535"
  shows "\<exists>ss. map_res (\<lambda>row. replication_endpoint (n_node_id row) row) (source_rows db c) = Inr ss \<and>
    length ss = length (source_rows db c)"
proof -
  have "\<exists>ss. map_res (\<lambda>row. replication_endpoint (n_node_id row) row) rs = Inr ss \<and> length ss = length rs"
    if "set rs \<subseteq> set (storage_nodes db)" for rs
    using that
  proof (induction rs)
    case (Cons r rs)
    then have "0 \<le> n_port r \<and> n_port r \<le> 65535" using assms by simp
    with Cons show ?case by (auto simp: replication_endpoint_def)
  qed simp
  from this [of "source_rows db c"] source_rows_mem show ?thesis by blast
qed

text \<open>What the plan of one chunk looks like, and when it exists.\<close>

definition good_chunk_plan :: "database \<Rightarrow> nat \<Rightarrow> replication_chunk_plan \<Rightarrow> bool" where
  "good_chunk_plan db rf p \<longleftrightarrow> rcp_source_nodes p \<noteq> [] \<and> distinct (map rne_node_id (rcp_target_nodes p)) \<and>
     length (rcp_target_nodes p) = rf \<and> set (map rne_node_id (rcp_target_nodes p)) \<subseteq> set (active_node_ids db)"

lemma plan_chunk_exists:
  assumes "sha_length_ok H" and "distinct (map n_node_id (storage_nodes db))"
    and "\<forall>sn \<in> set (storage_nodes db). 0 \<le> n_port sn \<and> n_port sn \<le> 65535"
    and "rpr_placement_node_ids run = active_node_ids db" and "valid_placement (active_node_ids db)"
    and "1 \<le> unat (rpr_replication_factor run)" and "unat (rpr_replication_factor run) \<le> 8"
    and "unat (rpr_replication_factor run) \<le> length (active_node_ids db)"
    and "is_content_id (cr_chunk_id c)" and "multi_node_restorable_chunk db (cr_chunk_id c)"
  shows "\<exists>p. plan_chunk H db run c = Inr p \<and> good_chunk_plan db (unat (rpr_replication_factor run)) p"
proof -
  let ?rf = "unat (rpr_replication_factor run)"
  define sel where "sel = take ?rf (ranking H (cr_chunk_id c) (active_node_ids db))"
  have sel: "select_replica_nodes H (cr_chunk_id c) (rpr_placement_node_ids run) ?rf = Inr sel"
    unfolding select_replica_nodes_eq [OF assms(1)] assms(4) sel_def using assms(5-9) by simp
  have subset: "set sel \<subseteq> set (active_node_ids db)"
    using set_take_subset [of _ "ranking H (cr_chunk_id c) (active_node_ids db)"] by (simp add: sel_def)
  obtain ts where ts: "map_res (target_endpoint db) sel = Inr ts" "map rne_node_id ts = sel"
    using active_targets(2) [OF assms(2,3) subset] by blast
  obtain ss where ss: "map_res (\<lambda>row. replication_endpoint (n_node_id row) row) (source_rows db (cr_chunk_id c)) = Inr ss"
      "length ss = length (source_rows db (cr_chunk_id c))"
    using replication_sources [OF assms(3)] by blast
  have "ss \<noteq> []" using assms(10) ss(2) source_rows_nonempty [of db "cr_chunk_id c"] by auto
  moreover have "distinct sel" "length sel = ?rf"
    using assms(5,8) valid_placement_distinct by (simp_all add: sel_def)
  moreover have image: "rne_node_id ` set ts \<subseteq> set (active_node_ids db)"
    using subset [folded ts(2)] by simp
  moreover have "length ts = length sel" using ts(2) by (metis length_map)
  ultimately show ?thesis
    using ts subset image
    by (simp add: plan_chunk_def sel active_targets(1) [OF assms(2,3) subset] ss(1) good_chunk_plan_def)
qed

lemma plan_chunk_cong:
  assumes "storage_nodes db' = storage_nodes db" and "storage_locations db' = storage_locations db"
  shows "plan_chunk H db' run = plan_chunk H db run"
proof
  fix c
  have "check_target_enabled db' = check_target_enabled db" "target_endpoint db' = target_endpoint db"
    by (auto simp: check_target_enabled_def target_endpoint_def assms)
  moreover have "source_rows db' = source_rows db" by (auto simp: source_rows_def assms)
  ultimately show "plan_chunk H db' run c = plan_chunk H db run c" by (simp add: plan_chunk_def)
qed

lemma plan_chunks_exist:
  assumes "\<And>c. c \<in> set cs \<Longrightarrow> \<exists>p. plan_chunk H db run c = Inr p \<and> Q p"
  shows "\<exists>ps. map_res (plan_chunk H db run) cs = Inr ps \<and> map rcp_chunk_id ps = map cr_chunk_id cs \<and> (\<forall>p \<in> set ps. Q p)"
  using assms
proof (induction cs)
  case (Cons c cs)
  then obtain p ps where p: "plan_chunk H db run c = Inr p" "Q p"
    and ps: "map_res (plan_chunk H db run) cs = Inr ps" "map rcp_chunk_id ps = map cr_chunk_id cs" "\<forall>p \<in> set ps. Q p"
    by force
  with plan_chunk_ok(1) [OF p(1)] show ?case by simp
qed simp

lemma layout_chunk_ids:
  assumes "load_object_layout H db lid = Inr (Some d)" and "c \<in> set (ol_chunks (ld_layout d))"
  shows "is_content_id (cr_chunk_id c)"
  using built_layout_facts(2) [OF loaded_layout(1) [OF assms(1)]] object_layout_ids assms(2) by blast

lemma started_run_chunks:
  assumes "sha_length_ok H" and "load_replication_run db rid = Inr None"
    and "start_replication_run H db rid vid rf = Inr (db', run)"
    and "distinct (map n_node_id (storage_nodes db))" and "\<forall>sn \<in> set (storage_nodes db). is_valid_node_id (n_node_id sn)"
    and "\<forall>sn \<in> set (storage_nodes db). 0 \<le> n_port sn \<and> n_port sn \<le> 65535"
    and "\<forall>r \<in> set (replication_run_nodes db). r_owner r \<noteq> rid"
    and "\<forall>ol \<in> set (object_layouts db). \<exists>d. load_object_layout H db (l_layout_id ol) = Inr (Some d)"
  shows "\<exists>d ps. load_replication_run db' rid = Inr (Some run) \<and> rpr_state run = ReplOpen \<and>
    rpr_placement_node_ids run = active_node_ids db \<and> unat (rpr_replication_factor run) = unat rf \<and>
    load_object_layout H db (rpr_layout_id run) = Inr (Some d) \<and> load_object_layout H db' (rpr_layout_id run) = Inr (Some d) \<and>
    map_res (plan_chunk H db' run) (ol_chunks (ld_layout d)) = Inr ps \<and>
    map rcp_chunk_id ps = map cr_chunk_id (ol_chunks (ld_layout d)) \<and> (\<forall>p \<in> set ps. good_chunk_plan db (unat rf) p)"
proof -
  obtain v :: artifact_version and lid row rank_rows where rf: "1 \<le> unat rf" "unat rf \<le> 8"
    and lid: "select_layout db (multi_node_restorable_chunk db) (av_root_object_id v) = Some lid"
    and len: "length (active_node_ids db) \<le> 64" "unat rf \<le> length (active_node_ids db)"
    and row: "row = \<lparr>rr_run_id = rid, rr_version_id = vid, rr_layout_id = lid, rr_replication_factor = uint rf,
      rr_state = ReplOpen, rr_chunks_scanned = 0, rr_chunks_under_replicated = 0, rr_replicas_verified = 0,
      rr_replicas_written = 0, rr_bytes_copied = 0, rr_source_failovers = 0\<rparr>"
    and ranks: "fold_res (insert_rank_row rid) (zip [0..<length (active_node_ids db)] (active_node_ids db))
           (replication_run_nodes db) = Inr rank_rows"
    and db': "db' = db\<lparr>replication_runs := replication_runs db @ [row], replication_run_nodes := rank_rows\<rparr>"
    and loaded: "load_replication_run db' rid = Inr (Some run)"
    by (rule started_run_steps [OF assms(3,2)])
  obtain row' where row': "replication_run_rows db' rid = [row']"
      "reconstruct_replication_run_from_row row' (load_replication_run_placement_nodes db' rid) = Inr run"
    by (rule load_replication_run_row [OF loaded])
  have "row \<in> set (replication_run_rows db' rid)" by (simp add: replication_run_rows_def db' row)
  then have "row' = row" using row'(1) by simp
  note fields = reconstruct_replication_fields [OF row'(2), unfolded this]
  have nodes: "rpr_placement_node_ids run = active_node_ids db"
    using fields(4) ranked_nodes_of_inserted [OF ranks assms(7)] by (simp add: load_replication_run_placement_nodes_def db')
  have factor: "unat (rpr_replication_factor run) = unat rf"
  proof -
    have "int (unat (rpr_replication_factor run)) = int (unat rf)"
      using fields(5) unfolding row by (simp only: replication_run_row.select_convs uint_nat)
    then show ?thesis by (simp only: of_nat_eq_iff)
  qed
  obtain ol where ol: "ol \<in> set (object_layouts db)" "l_layout_id ol = lid"
    and complete: "ol \<in> set (complete_layouts db (multi_node_restorable_chunk db) (av_root_object_id v))"
    using select_layout_Some(1) [OF lid] complete_layout_member by metis
  from assms(8) ol obtain d where d: "load_object_layout H db lid = Inr (Some d)" by blast
  have "active_node_ids db \<noteq> []" using rf(1) len(2) by auto
  moreover have "\<forall>n \<in> set (active_node_ids db). is_valid_node_id n" using assms(5) by (auto simp: active_node_ids_def)
  ultimately have "valid_placement (active_node_ids db)"
    using len(1) active_node_ids_strict [OF assms(4)] by (simp add: valid_placement_def)
  moreover have "multi_node_restorable_chunk db (cr_chunk_id c)" if "c \<in> set (ol_chunks (ld_layout d))" for c
  proof -
    have "cr_chunk_id c \<in> set (map lc_chunk_id (layout_rows db (l_layout_id ol)))"
      unfolding ol(2) loaded_layout(3) [OF d, symmetric] using that by simp
    then show ?thesis by (rule complete_layout_chunk [OF complete])
  qed
  ultimately have "\<exists>p. plan_chunk H db run c = Inr p \<and> good_chunk_plan db (unat rf) p" if "c \<in> set (ol_chunks (ld_layout d))" for c
    using plan_chunk_exists [OF assms(1,4,6) nodes, of c] layout_chunk_ids [OF d that] rf len(2) that
    unfolding factor by blast
  from plan_chunks_exist [of "ol_chunks (ld_layout d)", OF this] obtain ps where
    ps: "map_res (plan_chunk H db run) (ol_chunks (ld_layout d)) = Inr ps"
      "map rcp_chunk_id ps = map cr_chunk_id (ol_chunks (ld_layout d))" "\<forall>p \<in> set ps. good_chunk_plan db (unat rf) p"
    by blast
  have "plan_chunk H db' run = plan_chunk H db run" by (rule plan_chunk_cong) (simp_all add: db')
  moreover have "load_object_layout H db' lid = Inr (Some d)" using d load_object_layout_cong [of db' db H] by (simp add: db')
  moreover have "rpr_layout_id run = lid" "rpr_state run = ReplOpen" using fields by (simp_all add: row)
  ultimately show ?thesis using d nodes factor ps loaded by metis
qed

text \<open>A run that has started can be worked on. With the invariants of the node table (identifiers distinct and
  valid, ports in range), no left-over node rows of the run and loadable layouts, the plan of a freshly
  started run exists; it covers the chunks of the selected layout in order, its node snapshot is the sorted
  list of active nodes, every chunk has a source, and its targets are exactly the replication factor's
  number of distinct active nodes.
\<close>

theorem started_run_has_plan:
  assumes "sha_length_ok H" and "load_replication_run db rid = Inr None"
    and "start_replication_run H db rid vid rf = Inr (db', run)"
    and "distinct (map n_node_id (storage_nodes db))" and "\<forall>sn \<in> set (storage_nodes db). is_valid_node_id (n_node_id sn)"
    and "\<forall>sn \<in> set (storage_nodes db). 0 \<le> n_port sn \<and> n_port sn \<le> 65535"
    and "\<forall>r \<in> set (replication_run_nodes db). r_owner r \<noteq> rid"
    and "\<forall>ol \<in> set (object_layouts db). \<exists>d. load_object_layout H db (l_layout_id ol) = Inr (Some d)"
  shows "\<exists>plan d. get_replication_plan H db' rid = Inr plan \<and> rpp_placement_node_ids plan = active_node_ids db \<and>
    get_object_layout H db (rpp_layout_id plan) = Inr (Some d) \<and>
    map rcp_chunk_id (rpp_chunks plan) = map cr_chunk_id (ol_chunks (ld_layout d)) \<and>
    (\<forall>p \<in> set (rpp_chunks plan). rcp_source_nodes p \<noteq> [] \<and>
       distinct (map rne_node_id (rcp_target_nodes p)) \<and> length (rcp_target_nodes p) = unat rf \<and>
       set (map rne_node_id (rcp_target_nodes p)) \<subseteq> set (active_node_ids db))"
proof -
  obtain d ps where run: "load_replication_run db' rid = Inr (Some run)" "rpr_state run = ReplOpen"
      "rpr_placement_node_ids run = active_node_ids db"
    and d: "load_object_layout H db (rpr_layout_id run) = Inr (Some d)" "load_object_layout H db' (rpr_layout_id run) = Inr (Some d)"
    and ps: "map_res (plan_chunk H db' run) (ol_chunks (ld_layout d)) = Inr ps"
      "map rcp_chunk_id ps = map cr_chunk_id (ol_chunks (ld_layout d))" "\<forall>p \<in> set ps. good_chunk_plan db (unat rf) p"
    using started_run_chunks [OF assms] by blast
  show ?thesis
    using run d ps by (simp add: get_replication_plan_def get_object_layout_def good_chunk_plan_def)
qed

subsection \<open>Witnesses\<close>

text \<open>The finalized concrete upload, with a replication run of its version on its one active node.\<close>

lemma sample_node_ok:
  "distinct (map n_node_id (storage_nodes sample_upload_db))"
  "\<forall>sn \<in> set (storage_nodes sample_upload_db). is_valid_node_id (n_node_id sn)"
  "filter (\<lambda>n. n_state n = Active) (storage_nodes sample_upload_db) = storage_nodes sample_upload_db"
  "map n_node_id (storage_nodes sample_upload_db) = [''node-a'']"
  using node_a_placement by (simp_all add: sample_upload_db_def valid_placement_def)

lemma sample_start:
  obtains db r db' run where "load_replication_run db sample_uuid = Inr None"
    and "start_replication_run sample_hash db sample_uuid (fr_version_id r) 1 = Inr (db', run)"
    and "finalize_upload sample_hash sample_upload_db 0 sample_uuid sample_descriptor = Inr (db, r)"
    and "storage_nodes db = storage_nodes sample_upload_db" and "replication_run_nodes db = []" and "gc_runs db = []"
    and "\<forall>ol \<in> set (object_layouts db). l_layout_id ol = ld_layout_id sample_descriptor"
    and "load_object_layout sample_hash db (ld_layout_id sample_descriptor) = Inr (Some sample_descriptor)"
    and "\<forall>sn \<in> set (storage_nodes db). 0 \<le> n_port sn \<and> n_port sn \<le> 65535" and "active_node_ids db = [''node-a'']"
proof (rule sample_plan)
  fix db r and v :: artifact_version
  assume fin: "finalize_upload sample_hash sample_upload_db 0 sample_uuid sample_descriptor = Inr (db, r)"
    and id: "is_content_id (fr_version_id r)" and v: "load_restorable_version sample_hash db (fr_version_id r) = Inr v"
    and ports: "\<forall>sn \<in> set (storage_nodes db). 0 \<le> n_port sn \<and> n_port sn \<le> 65535"
    and complete: "complete_layouts db (multi_node_restorable_chunk db) (av_root_object_id v) \<noteq> []"
    and nodes: "storage_nodes db = storage_nodes sample_upload_db"
    and empty: "replication_runs db = []" "replication_run_nodes db = []" "gc_runs db = []"
    and layouts: "\<forall>ol \<in> set (object_layouts db). l_layout_id ol = ld_layout_id sample_descriptor"
      "load_object_layout sample_hash db (ld_layout_id sample_descriptor) = Inr (Some sample_descriptor)"
  have active: "active_node_ids db = [''node-a'']"
    by (simp add: active_node_ids_def nodes sample_node_ok)
  note version = v [unfolded load_restorable_version_ok]
  obtain lid where lid: "select_layout db (multi_node_restorable_chunk db) (av_root_object_id v) = Some lid"
    using complete select_layout_None [of db "multi_node_restorable_chunk db" "av_root_object_id v"] by blast
  have has: "has_version db (fr_version_id r)" "has_layout db lid"
    using loaded_version [of sample_hash db "fr_version_id r" v] version select_layout_Some(1) [OF lid] complete_layout_member
    by (fastforce simp: has_version_def has_layout_def)+
  have none: "load_replication_run db sample_uuid = Inr None"
    by (simp add: load_replication_run_def replication_run_rows_def empty query01_def)
  have none_open: "\<not> gc_in_progress db" "\<not> replication_in_progress db"
    by (simp_all add: gc_in_progress_def replication_in_progress_def empty)
  obtain db1 where db1: "insert_replication_run db sample_uuid (fr_version_id r) lid 1 = Inr db1"
    and db1': "replication_runs db1 = [\<lparr>rr_run_id = sample_uuid, rr_version_id = fr_version_id r, rr_layout_id = lid,
        rr_replication_factor = 1, rr_state = ReplOpen, rr_chunks_scanned = 0, rr_chunks_under_replicated = 0,
        rr_replicas_verified = 0, rr_replicas_written = 0, rr_bytes_copied = 0, rr_source_failovers = 0\<rparr>]"
      "replication_run_nodes db1 = []"
    using has none_open by (simp add: insert_replication_run_def replication_run_rows_def empty)
  obtain db2 where db2: "insert_replication_run_nodes db1 sample_uuid (active_node_ids db) = Inr db2"
    and db2': "replication_runs db2 = replication_runs db1"
    by (simp add: insert_replication_run_nodes_def active insert_rank_row_def db1')
  have "\<exists>run. load_replication_run db2 sample_uuid = Inr (Some run)"
    by (simp add: load_replication_run_def replication_run_rows_def db2' db1' query01_def uuid_v7_sample
        reconstruct_replication_run_from_row_def require_non_negative_def)
  then obtain run where run: "load_replication_run db2 sample_uuid = Inr (Some run)" by blast
  have "start_replication_run sample_hash db sample_uuid (fr_version_id r) 1 = Inr (db2, run)"
    using version by (simp add: start_replication_run_def id none none_open create_replication_run_def lid active
        db1 db2 [unfolded active] run)
  then show thesis using that none fin nodes empty(2,3) layouts ports active by blast
qed

text \<open>Everything the witnesses need about the started run: it is fully replicated already.\<close>

lemma sample_started:
  obtains db r db' run ps where "load_replication_run db sample_uuid = Inr None"
    and "start_replication_run sample_hash db sample_uuid (fr_version_id r) 1 = Inr (db', run)"
    and "finalize_upload sample_hash sample_upload_db 0 sample_uuid sample_descriptor = Inr (db, r)"
    and "load_replication_run db' sample_uuid = Inr (Some run)" and "rpr_state run = ReplOpen"
    and "load_object_layout sample_hash db' (rpr_layout_id run) = Inr (Some sample_descriptor)"
    and "map_res (plan_chunk sample_hash db' run) [sample_chunk_ref] = Inr ps" and "\<forall>p \<in> set ps. good_chunk_plan db 1 p"
    and "check_replicated_chunk sample_hash db' run sample_chunk_ref = Inr ()"
    and "\<not> gc_in_progress db'" and "active_node_ids db = [''node-a'']"
    and "storage_locations db' = storage_locations sample_upload_db"
    and "storage_nodes db = storage_nodes sample_upload_db" and "replication_run_nodes db = []"
    and "\<forall>ol \<in> set (object_layouts db). \<exists>d. load_object_layout sample_hash db (l_layout_id ol) = Inr (Some d)"
proof (rule sample_start)
  fix db r db' run
  assume none: "load_replication_run db sample_uuid = Inr None"
    and start: "start_replication_run sample_hash db sample_uuid (fr_version_id r) 1 = Inr (db', run)"
    and fin: "finalize_upload sample_hash sample_upload_db 0 sample_uuid sample_descriptor = Inr (db, r)"
    and nodes: "storage_nodes db = storage_nodes sample_upload_db" and empty: "replication_run_nodes db = []" "gc_runs db = []"
    and only: "\<forall>ol \<in> set (object_layouts db). l_layout_id ol = ld_layout_id sample_descriptor"
    and loads: "load_object_layout sample_hash db (ld_layout_id sample_descriptor) = Inr (Some sample_descriptor)"
    and ports: "\<forall>sn \<in> set (storage_nodes db). 0 \<le> n_port sn \<and> n_port sn \<le> 65535"
    and active: "active_node_ids db = [''node-a'']"
  note table = sample_node_ok [folded nodes]
  have all: "\<forall>ol \<in> set (object_layouts db). \<exists>d. load_object_layout sample_hash db (l_layout_id ol) = Inr (Some d)"
    using only loads by simp
  have ranks: "\<forall>r \<in> set (replication_run_nodes db). r_owner r \<noteq> sample_uuid" by (simp add: empty)
  obtain d ps where run: "load_replication_run db' sample_uuid = Inr (Some run)" "rpr_state run = ReplOpen"
      "rpr_placement_node_ids run = active_node_ids db" "unat (rpr_replication_factor run) = unat (1 :: u8)"
    and d: "load_object_layout sample_hash db (rpr_layout_id run) = Inr (Some d)"
      "load_object_layout sample_hash db' (rpr_layout_id run) = Inr (Some d)"
    and ps: "map_res (plan_chunk sample_hash db' run) (ol_chunks (ld_layout d)) = Inr ps"
      "\<forall>p \<in> set ps. good_chunk_plan db (unat (1 :: u8)) p"
    using started_run_chunks [OF sha_length_sample_hash none start table(1,2) ports ranks all] by blast
  have "rpr_layout_id run = ld_layout_id sample_descriptor"
    using loaded_layout(2,4) [OF d(1)] only by metis
  then have d_eq: "d = sample_descriptor" using d(1) loads by simp
  have "finalize_upload sample_hash sample_upload_db 0 sample_uuid sample_descriptor = Inr (db, r)" by (fact fin)
  then have "storage_locations db = storage_locations sample_upload_db"
    using finalized_version_loads(4) [OF sample_session_nodes(4) load_sample_session sample_session_nodes(5)] by blast
  moreover have same: "storage_locations db' = storage_locations db" "gc_runs db' = gc_runs db"
    by (rule started_run_steps [OF start none], simp)+
  ultimately have locations: "storage_locations db' = storage_locations sample_upload_db" by simp
  have "check_replicated_chunk sample_hash db' run sample_chunk_ref = Inr ()"
    unfolding check_replicated_chunk_ok run(3,4) active locations
    using select_node_a by (simp add: sample_chunk_ref_def sample_upload_db_def)
  moreover have "\<not> gc_in_progress db'" by (simp add: gc_in_progress_def same empty)
  ultimately show thesis
    using that [OF none start fin run(1,2)] d(2) ps active locations nodes empty(1) all
    by (simp add: d_eq sample_descriptor_fields)
qed

definition zero_replication_stats :: replication_stats where
  "zero_replication_stats = \<lparr>rst_chunks_scanned = 0, rst_chunks_under_replicated = 0, rst_replicas_verified = 0,
     rst_replicas_written = 0, rst_bytes_copied = 0, rst_source_failovers = 0\<rparr>"

lemma zero_stats_fit: "stats_fit zero_replication_stats"
  by (simp add: stats_fit_def zero_replication_stats_def)

theorem completed_replication_is_full_witness:
  "\<exists>db run db' run'. load_replication_run db sample_uuid = Inr (Some run) \<and> rpr_state run = ReplOpen \<and>
     complete_replication_run sample_hash db sample_uuid zero_replication_stats = Inr (db', run') \<and>
     rpr_state run' = ReplCompleted \<and>
     complete_replication_run sample_hash db' sample_uuid zero_replication_stats = Inr (db', run')"
proof (rule sample_started)
  fix db' run
  assume run: "load_replication_run db' sample_uuid = Inr (Some run)" "rpr_state run = ReplOpen"
    and d: "load_object_layout sample_hash db' (rpr_layout_id run) = Inr (Some sample_descriptor)"
    and replicas: "check_replicated_chunk sample_hash db' run sample_chunk_ref = Inr ()" and gc: "\<not> gc_in_progress db'"
  have "\<forall>c \<in> set (ol_chunks (ld_layout sample_descriptor)). check_replicated_chunk sample_hash db' run c = Inr ()"
    using replicas by (simp add: sample_descriptor_fields)
  then obtain db2 run2 where complete:
      "complete_replication_run sample_hash db' sample_uuid zero_replication_stats = Inr (db2, run2)"
    using replicated_run_completes [OF run d _ gc zero_stats_fit] by blast
  from completed_replication_is_full [OF run complete, of zero_replication_stats]
  show ?thesis using run complete
    by (intro exI [of _ db'] exI [of _ run] exI [of _ db2] exI [of _ run2]) simp
qed

theorem replication_plan_suffices_witness:
  "\<exists>db plan db' run. get_replication_plan sample_hash db sample_uuid = Inr plan \<and> rpp_chunks plan \<noteq> [] \<and>
     complete_replication_run sample_hash db sample_uuid zero_replication_stats = Inr (db', run) \<and>
     rpr_state run = ReplCompleted"
proof (rule sample_started)
  fix db db' run ps
  assume run: "load_replication_run db' sample_uuid = Inr (Some run)" "rpr_state run = ReplOpen"
    and d: "load_object_layout sample_hash db' (rpr_layout_id run) = Inr (Some sample_descriptor)"
    and ps: "map_res (plan_chunk sample_hash db' run) [sample_chunk_ref] = Inr ps" "\<forall>p \<in> set ps. good_chunk_plan db 1 p"
    and gc: "\<not> gc_in_progress db'" and active: "active_node_ids db = [''node-a'']"
    and locations: "storage_locations db' = storage_locations sample_upload_db"
  have "\<exists>plan. get_replication_plan sample_hash db' sample_uuid = Inr plan \<and> rpp_chunks plan = ps"
    using ps(1) by (simp add: get_replication_plan_def run d sample_descriptor_fields)
  then obtain plan where plan: "get_replication_plan sample_hash db' sample_uuid = Inr plan" "rpp_chunks plan = ps" by blast
  obtain p where p: "ps = [p]" "plan_chunk sample_hash db' run sample_chunk_ref = Inr p"
    using ps(1) by (auto simp: rbind_eq_Inr)
  have "rne_node_id ` set (rcp_target_nodes p) \<subseteq> {''node-a''}"
    using ps(2) by (simp add: p(1) good_chunk_plan_def active)
  then have "\<forall>p \<in> set (rpp_chunks plan). \<forall>t \<in> set (rcp_target_nodes p). map sl_state
      (filter (\<lambda>l. sl_chunk_id l = rcp_chunk_id p \<and> sl_node_id l = rne_node_id t) (storage_locations db')) = [Available]"
    using plan_chunk_ok(1) [OF p(2)] by (auto simp: plan(2) p(1) locations sample_upload_db_def sample_chunk_ref_def)
  from replication_plan_suffices [OF plan(1) gc zero_stats_fit this]
  have "\<exists>db2 run2. complete_replication_run sample_hash db' sample_uuid zero_replication_stats = Inr (db2, run2) \<and>
      rpr_state run2 = ReplCompleted" by auto
  moreover have "rpp_chunks plan \<noteq> []" by (simp add: plan(2) p(1))
  ultimately show ?thesis using plan(1) by blast
qed

theorem replication_run_excludes_other_runs_witness:
  "\<exists>db vid db' run. start_replication_run sample_hash db sample_uuid vid 1 = Inr (db', run) \<and>
     rpr_state run = ReplOpen \<and> \<not> gc_in_progress db"
proof (rule sample_started)
  fix db r db' run
  assume none: "load_replication_run db sample_uuid = Inr None"
    and start: "start_replication_run sample_hash db sample_uuid (fr_version_id r) 1 = Inr (db', run)"
  from replication_run_excludes_other_runs [OF none start] show ?thesis using start by blast
qed

theorem started_run_has_plan_witness:
  "\<exists>db vid db' run plan. start_replication_run sample_hash db sample_uuid vid 1 = Inr (db', run) \<and>
     get_replication_plan sample_hash db' sample_uuid = Inr plan \<and> rpp_placement_node_ids plan = [''node-a'']"
proof (rule sample_started)
  fix db r db' run
  assume none: "load_replication_run db sample_uuid = Inr None"
    and start: "start_replication_run sample_hash db sample_uuid (fr_version_id r) 1 = Inr (db', run)"
    and active: "active_node_ids db = [''node-a'']" and nodes: "storage_nodes db = storage_nodes sample_upload_db"
    and empty: "replication_run_nodes db = []"
    and all: "\<forall>ol \<in> set (object_layouts db). \<exists>d. load_object_layout sample_hash db (l_layout_id ol) = Inr (Some d)"
  have ports: "\<forall>sn \<in> set (storage_nodes db). 0 \<le> n_port sn \<and> n_port sn \<le> 65535"
    using sample_session_nodes(2) by (simp add: nodes)
  have ranks: "\<forall>r \<in> set (replication_run_nodes db). r_owner r \<noteq> sample_uuid" by (simp add: empty)
  from started_run_has_plan [OF sha_length_sample_hash none start sample_node_ok(1,2) [folded nodes] ports ranks all]
  show ?thesis using start active by auto
qed

end
