(* ===== verification/Repository.thy ===== *)
theory Repository
  imports Repo_Replication
begin

section \<open>The repository as a state machine\<close>

text \<open>
  The requests the metadata service passes to the repository and that change it, as steps on the database. A refused
  request (an \<open>Inl\<close>) rolls back and is no step. Garbage collection is the writer of the catalog; upload
  sessions and replication runs are its readers. Every lock is a row: an open run, an open session. This
  theory shows that the checks of the operations implement that lock, and what the collector may rely on
  while it holds it.
\<close>

subsection \<open>Steps\<close>

inductive repo_step :: "hash \<Rightarrow> (string \<Rightarrow> bool) \<Rightarrow> database \<Rightarrow> database \<Rightarrow> bool" for H is_ip where
  start_gc: "start_gc_run db gc_request = Inr (db', gc) \<Longrightarrow> repo_step H is_ip db db'"
| complete_gc: "complete_gc_run db rid physical_stats = Inr (db', gc) \<Longrightarrow> repo_step H is_ip db db'"
| create_session: "create_upload_session db session = Inr db' \<Longrightarrow> repo_step H is_ip db db'"
| abort_session: "abort_upload_session db sid = Inr db' \<Longrightarrow> repo_step H is_ip db db'"
| finalize_session: "finalize_upload H db now sid d = Inr (db', r) \<Longrightarrow> repo_step H is_ip db db'"
| negotiate: "negotiate_chunks db metadata = Inr (db', batch) \<Longrightarrow> repo_step H is_ip db db'"
| register_location: "register_storage_location db location = Inr db' \<Longrightarrow> repo_step H is_ip db db'"
| register_node: "register_storage_node is_ip db node = Inr db' \<Longrightarrow> repo_step H is_ip db db'"
| start_replication: "start_replication_run H db rid vid rf = Inr (db', run) \<Longrightarrow> repo_step H is_ip db db'"
| complete_replication: "complete_replication_run H db rid stats = Inr (db', run) \<Longrightarrow> repo_step H is_ip db db'"
| register_policy: "register_lifecycle_policy db policy = Inr db' \<Longrightarrow> repo_step H is_ip db db'"
| pin: "pin_version H db vid reason = Inr db' \<Longrightarrow> repo_step H is_ip db db'"
| unpin: "unpin_version db vid = Inr (db', removed) \<Longrightarrow> repo_step H is_ip db db'"
| lifecycle: "run_lifecycle db now rid pid mode = Inr (db', lrun) \<Longrightarrow> repo_step H is_ip db db'"

subsection \<open>What a step does to the lock and to the catalog\<close>

text \<open>The tables that hold the lock, and the tables liveness depends on.\<close>

definition same_locks :: "database \<Rightarrow> database \<Rightarrow> bool" where
  "same_locks db db' \<longleftrightarrow> gc_runs db' = gc_runs db \<and> replication_runs db' = replication_runs db \<and>
     upload_sessions db' = upload_sessions db"

definition same_catalog :: "database \<Rightarrow> database \<Rightarrow> bool" where
  "same_catalog db db' \<longleftrightarrow> object_layouts db' = object_layouts db \<and>
     object_layout_chunks db' = object_layout_chunks db \<and> artifact_versions db' = artifact_versions db \<and>
     artifact_version_retirements db' = artifact_version_retirements db \<and>
     upload_session_finalizations db' = upload_session_finalizations db"

definition close_gc_row :: "string \<Rightarrow> gc_run_row \<Rightarrow> gc_run_row \<Rightarrow> bool" where
  "close_gc_row rid g g' \<longleftrightarrow> g_run_id g' = g_run_id g \<and>
     g_state g' = (if g_run_id g = rid then GcCompleted else g_state g)"

definition close_replication_row :: "string \<Rightarrow> replication_run_row \<Rightarrow> replication_run_row \<Rightarrow> bool" where
  "close_replication_row rid r r' \<longleftrightarrow> rr_run_id r' = rr_run_id r \<and>
     rr_state r' = (if rr_run_id r = rid then ReplCompleted else rr_state r)"

definition close_session_row :: "string \<Rightarrow> session_row \<Rightarrow> session_row \<Rightarrow> bool" where
  "close_session_row sid s s' \<longleftrightarrow> s_session_id s' = s_session_id s \<and>
     (if s_session_id s = sid then s_state s' \<noteq> SessionOpen else s_state s' = s_state s)"

inductive step_effect :: "database \<Rightarrow> database \<Rightarrow> bool" where
  quiet: "same_locks db db' \<Longrightarrow> same_catalog db db' \<Longrightarrow> step_effect db db'"
| gc_opened:
    "\<not> gc_in_progress db \<Longrightarrow> \<not> replication_in_progress db \<Longrightarrow> \<not> open_upload_sessions_present db \<Longrightarrow>
     gc_run_rows db (g_run_id row) = [] \<Longrightarrow> g_state row = GcOpen \<Longrightarrow>
     same_locks (db\<lparr>gc_runs := gc_runs db @ [row]\<rparr>) db' \<Longrightarrow> same_catalog db db' \<Longrightarrow> step_effect db db'"
| gc_closed:
    "gc_run_rows db rid = row # rest \<Longrightarrow> g_state row = GcOpen \<Longrightarrow> \<not> open_upload_sessions_present db \<Longrightarrow>
     list_all2 (close_gc_row rid) (gc_runs db) rows \<Longrightarrow> same_locks (db\<lparr>gc_runs := rows\<rparr>) db' \<Longrightarrow>
     same_catalog db db' \<or> same_catalog (swept db node) db' \<Longrightarrow> step_effect db db'"
| session_opened:
    "\<not> gc_in_progress db \<Longrightarrow> session_rows db (s_session_id s) = [] \<Longrightarrow> s_state s = SessionOpen \<Longrightarrow>
     same_locks (db\<lparr>upload_sessions := upload_sessions db @ [s]\<rparr>) db' \<Longrightarrow> same_catalog db db' \<Longrightarrow> step_effect db db'"
| session_closed:
    "session_rows db sid = [s] \<Longrightarrow> s_state s = SessionOpen \<Longrightarrow>
     list_all2 (close_session_row sid) (upload_sessions db) ss \<Longrightarrow>
     same_locks (db\<lparr>upload_sessions := ss\<rparr>) db' \<Longrightarrow>
     (layout_ids_distinct db \<longrightarrow> layout_ids_distinct db') \<Longrightarrow>
     artifact_version_retirements db' = artifact_version_retirements db \<Longrightarrow> step_effect db db'"
| replication_opened:
    "\<not> gc_in_progress db \<Longrightarrow> \<not> replication_in_progress db \<Longrightarrow> replication_run_rows db (rr_run_id row) = [] \<Longrightarrow>
     rr_state row = ReplOpen \<Longrightarrow> same_locks (db\<lparr>replication_runs := replication_runs db @ [row]\<rparr>) db' \<Longrightarrow>
     same_catalog db db' \<Longrightarrow> step_effect db db'"
| replication_closed:
    "replication_run_rows db rid = row # rest \<Longrightarrow> rr_state row = ReplOpen \<Longrightarrow>
     list_all2 (close_replication_row rid) (replication_runs db) rows \<Longrightarrow>
     same_locks (db\<lparr>replication_runs := rows\<rparr>) db' \<Longrightarrow> same_catalog db db' \<Longrightarrow> step_effect db db'"
| versions_retired:
    "\<not> gc_in_progress db \<Longrightarrow> same_locks db db' \<Longrightarrow>
     same_catalog (db\<lparr>artifact_version_retirements := artifact_version_retirements db @ rets\<rparr>) db' \<Longrightarrow> step_effect db db'"

lemma quiet_refl: "step_effect db db"
  by (rule quiet) (simp_all add: same_locks_def same_catalog_def)

lemmas same_defs = same_locks_def same_catalog_def

subsection \<open>Garbage-collection runs\<close>

lemma map_res_list_all2:
  assumes "\<And>x y. f x = Inr y \<Longrightarrow> R x y"
  shows "map_res f xs = Inr ys \<Longrightarrow> list_all2 R xs ys"
  by (induction xs arbitrary: ys) (auto simp: rbind_eq_Inr assms)

lemma insert_gc_run_ok:
  assumes "insert_gc_run db req = Inr db'"
  obtains row where "gc_run_rows db (g_run_id row) = []" and "g_state row = gr_state req"
    and "db' = db\<lparr>gc_runs := gc_runs db @ [row]\<rparr>"
  using assms unfolding insert_gc_run_def run_simps by (elim conjE) (erule that [OF _ _ sym, rotated 2], simp_all)

lemma start_gc_effect:
  assumes "start_gc_run db req = Inr (db', gc)"
  shows "step_effect db db'"
proof -
  from assms obtain existing where validated: "validate_gc_run_start_request req = Inr ()"
    and existing: "load_gc_run db (gr_run_id req) = Inr existing"
    unfolding start_gc_run_def run_simps by (elim exE conjE) simp
  show ?thesis
  proof (cases existing)
    case (Some run)
    with assms existing validated have "db' = db" by (auto simp: start_gc_run_def split: if_splits)
    then show ?thesis by (simp add: quiet_refl)
  next
    case None
    have steps: "\<not> gc_in_progress db \<and> \<not> replication_in_progress db \<and> ensure_no_open_upload_sessions db = Inr () \<and>
        insert_gc_run db req = Inr db'"
      using assms unfolding start_gc_run_def existing None validated rbind_simps option.case run_simps prod.inject
      by (elim exE conjE) (hypsubst, simp)
    then have sessions: "\<not> open_upload_sessions_present db"
      by (simp add: ensure_no_open_upload_sessions_def split: if_splits)
    have "gr_state req = GcOpen" using validated by (simp add: validate_gc_run_start_request_def split: if_splits)
    moreover obtain row where "gc_run_rows db (g_run_id row) = []" "g_state row = gr_state req"
      "db' = db\<lparr>gc_runs := gc_runs db @ [row]\<rparr>"
      by (rule insert_gc_run_ok [OF steps [THEN conjunct2, THEN conjunct2, THEN conjunct2]])
    ultimately show ?thesis using steps sessions by (intro gc_opened) (simp_all add: same_defs)
  qed
qed

lemma complete_gc_effect:
  assumes "complete_gc_run db rid stats = Inr (db', gc)"
  shows "step_effect db db'"
proof -
  obtain row rest where rows: "gc_run_rows db rid = row # rest"
    using assms unfolding complete_gc_run_def by (cases "gc_run_rows db rid") simp_all
  obtain stored where stored: "reconstruct_gc_run_from_row row = Inr stored"
    using assms unfolding complete_gc_run_def rows list.case rbind_eq_Inr by blast
  note run = assms [unfolded complete_gc_run_def rows list.case stored rbind_simps]
  show ?thesis
  proof (cases "gr_state stored = GcCompleted")
    case True
    with run show ?thesis by (simp add: quiet_refl)
  next
    case False
    then have "g_state row = GcOpen"
      using reconstruct_gc_run_state [OF stored] by (cases "g_state row") simp_all
    have "\<exists>d ms. ensure_no_open_upload_sessions db = Inr () \<and>
        (if gr_mode stored = GcDryRun
         then Inr (db, count_gc_metadata_sweep_candidates db (gr_target_node_id stored))
         else sweep_gc_metadata db (gr_target_node_id stored)) = Inr (d, ms) \<and>
        update_gc_run d rid stats ms = Inr db'"
      using run unfolding if_not_P [OF False] run_simps prod.inject
      by (elim exE conjE) (hypsubst, intro exI conjI, simp_all)
    then obtain d ms where sessions: "\<not> open_upload_sessions_present db"
      and d: "(if gr_mode stored = GcDryRun
         then Inr (db, count_gc_metadata_sweep_candidates db (gr_target_node_id stored))
         else sweep_gc_metadata db (gr_target_node_id stored)) = Inr (d, ms)"
      and upd: "update_gc_run d rid stats ms = Inr db'"
      by (auto simp: ensure_no_open_upload_sessions_def split: if_splits)
    have swept: "d = db \<or> d = swept db (gr_target_node_id stored)"
      using d by (auto split: if_splits dest: sweep_ok(1))
    obtain rows' where map: "map_res (\<lambda>g. if g_run_id g = rid then complete_gc_row stats ms g else Inr g)
        (gc_runs d) = Inr rows'" and db': "db' = d\<lparr>gc_runs := rows'\<rparr>"
      using upd unfolding update_gc_run_def run_simps by blast
    have locks: "gc_runs d = gc_runs db" "replication_runs d = replication_runs db" "upload_sessions d = upload_sessions db"
      using swept by (auto simp: swept_fields)
    have "list_all2 (close_gc_row rid) (gc_runs db) rows'"
      using map unfolding locks
      by (rule map_res_list_all2 [rotated]) (auto simp: close_gc_row_def dest: complete_gc_row_state split: if_splits)
    with rows \<open>g_state row = GcOpen\<close> sessions show ?thesis
      by (rule gc_closed) (use swept locks in \<open>auto simp: db' same_defs\<close>)
  qed
qed

subsection \<open>Upload sessions\<close>

lemma load_session_frame:
  "upload_sessions db' = upload_sessions db \<Longrightarrow> session_rows db' sid = session_rows db sid"
  by (simp add: session_rows_def)

lemma insert_session_row_ok:
  "insert_session_row db row = Inr db' \<Longrightarrow>
   session_rows db (s_session_id row) = [] \<and> db' = db\<lparr>upload_sessions := upload_sessions db @ [row]\<rparr>"
  by (auto simp: insert_session_row_def split: if_splits)

lemma insert_upload_session_row:
  assumes "insert_upload_session db session = Inr db'"
  obtains row where "session_rows db (s_session_id row) = []" and "s_state row = us_state session"
    and "s_session_id row = us_session_id session"
    and "same_locks (db\<lparr>upload_sessions := upload_sessions db @ [row]\<rparr>) db'" and "same_catalog db db'"
proof -
  have "\<exists>row mid nodes metadata. insert_session_row db row = Inr mid \<and>
      s_state row = us_state session \<and> s_session_id row = us_session_id session \<and>
      db' = mid\<lparr>upload_session_nodes := nodes, upload_session_metadata := metadata\<rparr>"
    using assms unfolding insert_upload_session_def run_simps
    by (elim exE conjE) (intro exI conjI, assumption, simp, simp, erule sym)
  then obtain row mid nodes metadata where row: "s_state row = us_state session" "s_session_id row = us_session_id session"
      and ins: "insert_session_row db row = Inr mid"
      and db': "db' = mid\<lparr>upload_session_nodes := nodes, upload_session_metadata := metadata\<rparr>" by blast
  from insert_session_row_ok [OF ins] row show thesis by (intro that [of row]) (simp_all add: db' same_defs)
qed

lemma create_session_effect:
  assumes "create_upload_session db session = Inr db'"
  shows "step_effect db db'"
proof -
  from assms obtain existing where existing: "query01 (session_rows db (us_session_id session)) = Inr existing"
    and "open": "us_state session = SessionOpen" and gc: "\<not> gc_in_progress db"
    unfolding create_upload_session_def run_simps by (elim exE conjE) simp
  show ?thesis
  proof (cases existing)
    case (Some row)
    with assms existing have "db' = db"
      unfolding create_upload_session_def run_simps by (elim exE conjE) (auto simp: run_simps split: if_splits)
    then show ?thesis by (simp add: quiet_refl)
  next
    case None
    with assms existing have ins: "insert_upload_session db session = Inr db'"
      unfolding create_upload_session_def run_simps by (elim exE conjE) (auto simp: run_simps split: if_splits)
    obtain row where "session_rows db (s_session_id row) = []" "s_state row = us_state session"
      "same_locks (db\<lparr>upload_sessions := upload_sessions db @ [row]\<rparr>) db'" "same_catalog db db'"
      by (rule insert_upload_session_row [OF ins])
    with gc "open" show ?thesis by (intro session_opened) simp_all
  qed
qed

lemma abort_session_effect:
  assumes "abort_upload_session db sid = Inr db'"
  shows "step_effect db db'"
proof -
  from assms have "\<exists>st. query01 (map s_state (session_rows db sid)) = Inr (Some st) \<and>
      (if st = SessionOpen
         then Inr (db\<lparr>upload_sessions :=
                map (\<lambda>s. if s_session_id s = sid then s\<lparr>s_state := SessionAborted\<rparr> else s) (upload_sessions db)\<rparr>)
         else Inr db) = Inr db'"
    unfolding abort_upload_session_def run_simps by (elim exE conjE) (hypsubst, intro exI conjI, assumption, simp split: if_splits)
  then obtain st where one: "query01 (map s_state (session_rows db sid)) = Inr (Some st)"
    and eff: "(if st = SessionOpen
         then Inr (db\<lparr>upload_sessions :=
                map (\<lambda>s. if s_session_id s = sid then s\<lparr>s_state := SessionAborted\<rparr> else s) (upload_sessions db)\<rparr>)
         else Inr db) = Inr db'" by blast
  show ?thesis
  proof (cases "st = SessionOpen")
    case True
    from one obtain s where s: "session_rows db sid = [s]" "s_state s = st" by (auto simp: query01_Some)
    let ?ss = "map (\<lambda>s. if s_session_id s = sid then s\<lparr>s_state := SessionAborted\<rparr> else s) (upload_sessions db)"
    from True eff have db': "db' = db\<lparr>upload_sessions := ?ss\<rparr>" by simp
    have "list_all2 (close_session_row sid) (upload_sessions db) ?ss"
      by (simp add: list_all2_map2 list.rel_refl close_session_row_def)
    with s True show ?thesis
      by (intro session_closed [of db sid s ?ss]) (simp_all add: db' same_defs layout_ids_distinct_def)
  next
    case False
    with eff show ?thesis by (simp add: quiet_refl)
  qed
qed

lemma register_keeps_layout_ids:
  assumes "register_finalized_layout db d = Inr db'" and "layout_ids_distinct db"
  shows "layout_ids_distinct db'"
proof -
  let ?R = "\<lambda>s t. layout_ids_distinct s \<longrightarrow> layout_ids_distinct t"
  have relation: "fold_res f xs s = Inr t \<Longrightarrow> ?R s t" if "\<And>x s t. f x s = Inr t \<Longrightarrow> object_layouts t = object_layouts s"
    for f :: "'x \<Rightarrow> database \<Rightarrow> database res" and xs s t
    by (rule fold_res_relation [where R = ?R]) (auto simp: layout_ids_distinct_def dest: that)
  from assms obtain db0 where obj: "register_object_in_transaction db (ld_object d) = Inr db0"
    and layout: "register_object_layout_in_transaction db0 d = Inr db'"
    by (auto simp: register_finalized_layout_def rbind_eq_Inr split: sum.splits if_splits)
  obtain db1 db2 n row where
    1: "fold_res (\<lambda>chunk. ensure_chunk (cr_chunk_id chunk) (cr_size chunk)) (ol_chunks (ld_layout d)) db0 = Inr db1"
    and row: "layout_row_of d = Inr row"
    and 2: "insert_object_layout db1 row = Inr (db2, n)"
    and 3: "(if n = 1 then fold_res (insert_layout_chunk (ld_layout_id d))
            (zip [0..<length (ol_chunks (ld_layout d))] (ol_chunks (ld_layout d))) db2 else Inr db2) = Inr db'"
    by (rule register_layout_steps [OF layout])
  have "layout_ids_distinct db0"
    using obj assms(2)
    by (auto simp: register_object_in_transaction_def rbind_eq_Inr Let_def layout_ids_distinct_def split: if_splits)
  moreover have "object_layouts t = object_layouts s" if "ensure_chunk c m s = Inr t" for c m s t
    using ensure_chunk_adds [OF that] by (auto simp: adds_chunks_def)
  ultimately have "layout_ids_distinct db1" using relation [OF _ 1] by blast
  then have "layout_ids_distinct db2"
    using 2 by (force simp: insert_object_layout_def layout_ids_distinct_def has_layout_def split: if_splits)
  moreover have "fold_res (insert_layout_chunk (ld_layout_id d)) ics db2 = Inr db' \<Longrightarrow> ?R db2 db'" for ics
    by (rule relation) (auto simp: insert_layout_chunk_def rbind_eq_Inr split: if_splits)
  ultimately show ?thesis using 3 by (auto split: if_splits)
qed

lemma finalize_session_effect:
  assumes fin: "finalize_upload H db now sid d = Inr (db', r)"
  shows "step_effect db db'"
proof -
  have "\<exists>row session. query01 (session_rows db sid) = Inr (Some row) \<and> reconstruct_upload_session db row = Inr session \<and>
      us_state session \<noteq> SessionAborted"
    using fin unfolding finalize_upload_def run_simps by (elim exE conjE) (hypsubst, intro exI conjI, assumption+)
  then obtain row session where row: "session_rows db sid = [row]"
    and rec: "reconstruct_upload_session db row = Inr session" and na: "us_state session \<noteq> SessionAborted"
    by (auto simp: query01_Some)
  have state: "us_state session = s_state row" using reconstruct_metadata [OF rec] by simp
  show ?thesis
  proof (cases "us_state session = SessionOpen")
    case False
    with na have com: "us_state session = SessionCommitted" by (cases "us_state session") simp_all
    have "db' = db"
      using fin na unfolding finalize_upload_def row query01_single rbind_simps option.case rec com if_True run_simps
        prod.inject by (elim exE conjE) (auto simp: rbind_eq_Inr)
    then show ?thesis by (simp add: quiet_refl)
  next
    case True
    have session: "load_upload_session db sid = Inr session"
      by (simp add: load_upload_session_def row query01_single rec)
    obtain version uniq db1 db2 db3 where
      reg: "register_finalized_layout db d = Inr db1"
      and ver: "finalize_version db1 now version = Inr db2"
      and ins: "insert_finalization db2 sid (ld_layout_id d) = Inr db3"
      and com: "commit_session_row db3 sid (av_version_id version) = Inr db'"
      by (rule finalize_open_steps [OF fin session True])
    let ?ss = "map (\<lambda>s. if s_session_id s = sid
        then s\<lparr>s_state := SessionCommitted, s_finalized_version_id := Some (av_version_id version)\<rparr> else s)
          (upload_sessions db3)"
    have db': "db' = db3\<lparr>upload_sessions := ?ss\<rparr>"
      by (rule commit_session_row_ok [OF com]) blast
    note db3 = insert_finalization_ok [OF ins, THEN conjunct2]
    obtain vs ms where db2: "db2 = db1\<lparr>artifact_versions := vs, artifact_version_metadata := ms\<rparr>"
      using finalize_version_frame [OF ver] by blast
    have frame: "gc_runs db1 = gc_runs db" "replication_runs db1 = replication_runs db"
        "upload_sessions db1 = upload_sessions db"
        "artifact_version_retirements db1 = artifact_version_retirements db"
      using register_finalized_ok(1) [OF reg] by (auto simp: catalog_grows_def)
    have "list_all2 (close_session_row sid) (upload_sessions db) ?ss"
      by (simp add: list_all2_map2 list.rel_refl close_session_row_def db3 db2 frame)
    with row show ?thesis
      by (intro session_closed [of db sid row ?ss])
        (use True state register_keeps_layout_ids [OF reg] in
          \<open>auto simp: db' db3 db2 frame same_locks_def layout_ids_distinct_def\<close>)
  qed
qed

subsection \<open>The other requests\<close>

lemma adds_chunks_effect: "adds_chunks db db' \<Longrightarrow> step_effect db db'"
  by (rule quiet) (auto simp: adds_chunks_def same_defs)

lemma negotiate_effect:
  assumes "negotiate_chunks db metadata = Inr (db', batch)"
  shows "step_effect db db'"
proof -
  obtain ds seen where ds: "fold_res collect_distinct_chunk metadata ([], []) = Inr (ds, seen)"
    using assms unfolding negotiate_chunks_def run_simps by blast
  note run = assms [unfolded negotiate_chunks_def ds rbind_simps prod.case]
  show ?thesis
  proof (cases "ds = []")
    case True
    with run show ?thesis by (simp add: quiet_refl)
  next
    case False
    obtain flags where flags: "known_flags db ds [] = Inr flags"
      using run unfolding if_not_P [OF False] rbind_eq_Inr by blast
    note run = run [unfolded if_not_P [OF False] flags rbind_simps]
    show ?thesis
    proof (cases flags)
      case (Inl conflict)
      with run show ?thesis by (simp add: quiet_refl)
    next
      case (Inr known)
      obtain db1 late where
        fold: "fold_res (\<lambda>index db'.
                    if known ! index then Inr db'
                    else let chunk = ds ! index
                         in rbind (to_postgres_bigint (cm_size_bytes chunk)) (\<lambda>chunk_size.
                            insert_chunk db' (cm_chunk_id chunk) chunk_size)) [0..<length ds] db = Inr db1"
        and late: "recheck_sizes db1 ds = Inr late" and "db' = db \<or> db' = db1"
        using run unfolding Inr sum.case rbind_eq_Inr Let_def by (auto split: option.splits)
      have "adds_chunks db db1"
        by (rule fold_res_adds [OF _ fold])
          (auto simp: Let_def rbind_eq_Inr adds_chunks_refl insert_chunk_adds split: if_splits)
      with \<open>db' = db \<or> db' = db1\<close> show ?thesis by (auto simp: quiet_refl intro: adds_chunks_effect)
    qed
  qed
qed

lemma register_location_effect: "register_storage_location db location = Inr db' \<Longrightarrow> step_effect db db'"
  unfolding register_storage_location_def run_simps by (elim exE conjE) (hypsubst, rule quiet, simp_all add: same_defs)

lemma register_node_effect: "register_storage_node is_ip db node = Inr db' \<Longrightarrow> step_effect db db'"
  unfolding register_storage_node_def Let_def run_simps
  by (elim exE conjE) (hypsubst, rule quiet, simp_all add: same_defs)

lemma register_policy_effect:
  assumes "register_lifecycle_policy db policy = Inr db'"
  shows "step_effect db db'"
proof -
  obtain existing where existing: "load_lifecycle_policy db (lp_policy_id policy) = Inr existing"
    using assms unfolding register_lifecycle_policy_def rbind_eq_Inr by blast
  have "same_locks db db' \<and> same_catalog db db'"
  proof (cases existing)
    case None
    show ?thesis
      using assms unfolding register_lifecycle_policy_def existing None rbind_simps option.case run_simps
      by (elim exE conjE) (hypsubst, simp add: same_defs)
  next
    case (Some old)
    with assms existing have "db' = db" by (simp add: register_lifecycle_policy_def rbind_eq_Inr split: if_splits)
    then show ?thesis by (simp add: same_defs)
  qed
  then show ?thesis by (simp add: quiet)
qed

lemma pin_effect: "pin_version H db vid reason = Inr db' \<Longrightarrow> step_effect db db'"
  unfolding pin_version_def run_simps
  by (elim exE conjE) (rule quiet, auto simp: same_defs split: if_splits)

lemma unpin_effect: "unpin_version db vid = Inr (db', removed) \<Longrightarrow> step_effect db db'"
  unfolding unpin_version_def Let_def run_simps prod.inject
  by (elim exE conjE) (hypsubst, rule quiet, simp_all add: same_defs)

subsection \<open>Replication and lifecycle runs\<close>

lemma fresh_replication_rows:
  assumes "load_replication_run db rid = Inr None"
  shows "replication_run_rows db rid = []"
proof -
  obtain stored where stored: "query01 (replication_run_rows db rid) = Inr stored"
    using assms unfolding load_replication_run_def rbind_eq_Inr by blast
  with assms have "stored = None" unfolding load_replication_run_def by (cases stored) (simp_all add: rbind_eq_Inr)
  with stored show ?thesis by (simp add: query01_None)
qed

lemma start_replication_effect:
  assumes "start_replication_run H db rid vid rf = Inr (db', run)"
  shows "step_effect db db'"
proof -
  have "\<exists>existing. load_replication_run db rid = Inr existing"
    using assms unfolding start_replication_run_def rbind_eq_Inr if_Inl_eq_Inr by (elim exE conjE) (rule exI)
  then obtain existing where existing: "load_replication_run db rid = Inr existing" ..
  show ?thesis
  proof (cases existing)
    case (Some old)
    have "db' = db"
      using assms unfolding start_replication_run_def existing Some rbind_simps option.case run_simps prod.inject
      by (elim exE conjE) (simp split: if_splits)
    then show ?thesis by (simp add: quiet_refl)
  next
    case None
    with existing have fresh: "load_replication_run db rid = Inr None" by simp
    have rows: "replication_run_rows db rid = []" by (rule fresh_replication_rows [OF fresh])
    obtain v :: artifact_version and lid and row :: replication_run_row and rank_rows
    where "\<not> gc_in_progress db" "\<not> replication_in_progress db"
      and row: "row = \<lparr>rr_run_id = rid, rr_version_id = vid, rr_layout_id = lid, rr_replication_factor = uint rf,
      rr_state = ReplOpen, rr_chunks_scanned = 0, rr_chunks_under_replicated = 0, rr_replicas_verified = 0,
      rr_replicas_written = 0, rr_bytes_copied = 0, rr_source_failovers = 0\<rparr>"
      and "db' = db\<lparr>replication_runs := replication_runs db @ [row], replication_run_nodes := rank_rows\<rparr>"
      by (rule started_run_steps [OF assms fresh])
    with rows show ?thesis by (intro replication_opened [of db row]) (simp_all add: same_defs row)
  qed
qed

lemma complete_replication_row_state:
  "complete_replication_row stats r = Inr r' \<Longrightarrow> rr_run_id r' = rr_run_id r \<and> rr_state r' = ReplCompleted"
  unfolding complete_replication_row_def run_simps by (elim exE conjE) (hypsubst, simp)

lemma complete_replication_effect:
  assumes "complete_replication_run H db rid stats = Inr (db', run)"
  shows "step_effect db db'"
proof -
  obtain row rest where rows: "replication_run_rows db rid = row # rest"
    using assms unfolding complete_replication_run_def by (cases "replication_run_rows db rid") simp_all
  obtain stored where stored: "reconstruct_replication_run_from_row row
      (load_replication_run_placement_nodes db rid) = Inr stored"
    using assms unfolding complete_replication_run_def rows list.case rbind_eq_Inr by blast
  show ?thesis
  proof (cases "rpr_state stored = ReplCompleted")
    case True
    with assms have "db' = db" unfolding complete_replication_run_def rows list.case stored rbind_simps by simp
    then show ?thesis by (simp add: quiet_refl)
  next
    case False
    then have "open": "rpr_state stored = ReplOpen" by (cases "rpr_state stored") simp_all
    then have "rr_state row = ReplOpen" using reconstruct_replication_fields [OF stored] by simp
    have upd: "update_replication_run db rid stats = Inr db'"
      by (rule complete_open_run_steps [OF assms rows stored "open"])
    obtain rows' where map: "map_res (\<lambda>r. if rr_run_id r = rid then complete_replication_row stats r else Inr r)
        (replication_runs db) = Inr rows'" and db': "db' = db\<lparr>replication_runs := rows'\<rparr>"
      using upd unfolding update_replication_run_def run_simps by blast
    have "list_all2 (close_replication_row rid) (replication_runs db) rows'"
      using map by (rule map_res_list_all2 [rotated])
        (auto simp: close_replication_row_def dest: complete_replication_row_state split: if_splits)
    with rows \<open>rr_state row = ReplOpen\<close> show ?thesis
      by (rule replication_closed) (simp_all add: db' same_defs)
  qed
qed

lemma lifecycle_effect:
  assumes "run_lifecycle db now rid pid mode = Inr (db', lrun)"
  shows "step_effect db db'"
proof -
  from assms obtain existing where existing: "load_lifecycle_run db rid = Inr existing"
    unfolding run_lifecycle_def rbind_eq_Inr by blast
  show ?thesis
  proof (cases existing)
    case (Some old)
    with assms existing have "db' = db" by (auto simp: run_lifecycle_def split: if_splits)
    then show ?thesis by (simp add: quiet_refl)
  next
    case None
    with existing have fresh: "load_lifecycle_run db rid = Inr None" by simp
    obtain ds where persist: "persist_lifecycle_run db rid pid mode now ds = Inr db'" and "\<not> gc_in_progress db"
      by (rule new_lifecycle_run_steps [OF assms fresh])
    obtain row where "db' = db\<lparr>lifecycle_runs := lifecycle_runs db @ [row],
      artifact_version_retirements := artifact_version_retirements db @
        map (retirement_row_of rid) (retirements_to_persist mode ds),
      lifecycle_run_decisions := lifecycle_run_decisions db @ map (decision_row_of rid) ds\<rparr>"
      by (rule persist_lifecycle_run_ok [OF persist])
    then have "same_locks db db'"
      "same_catalog (db\<lparr>artifact_version_retirements := artifact_version_retirements db @
        map (retirement_row_of rid) (retirements_to_persist mode ds)\<rparr>) db'"
      by (simp_all add: same_defs)
    then show ?thesis by (rule versions_retired [OF \<open>\<not> gc_in_progress db\<close>])
  qed
qed

text \<open>Every step has one of the effects.\<close>

lemma repo_step_effect: "repo_step H is_ip db db' \<Longrightarrow> step_effect db db'"
  by (induction rule: repo_step.induct)
    (fact start_gc_effect complete_gc_effect create_session_effect abort_session_effect finalize_session_effect
      negotiate_effect register_location_effect register_node_effect start_replication_effect
      complete_replication_effect register_policy_effect pin_effect unpin_effect lifecycle_effect)+

subsection \<open>The lock and its specification\<close>

definition open_gc_count :: "database \<Rightarrow> nat" where
  "open_gc_count db = length (filter (\<lambda>g. g_state g = GcOpen) (gc_runs db))"

definition open_replication_count :: "database \<Rightarrow> nat" where
  "open_replication_count db = length (filter (\<lambda>r. rr_state r = ReplOpen) (replication_runs db))"

definition open_session_count :: "database \<Rightarrow> nat" where
  "open_session_count db = length (filter (\<lambda>s. s_state s = SessionOpen) (upload_sessions db))"

lemma progress_counts:
  "gc_in_progress db \<longleftrightarrow> open_gc_count db \<noteq> 0"
  "replication_in_progress db \<longleftrightarrow> open_replication_count db \<noteq> 0"
  "open_upload_sessions_present db \<longleftrightarrow> open_session_count db \<noteq> 0"
  by (auto simp: gc_in_progress_def open_gc_count_def replication_in_progress_def open_replication_count_def
      open_upload_sessions_present_def open_session_count_def filter_empty_conv)

text \<open>At most one run of each kind, none of them beside the other, no session beside a collection.\<close>

definition repo_ok :: "database \<Rightarrow> bool" where
  "repo_ok db \<longleftrightarrow> open_gc_count db \<le> 1 \<and> open_replication_count db \<le> 1 \<and>
     (gc_in_progress db \<longrightarrow> \<not> replication_in_progress db \<and> \<not> open_upload_sessions_present db) \<and>
     layout_ids_distinct db"

text \<open>The contract: a lock with one writer, the collector; its readers are the upload sessions, as many as
  there are, and at most one replication run.\<close>

datatype catalog_access = Reading nat bool | Writing

inductive access_step :: "catalog_access \<Rightarrow> catalog_access \<Rightarrow> bool" where
  acquire_write: "access_step (Reading 0 False) Writing"
| release_write: "access_step Writing (Reading 0 False)"
| begin_session: "access_step (Reading n r) (Reading (Suc n) r)"
| end_session: "access_step (Reading (Suc n) r) (Reading n r)"
| begin_replication: "access_step (Reading n False) (Reading n True)"
| end_replication: "access_step (Reading n True) (Reading n False)"

inductive_simps access_step_simps: "access_step Writing a" "access_step (Reading n r) Writing"
  "access_step (Reading n r) (Reading m s)"

definition access :: "database \<Rightarrow> catalog_access" where
  "access db = (if gc_in_progress db then Writing else Reading (open_session_count db) (replication_in_progress db))"

text \<open>Closing a row takes it from the open ones.\<close>

lemma closed_count:
  assumes "list_all2 R xs ys" and "\<And>x y. R x y \<Longrightarrow> P y \<longleftrightarrow> P x \<and> \<not> Q x"
  shows "length (filter P ys) + length (filter P (filter Q xs)) = length (filter P xs)"
  using assms(1) by (induction rule: list_all2_induct) (auto dest: assms(2))

lemma gc_closed_count:
  assumes "gc_run_rows db rid = row # rest" and "g_state row = GcOpen"
    and "list_all2 (close_gc_row rid) (gc_runs db) rows" and "open_gc_count db \<le> 1"
  shows "filter (\<lambda>g. g_state g = GcOpen) rows = []" and "open_gc_count db = 1"
proof -
  have "length (filter (\<lambda>g. g_state g = GcOpen) rows) +
      length (filter (\<lambda>g. g_state g = GcOpen) (gc_run_rows db rid)) = open_gc_count db"
    unfolding gc_run_rows_def open_gc_count_def
    by (rule closed_count [OF assms(3)]) (auto simp: close_gc_row_def split: if_splits)
  with assms have "length (filter (\<lambda>g. g_state g = GcOpen) rows) = 0 \<and> open_gc_count db = 1"
    by (simp del: length_0_conv)
  then show "filter (\<lambda>g. g_state g = GcOpen) rows = []" "open_gc_count db = 1" by simp_all
qed

lemma replication_closed_count:
  assumes "replication_run_rows db rid = row # rest" and "rr_state row = ReplOpen"
    and "list_all2 (close_replication_row rid) (replication_runs db) rows" and "open_replication_count db \<le> 1"
  shows "filter (\<lambda>r. rr_state r = ReplOpen) rows = []" and "open_replication_count db = 1"
proof -
  have "length (filter (\<lambda>r. rr_state r = ReplOpen) rows) +
      length (filter (\<lambda>r. rr_state r = ReplOpen) (replication_run_rows db rid)) = open_replication_count db"
    unfolding replication_run_rows_def open_replication_count_def
    by (rule closed_count [OF assms(3)]) (auto simp: close_replication_row_def split: if_splits)
  with assms have "length (filter (\<lambda>r. rr_state r = ReplOpen) rows) = 0 \<and> open_replication_count db = 1"
    by (simp del: length_0_conv)
  then show "filter (\<lambda>r. rr_state r = ReplOpen) rows = []" "open_replication_count db = 1" by simp_all
qed

lemma session_closed_count:
  assumes "session_rows db sid = [s]" and "s_state s = SessionOpen"
    and "list_all2 (close_session_row sid) (upload_sessions db) ss"
  shows "open_session_count db = Suc (length (filter (\<lambda>s. s_state s = SessionOpen) ss))"
proof -
  have "length (filter (\<lambda>s. s_state s = SessionOpen) ss) +
      length (filter (\<lambda>s. s_state s = SessionOpen) (session_rows db sid)) = open_session_count db"
    unfolding session_rows_def open_session_count_def
    by (rule closed_count [OF assms(3)]) (auto simp: close_session_row_def split: if_splits)
  with assms show ?thesis by simp
qed

lemma same_locks_counts:
  assumes "same_locks db db'"
  shows "open_gc_count db' = open_gc_count db" "open_replication_count db' = open_replication_count db"
    "open_session_count db' = open_session_count db"
  using assms by (simp_all add: same_locks_def open_gc_count_def open_replication_count_def open_session_count_def)

lemma same_catalog_layout_ids: "same_catalog db db' \<Longrightarrow> layout_ids_distinct db' = layout_ids_distinct db"
  by (simp add: same_catalog_def layout_ids_distinct_def)

lemma swept_layout_ids: "layout_ids_distinct db \<Longrightarrow> layout_ids_distinct (swept db node)"
  by (simp add: layout_ids_distinct_def swept_fields distinct_map_filter)

lemmas count_defs = open_gc_count_def open_replication_count_def open_session_count_def

text \<open>Every effect keeps the invariant and is a move of the lock, or none.\<close>

lemma step_effect_ok:
  assumes "step_effect db db'" and "repo_ok db"
  shows "repo_ok db' \<and> (access db' = access db \<or> access_step (access db) (access db'))"
  using assms
proof (cases rule: step_effect.cases)
  case quiet
  with assms(2) show ?thesis
    by (simp add: repo_ok_def access_def progress_counts same_locks_counts same_catalog_layout_ids)
next
  case (gc_opened row)
  then have "open_gc_count db' = 1" "open_replication_count db' = 0" "open_session_count db' = 0"
    using same_locks_counts [OF gc_opened(6)] by (simp_all add: count_defs progress_counts)
  with gc_opened assms(2) show ?thesis
    by (simp add: repo_ok_def access_def progress_counts same_catalog_layout_ids access_step_simps)
next
  case (gc_closed rid row rest rows node)
  note counts = gc_closed_count [OF gc_closed(1,2,4)]
  from assms(2) have ok: "open_gc_count db \<le> 1" "layout_ids_distinct db" by (simp_all add: repo_ok_def)
  have "open_gc_count db' = 0" "open_replication_count db' = open_replication_count db" "open_session_count db' = 0"
    using same_locks_counts [OF gc_closed(5)] counts(1) [OF ok(1)] gc_closed(3)
    by (simp_all add: count_defs progress_counts)
  moreover have "layout_ids_distinct db'"
    using gc_closed(6) ok(2) by (auto simp: same_catalog_layout_ids swept_layout_ids)
  ultimately show ?thesis using assms(2) counts(2) [OF ok(1)]
    by (simp add: repo_ok_def access_def progress_counts access_step_simps)
next
  case (session_opened s)
  then have "open_gc_count db' = 0" "open_replication_count db' = open_replication_count db"
    "open_session_count db' = Suc (open_session_count db)"
    using same_locks_counts [OF session_opened(4)] by (simp_all add: count_defs progress_counts)
  with session_opened assms(2) show ?thesis
    by (simp add: repo_ok_def access_def progress_counts same_catalog_layout_ids access_step_simps)
next
  case (session_closed sid s ss)
  note count = session_closed_count [OF session_closed(1-3)]
  have "open_gc_count db = 0" using assms(2) count by (auto simp: repo_ok_def progress_counts)
  moreover have "open_gc_count db' = open_gc_count db" "open_replication_count db' = open_replication_count db"
    "open_session_count db = Suc (open_session_count db')"
    using same_locks_counts [OF session_closed(4)] count by (simp_all add: count_defs)
  ultimately show ?thesis using session_closed assms(2)
    by (simp add: repo_ok_def access_def progress_counts access_step_simps)
next
  case (replication_opened row)
  then have "open_gc_count db' = 0" "open_replication_count db' = 1" "open_session_count db' = open_session_count db"
    using same_locks_counts [OF replication_opened(5)] by (simp_all add: count_defs progress_counts)
  with replication_opened assms(2) show ?thesis
    by (simp add: repo_ok_def access_def progress_counts same_catalog_layout_ids access_step_simps)
next
  case (replication_closed rid row rest rows)
  from assms(2) have ok: "open_replication_count db \<le> 1" by (simp add: repo_ok_def)
  note counts = replication_closed_count [OF replication_closed(1-3) ok]
  have "open_gc_count db' = open_gc_count db" "open_replication_count db' = 0"
    "open_session_count db' = open_session_count db"
    using same_locks_counts [OF replication_closed(4)] counts(1) by (simp_all add: count_defs)
  with replication_closed(5) counts(2) assms(2) show ?thesis
    by (auto simp: repo_ok_def access_def progress_counts same_catalog_layout_ids access_step_simps)
next
  case (versions_retired rets)
  then have "layout_ids_distinct db' = layout_ids_distinct db"
    by (simp add: same_catalog_def layout_ids_distinct_def)
  with versions_retired assms(2) show ?thesis
    by (simp add: repo_ok_def access_def progress_counts same_locks_counts)
qed

subsection \<open>Reachable databases\<close>

text \<open>The service starts on a database in which nothing is in progress; what the catalog holds is
  arbitrary, as long as the primary key of \<open>object_layouts\<close> holds.\<close>

definition idle :: "database \<Rightarrow> bool" where
  "idle db \<longleftrightarrow> \<not> gc_in_progress db \<and> \<not> replication_in_progress db \<and> \<not> open_upload_sessions_present db \<and>
     layout_ids_distinct db"

abbreviation repo_steps :: "hash \<Rightarrow> (string \<Rightarrow> bool) \<Rightarrow> database \<Rightarrow> database \<Rightarrow> bool" where
  "repo_steps H is_ip \<equiv> (repo_step H is_ip)\<^sup>*\<^sup>*"

lemma steps_keep_ok: "repo_steps H is_ip db db' \<Longrightarrow> repo_ok db \<Longrightarrow> repo_ok db'"
  by (induction rule: rtranclp_induct) (auto dest: repo_step_effect step_effect_ok)

lemma reachable_ok: "idle db0 \<Longrightarrow> repo_steps H is_ip db0 db \<Longrightarrow> repo_ok db"
  by (erule steps_keep_ok) (simp add: idle_def repo_ok_def progress_counts)

text \<open>
  C18: Whatever requests the service handles, in whatever order, at most one garbage-collection run and at
  most one replication run are open at any time, never both; and while a collection is open no upload
  session is.
\<close>

theorem runs_exclusive:
  assumes "idle db0" and "repo_steps H is_ip db0 db"
  shows "length (filter (\<lambda>g. g_state g = GcOpen) (gc_runs db)) \<le> 1 \<and>
    length (filter (\<lambda>r. rr_state r = ReplOpen) (replication_runs db)) \<le> 1 \<and>
    \<not> (gc_in_progress db \<and> (replication_in_progress db \<or> open_upload_sessions_present db))"
  using reachable_ok [OF assms] by (auto simp: repo_ok_def count_defs)

text \<open>
  C17: The rows implement a lock: seen through the state of the lock, every request the service handles is a
  move of a lock with one writer (the collector) and shared readers (any number of upload sessions, at most
  one replication run), or no move at all.
\<close>

theorem requests_refine_lock:
  assumes "idle db0" and "repo_steps H is_ip db0 db" and "repo_step H is_ip db db'"
  shows "access db' = access db \<or> access_step (access db) (access db')"
  using step_effect_ok [OF repo_step_effect [OF assms(3)] reachable_ok [OF assms(1,2)]] by blast

subsection \<open>What the collector may rely on\<close>

definition gc_run_open :: "database \<Rightarrow> string \<Rightarrow> bool" where
  "gc_run_open db rid \<longleftrightarrow> (\<exists>g \<in> set (gc_run_rows db rid). g_state g = GcOpen)"

text \<open>What a run sees of the database: the runs, the sessions, the catalog.\<close>

definition frozen :: "database \<Rightarrow> database \<Rightarrow> bool" where
  "frozen db db' \<longleftrightarrow> gc_runs db' = gc_runs db \<and> upload_sessions db' = upload_sessions db \<and> same_catalog db db'"

lemma gc_run_open_progress: "gc_run_open db rid \<Longrightarrow> gc_in_progress db"
  by (auto simp: gc_run_open_def gc_in_progress_def gc_run_rows_def)

lemma list_all2_in_set2: "list_all2 R xs ys \<Longrightarrow> y \<in> set ys \<Longrightarrow> \<exists>x \<in> set xs. R x y"
  by (induction rule: list_all2_induct) auto

lemma close_gc_rows_filter:
  assumes "list_all2 (close_gc_row rid) gs rows"
  shows "list_all2 (close_gc_row rid) (filter (\<lambda>g. g_run_id g = r) gs) (filter (\<lambda>g. g_run_id g = r) rows)"
  using assms by (induction rule: list_all2_induct) (auto simp: close_gc_row_def)

text \<open>A run is not forgotten, and one that is not open stays so.\<close>

lemma run_stays:
  assumes "step_effect db db'" and "gc_run_rows db r \<noteq> []"
  shows "gc_run_rows db' r \<noteq> [] \<and> (gc_run_open db' r \<longrightarrow> gc_run_open db r)"
proof (cases "gc_runs db' = gc_runs db")
  case True
  with assms(2) show ?thesis by (simp add: gc_run_open_def gc_run_rows_def)
next
  case False
  with assms(1) show ?thesis
  proof (cases rule: step_effect.cases)
    case (gc_opened row)
    then have "gc_run_rows db' r = gc_run_rows db r @ (if g_run_id row = r then [row] else [])"
      by (simp add: same_locks_def gc_run_rows_def)
    with assms(2) gc_opened(4) show ?thesis by (auto simp: gc_run_open_def)
  next
    case (gc_closed rid row rest rows node)
    have rows: "list_all2 (close_gc_row rid) (gc_run_rows db r) (gc_run_rows db' r)"
      using close_gc_rows_filter [OF gc_closed(4)] gc_closed(5) by (simp add: same_locks_def gc_run_rows_def)
    have "\<exists>g \<in> set (gc_run_rows db r). g_state g = GcOpen" if "g' \<in> set (gc_run_rows db' r)" "g_state g' = GcOpen" for g'
      using list_all2_in_set2 [OF rows that(1)] that(2) by (metis close_gc_row_def gc_run_state.distinct(1))
    moreover have "gc_run_rows db' r \<noteq> []" using rows assms(2) by auto
    ultimately show ?thesis by (auto simp: gc_run_open_def)
  qed (simp_all add: same_locks_def)
qed

lemma open_run_was_open:
  assumes "repo_steps H is_ip db db'" and "gc_run_rows db r \<noteq> []" and "gc_run_open db' r"
  shows "gc_run_open db r"
  using assms by (induction rule: converse_rtranclp_induct) (auto dest: run_stays repo_step_effect)

lemma step_freezes:
  assumes "step_effect db db'" and "repo_ok db" and "gc_run_open db r" and "gc_run_open db' r"
  shows "frozen db db'"
proof -
  have gc: "gc_in_progress db" "gc_in_progress db'" using assms(3,4) by (simp_all add: gc_run_open_progress)
  with assms(2) have none: "\<not> replication_in_progress db" "\<not> open_upload_sessions_present db" "open_gc_count db \<le> 1"
    by (simp_all add: repo_ok_def)
  from assms(1) show ?thesis
  proof (cases rule: step_effect.cases)
    case (gc_closed rid row rest rows node)
    then have "open_gc_count db' = 0"
      using gc_closed_count(1) [OF gc_closed(1,2,4) none(3)] by (simp add: same_locks_def open_gc_count_def)
    with gc(2) show ?thesis by (simp add: progress_counts)
  next
    case (session_closed sid s ss)
    with none(2) session_closed_count [OF session_closed(1-3)] show ?thesis by (simp add: progress_counts)
  qed (use gc in \<open>simp_all add: frozen_def same_locks_def\<close>)
qed

lemma run_freezes:
  assumes "repo_steps H is_ip db db'" and "repo_ok db" and "gc_run_open db r" and "gc_run_open db' r"
  shows "frozen db db'"
  using assms
proof (induction rule: converse_rtranclp_induct)
  case base
  then show ?case by (simp add: frozen_def same_catalog_def)
next
  case (step db mid)
  note effect = repo_step_effect [OF step.hyps(1)]
  have "repo_ok mid" using step_effect_ok [OF effect step.prems(1)] by blast
  have rows: "gc_run_rows db r \<noteq> []" using step.prems(2) by (auto simp: gc_run_open_def)
  have "gc_run_open mid r"
    using open_run_was_open [OF step.hyps(2) _ step.prems(3)] run_stays [OF effect rows] by blast
  then show ?case using step_freezes [OF effect step.prems(1,2)] step.IH [OF \<open>repo_ok mid\<close> _ step.prems(3)]
    by (simp add: frozen_def same_catalog_def)
qed

lemma frozen_live_layout: "frozen db db' \<Longrightarrow> live_layout db' = live_layout db"
  by (simp add: fun_eq_iff frozen_def same_catalog_def live_layout_def is_version_retired_def)

lemma frozen_chunk_live: "frozen db db' \<Longrightarrow> chunk_in_live_layout db' c = chunk_in_live_layout db c"
  by (simp add: chunk_in_live_layout_def frozen_live_layout) (simp add: frozen_def same_catalog_def)

lemma frozen_classify:
  assumes "frozen db db'"
  shows "classify_gc_chunks db' rid ids = classify_gc_chunks db rid ids"
proof -
  have "chunk_in_live_layout db' = chunk_in_live_layout db" using frozen_chunk_live [OF assms] by blast
  moreover have "load_gc_run db' rid = load_gc_run db rid"
    using assms by (simp add: frozen_def load_gc_run_def gc_run_rows_def)
  ultimately show ?thesis unfolding classify_gc_chunks_def by (simp only:)
qed

text \<open>
  C19: While a garbage-collection run stays open, no request the service handles changes what is live: every
  batch of chunks is classified as it was, every layout is live exactly if it was, and every chunk the
  collector was told is collectible is still in no live layout, so it may delete chunk after chunk on a
  decision taken earlier in the run.
\<close>

theorem open_run_freezes_liveness:
  assumes "idle db0" and "repo_steps H is_ip db0 db" and "repo_steps H is_ip db db'"
    and "gc_run_open db rid" and "gc_run_open db' rid"
  shows "(\<forall>ids. classify_gc_chunks db' rid ids = classify_gc_chunks db rid ids) \<and>
    object_layouts db' = object_layouts db \<and>
    (\<forall>ol \<in> set (object_layouts db). live_layout db' ol = live_layout db ol) \<and>
    (\<forall>c. chunk_in_live_layout db' c = chunk_in_live_layout db c)"
proof -
  have "frozen db db'" using assms(3) reachable_ok [OF assms(1,2)] assms(4,5) by (rule run_freezes)
  note frozen = this
  have "object_layouts db' = object_layouts db" using frozen by (simp add: frozen_def same_catalog_def)
  then show ?thesis
    unfolding frozen_live_layout [OF frozen] frozen_chunk_live [OF frozen] frozen_classify [OF frozen] by blast
qed

subsection \<open>Witnesses\<close>

text \<open>A collection on a database with a live and a dead layout; a node registers while it runs.\<close>

definition sample_idle_db :: database where
  "sample_idle_db = sample_gc_db\<lparr>gc_runs := []\<rparr>"

definition sample_gc_request :: gc_run where
  "sample_gc_request = \<lparr>gr_run_id = sample_uuid, gr_target_node_id = ''node-a'', gr_mode = GcApply, gr_state = GcOpen,
     gr_physical_stats = \<lparr>physical_chunks_scanned = 0, physical_bytes_scanned = 0, collectible_chunks = 0,
       collectible_bytes = 0, physically_deleted_chunks = 0, physically_deleted_bytes = 0\<rparr>,
     gr_metadata_stats = \<lparr>storage_locations_swept = 0, chunk_rows_swept = 0, object_layouts_swept = 0, objects_swept = 0\<rparr>\<rparr>"

definition sample_registered_node :: storage_node where
  "sample_registered_node = \<lparr>sn_node_id = ''node-b'', sn_address = ''127.0.0.1'', sn_port = 9000, sn_state = Active\<rparr>"

definition sample_collecting_db :: database where
  "sample_collecting_db = (case start_gc_run sample_idle_db sample_gc_request of Inr (db, run) \<Rightarrow> db | Inl e \<Rightarrow> empty_database)"

definition sample_later_db :: database where
  "sample_later_db = (case register_storage_node (\<lambda>_. True) sample_collecting_db sample_registered_node of
     Inr db \<Rightarrow> db | Inl e \<Rightarrow> empty_database)"

lemma sample_collecting:
  "\<exists>run. start_gc_run sample_idle_db sample_gc_request = Inr (sample_collecting_db, run)"
  "register_storage_node (\<lambda>_. True) sample_collecting_db sample_registered_node = Inr sample_later_db"
proof -
  have "case start_gc_run sample_idle_db sample_gc_request of Inr (db, run) \<Rightarrow> True | Inl e \<Rightarrow> False" by code_simp
  then show "\<exists>run. start_gc_run sample_idle_db sample_gc_request = Inr (sample_collecting_db, run)"
    by (simp add: sample_collecting_db_def split: sum.splits prod.splits)
  have "case register_storage_node (\<lambda>_. True) sample_collecting_db sample_registered_node of Inr db \<Rightarrow> True | Inl e \<Rightarrow> False"
    by code_simp
  then show "register_storage_node (\<lambda>_. True) sample_collecting_db sample_registered_node = Inr sample_later_db"
    by (simp add: sample_later_db_def split: sum.splits)
qed

lemma sample_idle: "idle sample_idle_db"
  by code_simp

lemma sample_runs_open: "gc_run_open sample_collecting_db sample_uuid" "gc_run_open sample_later_db sample_uuid"
  by code_simp+

lemma sample_steps:
  "repo_step sample_hash (\<lambda>_. True) sample_idle_db sample_collecting_db"
  "repo_step sample_hash (\<lambda>_. True) sample_collecting_db sample_later_db"
  using sample_collecting by (blast intro: start_gc register_node)+

theorem runs_exclusive_witness:
  "length (filter (\<lambda>g. g_state g = GcOpen) (gc_runs sample_collecting_db)) \<le> 1 \<and>
   length (filter (\<lambda>r. rr_state r = ReplOpen) (replication_runs sample_collecting_db)) \<le> 1 \<and>
   \<not> (gc_in_progress sample_collecting_db \<and>
      (replication_in_progress sample_collecting_db \<or> open_upload_sessions_present sample_collecting_db))"
  by (rule runs_exclusive [OF sample_idle r_into_rtranclp, OF sample_steps(1)])

theorem requests_refine_lock_witness:
  "access_step (access sample_idle_db) (access sample_collecting_db)"
proof -
  have "access sample_collecting_db \<noteq> access sample_idle_db" by code_simp
  then show ?thesis
    using requests_refine_lock [OF sample_idle rtranclp.rtrancl_refl sample_steps(1)] by blast
qed

theorem open_run_freezes_liveness_witness:
  "classify_gc_chunks sample_later_db sample_uuid [sample_id (CHR ''c'')] =
   classify_gc_chunks sample_collecting_db sample_uuid [sample_id (CHR ''c'')] \<and>
   storage_nodes sample_later_db \<noteq> storage_nodes sample_collecting_db"
proof -
  have "storage_nodes sample_later_db \<noteq> storage_nodes sample_collecting_db" by code_simp
  then show ?thesis
    using open_run_freezes_liveness [OF sample_idle r_into_rtranclp r_into_rtranclp, OF sample_steps sample_runs_open]
    by blast
qed

end
