(* ===== verification/Chunk_Store.thy ===== *)
theory Chunk_Store
  imports Objects "HOL-Library.AList"
begin

section \<open>The local chunk store\<close>

text \<open>
  \<open>LocalChunkStore\<close> (\<open>src/storage/local_chunk_store.cpp\<close>): chunks as files
  \<open>chunks/<first two characters>/<chunk id>\<close> under a root directory. The state is what is on disk below
  the root. The operating system is a record of outcomes, one per call that may fail, and \<open>write\<close> is any
  sequence of results, so that every failure and every short or interrupted write is a value of it.

  A write of the store is the list of the disks it passes through: a crash leaves one of them.
\<close>

subsection \<open>The disk\<close>

text \<open>What a path is, with a symbolic link as what it resolves to.\<close>

datatype link_target = To_regular "byte list" | To_directory | Dangling

datatype chunk_file = Regular "byte list" | Subdirectory | Link link_target

text \<open>An entry of the \<open>chunks\<close> directory: a directory, a link to a directory elsewhere, anything else.\<close>

datatype fanout =
  Fanout "(string \<times> chunk_file) list" | Fanout_link "(string \<times> chunk_file) list" | Not_directory

type_synonym chunk_tree = "(string \<times> fanout) list"

text \<open>\<open>None\<close>: there is no \<open>chunks\<close> directory.\<close>

type_synonym disk = "chunk_tree option"

fun fanout_entries :: "fanout \<Rightarrow> (string \<times> chunk_file) list option" where
  "fanout_entries (Fanout es) = Some es"
| "fanout_entries (Fanout_link es) = Some es"
| "fanout_entries Not_directory = None"

fun change_entries :: "((string \<times> chunk_file) list \<Rightarrow> (string \<times> chunk_file) list) \<Rightarrow> fanout \<Rightarrow> fanout" where
  "change_entries f (Fanout es) = Fanout (f es)"
| "change_entries f (Fanout_link es) = Fanout_link (f es)"
| "change_entries f Not_directory = Not_directory"

definition lookup_fanout :: "disk \<Rightarrow> string \<Rightarrow> fanout option" where
  "lookup_fanout disk dir = (case disk of None \<Rightarrow> None | Some tree \<Rightarrow> map_of tree dir)"

definition lookup_file :: "disk \<Rightarrow> string \<Rightarrow> string \<Rightarrow> chunk_file option" where
  "lookup_file disk dir name =
     (case lookup_fanout disk dir of
        None \<Rightarrow> None
      | Some fan \<Rightarrow> (case fanout_entries fan of None \<Rightarrow> None | Some es \<Rightarrow> map_of es name))"

definition change_fanout ::
  "((string \<times> chunk_file) list \<Rightarrow> (string \<times> chunk_file) list) \<Rightarrow> string \<Rightarrow> disk \<Rightarrow> disk" where
  "change_fanout f dir disk =
     map_option (map (\<lambda>(n, fan). (n, if n = dir then change_entries f fan else fan))) disk"

definition write_file :: "string \<Rightarrow> string \<Rightarrow> chunk_file \<Rightarrow> disk \<Rightarrow> disk" where
  "write_file dir name file = change_fanout (AList.update name file) dir"

definition unlink_file :: "string \<Rightarrow> string \<Rightarrow> disk \<Rightarrow> disk" where
  "unlink_file dir name = change_fanout (AList.delete name) dir"

subsection \<open>The operating system\<close>

datatype write_result = Wrote nat | Interrupted | Write_failed

record read_io =
  opens :: bool
  reads :: bool

record put_io =
  directories_ok :: bool
  temporary_suffix :: "string option"
  write_results :: "nat \<Rightarrow> write_result"
  fsync_ok :: bool
  close_ok :: bool
  rename_ok :: bool
  unlink_ok :: bool
  read_back :: read_io

subsection \<open>Paths and names\<close>

definition validate_chunk_id :: "string \<Rightarrow> unit res" where
  "validate_chunk_id chunk_id = check_content_id chunk_id"

text \<open>\<open>chunk_path\<close>: the directory and the name of the file below \<open>chunks\<close>.\<close>

definition chunk_path :: "string \<Rightarrow> (string \<times> string) res" where
  "chunk_path chunk_id = rbind (validate_chunk_id chunk_id) (\<lambda>_. Inr (take 2 chunk_id, chunk_id))"

definition is_valid_fanout_directory_name :: "string \<Rightarrow> bool" where
  "is_valid_fanout_directory_name name \<longleftrightarrow> length name = 2 \<and> list_all is_lower_hex name"

definition is_valid_chunk_filename :: "string \<Rightarrow> bool" where
  "is_valid_chunk_filename name \<longleftrightarrow> length name = 64 \<and> list_all is_lower_hex name"

definition temporary_prefix :: string where
  "temporary_prefix = ''.aistore-chunk-''"

definition is_temporary_chunk_filename :: "string \<Rightarrow> bool" where
  "is_temporary_chunk_filename name \<longleftrightarrow> take (length temporary_prefix) name = temporary_prefix"

definition hash_bytes :: "hash \<Rightarrow> byte list \<Rightarrow> string res" where
  "hash_bytes H data = hash_canonical_bytes H data"

subsection \<open>Reading\<close>

text \<open>\<open>is_regular_file\<close> follows links.\<close>

definition regular_content :: "disk \<Rightarrow> string \<times> string \<Rightarrow> byte list option" where
  "regular_content disk path =
     (case lookup_file disk (fst path) (snd path) of
        Some (Regular content) \<Rightarrow> Some content
      | Some (Link (To_regular content)) \<Rightarrow> Some content
      | _ \<Rightarrow> None)"

definition store_get :: "hash \<Rightarrow> read_io \<Rightarrow> disk \<Rightarrow> string \<Rightarrow> byte list res" where
  "store_get H io disk chunk_id =
     rbind (validate_chunk_id chunk_id) (\<lambda>_.
     rbind (chunk_path chunk_id) (\<lambda>path.
     case regular_content disk path of
       None \<Rightarrow> Inl Runtime_error
     | Some content \<Rightarrow>
         if 2 ^ 64 - 1 < int (length content) then Inl Runtime_error
         else if \<not> opens io then Inl Runtime_error
         else
           rbind (if content = [] then Inr ()
                  else if 2 ^ 63 - 1 < int (length content) then Inl Runtime_error
                  else if \<not> reads io then Inl Runtime_error else Inr ()) (\<lambda>_.
           rbind (hash_bytes H content) (\<lambda>actual.
           if actual \<noteq> chunk_id then Inl Runtime_error else Inr content))))"

definition store_contains :: "disk \<Rightarrow> string \<Rightarrow> bool res" where
  "store_contains disk chunk_id =
     rbind (validate_chunk_id chunk_id) (\<lambda>_.
     rbind (chunk_path chunk_id) (\<lambda>path. Inr (regular_content disk path \<noteq> None)))"

subsection \<open>Writing\<close>

text \<open>The loop of \<open>write_all\<close> from the call number \<open>k\<close>: the contents the file has after each call that
  wrote, and how it ended. The loop retries an interrupted call without bound; \<open>None\<close> is not returning.\<close>

partial_function (option) write_all ::
  "(nat \<Rightarrow> write_result) \<Rightarrow> nat \<Rightarrow> byte list \<Rightarrow> byte list \<Rightarrow> (byte list list \<times> unit res) option" where
  "write_all results k content data =
     (if data = [] then Some ([], Inr ())
      else case results k of
             Interrupted \<Rightarrow> write_all results (Suc k) content data
           | Write_failed \<Rightarrow> Some ([], Inl System_error)
           | Wrote n \<Rightarrow>
               if n = 0 then Some ([], Inl Runtime_error)
               else Option.bind (write_all results (Suc k) (content @ take n data) (drop n data)) (\<lambda>(later, ended).
                    Some ((content @ take n data) # later, ended)))"

declare write_all.simps [code]

text \<open>\<open>create_directories\<close> of the parent of the chunk: an error when the path is no directory.\<close>

definition create_parent :: "put_io \<Rightarrow> string \<Rightarrow> disk \<Rightarrow> disk res" where
  "create_parent io dir disk =
     (let tree = (case disk of None \<Rightarrow> [] | Some tree \<Rightarrow> tree)
      in if \<not> directories_ok io then Inl System_error
         else case map_of tree dir of
                None \<Rightarrow> Inr (Some (tree @ [(dir, Fanout [])]))
              | Some fan \<Rightarrow> if fanout_entries fan = None then Inl System_error else Inr (Some tree))"

text \<open>\<open>mkstemp\<close> creates an empty file under a new name.\<close>

definition create_temporary_file :: "put_io \<Rightarrow> string \<Rightarrow> disk \<Rightarrow> (string \<times> disk) res" where
  "create_temporary_file io dir disk =
     (case temporary_suffix io of
        None \<Rightarrow> Inl System_error
      | Some suffix \<Rightarrow>
          let name = temporary_prefix @ suffix
          in if lookup_file disk dir name \<noteq> None then Inl System_error
             else Inr (name, write_file dir name (Regular []) disk))"

text \<open>\<open>rename\<close> replaces a file or a link in one step and refuses to replace a directory.\<close>

definition rename_file :: "put_io \<Rightarrow> string \<Rightarrow> string \<Rightarrow> string \<Rightarrow> disk \<Rightarrow> disk res" where
  "rename_file io dir from to disk =
     (if \<not> rename_ok io then Inl System_error
      else if lookup_file disk dir to = Some Subdirectory then Inl System_error
      else case lookup_file disk dir from of
             None \<Rightarrow> Inl System_error
           | Some file \<Rightarrow> Inr (write_file dir to file (unlink_file dir from disk)))"

text \<open>The steps after the last write: flush, close, compare the hash, rename.\<close>

definition publish :: "hash \<Rightarrow> put_io \<Rightarrow> string \<times> string \<Rightarrow> string \<Rightarrow> byte list \<Rightarrow> disk \<Rightarrow> disk res" where
  "publish H io path temporary data disk =
     (if \<not> fsync_ok io then Inl System_error
      else if \<not> close_ok io then Inl System_error
      else rbind (hash_bytes H data) (\<lambda>actual_chunk_id.
           if actual_chunk_id \<noteq> snd path then Inl Runtime_error
           else rename_file io (fst path) temporary (snd path) disk))"

text \<open>The destructor of \<open>TemporaryFile\<close> ignores its own error.\<close>

definition discard_temporary :: "put_io \<Rightarrow> string \<Rightarrow> string \<Rightarrow> disk \<Rightarrow> disk" where
  "discard_temporary io dir temporary disk = (if unlink_ok io then unlink_file dir temporary disk else disk)"

definition temporary_writes :: "string \<Rightarrow> string \<Rightarrow> disk \<Rightarrow> byte list list \<Rightarrow> disk list" where
  "temporary_writes dir temporary opened contents =
     opened # map (\<lambda>content. write_file dir temporary (Regular content) opened) contents"

definition write_chunk ::
  "hash \<Rightarrow> put_io \<Rightarrow> string \<times> string \<Rightarrow> disk \<Rightarrow> byte list \<Rightarrow> (disk list \<times> unit res) option" where
  "write_chunk H io path disk data =
     (case create_temporary_file io (fst path) disk of
        Inl e \<Rightarrow> Some ([], Inl e)
      | Inr (temporary, opened) \<Rightarrow>
          Option.bind (write_all (write_results io) 0 [] data) (\<lambda>(contents, wrote).
          let passed = temporary_writes (fst path) temporary opened contents
          in case rbind wrote (\<lambda>_. publish H io path temporary data (last passed)) of
               Inl e \<Rightarrow> Some (passed @ [discard_temporary io (fst path) temporary (last passed)], Inl e)
             | Inr published \<Rightarrow> Some (passed @ [published], Inr ())))"

definition store_put ::
  "hash \<Rightarrow> put_io \<Rightarrow> disk \<Rightarrow> string \<Rightarrow> byte list \<Rightarrow> (disk list \<times> unit res) option" where
  "store_put H io disk expected_chunk_id data =
     (case chunk_path expected_chunk_id of
        Inl e \<Rightarrow> Some ([], Inl e)
      | Inr path \<Rightarrow>
          if regular_content disk path \<noteq> None
          then Some ([], rbind (store_get H (read_back io) disk expected_chunk_id) (\<lambda>_. Inr ()))
          else case create_parent io (fst path) disk of
                 Inl e \<Rightarrow> Some ([], Inl e)
               | Inr made \<Rightarrow>
                   Option.bind (write_chunk H io path made data) (\<lambda>(passed, ended). Some (made # passed, ended)))"

subsection \<open>Removing\<close>

text \<open>\<open>exists\<close> follows links, so a dangling link is not there.\<close>

definition store_remove :: "bool \<Rightarrow> disk \<Rightarrow> string \<Rightarrow> (disk \<times> bool) res" where
  "store_remove removes disk chunk_id =
     rbind (validate_chunk_id chunk_id) (\<lambda>_.
     rbind (chunk_path chunk_id) (\<lambda>path.
     case lookup_file disk (fst path) (snd path) of
       None \<Rightarrow> Inr (disk, False)
     | Some (Link Dangling) \<Rightarrow> Inr (disk, False)
     | Some (Link _) \<Rightarrow> Inl Runtime_error
     | Some Subdirectory \<Rightarrow> Inl Invalid_argument
     | Some (Regular _) \<Rightarrow>
         if \<not> removes then Inl System_error else Inr (unlink_file (fst path) (snd path) disk, True)))"

subsection \<open>Listing\<close>

record stored_chunk_info =
  sci_chunk_id :: string
  sci_size_bytes :: u64

record stored_chunk_page =
  pg_chunks :: "stored_chunk_info list"
  pg_next_after :: "string option"

definition discover_chunk ::
  "string \<Rightarrow> string \<times> chunk_file \<Rightarrow> stored_chunk_info list \<Rightarrow> stored_chunk_info list res" where
  "discover_chunk fanout_name entry discovered_chunks =
     (case entry of (filename, file) \<Rightarrow>
        if is_temporary_chunk_filename filename then Inr discovered_chunks
        else if \<not> is_valid_chunk_filename filename then Inr discovered_chunks
        else if take 2 filename \<noteq> fanout_name then Inr discovered_chunks
        else case file of
               Regular content \<Rightarrow>
                 if 2 ^ 64 - 1 < int (length content) then Inl Runtime_error
                 else Inr (discovered_chunks @
                        [\<lparr>sci_chunk_id = filename, sci_size_bytes = of_nat (length content)\<rparr>])
             | _ \<Rightarrow> Inr discovered_chunks)"

definition discover_fanout ::
  "string \<times> fanout \<Rightarrow> stored_chunk_info list \<Rightarrow> stored_chunk_info list res" where
  "discover_fanout entry discovered_chunks =
     (case entry of (fanout_name, fan) \<Rightarrow>
        case fan of
          Fanout es \<Rightarrow>
            if \<not> is_valid_fanout_directory_name fanout_name then Inr discovered_chunks
            else fold_res (discover_chunk fanout_name) es discovered_chunks
        | _ \<Rightarrow> Inr discovered_chunks)"

definition store_list_chunks :: "disk \<Rightarrow> string option \<Rightarrow> nat \<Rightarrow> stored_chunk_page res" where
  "store_list_chunks disk after limit =
     (if limit < 1 \<or> 256 < limit then Inl Invalid_argument
      else
        rbind (case after of None \<Rightarrow> Inr () | Some chunk_id \<Rightarrow> validate_chunk_id chunk_id) (\<lambda>_.
        case disk of
          None \<Rightarrow> Inr \<lparr>pg_chunks = [], pg_next_after = None\<rparr>
        | Some tree \<Rightarrow>
            rbind (fold_res discover_fanout tree []) (\<lambda>discovered.
            let discovered_chunks = sort_key sci_chunk_id discovered;
                start_index = (case after of
                    None \<Rightarrow> 0
                  | Some after_chunk_id \<Rightarrow>
                      length (takeWhile (\<lambda>info. sci_chunk_id info \<le> after_chunk_id) discovered_chunks));
                end_index = min (start_index + limit) (length discovered_chunks);
                page_chunks = take (end_index - start_index) (drop start_index discovered_chunks)
            in Inr \<lparr>pg_chunks = page_chunks,
                    pg_next_after = (if end_index < length discovered_chunks \<and> page_chunks \<noteq> []
                                     then Some (sci_chunk_id (last page_chunks)) else None)\<rparr>)))"

subsection \<open>Looking files up\<close>

lemma lookup_change_fanout:
  "lookup_fanout (change_fanout f dir disk) d =
   (if d = dir then map_option (change_entries f) (lookup_fanout disk d) else lookup_fanout disk d)"
proof -
  have "map_of (map (\<lambda>(n, fan). (n, if n = dir then change_entries f fan else fan)) tree) d =
      (if d = dir then map_option (change_entries f) (map_of tree d) else map_of tree d)" for tree :: chunk_tree
    by (induction tree) auto
  then show ?thesis by (auto simp: lookup_fanout_def change_fanout_def split: option.splits)
qed

lemma fanout_entries_change [simp]: "fanout_entries (change_entries f fan) = map_option f (fanout_entries fan)"
  by (cases fan) simp_all

definition is_chunk_directory :: "disk \<Rightarrow> string \<Rightarrow> bool" where
  "is_chunk_directory disk dir \<longleftrightarrow>
     (case lookup_fanout disk dir of None \<Rightarrow> False | Some fan \<Rightarrow> fanout_entries fan \<noteq> None)"

lemma lookup_write_file:
  "lookup_file (write_file dir name file disk) d n =
   (if d = dir \<and> n = name \<and> is_chunk_directory disk dir then Some file else lookup_file disk d n)"
  by (auto simp: lookup_file_def write_file_def lookup_change_fanout is_chunk_directory_def AList.update_conv'
      split: option.splits)

lemma lookup_unlink_file:
  "lookup_file (unlink_file dir name disk) d n = (if d = dir \<and> n = name then None else lookup_file disk d n)"
  by (auto simp: lookup_file_def unlink_file_def lookup_change_fanout AList.delete_conv' split: option.splits)

lemma directory_kept [simp]:
  "is_chunk_directory (write_file dir name file disk) d = is_chunk_directory disk d"
  "is_chunk_directory (unlink_file dir name disk) d = is_chunk_directory disk d"
  by (simp_all add: is_chunk_directory_def write_file_def unlink_file_def lookup_change_fanout split: option.splits)

lemma content_id_not_temporary: "is_content_id c \<Longrightarrow> c \<noteq> temporary_prefix @ s"
  by (auto simp: is_content_id_def temporary_prefix_def is_lower_hex_def is_digit_char_def)

lemma chunk_path_ok [res_simps]: "chunk_path c = Inr path \<longleftrightarrow> is_content_id c \<and> path = (take 2 c, c)"
  by (auto simp: chunk_path_def validate_chunk_id_def rbind_eq_Inr check_content_id_ok)

lemma create_parent_ok:
  assumes "create_parent io dir disk = Inr made"
  shows "is_chunk_directory made dir \<and> lookup_file made = lookup_file disk"
proof -
  define tree where "tree = (case disk of None \<Rightarrow> [] | Some tree \<Rightarrow> tree)"
  have same: "lookup_fanout (Some tree) = lookup_fanout disk"
    by (rule ext) (simp add: lookup_fanout_def tree_def split: option.splits)
  show ?thesis
  proof (cases "map_of tree dir")
    case None
    with assms have made: "made = Some (tree @ [(dir, Fanout [])])"
      by (simp add: create_parent_def Let_def flip: tree_def split: if_splits)
    have "lookup_file made d n = lookup_file (Some tree) d n" for d n
      using None by (auto simp: made lookup_file_def lookup_fanout_def map_add_def split: option.splits)
    moreover have "is_chunk_directory made dir"
      using None by (simp add: made is_chunk_directory_def lookup_fanout_def map_add_def)
    ultimately show ?thesis using same by (simp add: lookup_file_def fun_eq_iff)
  next
    case (Some fan)
    with assms have "made = Some tree" "fanout_entries fan \<noteq> None"
      by (simp_all add: create_parent_def Let_def flip: tree_def split: if_splits)
    with Some same show ?thesis by (simp add: lookup_file_def fun_eq_iff is_chunk_directory_def lookup_fanout_def)
  qed
qed

subsection \<open>The write loop\<close>

text \<open>Whatever the calls return, the file holds a prefix of the data after each of them, and all of it when
  the loop ends without an exception.\<close>

lemma write_all_prefix:
  assumes "write_all results k content data = Some (contents, ended)"
  shows "(\<forall>c \<in> set contents. \<exists>n. c = content @ take n data) \<and>
    (ended = Inr () \<longrightarrow> last (content # contents) = content @ data)"
proof -
  have "\<forall>contents ended. r = (contents, ended) \<longrightarrow> (\<forall>c \<in> set contents. \<exists>n. c = content @ take n data) \<and>
    (ended = Inr () \<longrightarrow> last (content # contents) = content @ data)"
    if "write_all results k content data = Some r" for r
    using that
  proof (induction rule: write_all.raw_induct [rotated, consumes 1])
    case (1 write_all' results k content data r)
    show ?case
    proof (cases "data = []")
      case False
      show ?thesis
      proof (cases "results k")
        case (Wrote n)
        show ?thesis
        proof (cases "n = 0")
          case n: False
          obtain later ended' where rest: "write_all' results (Suc k) (content @ take n data) (drop n data) = Some (later, ended')"
            and r: "r = ((content @ take n data) # later, ended')"
            using 1(2) False Wrote n by (auto simp: bind_eq_Some_conv)
          note IH = 1(1) [OF rest, rule_format, OF refl]
          have "\<exists>m. (content @ take n data) @ take i (drop n data) = content @ take m data" for i
            by (rule exI [of _ "n + i"]) (simp add: take_add)
          then show ?thesis using IH by (fastforce simp: r)
        qed (use 1(2) False Wrote in auto)
      qed (use 1(2) False in \<open>auto dest: 1(1)\<close>)
    qed (use 1(2) in auto)
  qed
  with assms show ?thesis by blast
qed

lemma write_all_retries:
  assumes "k \<le> j" and "\<And>i. k \<le> i \<Longrightarrow> i < j \<Longrightarrow> results i = Interrupted"
  shows "write_all results k content data = write_all results j content data"
  using assms
proof (induction rule: inc_induct)
  case (step n)
  have "write_all results n content data = write_all results (Suc n) content data"
    using step.prems step.hyps
    by (simp add: write_all.simps [of results n content data] write_all.simps [of results "Suc n" content "[]"])
  with step show ?case by simp
qed simp

text \<open>The loop ends unless the calls are interrupted forever.\<close>

lemma write_all_returns:
  assumes "\<And>k. \<exists>j \<ge> k. results j \<noteq> Interrupted"
  shows "\<exists>r. write_all results k content data = Some r"
proof (induction "length data" arbitrary: k content data rule: less_induct)
  case less
  define j where "j = (LEAST j. k \<le> j \<and> results j \<noteq> Interrupted)"
  have j: "k \<le> j" "results j \<noteq> Interrupted"
    using LeastI_ex [of "\<lambda>j. k \<le> j \<and> results j \<noteq> Interrupted"] assms [of k] by (simp_all add: j_def)
  have "results i = Interrupted" if "k \<le> i" "i < j" for i
    using not_less_Least [of i "\<lambda>j. k \<le> j \<and> results j \<noteq> Interrupted"] that by (auto simp: j_def)
  then have skip: "write_all results k content data = write_all results j content data"
    by (rule write_all_retries [OF j(1)])
  show ?case
  proof (cases "data = []")
    case False
    note loop = write_all.simps [of results j content data]
    show ?thesis
    proof (cases "results j")
      case (Wrote n)
      show ?thesis
      proof (cases "n = 0")
        case pos: False
        then have "length (drop n data) < length data" using False by simp
        from less [OF this, of "Suc j" "content @ take n data"]
        obtain later ended where "write_all results (Suc j) (content @ take n data) (drop n data) = Some (later, ended)"
          by auto
        then show ?thesis unfolding skip loop using Wrote pos False by simp
      qed (use loop Wrote False in \<open>simp add: skip\<close>)
    qed (use loop j(2) False in \<open>simp_all add: skip\<close>)
  qed (simp add: write_all.simps [of results k content "[]"])
qed

subsection \<open>What a write leaves on disk\<close>

abbreviation chunk_file_of :: "disk \<Rightarrow> string \<Rightarrow> chunk_file option" where
  "chunk_file_of disk c \<equiv> lookup_file disk (take 2 c) c"

lemma hash_bytes_ok [res_simps]: "hash_bytes H data = Inr c \<longleftrightarrow> length (H data) = 32 \<and> c = digest_to_hex (H data)"
  by (simp add: hash_bytes_def hash_canonical_bytes_ok)

lemma size_limits: "2 ^ 64 - 1 < int n \<longleftrightarrow> \<not> n < 2 ^ 64" "2 ^ 63 - 1 < int n \<longleftrightarrow> \<not> n < 2 ^ 63"
  by auto

lemma store_get_ok:
  "store_get H io disk c = Inr content \<longleftrightarrow>
   is_content_id c \<and> regular_content disk (take 2 c, c) = Some content \<and> length content < 2 ^ 64 \<and> opens io \<and>
   (content = [] \<or> length content < 2 ^ 63 \<and> reads io) \<and> hash_bytes H content = Inr c"
  unfolding store_get_def size_limits
  by (cases "regular_content disk (take 2 c, c)")
    (auto simp: validate_chunk_id_def rbind_eq_Inr check_content_id_ok chunk_path_ok split: if_splits)

text \<open>What \<open>c\<close> names after a write that went through the disks: what it named before, or the data, whose
  hash is then \<open>c\<close>; every other chunk is as it was.\<close>

definition left_or_written :: "hash \<Rightarrow> disk \<Rightarrow> string \<Rightarrow> byte list \<Rightarrow> disk \<Rightarrow> bool" where
  "left_or_written H disk c data d \<longleftrightarrow>
     (\<forall>x. is_content_id x \<longrightarrow>
        chunk_file_of d x = chunk_file_of disk x \<or>
        x = c \<and> chunk_file_of d x = Some (Regular data) \<and> hash_bytes H data = Inr c)"

lemma temporary_write_keeps:
  assumes "create_temporary_file io dir disk = Inr (temporary, opened)"
    and "d \<in> set (temporary_writes dir temporary opened contents)" and "is_content_id x"
  shows "chunk_file_of d x = chunk_file_of disk x"
  using assms content_id_not_temporary [OF assms(3)]
  by (auto simp: create_temporary_file_def temporary_writes_def Let_def lookup_write_file split: option.splits if_splits)

lemma temporary_write_file:
  assumes "create_temporary_file io dir disk = Inr (temporary, opened)" and "is_chunk_directory disk dir"
  shows "lookup_file (last (temporary_writes dir temporary opened contents)) dir temporary =
      Some (Regular (last ([] # contents)))"
    and "is_chunk_directory (last (temporary_writes dir temporary opened contents)) dir"
  using assms
  by (auto simp: create_temporary_file_def temporary_writes_def Let_def lookup_write_file last_map
      split: option.splits if_splits)

lemma create_temporary_name:
  "create_temporary_file io dir disk = Inr (temporary, opened) \<Longrightarrow> is_content_id x \<Longrightarrow> temporary \<noteq> x"
  by (auto simp: create_temporary_file_def Let_def dest: content_id_not_temporary split: option.splits if_splits)

lemma publish_ok:
  assumes "publish H io (dir, c) temporary data disk = Inr final"
  shows "hash_bytes H data = Inr c"
    and "lookup_file disk dir temporary = Some file \<Longrightarrow> final = write_file dir c file (unlink_file dir temporary disk)"
  using assms by (auto simp: publish_def rename_file_def rbind_eq_Inr split: if_splits option.splits)

lemma write_chunk_ok:
  assumes put: "write_chunk H io (take 2 c, c) disk data = Some (passed, ended)" and c: "is_content_id c"
    and dir: "is_chunk_directory disk (take 2 c)"
  shows "(\<forall>d \<in> set passed. left_or_written H disk c data d) \<and>
    (ended = Inr () \<longrightarrow> passed \<noteq> [] \<and> chunk_file_of (last passed) c = Some (Regular data) \<and> hash_bytes H data = Inr c)"
proof (cases "create_temporary_file io (take 2 c) disk")
  case (Inl e)
  with put show ?thesis by (auto simp: write_chunk_def)
next
  case (Inr p)
  obtain temporary opened where p: "p = (temporary, opened)" by (cases p)
  note temporary = Inr [unfolded p]
  obtain contents wrote where wrote: "write_all (write_results io) 0 [] data = Some (contents, wrote)"
    using put temporary by (auto simp: write_chunk_def bind_eq_Some_conv)
  define W where "W = temporary_writes (take 2 c) temporary opened contents"
  have W: "W \<noteq> []" by (simp add: W_def temporary_writes_def)
  have keeps: "left_or_written H disk c data d" if "d \<in> set W" for d
    using temporary_write_keeps [OF temporary] that by (simp add: left_or_written_def W_def)
  note at_temporary = temporary_write_file [OF temporary dir, of contents, folded W_def]
  show ?thesis
  proof (cases "rbind wrote (\<lambda>_. publish H io (take 2 c, c) temporary data (last W))")
    case (Inl e)
    then have eq: "passed = W @ [discard_temporary io (take 2 c) temporary (last W)]" "ended = Inl e"
      using put temporary wrote by (auto simp: write_chunk_def W_def Let_def)
    have "left_or_written H disk c data (discard_temporary io (take 2 c) temporary (last W))"
      using keeps [OF last_in_set [OF W]] create_temporary_name [OF temporary]
      by (auto simp: left_or_written_def discard_temporary_def lookup_unlink_file)
    then show ?thesis using keeps by (auto simp: eq)
  next
    case (Inr final)
    then have eq: "passed = W @ [final]" "ended = Inr ()"
      using put temporary wrote by (auto simp: write_chunk_def W_def Let_def)
    from Inr have "wrote = Inr ()" and pub: "publish H io (take 2 c, c) temporary data (last W) = Inr final"
      by (auto simp: rbind_eq_Inr)
    then have "last ([] # contents) = data" using write_all_prefix [OF wrote] by simp
    then have final: "final = write_file (take 2 c) c (Regular data) (unlink_file (take 2 c) temporary (last W))"
      using publish_ok(2) [OF pub] at_temporary(1) by simp
    have lookup: "chunk_file_of final x = (if x = c then Some (Regular data) else chunk_file_of (last W) x)"
      if "is_content_id x" for x
      using create_temporary_name [OF temporary that] at_temporary(2) by (simp add: final lookup_write_file lookup_unlink_file)
    have "left_or_written H disk c data final"
      using keeps [OF last_in_set [OF W]] publish_ok(1) [OF pub] lookup by (auto simp: left_or_written_def)
    then show ?thesis using keeps lookup [OF c] publish_ok(1) [OF pub] by (auto simp: eq)
  qed
qed

lemma store_put_ok:
  assumes put: "store_put H io disk c data = Some (passed, ended)"
  shows "\<forall>d \<in> set passed. left_or_written H disk c data d"
    and "ended = Inr () \<Longrightarrow> is_content_id c \<and>
      (regular_content disk (take 2 c, c) = None \<and> passed \<noteq> [] \<and>
         chunk_file_of (last passed) c = Some (Regular data) \<and> hash_bytes H data = Inr c \<or>
       passed = [] \<and> (\<exists>content. store_get H (read_back io) disk c = Inr content))"
proof -
  have *: "(\<forall>d \<in> set passed. left_or_written H disk c data d) \<and> (ended = Inr () \<longrightarrow> is_content_id c \<and>
      (regular_content disk (take 2 c, c) = None \<and> passed \<noteq> [] \<and>
         chunk_file_of (last passed) c = Some (Regular data) \<and> hash_bytes H data = Inr c \<or>
       passed = [] \<and> (\<exists>content. store_get H (read_back io) disk c = Inr content)))"
  proof (cases "chunk_path c")
    case (Inl e)
    with put show ?thesis by (auto simp: store_put_def)
  next
    case (Inr path)
    then have c: "is_content_id c" and path: "path = (take 2 c, c)" by (simp_all add: chunk_path_ok)
    note put = put [unfolded store_put_def Inr sum.case path fst_conv]
    show ?thesis
    proof (cases "regular_content disk (take 2 c, c) = None")
      case False
      with put c show ?thesis by (auto simp: rbind_eq_Inr)
    next
      case none: True
      show ?thesis
      proof (cases "create_parent io (take 2 c) disk")
        case (Inl e)
        with put none show ?thesis by auto
      next
        case (Inr made)
        obtain later where chunk: "write_chunk H io (take 2 c, c) made data = Some (later, ended)" and passed: "passed = made # later"
          using put none Inr by (auto simp: bind_eq_Some_conv)
        note made = create_parent_ok [OF Inr]
        have same: "left_or_written H made c data d = left_or_written H disk c data d" for d
          using made by (simp add: left_or_written_def)
        have "left_or_written H disk c data made" using made by (simp add: left_or_written_def)
        then show ?thesis using write_chunk_ok [OF chunk c] made none c by (auto simp: passed same)
      qed
    qed
  qed
  then show "\<forall>d \<in> set passed. left_or_written H disk c data d" by blast
  show "ended = Inr () \<Longrightarrow> is_content_id c \<and>
      (regular_content disk (take 2 c, c) = None \<and> passed \<noteq> [] \<and>
         chunk_file_of (last passed) c = Some (Regular data) \<and> hash_bytes H data = Inr c \<or>
       passed = [] \<and> (\<exists>content. store_get H (read_back io) disk c = Inr content))"
    using * by blast
qed

text \<open>
  C14: A write is atomic. On every disk it passes through, and so after a crash or a failure of any system
  call, each chunk reads as it did before, except that the chunk being written may read as the complete
  data, whose hash is then its name; no interrupted or failed write is ever visible under a chunk's name.
\<close>

theorem put_is_atomic:
  assumes "store_put H io disk c data = Some (passed, ended)" and "d \<in> set passed" and "is_content_id x"
  shows "store_get H rio d x = store_get H rio disk x \<or>
    x = c \<and> regular_content d (take 2 x, x) = Some data \<and> hash_bytes H data = Inr x"
proof -
  have "chunk_file_of d x = chunk_file_of disk x \<or>
      x = c \<and> chunk_file_of d x = Some (Regular data) \<and> hash_bytes H data = Inr c"
    using store_put_ok(1) [OF assms(1)] assms(2,3) by (auto simp: left_or_written_def)
  then show ?thesis
    by (auto simp: store_get_def regular_content_def chunk_path_def assms(3) validate_chunk_id_def)
qed

text \<open>
  C15: What was stored is read back: after a write that returned without an exception the chunk is there, and
  reading it, when the operating system lets it, gives bytes whose hash is its name, namely the data unless
  the chunk was there before.
\<close>

theorem put_then_get:
  assumes "store_put H io disk c data = Some (passed, Inr ())" and "opens rio" and "reads rio" and "length data < 2 ^ 63"
    and "\<And>content. regular_content disk (take 2 c, c) = Some content \<Longrightarrow> length content < 2 ^ 63"
  shows "store_contains (last (disk # passed)) c = Inr True \<and>
    (\<exists>content. store_get H rio (last (disk # passed)) c = Inr content \<and> hash_bytes H content = Inr c \<and>
       (store_contains disk c = Inr False \<longrightarrow> content = data))"
proof -
  have bound: "length xs < 2 ^ 63 \<Longrightarrow> length xs < 2 ^ 64" for xs :: "byte list" by simp
  from store_put_ok(2) [OF assms(1)] have c: "is_content_id c" by simp
  from store_put_ok(2) [OF assms(1)] show ?thesis
    using assms(2-5)
    by (auto simp: store_get_ok store_contains_def validate_chunk_id_def chunk_path_def c regular_content_def bound)
qed

text \<open>
  C16: A write returns whatever the operating system does, as long as it does not interrupt every \<open>write\<close>
  from some call on.
\<close>

theorem put_returns:
  assumes "\<And>k. \<exists>j \<ge> k. write_results io j \<noteq> Interrupted"
  shows "\<exists>passed ended. store_put H io disk c data = Some (passed, ended)"
proof -
  have "\<exists>passed ended. write_chunk H io path d data = Some (passed, ended)" for path d
  proof (cases "create_temporary_file io (fst path) d")
    case (Inr p)
    obtain temporary opened where p: "p = (temporary, opened)" by (cases p)
    obtain contents wrote where "write_all (write_results io) 0 [] data = Some (contents, wrote)"
      using write_all_returns [OF assms] by fastforce
    then show ?thesis by (simp add: write_chunk_def Inr p Let_def split: sum.split)
  qed (simp add: write_chunk_def)
  then have "\<exists>p. write_chunk H io path d data = Some p" for path d by blast
  then show ?thesis
    unfolding store_put_def by (simp split: sum.split add: bind_eq_Some_conv) (metis surj_pair)
qed

subsection \<open>The inventory\<close>

text \<open>What a listing shows of an entry, of a directory and of the store.\<close>

definition entry_infos :: "string \<Rightarrow> string \<times> chunk_file \<Rightarrow> stored_chunk_info list" where
  "entry_infos dir entry =
     (case entry of
        (name, Regular content) \<Rightarrow>
          if \<not> is_temporary_chunk_filename name \<and> is_valid_chunk_filename name \<and> take 2 name = dir
          then [\<lparr>sci_chunk_id = name, sci_size_bytes = of_nat (length content)\<rparr>] else []
      | _ \<Rightarrow> [])"

definition fanout_infos :: "string \<times> fanout \<Rightarrow> stored_chunk_info list" where
  "fanout_infos entry =
     (case entry of
        (dir, Fanout es) \<Rightarrow> if is_valid_fanout_directory_name dir then concat (map (entry_infos dir) es) else []
      | _ \<Rightarrow> [])"

definition chunk_inventory :: "disk \<Rightarrow> stored_chunk_info list" where
  "chunk_inventory disk =
     sort_key sci_chunk_id (case disk of None \<Rightarrow> [] | Some tree \<Rightarrow> concat (map fanout_infos tree))"

lemma fold_res_concat:
  assumes "\<And>x s t. f x s = Inr t \<Longrightarrow> t = s @ g x"
  shows "fold_res f xs s = Inr t \<Longrightarrow> t = s @ concat (map g xs)"
proof (induction xs arbitrary: s)
  case (Cons x xs)
  then obtain mid where "f x s = Inr mid" "fold_res f xs mid = Inr t" by (auto simp: rbind_eq_Inr)
  with Cons.IH assms show ?case by fastforce
qed simp

lemma discover_chunk_ok: "discover_chunk dir entry infos = Inr infos' \<Longrightarrow> infos' = infos @ entry_infos dir entry"
  by (auto simp: discover_chunk_def entry_infos_def split: prod.splits if_splits chunk_file.splits)

lemma discover_fanout_ok: "discover_fanout entry infos = Inr infos' \<Longrightarrow> infos' = infos @ fanout_infos entry"
  by (auto simp: discover_fanout_def fanout_infos_def split: prod.splits if_splits fanout.splits
      intro: fold_res_concat [OF discover_chunk_ok])

lemma sorted_drop_while:
  assumes "sorted (map f xs)"
  shows "drop (length (takeWhile (\<lambda>x. f x \<le> a) xs)) xs = filter (\<lambda>x. a < f x) xs"
  using assms
proof (induction xs)
  case (Cons x xs)
  show ?case
  proof (cases "f x \<le> a")
    case False
    with Cons.prems have "\<forall>y \<in> set (x # xs). a < f y" by auto
    then have "filter (\<lambda>y. a < f y) (x # xs) = x # xs" by (rule filter_True)
    with False show ?thesis by simp
  qed (use Cons in auto)
qed simp

definition after_cursor :: "string option \<Rightarrow> stored_chunk_info list \<Rightarrow> stored_chunk_info list" where
  "after_cursor after infos =
     (case after of None \<Rightarrow> infos | Some a \<Rightarrow> filter (\<lambda>info. a < sci_chunk_id info) infos)"

text \<open>A page is the next entries of the inventory after the cursor; the cursor to continue with is there
  exactly if there are more.\<close>

lemma store_list_chunks_ok:
  assumes "store_list_chunks disk after limit = Inr page"
  shows "1 \<le> limit \<and> limit \<le> 256 \<and> pg_chunks page = take limit (after_cursor after (chunk_inventory disk)) \<and>
    pg_next_after page =
      (if limit < length (after_cursor after (chunk_inventory disk)) then Some (sci_chunk_id (last (pg_chunks page)))
       else None)"
proof (cases disk)
  case None
  with assms show ?thesis
    by (auto simp: store_list_chunks_def chunk_inventory_def after_cursor_def rbind_eq_Inr split: if_splits option.splits)
next
  case (Some tree)
  have limit: "1 \<le> limit" "limit \<le> 256" using assms by (auto simp: store_list_chunks_def split: if_splits)
  then obtain discovered where found: "fold_res discover_fanout tree [] = Inr discovered"
    using assms Some by (auto simp: store_list_chunks_def rbind_eq_Inr split: if_splits)
  define infos where "infos = sort_key sci_chunk_id discovered"
  define start where "start = (case after of None \<Rightarrow> 0
      | Some a \<Rightarrow> length (takeWhile (\<lambda>info. sci_chunk_id info \<le> a) infos))"
  have infos: "infos = chunk_inventory disk"
    using fold_res_concat [OF discover_fanout_ok found] by (simp add: infos_def chunk_inventory_def Some)
  have rest: "drop start infos = after_cursor after infos"
    unfolding start_def after_cursor_def
    by (cases after) (simp_all add: sorted_drop_while infos_def)
  have len: "start \<le> length infos" by (simp add: start_def length_takeWhile_le split: option.split)
  have valid: "(case after of None \<Rightarrow> Inr () | Some chunk_id \<Rightarrow> validate_chunk_id chunk_id) = Inr ()"
    using assms by (auto simp: store_list_chunks_def rbind_eq_Inr split: if_splits)
  have range: "\<not> (limit < 1 \<or> 256 < limit)" using limit by simp
  have "page = \<lparr>pg_chunks = take (min (start + limit) (length infos) - start) (drop start infos),
      pg_next_after = (if min (start + limit) (length infos) < length infos \<and>
           take (min (start + limit) (length infos) - start) (drop start infos) \<noteq> []
         then Some (sci_chunk_id (last (take (min (start + limit) (length infos) - start) (drop start infos)))) else None)\<rparr>"
    using assms
    unfolding store_list_chunks_def if_not_P [OF range] valid rbind_simps Some option.case found Let_def
      infos_def [symmetric] start_def [symmetric]
    by simp
  moreover have "take (min (start + limit) (length infos) - start) (drop start infos) = take limit (drop start infos)"
    using len by (simp add: min_def)
  moreover have "min (start + limit) (length infos) < length infos \<longleftrightarrow> limit < length (drop start infos)"
    using len by auto
  ultimately show ?thesis using limit by (auto simp: rest infos [symmetric])
qed

lemma store_remove_unchanged:
  assumes "store_remove removes disk c = Inr (disk', False)"
  shows "disk' = disk"
proof -
  have "is_content_id c" using assms by (auto simp: store_remove_def rbind_eq_Inr chunk_path_ok)
  with assms show ?thesis
    by (cases "lookup_file disk (take 2 c) c")
      (auto simp: store_remove_def chunk_path_def validate_chunk_id_def split: chunk_file.splits link_target.splits if_splits)
qed

text \<open>Removing a chunk takes it from the inventory.\<close>

lemma store_remove_ok:
  assumes "store_remove removes disk c = Inr (disk', True)"
  shows "chunk_inventory disk' = filter (\<lambda>info. sci_chunk_id info \<noteq> c) (chunk_inventory disk)"
proof -
  have c: "is_content_id c" and disk': "disk' = unlink_file (take 2 c) c disk"
    using assms
    by (auto simp: store_remove_def rbind_eq_Inr chunk_path_ok split: option.splits chunk_file.splits link_target.splits if_splits)
  have entry: "entry_infos dir (n, fl) = filter (\<lambda>info. sci_chunk_id info \<noteq> c) (entry_infos dir (n, fl))"
    if "n \<noteq> c \<or> dir \<noteq> take 2 c" for dir n fl
    using that by (auto simp: entry_infos_def split: chunk_file.splits)
  have gone: "filter (\<lambda>info. sci_chunk_id info \<noteq> c) (entry_infos dir (c, fl)) = []" for dir fl
    by (auto simp: entry_infos_def split: chunk_file.splits)
  have es: "concat (map (entry_infos dir) (if dir = take 2 c then AList.delete c es else es)) =
      filter (\<lambda>info. sci_chunk_id info \<noteq> c) (concat (map (entry_infos dir) es))" for dir es
  proof (induction es)
    case (Cons e es)
    obtain n fl where e: "e = (n, fl)" by (cases e)
    show ?case using Cons entry [of n dir fl] gone [of dir fl] by (auto simp: e AList.delete_eq)
  qed simp
  have fan: "fanout_infos (dir, if dir = take 2 c then change_entries (AList.delete c) f else f) =
      filter (\<lambda>info. sci_chunk_id info \<noteq> c) (fanout_infos (dir, f))" for dir f
    using es [of dir] by (cases f) (auto simp: fanout_infos_def)
  have "concat (map fanout_infos (map (\<lambda>(n, f). (n, if n = take 2 c then change_entries (AList.delete c) f else f)) tree)) =
      filter (\<lambda>info. sci_chunk_id info \<noteq> c) (concat (map fanout_infos tree))" for tree
    by (induction tree) (auto simp: fan)
  then show ?thesis
    by (cases disk) (simp_all add: disk' unlink_file_def change_fanout_def chunk_inventory_def filter_sort)
qed

subsection \<open>Disks with one entry per name\<close>

definition disk_ok :: "disk \<Rightarrow> bool" where
  "disk_ok disk \<longleftrightarrow>
     (case disk of
        None \<Rightarrow> True
      | Some tree \<Rightarrow> distinct (map fst tree) \<and>
          list_all (\<lambda>(dir, fan). case fanout_entries fan of None \<Rightarrow> True | Some es \<Rightarrow> distinct (map fst es)) tree)"

lemma disk_ok_change:
  assumes "disk_ok disk" and "\<And>es. distinct (map fst es) \<Longrightarrow> distinct (map fst (f es))"
  shows "disk_ok (change_fanout f dir disk)"
proof (cases disk)
  case (Some tree)
  have fst: "map (fst \<circ> (\<lambda>(n, fan). (n, if n = dir then change_entries f fan else fan))) tree = map fst tree"
    by (induction tree) auto
  show ?thesis using assms
    by (fastforce simp: Some disk_ok_def change_fanout_def fst list_all_iff split: option.splits if_splits)
qed (simp add: change_fanout_def disk_ok_def)

lemma disk_ok_write [simp]: "disk_ok disk \<Longrightarrow> disk_ok (write_file dir name file disk)"
  unfolding write_file_def by (rule disk_ok_change) (auto simp: distinct_update)

lemma disk_ok_unlink [simp]: "disk_ok disk \<Longrightarrow> disk_ok (unlink_file dir name disk)"
  unfolding unlink_file_def by (rule disk_ok_change) (auto simp: distinct_delete)

lemma store_remove_keeps:
  assumes "store_remove removes disk c = Inr (disk', deleted)"
  shows "disk_ok disk \<Longrightarrow> disk_ok disk'" and "x \<noteq> c \<Longrightarrow> chunk_file_of disk' x = chunk_file_of disk x"
  using assms
  by (auto simp: store_remove_def rbind_eq_Inr chunk_path_ok lookup_unlink_file
      split: option.splits chunk_file.splits link_target.splits if_splits)

text \<open>Every listed chunk is a regular file under its name.\<close>

lemma listed_chunk:
  assumes "disk_ok disk" and "info \<in> set (chunk_inventory disk)"
  shows "is_content_id (sci_chunk_id info) \<and>
    (\<exists>content. chunk_file_of disk (sci_chunk_id info) = Some (Regular content) \<and> sci_size_bytes info = of_nat (length content))"
proof -
  obtain tree where disk: "disk = Some tree" using assms(2) by (cases disk) (simp_all add: chunk_inventory_def)
  obtain dir fan where fan: "(dir, fan) \<in> set tree" and "info \<in> set (fanout_infos (dir, fan))"
    using assms(2) by (auto simp: chunk_inventory_def disk)
  then obtain es entry where es: "fan = Fanout es" and entry: "entry \<in> set es" "info \<in> set (entry_infos dir entry)"
    by (auto simp: fanout_infos_def split: fanout.splits if_splits)
  from entry(2) obtain name content where name: "entry = (name, Regular content)" "is_valid_chunk_filename name"
      "take 2 name = dir" "info = \<lparr>sci_chunk_id = name, sci_size_bytes = of_nat (length content)\<rparr>"
    by (auto simp: entry_infos_def split: prod.splits chunk_file.splits if_splits)
  have "map_of tree dir = Some fan" and "distinct (map fst es)"
    using assms(1) fan by (auto simp: disk disk_ok_def list_all_iff es)
  then have "lookup_file disk dir name = Some (Regular content)"
    using entry(1) by (simp add: lookup_file_def lookup_fanout_def disk es name(1))
  with name show ?thesis by (simp add: is_valid_chunk_filename_def is_content_id_def list_all_iff)
qed

lemma inventory_sorted [simp]: "sorted (map sci_chunk_id (chunk_inventory disk))"
  by (simp add: chunk_inventory_def)

lemma entry_infos_ids: "map sci_chunk_id (concat (map (entry_infos dir) es)) =
    map fst (filter (\<lambda>e. map sci_chunk_id (entry_infos dir e) \<noteq> []) es)"
  by (induction es) (auto simp: entry_infos_def split: chunk_file.splits if_splits)

lemma fanout_infos_directory: "info \<in> set (fanout_infos (dir, fan)) \<Longrightarrow> take 2 (sci_chunk_id info) = dir"
  by (auto simp: fanout_infos_def entry_infos_def split: fanout.splits if_splits chunk_file.splits)

lemma inventory_distinct:
  assumes "disk_ok disk"
  shows "distinct (map sci_chunk_id (chunk_inventory disk))"
proof (cases disk)
  case (Some tree)
  have fan: "distinct (map sci_chunk_id (fanout_infos (dir, fan)))" if "(dir, fan) \<in> set tree" for dir fan
    using assms that
    by (cases fan) (auto simp: Some disk_ok_def list_all_iff fanout_infos_def entry_infos_ids distinct_map_filter)
  have "distinct (map sci_chunk_id (concat (map fanout_infos t)))" if "set t \<subseteq> set tree" "distinct (map fst t)" for t
    using that
  proof (induction t)
    case (Cons e t)
    obtain dir f where e: "e = (dir, f)" by (cases e)
    have "take 2 c = dir" if "c \<in> sci_chunk_id ` set (fanout_infos (dir, f))" for c
      using that fanout_infos_directory by blast
    moreover have "take 2 c \<noteq> dir" if "c \<in> sci_chunk_id ` set (concat (map fanout_infos t))" for c
      using that Cons.prems(2) by (force simp: e dest: fanout_infos_directory)
    ultimately have "sci_chunk_id ` set (fanout_infos (dir, f)) \<inter> sci_chunk_id ` set (concat (map fanout_infos t)) = {}"
      by blast
    moreover have "distinct (map sci_chunk_id (concat (map fanout_infos t)))" using Cons by auto
    moreover have "distinct (map sci_chunk_id (fanout_infos (dir, f)))" using fan Cons.prems(1) e by auto
    ultimately show ?case unfolding e list.map concat.simps map_append distinct_append set_map by blast
  qed simp
  from this [of tree] assms have "distinct (map sci_chunk_id (concat (map fanout_infos tree)))"
    by (auto simp: Some disk_ok_def)
  then have "distinct (concat (map fanout_infos tree))" and "inj_on sci_chunk_id (set (concat (map fanout_infos tree)))"
    by (simp_all only: distinct_map)
  then show ?thesis by (simp add: chunk_inventory_def Some distinct_map)
qed (simp add: chunk_inventory_def)

text \<open>Removing a listed chunk succeeds when it returns.\<close>

lemma remove_listed:
  assumes "disk_ok disk" and "c \<in> sci_chunk_id ` set (chunk_inventory disk)"
    and "store_remove removes disk c = Inr (disk', deleted)"
  shows "deleted"
proof -
  from assms(2) obtain info where "info \<in> set (chunk_inventory disk)" "c = sci_chunk_id info" by blast
  with listed_chunk [OF assms(1)] obtain content where "is_content_id c" "chunk_file_of disk c = Some (Regular content)" by blast
  with assms(3) show ?thesis
    by (auto simp: store_remove_def rbind_eq_Inr chunk_path_ok split: if_splits)
qed

subsection \<open>Witnesses\<close>

text \<open>Two bytes written one at a time after an interrupted call, next to a chunk that is already there.\<close>

definition sample_chunk :: "byte list \<Rightarrow> string" where
  "sample_chunk data = digest_to_hex (sample_hash data)"

definition sample_put_io :: put_io where
  "sample_put_io = \<lparr>directories_ok = True, temporary_suffix = Some ''abc'',
     write_results = (\<lambda>k. if k = 0 then Interrupted else Wrote 1), fsync_ok = True, close_ok = True, rename_ok = True,
     unlink_ok = True, read_back = \<lparr>opens = True, reads = True\<rparr>\<rparr>"

definition sample_disk :: disk where
  "sample_disk = Some [(take 2 (sample_chunk [1]), Fanout [(sample_chunk [1], Regular [1])])]"

definition sample_passed :: "disk list" where
  "sample_passed = (case store_put sample_hash sample_put_io sample_disk (sample_chunk [1, 2]) [1, 2] of
     Some (passed, ended) \<Rightarrow> passed | None \<Rightarrow> [])"

lemma sample_put: "store_put sample_hash sample_put_io sample_disk (sample_chunk [1, 2]) [1, 2] = Some (sample_passed, Inr ())"
proof -
  let ?put = "store_put sample_hash sample_put_io sample_disk (sample_chunk [1, 2]) [1, 2]"
  have "case ?put of Some (passed, ended) \<Rightarrow> ended = Inr () | None \<Rightarrow> False" by code_simp
  then show ?thesis by (simp add: sample_passed_def split: option.splits prod.splits)
qed

theorem put_is_atomic_witness:
  "list_all (\<lambda>d. store_get sample_hash \<lparr>opens = True, reads = True\<rparr> d (sample_chunk [1]) = Inr [1]) sample_passed"
proof -
  have id: "is_content_id (sample_chunk [1])" by code_simp
  have "sample_chunk [1] ! 1 \<noteq> sample_chunk [1, 2] ! 1" by code_simp
  then have other: "sample_chunk [1] \<noteq> sample_chunk [1, 2]" by (rule contrapos_nn) (simp only:)
  have "regular_content sample_disk (take 2 (sample_chunk [1]), sample_chunk [1]) = Some [1]" by code_simp
  then have "store_get sample_hash \<lparr>opens = True, reads = True\<rparr> sample_disk (sample_chunk [1]) = Inr [1]"
    using id by (simp add: store_get_ok hash_bytes_ok sample_chunk_def)
  with put_is_atomic [OF sample_put _ id, where rio = "\<lparr>opens = True, reads = True\<rparr>"] other
  have "\<forall>d \<in> set sample_passed. store_get sample_hash \<lparr>opens = True, reads = True\<rparr> d (sample_chunk [1]) = Inr [1]"
    by metis
  then show ?thesis by (simp only: list_all_iff)
qed

theorem put_then_get_witness:
  "store_get sample_hash \<lparr>opens = True, reads = True\<rparr> (last (sample_disk # sample_passed)) (sample_chunk [1, 2]) = Inr [1, 2]"
proof -
  have "store_contains sample_disk (sample_chunk [1, 2]) = Inr False"
    and "regular_content sample_disk (take 2 (sample_chunk [1, 2]), sample_chunk [1, 2]) = None" by code_simp+
  with put_then_get [OF sample_put, where rio = "\<lparr>opens = True, reads = True\<rparr>"] show ?thesis by fastforce
qed

theorem put_returns_witness:
  "\<exists>passed ended. store_put sample_hash sample_put_io sample_disk (sample_chunk [1, 2]) [3] = Some (passed, ended)"
proof (rule put_returns)
  show "\<exists>j\<ge>k. write_results sample_put_io j \<noteq> Interrupted" for k
    by (rule exI [of _ "Suc k"]) (simp add: sample_put_io_def)
qed

end
