(* ===== verification/Http.thy ===== *)
theory Http
  imports Bytes
begin

section \<open>HTTP messages, JSON values and stateful steps\<close>

text \<open>
  What the services and clients share: requests and responses (\<open>src/http\<close>), JSON values, decimal
  numbers, and the sequencing of steps that change a state even when they fail. Boost.Beast's transport and
  Boost.JSON's parser and serializer are parameters of the definitions that use them; \<open>json_codec\<close>
  states what is relied on.
\<close>

subsection \<open>Steps that keep their effects when they fail\<close>

text \<open>A call to another process: the state after it, and its result or the exception.\<close>

type_synonym ('s, 'a) step = "'s \<Rightarrow> 's \<times> 'a res"

definition step_return :: "'a \<Rightarrow> ('s, 'a) step" where
  "step_return x s = (s, Inr x)"

definition step_of :: "'a res \<Rightarrow> ('s, 'a) step" where
  "step_of r s = (s, r)"

definition step_bind :: "('s, 'a) step \<Rightarrow> ('a \<Rightarrow> ('s, 'b) step) \<Rightarrow> ('s, 'b) step" where
  "step_bind m f s = (case m s of (s', Inl e) \<Rightarrow> (s', Inl e) | (s', Inr x) \<Rightarrow> f x s')"

fun step_fold :: "('a \<Rightarrow> 'b \<Rightarrow> ('s, 'b) step) \<Rightarrow> 'a list \<Rightarrow> 'b \<Rightarrow> ('s, 'b) step" where
  "step_fold f [] acc = step_return acc"
| "step_fold f (x # xs) acc = step_bind (f x acc) (step_fold f xs)"

lemma step_simps [simp]:
  "step_return x s = (s, Inr x)"
  "step_of r s = (s, r)"
  by (simp_all add: step_return_def step_of_def)

lemma step_bind_eq:
  "step_bind m f s = (s', r) \<longleftrightarrow>
   (\<exists>e. m s = (s', Inl e) \<and> r = Inl e) \<or> (\<exists>mid x. m s = (mid, Inr x) \<and> f x mid = (s', r))"
  by (auto simp: step_bind_def split: prod.splits sum.splits)

lemma step_bind_simps [simp]:
  "m s = (s', Inl e) \<Longrightarrow> step_bind m f s = (s', Inl e)"
  "m s = (s', Inr x) \<Longrightarrow> step_bind m f s = f x s'"
  by (simp_all add: step_bind_def)

text \<open>A relation every iteration respects, whether it fails or not, holds over the loop.\<close>

lemma step_fold_relation:
  assumes "\<And>x acc s s' r. f x acc s = (s', r) \<Longrightarrow> R s s'" and "\<And>s. R s s" and "\<And>s t u. R s t \<Longrightarrow> R t u \<Longrightarrow> R s u"
  shows "step_fold f xs acc s = (s', r) \<Longrightarrow> R s s'"
proof (induction xs arbitrary: acc s)
  case (Cons x xs)
  then show ?case using assms by (auto simp: step_bind_eq) blast
qed (simp add: assms(2))

subsection \<open>Messages\<close>

datatype verb = Get | Head | Put | Post | Delete | Other_verb

text \<open>\<open>message[field]\<close> is empty when the field is absent.\<close>

record http_request =
  rq_method :: verb
  rq_target :: string
  rq_content_type :: string
  rq_body :: string

record http_response =
  rs_status :: nat
  rs_content_type :: string
  rs_allow :: string
  rs_body :: string

definition internal_server_error :: http_response where
  "internal_server_error =
     \<lparr>rs_status = 500, rs_content_type = ''text/plain'', rs_allow = [], rs_body = ''internal server error''\<rparr>"

definition payload_too_large :: http_response where
  "payload_too_large =
     \<lparr>rs_status = 413, rs_content_type = ''text/plain'', rs_allow = [], rs_body = ''payload too large''\<rparr>"

text \<open>\<open>Session::do_read\<close> and \<open>Session::handle_request\<close>: the body limit, and a handler that throws. A handler
  that does not return (\<open>None\<close>) gives no response.\<close>

type_synonym 's handler = "http_request \<Rightarrow> 's \<Rightarrow> ('s \<times> http_response res) option"

definition http_serve :: "nat \<Rightarrow> 's handler \<Rightarrow> http_request \<Rightarrow> 's \<Rightarrow> ('s \<times> http_response) option" where
  "http_serve max_request_body_bytes handler request s =
     (if max_request_body_bytes < length (rq_body request) then Some (s, payload_too_large)
      else case handler request s of
             None \<Rightarrow> None
           | Some (s', Inl e) \<Rightarrow> Some (s', internal_server_error)
           | Some (s', Inr response) \<Rightarrow> Some (s', response))"

record http_client_config =
  max_request_body_bytes :: nat
  max_response_body_bytes :: nat

text \<open>\<open>HttpClient::request\<close>. The connection, the write and the read are \<open>exchange\<close>: any answer, or any of
  the errors \<open>map_and_throw\<close> throws.\<close>

definition http_client_request ::
  "http_client_config \<Rightarrow> (http_request \<Rightarrow> ('s, http_response) step) \<Rightarrow> verb \<Rightarrow> string \<Rightarrow> string \<Rightarrow> string option \<Rightarrow>
   ('s, http_response) step" where
  "http_client_request config exchange method target body content_type s =
     (if target = [] \<or> hd target \<noteq> CHR ''/'' then (s, Inl Invalid_argument)
      else if max_request_body_bytes config < length body then (s, Inl Invalid_argument)
      else case exchange \<lparr>rq_method = method, rq_target = target,
                 rq_content_type = (case content_type of None \<Rightarrow> [] | Some t \<Rightarrow> t), rq_body = body\<rparr> s of
             (s', Inl e) \<Rightarrow> (s', Inl e)
           | (s', Inr response) \<Rightarrow>
               if max_response_body_bytes config < length (rs_body response)
               then (s', Inl (Http_client_error ResponseTooLarge)) else (s', Inr response))"

text \<open>A connection that delivers: the answer is the server's, and none is a time-out.\<close>

definition direct_exchange :: "nat \<Rightarrow> 's handler \<Rightarrow> http_request \<Rightarrow> ('s, http_response) step" where
  "direct_exchange max_body handler request s =
     (case http_serve max_body handler request s of
        None \<Rightarrow> (s, Inl (Http_client_error Timeout))
      | Some (s', response) \<Rightarrow> (s', Inr response))"

text \<open>What the client gets over such a connection.\<close>

lemma request_over_direct_exchange:
  assumes "http_client_request config (direct_exchange max_body handler) method target body ct s = (s', Inr response)"
  shows "(s' = s \<and> response = payload_too_large) \<or>
    (\<exists>r. handler \<lparr>rq_method = method, rq_target = target, rq_content_type = (case ct of None \<Rightarrow> [] | Some t \<Rightarrow> t),
        rq_body = body\<rparr> s = Some (s', r) \<and>
      (r = Inr response \<or> (\<exists>e. r = Inl e) \<and> response = internal_server_error))"
  using assms
  by (auto simp: http_client_request_def direct_exchange_def http_serve_def Let_def
      split: if_splits option.splits sum.splits prod.splits)

text \<open>Whatever the client gets, the state is what the handler made of it, or the old one.\<close>

lemma request_state:
  assumes "http_client_request config (direct_exchange max_body handler) method target body ct s = (s', r)"
  shows "s' = s \<or>
    (\<exists>r'. handler \<lparr>rq_method = method, rq_target = target, rq_content_type = (case ct of None \<Rightarrow> [] | Some t \<Rightarrow> t),
        rq_body = body\<rparr> s = Some (s', r'))"
  using assms
  by (auto simp: http_client_request_def direct_exchange_def http_serve_def Let_def
      split: if_splits option.splits sum.splits prod.splits)

lemma request_answers:
  assumes "handler \<lparr>rq_method = method, rq_target = target, rq_content_type = (case ct of None \<Rightarrow> [] | Some t \<Rightarrow> t),
      rq_body = body\<rparr> s = Some (s', Inr response)"
    and "target \<noteq> []" and "hd target = CHR ''/''" and "length body \<le> max_request_body_bytes config"
    and "length body \<le> max_body" and "length (rs_body response) \<le> max_response_body_bytes config"
  shows "http_client_request config (direct_exchange max_body handler) method target body ct s = (s', Inr response)"
  using assms by (simp add: http_client_request_def direct_exchange_def http_serve_def)

subsection \<open>JSON values\<close>

text \<open>\<open>boost::json::value\<close>; an object is its entries in order. No code reads the value of a double.\<close>

datatype json =
  Json_null | Json_bool bool | Json_int64 u64 | Json_uint64 u64 | Json_double | Json_string string
  | Json_array "json list" | Json_object "(string \<times> json) list"

definition json_object_has_exact_keys :: "(string \<times> json) list \<Rightarrow> string list \<Rightarrow> bool" where
  "json_object_has_exact_keys object keys \<longleftrightarrow>
     length object = length keys \<and> list_all (\<lambda>key. map_of object key \<noteq> None) keys"

definition extract_nonnegative_uint64 :: "json \<Rightarrow> u64 option" where
  "extract_nonnegative_uint64 v =
     (case v of
        Json_uint64 n \<Rightarrow> Some n
      | Json_int64 n \<Rightarrow> if sint n < 0 then None else Some n
      | _ \<Rightarrow> None)"

text \<open>What the parser makes of a number the serializer printed: a number that fits is an \<open>int64\<close>.\<close>

fun reparsed :: "json \<Rightarrow> json" where
  "reparsed (Json_uint64 n) = (if uint n < 2 ^ 63 then Json_int64 n else Json_uint64 n)"
| "reparsed (Json_array vs) = Json_array (map reparsed vs)"
| "reparsed (Json_object kvs) = Json_object (map (\<lambda>kv. (fst kv, reparsed (snd kv))) kvs)"
| "reparsed v = v"

text \<open>Values the code serializes: no doubles, no key twice.\<close>

fun json_plain :: "json \<Rightarrow> bool" where
  "json_plain Json_double = False"
| "json_plain (Json_array vs) = list_all json_plain vs"
| "json_plain (Json_object kvs) = (distinct (map fst kvs) \<and> list_all (\<lambda>kv. json_plain (snd kv)) kvs)"
| "json_plain v = True"

definition json_codec :: "(string \<Rightarrow> json option) \<Rightarrow> (json \<Rightarrow> string) \<Rightarrow> bool" where
  "json_codec parse serialize \<longleftrightarrow> (\<forall>v. json_plain v \<longrightarrow> parse (serialize v) = Some (reparsed v))"

lemma extract_reparsed [simp]: "extract_nonnegative_uint64 (reparsed (Json_uint64 n)) = Some n"
proof (cases "uint n < 2 ^ 63")
  case True
  then have "uint n div 2 ^ 63 = 0" by (intro div_pos_pos_trivial) simp_all
  then have "\<not> bit (uint n) 63" by (simp add: bit_iff_odd)
  then have "0 \<le> sint n" by (simp add: sint_uint)
  with True show ?thesis by (simp add: extract_nonnegative_uint64_def)
qed (simp add: extract_nonnegative_uint64_def)

subsection \<open>Decimal numbers\<close>

definition digit_char :: "nat \<Rightarrow> char" where
  "digit_char d = char_of (48 + d)"

text \<open>\<open>std::to_string\<close> and \<open>std::from_chars\<close> over the whole text, for an unsigned 64-bit type.\<close>

fun nat_to_string :: "nat \<Rightarrow> string" where
  "nat_to_string n = (if n < 10 then [digit_char n] else nat_to_string (n div 10) @ [digit_char (n mod 10)])"

definition decimal_value :: "string \<Rightarrow> nat" where
  "decimal_value s = foldl (\<lambda>n c. n * 10 + (of_char c - 48)) 0 s"

definition parse_positive_size :: "string \<Rightarrow> nat option" where
  "parse_positive_size value =
     (if value = [] then None
      else if \<not> list_all is_digit_char value then None
      else if 2 ^ 64 - 1 < int (decimal_value value) then None
      else Some (decimal_value value))"

declare nat_to_string.simps [simp del]

lemma digit_char_facts: "d < 10 \<Longrightarrow> is_digit_char (digit_char d) \<and> of_char (digit_char d) = (48 + d :: nat)"
  by (auto simp: digit_char_def is_digit_char_def less_eq_char_def)

lemma nat_to_string_facts:
  "nat_to_string n \<noteq> [] \<and> list_all is_digit_char (nat_to_string n) \<and> decimal_value (nat_to_string n) = n"
proof (induction n rule: nat_to_string.induct)
  case (1 n)
  then show ?case
    by (subst (1 2 3) nat_to_string.simps) (auto simp: digit_char_facts decimal_value_def)
qed

lemma parse_nat_to_string: "n < 2 ^ 64 \<Longrightarrow> parse_positive_size (nat_to_string n) = Some n"
  using nat_to_string_facts [of n] by (simp add: parse_positive_size_def)

subsection \<open>Characters of bytes\<close>

text \<open>\<open>reinterpret_cast<const char*>\<close>.\<close>

definition char_of_byte :: "byte \<Rightarrow> char" where
  "char_of_byte b = char_of (unat b)"

abbreviation as_chars :: "byte list \<Rightarrow> string" where
  "as_chars bs \<equiv> map char_of_byte bs"

lemma byte_of_char_of_byte [simp]: "byte_of_char (char_of_byte b) = b"
proof -
  have "unat b < 256" using unsigned_less [of b] by simp
  then show ?thesis by (simp add: byte_of_char_def char_of_byte_def)
qed

lemma char_of_byte_of_char [simp]: "char_of_byte (byte_of_char c) = c"
  by (metis as_bytes_inject byte_of_char_of_byte list.inject list.simps(9))

lemma byte_char_comp [simp]: "byte_of_char \<circ> char_of_byte = id" "char_of_byte \<circ> byte_of_char = id"
  by (simp_all add: fun_eq_iff)

lemma as_bytes_as_chars [simp]: "as_bytes (as_chars bs) = bs"
  by (simp add: comp_def)

lemma as_chars_as_bytes [simp]: "as_chars (as_bytes s) = s"
  by (simp add: comp_def)

end
