(* ===== verification/Json_Codec.thy ===== *)
theory Json_Codec
  imports Http
begin

section \<open>A codec for JSON values\<close>

text \<open>
  The parser and the serializer are Boost.JSON's and parameters of the model. This theory shows that what is
  assumed of them, \<open>json_codec\<close>, can hold: a plain text form of JSON values and its reader. The
  concrete runs of the services use it.
\<close>

definition print_text :: "string \<Rightarrow> string" where
  "print_text s = concat (map (\<lambda>c. if c = CHR ''.'' \<or> c = CHR ''+'' then [CHR ''+'', c] else [c]) s) @ ''.''"

fun read_text :: "string \<Rightarrow> (string \<times> string) option" where
  "read_text [] = None"
| "read_text (k # s) =
     (if k = CHR ''.'' then Some ([], s)
      else if k = CHR ''+''
      then (case s of [] \<Rightarrow> None | c # r \<Rightarrow> map_option (\<lambda>(t, r). (c # t, r)) (read_text r))
      else map_option (\<lambda>(t, r). (k # t, r)) (read_text s))"

definition print_number :: "u64 \<Rightarrow> string" where
  "print_number n = nat_to_string (unat n) @ ''.''"

definition read_number :: "string \<Rightarrow> u64 \<times> string" where
  "read_number s = (of_nat (decimal_value (takeWhile is_digit_char s)), tl (dropWhile is_digit_char s))"

fun print_json :: "json \<Rightarrow> string" where
  "print_json Json_null = ''n''"
| "print_json (Json_bool b) = (if b then ''t'' else ''f'')"
| "print_json (Json_int64 n) = ''i'' @ print_number n"
| "print_json (Json_uint64 n) = ''u'' @ print_number n"
| "print_json Json_double = ''d''"
| "print_json (Json_string s) = ''s'' @ print_text s"
| "print_json (Json_array vs) = ''['' @ concat (map print_json vs) @ '']''"
| "print_json (Json_object kvs) =
     ''{'' @ concat (map (\<lambda>kv. ''k'' @ print_text (fst kv) @ print_json (snd kv)) kvs) @ ''}''"

text \<open>The readers take fuel, at least the length of the text.\<close>

fun read_json :: "nat \<Rightarrow> string \<Rightarrow> (json \<times> string) option"
  and read_values :: "nat \<Rightarrow> string \<Rightarrow> (json list \<times> string) option"
  and read_fields :: "nat \<Rightarrow> string \<Rightarrow> ((string \<times> json) list \<times> string) option" where
  "read_json 0 s = None"
| "read_json (Suc f) s =
     (case s of
        [] \<Rightarrow> None
      | c # r \<Rightarrow>
          if c = CHR ''n'' then Some (Json_null, r)
          else if c = CHR ''t'' then Some (Json_bool True, r)
          else if c = CHR ''f'' then Some (Json_bool False, r)
          else if c = CHR ''i'' then Some (Json_int64 (fst (read_number r)), snd (read_number r))
          else if c = CHR ''u'' then Some (Json_uint64 (fst (read_number r)), snd (read_number r))
          else if c = CHR ''d'' then Some (Json_double, r)
          else if c = CHR ''s'' then map_option (\<lambda>(t, r). (Json_string t, r)) (read_text r)
          else if c = CHR ''['' then map_option (\<lambda>(vs, r). (Json_array vs, r)) (read_values f r)
          else if c = CHR ''{'' then map_option (\<lambda>(kvs, r). (Json_object kvs, r)) (read_fields f r)
          else None)"
| "read_values 0 s = None"
| "read_values (Suc f) s =
     (case s of
        [] \<Rightarrow> None
      | c # r \<Rightarrow>
          if c = CHR '']'' then Some ([], r)
          else Option.bind (read_json f s) (\<lambda>(v, r). map_option (\<lambda>(vs, r). (v # vs, r)) (read_values f r)))"
| "read_fields 0 s = None"
| "read_fields (Suc f) s =
     (case s of
        [] \<Rightarrow> None
      | c # r \<Rightarrow>
          if c = CHR ''}'' then Some ([], r)
          else Option.bind (read_text r) (\<lambda>(k, r).
               Option.bind (read_json f r) (\<lambda>(v, r). map_option (\<lambda>(kvs, r). ((k, v) # kvs, r)) (read_fields f r))))"

definition sample_serialize :: "json \<Rightarrow> string" where
  "sample_serialize v = print_json v"

definition sample_parse :: "string \<Rightarrow> json option" where
  "sample_parse s =
     (case read_json (length s) s of Some (v, r) \<Rightarrow> if r = [] then Some (reparsed v) else None | None \<Rightarrow> None)"

subsection \<open>Reading what was printed\<close>

lemma read_print_text: "read_text (print_text s @ r) = Some (s, r)"
  by (induction s) (simp_all add: print_text_def)

lemma read_print_number: "read_number (print_number n @ r) = (n, r)"
proof -
  note facts = nat_to_string_facts [of "unat n"]
  have dot: "\<not> is_digit_char (CHR ''.'')" by (simp add: is_digit_char_def)
  have "takeWhile is_digit_char (print_number n @ r) = nat_to_string (unat n)"
    "dropWhile is_digit_char (print_number n @ r) = CHR ''.'' # r"
    using facts dot by (simp_all add: print_number_def list_all_iff takeWhile_append2 dropWhile_append2)
  with facts show ?thesis by (simp add: read_number_def)
qed

lemma print_json_head: "\<exists>c r. print_json v = c # r \<and> c \<noteq> CHR '']''"
  by (cases v) simp_all

text \<open>Reading inverts printing for a value, given that it does for the values inside it.\<close>

definition reads_back :: "json \<Rightarrow> bool" where
  "reads_back v \<longleftrightarrow> (\<forall>f r. length (print_json v) \<le> f \<longrightarrow> read_json f (print_json v @ r) = Some (v, r))"

lemma read_values_back:
  assumes "\<And>v. v \<in> set vs \<Longrightarrow> reads_back v" and "length (concat (map print_json vs)) < f"
  shows "read_values f (concat (map print_json vs) @ CHR '']'' # r) = Some (vs, r)"
  using assms
proof (induction vs arbitrary: f)
  case Nil
  then show ?case by (cases f) simp_all
next
  case (Cons v vs)
  then obtain g where f: "f = Suc g" by (cases f) simp_all
  obtain c t where v: "print_json v = c # t" "c \<noteq> CHR '']''" using print_json_head by blast
  have "length (print_json v) \<le> g" "length (concat (map print_json vs)) < g"
    using Cons.prems(2) v by (simp_all add: f)
  then have "read_json g (print_json v @ concat (map print_json vs) @ CHR '']'' # r) =
      Some (v, concat (map print_json vs) @ CHR '']'' # r)"
    "read_values g (concat (map print_json vs) @ CHR '']'' # r) = Some (vs, r)"
    using Cons by (simp_all add: reads_back_def)
  then show ?case using v by (simp add: f)
qed

lemma read_fields_back:
  assumes "\<And>kv. kv \<in> set kvs \<Longrightarrow> reads_back (snd kv)"
    and "length (concat (map (\<lambda>kv. ''k'' @ print_text (fst kv) @ print_json (snd kv)) kvs)) < f"
  shows "read_fields f (concat (map (\<lambda>kv. ''k'' @ print_text (fst kv) @ print_json (snd kv)) kvs) @ CHR ''}'' # r) =
    Some (kvs, r)"
  using assms
proof (induction kvs arbitrary: f)
  case Nil
  then show ?case by (cases f) simp_all
next
  case (Cons kv kvs)
  then obtain g where f: "f = Suc g" by (cases f) simp_all
  let ?rest = "concat (map (\<lambda>kv. ''k'' @ print_text (fst kv) @ print_json (snd kv)) kvs)"
  have "length (print_json (snd kv)) \<le> g" "length ?rest < g"
    using Cons.prems(2) by (simp_all add: f)
  then have "read_json g (print_json (snd kv) @ ?rest @ CHR ''}'' # r) = Some (snd kv, ?rest @ CHR ''}'' # r)"
    "read_fields g (?rest @ CHR ''}'' # r) = Some (kvs, r)"
    using Cons by (simp_all add: reads_back_def)
  then show ?case by (simp add: f read_print_text)
qed

lemma reads_backI:
  assumes "\<And>f r. length (print_json v) \<le> Suc f \<Longrightarrow> read_json (Suc f) (print_json v @ r) = Some (v, r)"
  shows "reads_back v"
  unfolding reads_back_def
proof (intro allI impI)
  fix f r
  assume "length (print_json v) \<le> f"
  moreover have "print_json v \<noteq> []" using print_json_head [of v] by auto
  ultimately show "read_json f (print_json v @ r) = Some (v, r)" using assms by (cases f) auto
qed

lemma print_reads_back: "reads_back v"
proof (induction v)
  case (Json_array vs)
  show ?case by (rule reads_backI) (simp add: read_values_back [OF Json_array])
next
  case (Json_object kvs)
  have inner: "reads_back (snd kv)" if "kv \<in> set kvs" for kv
    using Json_object that by (cases kv) (auto simp: snds.simps)
  show ?case by (rule reads_backI) (simp add: read_fields_back [OF inner, simplified])
qed (rule reads_backI, simp add: read_print_text read_print_number)+

lemma sample_codec: "json_codec sample_parse sample_serialize"
proof -
  have "read_json (length (print_json v)) (print_json v @ []) = Some (v, [])" for v
    using print_reads_back unfolding reads_back_def by blast
  then show ?thesis by (simp add: json_codec_def sample_parse_def sample_serialize_def)
qed

end
