(* ===== verification/Storage_Node.thy ===== *)
theory Storage_Node
  imports Chunk_Store Http Json_Codec Objects
begin

section \<open>Storage nodes: service, client and pool\<close>

text \<open>
  The service of a storage node (\<open>src/service/storage_node_service.cpp\<close>) over its chunk store, the client
  for it (\<open>src/client/storage_node_client.cpp\<close>) and the pool of clients by node identifier
  (\<open>src/client/storage_node_client_pool.cpp\<close>). A request goes from a client operation through HTTP and JSON
  to the store and back; the lemmas say that, whatever the text form of JSON, what comes back is what
  the store did.
\<close>

subsection \<open>The service\<close>

definition kChunkCollectionPath :: string where
  "kChunkCollectionPath = ''/v1/chunks''"

definition kChunkRoutePrefix :: string where
  "kChunkRoutePrefix = ''/v1/chunks/''"

definition kOctetStream :: string where
  "kOctetStream = ''application/octet-stream''"

definition kDefaultChunkListLimit :: nat where
  "kDefaultChunkListLimit = 128"

definition make_json_response :: "(json \<Rightarrow> string) \<Rightarrow> nat \<Rightarrow> json \<Rightarrow> http_response" where
  "make_json_response serialize status body =
     \<lparr>rs_status = status, rs_content_type = ''application/json'', rs_allow = [], rs_body = serialize body\<rparr>"

definition make_empty_response :: "nat \<Rightarrow> http_response" where
  "make_empty_response status = \<lparr>rs_status = status, rs_content_type = [], rs_allow = [], rs_body = []\<rparr>"

definition error_response :: "(json \<Rightarrow> string) \<Rightarrow> nat \<Rightarrow> string \<Rightarrow> http_response" where
  "error_response serialize status code = make_json_response serialize status (Json_object [(''error'', Json_string code)])"

definition sha256_hex :: "hash \<Rightarrow> string \<Rightarrow> string res" where
  "sha256_hex H body =
     rbind (sha256_update sha256_new (as_bytes body)) (\<lambda>hasher.
     rbind (sha256_finalize H hasher) (\<lambda>(_, digest). Inr (digest_to_hex digest)))"

definition split_path_and_query :: "string \<Rightarrow> string \<times> string" where
  "split_path_and_query target =
     (let path = takeWhile (\<lambda>c. c \<noteq> CHR ''?'' \<and> c \<noteq> CHR ''#'') target
      in (path, drop (length path + 1) target))"

record chunk_list_query =
  clq_after :: "string option"
  clq_limit :: nat

definition apply_query_pair :: "string \<Rightarrow> string \<Rightarrow> chunk_list_query \<Rightarrow> chunk_list_query option" where
  "apply_query_pair key value parsed =
     (if key = ''after'' then
        if clq_after parsed \<noteq> None then None
        else if \<not> is_valid_chunk_id value then None
        else Some (parsed\<lparr>clq_after := Some value\<rparr>)
      else if key = ''limit'' then
        (case parse_positive_size value of
           None \<Rightarrow> None
         | Some parsed_limit \<Rightarrow>
             if parsed_limit < 1 \<or> 256 < parsed_limit then None else Some (parsed\<lparr>clq_limit := parsed_limit\<rparr>))
      else None)"

text \<open>The loop over the pairs; its argument is the query from \<open>start\<close> on.\<close>

function parse_query_pairs :: "string \<Rightarrow> chunk_list_query \<Rightarrow> chunk_list_query option" where
  "parse_query_pairs query parsed =
     (if query = [] then Some parsed
      else
        let pair = takeWhile (\<lambda>c. c \<noteq> CHR ''&'') query;
            rest = dropWhile (\<lambda>c. c \<noteq> CHR ''&'') query;
            key = takeWhile (\<lambda>c. c \<noteq> CHR ''='') pair
        in if CHR ''='' \<notin> set pair then None
           else case apply_query_pair key (drop (length key + 1) pair) parsed of
                  None \<Rightarrow> None
                | Some parsed \<Rightarrow> if rest = [] then Some parsed else parse_query_pairs (tl rest) parsed)"
  by pat_completeness auto
termination
proof (relation "measure (length \<circ> fst)")
  fix query :: string and parsed p :: chunk_list_query and pair rest key
  assume "rest = dropWhile (\<lambda>c. c \<noteq> CHR ''&'') query" and "rest \<noteq> []"
  then have "length (tl rest) < length rest" "length rest \<le> length query"
    by (simp_all add: length_dropWhile_le)
  then show "((tl rest, p), query, parsed) \<in> measure (length \<circ> fst)" by simp
qed simp

declare parse_query_pairs.simps [simp del]

definition parse_chunk_list_query :: "string \<Rightarrow> chunk_list_query option" where
  "parse_chunk_list_query query = parse_query_pairs query \<lparr>clq_after = None, clq_limit = kDefaultChunkListLimit\<rparr>"

definition chunk_info_json :: "stored_chunk_info \<Rightarrow> json" where
  "chunk_info_json info =
     Json_object [(''chunk_id'', Json_string (sci_chunk_id info)), (''size_bytes'', Json_uint64 (sci_size_bytes info))]"

definition chunk_page_json :: "stored_chunk_page \<Rightarrow> json" where
  "chunk_page_json page =
     Json_object [(''chunks'', Json_array (map chunk_info_json (pg_chunks page))),
       (''next_after'', case pg_next_after page of None \<Rightarrow> Json_null | Some c \<Rightarrow> Json_string c)]"

definition method_not_allowed :: "(json \<Rightarrow> string) \<Rightarrow> string \<Rightarrow> http_response" where
  "method_not_allowed serialize allowed = (error_response serialize 405 ''method_not_allowed'')\<lparr>rs_allow := allowed\<rparr>"

definition handle_chunk_collection ::
  "(json \<Rightarrow> string) \<Rightarrow> http_request \<Rightarrow> disk \<Rightarrow> string \<Rightarrow> http_response res" where
  "handle_chunk_collection serialize request disk query =
     (if rq_method request \<noteq> Get then Inr (method_not_allowed serialize ''GET'')
      else case parse_chunk_list_query query of
             None \<Rightarrow> Inr (error_response serialize 400 ''invalid_request'')
           | Some parsed_query \<Rightarrow>
               rbind (store_list_chunks disk (clq_after parsed_query) (clq_limit parsed_query)) (\<lambda>page.
               Inr (make_json_response serialize 200 (chunk_page_json page))))"

text \<open>The constructor's check of the node identifier.\<close>

definition storage_node_service_new :: "string \<Rightarrow> string res" where
  "storage_node_service_new node_id = rbind (check_node_id node_id) (\<lambda>_. Inr node_id)"

text \<open>What the operating system does during a request.\<close>

record node_io =
  nio_put :: put_io
  nio_get :: read_io
  nio_removes :: bool

definition handle_chunk :: "hash \<Rightarrow> (json \<Rightarrow> string) \<Rightarrow> node_io \<Rightarrow> string \<Rightarrow> disk handler" where
  "handle_chunk H serialize io chunk_id request disk =
     (if \<not> is_valid_chunk_id chunk_id then Some (disk, Inr (error_response serialize 400 ''invalid_chunk_id''))
      else case rq_method request of
        Head \<Rightarrow>
          Some (disk, rbind (store_contains disk chunk_id) (\<lambda>found.
            Inr (make_empty_response (if found then 200 else 404))))
      | Put \<Rightarrow>
          if rq_content_type request \<noteq> kOctetStream
          then Some (disk, Inr (error_response serialize 415 ''unsupported_media_type''))
          else (case sha256_hex H (rq_body request) of
                  Inl e \<Rightarrow> Some (disk, Inl e)
                | Inr calculated_hash \<Rightarrow>
                    if calculated_hash \<noteq> chunk_id
                    then Some (disk, Inr (error_response serialize 422 ''chunk_hash_mismatch''))
                    else map_option (\<lambda>(passed, ended). (last (disk # passed),
                             rbind ended (\<lambda>_. Inr (make_empty_response 204))))
                           (store_put H (nio_put io) disk chunk_id (as_bytes (rq_body request))))
      | Get \<Rightarrow>
          Some (disk, rbind (store_contains disk chunk_id) (\<lambda>found.
            if \<not> found then Inr (error_response serialize 404 ''chunk_not_found'')
            else rbind (store_get H (nio_get io) disk chunk_id) (\<lambda>bytes.
                 Inr \<lparr>rs_status = 200, rs_content_type = ''application/octet-stream'', rs_allow = [],
                      rs_body = as_chars bytes\<rparr>)))
      | Delete \<Rightarrow>
          (case store_remove (nio_removes io) disk chunk_id of
             Inl e \<Rightarrow> Some (disk, Inl e)
           | Inr (disk', deleted) \<Rightarrow>
               Some (disk', Inr (make_json_response serialize 200
                 (Json_object [(''chunk_id'', Json_string chunk_id), (''deleted'', Json_bool deleted)]))))
      | _ \<Rightarrow> Some (disk, Inr (method_not_allowed serialize ''GET, HEAD, PUT, DELETE'')))"

definition node_handle_request :: "hash \<Rightarrow> (json \<Rightarrow> string) \<Rightarrow> node_io \<Rightarrow> string \<Rightarrow> disk handler" where
  "node_handle_request H serialize io node_id request disk =
     (if rq_target request = ''/health'' then
        if rq_method request = Get
        then Some (disk, Inr (make_json_response serialize 200
               (Json_object [(''status'', Json_string ''ok''), (''node_id'', Json_string node_id)])))
        else Some (disk, Inr (method_not_allowed serialize ''GET''))
      else
        let (path, query) = split_path_and_query (rq_target request)
        in if path = kChunkCollectionPath then Some (disk, handle_chunk_collection serialize request disk query)
           else if take (length kChunkRoutePrefix) path = kChunkRoutePrefix
           then handle_chunk H serialize io (drop (length kChunkRoutePrefix) path) request disk
           else Some (disk, Inr (error_response serialize 404 ''not_found'')))"

subsection \<open>The client\<close>

definition chunk_target :: "string \<Rightarrow> string" where
  "chunk_target chunk_id = ''/v1/chunks/'' @ chunk_id"

definition chunk_collection_target :: "string option \<Rightarrow> nat \<Rightarrow> string" where
  "chunk_collection_target after limit =
     ''/v1/chunks?limit='' @ nat_to_string limit @
     (case after of None \<Rightarrow> [] | Some chunk_id \<Rightarrow> ''&after='' @ chunk_id)"

definition extract_error_code :: "(string \<Rightarrow> json option) \<Rightarrow> string \<Rightarrow> string" where
  "extract_error_code parse body =
     (case parse body of
        Some (Json_object object) \<Rightarrow>
          (case map_of object ''error'' of Some (Json_string code) \<Rightarrow> code | _ \<Rightarrow> ''http_error'')
      | _ \<Rightarrow> ''http_error'')"

definition parse_chunk_info :: "json \<Rightarrow> stored_chunk_info res" where
  "parse_chunk_info entry =
     (case entry of
        Json_object chunk_object \<Rightarrow>
          if \<not> json_object_has_exact_keys chunk_object [''chunk_id'', ''size_bytes''] then Inl Remote_protocol_error
          else (case map_of chunk_object ''chunk_id'' of
                  Some (Json_string chunk_id) \<Rightarrow>
                    if \<not> is_valid_chunk_id chunk_id then Inl Remote_protocol_error
                    else (case Option.bind (map_of chunk_object ''size_bytes'') extract_nonnegative_uint64 of
                            None \<Rightarrow> Inl Remote_protocol_error
                          | Some size_bytes \<Rightarrow> Inr \<lparr>sci_chunk_id = chunk_id, sci_size_bytes = size_bytes\<rparr>)
                | _ \<Rightarrow> Inl Remote_protocol_error)
      | _ \<Rightarrow> Inl Remote_protocol_error)"

definition parse_chunk_inventory_page :: "(string \<Rightarrow> json option) \<Rightarrow> string \<Rightarrow> stored_chunk_page res" where
  "parse_chunk_inventory_page parse body =
     (case parse body of
        Some (Json_object object) \<Rightarrow>
          if \<not> json_object_has_exact_keys object [''chunks'', ''next_after''] then Inl Remote_protocol_error
          else (case (map_of object ''chunks'', map_of object ''next_after'') of
                  (Some (Json_array entries), Some next) \<Rightarrow>
                    rbind (case next of Json_string _ \<Rightarrow> Inr () | Json_null \<Rightarrow> Inr () | _ \<Rightarrow> Inl Remote_protocol_error) (\<lambda>_.
                    rbind (map_res parse_chunk_info entries) (\<lambda>page_chunks.
                    rbind (case next of
                             Json_string next_after \<Rightarrow>
                               if \<not> is_valid_chunk_id next_after then Inl Remote_protocol_error
                               else Inr (Some next_after)
                           | _ \<Rightarrow> Inr None) (\<lambda>next_after.
                    Inr \<lparr>pg_chunks = page_chunks, pg_next_after = next_after\<rparr>)))
                | _ \<Rightarrow> Inl Remote_protocol_error)
      | _ \<Rightarrow> Inl Remote_protocol_error)"

definition parse_delete_chunk_response :: "(string \<Rightarrow> json option) \<Rightarrow> string \<Rightarrow> string \<Rightarrow> bool res" where
  "parse_delete_chunk_response parse chunk_id body =
     (case parse body of
        Some (Json_object object) \<Rightarrow>
          if \<not> json_object_has_exact_keys object [''chunk_id'', ''deleted''] then Inl Remote_protocol_error
          else if map_of object ''chunk_id'' \<noteq> Some (Json_string chunk_id) then Inl Remote_protocol_error
          else (case map_of object ''deleted'' of
                  Some (Json_bool deleted) \<Rightarrow> Inr deleted
                | _ \<Rightarrow> Inl Remote_protocol_error)
      | _ \<Rightarrow> Inl Remote_protocol_error)"

text \<open>A client is its configuration, the connection and the JSON parser; the operations are steps of the
  state behind the connection.\<close>

record 's node_client =
  nc_config :: http_client_config
  nc_exchange :: "http_request \<Rightarrow> ('s, http_response) step"
  nc_parse :: "string \<Rightarrow> json option"

definition node_request :: "'s node_client \<Rightarrow> verb \<Rightarrow> string \<Rightarrow> string \<Rightarrow> string option \<Rightarrow> ('s, http_response) step" where
  "node_request client method target body content_type =
     http_client_request (nc_config client) (nc_exchange client) method target body content_type"

definition has_chunk_on :: "'s node_client \<Rightarrow> string \<Rightarrow> ('s, bool) step" where
  "has_chunk_on client chunk_id =
     (if \<not> is_valid_chunk_id chunk_id then step_of (Inl Invalid_argument)
      else step_bind (node_request client Head (chunk_target chunk_id) [] None) (\<lambda>response.
           step_of (if rs_status response = 200 then Inr True
                    else if rs_status response = 404 then Inr False
                    else Inl Remote_api_error)))"

definition put_chunk_on :: "'s node_client \<Rightarrow> string \<Rightarrow> byte list \<Rightarrow> ('s, unit) step" where
  "put_chunk_on client chunk_id bytes =
     (if \<not> is_valid_chunk_id chunk_id then step_of (Inl Invalid_argument)
      else step_bind (node_request client Put (chunk_target chunk_id) (as_chars bytes) (Some ''application/octet-stream''))
           (\<lambda>response. step_of (if rs_status response \<noteq> 204 then Inl Remote_api_error else Inr ())))"

definition read_chunk_response :: "hash \<Rightarrow> (string \<Rightarrow> json option) \<Rightarrow> string \<Rightarrow> http_response \<Rightarrow> byte list option res" where
  "read_chunk_response H parse chunk_id response =
     (if rs_status response = 404 \<and> extract_error_code parse (rs_body response) = ''chunk_not_found'' then Inr None
      else if rs_status response \<noteq> 200 then Inl Remote_api_error
      else if rs_content_type response \<noteq> ''application/octet-stream'' then Inl Remote_protocol_error
      else rbind (sha256_hex H (rs_body response)) (\<lambda>actual.
           if actual \<noteq> chunk_id then Inl Remote_protocol_error else Inr (Some (as_bytes (rs_body response)))))"

definition get_chunk_from :: "hash \<Rightarrow> 's node_client \<Rightarrow> string \<Rightarrow> ('s, byte list option) step" where
  "get_chunk_from H client chunk_id =
     (if \<not> is_valid_chunk_id chunk_id then step_of (Inl Invalid_argument)
      else step_bind (node_request client Get (chunk_target chunk_id) [] None) (\<lambda>response.
           step_of (read_chunk_response H (nc_parse client) chunk_id response)))"

definition list_chunks_on :: "'s node_client \<Rightarrow> string option \<Rightarrow> nat \<Rightarrow> ('s, stored_chunk_page) step" where
  "list_chunks_on client after limit =
     (if limit < 1 \<or> 256 < limit then step_of (Inl Invalid_argument)
      else if (case after of Some chunk_id \<Rightarrow> \<not> is_valid_chunk_id chunk_id | None \<Rightarrow> False)
      then step_of (Inl Invalid_argument)
      else step_bind (node_request client Get (chunk_collection_target after limit) [] None) (\<lambda>response.
           step_of (if rs_status response \<noteq> 200 then Inl Remote_api_error
                    else if rs_content_type response \<noteq> ''application/json'' then Inl Remote_protocol_error
                    else parse_chunk_inventory_page (nc_parse client) (rs_body response))))"

definition delete_chunk_on :: "'s node_client \<Rightarrow> string \<Rightarrow> ('s, bool) step" where
  "delete_chunk_on client chunk_id =
     (if \<not> is_valid_chunk_id chunk_id then step_of (Inl Invalid_argument)
      else step_bind (node_request client Delete (chunk_target chunk_id) [] None) (\<lambda>response.
           step_of (if rs_status response \<noteq> 200 then Inl Remote_api_error
                    else if rs_content_type response \<noteq> ''application/json'' then Inl Remote_protocol_error
                    else parse_delete_chunk_response (nc_parse client) chunk_id (rs_body response))))"

definition parse_health_response :: "(string \<Rightarrow> json option) \<Rightarrow> string \<Rightarrow> string res" where
  "parse_health_response parse body =
     (case parse body of
        Some (Json_object object) \<Rightarrow>
          if \<not> json_object_has_exact_keys object [''status'', ''node_id''] then Inl Remote_protocol_error
          else if map_of object ''status'' \<noteq> Some (Json_string ''ok'') then Inl Remote_protocol_error
          else (case map_of object ''node_id'' of
                  Some (Json_string node_id) \<Rightarrow>
                    if check_node_id node_id \<noteq> Inr () then Inl Remote_protocol_error else Inr node_id
                | _ \<Rightarrow> Inl Remote_protocol_error)
      | _ \<Rightarrow> Inl Remote_protocol_error)"

definition probe_node_id :: "'s node_client \<Rightarrow> ('s, string) step" where
  "probe_node_id client =
     step_bind (node_request client Get ''/health'' [] None) (\<lambda>response.
     step_of (if rs_status response \<noteq> 200 then Inl Remote_api_error
              else if rs_content_type response \<noteq> ''application/json'' then Inl Remote_protocol_error
              else parse_health_response (nc_parse client) (rs_body response)))"

subsection \<open>The pool\<close>

text \<open>A \<open>std::map\<close> from node identifiers to clients; its entries in insertion order, each key once.\<close>

type_synonym 's client_pool = "(string \<times> 's node_client) list"

definition add_pool_client :: "string \<times> 's node_client \<Rightarrow> 's client_pool \<Rightarrow> 's client_pool res" where
  "add_pool_client nc clients =
     (if fst nc = [] then Inl Invalid_argument
      else if map_of clients (fst nc) \<noteq> None then Inl Invalid_argument
      else Inr (clients @ [nc]))"

definition client_pool_new :: "(string \<times> 's node_client) list \<Rightarrow> 's client_pool res" where
  "client_pool_new clients = fold_res add_pool_client clients []"

definition client_for :: "'s client_pool \<Rightarrow> string \<Rightarrow> 's node_client res" where
  "client_for pool node_id = (case map_of pool node_id of None \<Rightarrow> Inl Invalid_argument | Some client \<Rightarrow> Inr client)"

definition pool_contains :: "'s client_pool \<Rightarrow> string \<Rightarrow> bool" where
  "pool_contains pool node_id \<longleftrightarrow> map_of pool node_id \<noteq> None"

subsection \<open>Routing\<close>

text \<open>A client of the service over a connection that delivers.\<close>

definition direct_client ::
  "hash \<Rightarrow> (string \<Rightarrow> json option) \<Rightarrow> (json \<Rightarrow> string) \<Rightarrow> node_io \<Rightarrow> string \<Rightarrow> nat \<Rightarrow> http_client_config \<Rightarrow> disk node_client" where
  "direct_client H parse serialize io node_id max_body config =
     \<lparr>nc_config = config, nc_exchange = direct_exchange max_body (node_handle_request H serialize io node_id),
      nc_parse = parse\<rparr>"

lemma hex_char_not_special:
  "is_lower_hex c \<Longrightarrow> c \<noteq> CHR ''?'' \<and> c \<noteq> CHR ''#'' \<and> c \<noteq> CHR ''&'' \<and> c \<noteq> CHR ''=''"
  by (auto simp: is_lower_hex_def is_digit_char_def)

lemma digit_char_not_special: "is_digit_char c \<Longrightarrow> c \<noteq> CHR ''?'' \<and> c \<noteq> CHR ''#'' \<and> c \<noteq> CHR ''&'' \<and> c \<noteq> CHR ''=''"
  by (auto simp: is_digit_char_def)

lemma content_id_chars: "is_content_id c \<Longrightarrow> x \<in> set c \<Longrightarrow> is_lower_hex x"
  by (simp add: is_content_id_def list_all_iff)

lemma takeWhile_all: "\<forall>x \<in> set xs. P x \<Longrightarrow> takeWhile P (xs @ ys) = xs @ takeWhile P ys"
  by (induction xs) simp_all

lemmas takeWhile_self = takeWhile_eq_all_conv [THEN iffD2]

lemma dropWhile_all: "\<forall>x \<in> set xs. P x \<Longrightarrow> dropWhile P (xs @ ys) = dropWhile P ys"
  by (induction xs) simp_all

lemma route_chunk:
  assumes "is_content_id c" and "rq_target request = chunk_target c"
  shows "node_handle_request H serialize io node_id request disk = handle_chunk H serialize io c request disk"
proof -
  have path: "takeWhile (\<lambda>c. c \<noteq> CHR ''?'' \<and> c \<noteq> CHR ''#'') c = c"
    using hex_char_not_special content_id_chars [OF assms(1)] by (simp add: takeWhile_eq_all_conv)
  have "c \<noteq> []" using assms(1) by (auto simp: is_content_id_def)
  then show ?thesis
    by (simp add: node_handle_request_def assms(2) chunk_target_def split_path_and_query_def Let_def
        kChunkCollectionPath_def kChunkRoutePrefix_def path)
qed

lemma parse_limit_after:
  assumes "1 \<le> limit" and "limit \<le> 256" and "\<And>c. after = Some c \<Longrightarrow> is_content_id c"
  shows "parse_chunk_list_query (''limit='' @ nat_to_string limit @
      (case after of None \<Rightarrow> [] | Some c \<Rightarrow> ''&after='' @ c)) = Some \<lparr>clq_after = after, clq_limit = limit\<rparr>"
proof -
  note facts = nat_to_string_facts [of limit]
  have digits: "\<forall>x \<in> set (nat_to_string limit). x \<noteq> CHR ''&'' \<and> x \<noteq> CHR ''=''"
    using facts digit_char_not_special by (auto simp: list_all_iff)
  have limit: "parse_positive_size (nat_to_string limit) = Some limit" using assms(2) by (simp add: parse_nat_to_string)
  have last_pair: "parse_query_pairs (key @ CHR ''='' # val) p = apply_query_pair key val p"
    if "\<forall>x \<in> set key. x \<noteq> CHR ''&'' \<and> x \<noteq> CHR ''=''" "\<forall>x \<in> set val. x \<noteq> CHR ''&'' \<and> x \<noteq> CHR ''=''" for key val p
    using that
    by (subst parse_query_pairs.simps) (simp add: Let_def takeWhile_all takeWhile_self dropWhile_all split: option.split)
  have next_pair: "parse_query_pairs (key @ CHR ''='' # val @ CHR ''&'' # others) p =
      Option.bind (apply_query_pair key val p) (parse_query_pairs others)"
    if "\<forall>x \<in> set key. x \<noteq> CHR ''&'' \<and> x \<noteq> CHR ''=''" "\<forall>x \<in> set val. x \<noteq> CHR ''&'' \<and> x \<noteq> CHR ''=''" for key val others p
    using that
    by (subst parse_query_pairs.simps) (simp add: Let_def takeWhile_all dropWhile_all split: option.split)
  have keys: "\<forall>x \<in> set ''limit''. x \<noteq> CHR ''&'' \<and> x \<noteq> CHR ''=''" "\<forall>x \<in> set ''after''. x \<noteq> CHR ''&'' \<and> x \<noteq> CHR ''=''"
    by simp_all
  have set_limit: "apply_query_pair ''limit'' (nat_to_string limit) p = Some (p\<lparr>clq_limit := limit\<rparr>)" for p
    using limit assms(1,2) by (simp add: apply_query_pair_def)
  show ?thesis
  proof (cases after)
    case None
    then show ?thesis
      using last_pair [OF keys(1) digits] by (simp add: parse_chunk_list_query_def set_limit)
  next
    case (Some c)
    then have c: "is_content_id c" using assms(3) by simp
    have hex: "\<forall>x \<in> set c. x \<noteq> CHR ''&'' \<and> x \<noteq> CHR ''=''"
      using hex_char_not_special content_id_chars [OF c] by blast
    have "apply_query_pair ''after'' c p = Some (p\<lparr>clq_after := Some c\<rparr>)" if "clq_after p = None" for p
      using c that by (simp add: apply_query_pair_def is_valid_chunk_id_eq)
    then show ?thesis
      using next_pair [OF keys(1) digits, of "''after='' @ c"] last_pair [OF keys(2) hex]
      by (simp add: Some parse_chunk_list_query_def set_limit)
  qed
qed

lemma route_collection:
  assumes "1 \<le> limit" and "limit \<le> 256" and "\<And>c. after = Some c \<Longrightarrow> is_content_id c"
    and "rq_target request = chunk_collection_target after limit" and "rq_method request = Get"
  shows "node_handle_request H serialize io node_id request disk =
    Some (disk, rbind (store_list_chunks disk after limit) (\<lambda>page.
      Inr (make_json_response serialize 200 (chunk_page_json page))))"
proof -
  let ?rest = "''limit='' @ nat_to_string limit @ (case after of None \<Rightarrow> [] | Some c \<Rightarrow> ''&after='' @ c)"
  have "rq_target request = ''/v1/chunks'' @ CHR ''?'' # ?rest"
    by (simp add: assms(4) chunk_collection_target_def)
  then have split: "split_path_and_query (rq_target request) = (''/v1/chunks'', ?rest)"
    and ne: "rq_target request \<noteq> ''/health''"
    by (simp_all add: split_path_and_query_def Let_def)
  show ?thesis
    using parse_limit_after [OF assms(1,2,3)] ne assms(5)
    by (simp add: node_handle_request_def split kChunkCollectionPath_def handle_chunk_collection_def)
qed

subsection \<open>Through the wire\<close>

lemma sha256_hex_eq: "sha256_hex H body = hash_bytes H (as_bytes body)"
  by (simp add: sha256_hex_def hash_bytes_def hash_canonical_bytes_def)

lemma codec_parse: "json_codec parse serialize \<Longrightarrow> json_plain v \<Longrightarrow> parse (serialize v) = Some (reparsed v)"
  by (simp add: json_codec_def)

lemma parse_chunk_info_json:
  "parse_chunk_info (reparsed (chunk_info_json info)) =
   (if is_content_id (sci_chunk_id info) then Inr info else Inl Remote_protocol_error)"
  by (simp add: parse_chunk_info_def chunk_info_json_def json_object_has_exact_keys_def is_valid_chunk_id_eq
      del: reparsed.simps(1))

lemma map_parse_infos:
  "map_res parse_chunk_info (map (\<lambda>info. reparsed (chunk_info_json info)) infos) =
   (if \<forall>info \<in> set infos. is_content_id (sci_chunk_id info) then Inr infos else Inl Remote_protocol_error)"
  by (induction infos) (simp_all add: parse_chunk_info_json)

lemma parse_page_json:
  assumes "json_codec parse serialize"
  shows "parse_chunk_inventory_page parse (serialize (chunk_page_json page)) =
    (if (\<forall>info \<in> set (pg_chunks page). is_content_id (sci_chunk_id info)) \<and>
        (\<forall>c. pg_next_after page = Some c \<longrightarrow> is_content_id c)
     then Inr page else Inl Remote_protocol_error)"
proof -
  have "json_plain (chunk_page_json page)"
    by (auto simp: chunk_page_json_def chunk_info_json_def list_all_iff split: option.split)
  then have parsed: "parse (serialize (chunk_page_json page)) = Some (reparsed (chunk_page_json page))"
    by (rule codec_parse [OF assms])
  show ?thesis
    unfolding parse_chunk_inventory_page_def parsed
    by (cases "pg_next_after page")
      (auto simp: chunk_page_json_def json_object_has_exact_keys_def comp_def map_parse_infos is_valid_chunk_id_eq)
qed

text \<open>What a client of the service gets, from what the handler does with the request.\<close>

lemma direct_request:
  assumes "node_request (direct_client H parse serialize io node_id max_body config) method target body ct disk = (disk', r)"
    and "node_handle_request H serialize io node_id
      \<lparr>rq_method = method, rq_target = target, rq_content_type = (case ct of None \<Rightarrow> [] | Some t \<Rightarrow> t), rq_body = body\<rparr>
      disk = Some (d, hr)"
  shows "(disk' = disk \<and> (\<forall>response. r = Inr response \<longrightarrow> response = payload_too_large)) \<or>
    (disk' = d \<and> (\<forall>response. r = Inr response \<longrightarrow> hr = Inr response \<or> (\<exists>e. hr = Inl e) \<and> response = internal_server_error))"
  using assms
  by (auto simp: node_request_def direct_client_def http_client_request_def direct_exchange_def http_serve_def Let_def
      split: if_splits option.splits sum.splits prod.splits)

lemmas error_statuses [simp] = payload_too_large_def internal_server_error_def make_json_response_def
  error_response_def make_empty_response_def method_not_allowed_def

lemma direct_parse [simp]: "nc_parse (direct_client H parse serialize io node_id max_body config) = parse"
  by (simp add: direct_client_def)

text \<open>What the client reads is what the store answered, and a read changes nothing.\<close>

lemma list_over_wire:
  assumes codec: "json_codec parse serialize"
    and list: "list_chunks_on (direct_client H parse serialize io node_id max_body config) after limit disk = (disk', r)"
  shows "disk' = disk \<and> (\<forall>page. r = Inr page \<longrightarrow> store_list_chunks disk after limit = Inr page \<and>
    (\<forall>c. pg_next_after page = Some c \<longrightarrow> is_content_id c))"
proof (cases "limit < 1 \<or> 256 < limit \<or> (\<exists>c. after = Some c \<and> \<not> is_content_id c)")
  case True
  with list show ?thesis by (auto simp: list_chunks_on_def is_valid_chunk_id_eq split: if_splits option.splits)
next
  case False
  then have args: "1 \<le> limit" "limit \<le> 256" "\<And>c. after = Some c \<Longrightarrow> is_content_id c" by auto
  let ?client = "direct_client H parse serialize io node_id max_body config"
  obtain mid sent where sent: "node_request ?client Get (chunk_collection_target after limit) [] None disk = (mid, sent)"
    by (cases "node_request ?client Get (chunk_collection_target after limit) [] None disk")
  have answer: "(disk', r) = step_bind (\<lambda>s. (mid, sent)) (\<lambda>response.
      step_of (if rs_status response \<noteq> 200 then Inl Remote_api_error
               else if rs_content_type response \<noteq> ''application/json'' then Inl Remote_protocol_error
               else parse_chunk_inventory_page parse (rs_body response))) disk"
    using list False sent
    by (cases after; cases sent) (auto simp: list_chunks_on_def is_valid_chunk_id_eq step_bind_def)
  note cases = direct_request [OF sent, unfolded option.case, OF route_collection [where after = after, OF args]]
  show ?thesis
  proof (cases "store_list_chunks disk after limit")
    case (Inl e)
    with cases answer show ?thesis by (cases sent) (auto simp: step_bind_def)
  next
    case (Inr page)
    with cases answer show ?thesis
      by (cases sent) (auto simp: step_bind_def parse_page_json [OF codec] split: if_splits)
  qed
qed

text \<open>The request for one chunk: what it sends and where it goes.\<close>

lemma chunk_request:
  assumes "is_content_id c"
    and "node_request (direct_client H parse serialize io node_id max_body config) method (chunk_target c) body ct disk = (disk', r)"
    and "handle_chunk H serialize io c
      \<lparr>rq_method = method, rq_target = chunk_target c,
       rq_content_type = (case ct of None \<Rightarrow> [] | Some t \<Rightarrow> t), rq_body = body\<rparr> disk = Some (d, hr)"
  shows "(disk' = disk \<and> (\<forall>response. r = Inr response \<longrightarrow> response = payload_too_large)) \<or>
    (disk' = d \<and> (\<forall>response. r = Inr response \<longrightarrow> hr = Inr response \<or> (\<exists>e. hr = Inl e) \<and> response = internal_server_error))"
proof (rule direct_request [OF assms(2)])
  show "node_handle_request H serialize io node_id
      \<lparr>rq_method = method, rq_target = chunk_target c,
       rq_content_type = (case ct of None \<Rightarrow> [] | Some t \<Rightarrow> t), rq_body = body\<rparr> disk = Some (d, hr)"
    using assms(3) by (subst route_chunk [OF assms(1)]) simp_all
qed

lemma delete_over_wire:
  assumes codec: "json_codec parse serialize"
    and del: "delete_chunk_on (direct_client H parse serialize io node_id max_body config) c disk = (disk', r)"
  shows "(disk' = disk \<or> store_remove (nio_removes io) disk c = Inr (disk', True)) \<and>
    (\<forall>deleted. r = Inr deleted \<longrightarrow> store_remove (nio_removes io) disk c = Inr (disk', deleted))"
proof (cases "is_content_id c")
  case False
  with del show ?thesis by (auto simp: delete_chunk_on_def is_valid_chunk_id_eq)
next
  case c: True
  let ?client = "direct_client H parse serialize io node_id max_body config"
  obtain mid sent where sent: "node_request ?client Delete (chunk_target c) [] None disk = (mid, sent)"
    by (cases "node_request ?client Delete (chunk_target c) [] None disk")
  have answer: "(disk', r) = step_bind (\<lambda>s. (mid, sent)) (\<lambda>response.
      step_of (if rs_status response \<noteq> 200 then Inl Remote_api_error
               else if rs_content_type response \<noteq> ''application/json'' then Inl Remote_protocol_error
               else parse_delete_chunk_response parse c (rs_body response))) disk"
    using del c sent by (cases sent) (auto simp: delete_chunk_on_def is_valid_chunk_id_eq step_bind_def)
  show ?thesis
  proof (cases "store_remove (nio_removes io) disk c")
    case (Inl e)
    then have "handle_chunk H serialize io c
      \<lparr>rq_method = Delete, rq_target = chunk_target c, rq_content_type = (case None of None \<Rightarrow> [] | Some t \<Rightarrow> t),
       rq_body = []\<rparr> disk = Some (disk, Inl e)"
      using c by (simp add: handle_chunk_def is_valid_chunk_id_eq)
    from chunk_request [OF c sent this] answer show ?thesis
      by (cases sent) (auto simp: step_bind_def split: if_splits)
  next
    case (Inr p)
    obtain d deleted where p: "p = (d, deleted)" by (cases p)
    let ?v = "Json_object [(''chunk_id'', Json_string c), (''deleted'', Json_bool deleted)]"
    from Inr p have "handle_chunk H serialize io c
      \<lparr>rq_method = Delete, rq_target = chunk_target c, rq_content_type = (case None of None \<Rightarrow> [] | Some t \<Rightarrow> t),
       rq_body = []\<rparr> disk = Some (d, Inr (make_json_response serialize 200 ?v))"
      using c by (simp add: handle_chunk_def is_valid_chunk_id_eq)
    note cases = chunk_request [OF c sent this]
    have "parse (serialize ?v) = Some (reparsed ?v)" by (rule codec_parse [OF codec]) simp
    then have "parse_delete_chunk_response parse c (serialize ?v) = Inr deleted"
      by (simp add: parse_delete_chunk_response_def json_object_has_exact_keys_def)
    moreover have "d = disk \<or> deleted"
      using Inr p store_remove_unchanged [of "nio_removes io" disk c d] by auto
    ultimately show ?thesis using cases answer Inr p
      by (cases sent) (auto simp: step_bind_def split: if_splits)
  qed
qed

lemma has_over_wire:
  assumes has: "has_chunk_on (direct_client H parse serialize io node_id max_body config) c disk = (disk', r)"
  shows "disk' = disk \<and> (\<forall>found. r = Inr found \<longrightarrow> store_contains disk c = Inr found)"
proof (cases "is_content_id c")
  case False
  with has show ?thesis by (auto simp: has_chunk_on_def is_valid_chunk_id_eq)
next
  case c: True
  let ?client = "direct_client H parse serialize io node_id max_body config"
  obtain mid sent where sent: "node_request ?client Head (chunk_target c) [] None disk = (mid, sent)"
    by (cases "node_request ?client Head (chunk_target c) [] None disk")
  have answer: "(disk', r) = step_bind (\<lambda>s. (mid, sent)) (\<lambda>response.
      step_of (if rs_status response = 200 then Inr True else if rs_status response = 404 then Inr False
               else Inl Remote_api_error)) disk"
    using has c sent by (cases sent) (auto simp: has_chunk_on_def is_valid_chunk_id_eq step_bind_def)
  have "handle_chunk H serialize io c
      \<lparr>rq_method = Head, rq_target = chunk_target c, rq_content_type = (case None of None \<Rightarrow> [] | Some t \<Rightarrow> t),
       rq_body = []\<rparr> disk = Some (disk, rbind (store_contains disk c) (\<lambda>found.
         Inr (make_empty_response (if found then 200 else 404))))"
    using c by (simp add: handle_chunk_def is_valid_chunk_id_eq)
  from chunk_request [OF c sent this] answer show ?thesis
    by (cases sent; cases "store_contains disk c") (auto simp: step_bind_def split: if_splits)
qed

lemma get_over_wire:
  assumes codec: "json_codec parse serialize"
    and get: "get_chunk_from H (direct_client H parse serialize io node_id max_body config) c disk = (disk', r)"
  shows "disk' = disk \<and> (\<forall>bytes. r = Inr (Some bytes) \<longrightarrow> store_get H (nio_get io) disk c = Inr bytes) \<and>
    (r = Inr None \<longrightarrow> store_contains disk c = Inr False)"
proof (cases "is_content_id c")
  case False
  with get show ?thesis by (auto simp: get_chunk_from_def is_valid_chunk_id_eq)
next
  case c: True
  let ?client = "direct_client H parse serialize io node_id max_body config"
  obtain mid sent where sent: "node_request ?client Get (chunk_target c) [] None disk = (mid, sent)"
    by (cases "node_request ?client Get (chunk_target c) [] None disk")
  have answer: "(disk', r) = step_bind (\<lambda>s. (mid, sent)) (\<lambda>response. step_of (read_chunk_response H parse c response)) disk"
    using get c sent by (cases sent) (auto simp: get_chunk_from_def is_valid_chunk_id_eq step_bind_def)
  obtain found where found: "store_contains disk c = Inr found"
    using c by (simp add: store_contains_def validate_chunk_id_def chunk_path_def)
  have handled: "handle_chunk H serialize io c
      \<lparr>rq_method = Get, rq_target = chunk_target c, rq_content_type = (case None of None \<Rightarrow> [] | Some t \<Rightarrow> t),
       rq_body = []\<rparr> disk = Some (disk, if \<not> found then Inr (error_response serialize 404 ''chunk_not_found'')
         else rbind (store_get H (nio_get io) disk c) (\<lambda>bytes.
                 Inr \<lparr>rs_status = 200, rs_content_type = ''application/octet-stream'', rs_allow = [],
                      rs_body = as_chars bytes\<rparr>))"
    using c by (simp add: handle_chunk_def is_valid_chunk_id_eq found)
  from chunk_request [OF c sent this] answer show ?thesis
    by (cases sent; cases found; cases "store_get H (nio_get io) disk c")
      (auto simp: step_bind_def read_chunk_response_def rbind_eq_Inr found split: if_splits)
qed

lemma put_over_wire:
  assumes put: "put_chunk_on (direct_client H parse serialize io node_id max_body config) c data disk = (disk', r)"
  shows "(disk' = disk \<or> (\<exists>passed ended. store_put H (nio_put io) disk c data = Some (passed, ended) \<and> disk' = last (disk # passed))) \<and>
    (r = Inr () \<longrightarrow> (\<exists>passed. store_put H (nio_put io) disk c data = Some (passed, Inr ()) \<and> disk' = last (disk # passed)))"
proof (cases "is_content_id c")
  case False
  with put show ?thesis by (auto simp: put_chunk_on_def is_valid_chunk_id_eq)
next
  case c: True
  let ?client = "direct_client H parse serialize io node_id max_body config"
  let ?rq = "\<lparr>rq_method = Put, rq_target = chunk_target c,
       rq_content_type = (case Some ''application/octet-stream'' of None \<Rightarrow> [] | Some t \<Rightarrow> t), rq_body = as_chars data\<rparr>"
  obtain mid sent where sent: "node_request ?client Put (chunk_target c) (as_chars data) (Some ''application/octet-stream'') disk = (mid, sent)"
    by (cases "node_request ?client Put (chunk_target c) (as_chars data) (Some ''application/octet-stream'') disk")
  have answer: "(disk', r) = step_bind (\<lambda>s. (mid, sent)) (\<lambda>response.
      step_of (if rs_status response \<noteq> 204 then Inl Remote_api_error else Inr ())) disk"
    using put c sent by (cases sent) (auto simp: put_chunk_on_def is_valid_chunk_id_eq step_bind_def)
  show ?thesis
  proof (cases "handle_chunk H serialize io c ?rq disk")
    case None
    then have "node_handle_request H serialize io node_id ?rq disk = None"
      by (subst route_chunk [OF c]) simp_all
    then have "mid = disk \<and> (\<forall>response. sent = Inr response \<longrightarrow> response = payload_too_large)"
      using sent by (auto simp: node_request_def direct_client_def http_client_request_def direct_exchange_def http_serve_def
          Let_def split: if_splits option.splits sum.splits prod.splits)
    with answer show ?thesis by (cases sent) (auto simp: step_bind_def split: if_splits)
  next
    case (Some p)
    obtain d hr where p: "p = (d, hr)" by (cases p)
    have d: "(d = disk \<and> (\<forall>response. hr = Inr response \<longrightarrow> rs_status response \<noteq> 204)) \<or>
        (\<exists>passed ended. store_put H (nio_put io) disk c data = Some (passed, ended) \<and> d = last (disk # passed) \<and>
           hr = rbind ended (\<lambda>_. Inr (make_empty_response 204)))"
      using Some p c by (auto simp: handle_chunk_def is_valid_chunk_id_eq kOctetStream_def split: sum.splits if_splits)
    note cases = chunk_request [OF c sent Some [unfolded p]]
    from d show ?thesis
    proof (elim disjE exE conjE)
      assume "d = disk" and "\<forall>response. hr = Inr response \<longrightarrow> rs_status response \<noteq> 204"
      with cases answer show ?thesis by (cases sent) (auto simp: step_bind_def split: if_splits)
    next
      fix passed ended
      assume "store_put H (nio_put io) disk c data = Some (passed, ended)" and "d = last (disk # passed)"
        and "hr = rbind ended (\<lambda>_. Inr (make_empty_response 204))"
      with cases answer show ?thesis
        by (cases sent; cases ended) (auto simp: step_bind_def split: if_splits)
    qed
  qed
qed

subsection \<open>A node that serves a store\<close>

text \<open>
  What an engine relies on: each operation of a client acts on the store behind it as the operation of the
  store does, or, when it fails, not at all. \<open>view\<close> is the disk of the node in the state of the world,
  \<open>rest\<close> what the node cannot touch. A failed \<open>put\<close> or \<open>delete\<close> may have taken effect.
\<close>

locale served_store =
  fixes H :: hash
    and client :: "'s node_client"
    and view :: "'s \<Rightarrow> disk"
    and rest :: "'s \<Rightarrow> 'r"
  assumes list_served: "list_chunks_on client after limit s = (s', listed) \<Longrightarrow>
      view s' = view s \<and> rest s' = rest s \<and>
      (\<forall>page. listed = Inr page \<longrightarrow> store_list_chunks (view s) after limit = Inr page)"
    and delete_served: "delete_chunk_on client c s = (s', removed) \<Longrightarrow>
      rest s' = rest s \<and> (view s' = view s \<or> (\<exists>removes. store_remove removes (view s) c = Inr (view s', True))) \<and>
      (\<forall>deleted. removed = Inr deleted \<longrightarrow> (\<exists>removes. store_remove removes (view s) c = Inr (view s', deleted)))"
    and has_served: "has_chunk_on client c s = (s', there) \<Longrightarrow>
      view s' = view s \<and> rest s' = rest s \<and> (\<forall>found. there = Inr found \<longrightarrow> store_contains (view s) c = Inr found)"
    and get_served: "get_chunk_from H client c s = (s', got) \<Longrightarrow>
      view s' = view s \<and> rest s' = rest s \<and>
      (\<forall>bytes. got = Inr (Some bytes) \<longrightarrow> (\<exists>io. store_get H io (view s) c = Inr bytes)) \<and>
      (got = Inr None \<longrightarrow> store_contains (view s) c = Inr False)"
    and put_served: "put_chunk_on client c data s = (s', stored) \<Longrightarrow>
      rest s' = rest s \<and>
      (view s' = view s \<or> (\<exists>io passed ended. store_put H io (view s) c data = Some (passed, ended) \<and>
         view s' = last (view s # passed))) \<and>
      (stored = Inr () \<longrightarrow> (\<exists>io passed. store_put H io (view s) c data = Some (passed, Inr ()) \<and>
         view s' = last (view s # passed)))"
begin

text \<open>A delete leaves every other chunk, and the disk well formed.\<close>

lemma delete_keeps:
  assumes "delete_chunk_on client c s = (s', removed)"
  shows "rest s' = rest s" and "disk_ok (view s) \<Longrightarrow> disk_ok (view s')"
    and "x \<noteq> c \<Longrightarrow> chunk_file_of (view s') x = chunk_file_of (view s) x"
  using delete_served [OF assms] store_remove_keeps(1) [of _ "view s" c "view s'" True]
    store_remove_keeps(2) [of _ "view s" c "view s'" True x]
  by fastforce+

lemma delete_listed:
  assumes "delete_chunk_on client c s = (s', Inr deleted)" and "disk_ok (view s)"
    and "c \<in> sci_chunk_id ` set (chunk_inventory (view s))"
  shows "deleted \<and> chunk_inventory (view s') = filter (\<lambda>info. sci_chunk_id info \<noteq> c) (chunk_inventory (view s))"
proof -
  obtain removes where removed: "store_remove removes (view s) c = Inr (view s', deleted)"
    using delete_served [OF assms(1)] by blast
  with remove_listed [OF assms(2,3)] have deleted: "deleted = True" by blast
  show ?thesis using store_remove_ok [OF removed [unfolded deleted]] deleted by simp
qed

text \<open>A put leaves every other chunk; when it succeeds the chunk is there, whole and unharmed.\<close>

lemma put_keeps:
  assumes "put_chunk_on client c data s = (s', stored)"
  shows "rest s' = rest s" and "left_or_written H (view s) c data (view s')"
proof -
  show "rest s' = rest s" using put_served [OF assms] by blast
  from put_served [OF assms] have "view s' = view s \<or> (\<exists>io passed ended. store_put H io (view s) c data = Some (passed, ended) \<and>
         view s' = last (view s # passed))" by blast
  then show "left_or_written H (view s) c data (view s')"
  proof (elim disjE exE conjE)
    fix io passed ended
    assume "store_put H io (view s) c data = Some (passed, ended)" "view s' = last (view s # passed)"
    then show ?thesis using store_put_ok(1) by (cases "passed = []") (auto simp: left_or_written_def)
  qed (simp add: left_or_written_def)
qed

end

text \<open>The service behind a connection that delivers is such a node, whatever the text form of JSON.\<close>

lemma direct_client_serves:
  assumes "json_codec parse serialize"
  shows "served_store H (direct_client H parse serialize io node_id max_body config) (\<lambda>disk. disk) (\<lambda>_. ())"
proof (unfold_locales, goal_cases)
  case (1 after limit s s' listed)
  then show ?case using list_over_wire [OF assms] by blast
next
  case (2 c s s' removed)
  then show ?case using delete_over_wire [OF assms 2] by blast
next
  case (3 c s s' there)
  then show ?case using has_over_wire by blast
next
  case (4 c s s' got)
  then show ?case using get_over_wire [OF assms 4] by blast
next
  case (5 c data s s' stored)
  then show ?case using put_over_wire [OF 5] by blast
qed

text \<open>A node as a part of a larger world: its state is read and replaced there.\<close>

definition step_at :: "('w \<Rightarrow> 's) \<Rightarrow> ('s \<Rightarrow> 'w \<Rightarrow> 'w) \<Rightarrow> ('s, 'a) step \<Rightarrow> ('w, 'a) step" where
  "step_at part replace m w = (case m (part w) of (s, r) \<Rightarrow> (replace s w, r))"

definition client_at :: "('w \<Rightarrow> 's) \<Rightarrow> ('s \<Rightarrow> 'w \<Rightarrow> 'w) \<Rightarrow> 's node_client \<Rightarrow> 'w node_client" where
  "client_at part replace client =
     \<lparr>nc_config = nc_config client, nc_exchange = \<lambda>request. step_at part replace (nc_exchange client request),
      nc_parse = nc_parse client\<rparr>"

lemma node_request_at:
  assumes "\<And>w. replace (part w) w = w"
  shows "node_request (client_at part replace client) method target body ct =
    step_at part replace (node_request client method target body ct)"
  by (rule ext) (simp add: node_request_def http_client_request_def client_at_def step_at_def assms
      split: prod.split sum.split)

lemma operation_at:
  assumes "\<And>w. replace (part w) w = w"
  shows "step_bind (step_at part replace m) (\<lambda>x. step_of (f x)) = step_at part replace (step_bind m (\<lambda>x. step_of (f x)))"
    and "step_of r = step_at part replace (step_of r)"
  by (rule ext, simp add: step_bind_def step_at_def assms split: prod.split sum.split)+

lemma client_at_parse [simp]: "nc_parse (client_at part replace client) = nc_parse client"
  by (simp add: client_at_def)

lemma client_operations_at:
  assumes same: "\<And>w. replace (part w) w = w"
  shows "list_chunks_on (client_at part replace client) after limit = step_at part replace (list_chunks_on client after limit)"
    and "delete_chunk_on (client_at part replace client) c = step_at part replace (delete_chunk_on client c)"
    and "has_chunk_on (client_at part replace client) c = step_at part replace (has_chunk_on client c)"
    and "get_chunk_from H (client_at part replace client) c = step_at part replace (get_chunk_from H client c)"
    and "put_chunk_on (client_at part replace client) c data = step_at part replace (put_chunk_on client c data)"
  by (simp_all add: list_chunks_on_def delete_chunk_on_def has_chunk_on_def get_chunk_from_def put_chunk_on_def
      node_request_at [of replace part, OF same] operation_at(1) [of replace part, OF same]
      operation_at(2) [of replace part, OF same, symmetric] cong: if_cong)

lemma served_store_at:
  assumes served: "served_store H client view inner"
    and get_put: "\<And>s w. part (replace s w) = s" and put_get: "\<And>w. replace (part w) w = w"
    and other: "\<And>s w. rest (replace s w) = rest w"
  shows "served_store H (client_at part replace client) (\<lambda>w. view (part w)) rest"
proof -
  note at = client_operations_at [of replace part, OF put_get]
  have inner: "m (part w) = (part w', r) \<and> rest w' = rest w" if "step_at part replace m w = (w', r)" for m w w' r
    using that by (auto simp: step_at_def get_put other split: prod.splits)
  show ?thesis
  proof (unfold_locales, goal_cases)
    case (1 after limit w w' listed)
    then have "step_at part replace (list_chunks_on client after limit) w = (w', listed)" by (simp only: at)
    from inner [OF this] served_store.list_served [OF served] show ?case by blast
  next
    case (2 c w w' removed)
    then have "step_at part replace (delete_chunk_on client c) w = (w', removed)" by (simp only: at)
    from inner [OF this] served_store.delete_served [OF served] show ?case by blast
  next
    case (3 c w w' there)
    then have "step_at part replace (has_chunk_on client c) w = (w', there)" by (simp only: at)
    from inner [OF this] served_store.has_served [OF served] show ?case by blast
  next
    case (4 c w w' got)
    then have "step_at part replace (get_chunk_from H client c) w = (w', got)" by (simp only: at)
    from inner [OF this] served_store.get_served [OF served] show ?case by blast
  next
    case (5 c data w w' stored)
    then have "step_at part replace (put_chunk_on client c data) w = (w', stored)" by (simp only: at)
    from inner [OF this] served_store.put_served [OF served] show ?case by blast
  qed
qed

text \<open>The contract holds of the model of the service, here with the sample text form of JSON.\<close>

interpretation sample_node: served_store H "direct_client H sample_parse sample_serialize io node_id max_body config"
    "\<lambda>disk. disk" "\<lambda>_. ()"
  by (rule direct_client_serves [OF sample_codec])

end
