(* ===== verification/Metadata_Wire.thy ===== *)
theory Metadata_Wire
  imports Repository Storage_Node
begin

section \<open>Between the metadata client and the metadata service\<close>

text \<open>
  What the routes of the metadata service and the operations of its client share: reading JSON fields, bodies and
  error answers, and the network between them. Each request of a client reaches the service after any
  requests of others, or not at all, and its answer may be lost; the request of a client is handled under the
  repository's mutex, hence in one step.
\<close>

subsection \<open>Fields of JSON objects\<close>

definition string_field :: "(string \<times> json) list \<Rightarrow> string \<Rightarrow> string option" where
  "string_field object key = (case map_of object key of Some (Json_string s) \<Rightarrow> Some s | _ \<Rightarrow> None)"

definition bool_field :: "(string \<times> json) list \<Rightarrow> string \<Rightarrow> bool option" where
  "bool_field object key = (case map_of object key of Some (Json_bool b) \<Rightarrow> Some b | _ \<Rightarrow> None)"

definition array_field :: "(string \<times> json) list \<Rightarrow> string \<Rightarrow> json list option" where
  "array_field object key = (case map_of object key of Some (Json_array vs) \<Rightarrow> Some vs | _ \<Rightarrow> None)"

definition kPostgresBigintMax :: u64 where
  "kPostgresBigintMax = 0x7FFFFFFFFFFFFFFF"

text \<open>\<open>extract_nonnegative_uint64\<close> of the metadata code, whose numbers must fit a \<open>bigint\<close>.\<close>

definition extract_bigint :: "json \<Rightarrow> u64 option" where
  "extract_bigint v =
     (case v of
        Json_uint64 n \<Rightarrow> if kPostgresBigintMax < n then None else Some n
      | Json_int64 n \<Rightarrow> if sint n < 0 then None else if kPostgresBigintMax < n then None else Some n
      | _ \<Rightarrow> None)"

definition bigint_field :: "(string \<times> json) list \<Rightarrow> string \<Rightarrow> u64 option" where
  "bigint_field object key = Option.bind (map_of object key) extract_bigint"

lemma extract_bigint_eq:
  "extract_bigint v =
   Option.bind (extract_nonnegative_uint64 v) (\<lambda>n. if kPostgresBigintMax < n then None else Some n)"
  by (simp add: extract_bigint_def extract_nonnegative_uint64_def split: json.split)

lemma extract_bigint_reparsed:
  "extract_bigint (reparsed (Json_uint64 n)) = (if kPostgresBigintMax < n then None else Some n)"
  by (simp add: extract_bigint_eq del: reparsed.simps)

subsection \<open>Bodies of requests\<close>

text \<open>How each handler reads its body, up to the object it must be.\<close>

definition with_json_object ::
  "(string \<Rightarrow> json option) \<Rightarrow> (json \<Rightarrow> string) \<Rightarrow> http_request \<Rightarrow> database \<Rightarrow>
   ((string \<times> json) list \<Rightarrow> database \<times> http_response res) \<Rightarrow> database \<times> http_response res" where
  "with_json_object parse serialize request db handle =
     (if rq_content_type request \<noteq> ''application/json''
      then (db, Inr (error_response serialize 415 ''unsupported_media_type''))
      else case parse (rq_body request) of
             None \<Rightarrow> (db, Inr (error_response serialize 400 ''invalid_json''))
           | Some (Json_object body) \<Rightarrow> handle body
           | Some _ \<Rightarrow> (db, Inr (error_response serialize 400 ''invalid_request'')))"

text \<open>A transaction of the repository: the handler's answers to its result and to the exceptions it catches.\<close>

definition transact ::
  "database \<Rightarrow> (database \<times> 'a) res \<Rightarrow> ('a \<Rightarrow> http_response) \<Rightarrow> (exn \<Rightarrow> http_response option) \<Rightarrow>
   database \<times> http_response res" where
  "transact db result answer catches =
     (case result of
        Inr (db', x) \<Rightarrow> (db', Inr (answer x))
      | Inl e \<Rightarrow> (db, case catches e of Some response \<Rightarrow> Inr response | None \<Rightarrow> Inl e))"

lemma transact_eq:
  "transact db result answer catches = (db', hr) \<longleftrightarrow>
   (\<exists>x. result = Inr (db', x) \<and> hr = Inr (answer x)) \<or>
   (\<exists>e. result = Inl e \<and> db' = db \<and> hr = (case catches e of Some response \<Rightarrow> Inr response | None \<Rightarrow> Inl e))"
  by (auto simp: transact_def split: sum.splits)

subsection \<open>The network\<close>

datatype fate = Delivered | Request_lost http_client_error_kind | Answer_lost http_client_error_kind

record metadata_world =
  mw_db :: database
  mw_calls :: nat

text \<open>What happens around the call of a given number: the requests of others before it, and its fate.\<close>

record network =
  nw_others :: "nat \<Rightarrow> database \<Rightarrow> database"
  nw_fate :: "nat \<Rightarrow> fate"

definition metadata_exchange ::
  "network \<Rightarrow> nat \<Rightarrow> database handler \<Rightarrow> http_request \<Rightarrow> ('w metadata_world_scheme, http_response) step" where
  "metadata_exchange net max_body handler request w =
     (let k = mw_calls w;
          w = w\<lparr>mw_db := nw_others net k (mw_db w), mw_calls := Suc k\<rparr>
      in case nw_fate net k of
           Request_lost e \<Rightarrow> (w, Inl (Http_client_error e))
         | sent \<Rightarrow>
             (case http_serve max_body handler request (mw_db w) of
                None \<Rightarrow> (w, Inl (Http_client_error Timeout))
              | Some (db, response) \<Rightarrow>
                  (w\<lparr>mw_db := db\<rparr>, case sent of Answer_lost e \<Rightarrow> Inl (Http_client_error e) | _ \<Rightarrow> Inr response)))"

text \<open>\<open>MetadataClient\<close>: its configuration, its connection, and Boost.JSON.\<close>

record 's metadata_client =
  mc_config :: http_client_config
  mc_exchange :: "http_request \<Rightarrow> ('s, http_response) step"
  mc_parse :: "string \<Rightarrow> json option"
  mc_serialize :: "json \<Rightarrow> string"

definition metadata_request ::
  "'s metadata_client \<Rightarrow> verb \<Rightarrow> string \<Rightarrow> string \<Rightarrow> string option \<Rightarrow> ('s, http_response) step" where
  "metadata_request client method target body content_type =
     http_client_request (mc_config client) (mc_exchange client) method target body content_type"

definition post_json :: "'s metadata_client \<Rightarrow> string \<Rightarrow> json \<Rightarrow> ('s, http_response) step" where
  "post_json client target v =
     metadata_request client Post target (mc_serialize client v) (Some ''application/json'')"

text \<open>What the client does with an answer whose status is not the one it expects.\<close>

definition expect_status :: "nat \<Rightarrow> http_response \<Rightarrow> 'a res \<Rightarrow> 'a res" where
  "expect_status status response result = (if rs_status response \<noteq> status then Inl Remote_api_error else result)"

definition networked_client ::
  "network \<Rightarrow> (string \<Rightarrow> json option) \<Rightarrow> (json \<Rightarrow> string) \<Rightarrow> nat \<Rightarrow> database handler \<Rightarrow> http_client_config \<Rightarrow>
   'w metadata_world_scheme metadata_client" where
  "networked_client net parse serialize max_body handler config =
     \<lparr>mc_config = config, mc_exchange = metadata_exchange net max_body handler, mc_parse = parse,
      mc_serialize = serialize\<rparr>"

text \<open>What a request over the network did: the requests of others, and at most one run of the handler; an
  answer is the handler's.\<close>

definition others_step :: "network \<Rightarrow> database \<Rightarrow> database \<Rightarrow> bool" where
  "others_step net db db' \<longleftrightarrow> db' = db \<or> (\<exists>k. db' = nw_others net k db)"

definition exchanged ::
  "network \<Rightarrow> database handler \<Rightarrow> http_request \<Rightarrow> 'w metadata_world_scheme \<Rightarrow> 'w metadata_world_scheme \<Rightarrow>
   http_response res \<Rightarrow> bool" where
  "exchanged net handler request w w' r \<longleftrightarrow>
     metadata_world.more w' = metadata_world.more w \<and>
     (\<exists>db. others_step net (mw_db w) db \<and>
        (mw_db w' = db \<and> (\<forall>response. r = Inr response \<longrightarrow> response = payload_too_large) \<or>
         (\<exists>hr. handler request db = Some (mw_db w', hr) \<and>
            (\<forall>response. r = Inr response \<longrightarrow>
               hr = Inr response \<or> (\<exists>e. hr = Inl e) \<and> response = internal_server_error))))"

lemma metadata_exchange_ok:
  assumes "metadata_exchange net max_body handler request w = (w', r)"
  shows "exchanged net handler request w w' r"
proof -
  define db where "db = nw_others net (mw_calls w) (mw_db w)"
  have db: "others_step net (mw_db w) db" by (auto simp: others_step_def db_def)
  show ?thesis
  proof (cases "\<exists>e. nw_fate net (mw_calls w) = Request_lost e")
    case True
    with assms db show ?thesis by (fastforce simp: metadata_exchange_def Let_def exchanged_def simp flip: db_def)
  next
    case False
    then have sent: "(case http_serve max_body handler request db of
          None \<Rightarrow> (w\<lparr>mw_db := db, mw_calls := Suc (mw_calls w)\<rparr>, Inl (Http_client_error Timeout))
        | Some (db', response) \<Rightarrow> (w\<lparr>mw_calls := Suc (mw_calls w), mw_db := db'\<rparr>,
            case nw_fate net (mw_calls w) of Answer_lost e \<Rightarrow> Inl (Http_client_error e) | _ \<Rightarrow> Inr response)) = (w', r)"
      using assms by (cases "nw_fate net (mw_calls w)")
        (simp_all add: metadata_exchange_def Let_def db_def split: option.splits prod.splits)
    show ?thesis
    proof (cases "handler request db")
      case None
      with sent db show ?thesis by (auto simp: http_serve_def exchanged_def split: if_splits fate.splits)
    next
      case (Some p)
      obtain db' hr where p: "p = (db', hr)" by (cases p)
      show ?thesis
        using sent db Some unfolding p
        by (cases hr) (auto simp: http_serve_def exchanged_def split: if_splits fate.splits)
    qed
  qed
qed

lemma networked_request:
  assumes "metadata_request (networked_client net parse serialize max_body handler config) method target body ct w = (w', r)"
  shows "exchanged net handler \<lparr>rq_method = method, rq_target = target,
      rq_content_type = (case ct of None \<Rightarrow> [] | Some t \<Rightarrow> t), rq_body = body\<rparr> w w' r"
    (is "exchanged net handler ?request w w' r")
proof (cases "target = [] \<or> hd target \<noteq> CHR ''/'' \<or> max_request_body_bytes config < length body")
  case True
  with assms show ?thesis
    by (auto simp: metadata_request_def networked_client_def http_client_request_def exchanged_def others_step_def
        split: if_splits)
next
  case False
  obtain w1 r1 where ex: "metadata_exchange net max_body handler ?request w = (w1, r1)"
    by (cases "metadata_exchange net max_body handler ?request w")
  have "w' = w1" and "\<And>response. r = Inr response \<Longrightarrow> r1 = Inr response"
    using assms False ex
    by (auto simp: metadata_request_def networked_client_def http_client_request_def split: sum.splits if_splits)
  with metadata_exchange_ok [OF ex] show ?thesis unfolding exchanged_def by metis
qed

subsection \<open>Reading an object that was serialized\<close>

definition reparsed_fields :: "(string \<times> json) list \<Rightarrow> (string \<times> json) list" where
  "reparsed_fields kvs = map (\<lambda>kv. (fst kv, reparsed (snd kv))) kvs"

lemma reparsed_object: "reparsed (Json_object kvs) = Json_object (reparsed_fields kvs)"
  by (simp add: reparsed_fields_def)

lemma map_of_reparsed: "map_of (reparsed_fields kvs) key = map_option reparsed (map_of kvs key)"
  by (induction kvs) (auto simp: reparsed_fields_def)

lemma reparsed_string: "reparsed v = Json_string s \<longleftrightarrow> v = Json_string s"
  by (cases v) auto

lemma reparsed_bool: "reparsed v = Json_bool b \<longleftrightarrow> v = Json_bool b"
  by (cases v) auto

lemma fields_reparsed [simp]:
  "length (reparsed_fields kvs) = length kvs"
  "json_object_has_exact_keys (reparsed_fields kvs) keys = json_object_has_exact_keys kvs keys"
  "string_field (reparsed_fields kvs) key = string_field kvs key"
  "bool_field (reparsed_fields kvs) key = bool_field kvs key"
  "array_field (reparsed_fields kvs) key = map_option (map reparsed) (array_field kvs key)"
proof -
  show len: "length (reparsed_fields kvs) = length kvs" by (simp add: reparsed_fields_def)
  show "json_object_has_exact_keys (reparsed_fields kvs) keys = json_object_has_exact_keys kvs keys"
    by (simp add: json_object_has_exact_keys_def map_of_reparsed len)
  have string: "(case reparsed v of Json_string s \<Rightarrow> Some s | _ \<Rightarrow> None) = (case v of Json_string s \<Rightarrow> Some s | _ \<Rightarrow> None)" for v
    by (cases v) auto
  have bool: "(case reparsed v of Json_bool b \<Rightarrow> Some b | _ \<Rightarrow> None) = (case v of Json_bool b \<Rightarrow> Some b | _ \<Rightarrow> None)" for v
    by (cases v) auto
  have array: "(case reparsed v of Json_array vs \<Rightarrow> Some vs | _ \<Rightarrow> None) =
      map_option (map reparsed) (case v of Json_array vs \<Rightarrow> Some vs | _ \<Rightarrow> None)" for v
    by (cases v) auto
  show "string_field (reparsed_fields kvs) key = string_field kvs key"
    by (cases "map_of kvs key") (simp_all add: string_field_def map_of_reparsed string)
  show "bool_field (reparsed_fields kvs) key = bool_field kvs key"
    by (cases "map_of kvs key") (simp_all add: bool_field_def map_of_reparsed bool)
  show "array_field (reparsed_fields kvs) key = map_option (map reparsed) (array_field kvs key)"
    by (cases "map_of kvs key") (simp_all add: array_field_def map_of_reparsed array)
qed

lemma bigint_field_reparsed:
  "map_of kvs key = Some (Json_uint64 n) \<Longrightarrow>
   bigint_field (reparsed_fields kvs) key = (if kPostgresBigintMax < n then None else Some n)"
  by (simp add: bigint_field_def map_of_reparsed extract_bigint_reparsed del: reparsed.simps)

text \<open>A response the service serialized, as the client reads it.\<close>

lemma parse_serialized_object:
  assumes "json_codec parse serialize" and "json_plain (Json_object kvs)"
  shows "parse (serialize (Json_object kvs)) = Some (Json_object (reparsed_fields kvs))"
  using codec_parse [OF assms] by (simp only: reparsed_object)

subsection \<open>Operations that are served\<close>

text \<open>
  What a client operation over the network promises: after the requests of others, the transaction \<open>f\<close> of the
  repository ran or nothing happened, and a result is that of \<open>f\<close>. After an error, \<open>f\<close> may have run.
\<close>

definition served ::
  "network \<Rightarrow> (database \<Rightarrow> (database \<times> 'a) res) \<Rightarrow> 'w metadata_world_scheme \<Rightarrow> 'w metadata_world_scheme \<Rightarrow> 'a res \<Rightarrow> bool" where
  "served net f w w' result \<longleftrightarrow>
     metadata_world.more w' = metadata_world.more w \<and>
     (\<exists>db. others_step net (mw_db w) db \<and> (mw_db w' = db \<or> (\<exists>x. f db = Inr (mw_db w', x))) \<and>
        (\<forall>x. result = Inr x \<longrightarrow> f db = Inr (mw_db w', x)))"

lemma served_failed: "served net f w w (Inl e)"
  by (auto simp: served_def others_step_def)

lemma step_bind_of: "step_bind m (\<lambda>x. step_of (g x)) w = (w', q) \<longleftrightarrow> (\<exists>r. m w = (w', r) \<and> q = rbind r g)"
  by (cases "m w"; cases "snd (m w)") (auto simp: step_bind_def)

text \<open>The client reads \<open>g x\<close> from the answer to a result \<open>x\<close>, if it reads anything.\<close>

lemma served_reading:
  assumes ex: "exchanged net handler request w w' r"
    and handled: "\<And>db. handler request db = Some (transact db (f db) answer catches)"
    and catches: "\<And>e response. catches e = Some response \<Longrightarrow> rs_status response \<noteq> status"
    and status: "status \<noteq> 413" "status \<noteq> 500"
    and read: "\<And>db db' x y. f db = Inr (db', x) \<Longrightarrow> read (answer x) = Inr y \<Longrightarrow> y = g x"
  shows "served net (\<lambda>db. rbind (f db) (\<lambda>(db', x). Inr (db', g x))) w w'
    (rbind r (\<lambda>response. expect_status status response (read response)))"
proof -
  from ex obtain db where db: "others_step net (mw_db w) db" "metadata_world.more w' = metadata_world.more w"
    and cases: "mw_db w' = db \<and> (\<forall>response. r = Inr response \<longrightarrow> response = payload_too_large) \<or>
       (\<exists>hr. transact db (f db) answer catches = (mw_db w', hr) \<and>
          (\<forall>response. r = Inr response \<longrightarrow> hr = Inr response \<or> (\<exists>e. hr = Inl e) \<and> response = internal_server_error))"
    unfolding exchanged_def handled by auto
  from cases show ?thesis
  proof (elim disjE exE conjE)
    assume "mw_db w' = db" and "\<forall>response. r = Inr response \<longrightarrow> response = payload_too_large"
    with db status show ?thesis
      by (cases r) (auto simp: served_def expect_status_def payload_too_large_def)
  next
    fix hr
    assume ran: "transact db (f db) answer catches = (mw_db w', hr)"
      and answered: "\<forall>response. r = Inr response \<longrightarrow> hr = Inr response \<or> (\<exists>e. hr = Inl e) \<and> response = internal_server_error"
    from ran show ?thesis unfolding transact_eq
    proof (elim disjE exE conjE)
      fix x
      assume f: "f db = Inr (mw_db w', x)" and "hr = Inr (answer x)"
      then have "y = g x" if "rbind r (\<lambda>response. expect_status status response (read response)) = Inr y" for y
        using that answered read by (cases r) (auto simp: expect_status_def split: if_splits)
      then show ?thesis using db f by (auto simp: served_def)
    next
      fix e
      assume "f db = Inl e" and same: "mw_db w' = db" and "hr = (case catches e of Some response \<Rightarrow> Inr response | None \<Rightarrow> Inl e)"
      then have "rbind r (\<lambda>response. expect_status status response (read response)) \<noteq> Inr y" for y
        using answered catches status
        by (cases r) (auto simp: expect_status_def internal_server_error_def split: if_splits option.splits)
      then show ?thesis using db same by (auto simp: served_def)
    qed
  qed
qed

lemma rbind_Inr: "rbind p Inr = p"
  by (cases p) auto

lemma served_transaction:
  assumes "exchanged net handler request w w' r"
    and "\<And>db. handler request db = Some (transact db (f db) answer catches)"
    and "\<And>e response. catches e = Some response \<Longrightarrow> rs_status response \<noteq> status"
    and "status \<noteq> 413" "status \<noteq> 500"
    and "\<And>db db' x y. f db = Inr (db', x) \<Longrightarrow> read (answer x) = Inr y \<Longrightarrow> y = x"
  shows "served net f w w' (rbind r (\<lambda>response. expect_status status response (read response)))"
proof -
  have "served net (\<lambda>db. rbind (f db) (\<lambda>(db', x). Inr (db', x))) w w'
      (rbind r (\<lambda>response. expect_status status response (read response)))"
    by (rule served_reading [OF assms(1,2,3)]) (use assms(4-6) in auto)
  then show ?thesis by (simp add: rbind_Inr)
qed

subsection \<open>More ways to read and answer\<close>

definition extract_positive_bigint :: "json \<Rightarrow> u64 option" where
  "extract_positive_bigint v =
     (case v of
        Json_uint64 n \<Rightarrow> if n = 0 \<or> kPostgresBigintMax < n then None else Some n
      | Json_int64 n \<Rightarrow> if sint n \<le> 0 then None else if n = 0 \<or> kPostgresBigintMax < n then None else Some n
      | _ \<Rightarrow> None)"

definition positive_field :: "(string \<times> json) list \<Rightarrow> string \<Rightarrow> u64 option" where
  "positive_field object key = Option.bind (map_of object key) extract_positive_bigint"

text \<open>\<open>at\<close>, \<open>as_string\<close>, \<open>as_array\<close> and \<open>as_object\<close> of Boost.JSON throw a system error for the wrong kind.\<close>

definition json_at :: "(string \<times> json) list \<Rightarrow> string \<Rightarrow> json res" where
  "json_at object key = (case map_of object key of None \<Rightarrow> Inl System_error | Some v \<Rightarrow> Inr v)"

definition as_string :: "json \<Rightarrow> string res" where
  "as_string v = (case v of Json_string s \<Rightarrow> Inr s | _ \<Rightarrow> Inl System_error)"

definition as_array :: "json \<Rightarrow> json list res" where
  "as_array v = (case v of Json_array vs \<Rightarrow> Inr vs | _ \<Rightarrow> Inl System_error)"

definition as_object :: "json \<Rightarrow> (string \<times> json) list res" where
  "as_object v = (case v of Json_object kvs \<Rightarrow> Inr kvs | _ \<Rightarrow> Inl System_error)"

lemma as_simps [simp]:
  "as_string (Json_string s) = Inr s" "as_array (Json_array vs) = Inr vs" "as_object (Json_object kvs) = Inr kvs"
  by (simp_all add: as_string_def as_array_def as_object_def)

lemma extract_positive_eq:
  "extract_positive_bigint v = Option.bind (extract_bigint v) (\<lambda>n. if n = 0 then None else Some n)"
  by (auto simp: extract_positive_bigint_def extract_bigint_def split: json.split)
    (auto dest!: order.antisym [where a = "sint _"] simp: signed_eq_0_iff not_less)

lemma positive_field_eq:
  "positive_field object key = Option.bind (bigint_field object key) (\<lambda>n. if n = 0 then None else Some n)"
  by (cases "map_of object key") (simp_all add: positive_field_def bigint_field_def extract_positive_eq)

lemma positive_field_reparsed:
  "map_of kvs key = Some (Json_uint64 n) \<Longrightarrow>
   positive_field (reparsed_fields kvs) key = (if n = 0 \<or> kPostgresBigintMax < n then None else Some n)"
  by (simp add: positive_field_eq bigint_field_reparsed)

text \<open>Bodies as most routes beside the first read them: what does not parse and what is no object get the same answer.\<close>

definition with_object_body ::
  "(string \<Rightarrow> json option) \<Rightarrow> (json \<Rightarrow> string) \<Rightarrow> http_request \<Rightarrow> database \<Rightarrow>
   ((string \<times> json) list \<Rightarrow> database \<times> http_response res) \<Rightarrow> database \<times> http_response res" where
  "with_object_body parse serialize request db handle =
     (if rq_content_type request \<noteq> ''application/json''
      then (db, Inr (error_response serialize 415 ''unsupported_media_type''))
      else case parse (rq_body request) of
             Some (Json_object body) \<Rightarrow> handle body
           | _ \<Rightarrow> (db, Inr (error_response serialize 400 ''invalid_json'')))"

text \<open>A read of the repository.\<close>

definition query_db ::
  "database \<Rightarrow> 'a res \<Rightarrow> ('a \<Rightarrow> http_response) \<Rightarrow> (exn \<Rightarrow> http_response option) \<Rightarrow> database \<times> http_response res" where
  "query_db db result answer catches = transact db (rbind result (\<lambda>x. Inr (db, x))) answer catches"

definition catch_invalid :: "(json \<Rightarrow> string) \<Rightarrow> exn \<Rightarrow> http_response option" where
  "catch_invalid serialize e =
     (if e = Invalid_argument then Some (error_response serialize 400 ''invalid_request'') else None)"

definition parse_json_object :: "(string \<Rightarrow> json option) \<Rightarrow> string \<Rightarrow> (string \<times> json) list res" where
  "parse_json_object parse body =
     (case parse body of Some (Json_object object) \<Rightarrow> Inr object | _ \<Rightarrow> Inl Remote_protocol_error)"

lemma map_res_map:
  assumes "map_res g (map f xs) = Inr ys" and "\<And>x y. x \<in> set xs \<Longrightarrow> g (f x) = Inr y \<Longrightarrow> y = h x"
  shows "ys = map h xs"
  using assms
proof (induction xs arbitrary: ys)
  case (Cons x xs)
  from Cons.prems(1) obtain y zs where "g (f x) = Inr y" "map_res g (map f xs) = Inr zs" "ys = y # zs"
    by (auto simp: rbind_eq_Inr)
  with Cons.IH [of zs] Cons.prems(2) show ?case by auto
qed simp

lemma ucast_back:
  "ucast (ucast (a :: u8) :: u64) = a" "ucast (ucast (b :: u16) :: u64) = b"
  by (rule ucast_down_ucast_id; simp add: is_down)+

lemma parse_serialized:
  assumes "json_codec parse serialize" and "json_plain (Json_object kvs)"
  shows "parse_json_object parse (serialize (Json_object kvs)) = Inr (reparsed_fields kvs)"
  by (simp add: parse_json_object_def parse_serialized_object [OF assms])

lemma plain_strings: "list_all json_plain (map Json_string ss)"
  by (simp add: list_all_iff)

lemma json_at_reparsed: "map_of kvs key = Some v \<Longrightarrow> json_at (reparsed_fields kvs) key = Inr (reparsed v)"
  by (simp add: json_at_def map_of_reparsed)

end
