(* ===== verification/Metadata_Gc.thy ===== *)
theory Metadata_Gc
  imports Metadata_Wire
begin

section \<open>Collection runs over the wire\<close>

text \<open>
  The garbage-collection routes of the metadata service (\<open>src/service/metadata_service.cpp\<close>) and the
  operations of \<open>MetadataClient\<close> that use them (\<open>src/client/metadata_client.cpp\<close>). What the client
  returns is what the repository returned, at the moment the service handled the request.
\<close>

subsection \<open>Routes\<close>

definition kGcRunsCollection :: string where
  "kGcRunsCollection = ''/v1/gc-runs''"

definition kGcRunsPrefix :: string where
  "kGcRunsPrefix = ''/v1/gc-runs/''"

definition kClassifySuffix :: string where
  "kClassifySuffix = ''/classify''"

definition kCompleteSuffix :: string where
  "kCompleteSuffix = ''/complete''"

datatype gc_run_route =
  Not_gc_run | Gc_collection | Gc_item string | Gc_classify string | Gc_complete string | Invalid_gc_run_id
  | Gc_unknown_subroute

definition parse_gc_run_route :: "string \<Rightarrow> gc_run_route" where
  "parse_gc_run_route path =
     (if path = kGcRunsCollection then Gc_collection
      else if take (length kGcRunsPrefix) path \<noteq> kGcRunsPrefix then Not_gc_run
      else
        let remainder = drop (length kGcRunsPrefix) path
        in if remainder = [] \<or> hd remainder = CHR ''/'' then Gc_unknown_subroute
           else
             let gc_run_id = takeWhile (\<lambda>c. c \<noteq> CHR ''/'') remainder;
                 suffix = drop (length gc_run_id) remainder
             in if \<not> is_uuid gc_run_id then Invalid_gc_run_id
                else if suffix = [] then Gc_item gc_run_id
                else if suffix = kClassifySuffix then Gc_classify gc_run_id
                else if suffix = kCompleteSuffix then Gc_complete gc_run_id
                else Gc_unknown_subroute)"

subsection \<open>JSON forms\<close>

definition gc_run_to_json :: "gc_run \<Rightarrow> json" where
  "gc_run_to_json run =
     (let physical = gr_physical_stats run; metadata = gr_metadata_stats run
      in Json_object
        [(''gc_run_id'', Json_string (gr_run_id run)),
         (''target_node_id'', Json_string (gr_target_node_id run)),
         (''dry_run'', Json_bool (gr_mode run = GcDryRun)),
         (''state'', Json_string (gc_run_state_to_string (gr_state run))),
         (''physical_chunks_scanned'', Json_uint64 (physical_chunks_scanned physical)),
         (''physical_bytes_scanned'', Json_uint64 (physical_bytes_scanned physical)),
         (''collectible_chunks'', Json_uint64 (collectible_chunks physical)),
         (''collectible_bytes'', Json_uint64 (collectible_bytes physical)),
         (''physically_deleted_chunks'', Json_uint64 (physically_deleted_chunks physical)),
         (''physically_deleted_bytes'', Json_uint64 (physically_deleted_bytes physical)),
         (''storage_locations_swept'', Json_uint64 (storage_locations_swept metadata)),
         (''chunk_rows_swept'', Json_uint64 (chunk_rows_swept metadata)),
         (''object_layouts_swept'', Json_uint64 (object_layouts_swept metadata)),
         (''objects_swept'', Json_uint64 (objects_swept metadata))])"

definition physical_stats_to_json :: "gc_physical_stats \<Rightarrow> json" where
  "physical_stats_to_json stats =
     Json_object
       [(''physical_chunks_scanned'', Json_uint64 (physical_chunks_scanned stats)),
        (''physical_bytes_scanned'', Json_uint64 (physical_bytes_scanned stats)),
        (''collectible_chunks'', Json_uint64 (collectible_chunks stats)),
        (''collectible_bytes'', Json_uint64 (collectible_bytes stats)),
        (''physically_deleted_chunks'', Json_uint64 (physically_deleted_chunks stats)),
        (''physically_deleted_bytes'', Json_uint64 (physically_deleted_bytes stats))]"

definition parse_physical_stats :: "(string \<times> json) list \<Rightarrow> gc_physical_stats option" where
  "parse_physical_stats body =
     (case (bigint_field body ''physical_chunks_scanned'', bigint_field body ''physical_bytes_scanned'',
            bigint_field body ''collectible_chunks'', bigint_field body ''collectible_bytes'',
            bigint_field body ''physically_deleted_chunks'', bigint_field body ''physically_deleted_bytes'') of
        (Some chunks_scanned, Some bytes_scanned, Some coll_chunks, Some coll_bytes, Some deleted_chunks, Some deleted_bytes) \<Rightarrow>
          Some \<lparr>physical_chunks_scanned = chunks_scanned, physical_bytes_scanned = bytes_scanned,
                collectible_chunks = coll_chunks, collectible_bytes = coll_bytes,
                physically_deleted_chunks = deleted_chunks, physically_deleted_bytes = deleted_bytes\<rparr>
      | _ \<Rightarrow> None)"

definition physical_stats_keys :: "string list" where
  "physical_stats_keys =
     [''physical_chunks_scanned'', ''physical_bytes_scanned'', ''collectible_chunks'', ''collectible_bytes'',
      ''physically_deleted_chunks'', ''physically_deleted_bytes'']"

definition parse_gc_physical_stats_json :: "(string \<times> json) list \<Rightarrow> gc_physical_stats option" where
  "parse_gc_physical_stats_json body =
     (if \<not> json_object_has_exact_keys body physical_stats_keys then None else parse_physical_stats body)"

text \<open>The loop over the identifiers of a classification request.\<close>

fun parse_chunk_ids :: "json list \<Rightarrow> string list \<Rightarrow> string list option" where
  "parse_chunk_ids [] chunk_ids = Some chunk_ids"
| "parse_chunk_ids (v # vs) chunk_ids =
     (case v of
        Json_string chunk_id \<Rightarrow>
          if \<not> is_valid_chunk_id chunk_id then None
          else if chunk_id \<in> set chunk_ids then None
          else parse_chunk_ids vs (chunk_ids @ [chunk_id])
      | _ \<Rightarrow> None)"

subsection \<open>Handlers\<close>

fun gc_error_answer :: "gc_error_kind \<Rightarrow> nat \<times> string" where
  "gc_error_answer GcRunNotFound = (404, ''gc_run_not_found'')"
| "gc_error_answer GcRunConflict = (409, ''gc_run_conflict'')"
| "gc_error_answer GcAnotherRunOpen = (409, ''gc_already_in_progress'')"
| "gc_error_answer OpenUploadSessionsPresent = (409, ''gc_blocked_by_open_upload_sessions'')"
| "gc_error_answer GcRunNotOpen = (409, ''gc_run_not_open'')"
| "gc_error_answer GcInProgress = (409, ''gc_in_progress'')"
| "gc_error_answer GcReplicationInProgress = (409, ''replication_in_progress'')"

definition make_gc_error_response :: "(json \<Rightarrow> string) \<Rightarrow> gc_error_kind \<Rightarrow> http_response" where
  "make_gc_error_response serialize kind = error_response serialize (fst (gc_error_answer kind)) (snd (gc_error_answer kind))"

definition catch_gc_error :: "(json \<Rightarrow> string) \<Rightarrow> exn \<Rightarrow> http_response option" where
  "catch_gc_error serialize e = (case e of Gc_error kind \<Rightarrow> Some (make_gc_error_response serialize kind) | _ \<Rightarrow> None)"

definition catch_gc_error_or_invalid :: "(json \<Rightarrow> string) \<Rightarrow> exn \<Rightarrow> http_response option" where
  "catch_gc_error_or_invalid serialize e =
     (if e = Invalid_argument then Some (error_response serialize 400 ''invalid_request'') else catch_gc_error serialize e)"

definition no_gc_stats :: "gc_physical_stats \<times> gc_metadata_stats" where
  "no_gc_stats =
     (\<lparr>physical_chunks_scanned = 0, physical_bytes_scanned = 0, collectible_chunks = 0, collectible_bytes = 0,
       physically_deleted_chunks = 0, physically_deleted_bytes = 0\<rparr>,
      \<lparr>storage_locations_swept = 0, chunk_rows_swept = 0, object_layouts_swept = 0, objects_swept = 0\<rparr>)"

definition gc_start_request :: "string \<Rightarrow> string \<Rightarrow> bool \<Rightarrow> gc_run" where
  "gc_start_request run_id target_node_id dry_run =
     \<lparr>gr_run_id = run_id, gr_target_node_id = target_node_id, gr_mode = (if dry_run then GcDryRun else GcApply),
      gr_state = GcOpen, gr_physical_stats = fst no_gc_stats, gr_metadata_stats = snd no_gc_stats\<rparr>"

definition handle_start_gc_run ::
  "(string \<Rightarrow> json option) \<Rightarrow> (json \<Rightarrow> string) \<Rightarrow> http_request \<Rightarrow> database \<Rightarrow> database \<times> http_response res" where
  "handle_start_gc_run parse serialize request db =
     with_json_object parse serialize request db (\<lambda>body.
     case (string_field body ''gc_run_id'', string_field body ''target_node_id'', bool_field body ''dry_run'') of
       (Some gc_run_id, Some target_node_id, Some dry_run) \<Rightarrow>
         if length body \<noteq> 3 \<or> \<not> is_valid_node_id target_node_id
         then (db, Inr (error_response serialize 400 ''invalid_request''))
         else transact db
                (rbind (uuid_v7 gc_run_id) (\<lambda>run_id. start_gc_run db (gc_start_request run_id target_node_id dry_run)))
                (\<lambda>started. make_json_response serialize 200 (gc_run_to_json started))
                (catch_gc_error_or_invalid serialize)
     | _ \<Rightarrow> (db, Inr (error_response serialize 400 ''invalid_request'')))"

definition handle_get_gc_run :: "(json \<Rightarrow> string) \<Rightarrow> string \<Rightarrow> database \<Rightarrow> database \<times> http_response res" where
  "handle_get_gc_run serialize gc_run_id db =
     transact db (rbind (get_gc_run db gc_run_id) (\<lambda>run. Inr (db, run)))
       (\<lambda>run. case run of
          None \<Rightarrow> error_response serialize 404 ''gc_run_not_found''
        | Some r \<Rightarrow> make_json_response serialize 200 (gc_run_to_json r))
       (\<lambda>_. None)"

definition decision_to_json :: "gc_chunk_decision \<Rightarrow> json" where
  "decision_to_json decision =
     Json_object [(''chunk_id'', Json_string (gd_chunk_id decision)), (''collectible'', Json_bool (gd_collectible decision))]"

definition handle_classify_gc_chunks ::
  "(string \<Rightarrow> json option) \<Rightarrow> (json \<Rightarrow> string) \<Rightarrow> string \<Rightarrow> http_request \<Rightarrow> database \<Rightarrow> database \<times> http_response res" where
  "handle_classify_gc_chunks parse serialize gc_run_id request db =
     with_json_object parse serialize request db (\<lambda>body.
     case (if length body \<noteq> 1 then None else array_field body ''chunk_ids'') of
       None \<Rightarrow> (db, Inr (error_response serialize 400 ''invalid_request''))
     | Some chunk_id_values \<Rightarrow>
         if chunk_id_values = [] \<or> 256 < length chunk_id_values
         then (db, Inr (error_response serialize 400 ''invalid_request''))
         else (case parse_chunk_ids chunk_id_values [] of
                 None \<Rightarrow> (db, Inr (error_response serialize 400 ''invalid_request''))
               | Some chunk_ids \<Rightarrow>
                   transact db (rbind (classify_gc_chunks db gc_run_id chunk_ids) (\<lambda>decisions. Inr (db, decisions)))
                     (\<lambda>decisions. make_json_response serialize 200
                        (Json_object [(''gc_run_id'', Json_string gc_run_id),
                                      (''chunks'', Json_array (map decision_to_json decisions))]))
                     (catch_gc_error_or_invalid serialize)))"

definition handle_complete_gc_run ::
  "(string \<Rightarrow> json option) \<Rightarrow> (json \<Rightarrow> string) \<Rightarrow> string \<Rightarrow> http_request \<Rightarrow> database \<Rightarrow> database \<times> http_response res" where
  "handle_complete_gc_run parse serialize gc_run_id request db =
     with_json_object parse serialize request db (\<lambda>body.
     case parse_gc_physical_stats_json body of
       None \<Rightarrow> (db, Inr (error_response serialize 400 ''invalid_request''))
     | Some physical_stats \<Rightarrow>
         transact db (complete_gc_run db gc_run_id physical_stats)
           (\<lambda>completed. make_json_response serialize 200 (gc_run_to_json completed))
           (catch_gc_error serialize))"

text \<open>The branch of \<open>MetadataService::handle_request\<close> for paths under \<open>/v1/gc-runs\<close>.\<close>

definition handle_gc_runs ::
  "(string \<Rightarrow> json option) \<Rightarrow> (json \<Rightarrow> string) \<Rightarrow> http_request \<Rightarrow> database \<Rightarrow> database \<times> http_response res" where
  "handle_gc_runs parse serialize request db =
     (let path = fst (split_path_and_query (rq_target request))
      in if path \<noteq> rq_target request then (db, Inr (error_response serialize 400 ''invalid_request''))
         else case parse_gc_run_route path of
           Gc_collection \<Rightarrow>
             if rq_method request \<noteq> Post then (db, Inr (method_not_allowed serialize ''POST''))
             else handle_start_gc_run parse serialize request db
         | Gc_item gc_run_id \<Rightarrow>
             if rq_method request \<noteq> Get then (db, Inr (method_not_allowed serialize ''GET''))
             else handle_get_gc_run serialize gc_run_id db
         | Gc_classify gc_run_id \<Rightarrow>
             if rq_method request \<noteq> Post then (db, Inr (method_not_allowed serialize ''POST''))
             else handle_classify_gc_chunks parse serialize gc_run_id request db
         | Gc_complete gc_run_id \<Rightarrow>
             if rq_method request \<noteq> Post then (db, Inr (method_not_allowed serialize ''POST''))
             else handle_complete_gc_run parse serialize gc_run_id request db
         | Invalid_gc_run_id \<Rightarrow> (db, Inr (error_response serialize 400 ''invalid_gc_run_id''))
         | _ \<Rightarrow> (db, Inr (error_response serialize 404 ''not_found'')))"

subsection \<open>The client\<close>

definition gc_run_state_from_string_strict :: "string \<Rightarrow> gc_run_state res" where
  "gc_run_state_from_string_strict state =
     (if state = ''open'' then Inr GcOpen else if state = ''completed'' then Inr GcCompleted else Inl Remote_protocol_error)"

definition gc_run_keys :: "string list" where
  "gc_run_keys =
     [''gc_run_id'', ''target_node_id'', ''dry_run'', ''state'', ''physical_chunks_scanned'', ''physical_bytes_scanned'',
      ''collectible_chunks'', ''collectible_bytes'', ''physically_deleted_chunks'', ''physically_deleted_bytes'',
      ''storage_locations_swept'', ''chunk_rows_swept'', ''object_layouts_swept'', ''objects_swept'']"

definition parse_metadata_stats :: "(string \<times> json) list \<Rightarrow> gc_metadata_stats option" where
  "parse_metadata_stats object =
     (case (bigint_field object ''storage_locations_swept'', bigint_field object ''chunk_rows_swept'',
            bigint_field object ''object_layouts_swept'', bigint_field object ''objects_swept'') of
        (Some locations, Some chunk_rows, Some layouts, Some objs) \<Rightarrow>
          Some \<lparr>storage_locations_swept = locations, chunk_rows_swept = chunk_rows, object_layouts_swept = layouts,
                objects_swept = objs\<rparr>
      | _ \<Rightarrow> None)"

definition parse_gc_run_object :: "(string \<times> json) list \<Rightarrow> gc_run res" where
  "parse_gc_run_object object =
     (if \<not> json_object_has_exact_keys object gc_run_keys then Inl Remote_protocol_error
      else case (string_field object ''gc_run_id'', string_field object ''target_node_id'',
                 bool_field object ''dry_run'', string_field object ''state'') of
             (Some gc_run_id, Some target_node_id, Some dry_run, Some state) \<Rightarrow>
               if \<not> is_valid_node_id target_node_id then Inl Remote_protocol_error
               else (case (parse_physical_stats object, parse_metadata_stats object) of
                       (Some physical_stats, Some metadata_stats) \<Rightarrow>
                         if \<not> is_uuid gc_run_id then Inl Remote_protocol_error
                         else rbind (gc_run_state_from_string_strict state) (\<lambda>state.
                              Inr \<lparr>gr_run_id = gc_run_id, gr_target_node_id = target_node_id,
                                   gr_mode = (if dry_run then GcDryRun else GcApply), gr_state = state,
                                   gr_physical_stats = physical_stats, gr_metadata_stats = metadata_stats\<rparr>)
                     | _ \<Rightarrow> Inl Remote_protocol_error)
           | _ \<Rightarrow> Inl Remote_protocol_error)"

definition parse_gc_run_json :: "(string \<Rightarrow> json option) \<Rightarrow> string \<Rightarrow> gc_run res" where
  "parse_gc_run_json parse body =
     (case parse body of Some (Json_object object) \<Rightarrow> parse_gc_run_object object | _ \<Rightarrow> Inl Remote_protocol_error)"

definition validate_gc_physical_stats :: "gc_physical_stats \<Rightarrow> unit res" where
  "validate_gc_physical_stats stats =
     check_all (\<lambda>v. if kPostgresBigintMax < v then Inl Invalid_argument else Inr ())
       [physical_chunks_scanned stats, physical_bytes_scanned stats, collectible_chunks stats, collectible_bytes stats,
        physically_deleted_chunks stats, physically_deleted_bytes stats]"

definition start_gc_run_on :: "'s metadata_client \<Rightarrow> string \<Rightarrow> string \<Rightarrow> bool \<Rightarrow> ('s, gc_run) step" where
  "start_gc_run_on client gc_run_id target_node_id dry_run =
     (if \<not> is_valid_node_id target_node_id then step_of (Inl Invalid_argument)
      else step_bind (post_json client ''/v1/gc-runs''
             (Json_object [(''gc_run_id'', Json_string gc_run_id), (''target_node_id'', Json_string target_node_id),
                           (''dry_run'', Json_bool dry_run)])) (\<lambda>response.
           step_of (expect_status 200 response (rbind (parse_gc_run_json (mc_parse client) (rs_body response)) (\<lambda>run.
             if gr_run_id run \<noteq> gc_run_id then Inl Remote_protocol_error
             else if gr_target_node_id run \<noteq> target_node_id then Inl Remote_protocol_error
             else if gr_mode run \<noteq> (if dry_run then GcDryRun else GcApply) then Inl Remote_protocol_error
             else Inr run)))))"

definition gc_run_target :: "string \<Rightarrow> string \<Rightarrow> string" where
  "gc_run_target gc_run_id suffix = ''/v1/gc-runs/'' @ gc_run_id @ suffix"

definition get_gc_run_from :: "'s metadata_client \<Rightarrow> string \<Rightarrow> ('s, gc_run option) step" where
  "get_gc_run_from client gc_run_id =
     step_bind (metadata_request client Get (gc_run_target gc_run_id []) [] None) (\<lambda>response.
     step_of (if rs_status response = 200
              then rbind (parse_gc_run_json (mc_parse client) (rs_body response)) (\<lambda>run.
                   if gr_run_id run \<noteq> gc_run_id then Inl Remote_protocol_error else Inr (Some run))
              else if rs_status response = 404 \<and> extract_error_code (mc_parse client) (rs_body response) = ''gc_run_not_found''
              then Inr None else Inl Remote_api_error))"

definition validate_classified_ids :: "string list \<Rightarrow> unit res" where
  "validate_classified_ids chunk_ids =
     (if chunk_ids = [] \<or> 256 < length chunk_ids then Inl Invalid_argument
      else rbind (fold_res (\<lambda>chunk_id seen_chunk_ids.
                    if \<not> is_valid_chunk_id chunk_id then Inl Invalid_argument
                    else if chunk_id \<in> set seen_chunk_ids then Inl Invalid_argument
                    else Inr (chunk_id # seen_chunk_ids)) chunk_ids []) (\<lambda>_. Inr ()))"

definition parse_gc_decision :: "string \<times> json \<Rightarrow> gc_chunk_decision res" where
  "parse_gc_decision requested =
     (case requested of
        (chunk_id, Json_object entry) \<Rightarrow>
          if \<not> json_object_has_exact_keys entry [''chunk_id'', ''collectible''] then Inl Remote_protocol_error
          else (case (string_field entry ''chunk_id'', bool_field entry ''collectible'') of
                  (Some answered_id, Some collectible) \<Rightarrow>
                    if answered_id \<noteq> chunk_id then Inl Remote_protocol_error
                    else if \<not> is_valid_chunk_id answered_id then Inl Remote_protocol_error
                    else Inr \<lparr>gd_chunk_id = answered_id, gd_collectible = collectible\<rparr>
                | _ \<Rightarrow> Inl Remote_protocol_error)
      | _ \<Rightarrow> Inl Remote_protocol_error)"

definition parse_gc_decisions :: "(string \<Rightarrow> json option) \<Rightarrow> string \<Rightarrow> string list \<Rightarrow> string \<Rightarrow> gc_chunk_decision list res" where
  "parse_gc_decisions parse gc_run_id chunk_ids body =
     (case parse body of
        Some (Json_object object) \<Rightarrow>
          if \<not> json_object_has_exact_keys object [''gc_run_id'', ''chunks''] then Inl Remote_protocol_error
          else (case (string_field object ''gc_run_id'', array_field object ''chunks'') of
                  (Some response_gc_run_id, Some entries) \<Rightarrow>
                    if \<not> is_uuid response_gc_run_id then Inl Remote_protocol_error
                    else if response_gc_run_id \<noteq> gc_run_id then Inl Remote_protocol_error
                    else if length entries \<noteq> length chunk_ids then Inl Remote_protocol_error
                    else map_res parse_gc_decision (zip chunk_ids entries)
                | _ \<Rightarrow> Inl Remote_protocol_error)
      | _ \<Rightarrow> Inl Remote_protocol_error)"

definition classify_gc_chunks_on :: "'s metadata_client \<Rightarrow> string \<Rightarrow> string list \<Rightarrow> ('s, gc_chunk_decision list) step" where
  "classify_gc_chunks_on client gc_run_id chunk_ids =
     step_bind (step_of (validate_classified_ids chunk_ids)) (\<lambda>_.
     step_bind (post_json client (gc_run_target gc_run_id ''/classify'')
         (Json_object [(''chunk_ids'', Json_array (map Json_string chunk_ids))])) (\<lambda>response.
     step_of (expect_status 200 response
       (parse_gc_decisions (mc_parse client) gc_run_id chunk_ids (rs_body response)))))"

definition complete_gc_run_on :: "'s metadata_client \<Rightarrow> string \<Rightarrow> gc_physical_stats \<Rightarrow> ('s, gc_run) step" where
  "complete_gc_run_on client gc_run_id physical_stats =
     step_bind (step_of (validate_gc_physical_stats physical_stats)) (\<lambda>_.
     step_bind (post_json client (gc_run_target gc_run_id ''/complete'') (physical_stats_to_json physical_stats)) (\<lambda>response.
     step_of (expect_status 200 response (rbind (parse_gc_run_json (mc_parse client) (rs_body response)) (\<lambda>run.
       if gr_run_id run \<noteq> gc_run_id then Inl Remote_protocol_error
       else if gr_state run \<noteq> GcCompleted then Inl Remote_protocol_error
       else Inr run)))))"

subsection \<open>What the client gets is what the repository did\<close>

lemma plain_gc_run: "json_plain (gc_run_to_json run)"
  by (simp add: gc_run_to_json_def Let_def)

text \<open>Two lists of fields agree on a key with a number in it, in what the reader makes of it.\<close>

lemma physical_stats_back:
  assumes "parse_physical_stats (reparsed_fields kvs) = Some stats'"
    and "map_of kvs ''physical_chunks_scanned'' = Some (Json_uint64 (physical_chunks_scanned stats))"
      "map_of kvs ''physical_bytes_scanned'' = Some (Json_uint64 (physical_bytes_scanned stats))"
      "map_of kvs ''collectible_chunks'' = Some (Json_uint64 (collectible_chunks stats))"
      "map_of kvs ''collectible_bytes'' = Some (Json_uint64 (collectible_bytes stats))"
      "map_of kvs ''physically_deleted_chunks'' = Some (Json_uint64 (physically_deleted_chunks stats))"
      "map_of kvs ''physically_deleted_bytes'' = Some (Json_uint64 (physically_deleted_bytes stats))"
  shows "stats' = stats"
  using assms(1) unfolding parse_physical_stats_def assms(2-)[THEN bigint_field_reparsed]
  by (cases stats) (auto split: if_splits)

lemma metadata_stats_back:
  assumes "parse_metadata_stats (reparsed_fields kvs) = Some stats'"
    and "map_of kvs ''storage_locations_swept'' = Some (Json_uint64 (storage_locations_swept stats))"
      "map_of kvs ''chunk_rows_swept'' = Some (Json_uint64 (chunk_rows_swept stats))"
      "map_of kvs ''object_layouts_swept'' = Some (Json_uint64 (object_layouts_swept stats))"
      "map_of kvs ''objects_swept'' = Some (Json_uint64 (objects_swept stats))"
  shows "stats' = stats"
  using assms(1) unfolding parse_metadata_stats_def assms(2-)[THEN bigint_field_reparsed]
  by (cases stats) (auto split: if_splits)

lemma gc_state_back: "gc_run_state_from_string_strict (gc_run_state_to_string state) = Inr state"
  by (cases state) (simp_all add: gc_run_state_from_string_strict_def)

lemma parse_gc_run_json_back:
  assumes codec: "json_codec parse serialize" and parsed: "parse_gc_run_json parse (serialize (gc_run_to_json run)) = Inr run'"
  shows "run' = run"
proof -
  obtain kvs where kvs: "gc_run_to_json run = Json_object kvs" by (auto simp: gc_run_to_json_def Let_def)
  have json: "parse (serialize (gc_run_to_json run)) = Some (Json_object (reparsed_fields kvs))"
    using parse_serialized_object [OF codec] plain_gc_run [of run] unfolding kvs .
  from kvs have fields:
    "string_field kvs ''gc_run_id'' = Some (gr_run_id run)"
    "string_field kvs ''target_node_id'' = Some (gr_target_node_id run)"
    "bool_field kvs ''dry_run'' = Some (gr_mode run = GcDryRun)"
    "string_field kvs ''state'' = Some (gc_run_state_to_string (gr_state run))"
    by (auto simp: gc_run_to_json_def Let_def string_field_def bool_field_def)
  have parsed: "parse_gc_run_object (reparsed_fields kvs) = Inr run'"
    using parsed by (simp add: parse_gc_run_json_def json)
  then obtain physical metadata where stats: "parse_physical_stats (reparsed_fields kvs) = Some physical"
      "parse_metadata_stats (reparsed_fields kvs) = Some metadata"
    and run': "run' = \<lparr>gr_run_id = gr_run_id run, gr_target_node_id = gr_target_node_id run,
      gr_mode = (if gr_mode run = GcDryRun then GcDryRun else GcApply), gr_state = gr_state run,
      gr_physical_stats = physical, gr_metadata_stats = metadata\<rparr>"
    by (auto simp: parse_gc_run_object_def fields gc_state_back split: if_splits option.splits)
  have "physical = gr_physical_stats run"
    by (rule physical_stats_back [OF stats(1)]) (use kvs in \<open>auto simp: gc_run_to_json_def Let_def\<close>)
  moreover have "metadata = gr_metadata_stats run"
    by (rule metadata_stats_back [OF stats(2)]) (use kvs in \<open>auto simp: gc_run_to_json_def Let_def\<close>)
  moreover have "(if gr_mode run = GcDryRun then GcDryRun else GcApply) = gr_mode run" by (cases "gr_mode run") simp_all
  ultimately show ?thesis by (cases run) (simp add: run')
qed

lemma parse_gc_decisions_back:
  assumes codec: "json_codec parse serialize"
    and parsed: "parse_gc_decisions parse rid ids (serialize (Json_object
      [(''gc_run_id'', Json_string rid), (''chunks'', Json_array (map decision_to_json ds))])) = Inr ds'"
  shows "ds' = ds"
proof -
  have one: "d' = d" if "parse_gc_decision (c, reparsed (decision_to_json d)) = Inr d'" for c d d'
    using that unfolding decision_to_json_def reparsed_object parse_gc_decision_def prod.case json.case fields_reparsed
    by (auto simp: string_field_def bool_field_def split: if_splits)
  have all: "ds' = ds" if "length ids = length ds" "map_res parse_gc_decision (zip ids (map reparsed (map decision_to_json ds))) = Inr ds'"
    for ds' using that
  proof (induction ids ds arbitrary: ds' rule: list_induct2)
    case (Cons c ids d ds)
    then show ?case using one by (auto simp: rbind_eq_Inr)
  qed simp
  let ?kvs = "[(''gc_run_id'', Json_string rid), (''chunks'', Json_array (map decision_to_json ds))]"
  have "json_plain (Json_object ?kvs)" by (simp add: list_all_iff decision_to_json_def)
  note json = parse_serialized_object [OF codec this]
  have "array_field ?kvs ''chunks'' = Some (map decision_to_json ds)" by (simp add: array_field_def)
  with parsed json have "length ids = length ds"
      "map_res parse_gc_decision (zip ids (map reparsed (map decision_to_json ds))) = Inr ds'"
    by (auto simp: parse_gc_decisions_def split: if_splits option.splits)
  then show ?thesis by (rule all)
qed

lemma parse_chunk_ids_of:
  assumes "fold_res (\<lambda>chunk_id seen. if \<not> is_valid_chunk_id chunk_id then Inl Invalid_argument
      else if chunk_id \<in> set seen then Inl Invalid_argument else Inr (chunk_id # seen)) ids seen = Inr seen'"
    and "set before = set seen"
  shows "parse_chunk_ids (map Json_string ids) before = Some (before @ ids)"
  using assms
proof (induction ids arbitrary: seen before)
  case (Cons c ids)
  then show ?case by (auto simp: rbind_eq_Inr split: if_splits)
qed simp

lemma gc_error_status: "fst (gc_error_answer kind) \<noteq> 200"
  by (cases kind) simp_all

lemma catch_status:
  "catch_gc_error_or_invalid serialize e = Some response \<Longrightarrow> rs_status response \<noteq> 200"
  "catch_gc_error serialize e = Some response \<Longrightarrow> rs_status response \<noteq> 200"
  using gc_error_status
  by (auto simp: catch_gc_error_or_invalid_def catch_gc_error_def make_gc_error_response_def split: if_splits exn.splits)

subsection \<open>The operations of the client are served\<close>

definition gc_handler :: "(string \<Rightarrow> json option) \<Rightarrow> (json \<Rightarrow> string) \<Rightarrow> database handler" where
  "gc_handler parse serialize request db = Some (handle_gc_runs parse serialize request db)"

lemma uuid_chars:
  assumes "is_uuid u" and "c \<in> set u"
  shows "c \<noteq> CHR ''/'' \<and> c \<noteq> CHR ''?'' \<and> c \<noteq> CHR ''#''"
proof -
  from assms(2) obtain i where i: "i < length u" "c = u ! i" by (auto simp: in_set_conv_nth)
  then have "is_lower_hex c \<or> c = CHR ''-''" using assms(1) by (auto simp: is_uuid_shape)
  then show ?thesis by (auto simp: is_lower_hex_def is_digit_char_def)
qed

lemma gc_route:
  assumes "is_uuid rid" and "suffix \<in> {[], kClassifySuffix, kCompleteSuffix}"
  shows "split_path_and_query (gc_run_target rid suffix) = (gc_run_target rid suffix, [])"
    and "parse_gc_run_route (gc_run_target rid suffix) =
      (if suffix = [] then Gc_item rid else if suffix = kClassifySuffix then Gc_classify rid else Gc_complete rid)"
proof -
  have rid: "\<forall>c \<in> set rid. c \<noteq> CHR ''/'' \<and> c \<noteq> CHR ''?'' \<and> c \<noteq> CHR ''#''" using uuid_chars [OF assms(1)] by blast
  have ne: "rid \<noteq> []" using assms(1) by (auto simp: is_uuid_shape)
  have slash: "takeWhile (\<lambda>c. c \<noteq> CHR ''/'') (rid @ suffix) = rid"
  proof -
    have "takeWhile (\<lambda>c. c \<noteq> CHR ''/'') suffix = []" using assms(2) by (auto simp: kClassifySuffix_def kCompleteSuffix_def)
    with rid show ?thesis by (simp add: takeWhile_all)
  qed
  have "hd (rid @ suffix) \<noteq> CHR ''/''" using ne rid by (cases rid) auto
  then show "parse_gc_run_route (gc_run_target rid suffix) =
      (if suffix = [] then Gc_item rid else if suffix = kClassifySuffix then Gc_classify rid else Gc_complete rid)"
    using ne assms(1) assms(2) slash
    by (simp add: parse_gc_run_route_def gc_run_target_def kGcRunsPrefix_def kGcRunsCollection_def Let_def) blast
  show "split_path_and_query (gc_run_target rid suffix) = (gc_run_target rid suffix, [])"
  proof -
    have "takeWhile (\<lambda>c. c \<noteq> CHR ''?'' \<and> c \<noteq> CHR ''#'') suffix = suffix"
      using assms(2) by (auto simp: kClassifySuffix_def kCompleteSuffix_def)
    with rid show ?thesis by (simp add: split_path_and_query_def Let_def gc_run_target_def takeWhile_all takeWhile_self)
  qed
qed

definition gc_client ::
  "network \<Rightarrow> (string \<Rightarrow> json option) \<Rightarrow> (json \<Rightarrow> string) \<Rightarrow> nat \<Rightarrow> http_client_config \<Rightarrow> 'w metadata_world_scheme metadata_client" where
  "gc_client net parse serialize max_body config =
     networked_client net parse serialize max_body (gc_handler parse serialize) config"

lemma gc_client_fields [simp]:
  "mc_parse (gc_client net parse serialize max_body config) = parse"
  "mc_serialize (gc_client net parse serialize max_body config) = serialize"
  by (simp_all add: gc_client_def networked_client_def)

lemma post_json_exchanged:
  assumes "post_json (gc_client net parse serialize max_body config) target v w = (w', r)"
  shows "exchanged net (gc_handler parse serialize) \<lparr>rq_method = Post, rq_target = target,
      rq_content_type = ''application/json'', rq_body = serialize v\<rparr> w w' r"
  using networked_request [of net parse serialize max_body "gc_handler parse serialize" config Post target "serialize v" "Some ''application/json''"]
    assms
  by (simp add: post_json_def gc_client_def networked_client_def)

lemma parse_gc_run_answer:
  assumes "json_codec parse serialize"
    and "rbind (parse_gc_run_json parse (rs_body (make_json_response serialize 200 (gc_run_to_json run)))) check = Inr run'"
    and "\<And>r r'. check r = Inr r' \<Longrightarrow> r' = r"
  shows "run' = run"
  using assms parse_gc_run_json_back [OF assms(1)] by (fastforce simp: rbind_eq_Inr)

lemma start_gc_run_served:
  assumes codec: "json_codec parse serialize"
    and start: "start_gc_run_on (gc_client net parse serialize max_body config) rid node dry w = (w', started)"
  shows "served net (\<lambda>db. rbind (uuid_v7 rid) (\<lambda>rid. start_gc_run db (gc_start_request rid node dry))) w w' started"
proof (cases "is_valid_node_id node")
  case False
  with start show ?thesis by (auto simp: start_gc_run_on_def served_failed)
next
  case True
  let ?kvs = "[(''gc_run_id'', Json_string rid), (''target_node_id'', Json_string node), (''dry_run'', Json_bool dry)]"
  let ?f = "\<lambda>db. rbind (uuid_v7 rid) (\<lambda>rid. start_gc_run db (gc_start_request rid node dry))"
  let ?check = "\<lambda>run. if gr_run_id run \<noteq> rid then Inl Remote_protocol_error
      else if gr_target_node_id run \<noteq> node then Inl Remote_protocol_error
      else if gr_mode run \<noteq> (if dry then GcDryRun else GcApply) then Inl Remote_protocol_error else Inr run"
  let ?read = "\<lambda>response. rbind (parse_gc_run_json parse (rs_body response)) ?check"
  let ?request = "\<lparr>rq_method = Post, rq_target = ''/v1/gc-runs'', rq_content_type = ''application/json'',
      rq_body = serialize (Json_object ?kvs)\<rparr>"
  from start True obtain r where
    sent: "post_json (gc_client net parse serialize max_body config) ''/v1/gc-runs'' (Json_object ?kvs) w = (w', r)"
    and started: "started = rbind r (\<lambda>response. expect_status 200 response (?read response))"
    by (auto simp: start_gc_run_on_def step_bind_of)
  have "json_plain (Json_object ?kvs)" by simp
  note json = parse_serialized_object [OF codec this]
  have fields: "string_field ?kvs ''gc_run_id'' = Some rid" "string_field ?kvs ''target_node_id'' = Some node"
      "bool_field ?kvs ''dry_run'' = Some dry"
    by (simp_all add: string_field_def bool_field_def)
  have handled: "gc_handler parse serialize ?request db = Some (transact db (?f db)
      (\<lambda>started. make_json_response serialize 200 (gc_run_to_json started)) (catch_gc_error_or_invalid serialize))" for db
    using True
    by (simp add: gc_handler_def handle_gc_runs_def split_path_and_query_def parse_gc_run_route_def kGcRunsCollection_def
        handle_start_gc_run_def with_json_object_def json fields)
  show ?thesis
    unfolding started
  proof (rule served_transaction [OF post_json_exchanged [OF sent] handled])
    show "y = x" if "?read (make_json_response serialize 200 (gc_run_to_json x)) = Inr y" for x y
      by (rule parse_gc_run_answer [OF codec that]) (auto split: if_splits)
  qed (simp_all add: catch_status)
qed

lemma classify_gc_chunks_served:
  assumes codec: "json_codec parse serialize" and rid: "is_uuid rid"
    and classify: "classify_gc_chunks_on (gc_client net parse serialize max_body config) rid ids w = (w', classified)"
  shows "served net (\<lambda>db. rbind (classify_gc_chunks db rid ids) (\<lambda>decisions. Inr (db, decisions))) w w' classified"
proof (cases "validate_classified_ids ids")
  case (Inl e)
  with classify show ?thesis by (auto simp: classify_gc_chunks_on_def served_failed)
next
  case (Inr u)
  let ?kvs = "[(''chunk_ids'', Json_array (map Json_string ids))]"
  let ?f = "\<lambda>db. rbind (classify_gc_chunks db rid ids) (\<lambda>decisions. Inr (db, decisions))"
  let ?answer = "\<lambda>decisions. make_json_response serialize 200
      (Json_object [(''gc_run_id'', Json_string rid), (''chunks'', Json_array (map decision_to_json decisions))])"
  let ?read = "\<lambda>response. parse_gc_decisions parse rid ids (rs_body response)"
  let ?request = "\<lparr>rq_method = Post, rq_target = gc_run_target rid kClassifySuffix, rq_content_type = ''application/json'',
      rq_body = serialize (Json_object ?kvs)\<rparr>"
  from classify Inr obtain r where
    sent: "post_json (gc_client net parse serialize max_body config) (gc_run_target rid kClassifySuffix) (Json_object ?kvs) w = (w', r)"
    and classified: "classified = rbind r (\<lambda>response. expect_status 200 response (?read response))"
    by (auto simp: classify_gc_chunks_on_def step_bind_of kClassifySuffix_def)
  from Inr have bounds: "ids \<noteq> []" "length ids \<le> 256" and ids: "parse_chunk_ids (map Json_string ids) [] = Some ids"
    using parse_chunk_ids_of [of ids "[]" _ "[]"] by (auto simp: validate_classified_ids_def rbind_eq_Inr split: if_splits)
  have "json_plain (Json_object ?kvs)" by (simp add: list_all_iff)
  note json = parse_serialized_object [OF codec this]
  have field: "array_field ?kvs ''chunk_ids'' = Some (map Json_string ids)" by (simp add: array_field_def)
  have same: "reparsed \<circ> Json_string = Json_string" by (simp add: fun_eq_iff)
  have handled: "gc_handler parse serialize ?request db =
      Some (transact db (?f db) ?answer (catch_gc_error_or_invalid serialize))" for db
    using gc_route [OF rid, of kClassifySuffix] bounds ids
    by (simp add: gc_handler_def handle_gc_runs_def handle_classify_gc_chunks_def with_json_object_def json field
        kClassifySuffix_def same)
  show ?thesis
    unfolding classified
  proof (rule served_transaction [OF post_json_exchanged [OF sent] handled])
    show "y = x" if "?read (?answer x) = Inr y" for x y
      using that by (auto intro: parse_gc_decisions_back [OF codec])
  qed (simp_all add: catch_status)
qed

lemma complete_gc_run_served:
  assumes codec: "json_codec parse serialize" and rid: "is_uuid rid"
    and complete: "complete_gc_run_on (gc_client net parse serialize max_body config) rid stats w = (w', completed)"
  shows "served net (\<lambda>db. complete_gc_run db rid stats) w w' completed"
proof (cases "validate_gc_physical_stats stats")
  case (Inl e)
  with complete show ?thesis by (auto simp: complete_gc_run_on_def served_failed)
next
  case (Inr u)
  let ?check = "\<lambda>run. if gr_run_id run \<noteq> rid then Inl Remote_protocol_error
      else if gr_state run \<noteq> GcCompleted then Inl Remote_protocol_error else Inr run"
  let ?read = "\<lambda>response. rbind (parse_gc_run_json parse (rs_body response)) ?check"
  let ?request = "\<lparr>rq_method = Post, rq_target = gc_run_target rid kCompleteSuffix, rq_content_type = ''application/json'',
      rq_body = serialize (physical_stats_to_json stats)\<rparr>"
  from complete Inr obtain r where
    sent: "post_json (gc_client net parse serialize max_body config) (gc_run_target rid kCompleteSuffix)
      (physical_stats_to_json stats) w = (w', r)"
    and completed: "completed = rbind r (\<lambda>response. expect_status 200 response (?read response))"
    by (auto simp: complete_gc_run_on_def step_bind_of kCompleteSuffix_def)
  obtain kvs where kvs: "physical_stats_to_json stats = Json_object kvs" by (simp add: physical_stats_to_json_def)
  have "json_plain (Json_object kvs)" unfolding kvs [symmetric] by (simp add: physical_stats_to_json_def)
  note json = parse_serialized_object [OF codec this]
  have keys: "json_object_has_exact_keys kvs physical_stats_keys"
    using kvs by (auto simp: physical_stats_to_json_def json_object_has_exact_keys_def physical_stats_keys_def)
  have small: "\<not> kPostgresBigintMax < v" if "v \<in> set [physical_chunks_scanned stats, physical_bytes_scanned stats,
      collectible_chunks stats, collectible_bytes stats, physically_deleted_chunks stats, physically_deleted_bytes stats]" for v
    using Inr that by (auto simp: validate_gc_physical_stats_def check_all_ok split: if_splits)
  have "parse_physical_stats (reparsed_fields kvs) = Some stats"
  proof -
    have fields: "map_of kvs ''physical_chunks_scanned'' = Some (Json_uint64 (physical_chunks_scanned stats))"
      "map_of kvs ''physical_bytes_scanned'' = Some (Json_uint64 (physical_bytes_scanned stats))"
      "map_of kvs ''collectible_chunks'' = Some (Json_uint64 (collectible_chunks stats))"
      "map_of kvs ''collectible_bytes'' = Some (Json_uint64 (collectible_bytes stats))"
      "map_of kvs ''physically_deleted_chunks'' = Some (Json_uint64 (physically_deleted_chunks stats))"
      "map_of kvs ''physically_deleted_bytes'' = Some (Json_uint64 (physically_deleted_bytes stats))"
      using kvs by (auto simp: physical_stats_to_json_def)
    show ?thesis unfolding parse_physical_stats_def fields [THEN bigint_field_reparsed] using small by simp
  qed
  then have handled: "gc_handler parse serialize ?request db = Some (transact db (complete_gc_run db rid stats)
      (\<lambda>completed. make_json_response serialize 200 (gc_run_to_json completed)) (catch_gc_error serialize))" for db
    using gc_route [OF rid, of kCompleteSuffix] keys
    by (simp add: gc_handler_def handle_gc_runs_def handle_complete_gc_run_def with_json_object_def kvs json
        parse_gc_physical_stats_json_def kClassifySuffix_def kCompleteSuffix_def)
  show ?thesis
    unfolding completed
  proof (rule served_transaction [OF post_json_exchanged [OF sent] handled])
    show "y = x" if "?read (make_json_response serialize 200 (gc_run_to_json x)) = Inr y" for x y
      by (rule parse_gc_run_answer [OF codec that]) (auto split: if_splits)
  qed (simp_all add: catch_status)
qed

end
