(* ===== verification/Gc_Engine.thy ===== *)
theory Gc_Engine
  imports Metadata_Gc
begin

section \<open>The collection engine\<close>

text \<open>
  \<open>GcEngine::collect\<close> (\<open>src/gc/gc_engine.cpp\<close>): a run is started at the metadata service, the inventory of
  the node is read page by page, each page is classified at the metadata service and its collectible
  chunks are deleted, and the run is completed. The metadata client is the one of \<open>Metadata_Gc\<close>,
  the storage client the one of \<open>Storage_Node\<close>. Every operation is a step of one world, so whatever
  happens between two calls is part of the next one.

  The collection ends whatever the services answer; nothing that is live is deleted, also when a call fails
  or other clients use the service meanwhile; and a collection that succeeds leaves exactly the live chunks.
\<close>

subsection \<open>The engine\<close>

record gc_request =
  gq_run_id :: string
  gq_dry_run :: bool

definition kInventoryPageSize :: nat where
  "kInventoryPageSize = 128"

definition gc_identities_match :: "gc_run \<Rightarrow> string \<Rightarrow> string \<Rightarrow> bool \<Rightarrow> bool" where
  "gc_identities_match run run_id target_node_id dry_run \<longleftrightarrow>
     (let expected_mode = if dry_run then GcDryRun else GcApply
      in gr_run_id run = run_id \<and> gr_target_node_id run = target_node_id \<and> gr_mode run = expected_mode)"

text \<open>The loop over a page: the order of its chunks, and the counters.\<close>

fun scan_page :: "string option \<Rightarrow> stored_chunk_info list \<Rightarrow> gc_physical_stats \<Rightarrow> gc_physical_stats res" where
  "scan_page previous [] stats = Inr stats"
| "scan_page previous (info # infos) stats =
     (if (case previous of Some previous_id \<Rightarrow> sci_chunk_id info \<le> previous_id | None \<Rightarrow> False)
      then Inl Remote_protocol_error
      else scan_page (Some (sci_chunk_id info)) infos
             (stats\<lparr>physical_chunks_scanned := physical_chunks_scanned stats + 1,
                    physical_bytes_scanned := physical_bytes_scanned stats + sci_size_bytes info\<rparr>))"

text \<open>One decision, and the chunk of the page it must be about.\<close>

definition apply_decision ::
  "bool \<Rightarrow> 's node_client \<Rightarrow> gc_chunk_decision \<times> stored_chunk_info \<Rightarrow> gc_physical_stats \<Rightarrow>
   ('s, gc_physical_stats) step" where
  "apply_decision dry_run storage_client entry stats =
     (case entry of (decision, info) \<Rightarrow>
        if gd_chunk_id decision \<noteq> sci_chunk_id info then step_of (Inl Remote_protocol_error)
        else if \<not> gd_collectible decision then step_return stats
        else
          let stats = stats\<lparr>collectible_chunks := collectible_chunks stats + 1,
                            collectible_bytes := collectible_bytes stats + sci_size_bytes info\<rparr>
          in if dry_run then step_return stats
             else step_bind (delete_chunk_on storage_client (gd_chunk_id decision)) (\<lambda>deleted.
                  step_return (if deleted
                    then stats\<lparr>physically_deleted_chunks := physically_deleted_chunks stats + 1,
                               physically_deleted_bytes := physically_deleted_bytes stats + sci_size_bytes info\<rparr>
                    else stats)))"

definition collect_page ::
  "'s metadata_client \<Rightarrow> 's node_client \<Rightarrow> gc_request \<Rightarrow> stored_chunk_page \<Rightarrow> gc_physical_stats \<Rightarrow>
   ('s, gc_physical_stats) step" where
  "collect_page metadata_client storage_client request page stats =
     step_bind (step_of (scan_page None (pg_chunks page) stats)) (\<lambda>stats.
     if (case pg_next_after page of Some next \<Rightarrow> next \<noteq> sci_chunk_id (last (pg_chunks page)) | None \<Rightarrow> False)
     then step_of (Inl Remote_protocol_error)
     else
       let chunk_ids = map sci_chunk_id (pg_chunks page)
       in step_bind (classify_gc_chunks_on metadata_client (gq_run_id request) chunk_ids) (\<lambda>decisions.
          if length decisions \<noteq> length chunk_ids then step_of (Inl Remote_protocol_error)
          else step_fold (apply_decision (gq_dry_run request) storage_client) (zip decisions (pg_chunks page)) stats))"

text \<open>The loop over the pages. \<open>None\<close> is not returning.\<close>

partial_function (option) collect_pages ::
  "'s metadata_client \<Rightarrow> 's node_client \<Rightarrow> gc_request \<Rightarrow> string option \<Rightarrow> gc_physical_stats \<Rightarrow> 's \<Rightarrow>
   ('s \<times> gc_physical_stats res) option" where
  "collect_pages metadata_client storage_client request after stats s =
     (case list_chunks_on storage_client after kInventoryPageSize s of
        (s, Inl e) \<Rightarrow> Some (s, Inl e)
      | (s, Inr page) \<Rightarrow>
          if pg_chunks page = []
          then Some (s, if pg_next_after page \<noteq> None then Inl Remote_protocol_error else Inr stats)
          else (case collect_page metadata_client storage_client request page stats s of
                  (s, Inl e) \<Rightarrow> Some (s, Inl e)
                | (s, Inr stats) \<Rightarrow>
                    (case pg_next_after page of
                       None \<Rightarrow> Some (s, Inr stats)
                     | Some next \<Rightarrow>
                         if (case after of Some a \<Rightarrow> next \<le> a | None \<Rightarrow> False)
                         then Some (s, Inl Remote_protocol_error)
                         else collect_pages metadata_client storage_client request (Some next) stats s)))"

declare collect_pages.simps [code]

definition no_physical_stats :: gc_physical_stats where
  "no_physical_stats =
     \<lparr>physical_chunks_scanned = 0, physical_bytes_scanned = 0, collectible_chunks = 0, collectible_bytes = 0,
      physically_deleted_chunks = 0, physically_deleted_bytes = 0\<rparr>"

definition gc_collect ::
  "'s metadata_client \<Rightarrow> 's node_client \<Rightarrow> string \<Rightarrow> gc_request \<Rightarrow> 's \<Rightarrow> ('s \<times> gc_run res) option" where
  "gc_collect metadata_client storage_client storage_node_id request s =
     (case start_gc_run_on metadata_client (gq_run_id request) storage_node_id (gq_dry_run request) s of
        (s, Inl e) \<Rightarrow> Some (s, Inl e)
      | (s, Inr run) \<Rightarrow>
          if \<not> gc_identities_match run (gq_run_id request) storage_node_id (gq_dry_run request)
          then Some (s, Inl Runtime_error)
          else if gr_state run = GcCompleted then Some (s, Inr run)
          else if gr_state run \<noteq> GcOpen then Some (s, Inl Runtime_error)
          else (case collect_pages metadata_client storage_client request None no_physical_stats s of
                  None \<Rightarrow> None
                | Some (s, Inl e) \<Rightarrow> Some (s, Inl e)
                | Some (s, Inr stats) \<Rightarrow> Some (complete_gc_run_on metadata_client (gq_run_id request) stats s)))"

subsection \<open>The loop ends\<close>

text \<open>The client only lets a chunk identifier through as a cursor, whatever the server answers.\<close>

lemma listed_cursor:
  assumes "list_chunks_on client after limit s = (s', Inr page)" and "pg_next_after page = Some c"
  shows "is_content_id c"
proof -
  obtain parse body where "parse_chunk_inventory_page parse body = Inr page"
    using assms(1) by (auto simp: list_chunks_on_def step_bind_eq split: if_splits)
  with assms(2) show ?thesis
    by (auto simp: parse_chunk_inventory_page_def rbind_eq_Inr is_valid_chunk_id_eq split: option.splits json.splits if_splits)
qed

definition ids_after :: "string option \<Rightarrow> string set" where
  "ids_after after = {c. is_content_id c \<and> (case after of Some a \<Rightarrow> a < c | None \<Rightarrow> True)}"

lemma finite_ids_after: "finite (ids_after after)"
proof (rule finite_subset)
  show "ids_after after \<subseteq> {c. set c \<subseteq> UNIV \<and> length c = 64}" by (auto simp: ids_after_def is_content_id_def)
  show "finite {c :: string. set c \<subseteq> UNIV \<and> length c = 64}" by (rule finite_lists_length_eq) simp
qed

lemma cursor_advances:
  assumes "is_content_id c" and "\<not> (case after of Some a \<Rightarrow> c \<le> a | None \<Rightarrow> False)"
  shows "card (ids_after (Some c)) < card (ids_after after)"
proof (rule psubset_card_mono [OF finite_ids_after])
  have "c \<in> ids_after after" "c \<notin> ids_after (Some c)"
    using assms by (auto simp: ids_after_def not_le split: option.splits)
  moreover have "ids_after (Some c) \<subseteq> ids_after after"
    using assms(2) by (auto simp: ids_after_def not_le split: option.splits)
  ultimately show "ids_after (Some c) \<subset> ids_after after" by blast
qed

lemma collect_pages_returns:
  "\<exists>s' r. collect_pages metadata_client storage_client request after stats s = Some (s', r)"
proof (induction "card (ids_after after)" arbitrary: after stats s rule: less_induct)
  case less
  note loop = collect_pages.simps [of metadata_client storage_client request after stats s]
  obtain s1 listed where list: "list_chunks_on storage_client after kInventoryPageSize s = (s1, listed)"
    by (cases "list_chunks_on storage_client after kInventoryPageSize s")
  show ?case
  proof (cases listed)
    case (Inr page)
    obtain s2 collected where page: "collect_page metadata_client storage_client request page stats s1 = (s2, collected)"
      by (cases "collect_page metadata_client storage_client request page stats s1")
    show ?thesis
    proof (cases "\<exists>c stats'. pg_chunks page \<noteq> [] \<and> collected = Inr stats' \<and> pg_next_after page = Some c \<and>
        \<not> (case after of Some a \<Rightarrow> c \<le> a | None \<Rightarrow> False)")
      case True
      then obtain c stats' where c: "pg_chunks page \<noteq> []" "collected = Inr stats'" "pg_next_after page = Some c"
        "\<not> (case after of Some a \<Rightarrow> c \<le> a | None \<Rightarrow> False)" by blast
      have "is_content_id c" using listed_cursor [OF list [unfolded Inr]] c(3) by simp
      from less [OF cursor_advances [OF this c(4)]] show ?thesis
        unfolding loop list Inr prod.case sum.case page c(2,3) option.case if_not_P [OF c(1)] if_not_P [OF c(4)] .
    next
      case False
      then show ?thesis
        unfolding loop list Inr prod.case sum.case page by (cases collected; cases "pg_next_after page") auto
    qed
  qed (simp add: loop list)
qed

text \<open>The rule for the loop: \<open>I\<close> holds when a page is asked for, \<open>Q\<close> when the loop ends.\<close>

lemma collect_pages_rule:
  assumes result: "collect_pages metadata_client storage_client request after stats s = Some (s', r)" and init: "I after stats s"
    and failed: "\<And>after stats s s1 e. I after stats s \<Longrightarrow>
      list_chunks_on storage_client after kInventoryPageSize s = (s1, Inl e) \<Longrightarrow> Q s1 (Inl e)"
    and over: "\<And>after stats s s1 page. I after stats s \<Longrightarrow>
      list_chunks_on storage_client after kInventoryPageSize s = (s1, Inr page) \<Longrightarrow> pg_chunks page = [] \<Longrightarrow>
      Q s1 (if pg_next_after page \<noteq> None then Inl Remote_protocol_error else Inr stats)"
    and broken: "\<And>after stats s s1 page s2 e. I after stats s \<Longrightarrow>
      list_chunks_on storage_client after kInventoryPageSize s = (s1, Inr page) \<Longrightarrow> pg_chunks page \<noteq> [] \<Longrightarrow>
      collect_page metadata_client storage_client request page stats s1 = (s2, Inl e) \<Longrightarrow> Q s2 (Inl e)"
    and last_page: "\<And>after stats s s1 page s2 stats'. I after stats s \<Longrightarrow>
      list_chunks_on storage_client after kInventoryPageSize s = (s1, Inr page) \<Longrightarrow> pg_chunks page \<noteq> [] \<Longrightarrow>
      collect_page metadata_client storage_client request page stats s1 = (s2, Inr stats') \<Longrightarrow>
      pg_next_after page = None \<Longrightarrow> Q s2 (Inr stats')"
    and stuck: "\<And>after stats s s1 page s2 stats' c. I after stats s \<Longrightarrow>
      list_chunks_on storage_client after kInventoryPageSize s = (s1, Inr page) \<Longrightarrow> pg_chunks page \<noteq> [] \<Longrightarrow>
      collect_page metadata_client storage_client request page stats s1 = (s2, Inr stats') \<Longrightarrow>
      pg_next_after page = Some c \<Longrightarrow> Q s2 (Inl Remote_protocol_error)"
    and advance: "\<And>after stats s s1 page s2 stats' c. I after stats s \<Longrightarrow>
      list_chunks_on storage_client after kInventoryPageSize s = (s1, Inr page) \<Longrightarrow> pg_chunks page \<noteq> [] \<Longrightarrow>
      collect_page metadata_client storage_client request page stats s1 = (s2, Inr stats') \<Longrightarrow>
      pg_next_after page = Some c \<Longrightarrow> \<not> (case after of Some a \<Rightarrow> c \<le> a | None \<Rightarrow> False) \<Longrightarrow> I (Some c) stats' s2"
  shows "Q s' r"
  using result init
proof (induction "card (ids_after after)" arbitrary: after stats s rule: less_induct)
  case less
  note loop = less.prems(1) [unfolded collect_pages.simps [of metadata_client storage_client request after stats s]]
  obtain s1 listed where list: "list_chunks_on storage_client after kInventoryPageSize s = (s1, listed)"
    by (cases "list_chunks_on storage_client after kInventoryPageSize s")
  show ?case
  proof (cases listed)
    case (Inl e)
    with loop list failed [OF less.prems(2)] show ?thesis by auto
  next
    case (Inr page)
    note list = list [unfolded Inr]
    note loop = loop [unfolded list prod.case sum.case]
    show ?thesis
    proof (cases "pg_chunks page = []")
      case True
      with loop over [OF less.prems(2) list] show ?thesis by auto
    next
      case False
      obtain s2 collected where page: "collect_page metadata_client storage_client request page stats s1 = (s2, collected)"
        by (cases "collect_page metadata_client storage_client request page stats s1")
      note loop = loop [unfolded if_not_P [OF False] page prod.case]
      note at = less.prems(2) list False
      show ?thesis
      proof (cases collected)
        case (Inl e)
        with loop broken [OF at page [unfolded Inl]] show ?thesis by simp
      next
        case (Inr stats')
        note page = page [unfolded Inr] and loop = loop [unfolded Inr sum.case]
        show ?thesis
        proof (cases "pg_next_after page")
          case None
          with loop last_page [OF at page None] show ?thesis by simp
        next
          case (Some c)
          note loop = loop [unfolded Some option.case(2)]
          show ?thesis
          proof (cases "case after of Some a \<Rightarrow> c \<le> a | None \<Rightarrow> False")
            case True
            with loop stuck [OF at page Some] show ?thesis by simp
          next
            case False
            note loop = loop [unfolded if_not_P [OF False]]
            have "is_content_id c" using listed_cursor [OF list Some] .
            from less.hyps [OF cursor_advances [OF this False] loop advance [OF at page Some False]] show ?thesis .
          qed
        qed
      qed
    qed
  qed
qed

text \<open>So the collection ends, whatever the services answer.\<close>

lemma collection_returns:
  "\<exists>s' r. gc_collect metadata_client storage_client node request s = Some (s', r)"
proof -
  obtain s1 started where start: "start_gc_run_on metadata_client (gq_run_id request) node (gq_dry_run request) s = (s1, started)"
    by (cases "start_gc_run_on metadata_client (gq_run_id request) node (gq_dry_run request) s")
  obtain s2 r where "collect_pages metadata_client storage_client request None no_physical_stats s1 = Some (s2, r)"
    using collect_pages_returns [of metadata_client storage_client request None no_physical_stats s1] by blast
  then show ?thesis
    by (cases "complete_gc_run_on metadata_client (gq_run_id request) (projr r) s2")
      (auto simp: gc_collect_def start split: sum.split)
qed

subsection \<open>The world the engine runs in\<close>

text \<open>
  The metadata service as the engine relies on it: a request that is answered was handled by the repository,
  at some moment, after any number of requests of others; a request that fails may have been handled.
\<close>

locale collection_world = served_store H storage_client disk_of db_of
  for H :: hash and storage_client :: "'s node_client" and disk_of :: "'s \<Rightarrow> disk" and db_of :: "'s \<Rightarrow> database" +
  fixes metadata_client :: "'s metadata_client"
    and is_ip :: "string \<Rightarrow> bool"
  assumes start_served: "start_gc_run_on metadata_client rid node dry s = (s', started) \<Longrightarrow>
      disk_of s' = disk_of s \<and> repo_steps H is_ip (db_of s) (db_of s') \<and>
      (\<forall>run. started = Inr run \<longrightarrow>
        is_uuid rid \<and> (\<exists>before. start_gc_run before (gc_start_request rid node dry) = Inr (db_of s', run)))"
    and classify_served: "is_uuid rid \<Longrightarrow> classify_gc_chunks_on metadata_client rid ids s = (s', classified) \<Longrightarrow>
      disk_of s' = disk_of s \<and> repo_steps H is_ip (db_of s) (db_of s') \<and>
      (\<forall>decisions. classified = Inr decisions \<longrightarrow> classify_gc_chunks (db_of s') rid ids = Inr decisions)"
    and complete_served: "is_uuid rid \<Longrightarrow> complete_gc_run_on metadata_client rid stats s = (s', completed) \<Longrightarrow>
      disk_of s' = disk_of s \<and> repo_steps H is_ip (db_of s) (db_of s') \<and>
      (\<forall>run. completed = Inr run \<longrightarrow> (\<exists>before. complete_gc_run before rid stats = Inr (db_of s', run)))"

text \<open>What is known once a run was started.\<close>

lemma loaded_run_open:
  assumes "load_gc_run db rid = Inr (Some run)" and "gr_state run = GcOpen"
  shows "gc_run_open db rid"
  using assms(1)
proof (rule load_gc_run_row)
  fix row
  assume "gc_run_rows db rid = [row]" and "reconstruct_gc_run_from_row row = Inr run"
  then show ?thesis using assms(2) reconstruct_gc_run_state by (fastforce simp: gc_run_open_def)
qed

lemma started_run_open:
  assumes "start_gc_run before (gc_start_request rid node dry) = Inr (db, run)" and "gr_state run = GcOpen"
  shows "gc_run_open db rid"
  using assms(1)
  by (intro loaded_run_open [OF _ assms(2)])
    (auto simp: start_gc_run_def gc_start_request_def rbind_eq_Inr split: option.splits if_splits)

lemma classified_run_open:
  assumes "classify_gc_chunks db rid ids = Inr decisions"
  shows "gc_run_open db rid"
    and "decisions = map (\<lambda>c. \<lparr>gd_chunk_id = c, gd_collectible = (\<not> chunk_in_live_layout db c)\<rparr>) ids"
proof -
  from assms obtain run where run: "load_gc_run db rid = Inr (Some run)" "gr_state run = GcOpen"
      "decisions = map (\<lambda>c. \<lparr>gd_chunk_id = c, gd_collectible = (\<not> chunk_in_live_layout db c)\<rparr>) ids"
    by (auto simp: classify_gc_chunks_def rbind_eq_Inr split: option.splits if_splits)
  show "gc_run_open db rid" by (rule loaded_run_open [OF run(1,2)])
  show "decisions = map (\<lambda>c. \<lparr>gd_chunk_id = c, gd_collectible = (\<not> chunk_in_live_layout db c)\<rparr>) ids" by (rule run(3))
qed

subsection \<open>Nothing live is deleted\<close>

context collection_world
begin

text \<open>\<open>origin\<close> is the database of a moment when the run was open.\<close>

definition within_run :: "database \<Rightarrow> string \<Rightarrow> 's \<Rightarrow> bool" where
  "within_run origin rid s \<longleftrightarrow> is_uuid rid \<and> repo_ok origin \<and> gc_run_open origin rid \<and> repo_steps H is_ip origin (db_of s)"

definition live_kept :: "database \<Rightarrow> 's \<Rightarrow> 's \<Rightarrow> bool" where
  "live_kept origin s s' \<longleftrightarrow>
     (\<forall>c. chunk_in_live_layout origin c \<longrightarrow> chunk_file_of (disk_of s') c = chunk_file_of (disk_of s) c)"

lemma live_kept_refl [simp]: "live_kept origin s s"
  by (simp add: live_kept_def)

lemma live_kept_trans: "live_kept origin s t \<Longrightarrow> live_kept origin t u \<Longrightarrow> live_kept origin s u"
  by (simp add: live_kept_def)

lemma same_disk_kept: "disk_of s' = disk_of s \<Longrightarrow> live_kept origin s s'"
  by (simp add: live_kept_def)

lemma within_run_uuid: "within_run origin rid s \<Longrightarrow> is_uuid rid"
  by (simp add: within_run_def)

lemma within_run_steps: "within_run origin rid s \<Longrightarrow> repo_steps H is_ip (db_of s) (db_of s') \<Longrightarrow> within_run origin rid s'"
  unfolding within_run_def by (meson rtranclp_trans)

text \<open>The decisions are those of the moment the run was open.\<close>

lemma classified_by_origin:
  assumes "classify_gc_chunks_on metadata_client rid ids s = (s', Inr decisions)" and "within_run origin rid s"
  shows "decisions = map (\<lambda>c. \<lparr>gd_chunk_id = c, gd_collectible = (\<not> chunk_in_live_layout origin c)\<rparr>) ids"
    and "within_run origin rid s'" and "disk_of s' = disk_of s"
proof -
  note served = classify_served [OF within_run_uuid [OF assms(2)] assms(1)]
  then have "classify_gc_chunks (db_of s') rid ids = Inr decisions" by blast
  note decided = classified_run_open [OF this]
  show within: "within_run origin rid s'" using within_run_steps [OF assms(2)] served by blast
  then have "frozen origin (db_of s')"
    using run_freezes decided(1) unfolding within_run_def by blast
  from decided(2) frozen_chunk_live [OF this]
  show "decisions = map (\<lambda>c. \<lparr>gd_chunk_id = c, gd_collectible = (\<not> chunk_in_live_layout origin c)\<rparr>) ids" by simp
  show "disk_of s' = disk_of s" using served by blast
qed

lemma apply_decision_kept:
  assumes "apply_decision dry storage_client (decision, info) stats s = (s', r)"
    and "gd_collectible decision \<Longrightarrow> \<not> chunk_in_live_layout origin (gd_chunk_id decision)"
  shows "live_kept origin s s' \<and> db_of s' = db_of s \<and> (dry \<longrightarrow> disk_of s' = disk_of s)"
proof (cases "gd_chunk_id decision = sci_chunk_id info \<and> gd_collectible decision \<and> \<not> dry")
  case True
  then obtain mid removed where del: "delete_chunk_on storage_client (gd_chunk_id decision) s = (mid, removed)" and s': "s' = mid"
    using assms(1) by (cases "delete_chunk_on storage_client (gd_chunk_id decision) s")
      (auto simp: apply_decision_def step_bind_eq Let_def)
  have "chunk_file_of (disk_of mid) c = chunk_file_of (disk_of s) c" if "chunk_in_live_layout origin c" for c
    using delete_keeps(3) [OF del, of c] assms(2) True that by blast
  then show ?thesis using delete_keeps(1) [OF del] True by (simp add: live_kept_def s')
next
  case False
  then show ?thesis using assms(1) by (auto simp: apply_decision_def Let_def split: if_splits)
qed

lemma apply_decisions_kept:
  assumes "\<forall>entry \<in> set entries. gd_collectible (fst entry) \<longrightarrow> \<not> chunk_in_live_layout origin (gd_chunk_id (fst entry))"
    and "step_fold (apply_decision dry storage_client) entries stats s = (s', r)"
  shows "live_kept origin s s' \<and> db_of s' = db_of s \<and> (dry \<longrightarrow> disk_of s' = disk_of s)"
  using assms
proof (induction entries arbitrary: stats s)
  case (Cons entry entries)
  obtain decision info where entry: "entry = (decision, info)" by (cases entry)
  obtain mid applied where one: "apply_decision dry storage_client (decision, info) stats s = (mid, applied)"
    by (cases "apply_decision dry storage_client (decision, info) stats s")
  have first: "live_kept origin s mid \<and> db_of mid = db_of s \<and> (dry \<longrightarrow> disk_of mid = disk_of s)"
    using Cons.prems(1) by (intro apply_decision_kept [OF one]) (simp add: entry)
  show ?case
  proof (cases applied)
    case (Inr stats')
    then have "step_fold (apply_decision dry storage_client) entries stats' mid = (s', r)"
      using Cons.prems(2) one by (simp add: entry)
    from Cons.IH [OF _ this] Cons.prems(1) first live_kept_trans [of origin s mid s'] show ?thesis by simp
  qed (use Cons.prems(2) one first in \<open>simp add: entry\<close>)
qed simp

lemma collect_page_kept:
  assumes "collect_page metadata_client storage_client request page stats s = (s', r)"
    and "within_run origin (gq_run_id request) s"
  shows "live_kept origin s s' \<and> within_run origin (gq_run_id request) s' \<and> (gq_dry_run request \<longrightarrow> disk_of s' = disk_of s)"
proof -
  let ?ids = "map sci_chunk_id (pg_chunks page)"
  obtain mid classified where classify: "classify_gc_chunks_on metadata_client (gq_run_id request) ?ids s = (mid, classified)"
    by (cases "classify_gc_chunks_on metadata_client (gq_run_id request) ?ids s")
  note served = classify_served [OF within_run_uuid [OF assms(2)] classify]
  have mid: "live_kept origin s mid" "within_run origin (gq_run_id request) mid"
    using served same_disk_kept within_run_steps [OF assms(2)] by auto
  from assms(1) consider "s' = s" | "s' = mid" |
    decisions stats' where "classified = Inr decisions"
      "step_fold (apply_decision (gq_dry_run request) storage_client) (zip decisions (pg_chunks page)) stats' mid = (s', r)"
    using classify by (auto simp: collect_page_def step_bind_eq Let_def split: if_splits)
  then show ?thesis
  proof cases
    case 3
    have "\<forall>entry \<in> set (zip decisions (pg_chunks page)). gd_collectible (fst entry) \<longrightarrow>
        \<not> chunk_in_live_layout origin (gd_chunk_id (fst entry))"
      using classified_by_origin(1) [OF classify [unfolded 3(1)] assms(2)] by (auto dest!: set_zip_leftD)
    from apply_decisions_kept [OF this 3(2)] mid served show ?thesis
      by (auto simp: within_run_def dest: live_kept_trans)
  qed (use assms(2) mid served in auto)
qed

lemma collect_pages_kept:
  assumes "collect_pages metadata_client storage_client request after stats s = Some (s', r)"
    and "within_run origin (gq_run_id request) s"
  shows "live_kept origin s s' \<and> within_run origin (gq_run_id request) s' \<and> (gq_dry_run request \<longrightarrow> disk_of s' = disk_of s)"
proof -
  define P where "P t \<longleftrightarrow> live_kept origin s t \<and> within_run origin (gq_run_id request) t \<and>
      (gq_dry_run request \<longrightarrow> disk_of t = disk_of s)" for t
  have list: "P t'" if "P t" "list_chunks_on storage_client after kInventoryPageSize t = (t', l)" for t t' l after
    using that list_served [OF that(2)] by (simp add: P_def within_run_def live_kept_def)
  have page: "P t'" if "P t" "collect_page metadata_client storage_client request page stats t = (t', l)" for t t' l page stats
    using that(1) collect_page_kept [OF that(2), of origin] live_kept_trans [of origin s t t'] by (auto simp: P_def)
  have "P s" using assms(2) by (simp add: P_def)
  then have "P s'"
    by (rule collect_pages_rule [OF assms(1), where I = "\<lambda>_ _. P" and Q = "\<lambda>t _. P t"]) (blast intro: list page)+
  then show ?thesis by (simp add: P_def)
qed

lemma collect_keeps_live:
  assumes collect: "gc_collect metadata_client storage_client node request s = Some (s', r)"
    and reachable: "idle db0" "repo_steps H is_ip db0 (db_of s)"
    and start: "start_gc_run_on metadata_client (gq_run_id request) node (gq_dry_run request) s = (s1, started)"
  shows "live_kept (db_of s1) s s' \<and> (gq_dry_run request \<longrightarrow> disk_of s' = disk_of s)"
proof -
  note served = start_served [OF start]
  then have s1: "disk_of s1 = disk_of s" "repo_ok (db_of s1)"
    using reachable_ok [OF reachable(1)] reachable(2) by (blast intro: rtranclp_trans)+
  then have kept: "live_kept (db_of s1) s t = live_kept (db_of s1) s1 t" for t by (simp add: live_kept_def)
  note collect = collect [unfolded gc_collect_def start prod.case]
  show ?thesis
  proof (cases "\<exists>run. started = Inr run \<and> gr_state run = GcOpen \<and>
      gc_identities_match run (gq_run_id request) node (gq_dry_run request)")
    case False
    then have "s' = s1" using collect by (auto split: sum.splits if_splits)
    then show ?thesis using s1 by (simp add: kept)
  next
    case True
    then obtain run where run: "started = Inr run" "gr_state run = GcOpen"
      "gc_identities_match run (gq_run_id request) node (gq_dry_run request)" by blast
    then have open_run: "is_uuid (gq_run_id request)" "gc_run_open (db_of s1) (gq_run_id request)"
      using served started_run_open by blast+
    then have within: "within_run (db_of s1) (gq_run_id request) s1" using s1 by (simp add: within_run_def)
    obtain s2 paged where pages:
      "collect_pages metadata_client storage_client request None no_physical_stats s1 = Some (s2, paged)"
      using collect_pages_returns [of metadata_client storage_client request None no_physical_stats s1] by blast
    note kept2 = collect_pages_kept [OF pages within]
    have "disk_of s' = disk_of s2"
      using collect run pages complete_served [OF open_run(1), of _ s2] by (auto split: sum.splits)
    then show ?thesis using kept2 s1 by (simp add: kept) (simp add: live_kept_def)
  qed
qed

end

subsection \<open>A collection that succeeds is exact\<close>

text \<open>What the counters are when exactly the dead ones of the listed chunks are collected; they wrap around.\<close>

definition tally :: "bool \<Rightarrow> (string \<Rightarrow> bool) \<Rightarrow> stored_chunk_info list \<Rightarrow> gc_physical_stats" where
  "tally dry live infos =
     (let dead = filter (\<lambda>info. \<not> live (sci_chunk_id info)) infos
      in \<lparr>physical_chunks_scanned = of_nat (length infos), physical_bytes_scanned = sum_list (map sci_size_bytes infos),
          collectible_chunks = of_nat (length dead), collectible_bytes = sum_list (map sci_size_bytes dead),
          physically_deleted_chunks = (if dry then 0 else of_nat (length dead)),
          physically_deleted_bytes = (if dry then 0 else sum_list (map sci_size_bytes dead))\<rparr>)"

definition add_stats :: "gc_physical_stats \<Rightarrow> gc_physical_stats \<Rightarrow> gc_physical_stats" where
  "add_stats a b =
     \<lparr>physical_chunks_scanned = physical_chunks_scanned a + physical_chunks_scanned b,
      physical_bytes_scanned = physical_bytes_scanned a + physical_bytes_scanned b,
      collectible_chunks = collectible_chunks a + collectible_chunks b,
      collectible_bytes = collectible_bytes a + collectible_bytes b,
      physically_deleted_chunks = physically_deleted_chunks a + physically_deleted_chunks b,
      physically_deleted_bytes = physically_deleted_bytes a + physically_deleted_bytes b\<rparr>"

lemma tally_append: "tally dry live (xs @ ys) = add_stats (tally dry live xs) (tally dry live ys)"
  by (simp add: tally_def add_stats_def Let_def)

lemma add_stats_assoc: "add_stats (add_stats a b) c = add_stats a (add_stats b c)"
  by (simp add: add_stats_def ac_simps)

lemma add_stats_commute: "add_stats a b = add_stats b a"
  by (simp add: add_stats_def ac_simps)

lemma add_stats_right_commute: "add_stats (add_stats a b) c = add_stats (add_stats a c) b"
  by (simp add: add_stats_def ac_simps)

lemma add_stats_cancel: "add_stats a c = add_stats b c \<longleftrightarrow> a = b"
  by (cases a; cases b) (simp add: add_stats_def)

lemma tally_Nil: "tally dry live [] = no_physical_stats"
  by (simp add: tally_def no_physical_stats_def)

lemma scan_page_ok:
  "scan_page previous infos stats = Inr stats' \<Longrightarrow>
   stats' = add_stats stats (tally True (\<lambda>_. True) infos)"
proof (induction previous infos stats rule: scan_page.induct)
  case (2 previous info infos stats)
  then have "stats' = add_stats (stats\<lparr>physical_chunks_scanned := physical_chunks_scanned stats + 1,
      physical_bytes_scanned := physical_bytes_scanned stats + sci_size_bytes info\<rparr>) (tally True (\<lambda>_. True) infos)"
    by (simp split: if_splits)
  then show ?case by (simp add: add_stats_def tally_def)
qed (simp add: add_stats_def tally_def)

text \<open>The listed chunks between two cursors.\<close>

definition beyond :: "string option \<Rightarrow> stored_chunk_info \<Rightarrow> bool" where
  "beyond cursor info \<longleftrightarrow> (case cursor of None \<Rightarrow> True | Some a \<Rightarrow> a < sci_chunk_id info)"

definition up_to :: "string option \<Rightarrow> stored_chunk_info \<Rightarrow> bool" where
  "up_to cursor info \<longleftrightarrow> (case cursor of None \<Rightarrow> True | Some a \<Rightarrow> sci_chunk_id info \<le> a)"

lemma after_cursor_beyond: "after_cursor after infos = filter (beyond after) infos"
  by (simp add: after_cursor_def beyond_def [abs_def] split: option.split)

lemma sorted_take_filter:
  assumes "sorted (map f xs)" and "distinct (map f xs)" and "n < length xs" and "0 < n"
  shows "take n xs = filter (\<lambda>x. f x \<le> f (last (take n xs))) xs"
proof -
  define front where "front = butlast (take n xs)"
  define l where "l = last (take n xs)"
  define tail where "tail = drop n xs"
  have "take n xs \<noteq> []" using assms(3,4) by auto
  then have taken: "take n xs = front @ [l]" by (simp add: front_def l_def)
  then have xs: "xs = (front @ [l]) @ tail" by (metis append_take_drop_id tail_def)
  have "sorted_wrt (<) (map f xs)" using assms(1,2) by (simp add: strict_sorted_iff)
  then have "\<forall>x \<in> set front. f x < f l" "\<forall>x \<in> set tail. f l < f x"
    by (auto simp: xs sorted_wrt_append)
  then have "filter (\<lambda>x. f x \<le> f l) front = front" "filter (\<lambda>x. f x \<le> f l) tail = []"
    by (auto simp: filter_id_conv filter_empty_conv not_le)
  then have "filter (\<lambda>x. f x \<le> f l) ((front @ [l]) @ tail) = front @ [l]" by simp
  then show ?thesis by (simp only: taken last_snoc xs [symmetric])
qed

lemma sorted_filter_split:
  assumes "sorted (map f xs)"
  shows "filter (\<lambda>x. f x \<le> a) xs @ filter (\<lambda>x. a < f x) xs = xs"
  using assms
proof (induction xs)
  case (Cons x xs)
  show ?case
  proof (cases "f x \<le> a")
    case False
    with Cons.prems have "\<forall>y \<in> set xs. a < f y" by auto
    with False show ?thesis by (simp add: filter_empty_conv not_le)
  qed (use Cons in auto)
qed simp

text \<open>A page is the slice of the inventory between the cursor it was asked for and the one it returns.\<close>

lemma page_slice:
  assumes "sorted (map sci_chunk_id infos)" and "distinct (map sci_chunk_id infos)" and "0 < n"
    and page: "page = take n (filter (beyond after) infos)"
    and cursor: "cursor = (if n < length (filter (beyond after) infos) then Some (sci_chunk_id (last page)) else None)"
  shows "page = filter (\<lambda>info. beyond after info \<and> up_to cursor info) infos"
    and "cursor = Some c \<Longrightarrow> after = Some a \<Longrightarrow> a < c"
    and "filter (\<lambda>info. \<not> beyond after info) infos @ page = filter (up_to cursor) infos"
proof -
  define ys where "ys = filter (beyond after) infos"
  have split: "filter (\<lambda>info. \<not> beyond after info) infos @ ys = infos"
    using sorted_filter_split [OF assms(1)] by (cases after) (simp_all add: ys_def beyond_def [abs_def] not_less)
  have ys: "sorted (map sci_chunk_id ys)" "distinct (map sci_chunk_id ys)"
    using assms(1,2) by (simp_all add: ys_def sorted_filter distinct_map_filter)
  show "page = filter (\<lambda>info. beyond after info \<and> up_to cursor info) infos"
    and "cursor = Some c \<Longrightarrow> after = Some a \<Longrightarrow> a < c"
    and "filter (\<lambda>info. \<not> beyond after info) infos @ page = filter (up_to cursor) infos"
  proof (atomize (full), cases "n < length ys")
    case True
    then have cursor: "cursor = Some (sci_chunk_id (last page))" using assms(5) by (simp add: ys_def)
    have page': "page = filter (up_to cursor) ys"
      using sorted_take_filter [OF ys True assms(3)] by (simp add: up_to_def [abs_def] cursor page ys_def)
    have "page \<noteq> []" using True assms(3) by (auto simp: page ys_def [symmetric])
    then have "last page \<in> set ys" using last_in_set page' by fastforce
    then have advance: "\<forall>a. after = Some a \<longrightarrow> a < sci_chunk_id (last page)" by (auto simp: ys_def beyond_def)
    then have "\<forall>info. \<not> beyond after info \<longrightarrow> up_to cursor info"
      by (cases after) (auto simp: beyond_def up_to_def cursor)
    then have "filter (up_to cursor) (filter (\<lambda>info. \<not> beyond after info) infos) = filter (\<lambda>info. \<not> beyond after info) infos"
      by (intro filter_True) auto
    then have "filter (\<lambda>info. \<not> beyond after info) infos @ page = filter (up_to cursor) infos"
      using arg_cong [OF split, of "filter (up_to cursor)"] by (simp add: page' [symmetric])
    moreover have "page = filter (\<lambda>info. beyond after info \<and> up_to cursor info) infos"
      by (rule page' [unfolded ys_def filter_filter])
    moreover have "cursor = Some c \<longrightarrow> after = Some a \<longrightarrow> a < c"
      unfolding cursor using advance by blast
    ultimately show "page = filter (\<lambda>info. beyond after info \<and> up_to cursor info) infos \<and>
        (cursor = Some c \<longrightarrow> after = Some a \<longrightarrow> a < c) \<and>
        filter (\<lambda>info. \<not> beyond after info) infos @ page = filter (up_to cursor) infos" by blast
  next
    case False
    then have "cursor = None" "page = ys" using assms(4,5) by (simp_all add: ys_def)
    then show "page = filter (\<lambda>info. beyond after info \<and> up_to cursor info) infos \<and>
        (cursor = Some c \<longrightarrow> after = Some a \<longrightarrow> a < c) \<and>
        filter (\<lambda>info. \<not> beyond after info) infos @ page = filter (up_to cursor) infos"
      using split by (simp add: up_to_def ys_def)
  qed
qed

definition keep_live :: "(string \<Rightarrow> bool) \<Rightarrow> stored_chunk_info list \<Rightarrow> stored_chunk_info list" where
  "keep_live live infos = filter (\<lambda>info. live (sci_chunk_id info)) infos"

definition decided :: "(string \<Rightarrow> bool) \<Rightarrow> stored_chunk_info \<Rightarrow> gc_chunk_decision \<times> stored_chunk_info" where
  "decided live info =
     (\<lparr>gd_chunk_id = sci_chunk_id info, gd_collectible = (\<not> live (sci_chunk_id info))\<rparr>, info)"

lemma zip_decided:
  "zip (map (\<lambda>c. \<lparr>gd_chunk_id = c, gd_collectible = (\<not> live c)\<rparr>) (map sci_chunk_id infos)) infos = map (decided live) infos"
  by (induction infos) (simp_all add: decided_def)

context collection_world
begin

text \<open>One page: its collectible chunks are gone, and counted.\<close>

lemma apply_decisions_exact:
  assumes "step_fold (apply_decision dry storage_client) (map (decided live) infos) stats s = (s', Inr stats')"
    and "disk_ok (disk_of s)" and "distinct (map sci_chunk_id infos)"
    and "sci_chunk_id ` set infos \<subseteq> sci_chunk_id ` set (chunk_inventory (disk_of s))"
  shows "add_stats stats (tally dry live infos) = add_stats stats' (tally True (\<lambda>_. True) infos) \<and>
    db_of s' = db_of s \<and> disk_ok (disk_of s') \<and>
    chunk_inventory (disk_of s') =
      filter (\<lambda>info. dry \<or> live (sci_chunk_id info) \<or> sci_chunk_id info \<notin> sci_chunk_id ` set infos) (chunk_inventory (disk_of s))"
  using assms
proof (induction infos arbitrary: stats s)
  case (Cons info infos)
  then obtain mid applied where
    one: "apply_decision dry storage_client (decided live info) stats s = (mid, Inr applied)"
    and more: "step_fold (apply_decision dry storage_client) (map (decided live) infos) applied mid = (s', Inr stats')"
    by (auto simp: step_bind_eq)
  have step: "add_stats stats (tally dry live [info]) = add_stats applied (tally True (\<lambda>_. True) [info]) \<and>
    db_of mid = db_of s \<and> disk_ok (disk_of mid) \<and>
    chunk_inventory (disk_of mid) =
      filter (\<lambda>i. dry \<or> live (sci_chunk_id i) \<or> sci_chunk_id i \<noteq> sci_chunk_id info) (chunk_inventory (disk_of s))"
  proof (cases "dry \<or> live (sci_chunk_id info)")
    case True
    moreover have "filter (\<lambda>i. dry \<or> live (sci_chunk_id i) \<or> sci_chunk_id i \<noteq> sci_chunk_id info) (chunk_inventory (disk_of s)) =
        chunk_inventory (disk_of s)" using True by (intro filter_True) auto
    ultimately show ?thesis using one Cons.prems(2)
      by (auto simp: apply_decision_def decided_def Let_def tally_def add_stats_def split: if_splits)
  next
    case False
    then obtain deleted where del: "delete_chunk_on storage_client (sci_chunk_id info) s = (mid, Inr deleted)"
      and applied: "applied = (let stats = stats\<lparr>collectible_chunks := collectible_chunks stats + 1,
          collectible_bytes := collectible_bytes stats + sci_size_bytes info\<rparr>
        in if deleted then stats\<lparr>physically_deleted_chunks := physically_deleted_chunks stats + 1,
                physically_deleted_bytes := physically_deleted_bytes stats + sci_size_bytes info\<rparr> else stats)"
      using one by (auto simp: apply_decision_def decided_def Let_def step_bind_eq)
    have "sci_chunk_id info \<in> sci_chunk_id ` set (chunk_inventory (disk_of s))" using Cons.prems(4) by auto
    note gone = delete_listed [OF del Cons.prems(2) this]
    have same: "filter (\<lambda>i. dry \<or> live (sci_chunk_id i) \<or> sci_chunk_id i \<noteq> sci_chunk_id info) (chunk_inventory (disk_of s)) =
        filter (\<lambda>i. sci_chunk_id i \<noteq> sci_chunk_id info) (chunk_inventory (disk_of s))"
      using False by (intro filter_cong) auto
    show ?thesis using False gone delete_keeps(1,2) [OF del] Cons.prems(2)
      unfolding same by (simp add: applied tally_def add_stats_def)
  qed
  have "disk_ok (disk_of mid)" "distinct (map sci_chunk_id infos)" using step Cons.prems(3) by simp_all
  moreover have "sci_chunk_id ` set infos \<subseteq> sci_chunk_id ` set (chunk_inventory (disk_of mid))"
  proof
    fix c
    assume c: "c \<in> sci_chunk_id ` set infos"
    moreover have "sci_chunk_id info \<notin> sci_chunk_id ` set infos"
      using Cons.prems(3) by (simp only: list.map distinct.simps set_map simp_thms)
    ultimately have ne: "c \<noteq> sci_chunk_id info" by blast
    have "c \<in> sci_chunk_id ` set (chunk_inventory (disk_of s))" using Cons.prems(4) c by auto
    then obtain i where i: "i \<in> set (chunk_inventory (disk_of s))" "c = sci_chunk_id i" by blast
    have "chunk_inventory (disk_of mid) =
        filter (\<lambda>i. dry \<or> live (sci_chunk_id i) \<or> sci_chunk_id i \<noteq> sci_chunk_id info) (chunk_inventory (disk_of s))"
      using step by blast
    with i ne have "i \<in> set (chunk_inventory (disk_of mid))" by simp
    with i(2) show "c \<in> sci_chunk_id ` set (chunk_inventory (disk_of mid))" by blast
  qed
  ultimately have later: "add_stats applied (tally dry live infos) = add_stats stats' (tally True (\<lambda>_. True) infos) \<and>
    db_of s' = db_of mid \<and> disk_ok (disk_of s') \<and>
    chunk_inventory (disk_of s') =
      filter (\<lambda>i. dry \<or> live (sci_chunk_id i) \<or> sci_chunk_id i \<notin> sci_chunk_id ` set infos) (chunk_inventory (disk_of mid))"
    using Cons.IH [OF more] by blast
  have "add_stats stats (tally dry live (info # infos)) = add_stats stats' (tally True (\<lambda>_. True) (info # infos))"
  proof -
    have one: "tally d l (info # infos) = add_stats (tally d l [info]) (tally d l infos)" for d l
      using tally_append [of d l "[info]" infos] by simp
    have "add_stats stats (tally dry live [info]) = add_stats applied (tally True (\<lambda>_. True) [info])" using step by blast
    moreover have "add_stats applied (tally dry live infos) = add_stats stats' (tally True (\<lambda>_. True) infos)"
      using later by blast
    ultimately show ?thesis
      unfolding one add_stats_assoc [symmetric]
      by (simp only: add_stats_right_commute [of applied "tally True (\<lambda>_. True) [info]"]
          add_stats_right_commute [of stats' "tally True (\<lambda>_. True) [info]"])
  qed
  moreover have "chunk_inventory (disk_of s') =
      filter (\<lambda>i. dry \<or> live (sci_chunk_id i) \<or> sci_chunk_id i \<notin> sci_chunk_id ` set (info # infos)) (chunk_inventory (disk_of s))"
    using step later by (auto intro!: filter_cong)
  ultimately show ?case using step later by simp
qed (simp add: tally_def add_stats_def)

text \<open>A page of the inventory, whole: from the slice after one cursor to the next.\<close>

lemma collect_page_exact:
  assumes "collect_page metadata_client storage_client request page stats s = (s', Inr stats')"
    and "within_run origin (gq_run_id request) s" and "disk_ok (disk_of s)"
    and "distinct (map sci_chunk_id (pg_chunks page))"
    and "sci_chunk_id ` set (pg_chunks page) \<subseteq> sci_chunk_id ` set (chunk_inventory (disk_of s))"
  shows "stats' = add_stats stats (tally (gq_dry_run request) (chunk_in_live_layout origin) (pg_chunks page)) \<and>
    within_run origin (gq_run_id request) s' \<and> disk_ok (disk_of s') \<and>
    chunk_inventory (disk_of s') =
      filter (\<lambda>info. gq_dry_run request \<or> chunk_in_live_layout origin (sci_chunk_id info) \<or>
        sci_chunk_id info \<notin> sci_chunk_id ` set (pg_chunks page)) (chunk_inventory (disk_of s))"
proof -
  let ?ids = "map sci_chunk_id (pg_chunks page)" and ?live = "chunk_in_live_layout origin"
  from assms(1) obtain scanned mid decisions where
    scan: "scan_page None (pg_chunks page) stats = Inr scanned"
    and classify: "classify_gc_chunks_on metadata_client (gq_run_id request) ?ids s = (mid, Inr decisions)"
    and fold: "step_fold (apply_decision (gq_dry_run request) storage_client) (zip decisions (pg_chunks page)) scanned mid =
      (s', Inr stats')"
    by (auto simp: collect_page_def step_bind_eq Let_def split: if_splits)
  note decided = classified_by_origin [OF classify assms(2)]
  note fold = fold [unfolded decided(1) zip_decided]
  note exact = apply_decisions_exact [OF fold, unfolded decided(3), OF assms(3-5)]
  have "add_stats stats' (tally True (\<lambda>_. True) (pg_chunks page)) =
      add_stats (add_stats stats (tally True (\<lambda>_. True) (pg_chunks page))) (tally (gq_dry_run request) ?live (pg_chunks page))"
    using exact scan_page_ok [OF scan] by simp
  then have "stats' = add_stats stats (tally (gq_dry_run request) ?live (pg_chunks page))"
    unfolding add_stats_right_commute [of stats "tally True (\<lambda>_. True) (pg_chunks page)"] add_stats_cancel .
  then show ?thesis using exact decided(2) by (simp add: within_run_def)
qed

text \<open>The state of the loop before the page after a cursor: what is left of the inventory, and the counters.\<close>

definition collected_to ::
  "database \<Rightarrow> gc_request \<Rightarrow> stored_chunk_info list \<Rightarrow> string option \<Rightarrow> gc_physical_stats \<Rightarrow> 's \<Rightarrow> bool" where
  "collected_to origin request infos after stats t \<longleftrightarrow>
     within_run origin (gq_run_id request) t \<and> disk_ok (disk_of t) \<and>
     stats = tally (gq_dry_run request) (chunk_in_live_layout origin) (filter (\<lambda>info. \<not> beyond after info) infos) \<and>
     chunk_inventory (disk_of t) =
       filter (\<lambda>info. gq_dry_run request \<or> chunk_in_live_layout origin (sci_chunk_id info) \<or> beyond after info) infos"

lemma listed_slice:
  assumes at: "collected_to origin request infos after stats t"
    and list: "list_chunks_on storage_client after kInventoryPageSize t = (t1, Inr page)"
    and ids: "sorted (map sci_chunk_id infos)" "distinct (map sci_chunk_id infos)"
  shows "collected_to origin request infos after stats t1"
    and "pg_chunks page = filter (\<lambda>info. beyond after info \<and> up_to (pg_next_after page) info) infos"
    and "filter (\<lambda>info. \<not> beyond after info) infos @ pg_chunks page = filter (up_to (pg_next_after page)) infos"
    and "\<forall>c a. pg_next_after page = Some c \<longrightarrow> after = Some a \<longrightarrow> a < c"
proof -
  from list_served [OF list] have t1: "disk_of t1 = disk_of t" "db_of t1 = db_of t"
    and page: "store_list_chunks (disk_of t) after kInventoryPageSize = Inr page" by blast+
  have rest: "after_cursor after (chunk_inventory (disk_of t)) = filter (beyond after) infos"
    using at by (auto simp: after_cursor_beyond collected_to_def intro: filter_cong)
  note page = store_list_chunks_ok [OF page, unfolded rest]
  show "collected_to origin request infos after stats t1" using at t1 by (simp add: collected_to_def within_run_def)
  note slice = page_slice [OF ids _ conjunct1 [OF conjunct2 [OF conjunct2 [OF page]]] conjunct2 [OF conjunct2 [OF conjunct2 [OF page]]]]
  show "pg_chunks page = filter (\<lambda>info. beyond after info \<and> up_to (pg_next_after page) info) infos"
    and "filter (\<lambda>info. \<not> beyond after info) infos @ pg_chunks page = filter (up_to (pg_next_after page)) infos"
    and "\<forall>c a. pg_next_after page = Some c \<longrightarrow> after = Some a \<longrightarrow> a < c"
    using slice by (simp_all add: kInventoryPageSize_def)
qed

lemma page_collected:
  assumes at: "collected_to origin request infos after stats t"
    and list: "list_chunks_on storage_client after kInventoryPageSize t = (t1, Inr page)"
    and collect: "collect_page metadata_client storage_client request page stats t1 = (t2, Inr stats')"
    and ids: "sorted (map sci_chunk_id infos)" "distinct (map sci_chunk_id infos)"
  shows "within_run origin (gq_run_id request) t2 \<and> disk_ok (disk_of t2) \<and>
    stats' = tally (gq_dry_run request) (chunk_in_live_layout origin) (filter (up_to (pg_next_after page)) infos) \<and>
    chunk_inventory (disk_of t2) =
      filter (\<lambda>info. gq_dry_run request \<or> chunk_in_live_layout origin (sci_chunk_id info) \<or> \<not> up_to (pg_next_after page) info) infos"
proof -
  let ?dry = "gq_dry_run request" and ?live = "chunk_in_live_layout origin"
  note slice = listed_slice [OF at list ids]
  then have inv: "chunk_inventory (disk_of t1) = filter (\<lambda>info. ?dry \<or> ?live (sci_chunk_id info) \<or> beyond after info) infos"
    and run: "within_run origin (gq_run_id request) t1" "disk_ok (disk_of t1)"
    and stats: "stats = tally ?dry ?live (filter (\<lambda>info. \<not> beyond after info) infos)"
    by (simp_all add: collected_to_def)
  have "distinct (map sci_chunk_id (pg_chunks page))" using slice(2) ids(2) by (simp add: distinct_map_filter)
  moreover have "sci_chunk_id ` set (pg_chunks page) \<subseteq> sci_chunk_id ` set (chunk_inventory (disk_of t1))"
    using slice(2) inv by auto
  ultimately have exact: "stats' = add_stats stats (tally ?dry ?live (pg_chunks page)) \<and>
    within_run origin (gq_run_id request) t2 \<and> disk_ok (disk_of t2) \<and>
    chunk_inventory (disk_of t2) =
      filter (\<lambda>info. ?dry \<or> ?live (sci_chunk_id info) \<or> sci_chunk_id info \<notin> sci_chunk_id ` set (pg_chunks page))
        (chunk_inventory (disk_of t1))"
    by (rule collect_page_exact [OF collect run])
  then have "stats' = add_stats stats (tally ?dry ?live (pg_chunks page))" by blast
  then have stats': "stats' = tally ?dry ?live (filter (up_to (pg_next_after page)) infos)"
    by (simp only: stats tally_append [symmetric] slice(3))
  have on_page: "sci_chunk_id info \<in> sci_chunk_id ` set (pg_chunks page) \<longleftrightarrow> beyond after info \<and> up_to (pg_next_after page) info"
    if "info \<in> set infos" for info
    using slice(2) that by (force simp: beyond_def up_to_def split: option.splits)
  have later: "beyond after info" if "\<not> up_to (pg_next_after page) info" for info
    using slice(4) that by (auto simp: beyond_def up_to_def split: option.splits)
  have "chunk_inventory (disk_of t2) =
      filter (\<lambda>info. (?dry \<or> ?live (sci_chunk_id info) \<or> beyond after info) \<and>
        (?dry \<or> ?live (sci_chunk_id info) \<or> sci_chunk_id info \<notin> sci_chunk_id ` set (pg_chunks page))) infos"
    using exact unfolding inv filter_filter by blast
  also have "\<dots> = filter (\<lambda>info. ?dry \<or> ?live (sci_chunk_id info) \<or> \<not> up_to (pg_next_after page) info) infos"
    by (rule filter_cong [OF refl]) (use on_page later in blast)
  finally show ?thesis using exact stats' by blast
qed

lemma empty_page_collected:
  assumes at: "collected_to origin request infos after stats t"
    and list: "list_chunks_on storage_client after kInventoryPageSize t = (t1, Inr page)"
    and empty: "pg_chunks page = []" "pg_next_after page = None"
    and ids: "sorted (map sci_chunk_id infos)" "distinct (map sci_chunk_id infos)"
  shows "stats = tally (gq_dry_run request) (chunk_in_live_layout origin) infos \<and>
    chunk_inventory (disk_of t1) = filter (\<lambda>info. gq_dry_run request \<or> chunk_in_live_layout origin (sci_chunk_id info)) infos"
proof -
  note slice = listed_slice [OF at list ids]
  have "filter (beyond after) infos = []" using slice(2) empty by (simp add: up_to_def)
  then have none: "\<not> beyond after info" if "info \<in> set infos" for info using that by (auto simp: filter_empty_conv)
  have "filter (\<lambda>info. \<not> beyond after info) infos = infos" using none by (intro filter_True) auto
  moreover have "filter (\<lambda>info. gq_dry_run request \<or> chunk_in_live_layout origin (sci_chunk_id info) \<or> beyond after info) infos =
      filter (\<lambda>info. gq_dry_run request \<or> chunk_in_live_layout origin (sci_chunk_id info)) infos"
    using none by (intro filter_cong) auto
  ultimately show ?thesis using slice(1) by (simp add: collected_to_def)
qed

lemma collect_pages_exact:
  assumes pages: "collect_pages metadata_client storage_client request None no_physical_stats s = Some (s', Inr stats')"
    and "within_run origin (gq_run_id request) s" and "disk_ok (disk_of s)"
  shows "stats' = tally (gq_dry_run request) (chunk_in_live_layout origin) (chunk_inventory (disk_of s)) \<and>
    chunk_inventory (disk_of s') =
      (if gq_dry_run request then chunk_inventory (disk_of s)
       else keep_live (chunk_in_live_layout origin) (chunk_inventory (disk_of s)))"
proof -
  let ?dry = "gq_dry_run request" and ?live = "chunk_in_live_layout origin" and ?infos = "chunk_inventory (disk_of s)"
  let ?I = "collected_to origin request ?infos"
  define Q where "Q t r \<longleftrightarrow> (\<forall>stats. r = Inr stats \<longrightarrow> stats = tally ?dry ?live ?infos \<and>
      chunk_inventory (disk_of t) = filter (\<lambda>info. ?dry \<or> ?live (sci_chunk_id info)) ?infos)" for t and r :: "gc_physical_stats res"
  have ids: "sorted (map sci_chunk_id ?infos)" "distinct (map sci_chunk_id ?infos)"
    using inventory_distinct [OF assms(3)] by simp_all
  have beyond_Some: "\<not> up_to (Some c) info \<longleftrightarrow> beyond (Some c) info" for c info
    by (simp add: up_to_def beyond_def not_le)
  have "?I None no_physical_stats s"
    using assms(2,3) by (simp add: collected_to_def beyond_def tally_Nil)
  then have "Q s' (Inr stats')"
  proof (rule collect_pages_rule [OF pages, where I = ?I and Q = Q])
    show "Q t1 (if pg_next_after page \<noteq> None then Inl Remote_protocol_error else Inr stats)"
      if "?I after stats t" "list_chunks_on storage_client after kInventoryPageSize t = (t1, Inr page)" "pg_chunks page = []"
      for after stats t t1 page
      using empty_page_collected [OF that _ ids] by (simp add: Q_def)
    show "Q t2 (Inr stats')"
      if "?I after stats t" "list_chunks_on storage_client after kInventoryPageSize t = (t1, Inr page)"
        "collect_page metadata_client storage_client request page stats t1 = (t2, Inr stats')" "pg_next_after page = None"
      for after stats t t1 page t2 stats'
      using page_collected [OF that(1-3) ids] that(4) by (simp add: Q_def up_to_def)
    show "?I (Some c) stats' t2"
      if "?I after stats t" "list_chunks_on storage_client after kInventoryPageSize t = (t1, Inr page)"
        "collect_page metadata_client storage_client request page stats t1 = (t2, Inr stats')" "pg_next_after page = Some c"
      for after stats t t1 page t2 stats' c
      using page_collected [OF that(1-3) ids] that(4) by (simp add: collected_to_def beyond_Some flip: beyond_Some)
  qed (simp_all add: Q_def)
  then show ?thesis by (simp add: Q_def keep_live_def)
qed

text \<open>The whole collection, from a run that was opened by it.\<close>

lemma collect_exact:
  assumes collect: "gc_collect metadata_client storage_client node request s = Some (s', Inr run)"
    and reachable: "idle db0" "repo_steps H is_ip db0 (db_of s)" and "disk_ok (disk_of s)"
    and start: "start_gc_run_on metadata_client (gq_run_id request) node (gq_dry_run request) s = (s1, Inr started)"
    and "gr_state started = GcOpen"
  shows "chunk_inventory (disk_of s') =
      (if gq_dry_run request then chunk_inventory (disk_of s)
       else keep_live (chunk_in_live_layout (db_of s1)) (chunk_inventory (disk_of s))) \<and>
    (\<exists>before. complete_gc_run before (gq_run_id request)
        (tally (gq_dry_run request) (chunk_in_live_layout (db_of s1)) (chunk_inventory (disk_of s))) = Inr (db_of s', run))"
proof -
  note served = start_served [OF start]
  then have s1: "disk_of s1 = disk_of s" "repo_ok (db_of s1)"
    using reachable_ok [OF reachable(1)] reachable(2) by (blast intro: rtranclp_trans)+
  have open_run: "is_uuid (gq_run_id request)" "gc_run_open (db_of s1) (gq_run_id request)"
    using served started_run_open assms(6) by blast+
  then have within: "within_run (db_of s1) (gq_run_id request) s1" using s1 by (simp add: within_run_def)
  obtain s2 stats where pages: "collect_pages metadata_client storage_client request None no_physical_stats s1 = Some (s2, Inr stats)"
    and complete: "complete_gc_run_on metadata_client (gq_run_id request) stats s2 = (s', Inr run)"
    using collect [unfolded gc_collect_def start prod.case sum.case] assms(6)
    by (auto split: if_splits option.splits prod.splits sum.splits)
  have "disk_ok (disk_of s1)" using assms(4) s1 by simp
  with collect_pages_exact [OF pages within] complete_served [OF open_run(1) complete] s1 show ?thesis by auto
qed

end

end
