(* ===== verification/Gc_Collection.thy ===== *)
theory Gc_Collection
  imports Gc_Engine
begin

section \<open>Collections, end to end\<close>

text \<open>
  The collection engine over the model of everything below it: the metadata client, the network with its
  losses and the requests of others, the routes of the metadata service and the repository on one side; the
  storage client, the node's service and its chunk store on the other.
\<close>

record gc_world = metadata_world +
  gw_disk :: disk

definition gc_node ::
  "hash \<Rightarrow> (string \<Rightarrow> json option) \<Rightarrow> (json \<Rightarrow> string) \<Rightarrow> node_io \<Rightarrow> string \<Rightarrow> nat \<Rightarrow> http_client_config \<Rightarrow> gc_world node_client" where
  "gc_node H parse serialize io node_id max_body config =
     client_at gw_disk (\<lambda>disk w. w\<lparr>gw_disk := disk\<rparr>) (direct_client H parse serialize io node_id max_body config)"

text \<open>The requests of others are requests the repository handles.\<close>

definition lawful :: "hash \<Rightarrow> (string \<Rightarrow> bool) \<Rightarrow> network \<Rightarrow> bool" where
  "lawful H is_ip net \<longleftrightarrow> (\<forall>k db. repo_steps H is_ip db (nw_others net k db))"

lemma lawful_step: "lawful H is_ip net \<Longrightarrow> others_step net db db' \<Longrightarrow> repo_steps H is_ip db db'"
  by (auto simp: lawful_def others_step_def)

lemma more_disk: "metadata_world.more w' = metadata_world.more w \<Longrightarrow> gw_disk w' = gw_disk w"
  by (cases w; cases w') simp

lemma served_steps:
  assumes "served net f w w' result" and "lawful H is_ip net"
    and "\<And>db db' x. f db = Inr (db', x) \<Longrightarrow> repo_steps H is_ip db db'"
  shows "gw_disk w' = gw_disk w \<and> repo_steps H is_ip (mw_db w) (mw_db w') \<and>
    (\<forall>x. result = Inr x \<longrightarrow> (\<exists>db. f db = Inr (mw_db w', x)))"
proof -
  from assms(1) obtain db where db: "others_step net (mw_db w) db" "mw_db w' = db \<or> (\<exists>x. f db = Inr (mw_db w', x))"
    and rest: "gw_disk w' = gw_disk w" "\<forall>x. result = Inr x \<longrightarrow> f db = Inr (mw_db w', x)"
    by (auto simp: served_def dest: more_disk)
  have "repo_steps H is_ip (mw_db w) (mw_db w')"
    using lawful_step [OF assms(2) db(1)] db(2) assms(3) by (auto intro: rtranclp_trans)
  with rest show ?thesis by blast
qed

lemma collection_served:
  assumes codec: "json_codec parse serialize" and lawful: "lawful H is_ip net"
  shows "collection_world H (gc_node H parse serialize io node_id max_body config) gw_disk mw_db
    (gc_client net parse serialize max_body' config') is_ip"
proof (intro collection_world.intro collection_world_axioms.intro)
  show "served_store H (gc_node H parse serialize io node_id max_body config) gw_disk mw_db"
    unfolding gc_node_def by (rule served_store_at [OF direct_client_serves [OF codec], of gw_disk]) simp_all
next
  fix rid node dry and s s' :: gc_world and started
  assume "start_gc_run_on (gc_client net parse serialize max_body' config') rid node dry s = (s', started)"
  from served_steps [OF start_gc_run_served [OF codec this] lawful]
  show "gw_disk s' = gw_disk s \<and> repo_steps H is_ip (mw_db s) (mw_db s') \<and> (\<forall>run. started = Inr run \<longrightarrow>
      is_uuid rid \<and> (\<exists>before. start_gc_run before (gc_start_request rid node dry) = Inr (mw_db s', run)))"
    by (auto simp: rbind_eq_Inr uuid_v7_ok intro: start_gc)
next
  fix rid ids and s s' :: gc_world and classified
  assume rid: "is_uuid rid"
    and "classify_gc_chunks_on (gc_client net parse serialize max_body' config') rid ids s = (s', classified)"
  from served_steps [OF classify_gc_chunks_served [OF codec this] lawful]
  show "gw_disk s' = gw_disk s \<and> repo_steps H is_ip (mw_db s) (mw_db s') \<and>
      (\<forall>decisions. classified = Inr decisions \<longrightarrow> classify_gc_chunks (mw_db s') rid ids = Inr decisions)"
    by (auto simp: rbind_eq_Inr)
next
  fix rid stats and s s' :: gc_world and completed
  assume rid: "is_uuid rid"
    and "complete_gc_run_on (gc_client net parse serialize max_body' config') rid stats s = (s', completed)"
  from served_steps [OF complete_gc_run_served [OF codec this] lawful]
  show "gw_disk s' = gw_disk s \<and> repo_steps H is_ip (mw_db s) (mw_db s') \<and>
      (\<forall>run. completed = Inr run \<longrightarrow> (\<exists>before. complete_gc_run before rid stats = Inr (mw_db s', run)))"
    by (auto intro: complete_gc)
qed

text \<open>The contract on the sample text form of JSON and a network without other clients that loses what it likes.\<close>

definition quiet_network :: "(nat \<Rightarrow> fate) \<Rightarrow> network" where
  "quiet_network fates = \<lparr>nw_others = \<lambda>_ db. db, nw_fate = fates\<rparr>"

lemma quiet_lawful: "lawful H is_ip (quiet_network fates)"
  by (simp add: lawful_def quiet_network_def)

interpretation sample_collection: collection_world H
    "gc_node H sample_parse sample_serialize io node_id max_body config" gw_disk mw_db
    "gc_client (quiet_network fates) sample_parse sample_serialize max_body' config'" is_ip
  by (rule collection_served [OF sample_codec quiet_lawful])

subsection \<open>Termination\<close>

text \<open>
  C8: A collection ends, whatever the metadata service and the storage node answer, in whatever order and
  however often they change their minds: the client lets only chunk identifiers through as cursors, the
  engine only increasing ones, and there are finitely many.
\<close>

theorem gc_collect_returns:
  "\<exists>s' ended. gc_collect metadata_client storage_client node_id request s = Some (s', ended)"
  by (rule collection_returns)

subsection \<open>Safety\<close>

text \<open>
  C6: Garbage collection never touches live data. Whatever requests other clients make during the run,
  whichever requests and answers the network loses, and however the collection ends, with a run or with an exception
  at any point: every chunk that is in a live layout when the run starts reads afterwards as it did before;
  and a dry run leaves the disk as it was.
\<close>

theorem gc_never_deletes_live_chunks:
  assumes "json_codec parse serialize" and "lawful H is_ip net"
    and "idle db0" and "repo_steps H is_ip db0 (mw_db w)"
    and "gc_collect (gc_client net parse serialize max_body config') (gc_node H parse serialize io node_id max_body' config)
      node_id request w = Some (w', ended)"
    and "start_gc_run_on (gc_client net parse serialize max_body config') (gq_run_id request) node_id (gq_dry_run request) w =
      (w1, started)"
    and "chunk_in_live_layout (mw_db w1) c"
  shows "store_get H rio (gw_disk w') c = store_get H rio (gw_disk w) c \<and>
    (gq_dry_run request \<longrightarrow> gw_disk w' = gw_disk w)"
proof -
  note world = collection_served [OF assms(1,2)]
  note kept = collection_world.collect_keeps_live [OF world assms(5,3,4,6)]
  then have "chunk_file_of (gw_disk w') c = chunk_file_of (gw_disk w) c"
    using assms(7) by (simp add: collection_world.live_kept_def [OF world])
  then have "regular_content (gw_disk w') (take 2 c, c) = regular_content (gw_disk w) (take 2 c, c)"
    by (simp add: regular_content_def)
  then show ?thesis using kept by (auto simp: store_get_def chunk_path_def validate_chunk_id_def rbind_def split: sum.splits)
qed


subsection \<open>Witnesses\<close>

text \<open>A node with a live and a dead chunk; another client registers a node between the calls of the engine.\<close>

definition sample_gc_disk :: disk where
  "sample_gc_disk = Some
     [(''cc'', Fanout [(sample_id (CHR ''c''), Regular (replicate 204 0))]),
      (''dd'', Fanout [(sample_id (CHR ''d''), Regular [1, 2, 3])])]"

definition sample_gc_world :: gc_world where
  "sample_gc_world = \<lparr>mw_db = sample_idle_db, mw_calls = 0, gw_disk = sample_gc_disk\<rparr>"

definition sample_network :: network where
  "sample_network =
     \<lparr>nw_others = \<lambda>k db. if k = 1 then (case register_storage_node (\<lambda>_. True) db sample_registered_node of
         Inr db' \<Rightarrow> db' | Inl e \<Rightarrow> db) else db,
      nw_fate = \<lambda>_. Delivered\<rparr>"

definition sample_config :: http_client_config where
  "sample_config = \<lparr>max_request_body_bytes = 1000, max_response_body_bytes = 1000\<rparr>"

definition sample_node_io :: node_io where
  "sample_node_io = \<lparr>nio_put = sample_put_io, nio_get = \<lparr>opens = True, reads = True\<rparr>, nio_removes = True\<rparr>"

definition sample_gc_client :: "gc_world metadata_client" where
  "sample_gc_client = gc_client sample_network sample_parse sample_serialize 1000 sample_config"

definition sample_gc_node :: "gc_world node_client" where
  "sample_gc_node = gc_node sample_hash sample_parse sample_serialize sample_node_io ''node-a'' 1000 sample_config"

definition sample_collection_request :: gc_request where
  "sample_collection_request = \<lparr>gq_run_id = sample_uuid, gq_dry_run = False\<rparr>"

lemma sample_network_lawful: "lawful H (\<lambda>_. True) sample_network"
  unfolding lawful_def
proof (intro allI)
  fix k db
  have "repo_steps H (\<lambda>_. True) db db'" if "register_storage_node (\<lambda>_. True) db sample_registered_node = Inr db'" for db'
    using register_node [OF that] by blast
  then show "repo_steps H (\<lambda>_. True) db (nw_others sample_network k db)"
    by (simp add: sample_network_def split: sum.split)
qed

lemma sample_gc_start:
  obtains w1 started where "start_gc_run_on sample_gc_client sample_uuid ''node-a'' False sample_gc_world = (w1, Inr started)"
    and "gr_state started = GcOpen" and "chunk_in_live_layout (mw_db w1) (sample_id (CHR ''c''))"
    and "\<not> chunk_in_live_layout (mw_db w1) (sample_id (CHR ''d''))"
proof -
  have "case start_gc_run_on sample_gc_client sample_uuid ''node-a'' False sample_gc_world of
     (w, r) \<Rightarrow> (case r of Inr run \<Rightarrow> gr_state run = GcOpen | _ \<Rightarrow> False) \<and>
       chunk_in_live_layout (mw_db w) (sample_id (CHR ''c'')) \<and> \<not> chunk_in_live_layout (mw_db w) (sample_id (CHR ''d''))"
    by code_simp
  then show thesis by (auto intro: that split: prod.splits sum.splits)
qed

theorem gc_never_deletes_live_chunks_witness:
  "\<exists>w' ended. gc_collect sample_gc_client sample_gc_node ''node-a'' sample_collection_request sample_gc_world = Some (w', ended) \<and>
     store_get sample_hash \<lparr>opens = True, reads = True\<rparr> (gw_disk w') (sample_id (CHR ''c'')) = Inr (replicate 204 0)"
proof -
  obtain w1 started where start: "start_gc_run_on sample_gc_client sample_uuid ''node-a'' False sample_gc_world = (w1, Inr started)"
    and live: "chunk_in_live_layout (mw_db w1) (sample_id (CHR ''c''))"
    by (rule sample_gc_start)
  obtain w' ended where collect:
    "gc_collect sample_gc_client sample_gc_node ''node-a'' sample_collection_request sample_gc_world = Some (w', ended)"
    using collection_returns [of sample_gc_client sample_gc_node "''node-a''" sample_collection_request sample_gc_world] by blast
  have "regular_content sample_gc_disk (take 2 (sample_id (CHR ''c'')), sample_id (CHR ''c'')) = Some (replicate 204 0)"
    and "digest_to_hex (sample_hash (replicate 204 0)) = sample_id (CHR ''c'')" and "is_content_id (sample_id (CHR ''c''))"
    by code_simp+
  then have content: "store_get sample_hash \<lparr>opens = True, reads = True\<rparr> (gw_disk sample_gc_world) (sample_id (CHR ''c'')) =
      Inr (replicate 204 0)"
    by (simp add: store_get_ok hash_bytes_ok sample_gc_world_def)
  have "store_get sample_hash \<lparr>opens = True, reads = True\<rparr> (gw_disk w') (sample_id (CHR ''c'')) =
      store_get sample_hash \<lparr>opens = True, reads = True\<rparr> (gw_disk sample_gc_world) (sample_id (CHR ''c''))"
    by (rule gc_never_deletes_live_chunks [where w = sample_gc_world, THEN conjunct1, OF sample_codec sample_network_lawful sample_idle,
          OF _ collect [unfolded sample_gc_client_def sample_gc_node_def] _ live])
      (use start in \<open>simp_all add: sample_gc_world_def sample_collection_request_def flip: sample_gc_client_def\<close>)
  with collect content show ?thesis by auto
qed


end
