(* ===== verification/Metadata_Replication.thy ===== *)
theory Metadata_Replication
  imports Metadata_Gc
begin

section \<open>Storage nodes and replication runs over the wire\<close>

text \<open>
  The routes for storage nodes and replication runs (\<open>src/service/metadata_service_m8_routes.cpp\<close>) and the
  operations of \<open>MetadataClient\<close> that use them. In contrast to the garbage-collection routes, a run identifier
  in a path is only checked by the constructor of \<open>UuidV7\<close>, outside every \<open>try\<close>: a malformed one is an
  exception of the handler, which the server answers with status 500.
\<close>

subsection \<open>Storage nodes: the service\<close>

definition kStorageNodesCollection :: string where
  "kStorageNodesCollection = ''/v1/storage-nodes''"

definition kStorageNodesPrefix :: string where
  "kStorageNodesPrefix = ''/v1/storage-nodes/''"

definition storage_node_to_json :: "storage_node \<Rightarrow> json" where
  "storage_node_to_json node =
     Json_object [(''node_id'', Json_string (sn_node_id node)), (''address'', Json_string (sn_address node)),
       (''port'', Json_uint64 (ucast (sn_port node))),
       (''state'', Json_string (storage_node_state_to_string (sn_state node)))]"

definition handle_list_storage_nodes :: "(json \<Rightarrow> string) \<Rightarrow> database \<Rightarrow> database \<times> http_response res" where
  "handle_list_storage_nodes serialize db =
     query_db db (list_storage_nodes db)
       (\<lambda>nodes. make_json_response serialize 200
          (Json_object [(''nodes'', Json_array (map storage_node_to_json nodes))]))
       (\<lambda>_. None)"

definition handle_get_storage_node :: "(json \<Rightarrow> string) \<Rightarrow> string \<Rightarrow> database \<Rightarrow> database \<times> http_response res" where
  "handle_get_storage_node serialize node_id db =
     query_db db (get_storage_node db node_id)
       (\<lambda>node. case node of
          None \<Rightarrow> error_response serialize 404 ''storage_node_not_found''
        | Some n \<Rightarrow> make_json_response serialize 200 (storage_node_to_json n))
       (\<lambda>_. None)"

text \<open>An unknown state is a \<open>std::runtime_error\<close>, which the handler does not catch.\<close>

definition handle_put_storage_node ::
  "(string \<Rightarrow> bool) \<Rightarrow> (string \<Rightarrow> json option) \<Rightarrow> (json \<Rightarrow> string) \<Rightarrow> string \<Rightarrow> http_request \<Rightarrow> database \<Rightarrow>
   database \<times> http_response res" where
  "handle_put_storage_node is_ip parse serialize node_id request db =
     with_object_body parse serialize request db (\<lambda>body.
     case (string_field body ''address'', string_field body ''state'', positive_field body ''port'') of
       (Some address, Some state, Some port) \<Rightarrow>
         if \<not> json_object_has_exact_keys body [''address'', ''port'', ''state''] \<or> 65535 < port
         then (db, Inr (error_response serialize 400 ''invalid_request''))
         else transact db
                (rbind (storage_node_state_from_string state) (\<lambda>state.
                 let node = \<lparr>sn_node_id = node_id, sn_address = address, sn_port = ucast port, sn_state = state\<rparr>
                 in rbind (register_storage_node is_ip db node) (\<lambda>db. Inr (db, node))))
                (\<lambda>node. make_json_response serialize 200 (storage_node_to_json node))
                (catch_invalid serialize)
     | _ \<Rightarrow> (db, Inr (error_response serialize 400 ''invalid_request'')))"

text \<open>The branches of \<open>try_handle_m8_routes\<close> for paths under \<open>/v1/storage-nodes\<close>.\<close>

definition handle_storage_nodes ::
  "(string \<Rightarrow> bool) \<Rightarrow> (string \<Rightarrow> json option) \<Rightarrow> (json \<Rightarrow> string) \<Rightarrow> http_request \<Rightarrow> database \<Rightarrow>
   database \<times> http_response res" where
  "handle_storage_nodes is_ip parse serialize request db =
     (let path = fst (split_path_and_query (rq_target request))
      in if path = kStorageNodesCollection then
           if rq_method request = Get then handle_list_storage_nodes serialize db
           else (db, Inr (method_not_allowed serialize ''GET''))
         else
           let node_id = drop (length kStorageNodesPrefix) path
           in if \<not> is_valid_node_id node_id then (db, Inr (error_response serialize 400 ''invalid_node_id''))
              else if path \<noteq> rq_target request \<and> rq_target request ! length path \<noteq> CHR ''?''
              then (db, Inr (error_response serialize 400 ''invalid_request''))
              else if rq_method request = Get then handle_get_storage_node serialize node_id db
              else if rq_method request = Put then handle_put_storage_node is_ip parse serialize node_id request db
              else (db, Inr (method_not_allowed serialize ''GET, PUT'')))"


subsection \<open>Replication runs: the service\<close>

definition kReplicationRunsCollection :: string where
  "kReplicationRunsCollection = ''/v1/replication-runs''"

definition kReplicationRunsPrefix :: string where
  "kReplicationRunsPrefix = ''/v1/replication-runs/''"

definition kPlanSuffix :: string where
  "kPlanSuffix = ''/plan''"

definition replication_stats_fields :: "replication_stats \<Rightarrow> (string \<times> json) list" where
  "replication_stats_fields stats =
     [(''chunks_scanned'', Json_uint64 (rst_chunks_scanned stats)),
      (''chunks_under_replicated'', Json_uint64 (rst_chunks_under_replicated stats)),
      (''replicas_verified'', Json_uint64 (rst_replicas_verified stats)),
      (''replicas_written'', Json_uint64 (rst_replicas_written stats)),
      (''bytes_copied'', Json_uint64 (rst_bytes_copied stats)),
      (''source_failovers'', Json_uint64 (rst_source_failovers stats))]"

definition replication_run_to_json :: "replication_run \<Rightarrow> json" where
  "replication_run_to_json run =
     Json_object
       ([(''replication_run_id'', Json_string (rpr_run_id run)),
         (''version_id'', Json_string (rpr_version_id run)),
         (''layout_id'', Json_string (rpr_layout_id run)),
         (''replication_factor'', Json_uint64 (ucast (rpr_replication_factor run))),
         (''placement_node_ids'', Json_array (map Json_string (rpr_placement_node_ids run))),
         (''state'', Json_string (replication_run_state_to_string (rpr_state run)))]
        @ replication_stats_fields (rpr_stats run))"

definition parse_replication_stats :: "(string \<times> json) list \<Rightarrow> replication_stats option" where
  "parse_replication_stats body =
     (case (bigint_field body ''chunks_scanned'', bigint_field body ''chunks_under_replicated'',
            bigint_field body ''replicas_verified'', bigint_field body ''replicas_written'',
            bigint_field body ''bytes_copied'', bigint_field body ''source_failovers'') of
        (Some scanned, Some under_replicated, Some verified, Some written, Some copied, Some failovers) \<Rightarrow>
          Some \<lparr>rst_chunks_scanned = scanned, rst_chunks_under_replicated = under_replicated,
                rst_replicas_verified = verified, rst_replicas_written = written, rst_bytes_copied = copied,
                rst_source_failovers = failovers\<rparr>
      | _ \<Rightarrow> None)"

definition replication_stats_keys :: "string list" where
  "replication_stats_keys =
     [''chunks_scanned'', ''chunks_under_replicated'', ''replicas_verified'', ''replicas_written'', ''bytes_copied'',
      ''source_failovers'']"

fun start_replication_error_answer :: "replication_error_kind \<Rightarrow> nat \<times> string" where
  "start_replication_error_answer ReplRunConflict = (409, ''replication_run_conflict'')"
| "start_replication_error_answer ReplAnotherRunOpen = (409, ''replication_already_in_progress'')"
| "start_replication_error_answer ReplGcInProgress = (409, ''gc_in_progress'')"
| "start_replication_error_answer ReplVersionNotFound = (404, ''artifact_version_not_found'')"
| "start_replication_error_answer ReplVersionNotCommitted = (409, ''artifact_version_not_committed'')"
| "start_replication_error_answer ReplVersionRetired = (410, ''artifact_version_retired'')"
| "start_replication_error_answer ReplSourceUnavailable = (409, ''restore_source_unavailable'')"
| "start_replication_error_answer UnderReplicated = (409, ''chunk_under_replicated'')"
| "start_replication_error_answer TargetDisabled = (409, ''replication_target_disabled'')"
| "start_replication_error_answer _ = (409, ''replication_error'')"

fun plan_error_answer :: "replication_error_kind \<Rightarrow> nat \<times> string" where
  "plan_error_answer ReplRunNotFound = (404, ''replication_run_not_found'')"
| "plan_error_answer TargetDisabled = (409, ''replication_target_disabled'')"
| "plan_error_answer _ = (409, ''replication_error'')"

fun complete_replication_error_answer :: "replication_error_kind \<Rightarrow> nat \<times> string" where
  "complete_replication_error_answer ReplRunNotFound = (404, ''replication_run_not_found'')"
| "complete_replication_error_answer ReplRunNotOpen = (409, ''replication_run_not_open'')"
| "complete_replication_error_answer ReplGcInProgress = (409, ''gc_in_progress'')"
| "complete_replication_error_answer UnderReplicated = (409, ''chunk_under_replicated'')"
| "complete_replication_error_answer _ = (409, ''replication_error'')"

definition catch_replication_error ::
  "(json \<Rightarrow> string) \<Rightarrow> (replication_error_kind \<Rightarrow> nat \<times> string) \<Rightarrow> exn \<Rightarrow> http_response option" where
  "catch_replication_error serialize table e =
     (case e of Replication_error kind \<Rightarrow> Some (error_response serialize (fst (table kind)) (snd (table kind))) | _ \<Rightarrow> None)"

definition handle_start_replication_run ::
  "hash \<Rightarrow> (string \<Rightarrow> json option) \<Rightarrow> (json \<Rightarrow> string) \<Rightarrow> http_request \<Rightarrow> database \<Rightarrow> database \<times> http_response res" where
  "handle_start_replication_run H parse serialize request db =
     with_object_body parse serialize request db (\<lambda>body.
     case (string_field body ''replication_run_id'', string_field body ''version_id'',
           positive_field body ''replication_factor'') of
       (Some replication_run_id, Some version_id, Some replication_factor) \<Rightarrow>
         if \<not> json_object_has_exact_keys body [''replication_run_id'', ''version_id'', ''replication_factor''] \<or>
            8 < replication_factor
         then (db, Inr (error_response serialize 400 ''invalid_request''))
         else transact db
                (rbind (uuid_v7 replication_run_id) (\<lambda>run_id.
                 start_replication_run H db run_id version_id (ucast replication_factor)))
                (\<lambda>run. make_json_response serialize 200 (replication_run_to_json run))
                (\<lambda>e. if e = Invalid_argument then Some (error_response serialize 400 ''invalid_request'')
                     else catch_replication_error serialize start_replication_error_answer e)
     | _ \<Rightarrow> (db, Inr (error_response serialize 400 ''invalid_request'')))"

definition handle_get_replication_run :: "(json \<Rightarrow> string) \<Rightarrow> string \<Rightarrow> database \<Rightarrow> database \<times> http_response res" where
  "handle_get_replication_run serialize run_id db =
     query_db db (rbind (uuid_v7 run_id) (get_replication_run db))
       (\<lambda>run. case run of
          None \<Rightarrow> error_response serialize 404 ''replication_run_not_found''
        | Some r \<Rightarrow> make_json_response serialize 200 (replication_run_to_json r))
       (\<lambda>_. None)"

definition replication_endpoint_to_json :: "replication_node_endpoint \<Rightarrow> json" where
  "replication_endpoint_to_json endpoint =
     Json_object [(''node_id'', Json_string (rne_node_id endpoint)), (''address'', Json_string (rne_address endpoint)),
       (''port'', Json_uint64 (ucast (rne_port endpoint)))]"

definition chunk_plan_to_json :: "replication_chunk_plan \<Rightarrow> json" where
  "chunk_plan_to_json chunk =
     Json_object [(''chunk_id'', Json_string (rcp_chunk_id chunk)), (''offset'', Json_uint64 (rcp_offset chunk)),
       (''size_bytes'', Json_uint64 (rcp_size_bytes chunk)),
       (''desired_node_ids'', Json_array (map Json_string (rcp_desired_node_ids chunk))),
       (''source_nodes'', Json_array (map replication_endpoint_to_json (rcp_source_nodes chunk))),
       (''target_nodes'', Json_array (map replication_endpoint_to_json (rcp_target_nodes chunk)))]"

definition replication_plan_to_json :: "replication_plan \<Rightarrow> json" where
  "replication_plan_to_json plan =
     Json_object [(''replication_run_id'', Json_string (rpp_run_id plan)), (''version_id'', Json_string (rpp_version_id plan)),
       (''layout_id'', Json_string (rpp_layout_id plan)),
       (''replication_factor'', Json_uint64 (ucast (rpp_replication_factor plan))),
       (''placement_node_ids'', Json_array (map Json_string (rpp_placement_node_ids plan))),
       (''chunks'', Json_array (map chunk_plan_to_json (rpp_chunks plan)))]"

definition handle_get_replication_plan ::
  "hash \<Rightarrow> (json \<Rightarrow> string) \<Rightarrow> string \<Rightarrow> database \<Rightarrow> database \<times> http_response res" where
  "handle_get_replication_plan H serialize run_id db =
     (case uuid_v7 run_id of
        Inl e \<Rightarrow> (db, Inl e)
      | Inr run_id \<Rightarrow>
          query_db db (get_replication_plan H db run_id)
            (\<lambda>plan. make_json_response serialize 200 (replication_plan_to_json plan))
            (catch_replication_error serialize plan_error_answer))"

definition handle_complete_replication_run ::
  "hash \<Rightarrow> (string \<Rightarrow> json option) \<Rightarrow> (json \<Rightarrow> string) \<Rightarrow> string \<Rightarrow> http_request \<Rightarrow> database \<Rightarrow>
   database \<times> http_response res" where
  "handle_complete_replication_run H parse serialize run_id request db =
     with_object_body parse serialize request db (\<lambda>body.
     case (if json_object_has_exact_keys body replication_stats_keys then parse_replication_stats body else None) of
       None \<Rightarrow> (db, Inr (error_response serialize 400 ''invalid_request''))
     | Some stats \<Rightarrow>
         (case uuid_v7 run_id of
            Inl e \<Rightarrow> (db, Inl e)
          | Inr run_id \<Rightarrow>
              transact db (complete_replication_run H db run_id stats)
                (\<lambda>completed. make_json_response serialize 200 (replication_run_to_json completed))
                (catch_replication_error serialize complete_replication_error_answer)))"

text \<open>The branches of \<open>try_handle_m8_routes\<close> for paths under \<open>/v1/replication-runs\<close>; for other subroutes the
  function goes on, and no other branch of the service takes such a path.\<close>

definition handle_replication_runs ::
  "hash \<Rightarrow> (string \<Rightarrow> json option) \<Rightarrow> (json \<Rightarrow> string) \<Rightarrow> http_request \<Rightarrow> database \<Rightarrow>
   (database \<times> http_response res) option" where
  "handle_replication_runs H parse serialize request db =
     (let path = fst (split_path_and_query (rq_target request))
      in if path = kReplicationRunsCollection then
           Some (if rq_method request = Post then handle_start_replication_run H parse serialize request db
                 else (db, Inr (method_not_allowed serialize ''POST'')))
         else
           let remainder = drop (length kReplicationRunsPrefix) path;
               run_id = takeWhile (\<lambda>c. c \<noteq> CHR ''/'') remainder;
               subroute = drop (length run_id) remainder
           in if subroute = [] then
                Some (if rq_method request = Get then handle_get_replication_run serialize run_id db
                      else (db, Inr (method_not_allowed serialize ''GET'')))
              else if subroute = kPlanSuffix then
                Some (if rq_method request = Get then handle_get_replication_plan H serialize run_id db
                      else (db, Inr (method_not_allowed serialize ''GET'')))
              else if subroute = kCompleteSuffix then
                Some (if rq_method request = Post
                      then handle_complete_replication_run H parse serialize run_id request db
                      else (db, Inr (method_not_allowed serialize ''POST'')))
              else None)"


subsection \<open>Storage nodes: the client\<close>

definition parse_storage_node_json :: "(string \<times> json) list \<Rightarrow> storage_node res" where
  "parse_storage_node_json object =
     (if \<not> json_object_has_exact_keys object [''node_id'', ''address'', ''port'', ''state''] then Inl Remote_protocol_error
      else case (string_field object ''node_id'', string_field object ''address'', string_field object ''state'',
                 positive_field object ''port'') of
             (Some node_id, Some address, Some state, Some port) \<Rightarrow>
               if 65535 < port then Inl Remote_protocol_error
               else (case storage_node_state_from_string state of
                       Inl e \<Rightarrow> Inl Remote_protocol_error
                     | Inr state \<Rightarrow>
                         Inr \<lparr>sn_node_id = node_id, sn_address = address, sn_port = ucast port, sn_state = state\<rparr>)
           | _ \<Rightarrow> Inl Remote_protocol_error)"

definition storage_node_target :: "string \<Rightarrow> string" where
  "storage_node_target node_id = ''/v1/storage-nodes/'' @ node_id"

definition register_storage_node_on :: "(string \<Rightarrow> bool) \<Rightarrow> 's metadata_client \<Rightarrow> storage_node \<Rightarrow> ('s, unit) step" where
  "register_storage_node_on is_ip client node =
     step_bind (step_of (validate_storage_node is_ip node)) (\<lambda>_.
     step_bind (metadata_request client Put (storage_node_target (sn_node_id node))
         (mc_serialize client (Json_object [(''address'', Json_string (sn_address node)),
            (''port'', Json_uint64 (ucast (sn_port node))),
            (''state'', Json_string (storage_node_state_to_string (sn_state node)))]))
         (Some ''application/json'')) (\<lambda>response.
     step_of (expect_status 200 response
       (rbind (parse_json_object (mc_parse client) (rs_body response)) (\<lambda>object.
        rbind (parse_storage_node_json object) (\<lambda>response_node.
        if response_node \<noteq> node then Inl Remote_protocol_error else Inr ()))))))"

definition get_storage_node_from :: "'s metadata_client \<Rightarrow> string \<Rightarrow> ('s, storage_node option) step" where
  "get_storage_node_from client node_id =
     (if \<not> is_valid_node_id node_id then step_of (Inl Invalid_argument)
      else step_bind (metadata_request client Get (storage_node_target node_id) [] None) (\<lambda>response.
           step_of (if rs_status response = 200
                    then rbind (parse_json_object (mc_parse client) (rs_body response)) (\<lambda>object.
                         rbind (parse_storage_node_json object) (\<lambda>node. Inr (Some node)))
                    else if rs_status response = 404 \<and>
                            extract_error_code (mc_parse client) (rs_body response) = ''storage_node_not_found''
                    then Inr None else Inl Remote_api_error)))"

definition parse_listed_node :: "json \<Rightarrow> storage_node res" where
  "parse_listed_node v =
     (case v of Json_object object \<Rightarrow> parse_storage_node_json object | _ \<Rightarrow> Inl Remote_protocol_error)"

definition list_storage_nodes_from :: "'s metadata_client \<Rightarrow> ('s, storage_node list) step" where
  "list_storage_nodes_from client =
     step_bind (metadata_request client Get ''/v1/storage-nodes'' [] None) (\<lambda>response.
     step_of (expect_status 200 response
       (rbind (parse_json_object (mc_parse client) (rs_body response)) (\<lambda>object.
        if \<not> json_object_has_exact_keys object [''nodes''] then Inl Remote_protocol_error
        else case array_field object ''nodes'' of
               None \<Rightarrow> Inl Remote_protocol_error
             | Some nodes \<Rightarrow> map_res parse_listed_node nodes))))"

subsection \<open>Replication runs: the client\<close>

definition replication_run_state_from_string_strict :: "string \<Rightarrow> replication_run_state res" where
  "replication_run_state_from_string_strict state =
     (if state = ''open'' then Inr ReplOpen else if state = ''completed'' then Inr ReplCompleted
      else Inl Remote_protocol_error)"

definition replication_run_keys :: "string list" where
  "replication_run_keys =
     [''replication_run_id'', ''version_id'', ''layout_id'', ''replication_factor'', ''placement_node_ids'', ''state''] @
     replication_stats_keys"

definition parse_node_ids :: "json list \<Rightarrow> string list res" where
  "parse_node_ids vs = map_res (\<lambda>v. case v of Json_string s \<Rightarrow> Inr s | _ \<Rightarrow> Inl Remote_protocol_error) vs"

definition parse_replication_run_object :: "(string \<times> json) list \<Rightarrow> replication_run res" where
  "parse_replication_run_object object =
     (if \<not> json_object_has_exact_keys object replication_run_keys then Inl Remote_protocol_error
      else case (string_field object ''replication_run_id'', string_field object ''version_id'',
                 string_field object ''layout_id'', array_field object ''placement_node_ids'',
                 string_field object ''state'', positive_field object ''replication_factor'') of
             (Some run_id, Some version_id, Some layout_id, Some nodes, Some state, Some replication_factor) \<Rightarrow>
               if 8 < replication_factor then Inl Remote_protocol_error
               else
                 rbind (parse_node_ids nodes) (\<lambda>placement_node_ids.
                 rbind (uuid_v7 run_id) (\<lambda>run_id.
                 rbind (replication_run_state_from_string_strict state) (\<lambda>state.
                 case parse_replication_stats object of
                   None \<Rightarrow> Inl Remote_protocol_error
                 | Some stats \<Rightarrow>
                     Inr \<lparr>rpr_run_id = run_id, rpr_version_id = version_id, rpr_layout_id = layout_id,
                          rpr_replication_factor = ucast replication_factor,
                          rpr_placement_node_ids = placement_node_ids, rpr_state = state, rpr_stats = stats\<rparr>)))
           | _ \<Rightarrow> Inl Remote_protocol_error)"

definition parse_replication_run_json :: "(string \<Rightarrow> json option) \<Rightarrow> string \<Rightarrow> replication_run res" where
  "parse_replication_run_json parse body = rbind (parse_json_object parse body) parse_replication_run_object"

definition parse_replication_node_endpoint :: "(string \<times> json) list \<Rightarrow> replication_node_endpoint res" where
  "parse_replication_node_endpoint object =
     (if \<not> json_object_has_exact_keys object [''node_id'', ''address'', ''port''] then Inl Remote_protocol_error
      else case (string_field object ''node_id'', string_field object ''address'', positive_field object ''port'') of
             (Some node_id, Some address, Some port) \<Rightarrow>
               if 65535 < port then Inl Remote_protocol_error
               else Inr \<lparr>rne_node_id = node_id, rne_address = address, rne_port = ucast port\<rparr>
           | _ \<Rightarrow> Inl Remote_protocol_error)"

text \<open>The entries of the plan. Numbers that cannot be read become 0, and a field of the wrong kind is an
  exception of Boost.JSON.\<close>

definition parse_endpoints :: "(string \<times> json) list \<Rightarrow> string \<Rightarrow> replication_node_endpoint list res" where
  "parse_endpoints object key =
     rbind (rbind (json_at object key) as_array)
       (map_res (\<lambda>v. rbind (as_object v) parse_replication_node_endpoint))"

definition number_or_zero :: "(json \<Rightarrow> u64 option) \<Rightarrow> (string \<times> json) list \<Rightarrow> string \<Rightarrow> u64 res" where
  "number_or_zero extract object key =
     rbind (json_at object key) (\<lambda>v. Inr (case extract v of None \<Rightarrow> 0 | Some n \<Rightarrow> n))"

definition parse_chunk_plan :: "json \<Rightarrow> replication_chunk_plan res" where
  "parse_chunk_plan v =
     rbind (as_object v) (\<lambda>object.
     rbind (rbind (json_at object ''chunk_id'') as_string) (\<lambda>chunk_id.
     rbind (number_or_zero extract_bigint object ''offset'') (\<lambda>chunk_offset.
     rbind (number_or_zero extract_positive_bigint object ''size_bytes'') (\<lambda>size_bytes.
     rbind (parse_endpoints object ''source_nodes'') (\<lambda>source_nodes.
     rbind (rbind (rbind (json_at object ''desired_node_ids'') as_array) (map_res as_string)) (\<lambda>desired_node_ids.
     rbind (parse_endpoints object ''target_nodes'') (\<lambda>target_nodes.
     Inr \<lparr>rcp_chunk_id = chunk_id, rcp_offset = chunk_offset, rcp_size_bytes = size_bytes,
          rcp_desired_node_ids = desired_node_ids, rcp_source_nodes = source_nodes,
          rcp_target_nodes = target_nodes\<rparr>)))))))"

definition parse_replication_plan_object :: "(string \<times> json) list \<Rightarrow> replication_plan res" where
  "parse_replication_plan_object object =
     (if \<exists>key \<in> set [''replication_run_id'', ''version_id'', ''layout_id'', ''replication_factor'',
           ''placement_node_ids'', ''chunks'']. map_of object key = None
      then Inl Remote_protocol_error
      else case positive_field object ''replication_factor'' of
             None \<Rightarrow> Inl Remote_protocol_error
           | Some replication_factor \<Rightarrow>
               if 8 < replication_factor then Inl Remote_protocol_error
               else
                 rbind (rbind (rbind (json_at object ''placement_node_ids'') as_array) (map_res as_string)) (\<lambda>placement_node_ids.
                 rbind (rbind (rbind (json_at object ''chunks'') as_array) (map_res parse_chunk_plan)) (\<lambda>chunks.
                 rbind (rbind (rbind (json_at object ''replication_run_id'') as_string) uuid_v7) (\<lambda>run_id.
                 rbind (rbind (json_at object ''version_id'') as_string) (\<lambda>version_id.
                 rbind (rbind (json_at object ''layout_id'') as_string) (\<lambda>layout_id.
                 Inr \<lparr>rpp_run_id = run_id, rpp_version_id = version_id, rpp_layout_id = layout_id,
                      rpp_replication_factor = ucast replication_factor,
                      rpp_placement_node_ids = placement_node_ids, rpp_chunks = chunks\<rparr>))))))"

definition start_replication_run_on ::
  "'s metadata_client \<Rightarrow> string \<Rightarrow> string \<Rightarrow> u8 \<Rightarrow> ('s, replication_run) step" where
  "start_replication_run_on client run_id version_id replication_factor =
     (if \<not> is_valid_chunk_id version_id then step_of (Inl Invalid_argument)
      else if replication_factor < 1 \<or> 8 < replication_factor then step_of (Inl Invalid_argument)
      else step_bind (post_json client kReplicationRunsCollection
             (Json_object [(''replication_run_id'', Json_string run_id), (''version_id'', Json_string version_id),
                           (''replication_factor'', Json_uint64 (ucast replication_factor))])) (\<lambda>response.
           step_of (expect_status 200 response
             (rbind (parse_replication_run_json (mc_parse client) (rs_body response)) (\<lambda>run.
              if rpr_run_id run \<noteq> run_id then Inl Remote_protocol_error else Inr run)))))"

definition replication_run_target :: "string \<Rightarrow> string \<Rightarrow> string" where
  "replication_run_target run_id suffix = ''/v1/replication-runs/'' @ run_id @ suffix"

definition get_replication_run_from :: "'s metadata_client \<Rightarrow> string \<Rightarrow> ('s, replication_run option) step" where
  "get_replication_run_from client run_id =
     step_bind (metadata_request client Get (replication_run_target run_id []) [] None) (\<lambda>response.
     step_of (if rs_status response = 200
              then rbind (parse_replication_run_json (mc_parse client) (rs_body response)) (\<lambda>run.
                   if rpr_run_id run \<noteq> run_id then Inl Remote_protocol_error else Inr (Some run))
              else if rs_status response = 404 \<and>
                      extract_error_code (mc_parse client) (rs_body response) = ''replication_run_not_found''
              then Inr None else Inl Remote_api_error))"

definition get_replication_plan_from :: "'s metadata_client \<Rightarrow> string \<Rightarrow> ('s, replication_plan) step" where
  "get_replication_plan_from client run_id =
     step_bind (metadata_request client Get (replication_run_target run_id kPlanSuffix) [] None) (\<lambda>response.
     step_of (expect_status 200 response
       (rbind (parse_json_object (mc_parse client) (rs_body response)) parse_replication_plan_object)))"

definition complete_replication_run_on ::
  "'s metadata_client \<Rightarrow> string \<Rightarrow> replication_stats \<Rightarrow> ('s, replication_run) step" where
  "complete_replication_run_on client run_id stats =
     step_bind (post_json client (replication_run_target run_id kCompleteSuffix)
         (Json_object (replication_stats_fields stats))) (\<lambda>response.
     step_of (expect_status 200 response
       (rbind (parse_replication_run_json (mc_parse client) (rs_body response)) (\<lambda>run.
        if rpr_run_id run \<noteq> run_id then Inl Remote_protocol_error
        else if rpr_state run \<noteq> ReplCompleted then Inl Remote_protocol_error
        else Inr run))))"


subsection \<open>What the client reads back\<close>

lemma node_ids_back:
  "map_res (\<lambda>v. case v of Json_string s \<Rightarrow> Inr s | _ \<Rightarrow> Inl Remote_protocol_error) (map (\<lambda>x. Json_string x) ids) = Inr ids' \<Longrightarrow> ids' = ids"
  "map_res as_string (map (\<lambda>x. Json_string x) ids) = Inr ids' \<Longrightarrow> ids' = ids"
  by (drule map_res_map [where h = "\<lambda>x. x" and f = "\<lambda>x. Json_string x" and xs = ids],
      simp_all add: parse_node_ids_def as_string_def comp_def)+

lemma replication_state_back:
  "replication_run_state_from_string_strict (replication_run_state_to_string state) = Inr state"
  by (cases state) (simp_all add: replication_run_state_from_string_strict_def)

lemma replication_stats_back:
  assumes "parse_replication_stats (reparsed_fields kvs) = Some stats'"
    and "map_of kvs ''chunks_scanned'' = Some (Json_uint64 (rst_chunks_scanned stats))"
      "map_of kvs ''chunks_under_replicated'' = Some (Json_uint64 (rst_chunks_under_replicated stats))"
      "map_of kvs ''replicas_verified'' = Some (Json_uint64 (rst_replicas_verified stats))"
      "map_of kvs ''replicas_written'' = Some (Json_uint64 (rst_replicas_written stats))"
      "map_of kvs ''bytes_copied'' = Some (Json_uint64 (rst_bytes_copied stats))"
      "map_of kvs ''source_failovers'' = Some (Json_uint64 (rst_source_failovers stats))"
  shows "stats' = stats"
  using assms(1) unfolding parse_replication_stats_def assms(2-)[THEN bigint_field_reparsed]
  by (cases stats) (auto split: if_splits)

lemma parse_replication_run_back:
  assumes codec: "json_codec parse serialize"
    and parsed: "parse_replication_run_json parse (serialize (replication_run_to_json run)) = Inr run'"
  shows "run' = run"
proof -
  obtain kvs where kvs: "replication_run_to_json run = Json_object kvs" by (simp add: replication_run_to_json_def)
  have "json_plain (Json_object kvs)"
    unfolding kvs [symmetric]
    by (simp add: replication_run_to_json_def replication_stats_fields_def plain_strings)
  note json = parse_serialized [OF codec this]
  have fields:
    "string_field kvs ''replication_run_id'' = Some (rpr_run_id run)"
    "string_field kvs ''version_id'' = Some (rpr_version_id run)"
    "string_field kvs ''layout_id'' = Some (rpr_layout_id run)"
    "array_field kvs ''placement_node_ids'' = Some (map Json_string (rpr_placement_node_ids run))"
    "string_field kvs ''state'' = Some (replication_run_state_to_string (rpr_state run))"
    using kvs by (auto simp: replication_run_to_json_def string_field_def array_field_def)
  have factor: "positive_field (reparsed_fields kvs) ''replication_factor'' =
      (if ucast (rpr_replication_factor run) = (0 :: u64) \<or> kPostgresBigintMax < ucast (rpr_replication_factor run)
       then None else Some (ucast (rpr_replication_factor run)))"
    by (rule positive_field_reparsed) (use kvs in \<open>auto simp: replication_run_to_json_def\<close>)
  from parsed obtain stats where stats: "parse_replication_stats (reparsed_fields kvs) = Some stats"
    and run': "run' = \<lparr>rpr_run_id = rpr_run_id run, rpr_version_id = rpr_version_id run, rpr_layout_id = rpr_layout_id run,
      rpr_replication_factor = rpr_replication_factor run, rpr_placement_node_ids = rpr_placement_node_ids run,
      rpr_state = rpr_state run, rpr_stats = stats\<rparr>"
    using node_ids_back(1) [of "rpr_placement_node_ids run"]
    by (auto simp: parse_node_ids_def comp_def parse_replication_run_json_def kvs json parse_replication_run_object_def fields factor
        replication_state_back rbind_eq_Inr uuid_v7_ok ucast_back split: if_splits option.splits)
  have "stats = rpr_stats run"
    by (rule replication_stats_back [OF stats])
      (use kvs in \<open>auto simp: replication_run_to_json_def replication_stats_fields_def\<close>)
  then show ?thesis by (cases run) (simp add: run')
qed


text \<open>A plan is read back with numbers beyond \<open>bigint\<close> as 0.\<close>

definition readable_number :: "u64 \<Rightarrow> u64" where
  "readable_number n = (if kPostgresBigintMax < n then 0 else n)"

definition readable_chunk_plan :: "replication_chunk_plan \<Rightarrow> replication_chunk_plan" where
  "readable_chunk_plan chunk =
     chunk\<lparr>rcp_offset := readable_number (rcp_offset chunk), rcp_size_bytes := readable_number (rcp_size_bytes chunk)\<rparr>"

definition readable_plan :: "replication_plan \<Rightarrow> replication_plan" where
  "readable_plan plan = plan\<lparr>rpp_chunks := map readable_chunk_plan (rpp_chunks plan)\<rparr>"

lemma number_back:
  assumes "map_of kvs key = Some (Json_uint64 n)"
  shows "number_or_zero extract_bigint (reparsed_fields kvs) key = Inr (readable_number n)"
    and "number_or_zero extract_positive_bigint (reparsed_fields kvs) key = Inr (readable_number n)"
  by (simp_all add: number_or_zero_def json_at_reparsed [OF assms] extract_positive_eq extract_bigint_reparsed
      readable_number_def del: reparsed.simps)

lemma endpoint_back:
  assumes "rbind (as_object (reparsed (replication_endpoint_to_json e))) parse_replication_node_endpoint = Inr e'"
  shows "e' = e"
proof -
  obtain kvs where kvs: "replication_endpoint_to_json e = Json_object kvs" by (simp add: replication_endpoint_to_json_def)
  have fields: "string_field kvs ''node_id'' = Some (rne_node_id e)" "string_field kvs ''address'' = Some (rne_address e)"
    using kvs by (auto simp: replication_endpoint_to_json_def string_field_def)
  have port: "positive_field (reparsed_fields kvs) ''port'' =
      (if ucast (rne_port e) = (0 :: u64) \<or> kPostgresBigintMax < ucast (rne_port e) then None else Some (ucast (rne_port e)))"
    by (rule positive_field_reparsed) (use kvs in \<open>auto simp: replication_endpoint_to_json_def\<close>)
  from assms have "parse_replication_node_endpoint (reparsed_fields kvs) = Inr e'"
    by (simp only: kvs reparsed_object as_simps rbind_simps)
  then show ?thesis
    by (auto simp: parse_replication_node_endpoint_def fields port ucast_back split: if_splits)
qed

lemma endpoints_back:
  assumes "parse_endpoints (reparsed_fields kvs) key = Inr es'"
    and "map_of kvs key = Some (Json_array (map replication_endpoint_to_json es))"
  shows "es' = es"
proof -
  from assms have "map_res (\<lambda>v. rbind (as_object v) parse_replication_node_endpoint)
      (map (\<lambda>e. reparsed (replication_endpoint_to_json e)) es) = Inr es'"
    by (simp add: parse_endpoints_def json_at_reparsed as_array_def comp_def)
  from map_res_map [OF this, of "\<lambda>e. e"] endpoint_back show ?thesis by simp
qed

lemma strings_back:
  assumes "rbind (rbind (json_at (reparsed_fields kvs) key) as_array) (map_res as_string) = Inr ss'"
    and "map_of kvs key = Some (Json_array (map Json_string ss))"
  shows "ss' = ss"
  using assms by (intro node_ids_back(2)) (simp add: json_at_reparsed as_array_def comp_def)

lemma chunk_plan_back:
  assumes "parse_chunk_plan (reparsed (chunk_plan_to_json chunk)) = Inr chunk'"
  shows "chunk' = readable_chunk_plan chunk"
proof -
  obtain kvs where kvs: "chunk_plan_to_json chunk = Json_object kvs" by (simp add: chunk_plan_to_json_def)
  have at: "map_of kvs ''chunk_id'' = Some (Json_string (rcp_chunk_id chunk))"
    "map_of kvs ''offset'' = Some (Json_uint64 (rcp_offset chunk))"
    "map_of kvs ''size_bytes'' = Some (Json_uint64 (rcp_size_bytes chunk))"
    "map_of kvs ''desired_node_ids'' = Some (Json_array (map Json_string (rcp_desired_node_ids chunk)))"
    "map_of kvs ''source_nodes'' = Some (Json_array (map replication_endpoint_to_json (rcp_source_nodes chunk)))"
    "map_of kvs ''target_nodes'' = Some (Json_array (map replication_endpoint_to_json (rcp_target_nodes chunk)))"
    using kvs by (auto simp: chunk_plan_to_json_def)
  define wanted where
    "wanted = rbind (rbind (json_at (reparsed_fields kvs) ''desired_node_ids'') as_array) (map_res as_string)"
  from assms obtain sources desired targets where
    "parse_endpoints (reparsed_fields kvs) ''source_nodes'' = Inr sources" "wanted = Inr desired"
    "parse_endpoints (reparsed_fields kvs) ''target_nodes'' = Inr targets"
    and chunk': "chunk' = \<lparr>rcp_chunk_id = rcp_chunk_id chunk, rcp_offset = readable_number (rcp_offset chunk),
      rcp_size_bytes = readable_number (rcp_size_bytes chunk), rcp_desired_node_ids = desired,
      rcp_source_nodes = sources, rcp_target_nodes = targets\<rparr>"
    by (simp only: parse_chunk_plan_def kvs reparsed_object as_simps rbind_simps number_back(1) [OF at(2)]
        number_back(2) [OF at(3)] json_at_reparsed [OF at(1)] reparsed.simps flip: wanted_def)
      (auto simp: rbind_eq_Inr)
  with endpoints_back [OF _ at(5)] strings_back [OF _ at(4)] endpoints_back [OF _ at(6)] wanted_def
  show ?thesis by (cases chunk) (simp add: readable_chunk_plan_def)
qed

lemma plain_chunk_plan: "json_plain (chunk_plan_to_json chunk)"
  by (simp add: chunk_plan_to_json_def plain_strings list_all_iff replication_endpoint_to_json_def)

lemma parse_replication_plan_back:
  assumes codec: "json_codec parse serialize"
    and parsed: "rbind (parse_json_object parse (serialize (replication_plan_to_json plan))) parse_replication_plan_object = Inr plan'"
  shows "plan' = readable_plan plan"
proof -
  obtain kvs where kvs: "replication_plan_to_json plan = Json_object kvs" by (simp add: replication_plan_to_json_def)
  have "json_plain (Json_object kvs)"
    unfolding kvs [symmetric] using plain_chunk_plan by (simp add: replication_plan_to_json_def plain_strings list_all_iff)
  note json = parse_serialized [OF codec this]
  have at: "map_of kvs ''replication_run_id'' = Some (Json_string (rpp_run_id plan))"
    "map_of kvs ''version_id'' = Some (Json_string (rpp_version_id plan))"
    "map_of kvs ''layout_id'' = Some (Json_string (rpp_layout_id plan))"
    "map_of kvs ''replication_factor'' = Some (Json_uint64 (ucast (rpp_replication_factor plan)))"
    "map_of kvs ''placement_node_ids'' = Some (Json_array (map Json_string (rpp_placement_node_ids plan)))"
    "map_of kvs ''chunks'' = Some (Json_array (map chunk_plan_to_json (rpp_chunks plan)))"
    using kvs by (auto simp: replication_plan_to_json_def)
  define placement where
    "placement = rbind (rbind (json_at (reparsed_fields kvs) ''placement_node_ids'') as_array) (map_res as_string)"
  define entries where
    "entries = rbind (rbind (json_at (reparsed_fields kvs) ''chunks'') as_array) (map_res parse_chunk_plan)"
  from parsed obtain nodes chunks where nodes: "placement = Inr nodes" and chunks: "entries = Inr chunks" and plan': "plan' = \<lparr>rpp_run_id = rpp_run_id plan, rpp_version_id = rpp_version_id plan,
      rpp_layout_id = rpp_layout_id plan, rpp_replication_factor = rpp_replication_factor plan,
      rpp_placement_node_ids = nodes, rpp_chunks = chunks\<rparr>"
    unfolding kvs json rbind_simps parse_replication_plan_object_def positive_field_reparsed [OF at(4)]
      json_at_reparsed [OF at(1)] json_at_reparsed [OF at(2)] json_at_reparsed [OF at(3)]
      placement_def [symmetric] entries_def [symmetric]
    by (auto simp: rbind_eq_Inr uuid_v7_ok ucast_back split: if_splits)
  have "chunks = map readable_chunk_plan (rpp_chunks plan)"
    using chunks chunk_plan_back
    by (intro map_res_map [where f = "\<lambda>c. reparsed (chunk_plan_to_json c)" and g = parse_chunk_plan])
      (simp_all add: entries_def json_at_reparsed [OF at(6)] comp_def)
  with plan' nodes strings_back [OF _ at(5)] placement_def
  show ?thesis by (cases plan) (simp add: readable_plan_def)
qed

end
