(* ===== verification/Metadata_Restore.thy ===== *)
theory Metadata_Restore
  imports Metadata_Replication
begin

section \<open>Restore plans over the wire\<close>

text \<open>
  The routes under \<open>/v1/artifact-versions\<close> (\<open>src/service/metadata_service_m8_routes.cpp\<close> and
  \<open>src/service/metadata_service.cpp\<close>) and the two operations of \<open>MetadataClient\<close> that read restore plans. The
  client rebuilds the layout descriptor from the fields of the answer and so checks every layout it is given.
\<close>

subsection \<open>JSON forms\<close>

definition object_field :: "(string \<times> json) list \<Rightarrow> string \<Rightarrow> (string \<times> json) list option" where
  "object_field object key = (case map_of object key of Some (Json_object kvs) \<Rightarrow> Some kvs | _ \<Rightarrow> None)"

definition fastcdc_parameters_to_json :: "fastcdc_parameters \<Rightarrow> json" where
  "fastcdc_parameters_to_json parameters =
     Json_object [(''min_chunk_size_bytes'', Json_uint64 (min_chunk_size_bytes parameters)),
       (''avg_chunk_size_bytes'', Json_uint64 (avg_chunk_size_bytes parameters)),
       (''max_chunk_size_bytes'', Json_uint64 (max_chunk_size_bytes parameters))]"

definition layout_parameters_to_json :: "object_layout_descriptor \<Rightarrow> json res" where
  "layout_parameters_to_json descriptor =
     (if ld_chunking_strategy descriptor = FixedSize then Inr (Json_object [])
      else case ld_fastcdc_parameters descriptor of
             None \<Rightarrow> Inl Logic_error
           | Some parameters \<Rightarrow> Inr (fastcdc_parameters_to_json parameters))"

definition parse_fastcdc_parameters_json :: "(string \<times> json) list \<Rightarrow> fastcdc_parameters option" where
  "parse_fastcdc_parameters_json object =
     (if \<not> json_object_has_exact_keys object [''min_chunk_size_bytes'', ''avg_chunk_size_bytes'', ''max_chunk_size_bytes'']
      then None
      else case (positive_field object ''min_chunk_size_bytes'', positive_field object ''avg_chunk_size_bytes'',
                 positive_field object ''max_chunk_size_bytes'') of
             (Some mn, Some av, Some mx) \<Rightarrow>
               let parameters = \<lparr>min_chunk_size_bytes = mn, avg_chunk_size_bytes = av, max_chunk_size_bytes = mx\<rparr>
               in if validate_fastcdc_parameters parameters = Inl Invalid_argument then None else Some parameters
           | _ \<Rightarrow> None)"

definition chunk_ref_to_json :: "chunk_ref \<Rightarrow> json" where
  "chunk_ref_to_json chunk =
     Json_object [(''chunk_id'', Json_string (cr_chunk_id chunk)), (''offset'', Json_uint64 (cr_offset chunk)),
       (''size_bytes'', Json_uint64 (cr_size chunk))]"

definition restore_plan_to_json :: "restore_plan \<Rightarrow> json res" where
  "restore_plan_to_json plan =
     (let descriptor = rp_layout_descriptor plan; chunks = ol_chunks (ld_layout descriptor)
      in rbind (layout_parameters_to_json descriptor) (\<lambda>parameters.
         Inr (Json_object
           [(''version_id'', Json_string (rp_version_id plan)), (''artifact_id'', Json_string (rp_artifact_id plan)),
            (''source_node_id'', Json_string (rp_source_node_id plan)),
            (''object_id'', Json_string (obj_object_id (ld_object descriptor))),
            (''total_size_bytes'', Json_uint64 (obj_total_size (ld_object descriptor))),
            (''layout_id'', Json_string (ld_layout_id descriptor)),
            (''chunking_strategy'', Json_string (chunking_strategy_to_string (ld_chunking_strategy descriptor))),
            (''chunking_parameters'', parameters), (''chunk_count'', Json_uint64 (of_nat (length chunks))),
            (''chunks'', Json_array (map chunk_ref_to_json chunks))])))"

definition restore_endpoint_to_json :: "restore_node_endpoint \<Rightarrow> json" where
  "restore_endpoint_to_json endpoint =
     Json_object [(''node_id'', Json_string (en_node_id endpoint)), (''address'', Json_string (en_address endpoint)),
       (''port'', Json_uint64 (ucast (en_port endpoint)))]"

definition chunk_sources_to_json :: "restore_chunk_sources \<Rightarrow> json" where
  "chunk_sources_to_json chunk =
     Json_object [(''chunk_id'', Json_string (cs_chunk_id chunk)), (''offset'', Json_uint64 (cs_offset chunk)),
       (''size_bytes'', Json_uint64 (cs_size_bytes chunk)),
       (''sources'', Json_array (map restore_endpoint_to_json (cs_sources chunk)))]"

definition multi_node_restore_plan_to_json :: "multi_node_restore_plan \<Rightarrow> json res" where
  "multi_node_restore_plan_to_json plan =
     (let descriptor = mp_layout_descriptor plan; chunks = mp_chunks plan
      in rbind (layout_parameters_to_json descriptor) (\<lambda>parameters.
         Inr (Json_object
           [(''version_id'', Json_string (mp_version_id plan)), (''artifact_id'', Json_string (mp_artifact_id plan)),
            (''object_id'', Json_string (mp_object_id plan)),
            (''total_size_bytes'', Json_uint64 (obj_total_size (ld_object descriptor))),
            (''layout_id'', Json_string (mp_layout_id plan)),
            (''chunking_strategy'', Json_string (chunking_strategy_to_string (ld_chunking_strategy descriptor))),
            (''chunking_parameters'', parameters), (''chunk_count'', Json_uint64 (of_nat (length chunks))),
            (''chunks'', Json_array (map chunk_sources_to_json chunks))])))"

subsection \<open>The service\<close>

definition kArtifactVersionsPrefix :: string where
  "kArtifactVersionsPrefix = ''/v1/artifact-versions/''"

definition kRestorePlanSuffix :: string where
  "kRestorePlanSuffix = ''/restore-plan''"

definition kRestorePlanInfix :: string where
  "kRestorePlanInfix = ''/restore-plan/''"

text \<open>\<open>find\<close> of a substring: what stands before and after its first occurrence.\<close>

fun split_infix :: "string \<Rightarrow> string \<Rightarrow> (string \<times> string) option" where
  "split_infix infx [] = (if infx = [] then Some ([], []) else None)"
| "split_infix infx (c # s) =
     (if take (length infx) (c # s) = infx then Some ([], drop (length infx) (c # s))
      else map_option (\<lambda>(before, after). (c # before, after)) (split_infix infx s))"

definition starts_with :: "string \<Rightarrow> string \<Rightarrow> bool" where
  "starts_with s prefix \<longleftrightarrow> take (length prefix) s = prefix"

function parse_query_param :: "string \<Rightarrow> string \<Rightarrow> string option" where
  "parse_query_param query key =
     (if query = [] then None
      else
        let pair = takeWhile (\<lambda>c. c \<noteq> CHR ''&'') query;
            rest = dropWhile (\<lambda>c. c \<noteq> CHR ''&'') query;
            pair_key = takeWhile (\<lambda>c. c \<noteq> CHR ''='') pair
        in if CHR ''='' \<in> set pair \<and> pair_key = key then Some (drop (length pair_key + 1) pair)
           else if rest = [] then None else parse_query_param (tl rest) key)"
  by pat_completeness auto
termination
proof (relation "measure (length \<circ> fst)")
  fix query key :: string and pair rest pair_key
  assume "rest = dropWhile (\<lambda>c. c \<noteq> CHR ''&'') query" and "rest \<noteq> []"
  then have "length (tl rest) < length rest" "length rest \<le> length query"
    by (simp_all add: length_dropWhile_le)
  then show "((tl rest, key), query, key) \<in> measure (length \<circ> fst)" by simp
qed simp

declare parse_query_param.simps [simp del]

text \<open>The query of a target, without its fragment.\<close>

definition query_of :: "string \<Rightarrow> string" where
  "query_of target =
     (let rest = drop (length (fst (split_path_and_query target))) target
      in if rest \<noteq> [] \<and> hd rest = CHR ''?'' then takeWhile (\<lambda>c. c \<noteq> CHR ''#'') (tl rest) else [])"

fun restore_error_answer :: "restore_plan_error_kind \<Rightarrow> nat \<times> string" where
  "restore_error_answer RestoreVersionNotFound = (404, ''artifact_version_not_found'')"
| "restore_error_answer RestoreVersionNotCommitted = (409, ''artifact_version_not_committed'')"
| "restore_error_answer RestoreSourceUnavailable = (409, ''restore_source_unavailable'')"
| "restore_error_answer RestoreVersionRetired = (410, ''artifact_version_retired'')"

definition catch_restore_error :: "(json \<Rightarrow> string) \<Rightarrow> exn \<Rightarrow> http_response option" where
  "catch_restore_error serialize e =
     (case e of
        Restore_plan_error kind \<Rightarrow>
          Some (error_response serialize (fst (restore_error_answer kind)) (snd (restore_error_answer kind)))
      | _ \<Rightarrow> None)"

text \<open>The plan is printed inside the \<open>try\<close>; an exception of the printing is not one of those caught.\<close>

definition handle_get_restore_plan ::
  "hash \<Rightarrow> (json \<Rightarrow> string) \<Rightarrow> string \<Rightarrow> string \<Rightarrow> database \<Rightarrow> database \<times> http_response res" where
  "handle_get_restore_plan H serialize version_id source_node_id db =
     query_db db (rbind (resolve_restore_plan H db version_id source_node_id) restore_plan_to_json)
       (make_json_response serialize 200) (catch_restore_error serialize)"

definition handle_get_multi_node_restore_plan ::
  "hash \<Rightarrow> (json \<Rightarrow> string) \<Rightarrow> string \<Rightarrow> database \<Rightarrow> database \<times> http_response res" where
  "handle_get_multi_node_restore_plan H serialize version_id db =
     query_db db (rbind (resolve_multi_node_restore_plan H db version_id) multi_node_restore_plan_to_json)
       (make_json_response serialize 200) (catch_restore_error serialize)"

text \<open>The branch of \<open>try_handle_m8_routes\<close>: \<open>None\<close> passes the request on to the other routes.\<close>

definition handle_m8_versions ::
  "hash \<Rightarrow> (json \<Rightarrow> string) \<Rightarrow> http_request \<Rightarrow> database \<Rightarrow> (database \<times> http_response res) option" where
  "handle_m8_versions H serialize request db =
     (let path = fst (split_path_and_query (rq_target request));
          after_prefix = drop (length kArtifactVersionsPrefix) path
      in case split_infix kRestorePlanSuffix after_prefix of
           None \<Rightarrow> None
         | Some (version_id, after_restore) \<Rightarrow>
             if \<not> is_valid_chunk_id version_id then Some (db, Inr (error_response serialize 400 ''invalid_version_id''))
             else if after_restore = [] then
               if rq_method request \<noteq> Get then Some (db, Inr (method_not_allowed serialize ''GET''))
               else (case parse_query_param (query_of (rq_target request)) ''source_node_id'' of
                       Some source_node_id \<Rightarrow>
                         if \<not> is_valid_node_id source_node_id
                         then Some (db, Inr (error_response serialize 400 ''invalid_node_id''))
                         else Some (handle_get_restore_plan H serialize version_id source_node_id db)
                     | None \<Rightarrow> Some (handle_get_multi_node_restore_plan H serialize version_id db))
             else if hd after_restore = CHR ''/'' then
               if CHR ''/'' \<in> set (tl after_restore) then Some (db, Inr (error_response serialize 404 ''not_found''))
               else None
             else None)"

datatype restore_plan_route =
  Not_restore_plan | Restore_plan_item string string | Restore_plan_unknown | Invalid_version_id | Invalid_source_node_id

definition parse_restore_plan_route :: "string \<Rightarrow> restore_plan_route" where
  "parse_restore_plan_route path =
     (if \<not> starts_with path kArtifactVersionsPrefix then Not_restore_plan
      else case split_infix kRestorePlanInfix (drop (length kArtifactVersionsPrefix) path) of
             None \<Rightarrow> Not_restore_plan
           | Some (version_id, after_infix) \<Rightarrow>
               if \<not> is_valid_chunk_id version_id then Invalid_version_id
               else if after_infix = [] \<or> hd after_infix = CHR ''/'' then Restore_plan_unknown
               else if CHR ''/'' \<in> set after_infix then Restore_plan_unknown
               else if \<not> is_valid_node_id after_infix then Invalid_source_node_id
               else Restore_plan_item version_id after_infix)"

text \<open>The branch of \<open>MetadataService::handle_request\<close>.\<close>

definition handle_artifact_versions ::
  "hash \<Rightarrow> (json \<Rightarrow> string) \<Rightarrow> http_request \<Rightarrow> database \<Rightarrow> database \<times> http_response res" where
  "handle_artifact_versions H serialize request db =
     (let path = fst (split_path_and_query (rq_target request))
      in case parse_restore_plan_route path of
           Invalid_version_id \<Rightarrow> (db, Inr (error_response serialize 400 ''invalid_version_id''))
         | Invalid_source_node_id \<Rightarrow> (db, Inr (error_response serialize 400 ''invalid_node_id''))
         | Restore_plan_item version_id source_node_id \<Rightarrow>
             if path \<noteq> rq_target request then (db, Inr (error_response serialize 400 ''invalid_request''))
             else if rq_method request \<noteq> Get then (db, Inr (method_not_allowed serialize ''GET''))
             else handle_get_restore_plan H serialize version_id source_node_id db
         | _ \<Rightarrow> (db, Inr (error_response serialize 404 ''not_found'')))"


subsection \<open>The client\<close>

text \<open>A \<open>try\<close> that turns every standard exception into a protocol error.\<close>

definition as_protocol_error :: "'a res \<Rightarrow> 'a res" where
  "as_protocol_error r = (case r of Inl e \<Rightarrow> Inl Remote_protocol_error | Inr x \<Rightarrow> Inr x)"

definition rebuild_layout ::
  "hash \<Rightarrow> string \<Rightarrow> (string \<times> json) list \<Rightarrow> string \<Rightarrow> u64 \<Rightarrow> chunk_ref list \<Rightarrow> object_layout_descriptor res" where
  "rebuild_layout H chunking_strategy chunking_parameters object_id total_size_bytes chunk_refs =
     as_protocol_error
       (rbind (object_new object_id total_size_bytes) (\<lambda>layout_object.
        rbind (object_layout_new chunk_refs) (\<lambda>layout.
        if chunking_strategy = ''fixed-size'' then
          if chunking_parameters \<noteq> [] then Inl Remote_protocol_error
          else fixed_size_layout_descriptor H layout_object FixedSize layout
        else if chunking_strategy \<noteq> ''fastcdc'' then Inl Remote_protocol_error
        else case parse_fastcdc_parameters_json chunking_parameters of
               None \<Rightarrow> Inl Remote_protocol_error
             | Some fastcdc_parameters \<Rightarrow> fastcdc_layout_descriptor H layout_object fastcdc_parameters layout)))"

definition parse_chunk_ref :: "json \<Rightarrow> chunk_ref option" where
  "parse_chunk_ref v =
     (case v of
        Json_object entry \<Rightarrow>
          if \<not> json_object_has_exact_keys entry [''chunk_id'', ''offset'', ''size_bytes''] then None
          else (case (string_field entry ''chunk_id'', bigint_field entry ''offset'', positive_field entry ''size_bytes'') of
                  (Some chunk_id, Some chunk_offset, Some size_bytes) \<Rightarrow>
                    if \<not> is_valid_chunk_id chunk_id then None
                    else Some \<lparr>cr_chunk_id = chunk_id, cr_offset = chunk_offset, cr_size = size_bytes\<rparr>
                | _ \<Rightarrow> None)
      | _ \<Rightarrow> None)"

definition protocol_value :: "'a option \<Rightarrow> 'a res" where
  "protocol_value v = (case v of None \<Rightarrow> Inl Remote_protocol_error | Some x \<Rightarrow> Inr x)"

definition restore_plan_keys :: "string list" where
  "restore_plan_keys =
     [''version_id'', ''artifact_id'', ''source_node_id'', ''object_id'', ''total_size_bytes'', ''layout_id'',
      ''chunking_strategy'', ''chunking_parameters'', ''chunk_count'', ''chunks'']"

definition parse_restore_plan :: "hash \<Rightarrow> string \<Rightarrow> string \<Rightarrow> (string \<times> json) list \<Rightarrow> restore_plan res" where
  "parse_restore_plan H version_id source_node_id object =
     (if \<not> json_object_has_exact_keys object restore_plan_keys then Inl Remote_protocol_error
      else case (string_field object ''version_id'', string_field object ''artifact_id'',
                 string_field object ''source_node_id'', string_field object ''object_id'',
                 string_field object ''layout_id'', string_field object ''chunking_strategy'',
                 object_field object ''chunking_parameters'', array_field object ''chunks'') of
             (Some response_version_id, Some artifact_id, Some response_source_node_id, Some object_id, Some layout_id,
              Some chunking_strategy, Some chunking_parameters, Some chunks_array) \<Rightarrow>
               if response_version_id \<noteq> version_id then Inl Remote_protocol_error
               else if response_source_node_id \<noteq> source_node_id then Inl Remote_protocol_error
               else if \<not> is_valid_chunk_id object_id \<or> \<not> is_valid_chunk_id layout_id then Inl Remote_protocol_error
               else
                 rbind (protocol_value (bigint_field object ''total_size_bytes'')) (\<lambda>total_size_bytes.
                 rbind (protocol_value (bigint_field object ''chunk_count'')) (\<lambda>chunk_count.
                 if chunk_count \<noteq> of_nat (length chunks_array) then Inl Remote_protocol_error
                 else
                   rbind (map_res (\<lambda>v. protocol_value (parse_chunk_ref v)) chunks_array) (\<lambda>chunk_refs.
                   rbind (uuid_v7 artifact_id) (\<lambda>artifact_id.
                   rbind (rebuild_layout H chunking_strategy chunking_parameters object_id total_size_bytes chunk_refs) (\<lambda>descriptor.
                   if obj_object_id (ld_object descriptor) \<noteq> object_id then Inl Remote_protocol_error
                   else if ld_layout_id descriptor \<noteq> layout_id then Inl Remote_protocol_error
                   else if obj_total_size (ld_object descriptor) \<noteq> total_size_bytes then Inl Remote_protocol_error
                   else Inr \<lparr>rp_artifact_id = artifact_id, rp_version_id = response_version_id,
                             rp_source_node_id = response_source_node_id, rp_layout_descriptor = descriptor\<rparr>)))))
           | _ \<Rightarrow> Inl Remote_protocol_error)"

definition restore_plan_target :: "string \<Rightarrow> string" where
  "restore_plan_target version_id = ''/v1/artifact-versions/'' @ version_id @ ''/restore-plan''"

definition get_restore_plan_from :: "hash \<Rightarrow> 's metadata_client \<Rightarrow> string \<Rightarrow> string \<Rightarrow> ('s, restore_plan) step" where
  "get_restore_plan_from H client version_id source_node_id =
     (if \<not> is_valid_chunk_id version_id then step_of (Inl Invalid_argument)
      else if \<not> is_valid_node_id source_node_id then step_of (Inl Invalid_argument)
      else step_bind (metadata_request client Get (restore_plan_target version_id @ ''/'' @ source_node_id) [] None) (\<lambda>response.
           step_of (expect_status 200 response
             (rbind (parse_json_object (mc_parse client) (rs_body response))
                (parse_restore_plan H version_id source_node_id)))))"

definition parse_restore_node_endpoint :: "(string \<times> json) list \<Rightarrow> restore_node_endpoint res" where
  "parse_restore_node_endpoint object =
     (if \<not> json_object_has_exact_keys object [''node_id'', ''address'', ''port''] then Inl Remote_protocol_error
      else case (string_field object ''node_id'', string_field object ''address'', positive_field object ''port'') of
             (Some node_id, Some address, Some port) \<Rightarrow>
               if 65535 < port then Inl Remote_protocol_error
               else Inr \<lparr>en_node_id = node_id, en_address = address, en_port = ucast port\<rparr>
           | _ \<Rightarrow> Inl Remote_protocol_error)"

definition parse_source :: "json \<Rightarrow> restore_node_endpoint res" where
  "parse_source v = (case v of Json_object object \<Rightarrow> parse_restore_node_endpoint object | _ \<Rightarrow> Inl Remote_protocol_error)"

definition parse_chunk_sources :: "json \<Rightarrow> restore_chunk_sources res" where
  "parse_chunk_sources v =
     (case v of
        Json_object entry \<Rightarrow>
          if \<not> json_object_has_exact_keys entry [''chunk_id'', ''offset'', ''size_bytes'', ''sources''] then Inl Remote_protocol_error
          else (case (string_field entry ''chunk_id'', array_field entry ''sources'') of
                  (Some chunk_id, Some source_values) \<Rightarrow>
                    if \<not> is_valid_chunk_id chunk_id then Inl Remote_protocol_error
                    else (case (bigint_field entry ''offset'', positive_field entry ''size_bytes'') of
                            (Some chunk_offset, Some size_bytes) \<Rightarrow>
                              rbind (map_res parse_source source_values) (\<lambda>sources.
                              Inr \<lparr>cs_chunk_id = chunk_id, cs_offset = chunk_offset, cs_size_bytes = size_bytes,
                                   cs_sources = sources\<rparr>)
                          | _ \<Rightarrow> Inl Remote_protocol_error)
                | _ \<Rightarrow> Inl Remote_protocol_error)
      | _ \<Rightarrow> Inl Remote_protocol_error)"

definition source_ref :: "restore_chunk_sources \<Rightarrow> chunk_ref" where
  "source_ref chunk = \<lparr>cr_chunk_id = cs_chunk_id chunk, cr_offset = cs_offset chunk, cr_size = cs_size_bytes chunk\<rparr>"

definition multi_node_plan_keys :: "string list" where
  "multi_node_plan_keys =
     [''version_id'', ''artifact_id'', ''object_id'', ''total_size_bytes'', ''layout_id'', ''chunking_strategy'',
      ''chunking_parameters'', ''chunk_count'', ''chunks'']"

text \<open>The types of the fields are not checked first: the accessors of Boost.JSON throw.\<close>

definition parse_multi_node_restore_plan :: "hash \<Rightarrow> string \<Rightarrow> (string \<times> json) list \<Rightarrow> multi_node_restore_plan res" where
  "parse_multi_node_restore_plan H version_id object =
     (if \<not> json_object_has_exact_keys object multi_node_plan_keys then Inl Remote_protocol_error
      else
        rbind (rbind (json_at object ''version_id'') as_string) (\<lambda>response_version_id.
        if response_version_id \<noteq> version_id then Inl Remote_protocol_error
        else
          rbind (rbind (json_at object ''object_id'') as_string) (\<lambda>object_id.
          rbind (rbind (json_at object ''layout_id'') as_string) (\<lambda>layout_id.
          if \<not> is_valid_chunk_id object_id \<or> \<not> is_valid_chunk_id layout_id then Inl Remote_protocol_error
          else
            rbind (rbind (json_at object ''chunking_strategy'') as_string) (\<lambda>chunking_strategy.
            rbind (rbind (json_at object ''chunking_parameters'') as_object) (\<lambda>chunking_parameters.
            rbind (protocol_value (bigint_field object ''total_size_bytes'')) (\<lambda>total_size_bytes.
            rbind (protocol_value (bigint_field object ''chunk_count'')) (\<lambda>chunk_count.
            rbind (rbind (json_at object ''chunks'') as_array) (\<lambda>chunks_array.
            if chunk_count \<noteq> of_nat (length chunks_array) then Inl Remote_protocol_error
            else
              rbind (map_res parse_chunk_sources chunks_array) (\<lambda>chunk_sources.
              rbind (rbind (rbind (json_at object ''artifact_id'') as_string) uuid_v7) (\<lambda>artifact_id.
              rbind (rebuild_layout H chunking_strategy chunking_parameters object_id total_size_bytes
                       (map source_ref chunk_sources)) (\<lambda>descriptor.
              Inr \<lparr>mp_artifact_id = artifact_id, mp_version_id = response_version_id, mp_object_id = object_id,
                   mp_layout_id = layout_id, mp_layout_descriptor = descriptor, mp_chunks = chunk_sources\<rparr>))))))))))))"

definition get_multi_node_restore_plan_from :: "hash \<Rightarrow> 's metadata_client \<Rightarrow> string \<Rightarrow> ('s, multi_node_restore_plan) step" where
  "get_multi_node_restore_plan_from H client version_id =
     (if \<not> is_valid_chunk_id version_id then step_of (Inl Invalid_argument)
      else step_bind (metadata_request client Get (restore_plan_target version_id) [] None) (\<lambda>response.
           step_of (expect_status 200 response
             (rbind (parse_json_object (mc_parse client) (rs_body response))
                (parse_multi_node_restore_plan H version_id)))))"


subsection \<open>A plan is read back as it was\<close>

lemma json_at_object: "map_of kvs key = Some (Json_object ps) \<Longrightarrow> json_at (reparsed_fields kvs) key = Inr (Json_object (reparsed_fields ps))"
  by (drule json_at_reparsed) (simp add: reparsed_object del: reparsed.simps)

lemma source_back:
  assumes "parse_source (reparsed (restore_endpoint_to_json e)) = Inr e'"
  shows "e' = e"
proof -
  obtain kvs where kvs: "restore_endpoint_to_json e = Json_object kvs" by (simp add: restore_endpoint_to_json_def)
  have fields: "string_field kvs ''node_id'' = Some (en_node_id e)" "string_field kvs ''address'' = Some (en_address e)"
    using kvs by (auto simp: restore_endpoint_to_json_def string_field_def)
  have port: "positive_field (reparsed_fields kvs) ''port'' =
      (if ucast (en_port e) = (0 :: u64) \<or> kPostgresBigintMax < ucast (en_port e) then None else Some (ucast (en_port e)))"
    by (rule positive_field_reparsed) (use kvs in \<open>auto simp: restore_endpoint_to_json_def\<close>)
  from assms have "parse_restore_node_endpoint (reparsed_fields kvs) = Inr e'"
    by (simp only: parse_source_def kvs reparsed_object json.case)
  then show ?thesis
    by (auto simp: parse_restore_node_endpoint_def fields port ucast_back split: if_splits)
qed

lemma chunk_sources_back:
  assumes "parse_chunk_sources (reparsed (chunk_sources_to_json chunk)) = Inr chunk'"
  shows "chunk' = chunk"
proof -
  obtain kvs where kvs: "chunk_sources_to_json chunk = Json_object kvs" by (simp add: chunk_sources_to_json_def)
  have at: "map_of kvs ''offset'' = Some (Json_uint64 (cs_offset chunk))"
    "map_of kvs ''size_bytes'' = Some (Json_uint64 (cs_size_bytes chunk))"
    using kvs by (auto simp: chunk_sources_to_json_def)
  have fields: "string_field kvs ''chunk_id'' = Some (cs_chunk_id chunk)"
    "array_field kvs ''sources'' = Some (map restore_endpoint_to_json (cs_sources chunk))"
    using kvs by (auto simp: chunk_sources_to_json_def string_field_def array_field_def)
  from assms obtain sources where sources: "map_res parse_source (map (\<lambda>e. reparsed (restore_endpoint_to_json e)) (cs_sources chunk)) = Inr sources"
    and chunk': "chunk' = \<lparr>cs_chunk_id = cs_chunk_id chunk, cs_offset = cs_offset chunk, cs_size_bytes = cs_size_bytes chunk,
      cs_sources = sources\<rparr>"
    unfolding parse_chunk_sources_def kvs reparsed_object json.case fields_reparsed fields bigint_field_reparsed [OF at(1)]
      positive_field_reparsed [OF at(2)] option.map map_map comp_def
    by (auto simp: rbind_eq_Inr split: if_splits)
  have "sources = map (\<lambda>e. e) (cs_sources chunk)" by (rule map_res_map [OF sources]) (rule source_back)
  then show ?thesis by (cases chunk) (simp add: chunk')
qed

lemma fastcdc_parameters_back:
  assumes "fastcdc_parameters_to_json p = Json_object ps" and "parse_fastcdc_parameters_json (reparsed_fields ps) = Some p'"
  shows "p' = p"
proof -
  have at: "map_of ps ''min_chunk_size_bytes'' = Some (Json_uint64 (min_chunk_size_bytes p))"
    "map_of ps ''avg_chunk_size_bytes'' = Some (Json_uint64 (avg_chunk_size_bytes p))"
    "map_of ps ''max_chunk_size_bytes'' = Some (Json_uint64 (max_chunk_size_bytes p))"
    using assms(1) by (auto simp: fastcdc_parameters_to_json_def)
  from assms(2) show ?thesis
    unfolding parse_fastcdc_parameters_json_def positive_field_reparsed [OF at(1)] positive_field_reparsed [OF at(2)]
      positive_field_reparsed [OF at(3)]
    by (cases p) (auto simp: Let_def split: if_splits)
qed

lemma as_protocol_ok [simp]: "as_protocol_error r = Inr x \<longleftrightarrow> r = Inr x"
  by (simp add: as_protocol_error_def split: sum.split)

lemma protocol_value_ok [simp]: "protocol_value v = Inr x \<longleftrightarrow> v = Some x"
  by (simp add: protocol_value_def split: option.split)

text \<open>The client rebuilds the layout it was sent.\<close>

lemma layout_back:
  assumes built: "built_layout H d" and json: "layout_parameters_to_json d = Inr (Json_object ps)"
    and rebuilt: "rebuild_layout H (chunking_strategy_to_string (ld_chunking_strategy d)) (reparsed_fields ps)
      (obj_object_id (ld_object d)) (obj_total_size (ld_object d)) (ol_chunks (ld_layout d)) = Inr d'"
  shows "d' = d"
proof -
  have obj: "object_new (obj_object_id (ld_object d)) (obj_total_size (ld_object d)) = Inr (ld_object d)"
    using built_layout_facts(1) [OF built] by (cases "ld_object d") (simp add: object_new_ok)
  have layout: "object_layout_new (ol_chunks (ld_layout d)) = Inr (ld_layout d)"
    using built_layout_facts(2) [OF built] by (auto simp: object_layout_new_ok)
  note same = built_layout_rebuild [OF built]
  show ?thesis
  proof (cases "ld_chunking_strategy d")
    case FixedSize
    with rebuilt same json show ?thesis
      by (simp add: rebuild_layout_def obj layout layout_parameters_to_json_def reparsed_fields_def)
  next
    case FastCdc
    with same obtain p where p: "ld_fastcdc_parameters d = Some p"
      "fastcdc_layout_descriptor H (ld_object d) p (ld_layout d) = Inr d" by auto
    with json FastCdc have "fastcdc_parameters_to_json p = Json_object ps" by (simp add: layout_parameters_to_json_def)
    note params = fastcdc_parameters_back [OF this]
    from rebuilt FastCdc obtain p' where "parse_fastcdc_parameters_json (reparsed_fields ps) = Some p'"
      "fastcdc_layout_descriptor H (ld_object d) p' (ld_layout d) = Inr d'"
      by (auto simp: rebuild_layout_def obj layout split: option.splits)
    with params p(2) show ?thesis by auto
  qed
qed

lemma layout_parameters_object:
  assumes "layout_parameters_to_json d = Inr v"
  obtains ps where "v = Json_object ps" and "json_plain v"
  using assms
  by (auto simp: layout_parameters_to_json_def fastcdc_parameters_to_json_def split: if_splits option.splits)

definition consistent_plan :: "hash \<Rightarrow> multi_node_restore_plan \<Rightarrow> bool" where
  "consistent_plan H plan \<longleftrightarrow>
     (let d = mp_layout_descriptor plan
      in built_layout H d \<and> ol_chunks (ld_layout d) = map source_ref (mp_chunks plan) \<and>
         obj_object_id (ld_object d) = mp_object_id plan \<and> mp_layout_id plan = ld_layout_id d)"

lemma resolved_plan_consistent:
  assumes "resolve_multi_node_restore_plan H db version_id = Inr plan"
  shows "consistent_plan H plan"
proof (rule multi_node_plan_steps [OF assms])
  fix v
  assume sel: "load_selected_layout H db v (select_layout db (multi_node_restorable_chunk db) (av_root_object_id v)) =
         Inr (mp_layout_descriptor plan)"
    and srcs: "map_res (restore_sources db) (ol_chunks (ld_layout (mp_layout_descriptor plan))) = Inr (mp_chunks plan)"
    and ids: "mp_object_id plan = av_root_object_id v" "mp_layout_id plan = ld_layout_id (mp_layout_descriptor plan)"
  have "map source_ref (mp_chunks plan) = ol_chunks (ld_layout (mp_layout_descriptor plan))"
    using chunk_sources_refs [OF srcs] by (simp add: source_ref_def [abs_def])
  then show ?thesis
    using selected_layout_loads [OF sel] loaded_layout(1) ids by (auto simp: consistent_plan_def Let_def)
qed

lemma multi_node_plan_back:
  assumes codec: "json_codec parse serialize" and plan: "consistent_plan H plan"
    and json: "multi_node_restore_plan_to_json plan = Inr v"
    and parsed: "rbind (parse_json_object parse (serialize v)) (parse_multi_node_restore_plan H version_id) = Inr plan'"
  shows "plan' = plan"
proof -
  let ?d = "mp_layout_descriptor plan"
  from json obtain parameters where params: "layout_parameters_to_json ?d = Inr parameters"
    by (auto simp: multi_node_restore_plan_to_json_def Let_def rbind_eq_Inr)
  then obtain ps where ps: "parameters = Json_object ps" and plain: "json_plain parameters"
    by (rule layout_parameters_object)
  obtain kvs where kvs: "v = Json_object kvs" and
    kvs_eq: "kvs = [(''version_id'', Json_string (mp_version_id plan)), (''artifact_id'', Json_string (mp_artifact_id plan)),
            (''object_id'', Json_string (mp_object_id plan)),
            (''total_size_bytes'', Json_uint64 (obj_total_size (ld_object ?d))),
            (''layout_id'', Json_string (mp_layout_id plan)),
            (''chunking_strategy'', Json_string (chunking_strategy_to_string (ld_chunking_strategy ?d))),
            (''chunking_parameters'', parameters), (''chunk_count'', Json_uint64 (of_nat (length (mp_chunks plan)))),
            (''chunks'', Json_array (map chunk_sources_to_json (mp_chunks plan)))]"
    using json params by (auto simp: multi_node_restore_plan_to_json_def Let_def)
  have "json_plain (Json_object kvs)"
    using plain
    by (simp add: kvs_eq list_all_iff chunk_sources_to_json_def restore_endpoint_to_json_def)
  note read = parse_serialized [OF codec this]
  have at: "map_of kvs ''version_id'' = Some (Json_string (mp_version_id plan))"
    "map_of kvs ''artifact_id'' = Some (Json_string (mp_artifact_id plan))"
    "map_of kvs ''object_id'' = Some (Json_string (mp_object_id plan))"
    "map_of kvs ''layout_id'' = Some (Json_string (mp_layout_id plan))"
    "map_of kvs ''chunking_strategy'' = Some (Json_string (chunking_strategy_to_string (ld_chunking_strategy ?d)))"
    "map_of kvs ''chunking_parameters'' = Some (Json_object ps)"
    "map_of kvs ''total_size_bytes'' = Some (Json_uint64 (obj_total_size (ld_object ?d)))"
    "map_of kvs ''chunks'' = Some (Json_array (map chunk_sources_to_json (mp_chunks plan)))"
    by (simp_all add: kvs_eq ps)
  note numbers = bigint_field_reparsed [OF at(7)]
  note strings = at(1-5) [THEN json_at_reparsed, unfolded reparsed.simps]
  from parsed obtain chunks descriptor where
    chunks: "map_res parse_chunk_sources (map (\<lambda>c. reparsed (chunk_sources_to_json c)) (mp_chunks plan)) = Inr chunks"
    and descriptor: "rebuild_layout H (chunking_strategy_to_string (ld_chunking_strategy ?d)) (reparsed_fields ps)
      (mp_object_id plan) (obj_total_size (ld_object ?d)) (map source_ref chunks) = Inr descriptor"
    and plan': "plan' = \<lparr>mp_artifact_id = mp_artifact_id plan, mp_version_id = mp_version_id plan,
      mp_object_id = mp_object_id plan, mp_layout_id = mp_layout_id plan, mp_layout_descriptor = descriptor,
      mp_chunks = chunks\<rparr>"
    unfolding kvs read rbind_simps parse_multi_node_restore_plan_def strings json_at_object [OF at(6)] as_simps numbers
      json_at_reparsed [OF at(8)] reparsed.simps map_map comp_def
    by (auto simp: rbind_eq_Inr uuid_v7_ok split: if_splits)
  have "chunks = map (\<lambda>c. c) (mp_chunks plan)" by (rule map_res_map [OF chunks]) (rule chunk_sources_back)
  then have chunks: "chunks = mp_chunks plan" by simp
  have "descriptor = ?d"
    by (rule layout_back) (use plan params ps descriptor in \<open>auto simp: consistent_plan_def Let_def chunks\<close>)
  then show ?thesis by (cases plan) (simp add: plan' chunks)
qed

end
