(* ===== verification/Metadata_Uploads.thy ===== *)
theory Metadata_Uploads
  imports Metadata_Restore
begin

section \<open>Upload sessions, chunks and locations over the wire\<close>

text \<open>
  The routes for upload sessions, chunk negotiation and storage locations
  (\<open>src/service/metadata_service.cpp\<close>) and the operations of \<open>MetadataClient\<close> that use them: what a push
  needs of the metadata service.
\<close>

subsection \<open>JSON forms\<close>

definition optional_string_json :: "string option \<Rightarrow> json" where
  "optional_string_json s = (case s of None \<Rightarrow> Json_null | Some t \<Rightarrow> Json_string t)"

definition metadata_to_json :: "immutable_metadata \<Rightarrow> json" where
  "metadata_to_json metadata = Json_object (map (\<lambda>(key, value). (key, Json_string value)) metadata)"

definition session_parameters_to_json :: "upload_session \<Rightarrow> json res" where
  "session_parameters_to_json session =
     (if us_chunking_strategy session = FixedSize
      then rbind (us_chunk_size_bytes session) (\<lambda>chunk_size_bytes.
           Inr (Json_object [(''chunk_size_bytes'', Json_uint64 chunk_size_bytes)]))
      else case us_fastcdc_parameters session of
             None \<Rightarrow> Inl Logic_error
           | Some parameters \<Rightarrow> Inr (fastcdc_parameters_to_json parameters))"

definition session_fields :: "upload_session \<Rightarrow> json \<Rightarrow> (string \<times> json) list" where
  "session_fields session parameters =
     [(''session_id'', Json_string (us_session_id session)), (''artifact_id'', Json_string (us_artifact_id session)),
      (''target_node_id'', Json_string (us_target_node_id session)),
      (''replication_factor'', Json_uint64 (ucast (us_replication_factor session))),
      (''placement_node_ids'', Json_array (map Json_string (us_placement_node_ids session))),
      (''chunking_strategy'', Json_string (chunking_strategy_to_string (us_chunking_strategy session))),
      (''chunking_parameters'', parameters),
      (''immutable_metadata'', metadata_to_json (us_immutable_metadata session))]"

definition upload_session_to_json :: "upload_session \<Rightarrow> json res" where
  "upload_session_to_json session =
     rbind (session_parameters_to_json session) (\<lambda>parameters.
     Inr (Json_object (session_fields session parameters @
       [(''state'', Json_string (upload_session_state_to_string (us_state session))),
        (''parent_version_id'', optional_string_json (us_parent_version_id session)),
        (''finalized_version_id'', optional_string_json (us_finalized_version_id session))])))"

subsection \<open>Creating, reading and aborting sessions\<close>

text \<open>\<open>Invalid_argument\<close> stands for the early returns with \<open>invalid_request\<close>: the answers are the same.\<close>

definition required :: "'a option \<Rightarrow> 'a res" where
  "required v = (case v of None \<Rightarrow> Inl Invalid_argument | Some x \<Rightarrow> Inr x)"

definition nullable_string :: "(string \<times> json) list \<Rightarrow> string \<Rightarrow> string option option" where
  "nullable_string object key =
     (case map_of object key of
        Some Json_null \<Rightarrow> Some None
      | Some (Json_string s) \<Rightarrow> Some (Some s)
      | _ \<Rightarrow> None)"

definition string_list :: "json list \<Rightarrow> string list option" where
  "string_list vs =
     (case map_res (\<lambda>v. case v of Json_string s \<Rightarrow> Inr s | _ \<Rightarrow> Inl Invalid_argument) vs of
        Inl e \<Rightarrow> None
      | Inr ss \<Rightarrow> Some ss)"

text \<open>The entries of a JSON object, put into a \<open>std::map\<close>.\<close>

fun metadata_of_json :: "(string \<times> json) list \<Rightarrow> immutable_metadata \<Rightarrow> immutable_metadata option" where
  "metadata_of_json [] metadata = Some metadata"
| "metadata_of_json ((key, v) # entries) metadata =
     (case v of
        Json_string value \<Rightarrow> metadata_of_json entries (fst (emplace key value metadata))
      | _ \<Rightarrow> None)"

definition replication_factor_field :: "(string \<times> json) list \<Rightarrow> u8 option" where
  "replication_factor_field object =
     Option.bind (positive_field object ''replication_factor'') (\<lambda>n. if 8 < n then None else Some (ucast n))"

definition create_session_keys :: "string list" where
  "create_session_keys =
     [''session_id'', ''artifact_id'', ''target_node_id'', ''replication_factor'', ''placement_node_ids'',
      ''chunking_strategy'', ''chunking_parameters'', ''parent_version_id'', ''immutable_metadata'']"

definition parse_fixed_size :: "(string \<times> json) list \<Rightarrow> u64 option" where
  "parse_fixed_size chunking_parameters =
     (if \<not> json_object_has_exact_keys chunking_parameters [''chunk_size_bytes''] then None
      else positive_field chunking_parameters ''chunk_size_bytes'')"

definition requested_session :: "(string \<times> json) list \<Rightarrow> upload_session res" where
  "requested_session body =
     (if \<not> json_object_has_exact_keys body create_session_keys then Inl Invalid_argument
      else
        rbind (required (string_field body ''session_id'')) (\<lambda>session_id.
        rbind (required (string_field body ''artifact_id'')) (\<lambda>artifact_id.
        rbind (required (string_field body ''target_node_id'')) (\<lambda>target_node_id.
        rbind (required (array_field body ''placement_node_ids'')) (\<lambda>placement.
        rbind (required (string_field body ''chunking_strategy'')) (\<lambda>chunking_strategy.
        rbind (required (object_field body ''chunking_parameters'')) (\<lambda>chunking_parameters.
        rbind (required (object_field body ''immutable_metadata'')) (\<lambda>metadata_entries.
        rbind (required (replication_factor_field body)) (\<lambda>replication_factor.
        rbind (required (string_list placement)) (\<lambda>placement_node_ids.
        if placement_node_ids = [] \<or> target_node_id \<noteq> hd placement_node_ids then Inl Invalid_argument
        else if chunking_strategy \<noteq> ''fixed-size'' \<and> chunking_strategy \<noteq> ''fastcdc'' then Inl Invalid_argument
        else
          rbind (if chunking_strategy = ''fixed-size'' then map_sum id Inl (required (parse_fixed_size chunking_parameters))
                 else map_sum id Inr (required (parse_fastcdc_parameters_json chunking_parameters))) (\<lambda>parameters.
          rbind (required (nullable_string body ''parent_version_id'')) (\<lambda>parent_version_id.
          rbind (required (metadata_of_json metadata_entries [])) (\<lambda>immutable_metadata.
          rbind (uuid_v7 session_id) (\<lambda>session_id.
          rbind (uuid_v7 artifact_id) (\<lambda>artifact_id.
          case parameters of
            Inl chunk_size_bytes \<Rightarrow>
              upload_session_fixed session_id artifact_id replication_factor placement_node_ids FixedSize
                chunk_size_bytes parent_version_id immutable_metadata SessionOpen None
          | Inr fastcdc_parameters \<Rightarrow>
              upload_session_fastcdc session_id artifact_id replication_factor placement_node_ids
                fastcdc_parameters parent_version_id immutable_metadata SessionOpen None)))))))))))))))"

definition creation_fields_match :: "upload_session \<Rightarrow> upload_session \<Rightarrow> bool" where
  "creation_fields_match existing requested \<longleftrightarrow>
     us_session_id existing = us_session_id requested \<and> us_artifact_id existing = us_artifact_id requested \<and>
     us_target_node_id existing = us_target_node_id requested \<and>
     us_replication_factor existing = us_replication_factor requested \<and>
     us_placement_node_ids existing = us_placement_node_ids requested \<and>
     us_chunking_strategy existing = us_chunking_strategy requested \<and>
     us_fixed_chunk_size_bytes existing = us_fixed_chunk_size_bytes requested \<and>
     us_fastcdc_parameters existing = us_fastcdc_parameters requested \<and>
     us_parent_version_id existing = us_parent_version_id requested \<and>
     us_immutable_metadata existing = us_immutable_metadata requested \<and>
     us_state existing = SessionOpen \<and> us_finalized_version_id existing = None"

text \<open>What runs under the mutex, in two or three transactions. A conflict is an answer, not an exception.\<close>

definition create_or_load_session :: "database \<Rightarrow> upload_session \<Rightarrow> database \<times> upload_session option res" where
  "create_or_load_session db requested =
     (case get_upload_session db (us_session_id requested) of
        Inl e \<Rightarrow> (db, Inl e)
      | Inr (Some session) \<Rightarrow> (db, Inr (if creation_fields_match session requested then Some session else None))
      | Inr None \<Rightarrow>
          (case create_upload_session db requested of
             Inl e \<Rightarrow> (db, Inl e)
           | Inr db' \<Rightarrow>
               (db', rbind (get_upload_session db' (us_session_id requested)) (\<lambda>created.
                     case created of None \<Rightarrow> Inl Runtime_error | Some session \<Rightarrow> Inr (Some session)))))"

definition catch_creation_error :: "(json \<Rightarrow> string) \<Rightarrow> exn \<Rightarrow> http_response option" where
  "catch_creation_error serialize e =
     (if e = Invalid_argument then Some (error_response serialize 400 ''invalid_request'')
      else if e = Foreign_key_violation then Some (error_response serialize 404 ''upload_session_prerequisite_not_found'')
      else if e = Gc_error GcInProgress then Some (error_response serialize 409 ''gc_in_progress'')
      else None)"

text \<open>The answer is printed after the transaction and outside the \<open>try\<close>.\<close>

definition session_answer :: "(json \<Rightarrow> string) \<Rightarrow> database \<times> upload_session \<Rightarrow> database \<times> http_response res" where
  "session_answer serialize result =
     (fst result, rbind (upload_session_to_json (snd result)) (\<lambda>v. Inr (make_json_response serialize 200 v)))"

definition handle_create_upload_session ::
  "(string \<Rightarrow> json option) \<Rightarrow> (json \<Rightarrow> string) \<Rightarrow> http_request \<Rightarrow> database \<Rightarrow> database \<times> http_response res" where
  "handle_create_upload_session parse serialize request db =
     with_json_object parse serialize request db (\<lambda>body.
     case requested_session body of
       Inl e \<Rightarrow>
         (db, if e = Invalid_argument \<or> e = Overflow_error then Inr (error_response serialize 400 ''invalid_request'')
              else Inl e)
     | Inr requested \<Rightarrow>
         (case create_or_load_session db requested of
            (db', Inl e) \<Rightarrow> (db', case catch_creation_error serialize e of Some response \<Rightarrow> Inr response | None \<Rightarrow> Inl e)
          | (db', Inr None) \<Rightarrow> (db', Inr (error_response serialize 409 ''upload_session_conflict''))
          | (db', Inr (Some session)) \<Rightarrow> session_answer serialize (db', session)))"

definition handle_get_upload_session ::
  "(json \<Rightarrow> string) \<Rightarrow> string \<Rightarrow> database \<Rightarrow> database \<times> http_response res" where
  "handle_get_upload_session serialize session_id db =
     (case rbind (uuid_v7 session_id) (get_upload_session db) of
        Inl e \<Rightarrow> (db, Inl e)
      | Inr None \<Rightarrow> (db, Inr (error_response serialize 404 ''upload_session_not_found''))
      | Inr (Some session) \<Rightarrow> session_answer serialize (db, session))"

definition handle_abort_upload_session ::
  "(json \<Rightarrow> string) \<Rightarrow> string \<Rightarrow> http_request \<Rightarrow> database \<Rightarrow> database \<times> http_response res" where
  "handle_abort_upload_session serialize session_id request db =
     (if rq_body request \<noteq> [] then (db, Inr (error_response serialize 400 ''invalid_request''))
      else case rbind (uuid_v7 session_id) (get_upload_session db) of
        Inl e \<Rightarrow> (db, Inl e)
      | Inr None \<Rightarrow> (db, Inr (error_response serialize 404 ''upload_session_not_found''))
      | Inr (Some existing) \<Rightarrow>
          if us_state existing = SessionCommitted
          then (db, Inr (error_response serialize 409 ''upload_session_committed''))
          else (case abort_upload_session db session_id of
                  Inl e \<Rightarrow> (db, Inl e)
                | Inr db' \<Rightarrow>
                    (case get_upload_session db' session_id of
                       Inl e \<Rightarrow> (db', Inl e)
                     | Inr None \<Rightarrow> (db', Inl Runtime_error)
                     | Inr (Some aborted_session) \<Rightarrow> session_answer serialize (db', aborted_session))))"

subsection \<open>Finalizing sessions\<close>

fun finalize_error_answer :: "finalize_upload_error_kind \<Rightarrow> nat \<times> string" where
  "finalize_error_answer SessionNotFound = (404, ''upload_session_not_found'')"
| "finalize_error_answer SessionNotOpen = (409, ''upload_session_not_open'')"
| "finalize_error_answer Conflict = (409, ''finalize_conflict'')"
| "finalize_error_answer ChunkNotAvailableOnTarget = (409, ''chunk_not_available_on_target'')"
| "finalize_error_answer ChunkUnderReplicated = (409, ''chunk_under_replicated'')"
| "finalize_error_answer FinalizeVersionRetired = (410, ''artifact_version_retired'')"

definition finalize_error_body :: "finalize_upload_error_kind \<Rightarrow> string option \<Rightarrow> json" where
  "finalize_error_body kind chunk_id =
     Json_object ((''error'', Json_string (snd (finalize_error_answer kind))) #
       (case chunk_id of
          Some c \<Rightarrow> if kind = ChunkNotAvailableOnTarget \<or> kind = ChunkUnderReplicated
                   then [(''chunk_id'', Json_string c)] else []
        | None \<Rightarrow> []))"

definition catch_finalize_error :: "(json \<Rightarrow> string) \<Rightarrow> exn \<Rightarrow> http_response option" where
  "catch_finalize_error serialize e =
     (case e of
        Finalize_upload_error kind chunk_id \<Rightarrow>
          Some (make_json_response serialize (fst (finalize_error_answer kind)) (finalize_error_body kind chunk_id))
      | Invalid_argument \<Rightarrow> Some (error_response serialize 400 ''invalid_request'')
      | _ \<Rightarrow> None)"

definition finalize_keys :: "string list" where
  "finalize_keys = [''object_id'', ''total_size_bytes'', ''chunking_strategy'', ''chunking_parameters'', ''chunks'']"

definition parse_chunk_refs :: "json list \<Rightarrow> chunk_ref list res" where
  "parse_chunk_refs vs = map_res (\<lambda>v. required (parse_chunk_ref v)) vs"

definition requested_descriptor :: "hash \<Rightarrow> (string \<times> json) list \<Rightarrow> object_layout_descriptor res" where
  "requested_descriptor H body =
     (if \<not> json_object_has_exact_keys body finalize_keys then Inl Invalid_argument
      else
        rbind (required (string_field body ''object_id'')) (\<lambda>object_id.
        rbind (required (string_field body ''chunking_strategy'')) (\<lambda>chunking_strategy.
        rbind (required (object_field body ''chunking_parameters'')) (\<lambda>chunking_parameters.
        rbind (required (array_field body ''chunks'')) (\<lambda>chunks_json.
        rbind (required (bigint_field body ''total_size_bytes'')) (\<lambda>total_size_bytes.
        if \<not> is_valid_chunk_id object_id then Inl Invalid_argument
        else if chunking_strategy \<noteq> ''fixed-size'' \<and> chunking_strategy \<noteq> ''fastcdc'' then Inl Invalid_argument
        else
          rbind (if chunking_strategy = ''fixed-size''
                 then if chunking_parameters \<noteq> [] then Inl Invalid_argument else Inr None
                 else map_sum id Some (required (parse_fastcdc_parameters_json chunking_parameters))) (\<lambda>fastcdc_parameters.
          rbind (parse_chunk_refs chunks_json) (\<lambda>chunks.
          rbind (object_new object_id total_size_bytes) (\<lambda>object.
          rbind (object_layout_new chunks) (\<lambda>layout.
          case fastcdc_parameters of
            None \<Rightarrow> fixed_size_layout_descriptor H object FixedSize layout
          | Some parameters \<Rightarrow> fastcdc_layout_descriptor H object parameters layout))))))))))"

definition finalize_result_to_json :: "finalize_upload_result \<Rightarrow> json" where
  "finalize_result_to_json result =
     Json_object [(''session_id'', Json_string (fr_session_id result)), (''version_id'', Json_string (fr_version_id result)),
       (''object_id'', Json_string (fr_object_id result)), (''layout_id'', Json_string (fr_layout_id result)),
       (''state'', Json_string ''committed'')]"

definition handle_finalize_upload_session ::
  "hash \<Rightarrow> (string \<Rightarrow> json option) \<Rightarrow> (json \<Rightarrow> string) \<Rightarrow> int \<Rightarrow> string \<Rightarrow> http_request \<Rightarrow> database \<Rightarrow>
   database \<times> http_response res" where
  "handle_finalize_upload_session H parse serialize now session_id request db =
     with_json_object parse serialize request db (\<lambda>body.
     case requested_descriptor H body of
       Inl e \<Rightarrow>
         (db, if e = Invalid_argument \<or> e = Overflow_error then Inr (error_response serialize 400 ''invalid_request'')
              else Inl e)
     | Inr descriptor \<Rightarrow>
         (case uuid_v7 session_id of
            Inl e \<Rightarrow> (db, Inl e)
          | Inr session_id \<Rightarrow>
              transact db (finalize_upload H db now session_id descriptor)
                (\<lambda>result. make_json_response serialize 200 (finalize_result_to_json result))
                (catch_finalize_error serialize)))"

subsection \<open>The routes of upload sessions\<close>

definition kUploadSessionsCollection :: string where
  "kUploadSessionsCollection = ''/v1/upload-sessions''"

definition kUploadSessionsPrefix :: string where
  "kUploadSessionsPrefix = ''/v1/upload-sessions/''"

definition kAbortSuffix :: string where
  "kAbortSuffix = ''/abort''"

definition kFinalizeSuffix :: string where
  "kFinalizeSuffix = ''/finalize''"

datatype upload_session_route =
  Not_upload_session | Sessions_collection | Session_item string | Session_abort string | Session_finalize string
  | Invalid_session_id | Session_unknown_subroute

definition parse_upload_session_route :: "string \<Rightarrow> upload_session_route" where
  "parse_upload_session_route path =
     (if path = kUploadSessionsCollection then Sessions_collection
      else if \<not> starts_with path kUploadSessionsPrefix then Not_upload_session
      else
        let remainder = drop (length kUploadSessionsPrefix) path
        in if remainder = [] \<or> hd remainder = CHR ''/'' then Session_unknown_subroute
           else
             let session_id = takeWhile (\<lambda>c. c \<noteq> CHR ''/'') remainder;
                 suffix = drop (length session_id) remainder
             in if \<not> is_uuid session_id then Invalid_session_id
                else if suffix = [] then Session_item session_id
                else if suffix = kAbortSuffix then Session_abort session_id
                else if suffix = kFinalizeSuffix then Session_finalize session_id
                else Session_unknown_subroute)"

text \<open>The branch of \<open>MetadataService::handle_request\<close>; no later branch takes a path of this prefix.\<close>

definition handle_upload_sessions ::
  "hash \<Rightarrow> (string \<Rightarrow> json option) \<Rightarrow> (json \<Rightarrow> string) \<Rightarrow> int \<Rightarrow> http_request \<Rightarrow> database \<Rightarrow>
   database \<times> http_response res" where
  "handle_upload_sessions H parse serialize now request db =
     (let path = fst (split_path_and_query (rq_target request))
      in if path \<noteq> rq_target request then (db, Inr (error_response serialize 400 ''invalid_request''))
         else case parse_upload_session_route path of
           Sessions_collection \<Rightarrow>
             if rq_method request \<noteq> Post then (db, Inr (method_not_allowed serialize ''POST''))
             else handle_create_upload_session parse serialize request db
         | Session_item session_id \<Rightarrow>
             if rq_method request \<noteq> Get then (db, Inr (method_not_allowed serialize ''GET''))
             else handle_get_upload_session serialize session_id db
         | Session_abort session_id \<Rightarrow>
             if rq_method request \<noteq> Post then (db, Inr (method_not_allowed serialize ''POST''))
             else handle_abort_upload_session serialize session_id request db
         | Session_finalize session_id \<Rightarrow>
             if rq_method request \<noteq> Post then (db, Inr (method_not_allowed serialize ''POST''))
             else handle_finalize_upload_session H parse serialize now session_id request db
         | Invalid_session_id \<Rightarrow> (db, Inr (error_response serialize 400 ''invalid_session_id''))
         | _ \<Rightarrow> (db, Inr (error_response serialize 404 ''not_found'')))"

subsection \<open>Negotiating chunks\<close>

definition kNegotiatePath :: string where
  "kNegotiatePath = ''/v1/chunks/negotiate''"

definition kMaxNegotiationChunks :: nat where
  "kMaxNegotiationChunks = 256"

definition classify_availability :: "string \<Rightarrow> string list \<Rightarrow> string" where
  "classify_availability target_node_id available =
     (if target_node_id \<in> set available then ''available_on_target''
      else if available \<noteq> [] then ''available_elsewhere''
      else ''no_available_location'')"

definition parse_chunk_metadata :: "json \<Rightarrow> chunk_metadata option" where
  "parse_chunk_metadata v =
     (case v of
        Json_object entry \<Rightarrow>
          if \<not> json_object_has_exact_keys entry [''chunk_id'', ''size_bytes''] then None
          else (case (string_field entry ''chunk_id'', positive_field entry ''size_bytes'') of
                  (Some chunk_id, Some size_bytes) \<Rightarrow>
                    if \<not> is_valid_chunk_id chunk_id then None
                    else Some \<lparr>cm_chunk_id = chunk_id, cm_size_bytes = size_bytes\<rparr>
                | _ \<Rightarrow> None)
      | _ \<Rightarrow> None)"

fun parse_negotiation_entries :: "json list \<Rightarrow> (string \<times> u64) list \<Rightarrow> chunk_metadata list option" where
  "parse_negotiation_entries [] seen_sizes = Some []"
| "parse_negotiation_entries (v # vs) seen_sizes =
     (case parse_chunk_metadata v of
        None \<Rightarrow> None
      | Some chunk \<Rightarrow>
          (case emplace (cm_chunk_id chunk) (cm_size_bytes chunk) seen_sizes of
             (seen_sizes, seen_size, inserted) \<Rightarrow>
               if \<not> inserted \<and> seen_size \<noteq> cm_size_bytes chunk then None
               else map_option (\<lambda>chunks. chunk # chunks) (parse_negotiation_entries vs seen_sizes)))"

definition negotiation_entry_to_json :: "string \<Rightarrow> chunk_negotiation_entry \<Rightarrow> json" where
  "negotiation_entry_to_json target_node_id entry =
     Json_object [(''chunk_id'', Json_string (cm_chunk_id (ne_chunk entry))),
       (''size_bytes'', Json_uint64 (cm_size_bytes (ne_chunk entry))),
       (''metadata_was_known'', Json_bool (ne_metadata_was_known entry)),
       (''availability'', Json_string (classify_availability target_node_id (ne_available_node_ids entry))),
       (''available_node_ids'', Json_array (map Json_string (ne_available_node_ids entry)))]"

definition negotiation_answer :: "(json \<Rightarrow> string) \<Rightarrow> string \<Rightarrow> string \<Rightarrow> chunk_negotiation_batch \<Rightarrow> http_response" where
  "negotiation_answer serialize session_id target_node_id batch =
     (case nb_conflict batch of
        Some conflict \<Rightarrow>
          make_json_response serialize 409
            (Json_object [(''error'', Json_string ''chunk_size_conflict''), (''chunk_id'', Json_string (sc_chunk_id conflict)),
               (''requested_size_bytes'', Json_uint64 (sc_requested_size_bytes conflict)),
               (''stored_size_bytes'', Json_uint64 (sc_stored_size_bytes conflict))])
      | None \<Rightarrow>
          make_json_response serialize 200
            (Json_object [(''session_id'', Json_string session_id), (''target_node_id'', Json_string target_node_id),
               (''chunks'', Json_array (map (negotiation_entry_to_json target_node_id) (nb_chunks batch)))]))"

definition handle_negotiate_chunks ::
  "(string \<Rightarrow> json option) \<Rightarrow> (json \<Rightarrow> string) \<Rightarrow> http_request \<Rightarrow> database \<Rightarrow> database \<times> http_response res" where
  "handle_negotiate_chunks parse serialize request db =
     (if rq_method request \<noteq> Post then (db, Inr (method_not_allowed serialize ''POST''))
      else with_json_object parse serialize request db (\<lambda>body.
     case (if json_object_has_exact_keys body [''session_id'', ''chunks'']
           then (string_field body ''session_id'', array_field body ''chunks'') else (None, None)) of
       (Some session_id, Some chunks_json) \<Rightarrow>
         if \<not> is_uuid session_id then (db, Inr (error_response serialize 400 ''invalid_session_id''))
         else if chunks_json = [] \<or> kMaxNegotiationChunks < length chunks_json
         then (db, Inr (error_response serialize 400 ''invalid_request''))
         else (case parse_negotiation_entries chunks_json [] of
                 None \<Rightarrow> (db, Inr (error_response serialize 400 ''invalid_request''))
               | Some requested \<Rightarrow>
                   (case get_upload_session db session_id of
                      Inl e \<Rightarrow> (db, Inl e)
                    | Inr None \<Rightarrow> (db, Inr (error_response serialize 404 ''upload_session_not_found''))
                    | Inr (Some session) \<Rightarrow>
                        if us_state session \<noteq> SessionOpen
                        then (db, Inr (error_response serialize 409 ''upload_session_not_open''))
                        else transact db (negotiate_chunks db requested)
                               (negotiation_answer serialize session_id (us_target_node_id session)) (\<lambda>_. None)))
     | _ \<Rightarrow> (db, Inr (error_response serialize 400 ''invalid_request''))))"

subsection \<open>Storage locations\<close>

definition kLocationsSuffix :: string where
  "kLocationsSuffix = ''/locations''"

definition kLocationsPrefix :: string where
  "kLocationsPrefix = ''/locations/''"

datatype location_route =
  Not_location | Location_collection string | Location_item string string | Invalid_location_chunk | Invalid_location_node

definition parse_location_route :: "string \<Rightarrow> location_route" where
  "parse_location_route path =
     (if \<not> starts_with path kChunkRoutePrefix then Not_location
      else
        let after_prefix = drop (length kChunkRoutePrefix) path;
            chunk_id = takeWhile (\<lambda>c. c \<noteq> CHR ''/'') after_prefix;
            remainder = drop (length chunk_id) after_prefix
        in if \<not> is_valid_chunk_id chunk_id then Invalid_location_chunk
           else if remainder = [] then Not_location
           else if remainder = kLocationsSuffix then Location_collection chunk_id
           else if \<not> starts_with remainder kLocationsPrefix then Not_location
           else
             let node_id = drop (length kLocationsPrefix) remainder
             in if \<not> is_valid_node_id node_id then Invalid_location_node else Location_item chunk_id node_id)"

definition location_to_json :: "location_row \<Rightarrow> json" where
  "location_to_json location =
     Json_object [(''node_id'', Json_string (sl_node_id location)), (''storage_path'', Json_string (sl_storage_path location)),
       (''state'', Json_string (storage_location_state_to_string (sl_state location)))]"

definition catch_location_error :: "(json \<Rightarrow> string) \<Rightarrow> exn \<Rightarrow> http_response option" where
  "catch_location_error serialize e =
     (if e = Foreign_key_violation then Some (error_response serialize 404 ''chunk_not_found'')
      else if e = Unique_violation then Some (error_response serialize 409 ''location_conflict'')
      else None)"

definition handle_put_location ::
  "(string \<Rightarrow> json option) \<Rightarrow> (json \<Rightarrow> string) \<Rightarrow> string \<Rightarrow> string \<Rightarrow> http_request \<Rightarrow> database \<Rightarrow>
   database \<times> http_response res" where
  "handle_put_location parse serialize chunk_id node_id request db =
     with_json_object parse serialize request db (\<lambda>body.
     case (if json_object_has_exact_keys body [''storage_path'', ''state'']
           then (string_field body ''storage_path'', string_field body ''state'') else (None, None)) of
       (Some storage_path, Some state_string) \<Rightarrow>
         if storage_path = [] then (db, Inr (error_response serialize 400 ''invalid_request''))
         else (case storage_location_state_from_string state_string of
                 Inl e \<Rightarrow> (db, Inr (error_response serialize 400 ''invalid_state''))
               | Inr state \<Rightarrow>
                   transact db
                     (rbind (register_storage_location db
                        \<lparr>sl_chunk_id = chunk_id, sl_node_id = node_id, sl_storage_path = storage_path, sl_state = state\<rparr>)
                        (\<lambda>db'. Inr (db', ())))
                     (\<lambda>_. make_empty_response 204) (catch_location_error serialize))
     | _ \<Rightarrow> (db, Inr (error_response serialize 400 ''invalid_request'')))"

definition handle_location_routes ::
  "(string \<Rightarrow> json option) \<Rightarrow> (json \<Rightarrow> string) \<Rightarrow> http_request \<Rightarrow> database \<Rightarrow> database \<times> http_response res" where
  "handle_location_routes parse serialize request db =
     (let path = fst (split_path_and_query (rq_target request));
          has_query_or_fragment = path \<noteq> rq_target request
      in case parse_location_route path of
           Invalid_location_chunk \<Rightarrow> (db, Inr (error_response serialize 400 ''invalid_chunk_id''))
         | Invalid_location_node \<Rightarrow> (db, Inr (error_response serialize 400 ''invalid_node_id''))
         | Not_location \<Rightarrow> (db, Inr (error_response serialize 404 ''not_found''))
         | Location_collection chunk_id \<Rightarrow>
             if has_query_or_fragment then (db, Inr (error_response serialize 400 ''invalid_request''))
             else if rq_method request \<noteq> Get then (db, Inr (method_not_allowed serialize ''GET''))
             else query_db db (get_storage_locations db chunk_id)
                    (\<lambda>locations. make_json_response serialize 200
                       (Json_object [(''chunk_id'', Json_string chunk_id),
                                     (''locations'', Json_array (map location_to_json locations))]))
                    (\<lambda>_. None)
         | Location_item chunk_id node_id \<Rightarrow>
             if has_query_or_fragment then (db, Inr (error_response serialize 400 ''invalid_request''))
             else if rq_method request \<noteq> Put then (db, Inr (method_not_allowed serialize ''PUT''))
             else handle_put_location parse serialize chunk_id node_id request db)"

subsection \<open>The client: upload sessions\<close>

definition upload_session_state_strict :: "string \<Rightarrow> upload_session_state res" where
  "upload_session_state_strict state =
     (if state = ''open'' then Inr SessionOpen else if state = ''committed'' then Inr SessionCommitted
      else if state = ''aborted'' then Inr SessionAborted else Inl Remote_protocol_error)"

definition session_answer_keys :: "string list" where
  "session_answer_keys = create_session_keys @ [''state'', ''finalized_version_id'']"

definition rebuild_session ::
  "string \<Rightarrow> (string \<times> json) list \<Rightarrow> string \<Rightarrow> string \<Rightarrow> string \<Rightarrow> u8 \<Rightarrow> string list \<Rightarrow> string option \<Rightarrow>
   immutable_metadata \<Rightarrow> string option \<Rightarrow> upload_session res" where
  "rebuild_session chunking_strategy chunking_parameters session_id artifact_id state replication_factor
     placement_node_ids parent_version_id immutable_metadata finalized_version_id =
     as_protocol_error
       (rbind (uuid_v7 session_id) (\<lambda>session_id.
        rbind (uuid_v7 artifact_id) (\<lambda>artifact_id.
        rbind (upload_session_state_strict state) (\<lambda>state.
        if chunking_strategy = ''fixed-size''
        then rbind (protocol_value (parse_fixed_size chunking_parameters)) (\<lambda>chunk_size_bytes.
             upload_session_fixed session_id artifact_id replication_factor placement_node_ids FixedSize
               chunk_size_bytes parent_version_id immutable_metadata state finalized_version_id)
        else if chunking_strategy \<noteq> ''fastcdc'' then Inl Remote_protocol_error
        else rbind (protocol_value (parse_fastcdc_parameters_json chunking_parameters)) (\<lambda>fastcdc_parameters.
             upload_session_fastcdc session_id artifact_id replication_factor placement_node_ids
               fastcdc_parameters parent_version_id immutable_metadata state finalized_version_id)))))"

definition parse_session_object :: "(string \<times> json) list \<Rightarrow> upload_session res" where
  "parse_session_object object =
     (if \<not> json_object_has_exact_keys object session_answer_keys then Inl Remote_protocol_error
      else
        rbind (protocol_value (string_field object ''session_id'')) (\<lambda>session_id.
        rbind (protocol_value (string_field object ''artifact_id'')) (\<lambda>artifact_id.
        rbind (protocol_value (string_field object ''target_node_id'')) (\<lambda>target_node_id.
        rbind (protocol_value (array_field object ''placement_node_ids'')) (\<lambda>placement.
        rbind (protocol_value (string_field object ''chunking_strategy'')) (\<lambda>chunking_strategy.
        rbind (protocol_value (object_field object ''chunking_parameters'')) (\<lambda>chunking_parameters.
        rbind (protocol_value (object_field object ''immutable_metadata'')) (\<lambda>metadata_entries.
        rbind (protocol_value (string_field object ''state'')) (\<lambda>state.
        rbind (protocol_value (replication_factor_field object)) (\<lambda>replication_factor.
        rbind (protocol_value (string_list placement)) (\<lambda>placement_node_ids.
        rbind (protocol_value (nullable_string object ''parent_version_id'')) (\<lambda>parent_version_id.
        rbind (protocol_value (nullable_string object ''finalized_version_id'')) (\<lambda>finalized_version_id.
        rbind (protocol_value (metadata_of_json metadata_entries [])) (\<lambda>immutable_metadata.
        rebuild_session chunking_strategy chunking_parameters session_id artifact_id state replication_factor
          placement_node_ids parent_version_id immutable_metadata finalized_version_id))))))))))))))"

definition parse_upload_session_json :: "(string \<Rightarrow> json option) \<Rightarrow> string \<Rightarrow> upload_session res" where
  "parse_upload_session_json parse body = rbind (parse_json_object parse body) parse_session_object"

definition create_session_request :: "upload_session \<Rightarrow> json res" where
  "create_session_request session =
     rbind (session_parameters_to_json session) (\<lambda>parameters.
     Inr (Json_object (session_fields session parameters @
       [(''parent_version_id'', optional_string_json (us_parent_version_id session))])))"

definition session_target :: "string \<Rightarrow> string \<Rightarrow> string" where
  "session_target session_id suffix = ''/v1/upload-sessions/'' @ session_id @ suffix"

definition create_upload_session_on :: "'s metadata_client \<Rightarrow> upload_session \<Rightarrow> ('s, upload_session) step" where
  "create_upload_session_on client session =
     (if us_state session \<noteq> SessionOpen \<or> us_finalized_version_id session \<noteq> None then step_of (Inl Invalid_argument)
      else step_bind (step_of (create_session_request session)) (\<lambda>body.
           step_bind (post_json client kUploadSessionsCollection body) (\<lambda>response.
           step_of (expect_status 200 response (parse_upload_session_json (mc_parse client) (rs_body response))))))"

definition get_upload_session_from :: "'s metadata_client \<Rightarrow> string \<Rightarrow> ('s, upload_session option) step" where
  "get_upload_session_from client session_id =
     step_bind (metadata_request client Get (session_target session_id []) [] None) (\<lambda>response.
     step_of (if rs_status response = 200
              then rbind (parse_upload_session_json (mc_parse client) (rs_body response)) (\<lambda>session. Inr (Some session))
              else if rs_status response = 404 \<and>
                      extract_error_code (mc_parse client) (rs_body response) = ''upload_session_not_found''
              then Inr None else Inl Remote_api_error))"

definition abort_upload_session_on :: "'s metadata_client \<Rightarrow> string \<Rightarrow> ('s, upload_session) step" where
  "abort_upload_session_on client session_id =
     step_bind (metadata_request client Post (session_target session_id kAbortSuffix) [] None) (\<lambda>response.
     step_of (expect_status 200 response (parse_upload_session_json (mc_parse client) (rs_body response))))"

definition finalize_request :: "object_layout_descriptor \<Rightarrow> json res" where
  "finalize_request descriptor =
     rbind (layout_parameters_to_json descriptor) (\<lambda>parameters.
     Inr (Json_object
       [(''object_id'', Json_string (obj_object_id (ld_object descriptor))),
        (''total_size_bytes'', Json_uint64 (obj_total_size (ld_object descriptor))),
        (''chunking_strategy'', Json_string (chunking_strategy_to_string (ld_chunking_strategy descriptor))),
        (''chunking_parameters'', parameters),
        (''chunks'', Json_array (map chunk_ref_to_json (ol_chunks (ld_layout descriptor))))]))"

definition parse_finalize_answer ::
  "string \<Rightarrow> object_layout_descriptor \<Rightarrow> (string \<times> json) list \<Rightarrow> finalize_upload_result res" where
  "parse_finalize_answer session_id descriptor object =
     (if \<not> json_object_has_exact_keys object [''session_id'', ''version_id'', ''object_id'', ''layout_id'', ''state'']
      then Inl Remote_protocol_error
      else case (string_field object ''session_id'', string_field object ''version_id'', string_field object ''object_id'',
                 string_field object ''layout_id'', string_field object ''state'') of
             (Some response_session_id, Some version_id, Some object_id, Some layout_id, Some state) \<Rightarrow>
               if \<not> is_uuid response_session_id then Inl Remote_protocol_error
               else if response_session_id \<noteq> session_id then Inl Remote_protocol_error
               else if \<not> is_valid_chunk_id version_id \<or> \<not> is_valid_chunk_id object_id \<or> \<not> is_valid_chunk_id layout_id
               then Inl Remote_protocol_error
               else if object_id \<noteq> obj_object_id (ld_object descriptor) then Inl Remote_protocol_error
               else if layout_id \<noteq> ld_layout_id descriptor then Inl Remote_protocol_error
               else if state \<noteq> ''committed'' then Inl Remote_protocol_error
               else Inr \<lparr>fr_session_id = response_session_id, fr_version_id = version_id, fr_object_id = object_id,
                         fr_layout_id = layout_id\<rparr>
           | _ \<Rightarrow> Inl Remote_protocol_error)"

definition finalize_upload_on ::
  "'s metadata_client \<Rightarrow> string \<Rightarrow> object_layout_descriptor \<Rightarrow> ('s, finalize_upload_result) step" where
  "finalize_upload_on client session_id descriptor =
     step_bind (step_of (finalize_request descriptor)) (\<lambda>body.
     step_bind (post_json client (session_target session_id kFinalizeSuffix) body) (\<lambda>response.
     step_of (expect_status 200 response
       (rbind (parse_json_object (mc_parse client) (rs_body response)) (parse_finalize_answer session_id descriptor)))))"

subsection \<open>The client: negotiation and locations\<close>

datatype chunk_availability = Available_on_target | Available_elsewhere | No_available_location

definition chunk_availability_from_string :: "string \<Rightarrow> chunk_availability res" where
  "chunk_availability_from_string availability =
     (if availability = ''available_on_target'' then Inr Available_on_target
      else if availability = ''available_elsewhere'' then Inr Available_elsewhere
      else if availability = ''no_available_location'' then Inr No_available_location
      else Inl Remote_protocol_error)"

record negotiated_chunk =
  ng_chunk :: chunk_metadata
  ng_metadata_was_known :: bool
  ng_availability :: chunk_availability
  ng_available_node_ids :: "string list"

record chunk_negotiation_result =
  cnr_session_id :: string
  cnr_target_node_id :: string
  cnr_chunks :: "negotiated_chunk list"

definition check_negotiated_chunk :: "chunk_metadata \<Rightarrow> (string \<times> u64) list \<Rightarrow> (string \<times> u64) list res" where
  "check_negotiated_chunk chunk seen_sizes =
     (if \<not> is_valid_chunk_id (cm_chunk_id chunk) then Inl Invalid_argument
      else if cm_size_bytes chunk = 0 \<or> kPostgresBigintMax < cm_size_bytes chunk then Inl Invalid_argument
      else case emplace (cm_chunk_id chunk) (cm_size_bytes chunk) seen_sizes of
             (seen_sizes, seen_size, inserted) \<Rightarrow>
               if \<not> inserted \<and> seen_size \<noteq> cm_size_bytes chunk then Inl Invalid_argument else Inr seen_sizes)"

text \<open>The loop over the nodes of an entry: valid identifiers in ascending order.\<close>

fun parse_ascending_nodes :: "json list \<Rightarrow> string list \<Rightarrow> string list res" where
  "parse_ascending_nodes [] nodes = Inr nodes"
| "parse_ascending_nodes (v # vs) nodes =
     (case v of
        Json_string node_id \<Rightarrow>
          if \<not> is_valid_node_id node_id then Inl Remote_protocol_error
          else if nodes \<noteq> [] \<and> node_id \<le> last nodes then Inl Remote_protocol_error
          else parse_ascending_nodes vs (nodes @ [node_id])
      | _ \<Rightarrow> Inl Remote_protocol_error)"

definition parse_negotiated_chunk :: "json \<Rightarrow> negotiated_chunk res" where
  "parse_negotiated_chunk v =
     (case v of
        Json_object entry \<Rightarrow>
          if \<not> json_object_has_exact_keys entry
               [''chunk_id'', ''size_bytes'', ''metadata_was_known'', ''availability'', ''available_node_ids'']
          then Inl Remote_protocol_error
          else (case (string_field entry ''chunk_id'', bool_field entry ''metadata_was_known'',
                      string_field entry ''availability'', array_field entry ''available_node_ids'') of
                  (Some chunk_id, Some metadata_was_known, Some availability, Some node_values) \<Rightarrow>
                    if \<not> is_valid_chunk_id chunk_id then Inl Remote_protocol_error
                    else
                      rbind (protocol_value (positive_field entry ''size_bytes'')) (\<lambda>size_bytes.
                      rbind (parse_ascending_nodes node_values []) (\<lambda>nodes.
                      rbind (chunk_availability_from_string availability) (\<lambda>availability.
                      Inr \<lparr>ng_chunk = \<lparr>cm_chunk_id = chunk_id, cm_size_bytes = size_bytes\<rparr>,
                           ng_metadata_was_known = metadata_was_known, ng_availability = availability,
                           ng_available_node_ids = nodes\<rparr>)))
                | _ \<Rightarrow> Inl Remote_protocol_error)
      | _ \<Rightarrow> Inl Remote_protocol_error)"

definition parse_negotiation_answer :: "string \<Rightarrow> (string \<times> json) list \<Rightarrow> chunk_negotiation_result res" where
  "parse_negotiation_answer session_id object =
     (if \<not> json_object_has_exact_keys object [''session_id'', ''target_node_id'', ''chunks''] then Inl Remote_protocol_error
      else case (string_field object ''session_id'', string_field object ''target_node_id'', array_field object ''chunks'') of
             (Some response_session_id, Some target_node_id, Some entries) \<Rightarrow>
               if \<not> is_uuid response_session_id then Inl Remote_protocol_error
               else if response_session_id \<noteq> session_id then Inl Remote_protocol_error
               else if \<not> is_valid_node_id target_node_id then Inl Remote_protocol_error
               else rbind (map_res parse_negotiated_chunk entries) (\<lambda>negotiated_chunks.
                    Inr \<lparr>cnr_session_id = response_session_id, cnr_target_node_id = target_node_id,
                         cnr_chunks = negotiated_chunks\<rparr>)
           | _ \<Rightarrow> Inl Remote_protocol_error)"

definition chunk_metadata_to_json :: "chunk_metadata \<Rightarrow> json" where
  "chunk_metadata_to_json chunk =
     Json_object [(''chunk_id'', Json_string (cm_chunk_id chunk)), (''size_bytes'', Json_uint64 (cm_size_bytes chunk))]"

definition negotiate_chunks_on ::
  "'s metadata_client \<Rightarrow> string \<Rightarrow> chunk_metadata list \<Rightarrow> ('s, chunk_negotiation_result) step" where
  "negotiate_chunks_on client session_id requested =
     (if requested = [] \<or> kMaxNegotiationChunks < length requested then step_of (Inl Invalid_argument)
      else
        step_bind (step_of (fold_res check_negotiated_chunk requested [])) (\<lambda>_.
        step_bind (post_json client kNegotiatePath
            (Json_object [(''session_id'', Json_string session_id),
               (''chunks'', Json_array (map chunk_metadata_to_json requested))])) (\<lambda>response.
        step_of (expect_status 200 response
          (rbind (parse_json_object (mc_parse client) (rs_body response)) (parse_negotiation_answer session_id))))))"

definition location_target :: "string \<Rightarrow> string \<Rightarrow> string" where
  "location_target chunk_id node_id = ''/v1/chunks/'' @ chunk_id @ ''/locations/'' @ node_id"

definition register_storage_location_on :: "'s metadata_client \<Rightarrow> location_row \<Rightarrow> ('s, unit) step" where
  "register_storage_location_on client location =
     (if \<not> is_valid_chunk_id (sl_chunk_id location) then step_of (Inl Invalid_argument)
      else if \<not> is_valid_node_id (sl_node_id location) then step_of (Inl Invalid_argument)
      else if sl_storage_path location = [] then step_of (Inl Invalid_argument)
      else step_bind (metadata_request client Put (location_target (sl_chunk_id location) (sl_node_id location))
             (mc_serialize client (Json_object [(''storage_path'', Json_string (sl_storage_path location)),
                (''state'', Json_string (storage_location_state_to_string (sl_state location)))]))
             (Some ''application/json'')) (\<lambda>response.
           step_of (expect_status 204 response (Inr ()))))"

end
