(* ===== verification/Metadata_Lifecycle.thy ===== *)
theory Metadata_Lifecycle
  imports Metadata_Uploads
begin

section \<open>Lifecycle policies, pins and runs over the wire\<close>

text \<open>
  The routes of \<open>src/service/metadata_service_m9_routes.cpp\<close> and the operations of \<open>MetadataClient\<close> that
  use them. The policy a client registers, the pin it sets and the run it starts are those of the repository,
  with one exception that the last lemmas show: the number of versions to keep is cut to 32 bits before it is
  checked.
\<close>

subsection \<open>JSON forms\<close>

definition lifecycle_rule_to_json :: "lifecycle_rule \<Rightarrow> json" where
  "lifecycle_rule_to_json rule =
     Json_object [(''artifact_kind'', Json_string (artifact_kind_to_string (lr_artifact_kind rule))),
       (''keep_last_n'', Json_uint64 (ucast (lr_keep_last_n rule))),
       (''max_age_seconds'', case lr_max_age_seconds rule of None \<Rightarrow> Json_null | Some age \<Rightarrow> Json_uint64 age)]"

text \<open>The service and the client throw different exceptions for a missing rule.\<close>

definition policy_to_json :: "exn \<Rightarrow> lifecycle_policy \<Rightarrow> json res" where
  "policy_to_json missing policy =
     rbind (map_res (\<lambda>kind. case map_of (lp_rules policy) kind of
               None \<Rightarrow> Inl missing | Some rule \<Rightarrow> Inr (lifecycle_rule_to_json rule)) kAllArtifactKinds) (\<lambda>rules.
     Inr (Json_object [(''policy_id'', Json_string (lp_policy_id policy)), (''name'', Json_string (lp_name policy)),
       (''rules'', Json_array rules)]))"

definition lifecycle_policy_to_json :: "lifecycle_policy \<Rightarrow> json res" where
  "lifecycle_policy_to_json policy = policy_to_json Logic_error policy"

definition lifecycle_run_to_json :: "lifecycle_run \<Rightarrow> json" where
  "lifecycle_run_to_json run =
     (let stats = lcr_stats run
      in Json_object
        [(''run_id'', Json_string (lcr_run_id run)), (''policy_id'', Json_string (lcr_policy_id run)),
         (''mode'', Json_string (lifecycle_run_mode_to_string (lcr_mode run))),
         (''evaluated_at_unix_ms'', Json_int64 (word_of_int (lcr_evaluated_at_unix_ms run))),
         (''versions_scanned'', Json_uint64 (versions_scanned stats)),
         (''versions_protected'', Json_uint64 (versions_protected stats)),
         (''versions_retained_by_policy'', Json_uint64 (versions_retained_by_policy stats)),
         (''versions_candidates'', Json_uint64 (versions_candidates stats)),
         (''versions_retired'', Json_uint64 (versions_retired stats)),
         (''logical_bytes_candidates'', Json_uint64 (logical_bytes_candidates stats)),
         (''logical_bytes_retired'', Json_uint64 (logical_bytes_retired stats))])"

definition lifecycle_decision_to_json :: "lifecycle_decision \<Rightarrow> json" where
  "lifecycle_decision_to_json decision =
     Json_object [(''version_id'', Json_string (ld_version_id decision)),
       (''artifact_id'', Json_string (ld_artifact_id decision)),
       (''artifact_kind'', Json_string (artifact_kind_to_string (ld_artifact_kind decision))),
       (''decision'', Json_string (if ld_retire decision then ''retire'' else ''retain'')),
       (''reason'', Json_string (lifecycle_decision_reason_to_string (ld_reason decision))),
       (''logical_size_bytes'', Json_uint64 (ld_logical_size_bytes decision))]"

definition kDefaultLifecycleDecisionPageLimit :: nat where
  "kDefaultLifecycleDecisionPageLimit = 128"

text \<open>The loop over the pairs of the query is that of the storage node's inventory.\<close>

definition parse_lifecycle_decisions_query :: "string \<Rightarrow> chunk_list_query option" where
  "parse_lifecycle_decisions_query query =
     parse_query_pairs query \<lparr>clq_after = None, clq_limit = kDefaultLifecycleDecisionPageLimit\<rparr>"

text \<open>A number or null: \<open>None\<close> when it is neither.\<close>

definition nullable_bigint :: "(string \<times> json) list \<Rightarrow> string \<Rightarrow> u64 option option" where
  "nullable_bigint object key =
     (case map_of object key of
        None \<Rightarrow> None
      | Some Json_null \<Rightarrow> Some None
      | Some v \<Rightarrow> map_option Some (extract_bigint v))"

text \<open>\<open>static_cast<std::uint32_t>\<close> keeps the lower half of the number.\<close>

definition parse_lifecycle_rule_json :: "(string \<times> json) list \<Rightarrow> lifecycle_rule option" where
  "parse_lifecycle_rule_json object =
     (if \<not> json_object_has_exact_keys object [''artifact_kind'', ''keep_last_n'', ''max_age_seconds''] then None
      else case (string_field object ''artifact_kind'', bigint_field object ''keep_last_n'',
                 nullable_bigint object ''max_age_seconds'') of
             (Some artifact_kind, Some keep_last_n, Some max_age_seconds) \<Rightarrow>
               (case artifact_kind_from_string artifact_kind of
                  Inl e \<Rightarrow> None
                | Inr kind \<Rightarrow> Some \<lparr>lr_artifact_kind = kind, lr_keep_last_n = ucast keep_last_n,
                                   lr_max_age_seconds = max_age_seconds\<rparr>)
           | _ \<Rightarrow> None)"

fun parse_rules :: "json list \<Rightarrow> (artifact_kind \<times> lifecycle_rule) list \<Rightarrow> (artifact_kind \<times> lifecycle_rule) list option" where
  "parse_rules [] rules = Some rules"
| "parse_rules (v # vs) rules =
     (case v of
        Json_object entry \<Rightarrow>
          (case parse_lifecycle_rule_json entry of
             None \<Rightarrow> None
           | Some rule \<Rightarrow>
               if map_of rules (lr_artifact_kind rule) \<noteq> None then None
               else parse_rules vs (rules @ [(lr_artifact_kind rule, rule)]))
      | _ \<Rightarrow> None)"

text \<open>The order of a \<open>std::map\<close>.\<close>

definition in_kind_order :: "(artifact_kind \<times> lifecycle_rule) list \<Rightarrow> (artifact_kind \<times> lifecycle_rule) list" where
  "in_kind_order rules = List.map_filter (\<lambda>kind. map_option (Pair kind) (map_of rules kind)) kAllArtifactKinds"

definition parse_lifecycle_policy_json :: "(string \<times> json) list \<Rightarrow> lifecycle_policy option" where
  "parse_lifecycle_policy_json body =
     (if \<not> json_object_has_exact_keys body [''policy_id'', ''name'', ''rules''] then None
      else case (string_field body ''policy_id'', string_field body ''name'', array_field body ''rules'') of
             (Some policy_id, Some policy_name, Some rules_json) \<Rightarrow>
               if length rules_json \<noteq> kExpectedRuleCount then None
               else (case parse_rules rules_json [] of
                       None \<Rightarrow> None
                     | Some rules \<Rightarrow>
                         if \<not> is_uuid policy_id then None
                         else Some \<lparr>lp_policy_id = policy_id, lp_name = policy_name, lp_rules = in_kind_order rules\<rparr>)
           | _ \<Rightarrow> None)"

subsection \<open>The service\<close>

fun lifecycle_error_answer :: "lifecycle_error_kind \<Rightarrow> nat \<times> string" where
  "lifecycle_error_answer InvalidRequest = (400, ''invalid_request'')"
| "lifecycle_error_answer PolicyNotFound = (404, ''lifecycle_policy_not_found'')"
| "lifecycle_error_answer LifecycleRunNotFound = (404, ''lifecycle_run_not_found'')"
| "lifecycle_error_answer LifecycleVersionNotFound = (404, ''artifact_version_not_found'')"
| "lifecycle_error_answer LifecycleVersionRetired = (410, ''artifact_version_retired'')"
| "lifecycle_error_answer LifecycleRunConflict = (409, ''lifecycle_run_conflict'')"
| "lifecycle_error_answer BlockedByOpenUploadSessions = (409, ''lifecycle_blocked_by_open_upload_sessions'')"
| "lifecycle_error_answer BlockedByGc = (409, ''lifecycle_blocked_by_gc'')"
| "lifecycle_error_answer BlockedByReplication = (409, ''lifecycle_blocked_by_replication'')"
| "lifecycle_error_answer InvalidArtifactKind = (409, ''invalid_artifact_kind'')"
| "lifecycle_error_answer PolicyConflict = (409, ''invalid_request'')"

definition map_lifecycle_error :: "(json \<Rightarrow> string) \<Rightarrow> exn \<Rightarrow> http_response option" where
  "map_lifecycle_error serialize e =
     (case e of
        Lifecycle_error kind \<Rightarrow>
          Some (error_response serialize (fst (lifecycle_error_answer kind)) (snd (lifecycle_error_answer kind)))
      | _ \<Rightarrow> None)"

definition catch_lifecycle_or_invalid :: "(json \<Rightarrow> string) \<Rightarrow> exn \<Rightarrow> http_response option" where
  "catch_lifecycle_or_invalid serialize e =
     (if e = Invalid_argument then Some (error_response serialize 400 ''invalid_request'')
      else map_lifecycle_error serialize e)"

text \<open>The registration is committed before the policy is loaded again.\<close>

definition handle_register_lifecycle_policy ::
  "(string \<Rightarrow> json option) \<Rightarrow> (json \<Rightarrow> string) \<Rightarrow> http_request \<Rightarrow> database \<Rightarrow> database \<times> http_response res" where
  "handle_register_lifecycle_policy parse serialize request db =
     with_json_object parse serialize request db (\<lambda>body.
     case parse_lifecycle_policy_json body of
       None \<Rightarrow> (db, Inr (error_response serialize 400 ''invalid_request''))
     | Some policy \<Rightarrow>
         (case register_lifecycle_policy db policy of
            Inl e \<Rightarrow> transact db (Inl e) id (map_lifecycle_error serialize)
          | Inr db \<Rightarrow>
              query_db db (rbind (get_lifecycle_policy db (lp_policy_id policy)) (\<lambda>loaded.
                  case loaded of None \<Rightarrow> Inl Runtime_error | Some policy \<Rightarrow> lifecycle_policy_to_json policy))
                (make_json_response serialize 200) (map_lifecycle_error serialize)))"

definition handle_get_lifecycle_policy :: "(json \<Rightarrow> string) \<Rightarrow> string \<Rightarrow> database \<Rightarrow> database \<times> http_response res" where
  "handle_get_lifecycle_policy serialize policy_id db =
     query_db db (rbind (uuid_v7 policy_id) (\<lambda>policy_id.
         rbind (get_lifecycle_policy db policy_id) (\<lambda>policy.
         case policy of
           None \<Rightarrow> Inr (error_response serialize 404 ''lifecycle_policy_not_found'')
         | Some p \<Rightarrow> rbind (lifecycle_policy_to_json p) (\<lambda>v. Inr (make_json_response serialize 200 v)))))
       id (\<lambda>_. None)"

definition unpinned_json :: "string \<Rightarrow> json" where
  "unpinned_json version_id = Json_object [(''version_id'', Json_string version_id), (''pinned'', Json_bool False)]"

definition pinned_json :: "string \<Rightarrow> string \<Rightarrow> json" where
  "pinned_json version_id reason =
     Json_object [(''version_id'', Json_string version_id), (''pinned'', Json_bool True),
       (''reason'', Json_string reason)]"

definition handle_put_version_pin ::
  "hash \<Rightarrow> (string \<Rightarrow> json option) \<Rightarrow> (json \<Rightarrow> string) \<Rightarrow> string \<Rightarrow> http_request \<Rightarrow> database \<Rightarrow>
   database \<times> http_response res" where
  "handle_put_version_pin H parse serialize version_id request db =
     with_json_object parse serialize request db (\<lambda>body.
     case (if json_object_has_exact_keys body [''reason''] then string_field body ''reason'' else None) of
       None \<Rightarrow> (db, Inr (error_response serialize 400 ''invalid_request''))
     | Some reason \<Rightarrow>
         transact db (rbind (pin_version H db version_id reason) (\<lambda>db. Inr (db, ())))
           (\<lambda>_. make_json_response serialize 200 (pinned_json version_id reason))
           (catch_lifecycle_or_invalid serialize))"

text \<open>Both pin handlers look the version up first; a missing version leaves the database alone.\<close>

definition handle_delete_version_pin ::
  "hash \<Rightarrow> (json \<Rightarrow> string) \<Rightarrow> string \<Rightarrow> database \<Rightarrow> database \<times> http_response res" where
  "handle_delete_version_pin H serialize version_id db =
     transact db
       (rbind (get_version H db version_id) (\<lambda>version.
        case version of
          None \<Rightarrow> Inr (db, error_response serialize 404 ''artifact_version_not_found'')
        | Some _ \<Rightarrow> rbind (unpin_version db version_id) (\<lambda>(db, removed).
                     Inr (db, make_json_response serialize 200 (unpinned_json version_id)))))
       id (catch_invalid serialize)"

definition handle_get_version_pin ::
  "hash \<Rightarrow> (json \<Rightarrow> string) \<Rightarrow> string \<Rightarrow> database \<Rightarrow> database \<times> http_response res" where
  "handle_get_version_pin H serialize version_id db =
     query_db db
       (rbind (get_version H db version_id) (\<lambda>version.
        case version of
          None \<Rightarrow> Inr (error_response serialize 404 ''artifact_version_not_found'')
        | Some _ \<Rightarrow> rbind (get_version_pin db version_id) (\<lambda>reason.
                     Inr (make_json_response serialize 200
                       (case reason of None \<Rightarrow> unpinned_json version_id | Some r \<Rightarrow> pinned_json version_id r)))))
       id (catch_invalid serialize)"

definition handle_run_lifecycle ::
  "(string \<Rightarrow> json option) \<Rightarrow> (json \<Rightarrow> string) \<Rightarrow> int \<Rightarrow> http_request \<Rightarrow> database \<Rightarrow> database \<times> http_response res" where
  "handle_run_lifecycle parse serialize now request db =
     with_json_object parse serialize request db (\<lambda>body.
     case (if json_object_has_exact_keys body [''run_id'', ''policy_id'', ''mode'']
           then (string_field body ''run_id'', string_field body ''policy_id'', string_field body ''mode'')
           else (None, None, None)) of
       (Some run_id, Some policy_id, Some mode_text) \<Rightarrow>
         (case lifecycle_run_mode_from_string mode_text of
            Inl e \<Rightarrow> (db, Inr (error_response serialize 400 ''invalid_request''))
          | Inr mode \<Rightarrow>
              transact db
                (rbind (uuid_v7 run_id) (\<lambda>run_id. rbind (uuid_v7 policy_id) (\<lambda>policy_id.
                 run_lifecycle db now run_id policy_id mode)))
                (\<lambda>run. make_json_response serialize 200 (lifecycle_run_to_json run))
                (catch_lifecycle_or_invalid serialize))
     | _ \<Rightarrow> (db, Inr (error_response serialize 400 ''invalid_request'')))"

definition handle_get_lifecycle_run :: "(json \<Rightarrow> string) \<Rightarrow> string \<Rightarrow> database \<Rightarrow> database \<times> http_response res" where
  "handle_get_lifecycle_run serialize run_id db =
     query_db db (rbind (uuid_v7 run_id) (get_lifecycle_run db))
       (\<lambda>run. case run of
          None \<Rightarrow> error_response serialize 404 ''lifecycle_run_not_found''
        | Some r \<Rightarrow> make_json_response serialize 200 (lifecycle_run_to_json r))
       (\<lambda>_. None)"

definition decision_page_json :: "nat \<Rightarrow> lifecycle_decision list \<Rightarrow> json" where
  "decision_page_json limit decisions =
     Json_object [(''decisions'', Json_array (map lifecycle_decision_to_json decisions)),
       (''next_after'', if length decisions = limit then Json_string (ld_version_id (last decisions)) else Json_null)]"

definition handle_list_lifecycle_decisions ::
  "(json \<Rightarrow> string) \<Rightarrow> string \<Rightarrow> string \<Rightarrow> database \<Rightarrow> database \<times> http_response res" where
  "handle_list_lifecycle_decisions serialize run_id query db =
     (case parse_lifecycle_decisions_query query of
        None \<Rightarrow> (db, Inr (error_response serialize 400 ''invalid_request''))
      | Some parsed \<Rightarrow>
          (case uuid_v7 run_id of
             Inl e \<Rightarrow> (db, Inl e)
           | Inr run_id \<Rightarrow>
               query_db db (list_lifecycle_decisions db run_id (clq_after parsed) (clq_limit parsed))
                 (\<lambda>decisions. make_json_response serialize 200 (decision_page_json (clq_limit parsed) decisions))
                 (catch_lifecycle_or_invalid serialize)))"

subsection \<open>Routes\<close>

definition kLifecyclePoliciesCollection :: string where
  "kLifecyclePoliciesCollection = ''/v1/lifecycle-policies''"

definition kLifecyclePoliciesPrefix :: string where
  "kLifecyclePoliciesPrefix = ''/v1/lifecycle-policies/''"

definition kLifecycleRunsCollection :: string where
  "kLifecycleRunsCollection = ''/v1/lifecycle-runs''"

definition kLifecycleRunsPrefix :: string where
  "kLifecycleRunsPrefix = ''/v1/lifecycle-runs/''"

definition kPinSuffix :: string where
  "kPinSuffix = ''/pin''"

definition kDecisionsSuffix :: string where
  "kDecisionsSuffix = ''/decisions''"

text \<open>Whether the first of \<open>?\<close> and \<open>#\<close> in the target is a \<open>#\<close>.\<close>

definition fragment_first :: "string \<Rightarrow> bool" where
  "fragment_first target \<longleftrightarrow>
     (let path = fst (split_path_and_query target)
      in path \<noteq> target \<and> target ! length path \<noteq> CHR ''?'')"

text \<open>A route whose target may have a query, for the methods it knows.\<close>

definition with_methods ::
  "(json \<Rightarrow> string) \<Rightarrow> http_request \<Rightarrow> database \<Rightarrow> (verb \<times> (database \<times> http_response res)) list \<Rightarrow> string \<Rightarrow>
   database \<times> http_response res" where
  "with_methods serialize request db handlers allowed =
     (if fragment_first (rq_target request) then (db, Inr (error_response serialize 400 ''invalid_request''))
      else case map_of handlers (rq_method request) of
             Some answer \<Rightarrow> answer
           | None \<Rightarrow> (db, Inr (method_not_allowed serialize allowed)))"

definition with_uuid ::
  "(json \<Rightarrow> string) \<Rightarrow> string \<Rightarrow> database \<Rightarrow> (database \<times> http_response res) \<Rightarrow> database \<times> http_response res" where
  "with_uuid serialize id_text db answer =
     (if \<not> is_uuid id_text then (db, Inr (error_response serialize 400 ''invalid_request'')) else answer)"

text \<open>
  What stands between the prefix and the suffix of a pin's path. For a path that is too short to hold both, the
  difference of the sizes wraps and \<open>substr\<close> takes everything after the prefix.
\<close>

definition pin_path_version :: "string \<Rightarrow> string" where
  "pin_path_version path =
     (let after_prefix = drop (length kArtifactVersionsPrefix) path
      in if length path < length kArtifactVersionsPrefix + length kPinSuffix then after_prefix
         else take (length after_prefix - length kPinSuffix) after_prefix)"

definition ends_with :: "string \<Rightarrow> string \<Rightarrow> bool" where
  "ends_with s suffix \<longleftrightarrow> length suffix \<le> length s \<and> drop (length s - length suffix) s = suffix"

text \<open>\<open>try_handle_m9_routes\<close>: \<open>None\<close> passes the request on.\<close>

definition try_handle_m9_routes ::
  "hash \<Rightarrow> (string \<Rightarrow> json option) \<Rightarrow> (json \<Rightarrow> string) \<Rightarrow> int \<Rightarrow> http_request \<Rightarrow> database \<Rightarrow>
   (database \<times> http_response res) option" where
  "try_handle_m9_routes H parse serialize now request db =
     (let path = fst (split_path_and_query (rq_target request)); query = query_of (rq_target request)
      in if path = kLifecyclePoliciesCollection then
           Some (with_methods serialize request db
             [(Post, handle_register_lifecycle_policy parse serialize request db)] ''POST'')
         else if starts_with path kLifecyclePoliciesPrefix then
           (let policy_id = drop (length kLifecyclePoliciesPrefix) path
            in if policy_id = [] \<or> CHR ''/'' \<in> set policy_id then None
               else Some (with_methods serialize request db
                 [(Get, with_uuid serialize policy_id db (handle_get_lifecycle_policy serialize policy_id db))] ''GET''))
         else if path = kLifecycleRunsCollection then
           Some (with_methods serialize request db [(Post, handle_run_lifecycle parse serialize now request db)] ''POST'')
         else if starts_with path kLifecycleRunsPrefix then
           (let remainder = drop (length kLifecycleRunsPrefix) path;
                run_id = takeWhile (\<lambda>c. c \<noteq> CHR ''/'') remainder;
                subroute = drop (length run_id) remainder
            in if subroute = [] then
                 Some (with_methods serialize request db
                   [(Get, with_uuid serialize run_id db (handle_get_lifecycle_run serialize run_id db))] ''GET'')
               else if subroute = kDecisionsSuffix then
                 Some (with_methods serialize request db
                   [(Get, with_uuid serialize run_id db (handle_list_lifecycle_decisions serialize run_id query db))] ''GET'')
               else None)
         else if starts_with path kArtifactVersionsPrefix \<and> ends_with path kPinSuffix then
           (let version_id = pin_path_version path
            in if version_id = [] \<or> CHR ''/'' \<in> set version_id then None
               else if \<not> fragment_first (rq_target request) \<and> \<not> is_valid_chunk_id version_id
               then Some (db, Inr (error_response serialize 400 ''invalid_version_id''))
               else Some (with_methods serialize request db
                 [(Put, handle_put_version_pin H parse serialize version_id request db),
                  (Delete, handle_delete_version_pin H serialize version_id db),
                  (Get, handle_get_version_pin H serialize version_id db)] ''GET, PUT, DELETE''))
         else None)"

subsection \<open>The client\<close>

definition extract_signed_int64 :: "json \<Rightarrow> int option" where
  "extract_signed_int64 v =
     (case v of
        Json_int64 n \<Rightarrow> Some (sint n)
      | Json_uint64 n \<Rightarrow> if 0x7FFFFFFFFFFFFFFF < n then None else Some (sint n)
      | _ \<Rightarrow> None)"

definition parse_lifecycle_policy_object :: "(string \<times> json) list \<Rightarrow> lifecycle_policy res" where
  "parse_lifecycle_policy_object object =
     rbind (protocol_value (parse_lifecycle_policy_json object)) (\<lambda>policy.
     if \<exists>kind \<in> set kAllArtifactKinds. map_of (lp_rules policy) kind = None then Inl Remote_protocol_error
     else Inr policy)"

definition parse_lifecycle_policy_body :: "(string \<Rightarrow> json option) \<Rightarrow> string \<Rightarrow> lifecycle_policy res" where
  "parse_lifecycle_policy_body parse body = rbind (parse_json_object parse body) parse_lifecycle_policy_object"

definition lifecycle_run_keys :: "string list" where
  "lifecycle_run_keys =
     [''run_id'', ''policy_id'', ''mode'', ''evaluated_at_unix_ms'', ''versions_scanned'', ''versions_protected'',
      ''versions_retained_by_policy'', ''versions_candidates'', ''versions_retired'', ''logical_bytes_candidates'',
      ''logical_bytes_retired'']"

definition parse_lifecycle_stats :: "(string \<times> json) list \<Rightarrow> lifecycle_stats option" where
  "parse_lifecycle_stats object =
     (case (bigint_field object ''versions_scanned'', bigint_field object ''versions_protected'',
            bigint_field object ''versions_retained_by_policy'', bigint_field object ''versions_candidates'',
            bigint_field object ''versions_retired'', bigint_field object ''logical_bytes_candidates'',
            bigint_field object ''logical_bytes_retired'') of
        (Some scanned, Some protected, Some retained, Some candidates, Some retired, Some bytes_candidates,
         Some bytes_retired) \<Rightarrow>
          Some \<lparr>versions_scanned = scanned, versions_protected = protected, versions_retained_by_policy = retained,
                versions_candidates = candidates, versions_retired = retired,
                logical_bytes_candidates = bytes_candidates, logical_bytes_retired = bytes_retired\<rparr>
      | _ \<Rightarrow> None)"

definition parse_lifecycle_run_json :: "(string \<times> json) list \<Rightarrow> lifecycle_run res" where
  "parse_lifecycle_run_json object =
     (if \<not> json_object_has_exact_keys object lifecycle_run_keys then Inl Remote_protocol_error
      else
        rbind (protocol_value (string_field object ''run_id'')) (\<lambda>run_id.
        rbind (protocol_value (string_field object ''policy_id'')) (\<lambda>policy_id.
        rbind (protocol_value (string_field object ''mode'')) (\<lambda>mode.
        rbind (protocol_value (Option.bind (map_of object ''evaluated_at_unix_ms'') extract_signed_int64)) (\<lambda>evaluated_at.
        rbind (protocol_value (parse_lifecycle_stats object)) (\<lambda>stats.
        as_protocol_error
          (rbind (uuid_v7 run_id) (\<lambda>run_id.
           rbind (uuid_v7 policy_id) (\<lambda>policy_id.
           rbind (lifecycle_run_mode_from_string mode) (\<lambda>mode.
           Inr \<lparr>lcr_run_id = run_id, lcr_policy_id = policy_id, lcr_mode = mode,
                lcr_evaluated_at_unix_ms = evaluated_at, lcr_stats = stats\<rparr>))))))))))"

definition parse_lifecycle_run_body :: "(string \<Rightarrow> json option) \<Rightarrow> string \<Rightarrow> lifecycle_run res" where
  "parse_lifecycle_run_body parse body = rbind (parse_json_object parse body) parse_lifecycle_run_json"

definition decision_keys :: "string list" where
  "decision_keys =
     [''version_id'', ''artifact_id'', ''artifact_kind'', ''decision'', ''reason'', ''logical_size_bytes'']"

definition parse_lifecycle_decision_json :: "(string \<times> json) list \<Rightarrow> lifecycle_decision res" where
  "parse_lifecycle_decision_json object =
     (if \<not> json_object_has_exact_keys object decision_keys then Inl Remote_protocol_error
      else
        rbind (protocol_value (string_field object ''version_id'')) (\<lambda>version_id.
        rbind (protocol_value (string_field object ''artifact_id'')) (\<lambda>artifact_id.
        rbind (protocol_value (string_field object ''artifact_kind'')) (\<lambda>artifact_kind.
        rbind (protocol_value (string_field object ''decision'')) (\<lambda>decision.
        rbind (protocol_value (string_field object ''reason'')) (\<lambda>reason.
        if decision \<noteq> ''retain'' \<and> decision \<noteq> ''retire'' then Inl Remote_protocol_error
        else
          rbind (protocol_value (bigint_field object ''logical_size_bytes'')) (\<lambda>logical_size_bytes.
          as_protocol_error
            (rbind (uuid_v7 artifact_id) (\<lambda>artifact_id.
             rbind (artifact_kind_from_string artifact_kind) (\<lambda>artifact_kind.
             rbind (lifecycle_decision_reason_from_string reason) (\<lambda>reason.
             Inr \<lparr>ld_version_id = version_id, ld_artifact_id = artifact_id, ld_artifact_kind = artifact_kind,
                  ld_retire = (decision = ''retire''), ld_reason = reason,
                  ld_logical_size_bytes = logical_size_bytes\<rparr>)))))))))))"

definition policy_target :: "string \<Rightarrow> string" where
  "policy_target policy_id = ''/v1/lifecycle-policies/'' @ policy_id"

definition register_lifecycle_policy_on :: "'s metadata_client \<Rightarrow> lifecycle_policy \<Rightarrow> ('s, lifecycle_policy) step" where
  "register_lifecycle_policy_on client policy =
     step_bind (step_of (validate_lifecycle_policy policy)) (\<lambda>_.
     step_bind (step_of (policy_to_json Invalid_argument policy)) (\<lambda>body.
     step_bind (post_json client kLifecyclePoliciesCollection body) (\<lambda>response.
     step_of (expect_status 200 response
       (rbind (parse_lifecycle_policy_body (mc_parse client) (rs_body response)) (\<lambda>loaded.
        if lp_policy_id loaded \<noteq> lp_policy_id policy \<or> lp_name loaded \<noteq> lp_name policy \<or>
           \<not> rules_equal (lp_rules loaded) (lp_rules policy)
        then Inl Remote_protocol_error else Inr loaded))))))"

definition get_lifecycle_policy_from :: "'s metadata_client \<Rightarrow> string \<Rightarrow> ('s, lifecycle_policy option) step" where
  "get_lifecycle_policy_from client policy_id =
     step_bind (metadata_request client Get (policy_target policy_id) [] None) (\<lambda>response.
     step_of (if rs_status response = 200
              then rbind (parse_lifecycle_policy_body (mc_parse client) (rs_body response)) (\<lambda>policy.
                   if lp_policy_id policy \<noteq> policy_id then Inl Remote_protocol_error else Inr (Some policy))
              else if rs_status response = 404 \<and>
                      extract_error_code (mc_parse client) (rs_body response) = ''lifecycle_policy_not_found''
              then Inr None else Inl Remote_api_error))"

definition pin_target :: "string \<Rightarrow> string" where
  "pin_target version_id = ''/v1/artifact-versions/'' @ version_id @ ''/pin''"

definition pin_version_on :: "'s metadata_client \<Rightarrow> string \<Rightarrow> string \<Rightarrow> ('s, unit) step" where
  "pin_version_on client version_id reason =
     (if \<not> is_valid_chunk_id version_id then step_of (Inl Invalid_argument)
      else step_bind (metadata_request client Put (pin_target version_id)
             (mc_serialize client (Json_object [(''reason'', Json_string reason)])) (Some ''application/json'')) (\<lambda>response.
           step_of (expect_status 200 response
             (rbind (parse_json_object (mc_parse client) (rs_body response)) (\<lambda>object.
              if \<not> json_object_has_exact_keys object [''version_id'', ''pinned'', ''reason''] \<or>
                 string_field object ''version_id'' \<noteq> Some version_id \<or> bool_field object ''pinned'' \<noteq> Some True \<or>
                 string_field object ''reason'' \<noteq> Some reason
              then Inl Remote_protocol_error else Inr ())))))"

definition unpin_version_on :: "'s metadata_client \<Rightarrow> string \<Rightarrow> ('s, unit) step" where
  "unpin_version_on client version_id =
     (if \<not> is_valid_chunk_id version_id then step_of (Inl Invalid_argument)
      else step_bind (metadata_request client Delete (pin_target version_id) [] None) (\<lambda>response.
           step_of (expect_status 200 response
             (rbind (parse_json_object (mc_parse client) (rs_body response)) (\<lambda>object.
              if \<not> json_object_has_exact_keys object [''version_id'', ''pinned''] \<or>
                 string_field object ''version_id'' \<noteq> Some version_id \<or> bool_field object ''pinned'' \<noteq> Some False
              then Inl Remote_protocol_error else Inr ())))))"

record version_pin_status =
  vps_pinned :: bool
  vps_reason :: "string option"

text \<open>Here \<open>at\<close> is called before the keys are checked.\<close>

definition parse_pin_status :: "string \<Rightarrow> (string \<times> json) list \<Rightarrow> version_pin_status res" where
  "parse_pin_status version_id object =
     rbind (json_at object ''version_id'') (\<lambda>response_version.
     case response_version of
       Json_string response_version_id \<Rightarrow>
         rbind (json_at object ''pinned'') (\<lambda>pinned_value.
         case pinned_value of
           Json_bool pinned \<Rightarrow>
             if response_version_id \<noteq> version_id then Inl Remote_protocol_error
             else if \<not> pinned then
               if \<not> json_object_has_exact_keys object [''version_id'', ''pinned''] then Inl Remote_protocol_error
               else Inr \<lparr>vps_pinned = False, vps_reason = None\<rparr>
             else if \<not> json_object_has_exact_keys object [''version_id'', ''pinned'', ''reason'']
             then Inl Remote_protocol_error
             else (case string_field object ''reason'' of
                     None \<Rightarrow> Inl Remote_protocol_error
                   | Some reason \<Rightarrow> Inr \<lparr>vps_pinned = True, vps_reason = Some reason\<rparr>)
         | _ \<Rightarrow> Inl Remote_protocol_error)
     | _ \<Rightarrow> Inl Remote_protocol_error)"

definition get_version_pin_from :: "'s metadata_client \<Rightarrow> string \<Rightarrow> ('s, version_pin_status) step" where
  "get_version_pin_from client version_id =
     (if \<not> is_valid_chunk_id version_id then step_of (Inl Invalid_argument)
      else step_bind (metadata_request client Get (pin_target version_id) [] None) (\<lambda>response.
           step_of (expect_status 200 response
             (rbind (parse_json_object (mc_parse client) (rs_body response)) (parse_pin_status version_id)))))"

definition run_lifecycle_on ::
  "'s metadata_client \<Rightarrow> string \<Rightarrow> string \<Rightarrow> lifecycle_run_mode \<Rightarrow> ('s, lifecycle_run) step" where
  "run_lifecycle_on client run_id policy_id mode =
     step_bind (post_json client kLifecycleRunsCollection
         (Json_object [(''run_id'', Json_string run_id), (''policy_id'', Json_string policy_id),
            (''mode'', Json_string (lifecycle_run_mode_to_string mode))])) (\<lambda>response.
     step_of (expect_status 200 response
       (rbind (parse_lifecycle_run_body (mc_parse client) (rs_body response)) (\<lambda>run.
        if lcr_run_id run \<noteq> run_id \<or> lcr_policy_id run \<noteq> policy_id \<or> lcr_mode run \<noteq> mode
        then Inl Remote_protocol_error else Inr run))))"

definition lifecycle_run_target :: "string \<Rightarrow> string \<Rightarrow> string" where
  "lifecycle_run_target run_id suffix = ''/v1/lifecycle-runs/'' @ run_id @ suffix"

definition get_lifecycle_run_from :: "'s metadata_client \<Rightarrow> string \<Rightarrow> ('s, lifecycle_run option) step" where
  "get_lifecycle_run_from client run_id =
     step_bind (metadata_request client Get (lifecycle_run_target run_id []) [] None) (\<lambda>response.
     step_of (if rs_status response = 200
              then rbind (parse_lifecycle_run_body (mc_parse client) (rs_body response)) (\<lambda>run.
                   if lcr_run_id run \<noteq> run_id then Inl Remote_protocol_error else Inr (Some run))
              else if rs_status response = 404 \<and>
                      extract_error_code (mc_parse client) (rs_body response) = ''lifecycle_run_not_found''
              then Inr None else Inl Remote_api_error))"

record lifecycle_decision_page =
  ldp_decisions :: "lifecycle_decision list"
  ldp_next_after :: "string option"

definition parse_decision_entry :: "json \<Rightarrow> lifecycle_decision res" where
  "parse_decision_entry v =
     (case v of Json_object entry \<Rightarrow> parse_lifecycle_decision_json entry | _ \<Rightarrow> Inl Remote_protocol_error)"

definition parse_decision_page :: "(string \<times> json) list \<Rightarrow> lifecycle_decision_page res" where
  "parse_decision_page object =
     (if \<not> json_object_has_exact_keys object [''decisions'', ''next_after''] then Inl Remote_protocol_error
      else
        rbind (protocol_value (array_field object ''decisions'')) (\<lambda>entries.
        rbind (map_res parse_decision_entry entries) (\<lambda>decisions.
        rbind (protocol_value (nullable_string object ''next_after'')) (\<lambda>next_after.
        Inr \<lparr>ldp_decisions = decisions, ldp_next_after = next_after\<rparr>))))"

definition decisions_target :: "string \<Rightarrow> string option \<Rightarrow> nat \<Rightarrow> string" where
  "decisions_target run_id after limit =
     lifecycle_run_target run_id (''/decisions?limit='' @ nat_to_string limit @
       (case after of None \<Rightarrow> [] | Some c \<Rightarrow> ''&after='' @ c))"

definition list_lifecycle_decisions_from ::
  "'s metadata_client \<Rightarrow> string \<Rightarrow> string option \<Rightarrow> nat \<Rightarrow> ('s, lifecycle_decision_page) step" where
  "list_lifecycle_decisions_from client run_id after limit =
     (if limit < 1 \<or> 256 < limit then step_of (Inl Invalid_argument)
      else if (case after of Some c \<Rightarrow> \<not> is_valid_chunk_id c | None \<Rightarrow> False) then step_of (Inl Invalid_argument)
      else step_bind (metadata_request client Get (decisions_target run_id after limit) [] None) (\<lambda>response.
           step_of (expect_status 200 response
             (rbind (parse_json_object (mc_parse client) (rs_body response)) parse_decision_page))))"

subsection \<open>What is read back\<close>

lemma parse_lifecycle_run_back:
  assumes codec: "json_codec parse serialize"
    and parsed: "parse_lifecycle_run_body parse (serialize (lifecycle_run_to_json run)) = Inr run'"
    and millis: "lcr_evaluated_at_unix_ms run \<in> {- (2 ^ 63) ..< 2 ^ 63}"
  shows "run' = run"
proof -
  obtain kvs where kvs: "lifecycle_run_to_json run = Json_object kvs" by (simp add: lifecycle_run_to_json_def Let_def)
  have "json_plain (Json_object kvs)" unfolding kvs [symmetric] by (simp add: lifecycle_run_to_json_def Let_def)
  note json = parse_serialized [OF codec this]
  have fields: "string_field kvs ''run_id'' = Some (lcr_run_id run)" "string_field kvs ''policy_id'' = Some (lcr_policy_id run)"
    "string_field kvs ''mode'' = Some (lifecycle_run_mode_to_string (lcr_mode run))"
    using kvs by (auto simp: lifecycle_run_to_json_def Let_def string_field_def)
  have at: "map_of kvs ''versions_scanned'' = Some (Json_uint64 (versions_scanned (lcr_stats run)))"
    "map_of kvs ''versions_protected'' = Some (Json_uint64 (versions_protected (lcr_stats run)))"
    "map_of kvs ''versions_retained_by_policy'' = Some (Json_uint64 (versions_retained_by_policy (lcr_stats run)))"
    "map_of kvs ''versions_candidates'' = Some (Json_uint64 (versions_candidates (lcr_stats run)))"
    "map_of kvs ''versions_retired'' = Some (Json_uint64 (versions_retired (lcr_stats run)))"
    "map_of kvs ''logical_bytes_candidates'' = Some (Json_uint64 (logical_bytes_candidates (lcr_stats run)))"
    "map_of kvs ''logical_bytes_retired'' = Some (Json_uint64 (logical_bytes_retired (lcr_stats run)))"
    "map_of kvs ''evaluated_at_unix_ms'' = Some (Json_int64 (word_of_int (lcr_evaluated_at_unix_ms run)))"
    using kvs by (auto simp: lifecycle_run_to_json_def Let_def)
  have "sint (word_of_int (lcr_evaluated_at_unix_ms run) :: u64) = lcr_evaluated_at_unix_ms run"
    using millis by (simp add: signed_of_int signed_take_bit_int_eq_self)
  then have clock: "Option.bind (map_of (reparsed_fields kvs) ''evaluated_at_unix_ms'') extract_signed_int64 =
      Some (lcr_evaluated_at_unix_ms run)"
    by (simp add: map_of_reparsed at(8) extract_signed_int64_def)
  have stats: "stats' = lcr_stats run" if "parse_lifecycle_stats (reparsed_fields kvs) = Some stats'" for stats'
    using that unfolding parse_lifecycle_stats_def at(1-7) [THEN bigint_field_reparsed]
    by (cases "lcr_stats run") (auto split: if_splits)
  from parsed stats show ?thesis
    unfolding parse_lifecycle_run_body_def kvs json rbind_simps parse_lifecycle_run_json_def fields_reparsed fields clock
    by (cases run) (auto simp: rbind_eq_Inr uuid_v7_ok lifecycle_mode.parse_print split: if_splits)
qed

text \<open>
  The number of versions to keep is cut to 32 bits before the policy is validated: a request for 2^32 + k versions,
  which is far above the largest number allowed, registers a policy that keeps k.
\<close>

lemma keep_last_n_is_cut:
  assumes "n \<le> kPostgresBigintMax"
  shows "parse_lifecycle_rule_json [(''artifact_kind'', Json_string ''generic''), (''keep_last_n'', Json_uint64 n),
      (''max_age_seconds'', Json_null)] =
    Some \<lparr>lr_artifact_kind = Generic, lr_keep_last_n = ucast n, lr_max_age_seconds = None\<rparr>"
  using assms
  by (simp add: parse_lifecycle_rule_json_def json_object_has_exact_keys_def string_field_def bigint_field_def
      extract_bigint_def nullable_bigint_def artifact_kind_from_string_def not_less)

lemma oversized_keep_last_n_accepted:
  "parse_lifecycle_rule_json [(''artifact_kind'', Json_string ''generic''), (''keep_last_n'', Json_uint64 4294967296),
      (''max_age_seconds'', Json_null)] =
    Some \<lparr>lr_artifact_kind = Generic, lr_keep_last_n = 0, lr_max_age_seconds = None\<rparr>"
proof -
  have "ucast (4294967296 :: u64) = (0 :: u32)" by code_simp
  then show ?thesis using keep_last_n_is_cut [of 4294967296] by (simp add: kPostgresBigintMax_def)
qed

end
