(* ===== verification/Metadata_Service.thy ===== *)
theory Metadata_Service
  imports Metadata_Lifecycle
begin

section \<open>The metadata service\<close>

text \<open>
  \<open>MetadataService::handle_request\<close> and the two route tables it asks first. The theorem of this theory joins
  the service to the state machine of the repository: whatever a request says, the service leaves the database
  as it is or takes one of the steps of \<open>Repository\<close>, so everything proved of those steps holds of the service.
  The two clocks are those of the database (microseconds) and of the process (milliseconds).
\<close>

subsection \<open>Dispatch\<close>

definition try_handle_m8_routes ::
  "hash \<Rightarrow> (string \<Rightarrow> bool) \<Rightarrow> (string \<Rightarrow> json option) \<Rightarrow> (json \<Rightarrow> string) \<Rightarrow> http_request \<Rightarrow> database \<Rightarrow>
   (database \<times> http_response res) option" where
  "try_handle_m8_routes H is_ip parse serialize request db =
     (let path = fst (split_path_and_query (rq_target request))
      in if path = kStorageNodesCollection \<or> starts_with path kStorageNodesPrefix
         then Some (handle_storage_nodes is_ip parse serialize request db)
         else if path = kReplicationRunsCollection \<or> starts_with path kReplicationRunsPrefix
         then handle_replication_runs H parse serialize request db
         else if starts_with path kArtifactVersionsPrefix then handle_m8_versions H serialize request db
         else None)"

definition metadata_handle_request ::
  "hash \<Rightarrow> (string \<Rightarrow> bool) \<Rightarrow> (string \<Rightarrow> json option) \<Rightarrow> (json \<Rightarrow> string) \<Rightarrow> int \<Rightarrow> int \<Rightarrow> http_request \<Rightarrow> database \<Rightarrow>
   database \<times> http_response res" where
  "metadata_handle_request H is_ip parse serialize timestamp unix_ms request db =
     (if rq_target request = ''/health'' then
        (db, Inr (if rq_method request = Get
                  then make_json_response serialize 200 (Json_object [(''status'', Json_string ''ok'')])
                  else method_not_allowed serialize ''GET''))
      else case try_handle_m8_routes H is_ip parse serialize request db of
             Some answer \<Rightarrow> answer
           | None \<Rightarrow>
      (case try_handle_m9_routes H parse serialize unix_ms request db of
         Some answer \<Rightarrow> answer
       | None \<Rightarrow>
           let path = fst (split_path_and_query (rq_target request))
           in if path = kUploadSessionsCollection \<or> starts_with path kUploadSessionsPrefix
              then handle_upload_sessions H parse serialize timestamp request db
              else if path = kNegotiatePath then
                if path \<noteq> rq_target request then (db, Inr (error_response serialize 400 ''invalid_request''))
                else handle_negotiate_chunks parse serialize request db
              else if starts_with path kArtifactVersionsPrefix then handle_artifact_versions H serialize request db
              else if starts_with path kChunkRoutePrefix then handle_location_routes parse serialize request db
              else if path = kGcRunsCollection \<or> starts_with path kGcRunsPrefix
              then handle_gc_runs parse serialize request db
              else (db, Inr (error_response serialize 404 ''not_found''))))"

subsection \<open>Every request is at most one step\<close>

definition request_step :: "hash \<Rightarrow> (string \<Rightarrow> bool) \<Rightarrow> database \<Rightarrow> database \<Rightarrow> bool" where
  "request_step H is_ip db db' \<longleftrightarrow> db' = db \<or> repo_step H is_ip db db'"

named_theorems handler_steps \<open>handlers that take at most one step\<close>

lemma request_step_simps [simp]:
  "request_step H is_ip db db"
  "repo_step H is_ip db db' \<Longrightarrow> request_step H is_ip db db'"
  by (simp_all add: request_step_def)

lemmas repo_request_steps = repo_step.intros [THEN request_step_simps(2)]

lemma transact_step:
  assumes "\<And>db' x. result = Inr (db', x) \<Longrightarrow> request_step H is_ip db db'"
  shows "request_step H is_ip db (fst (transact db result answer catches))"
  using assms by (auto simp: transact_def split: sum.splits)

lemma query_step: "fst (query_db db result answer catches) = db"
  by (simp add: query_db_def transact_def rbind_def split: sum.splits)

lemma body_step:
  assumes "\<And>body. request_step H is_ip db (fst (handle body))"
  shows "request_step H is_ip db (fst (with_json_object parse serialize request db handle))"
    and "request_step H is_ip db (fst (with_object_body parse serialize request db handle))"
  using assms by (auto simp: with_json_object_def with_object_body_def split: option.splits json.splits)

lemmas step_splits = if_splits option.splits prod.splits sum.splits

lemma storage_node_steps [handler_steps]:
  "request_step H is_ip db (fst (handle_storage_nodes is_ip parse serialize request db))"
proof -
  have put: "request_step H is_ip db (fst (handle_put_storage_node is_ip parse serialize node_id request db))" for node_id
    unfolding handle_put_storage_node_def
    by (rule body_step(2))
      (auto intro!: transact_step intro: repo_request_steps simp: rbind_eq_Inr Let_def split: step_splits)
  show ?thesis
    using put by (auto simp: handle_storage_nodes_def Let_def handle_list_storage_nodes_def handle_get_storage_node_def query_step)
qed

lemma replication_steps [handler_steps]:
  "handle_replication_runs H parse serialize request db = Some answer \<Longrightarrow> request_step H is_ip db (fst answer)"
proof -
  have start: "request_step H is_ip db (fst (handle_start_replication_run H parse serialize request db))"
    unfolding handle_start_replication_run_def
    by (rule body_step(2)) (auto intro!: transact_step intro: repo_request_steps simp: rbind_eq_Inr split: step_splits)
  have complete: "request_step H is_ip db (fst (handle_complete_replication_run H parse serialize run_id request db))" for run_id
    unfolding handle_complete_replication_run_def
    by (rule body_step(2)) (auto intro!: transact_step intro: repo_request_steps split: step_splits)
  have plan: "fst (handle_get_replication_plan H serialize run_id db) = db" for run_id
    by (simp add: handle_get_replication_plan_def query_step split: sum.split)
  assume "handle_replication_runs H parse serialize request db = Some answer"
  then show ?thesis
    using start complete plan
    by (auto simp: handle_replication_runs_def Let_def handle_get_replication_run_def query_step split: if_splits)
qed

lemma restore_plan_steps [handler_steps]:
  "handle_m8_versions H serialize request db = Some answer \<Longrightarrow> fst answer = db"
  "fst (handle_artifact_versions H serialize request db) = db"
  by (auto simp: handle_m8_versions_def handle_artifact_versions_def Let_def handle_get_restore_plan_def
      handle_get_multi_node_restore_plan_def query_step split: step_splits restore_plan_route.splits)

lemma session_answer_state: "fst (session_answer serialize result) = fst result"
  by (simp add: session_answer_def)

lemma create_or_load_step: "request_step H is_ip db (fst (create_or_load_session db requested))"
  by (auto intro: repo_request_steps simp: create_or_load_session_def split: step_splits)

lemma upload_session_steps [handler_steps]:
  "request_step H is_ip db (fst (handle_upload_sessions H parse serialize now request db))"
proof -
  have create: "request_step H is_ip db (fst (handle_create_upload_session parse serialize request db))"
    unfolding handle_create_upload_session_def
  proof (rule body_step(1))
    fix body
    show "request_step H is_ip db (fst (case requested_session body of
        Inl e \<Rightarrow> (db, if e = Invalid_argument \<or> e = Overflow_error
                     then Inr (error_response serialize 400 ''invalid_request'') else Inl e)
      | Inr requested \<Rightarrow> (case create_or_load_session db requested of
            (db', Inl e) \<Rightarrow> (db', case catch_creation_error serialize e of Some response \<Rightarrow> Inr response | None \<Rightarrow> Inl e)
          | (db', Inr None) \<Rightarrow> (db', Inr (error_response serialize 409 ''upload_session_conflict''))
          | (db', Inr (Some session)) \<Rightarrow> session_answer serialize (db', session))))"
      using create_or_load_step [of H is_ip db] by (auto simp: session_answer_state split: step_splits) (metis fst_conv)+
  qed
  have finalize: "request_step H is_ip db (fst (handle_finalize_upload_session H parse serialize now sid request db))" for sid
    unfolding handle_finalize_upload_session_def
    by (rule body_step(1)) (auto intro!: transact_step intro: repo_request_steps split: step_splits)
  have abort: "request_step H is_ip db (fst (handle_abort_upload_session serialize sid request db))" for sid
    by (auto intro: repo_request_steps simp: handle_abort_upload_session_def session_answer_state split: step_splits)
  have get: "fst (handle_get_upload_session serialize sid db) = db" for sid
    by (simp add: handle_get_upload_session_def session_answer_state split: step_splits)
  show ?thesis
    using create finalize abort get
    by (auto simp: handle_upload_sessions_def Let_def split: upload_session_route.split)
qed

lemma negotiation_steps [handler_steps]:
  "request_step H is_ip db (fst (handle_negotiate_chunks parse serialize request db))"
  unfolding handle_negotiate_chunks_def
  by (auto intro!: body_step transact_step intro: repo_request_steps split: step_splits)

lemma location_steps [handler_steps]:
  "request_step H is_ip db (fst (handle_location_routes parse serialize request db))"
proof -
  have put: "request_step H is_ip db (fst (handle_put_location parse serialize chunk_id node_id request db))" for chunk_id node_id
    unfolding handle_put_location_def
    by (rule body_step(1)) (auto intro!: transact_step intro: repo_request_steps simp: rbind_eq_Inr split: step_splits)
  show ?thesis
    using put by (auto simp: handle_location_routes_def Let_def query_step split: location_route.split)
qed

lemma gc_run_steps [handler_steps]: "request_step H is_ip db (fst (handle_gc_runs parse serialize request db))"
proof -
  have start: "request_step H is_ip db (fst (handle_start_gc_run parse serialize request db))"
    unfolding handle_start_gc_run_def
    by (rule body_step(1)) (auto intro!: transact_step intro: repo_request_steps simp: rbind_eq_Inr split: step_splits)
  have complete: "request_step H is_ip db (fst (handle_complete_gc_run parse serialize rid request db))" for rid
    unfolding handle_complete_gc_run_def
    by (rule body_step(1)) (auto intro!: transact_step intro: repo_request_steps split: step_splits)
  have classify: "request_step H is_ip db (fst (handle_classify_gc_chunks parse serialize rid request db))" for rid
    unfolding handle_classify_gc_chunks_def
    by (rule body_step(1)) (auto intro!: transact_step simp: rbind_eq_Inr split: step_splits)
  have get: "request_step H is_ip db (fst (handle_get_gc_run serialize rid db))" for rid
    unfolding handle_get_gc_run_def by (auto intro!: transact_step simp: rbind_eq_Inr)
  show ?thesis
    using start complete classify get by (auto simp: handle_gc_runs_def Let_def split: gc_run_route.split)
qed

lemma policy_step:
  "request_step H is_ip db (fst (handle_register_lifecycle_policy parse serialize request db))"
  unfolding handle_register_lifecycle_policy_def
  by (rule body_step(1)) (auto intro!: transact_step intro: repo_request_steps simp: query_step split: step_splits)

lemma pin_steps:
  "request_step H is_ip db (fst (handle_put_version_pin H parse serialize version_id request db))"
  "request_step H is_ip db (fst (handle_delete_version_pin H serialize version_id db))"
  "fst (handle_get_version_pin H serialize version_id db) = db"
  unfolding handle_put_version_pin_def handle_delete_version_pin_def handle_get_version_pin_def
  by ((rule body_step(1))?, auto intro!: transact_step intro: repo_request_steps simp: rbind_eq_Inr query_step split: step_splits)+

lemma lifecycle_run_step:
  "request_step H is_ip db (fst (handle_run_lifecycle parse serialize now request db))"
  unfolding handle_run_lifecycle_def
  by (rule body_step(1)) (auto intro!: transact_step intro: repo_request_steps simp: rbind_eq_Inr split: step_splits)

lemma with_methods_step:
  assumes "list_all (\<lambda>handler. request_step H is_ip db (fst (snd handler))) handlers"
  shows "request_step H is_ip db (fst (with_methods serialize request db handlers allowed))"
  using assms map_of_SomeD by (fastforce simp: with_methods_def list_all_iff split: option.split)

lemma with_uuid_step:
  "request_step H is_ip db (fst answer) \<Longrightarrow> request_step H is_ip db (fst (with_uuid serialize id_text db answer))"
  by (simp add: with_uuid_def)

lemma lifecycle_reads:
  "fst (handle_get_lifecycle_policy serialize policy_id db) = db"
  "fst (handle_get_lifecycle_run serialize run_id db) = db"
  "fst (handle_list_lifecycle_decisions serialize run_id query db) = db"
  by (simp_all add: handle_get_lifecycle_policy_def handle_get_lifecycle_run_def handle_list_lifecycle_decisions_def
      query_step split: step_splits)

lemma request_if:
  "(c \<Longrightarrow> request_step H is_ip db (fst a)) \<Longrightarrow> (\<not> c \<Longrightarrow> request_step H is_ip db (fst b)) \<Longrightarrow>
   request_step H is_ip db (fst (if c then a else b))"
  by simp

lemma pred_if:
  "(c \<Longrightarrow> pred_option P a) \<Longrightarrow> (\<not> c \<Longrightarrow> pred_option P b) \<Longrightarrow> pred_option P (if c then a else b)"
  by simp

lemma m9_steps [handler_steps]:
  "try_handle_m9_routes H parse serialize now request db = Some answer \<Longrightarrow> request_step H is_ip db (fst answer)"
proof -
  have "pred_option (\<lambda>a. request_step H is_ip db (fst a)) (try_handle_m9_routes H parse serialize now request db)"
    unfolding try_handle_m9_routes_def Let_def
    by (intro pred_if) (simp_all add: with_methods_step with_uuid_step policy_step pin_steps lifecycle_run_step lifecycle_reads)
  then show "request_step H is_ip db (fst answer)" if "try_handle_m9_routes H parse serialize now request db = Some answer"
    using that by simp
qed

lemma metadata_dispatch:
  assumes "pred_option P (try_handle_m8_routes H is_ip parse serialize request db)"
    and "pred_option P (try_handle_m9_routes H parse serialize unix_ms request db)"
    and "P (handle_upload_sessions H parse serialize timestamp request db)"
    and "P (handle_negotiate_chunks parse serialize request db)"
    and "P (handle_artifact_versions H serialize request db)"
    and "P (handle_location_routes parse serialize request db)"
    and "P (handle_gc_runs parse serialize request db)"
    and "\<And>response. P (db, response)"
  shows "P (metadata_handle_request H is_ip parse serialize timestamp unix_ms request db)"
  using assms
  by (cases "try_handle_m8_routes H is_ip parse serialize request db";
      cases "try_handle_m9_routes H parse serialize unix_ms request db")
    (simp_all add: metadata_handle_request_def Let_def)

subsection \<open>Requests with GET only read\<close>

named_theorems get_reads \<open>route groups that only read under GET\<close>

lemma get_groups [get_reads]:
  assumes "rq_method request = Get"
  shows "fst (handle_storage_nodes is_ip parse serialize request db) = db"
    and "handle_replication_runs H parse serialize request db = Some answer \<Longrightarrow> fst answer = db"
    and "fst (handle_upload_sessions H parse serialize now request db) = db"
    and "fst (handle_negotiate_chunks parse serialize request db) = db"
    and "fst (handle_location_routes parse serialize request db) = db"
    and "fst (handle_gc_runs parse serialize request db) = db"
proof -
  have plan: "fst (handle_get_replication_plan H serialize run_id db) = db" for run_id
    by (simp add: handle_get_replication_plan_def query_step split: sum.split)
  have session: "fst (handle_get_upload_session serialize sid db) = db" for sid
    by (simp add: handle_get_upload_session_def session_answer_state split: step_splits)
  have run: "fst (handle_get_gc_run serialize rid db) = db" for rid
    by (auto simp: handle_get_gc_run_def transact_def rbind_def split: sum.split)
  show "fst (handle_storage_nodes is_ip parse serialize request db) = db"
    using assms by (simp add: handle_storage_nodes_def Let_def handle_list_storage_nodes_def handle_get_storage_node_def query_step)
  show "handle_replication_runs H parse serialize request db = Some answer \<Longrightarrow> fst answer = db"
    using assms plan by (auto simp: handle_replication_runs_def Let_def handle_get_replication_run_def query_step split: if_splits)
  show "fst (handle_upload_sessions H parse serialize now request db) = db"
    using assms session by (simp add: handle_upload_sessions_def Let_def split: upload_session_route.split)
  show "fst (handle_negotiate_chunks parse serialize request db) = db"
    using assms by (simp add: handle_negotiate_chunks_def)
  show "fst (handle_location_routes parse serialize request db) = db"
    using assms by (simp add: handle_location_routes_def Let_def query_step split: location_route.split)
  show "fst (handle_gc_runs parse serialize request db) = db"
    using assms run by (simp add: handle_gc_runs_def Let_def split: gc_run_route.split)
qed

lemma with_methods_get:
  assumes "rq_method request = Get" and "list_all (\<lambda>(method, answer). method = Get \<longrightarrow> fst answer = db) handlers"
  shows "fst (with_methods serialize request db handlers allowed) = db"
  using assms map_of_SomeD by (fastforce simp: with_methods_def list_all_iff split: option.split)

lemma with_uuid_state: "fst answer = db \<Longrightarrow> fst (with_uuid serialize id_text db answer) = db"
  by (simp add: with_uuid_def)

lemma m9_get:
  assumes "rq_method request = Get"
  shows "pred_option (\<lambda>a. fst a = db) (try_handle_m9_routes H parse serialize now request db)"
  unfolding try_handle_m9_routes_def Let_def
  by (intro pred_if) (simp_all add: assms with_methods_get with_uuid_state lifecycle_reads pin_steps)

text \<open>
  C26: Whatever an HTTP request to the metadata service says, the service leaves the database as it is or performs
  exactly one of the repository's transactions; a request with GET never changes it.
\<close>

theorem service_requests_are_steps:
  assumes "metadata_handle_request H is_ip parse serialize timestamp unix_ms request db = (db', answer)"
  shows "(db' = db \<or> repo_step H is_ip db db') \<and> (rq_method request = Get \<longrightarrow> db' = db)"
proof (intro conjI impI)
  have "request_step H is_ip db (fst (metadata_handle_request H is_ip parse serialize timestamp unix_ms request db))"
    by (rule metadata_dispatch [where P = "\<lambda>a. request_step H is_ip db (fst a)"])
      (auto simp: handler_steps try_handle_m8_routes_def Let_def pred_option_def elim!: option.set_cases intro!: pred_if)
  with assms show "db' = db \<or> repo_step H is_ip db db'" by (simp add: request_step_def)
next
  assume get: "rq_method request = Get"
  have "fst (metadata_handle_request H is_ip parse serialize timestamp unix_ms request db) = db"
    using m9_get [OF get, of db H parse serialize unix_ms]
    by (intro metadata_dispatch [where P = "\<lambda>a. fst a = db"])
      (auto simp: get_groups [OF get] handler_steps try_handle_m8_routes_def Let_def pred_option_def
        elim!: option.set_cases intro!: pred_if)
  with assms show "db' = db" by simp
qed

text \<open>A request that starts a collection, and one that asks for it.\<close>

definition sample_start_request :: http_request where
  "sample_start_request =
     \<lparr>rq_method = Post, rq_target = kGcRunsCollection, rq_content_type = ''application/json'',
      rq_body = sample_serialize (Json_object [(''gc_run_id'', Json_string sample_uuid),
        (''target_node_id'', Json_string ''node-a''), (''dry_run'', Json_bool True)])\<rparr>"

theorem service_requests_are_steps_witness:
  "\<exists>db' answer. metadata_handle_request sample_hash (\<lambda>_. True) sample_parse sample_serialize 0 0 sample_start_request
      sample_idle_db = (db', answer) \<and> db' \<noteq> sample_idle_db \<and> repo_step sample_hash (\<lambda>_. True) sample_idle_db db'"
proof -
  obtain db' answer where handled: "metadata_handle_request sample_hash (\<lambda>_. True) sample_parse sample_serialize 0 0
      sample_start_request sample_idle_db = (db', answer)" by fastforce
  have "length (gc_runs (fst (metadata_handle_request sample_hash (\<lambda>_. True) sample_parse sample_serialize 0 0
      sample_start_request sample_idle_db))) = 1" and "gc_runs sample_idle_db = []" by code_simp+
  then have "db' \<noteq> sample_idle_db" using handled by auto
  with handled service_requests_are_steps [OF handled] show ?thesis by blast
qed

end
