(* ===== verification/Node_Pool.thy ===== *)
theory Node_Pool
  imports Metadata_Service
begin

section \<open>Many storage nodes\<close>

text \<open>
  The engines work with a pool of storage nodes and the metadata service. This theory states what they may rely on,
  as the contract \<open>node_pool\<close>: each client of the pool serves one disk and touches no other; and shows that
  the model of the services is such a pool: every node its own \<open>Storage_Node\<close> service over its own chunk
  store, beside the metadata service behind its network.
\<close>

subsection \<open>Folds of steps\<close>

lemma step_fold_all:
  assumes after: "\<And>x acc s s' acc'. x \<in> set xs \<Longrightarrow> f x acc s = (s', Inr acc') \<Longrightarrow> P x acc' s'"
    and stable: "\<And>x y acc s s' acc'. y \<in> set xs \<Longrightarrow> P x acc s \<Longrightarrow> f y acc s = (s', Inr acc') \<Longrightarrow> P x acc' s'"
  shows "step_fold f xs acc s = (s', Inr acc') \<Longrightarrow> \<forall>x \<in> set xs. P x acc' s'"
proof -
  have kept: "set ys \<subseteq> set xs \<Longrightarrow> P x acc s \<Longrightarrow> step_fold f ys acc s = (s', Inr acc') \<Longrightarrow> P x acc' s'" for x ys acc s
  proof (induction ys arbitrary: acc s)
    case (Cons y ys)
    then obtain mid acc1 where first: "f y acc s = (mid, Inr acc1)" and rest: "step_fold f ys acc1 mid = (s', Inr acc')"
      by (auto simp: step_bind_eq)
    from Cons.prems have ys: "set ys \<subseteq> set xs" and y: "y \<in> set xs" by auto
    from Cons.IH [OF ys stable [OF y Cons.prems(2) first] rest] show ?case .
  qed simp
  have "set ys \<subseteq> set xs \<Longrightarrow> step_fold f ys acc s = (s', Inr acc') \<Longrightarrow> \<forall>x \<in> set ys. P x acc' s'" for ys acc s
  proof (induction ys arbitrary: acc s)
    case (Cons y ys)
    then obtain mid acc1 where first: "f y acc s = (mid, Inr acc1)" and rest: "step_fold f ys acc1 mid = (s', Inr acc')"
      by (auto simp: step_bind_eq)
    from Cons have ys: "set ys \<subseteq> set xs" and y: "y \<in> set xs" by auto
    from kept [OF ys after [OF y first] rest] Cons.IH [OF ys rest] show ?case by simp
  qed simp
  then show "step_fold f xs acc s = (s', Inr acc') \<Longrightarrow> \<forall>x \<in> set xs. P x acc' s'" by blast
qed

lemma step_fold_sum:
  fixes measured :: "'b \<Rightarrow> u64"
  assumes "\<And>x acc s s' acc'. x \<in> set xs \<Longrightarrow> f x acc s = (s', Inr acc') \<Longrightarrow> measured acc' = measured acc + amount x"
  shows "step_fold f xs acc s = (s', Inr acc') \<Longrightarrow> measured acc' = measured acc + sum_list (map amount xs)"
  using assms
proof (induction xs arbitrary: acc s)
  case (Cons x xs)
  from Cons.prems(1) obtain mid acc1 where first: "f x acc s = (mid, Inr acc1)" and rest: "step_fold f xs acc1 mid = (s', Inr acc')"
    by (auto simp: step_bind_eq)
  have "measured acc1 = measured acc + amount x" by (rule Cons.prems(2) [OF _ first]) simp
  moreover have "measured acc' = measured acc1 + sum_list (map amount xs)"
    by (rule Cons.IH [OF rest]) (rule Cons.prems(2), simp_all)
  ultimately show ?case by simp
qed simp

subsection \<open>The contract\<close>

text \<open>What may happen to the chunks of a disk while others store there: a chunk stays, or is whole and verified.\<close>

definition chunks_kept :: "hash \<Rightarrow> disk \<Rightarrow> disk \<Rightarrow> bool" where
  "chunks_kept H d d' \<longleftrightarrow>
     (\<forall>c. is_content_id c \<longrightarrow> chunk_file_of d' c = chunk_file_of d c \<or>
        (\<exists>data. chunk_file_of d' c = Some (Regular data) \<and> hash_bytes H data = Inr c))"

lemma chunks_kept_refl [simp]: "chunks_kept H d d"
  by (simp add: chunks_kept_def)

lemma chunks_kept_trans: "chunks_kept H d d' \<Longrightarrow> chunks_kept H d' d'' \<Longrightarrow> chunks_kept H d d''"
  unfolding chunks_kept_def by metis

lemma left_or_written_kept: "left_or_written H d c data d' \<Longrightarrow> chunks_kept H d d'"
  unfolding left_or_written_def chunks_kept_def by blast

lemma contains_ok: "store_contains d c = Inr True \<longleftrightarrow> is_content_id c \<and> regular_content d (take 2 c, c) \<noteq> None"
  by (auto simp: store_contains_def chunk_path_def validate_chunk_id_def check_content_id_ok rbind_eq_Inr)

lemma chunks_kept_contains:
  assumes "chunks_kept H d d'" and "store_contains d c = Inr True"
  shows "store_contains d' c = Inr True"
proof -
  from assms have c: "is_content_id c" and there: "regular_content d (take 2 c, c) \<noteq> None"
    by (simp_all add: contains_ok)
  from assms(1) c have "chunk_file_of d' c = chunk_file_of d c \<or> (\<exists>data. chunk_file_of d' c = Some (Regular data))"
    unfolding chunks_kept_def by blast
  with c there show ?thesis by (auto simp: contains_ok regular_content_def)
qed

locale node_pool =
  fixes H :: hash
    and pool :: "'s client_pool"
    and disk_at :: "'s \<Rightarrow> string \<Rightarrow> disk"
    and rest :: "'s \<Rightarrow> 'r"
  assumes node_served: "client_for pool node = Inr client \<Longrightarrow>
      served_store H client (\<lambda>s. disk_at s node) (\<lambda>s. (rest s, (disk_at s)(node := None)))"
begin

lemma other_disks:
  assumes "(disk_at s')(node := None) = (disk_at s)(node := None)" and "n \<noteq> node"
  shows "disk_at s' n = disk_at s n"
  using fun_cong [OF assms(1), of n] assms(2) by simp

lemma same_disks:
  assumes "(disk_at s')(node := None) = (disk_at s)(node := None)" and "disk_at s' node = disk_at s node"
  shows "disk_at s' = disk_at s"
proof
  show "disk_at s' n = disk_at s n" for n using other_disks [OF assms(1)] assms(2) by (cases "n = node") simp_all
qed

lemma pool_has:
  assumes "client_for pool node = Inr client" and "has_chunk_on client c s = (s', there)"
  shows "disk_at s' = disk_at s" and "rest s' = rest s"
    and "there = Inr found \<Longrightarrow> store_contains (disk_at s node) c = Inr found"
  using served_store.has_served [OF node_served [OF assms(1)] assms(2)] same_disks [of s' node s] by auto

lemma pool_get:
  assumes "client_for pool node = Inr client" and "get_chunk_from H client c s = (s', got)"
  shows "disk_at s' = disk_at s" and "rest s' = rest s"
  using served_store.get_served [OF node_served [OF assms(1)] assms(2)] same_disks [of s' node s] by auto

lemma pool_put:
  assumes "client_for pool node = Inr client" and "put_chunk_on client c data s = (s', stored)"
  shows "rest s' = rest s" and "chunks_kept H (disk_at s n) (disk_at s' n)"
    and "stored = Inr () \<Longrightarrow> store_contains (disk_at s' node) c = Inr True"
proof -
  note node = node_served [OF assms(1)]
  note put = served_store.put_keeps [OF node assms(2)] served_store.put_served [OF node assms(2)]
  show "rest s' = rest s" using put(1) by simp
  show "chunks_kept H (disk_at s n) (disk_at s' n)"
    using put(1,2) other_disks [of s' node s n] by (cases "n = node") (auto intro: left_or_written_kept)
  assume "stored = Inr ()"
  with put(3) obtain io passed where stored: "store_put H io (disk_at s node) c data = Some (passed, Inr ())"
    and after: "disk_at s' node = last (disk_at s node # passed)" by blast
  from store_put_ok(2) [OF stored] have "is_content_id c" and "regular_content (disk_at s' node) (take 2 c, c) \<noteq> None"
    by (auto simp: after regular_content_def store_get_ok)
  then show "store_contains (disk_at s' node) c = Inr True" by (simp add: contains_ok)
qed

end

subsection \<open>The services as a pool\<close>

record cluster_world = metadata_world +
  cw_disks :: "string \<Rightarrow> disk"

definition cluster_client ::
  "hash \<Rightarrow> (string \<Rightarrow> json option) \<Rightarrow> (json \<Rightarrow> string) \<Rightarrow> node_io \<Rightarrow> nat \<Rightarrow> http_client_config \<Rightarrow> string \<Rightarrow>
   cluster_world node_client" where
  "cluster_client H parse serialize io max_body config node =
     client_at (\<lambda>w. cw_disks w node) (\<lambda>disk w. w\<lparr>cw_disks := (cw_disks w)(node := disk)\<rparr>)
       (direct_client H parse serialize io node max_body config)"

definition cluster_pool ::
  "hash \<Rightarrow> (string \<Rightarrow> json option) \<Rightarrow> (json \<Rightarrow> string) \<Rightarrow> (string \<Rightarrow> node_io) \<Rightarrow> nat \<Rightarrow> http_client_config \<Rightarrow>
   string list \<Rightarrow> cluster_world client_pool" where
  "cluster_pool H parse serialize io max_body config nodes =
     map (\<lambda>node. (node, cluster_client H parse serialize (io node) max_body config node)) nodes"

lemma cluster_pool_serves:
  assumes "json_codec parse serialize"
  shows "node_pool H (cluster_pool H parse serialize io max_body config nodes) cw_disks
    mw_db"
proof (rule node_pool.intro)
  fix node client
  assume "client_for (cluster_pool H parse serialize io max_body config nodes) node = Inr client"
  then have "map_of (cluster_pool H parse serialize io max_body config nodes) node = Some client"
    by (simp add: client_for_def split: option.splits)
  then have client: "client = cluster_client H parse serialize (io node) max_body config node"
    by (auto simp: cluster_pool_def dest: map_of_SomeD)
  show "served_store H client (\<lambda>w. cw_disks w node) (\<lambda>w. (mw_db w, (cw_disks w)(node := None)))"
    unfolding client cluster_client_def
    by (rule served_store_at [OF direct_client_serves [OF assms]]) simp_all
qed

interpretation sample_pool: node_pool H "cluster_pool H sample_parse sample_serialize io max_body config nodes" cw_disks
    mw_db
  by (rule cluster_pool_serves [OF sample_codec])

subsection \<open>The client of the metadata service\<close>

text \<open>The readings of the two clocks while a request is handled are arbitrary.\<close>

definition service_handler ::
  "hash \<Rightarrow> (string \<Rightarrow> bool) \<Rightarrow> (string \<Rightarrow> json option) \<Rightarrow> (json \<Rightarrow> string) \<Rightarrow> int \<times> int \<Rightarrow> database handler" where
  "service_handler H is_ip parse serialize clocks request db =
     Some (metadata_handle_request H is_ip parse serialize (fst clocks) (snd clocks) request db)"

definition service_client ::
  "network \<Rightarrow> hash \<Rightarrow> (string \<Rightarrow> bool) \<Rightarrow> (string \<Rightarrow> json option) \<Rightarrow> (json \<Rightarrow> string) \<Rightarrow> int \<times> int \<Rightarrow> nat \<Rightarrow>
   http_client_config \<Rightarrow> 'w metadata_world_scheme metadata_client" where
  "service_client net H is_ip parse serialize clocks max_body config =
     networked_client net parse serialize max_body (service_handler H is_ip parse serialize clocks) config"

lemma service_client_fields [simp]:
  "mc_parse (service_client net H is_ip parse serialize clocks max_body config) = parse"
  "mc_serialize (service_client net H is_ip parse serialize clocks max_body config) = serialize"
  by (simp_all add: service_client_def networked_client_def)

lemma service_exchanged:
  assumes "metadata_request (service_client net H is_ip parse serialize clocks max_body config) method target body ct w = (w', r)"
  shows "exchanged net (service_handler H is_ip parse serialize clocks) \<lparr>rq_method = method, rq_target = target,
      rq_content_type = (case ct of None \<Rightarrow> [] | Some t \<Rightarrow> t), rq_body = body\<rparr> w w' r"
  using networked_request assms unfolding service_client_def by blast

lemma service_request_more:
  "metadata_request (service_client net H is_ip parse serialize clocks max_body config) method target body ct w = (w', r) \<Longrightarrow>
   metadata_world.more w' = metadata_world.more w"
  using service_exchanged unfolding exchanged_def by blast

lemma more_disks: "metadata_world.more w' = metadata_world.more w \<Longrightarrow> cw_disks w' = cw_disks w"
  by (cases w; cases w') simp

end
