(* ===== verification/Service_Calls.thy ===== *)
theory Service_Calls
  imports Node_Pool
begin

section \<open>Calls of the metadata service\<close>

text \<open>
  The operations of the metadata client that the engines use, served by the whole metadata service behind its
  network: each is at most one run of one repository operation after the requests of others, and what it returns
  is what that operation returned.
\<close>

lemma served_mono:
  assumes "served net f w w' r" and mono: "\<And>db db' x. f db = Inr (db', x) \<Longrightarrow> g db = Inr (db', x)"
  shows "served net g w w' r"
proof -
  from assms(1) obtain db where rest: "metadata_world.more w' = metadata_world.more w" "others_step net (mw_db w) db"
    and f: "mw_db w' = db \<or> (\<exists>x. f db = Inr (mw_db w', x))" "\<forall>x. r = Inr x \<longrightarrow> f db = Inr (mw_db w', x)"
    unfolding served_def by blast
  from f mono have "mw_db w' = db \<or> (\<exists>x. g db = Inr (mw_db w', x))" "\<forall>x. r = Inr x \<longrightarrow> g db = Inr (mw_db w', x)"
    by (elim disjE exE, simp, blast) (simp add: f mono)
  with rest show ?thesis unfolding served_def by (intro conjI exI [of _ db])
qed

subsection \<open>Targets\<close>

lemma whole_path:
  assumes "\<forall>c \<in> set target. c \<noteq> CHR ''?'' \<and> c \<noteq> CHR ''#''"
  shows "split_path_and_query target = (target, [])"
proof -
  have "takeWhile (\<lambda>c. c \<noteq> CHR ''?'' \<and> c \<noteq> CHR ''#'') target = target" using assms by simp
  then show ?thesis unfolding split_path_and_query_def Let_def by (simp only:) simp
qed

lemma uuid_no_query: "is_uuid u \<Longrightarrow> \<forall>c \<in> set u. c \<noteq> CHR ''?'' \<and> c \<noteq> CHR ''#''"
  using uuid_chars by blast

lemma until_slash:
  assumes "\<forall>c \<in> set segment. c \<noteq> CHR ''/''" and "rest = [] \<or> hd rest = CHR ''/''"
  shows "takeWhile (\<lambda>c. c \<noteq> CHR ''/'') (segment @ rest) = segment"
  using assms by (cases rest) (simp_all add: takeWhile_tail)

lemma until_slash_uuid:
  "is_uuid u \<Longrightarrow> rest = [] \<or> hd rest = CHR ''/'' \<Longrightarrow> takeWhile (\<lambda>c. c \<noteq> CHR ''/'') (u @ rest) = u"
  using uuid_chars by (intro until_slash) blast+

lemma starts_with_append: "starts_with s prefix \<longleftrightarrow> (\<exists>rest. s = prefix @ rest)"
proof
  assume "starts_with s prefix"
  then have "s = prefix @ drop (length prefix) s" unfolding starts_with_def by (metis append_take_drop_id)
  then show "\<exists>rest. s = prefix @ rest" ..
qed (auto simp: starts_with_def)

lemma service_posted:
  assumes "post_json (service_client net H is_ip parse serialize clocks max_body config) target v w = (w', r)"
  shows "exchanged net (service_handler H is_ip parse serialize clocks) \<lparr>rq_method = Post, rq_target = target,
      rq_content_type = ''application/json'', rq_body = serialize v\<rparr> w w' r"
  using service_exchanged [of net H is_ip parse serialize clocks max_body config Post target "serialize v"
      "Some ''application/json''"] assms by (simp add: post_json_def)

lemma service_got:
  assumes "metadata_request (service_client net H is_ip parse serialize clocks max_body config) Get target [] None w = (w', r)"
  shows "exchanged net (service_handler H is_ip parse serialize clocks) \<lparr>rq_method = Get, rq_target = target,
      rq_content_type = [], rq_body = []\<rparr> w w' r"
  using service_exchanged [OF assms] by simp

subsection \<open>Replication runs\<close>

lemma replication_routed:
  assumes "split_path_and_query (rq_target request) = (rq_target request, [])"
    and "rq_target request = kReplicationRunsCollection \<or> starts_with (rq_target request) kReplicationRunsPrefix"
    and "handle_replication_runs H parse serialize request db = Some answer"
  shows "metadata_handle_request H is_ip parse serialize timestamp unix_ms request db = answer"
proof -
  have "rq_target request \<noteq> ''/health''" and "rq_target request \<noteq> kStorageNodesCollection"
    and "\<not> starts_with (rq_target request) kStorageNodesPrefix"
    using assms(2)
    by (auto simp: starts_with_append kReplicationRunsCollection_def kReplicationRunsPrefix_def
        kStorageNodesCollection_def kStorageNodesPrefix_def)
  with assms show ?thesis by (simp add: metadata_handle_request_def try_handle_m8_routes_def Let_def)
qed

lemma run_target_path:
  assumes "is_uuid rid" and "suffix \<in> {[], kPlanSuffix, kCompleteSuffix}"
  shows "split_path_and_query (replication_run_target rid suffix) = (replication_run_target rid suffix, [])"
    and "starts_with (replication_run_target rid suffix) kReplicationRunsPrefix"
    and "replication_run_target rid suffix \<noteq> kReplicationRunsCollection"
    and "drop (length kReplicationRunsPrefix) (replication_run_target rid suffix) = rid @ suffix"
    and "takeWhile (\<lambda>c. c \<noteq> CHR ''/'') (rid @ suffix) = rid"
proof -
  show "split_path_and_query (replication_run_target rid suffix) = (replication_run_target rid suffix, [])"
  proof (rule whole_path)
    have "\<forall>c \<in> set suffix. c \<noteq> CHR ''?'' \<and> c \<noteq> CHR ''#''"
      using assms(2) by (elim insertE) (simp_all add: kPlanSuffix_def kCompleteSuffix_def)
    moreover have "\<forall>c \<in> set ''/v1/replication-runs/''. c \<noteq> CHR ''?'' \<and> c \<noteq> CHR ''#''" by simp
    moreover note uuid_no_query [OF assms(1)]
    ultimately show "\<forall>c \<in> set (replication_run_target rid suffix). c \<noteq> CHR ''?'' \<and> c \<noteq> CHR ''#''"
      unfolding replication_run_target_def set_append ball_Un by (intro conjI)
  qed
  show "takeWhile (\<lambda>c. c \<noteq> CHR ''/'') (rid @ suffix) = rid"
    by (rule until_slash_uuid [OF assms(1)]) (use assms(2) in \<open>elim insertE; simp add: kPlanSuffix_def kCompleteSuffix_def\<close>)
  have target: "replication_run_target rid suffix = kReplicationRunsPrefix @ rid @ suffix"
    by (simp add: replication_run_target_def kReplicationRunsPrefix_def)
  show "starts_with (replication_run_target rid suffix) kReplicationRunsPrefix"
    unfolding target starts_with_append by blast
  show "drop (length kReplicationRunsPrefix) (replication_run_target rid suffix) = rid @ suffix" by (simp add: target)
  show "replication_run_target rid suffix \<noteq> kReplicationRunsCollection"
    by (simp add: replication_run_target_def kReplicationRunsCollection_def)
qed

lemma small_factor:
  fixes rf :: u8
  assumes "\<not> rf < 1" and "\<not> 8 < rf"
  shows "ucast rf \<noteq> (0 :: u64)" and "\<not> kPostgresBigintMax < (ucast rf :: u64)" and "\<not> (8 :: u64) < ucast rf"
proof -
  have rf: "1 \<le> unat rf" "unat rf \<le> 8" using assms by (simp_all add: word_less_nat_alt)
  have up: "unat (ucast rf :: u64) = unat rf" by (simp add: unsigned_ucast_eq take_bit_nat_eq_self_iff order_less_trans [OF unsigned_less])
  show "ucast rf \<noteq> (0 :: u64)" using rf(1) up by (metis le_zero_eq unat_0 zero_neq_one)
  show "\<not> (8 :: u64) < ucast rf" using rf(2) up by (simp add: word_less_nat_alt)
  show "\<not> kPostgresBigintMax < (ucast rf :: u64)" using rf(2) up by (simp add: word_less_nat_alt kPostgresBigintMax_def)
qed

lemma replication_error_status:
  "catch_replication_error serialize start_replication_error_answer e = Some response \<Longrightarrow> rs_status response \<noteq> 200"
  "catch_replication_error serialize plan_error_answer e = Some response \<Longrightarrow> rs_status response \<noteq> 200"
  "catch_replication_error serialize complete_replication_error_answer e = Some response \<Longrightarrow> rs_status response \<noteq> 200"
proof -
  have "fst (start_replication_error_answer k) \<noteq> 200" "fst (plan_error_answer k) \<noteq> 200"
    "fst (complete_replication_error_answer k) \<noteq> 200" for k
    by (cases k; simp)+
  then show "catch_replication_error serialize start_replication_error_answer e = Some response \<Longrightarrow> rs_status response \<noteq> 200"
    and "catch_replication_error serialize plan_error_answer e = Some response \<Longrightarrow> rs_status response \<noteq> 200"
    and "catch_replication_error serialize complete_replication_error_answer e = Some response \<Longrightarrow> rs_status response \<noteq> 200"
    by (auto simp: catch_replication_error_def split: exn.splits)
qed

lemma start_replication_run_served:
  assumes codec: "json_codec parse serialize"
    and start: "start_replication_run_on (service_client net H is_ip parse serialize clocks max_body config) rid vid rf w = (w', started)"
  shows "served net (\<lambda>db. rbind (uuid_v7 rid) (\<lambda>rid. start_replication_run H db rid vid rf)) w w' started"
proof (cases "is_valid_chunk_id vid \<and> \<not> rf < 1 \<and> \<not> 8 < rf")
  case False
  then have "start_replication_run_on (service_client net H is_ip parse serialize clocks max_body config) rid vid rf w =
      (w, Inl Invalid_argument)"
    unfolding start_replication_run_on_def
    by (cases "is_valid_chunk_id vid") (simp_all only: if_True if_False step_simps not_True_eq_False not_False_eq_True
        de_Morgan_conj not_not simp_thms)
  with start have "w' = w" and "started = Inl Invalid_argument" by simp_all
  then show ?thesis by (simp add: served_failed)
next
  case True
  let ?kvs = "[(''replication_run_id'', Json_string rid), (''version_id'', Json_string vid),
      (''replication_factor'', Json_uint64 (ucast rf))]"
  let ?f = "\<lambda>db. rbind (uuid_v7 rid) (\<lambda>rid. start_replication_run H db rid vid rf)"
  let ?read = "\<lambda>response. rbind (parse_replication_run_json parse (rs_body response)) (\<lambda>run.
      if rpr_run_id run \<noteq> rid then Inl Remote_protocol_error else Inr run)"
  let ?request = "\<lparr>rq_method = Post, rq_target = kReplicationRunsCollection, rq_content_type = ''application/json'',
      rq_body = serialize (Json_object ?kvs)\<rparr>"
  from start True obtain r where
    sent: "post_json (service_client net H is_ip parse serialize clocks max_body config) kReplicationRunsCollection
      (Json_object ?kvs) w = (w', r)"
    and started: "started = rbind r (\<lambda>response. expect_status 200 response (?read response))"
    by (auto simp: start_replication_run_on_def step_bind_of)
  have plain: "json_plain (Json_object ?kvs)" by simp
  note json = parse_serialized_object [OF codec plain]
  have factor: "positive_field (reparsed_fields ?kvs) ''replication_factor'' = Some (ucast rf)"
    using small_factor True by (subst positive_field_reparsed [where n = "ucast rf"]) auto
  have fields: "string_field ?kvs ''replication_run_id'' = Some rid" "string_field ?kvs ''version_id'' = Some vid"
      "json_object_has_exact_keys ?kvs [''replication_run_id'', ''version_id'', ''replication_factor'']"
    by (simp_all add: string_field_def json_object_has_exact_keys_def)
  have handled: "service_handler H is_ip parse serialize clocks ?request db = Some (transact db (?f db)
      (\<lambda>run. make_json_response serialize 200 (replication_run_to_json run))
      (\<lambda>e. if e = Invalid_argument then Some (error_response serialize 400 ''invalid_request'')
           else catch_replication_error serialize start_replication_error_answer e))" for db
    unfolding service_handler_def option.inject
    by (rule replication_routed)
      (use True small_factor in \<open>simp_all add: whole_path kReplicationRunsCollection_def handle_replication_runs_def
        handle_start_replication_run_def with_object_body_def json factor fields ucast_back\<close>)
  show ?thesis
    unfolding started
  proof (rule served_transaction [OF service_posted [OF sent] handled])
    show "y = x" if "?read (make_json_response serialize 200 (replication_run_to_json x)) = Inr y" for x y
      using that parse_replication_run_back [OF codec] by (auto simp: rbind_eq_Inr split: if_splits)
    show "rs_status response \<noteq> 200" if "(if e = Invalid_argument then Some (error_response serialize 400 ''invalid_request'')
           else catch_replication_error serialize start_replication_error_answer e) = Some response" for e response
      using that by (auto split: if_splits dest: replication_error_status(1))
  qed simp_all
qed


lemma get_replication_plan_served:
  assumes codec: "json_codec parse serialize" and rid: "is_uuid rid"
    and get: "get_replication_plan_from (service_client net H is_ip parse serialize clocks max_body config) rid w = (w', got)"
  shows "served net (\<lambda>db. rbind (get_replication_plan H db rid) (\<lambda>plan. Inr (db, readable_plan plan))) w w' got"
proof -
  let ?f = "\<lambda>db. rbind (get_replication_plan H db rid) (\<lambda>plan. Inr (db, plan))"
  let ?read = "\<lambda>response. rbind (parse_json_object parse (rs_body response)) parse_replication_plan_object"
  let ?answer = "\<lambda>plan. make_json_response serialize 200 (replication_plan_to_json plan)"
  let ?request = "\<lparr>rq_method = Get, rq_target = replication_run_target rid kPlanSuffix, rq_content_type = [], rq_body = []\<rparr>"
  from get obtain r where
    sent: "metadata_request (service_client net H is_ip parse serialize clocks max_body config) Get
      (replication_run_target rid kPlanSuffix) [] None w = (w', r)"
    and got: "got = rbind r (\<lambda>response. expect_status 200 response (?read response))"
    by (auto simp: get_replication_plan_from_def step_bind_of)
  have uuid: "uuid_v7 rid = Inr rid" using rid by (simp add: uuid_v7_ok)
  note path = run_target_path [OF rid, of kPlanSuffix, simplified]
  have handled: "service_handler H is_ip parse serialize clocks ?request db = Some (transact db (?f db) ?answer
      (catch_replication_error serialize plan_error_answer))" for db
    unfolding service_handler_def option.inject
    by (rule replication_routed)
      (use path in \<open>simp_all add: handle_replication_runs_def handle_get_replication_plan_def uuid query_db_def
        kPlanSuffix_def Let_def\<close>)
  have "served net (\<lambda>db. rbind (?f db) (\<lambda>(db', x). Inr (db', readable_plan x))) w w' got"
    unfolding got
    by (rule served_reading [OF service_got [OF sent] handled replication_error_status(2)])
      (use parse_replication_plan_back [OF codec] in \<open>auto simp: make_json_response_def\<close>)
  moreover have "(\<lambda>db. rbind (?f db) (\<lambda>(db', x). Inr (db', readable_plan x))) =
      (\<lambda>db. rbind (get_replication_plan H db rid) (\<lambda>plan. Inr (db, readable_plan plan)))"
    by (rule ext) (simp add: rbind_def split: sum.split)
  ultimately show ?thesis by simp
qed

lemma complete_replication_run_served:
  assumes codec: "json_codec parse serialize" and rid: "is_uuid rid"
    and complete: "complete_replication_run_on (service_client net H is_ip parse serialize clocks max_body config) rid stats w =
      (w', completed)"
  shows "served net (\<lambda>db. complete_replication_run H db rid stats) w w' completed"
proof -
  let ?kvs = "replication_stats_fields stats"
  let ?read = "\<lambda>response. rbind (parse_replication_run_json parse (rs_body response)) (\<lambda>run.
      if rpr_run_id run \<noteq> rid then Inl Remote_protocol_error
      else if rpr_state run \<noteq> ReplCompleted then Inl Remote_protocol_error else Inr run)"
  let ?answer = "\<lambda>completed. make_json_response serialize 200 (replication_run_to_json completed)"
  let ?request = "\<lparr>rq_method = Post, rq_target = replication_run_target rid kCompleteSuffix,
      rq_content_type = ''application/json'', rq_body = serialize (Json_object ?kvs)\<rparr>"
  from complete obtain r where
    sent: "post_json (service_client net H is_ip parse serialize clocks max_body config)
      (replication_run_target rid kCompleteSuffix) (Json_object ?kvs) w = (w', r)"
    and completed: "completed = rbind r (\<lambda>response. expect_status 200 response (?read response))"
    by (auto simp: complete_replication_run_on_def step_bind_of)
  have uuid: "uuid_v7 rid = Inr rid" using rid by (simp add: uuid_v7_ok)
  note path = run_target_path [OF rid, of kCompleteSuffix, simplified]
  have plain: "json_plain (Json_object ?kvs)" by (simp add: replication_stats_fields_def)
  note json = parse_serialized_object [OF codec plain]
  have keys: "json_object_has_exact_keys ?kvs replication_stats_keys"
    by (simp add: replication_stats_fields_def replication_stats_keys_def json_object_has_exact_keys_def)
  have stats: "parse_replication_stats (reparsed_fields ?kvs) \<in> {None, Some stats}"
  proof (cases "parse_replication_stats (reparsed_fields ?kvs)")
    case (Some stats')
    have "stats' = stats" by (rule replication_stats_back [OF Some]) (simp_all add: replication_stats_fields_def)
    with Some show ?thesis by simp
  qed simp
  define fits where "fits \<longleftrightarrow> parse_replication_stats (reparsed_fields ?kvs) = Some stats"
  have parsed: "parse_replication_stats (reparsed_fields ?kvs) = (if fits then Some stats else None)"
    using stats by (auto simp: fits_def)
  let ?f = "\<lambda>db. if fits then complete_replication_run H db rid stats else Inl Invalid_argument"
  let ?catches = "if fits then catch_replication_error serialize complete_replication_error_answer
      else (\<lambda>_. Some (error_response serialize 400 ''invalid_request''))"
  have handled: "service_handler H is_ip parse serialize clocks ?request db = Some (transact db (?f db) ?answer ?catches)" for db
    unfolding service_handler_def option.inject
  proof (rule replication_routed)
    show "handle_replication_runs H parse serialize ?request db = Some (transact db (?f db) ?answer ?catches)"
      using path by (cases fits) (simp_all add: parsed handle_replication_runs_def handle_complete_replication_run_def uuid
          with_object_body_def json keys kPlanSuffix_def kCompleteSuffix_def transact_def [of _ "Inl _"] Let_def)
  qed (use path in simp_all)
  have "served net ?f w w' completed"
    unfolding completed
  proof (rule served_transaction [OF service_posted [OF sent] handled])
    show "rs_status response \<noteq> 200" if "?catches e = Some response" for e response
      using that by (auto split: if_splits dest: replication_error_status(3))
    show "y = x" if "?read (?answer x) = Inr y" for x y
      using that parse_replication_run_back [OF codec] by (auto simp: rbind_eq_Inr split: if_splits)
  qed simp_all
  then show ?thesis by (rule served_mono) (auto split: if_splits)
qed


subsection \<open>Locations\<close>

lemma chunk_path_routed:
  assumes "split_path_and_query (rq_target request) = (rq_target request, [])"
    and "rq_target request = kChunkRoutePrefix @ tail" and "tail \<noteq> ''negotiate''"
  shows "metadata_handle_request H is_ip parse serialize timestamp unix_ms request db =
    handle_location_routes parse serialize request db"
proof -
  note prefixes = starts_with_append kChunkRoutePrefix_def kReplicationRunsCollection_def kReplicationRunsPrefix_def
    kStorageNodesCollection_def kStorageNodesPrefix_def kArtifactVersionsPrefix_def kLifecyclePoliciesCollection_def
    kLifecyclePoliciesPrefix_def kLifecycleRunsCollection_def kLifecycleRunsPrefix_def kUploadSessionsCollection_def
    kUploadSessionsPrefix_def kNegotiatePath_def
  have "try_handle_m8_routes H is_ip parse serialize request db = None"
    unfolding try_handle_m8_routes_def assms(1) Let_def fst_conv by (simp add: assms(2) prefixes)
  moreover have "try_handle_m9_routes H parse serialize unix_ms request db = None"
    unfolding try_handle_m9_routes_def assms(1) Let_def fst_conv by (simp add: assms(2) prefixes)
  moreover have "rq_target request \<noteq> ''/health''" and "rq_target request \<noteq> kUploadSessionsCollection"
    "\<not> starts_with (rq_target request) kUploadSessionsPrefix" "rq_target request \<noteq> kNegotiatePath"
    "\<not> starts_with (rq_target request) kArtifactVersionsPrefix" "starts_with (rq_target request) kChunkRoutePrefix"
    using assms(3) by (simp_all add: assms(2) prefixes)
  ultimately show ?thesis using assms(1) by (simp add: metadata_handle_request_def)
qed

lemma id_chars:
  "is_valid_chunk_id c \<Longrightarrow> \<forall>x \<in> set c. x \<noteq> CHR ''/'' \<and> x \<noteq> CHR ''?'' \<and> x \<noteq> CHR ''#''"
  "is_valid_node_id n \<Longrightarrow> \<forall>x \<in> set n. x \<noteq> CHR ''/'' \<and> x \<noteq> CHR ''?'' \<and> x \<noteq> CHR ''#''"
  by (auto simp: is_valid_chunk_id_def is_valid_node_id_def is_node_id_char_def list_all_iff is_digit_char_def)

lemma location_target_path:
  assumes "is_valid_chunk_id c" and "is_valid_node_id n"
  shows "split_path_and_query (location_target c n) = (location_target c n, [])"
    and "parse_location_route (location_target c n) = Location_item c n"
    and "location_target c n = kChunkRoutePrefix @ c @ kLocationsPrefix @ n" and "c @ kLocationsPrefix @ n \<noteq> ''negotiate''"
proof -
  show target: "location_target c n = kChunkRoutePrefix @ c @ kLocationsPrefix @ n"
    by (simp add: location_target_def kChunkRoutePrefix_def kLocationsPrefix_def)
  have "length c = 64" using assms(1) by (simp add: is_valid_chunk_id_def)
  then have "length (c @ kLocationsPrefix @ n) \<noteq> length ''negotiate''" by simp
  then show "c @ kLocationsPrefix @ n \<noteq> ''negotiate''" by metis
  show "split_path_and_query (location_target c n) = (location_target c n, [])"
  proof (rule whole_path)
    have "\<forall>x \<in> set kChunkRoutePrefix. x \<noteq> CHR ''?'' \<and> x \<noteq> CHR ''#''" "\<forall>x \<in> set kLocationsPrefix. x \<noteq> CHR ''?'' \<and> x \<noteq> CHR ''#''"
      by (simp_all add: kChunkRoutePrefix_def kLocationsPrefix_def)
    with id_chars(1) [OF assms(1)] id_chars(2) [OF assms(2)]
    show "\<forall>x \<in> set (location_target c n). x \<noteq> CHR ''?'' \<and> x \<noteq> CHR ''#''"
      unfolding target set_append ball_Un by (intro conjI) simp_all
  qed
  have "takeWhile (\<lambda>x. x \<noteq> CHR ''/'') (c @ kLocationsPrefix @ n) = c"
    by (rule until_slash) (use id_chars(1) [OF assms(1)] in \<open>simp_all add: kLocationsPrefix_def\<close>)
  moreover have "kLocationsPrefix @ n \<noteq> kLocationsSuffix" "kLocationsPrefix \<noteq> []"
    by (simp_all add: kLocationsPrefix_def kLocationsSuffix_def)
  moreover have "starts_with (kChunkRoutePrefix @ c @ kLocationsPrefix @ n) kChunkRoutePrefix"
    "starts_with (kLocationsPrefix @ n) kLocationsPrefix" by (auto simp: starts_with_append)
  ultimately show "parse_location_route (location_target c n) = Location_item c n"
    using assms by (simp add: parse_location_route_def target Let_def)
qed

lemma register_location_served:
  assumes codec: "json_codec parse serialize"
    and register: "register_storage_location_on (service_client net H is_ip parse serialize clocks max_body config) location w =
      (w', registered)"
  shows "served net (\<lambda>db. rbind (register_storage_location db location) (\<lambda>db'. Inr (db', ()))) w w' registered"
proof (cases "is_valid_chunk_id (sl_chunk_id location) \<and> is_valid_node_id (sl_node_id location) \<and> sl_storage_path location \<noteq> []")
  case False
  then have "register_storage_location_on (service_client net H is_ip parse serialize clocks max_body config) location w =
      (w, Inl Invalid_argument)"
    by (auto simp: register_storage_location_on_def)
  with register have "w' = w" and "registered = Inl Invalid_argument" by simp_all
  then show ?thesis by (simp add: served_failed)
next
  case True
  let ?target = "location_target (sl_chunk_id location) (sl_node_id location)"
  let ?kvs = "[(''storage_path'', Json_string (sl_storage_path location)),
      (''state'', Json_string (storage_location_state_to_string (sl_state location)))]"
  let ?request = "\<lparr>rq_method = Put, rq_target = ?target, rq_content_type = ''application/json'',
      rq_body = serialize (Json_object ?kvs)\<rparr>"
  from register True obtain r where
    sent: "metadata_request (service_client net H is_ip parse serialize clocks max_body config) Put ?target
      (serialize (Json_object ?kvs)) (Some ''application/json'') w = (w', r)"
    and registered: "registered = rbind r (\<lambda>response. expect_status 204 response (Inr ()))"
    by (auto simp: register_storage_location_on_def step_bind_of)
  have plain: "json_plain (Json_object ?kvs)" by simp
  note json = parse_serialized_object [OF codec plain]
  have fields: "string_field ?kvs ''storage_path'' = Some (sl_storage_path location)"
      "string_field ?kvs ''state'' = Some (storage_location_state_to_string (sl_state location))"
      "json_object_has_exact_keys ?kvs [''storage_path'', ''state'']"
    by (simp_all add: string_field_def json_object_has_exact_keys_def)
  note path = location_target_path [OF True [THEN conjunct1] True [THEN conjunct2, THEN conjunct1]]
  have location: "\<lparr>sl_chunk_id = sl_chunk_id location, sl_node_id = sl_node_id location,
      sl_storage_path = sl_storage_path location, sl_state = sl_state location\<rparr> = location" by (cases location) simp
  have handled: "service_handler H is_ip parse serialize clocks ?request db = Some (transact db
      (rbind (register_storage_location db location) (\<lambda>db'. Inr (db', ()))) (\<lambda>_. make_empty_response 204)
      (catch_location_error serialize))" for db
    unfolding service_handler_def option.inject
  proof (subst chunk_path_routed)
    show "handle_location_routes parse serialize ?request db = transact db
      (rbind (register_storage_location db location) (\<lambda>db'. Inr (db', ()))) (\<lambda>_. make_empty_response 204)
      (catch_location_error serialize)"
      using True path(1,2)
      by (simp add: handle_location_routes_def Let_def handle_put_location_def with_json_object_def json fields
          location_state.parse_print location)
  qed (use path in simp_all)
  have put: "exchanged net (service_handler H is_ip parse serialize clocks) ?request w w' r"
    using service_exchanged [OF sent] by simp
  show ?thesis
    unfolding registered
  proof (rule served_transaction [OF put handled])
    show "rs_status response \<noteq> 204" if "catch_location_error serialize e = Some response" for e response
      using that by (auto simp: catch_location_error_def split: if_splits)
  qed simp_all
qed

end
