(* ===== verification/Repair_Engine.thy ===== *)
theory Repair_Engine
  imports Service_Calls
begin

section \<open>Repairing replicas\<close>

text \<open>
  \<open>src/replication/repair_engine.cpp\<close>: start a replication run, ask for its plan, verify or write the replicas of
  every chunk, complete the run. The engine is stated over any pool of storage nodes and any metadata client; what it
  achieves rests on the contract \<open>repair_world\<close>, which the model of the services meets.
\<close>

subsection \<open>The engine\<close>

record repair_request =
  rpq_run_id :: string
  rpq_version_id :: string
  rpq_replication_factor :: u8

record repair_result =
  rps_run_id :: string
  rps_version_id :: string
  rps_layout_id :: string
  rps_replication_factor :: u8
  rps_stats :: replication_stats

definition logical_storage_path :: "string \<Rightarrow> string" where
  "logical_storage_path chunk_id = ''/v1/chunks/'' @ chunk_id"

definition metadata_says_available :: "replication_chunk_plan \<Rightarrow> string \<Rightarrow> bool" where
  "metadata_says_available chunk_plan node_id \<longleftrightarrow>
     list_ex (\<lambda>source. rne_node_id source = node_id) (rcp_source_nodes chunk_plan)"

text \<open>The loop over the desired nodes collects those that need the chunk.\<close>

definition check_target ::
  "'s client_pool \<Rightarrow> replication_chunk_plan \<Rightarrow> string \<Rightarrow> string list \<times> replication_stats \<Rightarrow>
   ('s, string list \<times> replication_stats) step" where
  "check_target pool chunk_plan desired_node_id acc =
     (if \<not> pool_contains pool desired_node_id then step_of (Inl Runtime_error)
      else step_bind (step_of (client_for pool desired_node_id)) (\<lambda>target_client.
           step_bind (if metadata_says_available chunk_plan desired_node_id
                      then has_chunk_on target_client (rcp_chunk_id chunk_plan)
                      else step_return False) (\<lambda>verified.
           step_return
             (if verified
              then (fst acc, (snd acc)\<lparr>rst_replicas_verified := rst_replicas_verified (snd acc) + 1\<rparr>)
              else (fst acc @ [desired_node_id], snd acc)))))"

text \<open>The loop over the sources: an answer with an API or protocol error is a failover, any other exception ends it.\<close>

fun fetch_source ::
  "hash \<Rightarrow> 's client_pool \<Rightarrow> string \<Rightarrow> replication_node_endpoint list \<Rightarrow> replication_stats \<Rightarrow>
   ('s, byte list option \<times> replication_stats) step" where
  "fetch_source H pool chunk_id [] stats = step_return (None, stats)"
| "fetch_source H pool chunk_id (source # sources) stats =
     (if \<not> pool_contains pool (rne_node_id source) then fetch_source H pool chunk_id sources stats
      else step_bind (step_of (client_for pool (rne_node_id source))) (\<lambda>client s.
           case get_chunk_from H client chunk_id s of
             (s, Inr (Some bytes)) \<Rightarrow> (s, Inr (Some bytes, stats))
           | (s, Inr None) \<Rightarrow> fetch_source H pool chunk_id sources stats s
           | (s, Inl e) \<Rightarrow>
               if e = Remote_api_error \<or> e = Remote_protocol_error
               then fetch_source H pool chunk_id sources (stats\<lparr>rst_source_failovers := rst_source_failovers stats + 1\<rparr>) s
               else (s, Inl e)))"

definition write_target ::
  "'s metadata_client \<Rightarrow> 's client_pool \<Rightarrow> replication_chunk_plan \<Rightarrow> byte list \<Rightarrow> string \<Rightarrow> replication_stats \<Rightarrow>
   ('s, replication_stats) step" where
  "write_target metadata_client pool chunk_plan bytes target_node_id stats =
     step_bind (step_of (client_for pool target_node_id)) (\<lambda>target_client.
     step_bind (put_chunk_on target_client (rcp_chunk_id chunk_plan) bytes) (\<lambda>_.
     step_bind (register_storage_location_on metadata_client
         \<lparr>sl_chunk_id = rcp_chunk_id chunk_plan, sl_node_id = target_node_id,
          sl_storage_path = logical_storage_path (rcp_chunk_id chunk_plan), sl_state = Available\<rparr>) (\<lambda>_.
     step_return (stats\<lparr>rst_replicas_written := rst_replicas_written stats + 1,
                        rst_bytes_copied := rst_bytes_copied stats + rcp_size_bytes chunk_plan\<rparr>))))"

definition repair_chunk ::
  "hash \<Rightarrow> 's metadata_client \<Rightarrow> 's client_pool \<Rightarrow> replication_chunk_plan \<Rightarrow> replication_stats \<Rightarrow>
   ('s, replication_stats) step" where
  "repair_chunk H metadata_client pool chunk_plan stats =
     step_bind (step_fold (check_target pool chunk_plan) (rcp_desired_node_ids chunk_plan)
         ([], stats\<lparr>rst_chunks_scanned := rst_chunks_scanned stats + 1\<rparr>)) (\<lambda>(targets_needing_repair, stats).
     if targets_needing_repair = [] then step_return stats
     else
       step_bind (fetch_source H pool (rcp_chunk_id chunk_plan) (rcp_source_nodes chunk_plan)
           (stats\<lparr>rst_chunks_under_replicated := rst_chunks_under_replicated stats + 1\<rparr>)) (\<lambda>(chunk_bytes, stats).
       case chunk_bytes of
         None \<Rightarrow> step_of (Inl Runtime_error)
       | Some bytes \<Rightarrow>
           if of_nat (length bytes) \<noteq> rcp_size_bytes chunk_plan then step_of (Inl Runtime_error)
           else step_fold (write_target metadata_client pool chunk_plan bytes) targets_needing_repair stats))"

definition repair_result_of :: "replication_run \<Rightarrow> repair_result" where
  "repair_result_of run =
     \<lparr>rps_run_id = rpr_run_id run, rps_version_id = rpr_version_id run, rps_layout_id = rpr_layout_id run,
      rps_replication_factor = rpr_replication_factor run, rps_stats = rpr_stats run\<rparr>"

definition repair ::
  "hash \<Rightarrow> 's metadata_client \<Rightarrow> 's client_pool \<Rightarrow> repair_request \<Rightarrow> ('s, repair_result) step" where
  "repair H metadata_client pool request =
     step_bind (start_replication_run_on metadata_client (rpq_run_id request) (rpq_version_id request)
         (rpq_replication_factor request)) (\<lambda>run.
     if rpr_state run = ReplCompleted then step_return (repair_result_of run)
     else
       step_bind (get_replication_plan_from metadata_client (rpq_run_id request)) (\<lambda>plan.
       step_bind (step_fold (repair_chunk H metadata_client pool) (rpp_chunks plan) (rpr_stats run)) (\<lambda>stats.
       step_bind (complete_replication_run_on metadata_client (rpq_run_id request) stats) (\<lambda>run.
       step_return (repair_result_of run)))))"

subsection \<open>Sources\<close>

text \<open>A source that answers with an error is passed over; one that does not answer at all ends the repair.\<close>

lemma fetch_source_fails_over:
  assumes "client_for pool (rne_node_id source) = Inr client"
  shows "get_chunk_from H client c s = (mid, Inl e) \<Longrightarrow> e = Remote_api_error \<or> e = Remote_protocol_error \<Longrightarrow>
      fetch_source H pool c (source # sources) stats s =
        fetch_source H pool c sources (stats\<lparr>rst_source_failovers := rst_source_failovers stats + 1\<rparr>) mid"
    and "get_chunk_from H client c s = (mid, Inl (Http_client_error kind)) \<Longrightarrow>
      fetch_source H pool c (source # sources) stats s = (mid, Inl (Http_client_error kind))"
  using assms by (auto simp: pool_contains_def client_for_def step_bind_def split: option.splits)

subsection \<open>What the repair rests on\<close>

locale repair_world = node_pool H pool disk_at db_of
  for H :: hash and pool :: "'s client_pool" and disk_at :: "'s \<Rightarrow> string \<Rightarrow> disk" and db_of :: "'s \<Rightarrow> database" +
  fixes metadata_client :: "'s metadata_client"
  assumes start_served: "start_replication_run_on metadata_client rid vid rf s = (s', started) \<Longrightarrow>
      disk_at s' = disk_at s \<and> (\<forall>run. started = Inr run \<longrightarrow> is_uuid rid \<and>
        (\<exists>before. start_replication_run H before rid vid rf = Inr (db_of s', run)))"
    and plan_served: "is_uuid rid \<Longrightarrow> get_replication_plan_from metadata_client rid s = (s', got) \<Longrightarrow>
      disk_at s' = disk_at s \<and> (\<forall>plan. got = Inr plan \<longrightarrow>
        (\<exists>whole. get_replication_plan H (db_of s') rid = Inr whole \<and> plan = readable_plan whole))"
    and register_served: "register_storage_location_on metadata_client location s = (s', registered) \<Longrightarrow>
      disk_at s' = disk_at s \<and> (registered = Inr () \<longrightarrow> (\<exists>before. register_storage_location before location = Inr (db_of s')))"
    and complete_served: "is_uuid rid \<Longrightarrow> complete_replication_run_on metadata_client rid stats s = (s', completed) \<Longrightarrow>
      disk_at s' = disk_at s \<and> (\<forall>run. completed = Inr run \<longrightarrow>
        (\<exists>before. complete_replication_run H before rid stats = Inr (db_of s', run)))"
begin

text \<open>Whatever a step does, the chunks of every node stay or are rewritten whole.\<close>

definition all_kept :: "'s \<Rightarrow> 's \<Rightarrow> bool" where
  "all_kept s s' \<longleftrightarrow> (\<forall>node. chunks_kept H (disk_at s node) (disk_at s' node))"

lemma all_kept_refl: "all_kept s s"
  by (simp add: all_kept_def)

lemma all_kept_trans: "all_kept s t \<Longrightarrow> all_kept t u \<Longrightarrow> all_kept s u"
  unfolding all_kept_def by (blast intro: chunks_kept_trans)

lemma same_disks_kept: "disk_at s' = disk_at s \<Longrightarrow> all_kept s s'"
  by (simp add: all_kept_def)

lemma put_kept: "client_for pool node = Inr client \<Longrightarrow> put_chunk_on client c data s = (s', stored) \<Longrightarrow> all_kept s s'"
  unfolding all_kept_def using pool_put(2) by blast

lemma check_target_kept:
  assumes "check_target pool p node acc s = (s', r)"
  shows "disk_at s' = disk_at s"
proof (cases "client_for pool node")
  case (Inr client)
  then show ?thesis
    using assms pool_has(1) by (fastforce simp: check_target_def step_bind_eq split: if_splits)
qed (use assms in \<open>auto simp: check_target_def step_bind_eq split: if_splits\<close>)

lemma check_targets_kept: "step_fold (check_target pool p) nodes acc s = (s', r) \<Longrightarrow> disk_at s' = disk_at s"
  by (rule step_fold_relation [where R = "\<lambda>s s'. disk_at s' = disk_at s"]) (auto dest: check_target_kept)

lemma fetch_source_kept: "fetch_source H pool c sources stats s = (s', r) \<Longrightarrow> disk_at s' = disk_at s"
proof (induction sources arbitrary: stats s)
  case (Cons source sources)
  show ?case
  proof (cases "pool_contains pool (rne_node_id source)")
    case True
    then obtain client where client: "client_for pool (rne_node_id source) = Inr client"
      by (auto simp: pool_contains_def client_for_def)
    obtain mid got where get: "get_chunk_from H client c s = (mid, got)" by fastforce
    have "disk_at mid = disk_at s" by (rule pool_get(1) [OF client get])
    with Cons True get show ?thesis
      by (auto simp: client step_bind_def split: sum.splits option.splits if_splits)
  next
    case False
    with Cons show ?thesis by simp
  qed
qed simp

lemma write_target_kept:
  assumes "write_target metadata_client pool p bytes node stats s = (s', r)"
  shows "all_kept s s'"
proof (cases "client_for pool node")
  case (Inr client)
  obtain mid stored where put: "put_chunk_on client (rcp_chunk_id p) bytes s = (mid, stored)" by fastforce
  have "all_kept s mid" by (rule put_kept [OF Inr put])
  moreover have "all_kept mid s'"
    using assms put Inr register_served
    by (fastforce simp: write_target_def step_bind_eq all_kept_refl intro: same_disks_kept)
  ultimately show ?thesis by (rule all_kept_trans)
qed (use assms in \<open>auto simp: write_target_def step_bind_eq all_kept_refl\<close>)

lemma write_targets_kept:
  "step_fold (write_target metadata_client pool p bytes) nodes stats s = (s', r) \<Longrightarrow> all_kept s s'"
  by (rule step_fold_relation [where R = all_kept]) (auto intro: write_target_kept all_kept_refl all_kept_trans)

lemma repair_chunk_cases:
  assumes "repair_chunk H metadata_client pool p stats s = (s', r)"
  obtains (failed) "disk_at s' = disk_at s" and "\<forall>x. r \<noteq> Inr x"
  | (verified) result where "step_fold (check_target pool p) (rcp_desired_node_ids p)
        ([], stats\<lparr>rst_chunks_scanned := rst_chunks_scanned stats + 1\<rparr>) s = (s', Inr ([], result))" and "r = Inr result"
  | (written) mid targets checked bytes mid' fetched where "step_fold (check_target pool p) (rcp_desired_node_ids p)
        ([], stats\<lparr>rst_chunks_scanned := rst_chunks_scanned stats + 1\<rparr>) s = (mid, Inr (targets, checked))"
      and "targets \<noteq> []"
      and "fetch_source H pool (rcp_chunk_id p) (rcp_source_nodes p)
        (checked\<lparr>rst_chunks_under_replicated := rst_chunks_under_replicated checked + 1\<rparr>) mid = (mid', Inr (Some bytes, fetched))"
      and "of_nat (length bytes) = rcp_size_bytes p"
      and "step_fold (write_target metadata_client pool p bytes) targets fetched mid' = (s', r)"
proof -
  obtain mid checks where check: "step_fold (check_target pool p) (rcp_desired_node_ids p)
      ([], stats\<lparr>rst_chunks_scanned := rst_chunks_scanned stats + 1\<rparr>) s = (mid, checks)" by fastforce
  note kept = check_targets_kept [OF check]
  show thesis
  proof (cases checks)
    case (Inl e)
    with assms check kept show ?thesis by (intro failed) (auto simp: repair_chunk_def)
  next
    case (Inr x)
    then obtain targets checked where x: "checks = Inr (targets, checked)" by (cases x) simp
    show ?thesis
    proof (cases "targets = []")
      case True
      with assms check x show ?thesis by (intro verified [of checked]) (auto simp: repair_chunk_def)
    next
      case False
      obtain mid' got where fetch: "fetch_source H pool (rcp_chunk_id p) (rcp_source_nodes p)
        (checked\<lparr>rst_chunks_under_replicated := rst_chunks_under_replicated checked + 1\<rparr>) mid = (mid', got)" by fastforce
      note kept' = fetch_source_kept [OF fetch]
      have rest: "(s', r) = (case got of Inl e \<Rightarrow> (mid', Inl e) | Inr (None, fetched) \<Rightarrow> (mid', Inl Runtime_error)
          | Inr (Some bytes, fetched) \<Rightarrow> if of_nat (length bytes) \<noteq> rcp_size_bytes p then (mid', Inl Runtime_error)
              else step_fold (write_target metadata_client pool p bytes) targets fetched mid')"
        using assms check x False fetch
        by (auto simp: repair_chunk_def step_bind_def split: sum.splits prod.splits option.splits)
      show ?thesis
      proof (cases "\<exists>bytes fetched. got = Inr (Some bytes, fetched) \<and> of_nat (length bytes) = rcp_size_bytes p")
        case True
        with rest check x False fetch show ?thesis by (elim exE conjE) (rule written; simp)
      next
        case wrong: False
        with rest kept kept' show ?thesis
          by (intro failed) (auto split: sum.splits prod.splits option.splits if_splits)
      qed
    qed
  qed
qed

lemma repair_chunk_kept:
  assumes "repair_chunk H metadata_client pool p stats s = (s', r)"
  shows "all_kept s s'"
  using assms
proof (cases rule: repair_chunk_cases)
  case failed
  then show ?thesis by (simp add: same_disks_kept)
next
  case (verified result)
  then show ?thesis by (simp add: check_targets_kept same_disks_kept)
next
  case (written mid targets checked bytes mid' fetched)
  then have "disk_at mid' = disk_at s" using check_targets_kept fetch_source_kept by metis
  with write_targets_kept [OF written(5)] show ?thesis by (simp add: all_kept_def)
qed

lemma repair_kept:
  assumes "repair H metadata_client pool request s = (s', r)"
  shows "all_kept s s'"
proof -
  obtain s1 started where start: "start_replication_run_on metadata_client (rpq_run_id request) (rpq_version_id request)
      (rpq_replication_factor request) s = (s1, started)" by fastforce
  note served = start_served [OF start]
  then have kept1: "all_kept s s1" by (simp add: same_disks_kept)
  show ?thesis
  proof (cases "\<exists>run. started = Inr run \<and> rpr_state run \<noteq> ReplCompleted")
    case False
    with assms start have "s' = s1" by (auto simp: repair_def step_bind_def split: sum.splits)
    with kept1 show ?thesis by simp
  next
    case True
    then obtain run where run: "started = Inr run" "rpr_state run \<noteq> ReplCompleted" by blast
    with served have rid: "is_uuid (rpq_run_id request)" by blast
    obtain s2 got where get: "get_replication_plan_from metadata_client (rpq_run_id request) s1 = (s2, got)" by fastforce
    from plan_served [OF rid get] have kept2: "all_kept s1 s2" by (simp add: same_disks_kept)
    show ?thesis
    proof (cases got)
      case (Inl e)
      with assms start run get have "s' = s2" by (auto simp: repair_def)
      with all_kept_trans [OF kept1 kept2] show ?thesis by simp
    next
      case (Inr plan)
      obtain s3 repaired where fold: "step_fold (repair_chunk H metadata_client pool) (rpp_chunks plan) (rpr_stats run) s2 =
          (s3, repaired)" by fastforce
      have kept3: "all_kept s2 s3"
        by (rule step_fold_relation [where R = all_kept, OF _ _ _ fold])
          (auto intro: repair_chunk_kept all_kept_refl all_kept_trans)
      have "all_kept s3 s'"
        using assms start run get Inr fold complete_served [OF rid, of _ s3]
        by (cases repaired) (auto simp: repair_def step_bind_eq all_kept_refl intro: same_disks_kept)
      with kept1 kept2 kept3 show ?thesis by (blast intro: all_kept_trans)
    qed
  qed
qed

subsection \<open>What a repair achieves\<close>

definition holds :: "'s \<Rightarrow> string \<Rightarrow> string \<Rightarrow> bool" where
  "holds s node c \<longleftrightarrow> store_contains (disk_at s node) c = Inr True"

lemma holds_kept: "all_kept s s' \<Longrightarrow> holds s node c \<Longrightarrow> holds s' node c"
  unfolding all_kept_def holds_def by (blast intro: chunks_kept_contains)

lemma check_targets_result:
  assumes "step_fold (check_target pool p) nodes (waiting, stats) s = (s', Inr (targets, checked))"
  shows "set waiting \<subseteq> set targets \<and> (\<forall>node \<in> set nodes. node \<notin> set targets \<longrightarrow> holds s' node (rcp_chunk_id p)) \<and>
    checked = stats\<lparr>rst_replicas_verified := rst_replicas_verified checked\<rparr> \<and>
    rst_replicas_verified checked + of_nat (length targets) =
      rst_replicas_verified stats + of_nat (length waiting) + of_nat (length nodes)"
  using assms
proof (induction nodes arbitrary: waiting stats s)
  case (Cons node nodes)
  from Cons.prems obtain mid waiting1 stats1 where first: "check_target pool p node (waiting, stats) s = (mid, Inr (waiting1, stats1))"
    and rest: "step_fold (check_target pool p) nodes (waiting1, stats1) mid = (s', Inr (targets, checked))"
    by (auto simp: step_bind_eq)
  from first obtain client where client: "client_for pool node = Inr client"
    by (auto simp: check_target_def step_bind_eq split: if_splits)
  have same: "disk_at s' = disk_at mid" by (rule check_targets_kept [OF rest])
  have "waiting1 = waiting \<and> stats1 = stats\<lparr>rst_replicas_verified := rst_replicas_verified stats + 1\<rparr> \<and>
        holds mid node (rcp_chunk_id p) \<or>
      waiting1 = waiting @ [node] \<and> stats1 = stats"
  proof -
    have "holds mid node (rcp_chunk_id p)" if "has_chunk_on client (rcp_chunk_id p) s = (mid, Inr True)"
      using pool_has(1,3) [OF client that] by (simp add: holds_def)
    with first client show ?thesis by (auto simp: check_target_def step_bind_eq split: if_splits)
  qed
  with Cons.IH [OF rest] same show ?case
    by (elim disjE conjE) (auto simp: holds_def algebra_simps)
qed simp

lemma fetch_source_stats:
  assumes "fetch_source H pool c sources stats s = (s', Inr (found, fetched))"
  shows "fetched = stats\<lparr>rst_source_failovers := rst_source_failovers fetched\<rparr>"
  using assms
proof (induction sources arbitrary: stats s)
  case (Cons source sources)
  show ?case
  proof (cases "pool_contains pool (rne_node_id source)")
    case True
    then obtain client where client: "client_for pool (rne_node_id source) = Inr client"
      by (auto simp: pool_contains_def client_for_def)
    obtain mid got where get: "get_chunk_from H client c s = (mid, got)" by fastforce
    from Cons.prems True client get show ?thesis
      by (auto simp: step_bind_def split: sum.splits option.splits if_splits dest!: Cons.IH) (metis+)?
  next
    case False
    with Cons show ?thesis by simp
  qed
qed simp

lemma write_target_result:
  assumes "write_target metadata_client pool p bytes node stats s = (s', Inr result)"
  shows "holds s' node (rcp_chunk_id p)"
    and "result = stats\<lparr>rst_replicas_written := rst_replicas_written stats + 1,
      rst_bytes_copied := rst_bytes_copied stats + rcp_size_bytes p\<rparr>"
proof -
  from assms obtain client mid where client: "client_for pool node = Inr client"
    and put: "put_chunk_on client (rcp_chunk_id p) bytes s = (mid, Inr ())"
    and register: "register_storage_location_on metadata_client \<lparr>sl_chunk_id = rcp_chunk_id p, sl_node_id = node,
      sl_storage_path = logical_storage_path (rcp_chunk_id p), sl_state = Available\<rparr> mid = (s', Inr ())"
    and result: "result = stats\<lparr>rst_replicas_written := rst_replicas_written stats + 1,
      rst_bytes_copied := rst_bytes_copied stats + rcp_size_bytes p\<rparr>"
    by (auto simp: write_target_def step_bind_eq)
  show "holds s' node (rcp_chunk_id p)"
    using pool_put(3) [OF client put] register_served [OF register] by (simp add: holds_def)
  show "result = stats\<lparr>rst_replicas_written := rst_replicas_written stats + 1,
      rst_bytes_copied := rst_bytes_copied stats + rcp_size_bytes p\<rparr>" by (rule result)
qed

definition replicas :: "replication_stats \<Rightarrow> u64" where
  "replicas stats = rst_replicas_verified stats + rst_replicas_written stats"

lemma write_targets_result:
  assumes "step_fold (write_target metadata_client pool p bytes) targets stats s = (s', Inr result)"
  shows "\<forall>node \<in> set targets. holds s' node (rcp_chunk_id p)"
    and "replicas result = replicas stats + of_nat (length targets)"
    and "rst_chunks_scanned result = rst_chunks_scanned stats"
proof -
  show "\<forall>node \<in> set targets. holds s' node (rcp_chunk_id p)"
    by (rule step_fold_all [OF _ _ assms, where P = "\<lambda>node acc s. holds s node (rcp_chunk_id p)"])
      (auto dest: write_target_result(1) intro: holds_kept [OF write_target_kept])
  have "replicas result = replicas stats + sum_list (map (\<lambda>_. 1) targets)"
    by (rule step_fold_sum [OF _ assms]) (auto simp: replicas_def algebra_simps dest: write_target_result(2))
  then show "replicas result = replicas stats + of_nat (length targets)" by (simp add: sum_list_triv)
  have "rst_chunks_scanned result = rst_chunks_scanned stats + sum_list (map (\<lambda>_. 0) targets)"
    by (rule step_fold_sum [OF _ assms]) (auto dest: write_target_result(2))
  then show "rst_chunks_scanned result = rst_chunks_scanned stats" by simp
qed

lemma repair_chunk_result:
  assumes "repair_chunk H metadata_client pool p stats s = (s', Inr result)"
  shows "\<forall>node \<in> set (rcp_desired_node_ids p). holds s' node (rcp_chunk_id p)"
    and "replicas result = replicas stats + of_nat (length (rcp_desired_node_ids p))"
    and "rst_chunks_scanned result = rst_chunks_scanned stats + 1"
proof -
  have "(\<forall>node \<in> set (rcp_desired_node_ids p). holds s' node (rcp_chunk_id p)) \<and>
    replicas result = replicas stats + of_nat (length (rcp_desired_node_ids p)) \<and>
    rst_chunks_scanned result = rst_chunks_scanned stats + 1"
    using assms
  proof (cases rule: repair_chunk_cases)
    case (verified checked)
    from check_targets_result [OF verified(1)] verified(2) show ?thesis
      by (auto simp: replicas_def algebra_simps) (metis+)?
  next
    case (written mid targets checked bytes mid' fetched)
    note check = check_targets_result [OF written(1)] and fetch = fetch_source_stats [OF written(3)]
      and wrote = write_targets_result [OF written(5)]
    have "all_kept mid s'"
      using fetch_source_kept [OF written(3)] write_targets_kept [OF written(5)] by (simp add: all_kept_def)
    then have "\<forall>node \<in> set (rcp_desired_node_ids p). holds s' node (rcp_chunk_id p)"
      using check wrote(1) holds_kept by blast
    moreover from check have stats: "checked = stats\<lparr>rst_chunks_scanned := rst_chunks_scanned stats + 1,
        rst_replicas_verified := rst_replicas_verified checked\<rparr>"
      and count: "rst_replicas_verified checked + of_nat (length targets) =
        rst_replicas_verified stats + of_nat (length (rcp_desired_node_ids p))" by simp_all
    have "rst_replicas_verified fetched = rst_replicas_verified checked"
      and "rst_replicas_written fetched = rst_replicas_written stats"
      and "rst_chunks_scanned fetched = rst_chunks_scanned stats + 1"
      by (subst fetch, simp) (subst fetch, subst stats, simp)+
    with wrote(2,3) count have "replicas result = replicas stats + of_nat (length (rcp_desired_node_ids p))"
      and "rst_chunks_scanned result = rst_chunks_scanned stats + 1"
      by (simp_all add: replicas_def algebra_simps)
    ultimately show ?thesis by blast
  qed simp
  then show "\<forall>node \<in> set (rcp_desired_node_ids p). holds s' node (rcp_chunk_id p)"
    and "replicas result = replicas stats + of_nat (length (rcp_desired_node_ids p))"
    and "rst_chunks_scanned result = rst_chunks_scanned stats + 1" by blast+
qed

lemma repair_achieves:
  assumes "repair H metadata_client pool request s = (s', Inr result)"
    and "start_replication_run_on metadata_client (rpq_run_id request) (rpq_version_id request)
      (rpq_replication_factor request) s = (s1, Inr run)" and "rpr_state run \<noteq> ReplCompleted"
  shows "\<exists>planned plan stats before finished. get_replication_plan H planned (rpq_run_id request) = Inr plan \<and>
    (\<forall>p \<in> set (rpp_chunks plan). \<forall>node \<in> set (rcp_desired_node_ids p). holds s' node (rcp_chunk_id p)) \<and>
    complete_replication_run H before (rpq_run_id request) stats = Inr (db_of s', finished) \<and>
    result = repair_result_of finished \<and>
    rst_chunks_scanned stats = rst_chunks_scanned (rpr_stats run) + of_nat (length (rpp_chunks plan)) \<and>
    replicas stats = replicas (rpr_stats run) + (\<Sum>p \<leftarrow> rpp_chunks plan. of_nat (length (rcp_desired_node_ids p)))"
proof -
  from start_served [OF assms(2)] have rid: "is_uuid (rpq_run_id request)" by blast
  from assms obtain s2 plan s3 stats finished where
    get: "get_replication_plan_from metadata_client (rpq_run_id request) s1 = (s2, Inr plan)"
    and fold: "step_fold (repair_chunk H metadata_client pool) (rpp_chunks plan) (rpr_stats run) s2 = (s3, Inr stats)"
    and complete: "complete_replication_run_on metadata_client (rpq_run_id request) stats s3 = (s', Inr finished)"
    and result: "result = repair_result_of finished"
    by (auto simp: repair_def step_bind_eq)
  from plan_served [OF rid get] obtain whole where
    whole: "get_replication_plan H (db_of s2) (rpq_run_id request) = Inr whole" and plan: "plan = readable_plan whole" by blast
  from complete_served [OF rid complete] obtain before where
    completed: "complete_replication_run H before (rpq_run_id request) stats = Inr (db_of s', finished)"
    and same: "disk_at s' = disk_at s3" by blast
  let ?P = "\<lambda>p (acc :: replication_stats) s. \<forall>node \<in> set (rcp_desired_node_ids p). holds s node (rcp_chunk_id p)"
  have "\<forall>p \<in> set (rpp_chunks plan). ?P p stats s3"
    by (rule step_fold_all [OF _ _ fold, where P = ?P])
      (auto dest: repair_chunk_result(1) intro: holds_kept [OF repair_chunk_kept])
  then have held: "\<forall>p \<in> set (rpp_chunks whole). \<forall>node \<in> set (rcp_desired_node_ids p). holds s' node (rcp_chunk_id p)"
    by (auto simp: plan readable_plan_def readable_chunk_plan_def holds_def same)
  have "rst_chunks_scanned stats = rst_chunks_scanned (rpr_stats run) + sum_list (map (\<lambda>_. 1) (rpp_chunks plan))"
    by (rule step_fold_sum [OF _ fold]) (rule repair_chunk_result(3))
  then have scanned: "rst_chunks_scanned stats = rst_chunks_scanned (rpr_stats run) + of_nat (length (rpp_chunks whole))"
    by (simp add: sum_list_triv plan readable_plan_def comp_def)
  have "replicas stats = replicas (rpr_stats run) + sum_list (map (\<lambda>p. of_nat (length (rcp_desired_node_ids p))) (rpp_chunks plan))"
    by (rule step_fold_sum [OF _ fold]) (rule repair_chunk_result(2))
  then have "replicas stats = replicas (rpr_stats run) + (\<Sum>p \<leftarrow> rpp_chunks whole. of_nat (length (rcp_desired_node_ids p)))"
    by (simp add: plan readable_plan_def readable_chunk_plan_def comp_def)
  with whole held completed result scanned show ?thesis by blast
qed

end


subsection \<open>The services are such a world\<close>

lemma served_result:
  assumes "served net f w w' r"
  shows "cw_disks w' = cw_disks w \<and> (\<forall>x. r = Inr x \<longrightarrow> (\<exists>before. f before = Inr (mw_db w', x)))"
  using assms by (auto simp: served_def dest: more_disks)

lemma repair_served:
  assumes codec: "json_codec parse serialize"
  shows "repair_world H (cluster_pool H parse serialize io max_body config nodes) cw_disks mw_db
    (service_client net H is_ip parse serialize clocks max_body' config')"
proof (intro repair_world.intro repair_world_axioms.intro)
  show "node_pool H (cluster_pool H parse serialize io max_body config nodes) cw_disks mw_db"
    by (rule cluster_pool_serves [OF codec])
next
  fix rid vid rf and s s' :: cluster_world and started
  assume "start_replication_run_on (service_client net H is_ip parse serialize clocks max_body' config') rid vid rf s = (s', started)"
  from served_result [OF start_replication_run_served [OF codec this]]
  show "cw_disks s' = cw_disks s \<and> (\<forall>run. started = Inr run \<longrightarrow> is_uuid rid \<and>
      (\<exists>before. start_replication_run H before rid vid rf = Inr (mw_db s', run)))"
    by (auto simp: rbind_eq_Inr uuid_v7_ok)
next
  fix rid and s s' :: cluster_world and got
  assume rid: "is_uuid rid"
    and "get_replication_plan_from (service_client net H is_ip parse serialize clocks max_body' config') rid s = (s', got)"
  from served_result [OF get_replication_plan_served [OF codec this]]
  show "cw_disks s' = cw_disks s \<and> (\<forall>plan. got = Inr plan \<longrightarrow>
      (\<exists>whole. get_replication_plan H (mw_db s') rid = Inr whole \<and> plan = readable_plan whole))"
    by (auto simp: rbind_eq_Inr)
next
  fix location and s s' :: cluster_world and registered
  assume "register_storage_location_on (service_client net H is_ip parse serialize clocks max_body' config') location s =
      (s', registered)"
  from served_result [OF register_location_served [OF codec this]]
  show "cw_disks s' = cw_disks s \<and>
      (registered = Inr () \<longrightarrow> (\<exists>before. register_storage_location before location = Inr (mw_db s')))"
    by (auto simp: rbind_eq_Inr)
next
  fix rid stats and s s' :: cluster_world and completed
  assume rid: "is_uuid rid"
    and "complete_replication_run_on (service_client net H is_ip parse serialize clocks max_body' config') rid stats s =
      (s', completed)"
  from served_result [OF complete_replication_run_served [OF codec this]]
  show "cw_disks s' = cw_disks s \<and>
      (\<forall>run. completed = Inr run \<longrightarrow> (\<exists>before. complete_replication_run H before rid stats = Inr (mw_db s', run)))"
    by blast
qed

interpretation sample_repair: repair_world H "cluster_pool H sample_parse sample_serialize io max_body config nodes" cw_disks mw_db
    "service_client net H is_ip sample_parse sample_serialize clocks max_body' config'"
  by (rule repair_served [OF sample_codec])

subsection \<open>Repair, end to end\<close>

text \<open>
  C28: A repair never loses a chunk. However it ends, with a result or with an exception at any point, and whatever the
  network between the engine and the metadata service loses: on every storage node, every chunk file is as it was before,
  or is whole with content that hashes to its name; so what a node served before it serves afterwards.
\<close>

theorem repair_keeps_chunks:
  assumes "json_codec parse serialize"
    and "repair H (service_client net H is_ip parse serialize clocks max_body' config')
      (cluster_pool H parse serialize io max_body config nodes) request w = (w', r)"
  shows "chunks_kept H (cw_disks w node) (cw_disks w' node) \<and>
    (store_contains (cw_disks w node) c = Inr True \<longrightarrow> store_contains (cw_disks w' node) c = Inr True)"
proof -
  note world = repair_served [OF assms(1)]
  from repair_world.repair_kept [OF world assms(2)]
  have "chunks_kept H (cw_disks w node) (cw_disks w' node)" by (simp add: repair_world.all_kept_def [OF world])
  with chunks_kept_contains show ?thesis by blast
qed


subsection \<open>Witnesses\<close>

text \<open>A version with one chunk on one of two nodes, and a run that wants it on both.\<close>

definition five_id :: string where
  "five_id = digest_to_hex (sample_hash [1, 2, 3, 4, 5])"

definition layout_73 :: string where
  "layout_73 = concat (replicate 32 ''73'')"

definition version_4c :: string where
  "version_4c = concat (replicate 32 ''4c'')"

definition sample_replica_db :: database where
  "sample_replica_db = empty_database
     \<lparr>artifacts := [\<lparr>art_artifact_id = sample_uuid, art_name = ''model'', art_project = ''demo''\<rparr>],
      objects := [\<lparr>o_object_id = five_id, o_total_size_bytes = 5\<rparr>],
      chunks := [\<lparr>c_chunk_id = five_id, c_size_bytes = 5\<rparr>],
      object_layouts :=
        [\<lparr>l_layout_id = layout_73, l_object_id = five_id, l_descriptor_version = 1, l_chunking_strategy = FixedSize,
          l_fastcdc_min = None, l_fastcdc_avg = None, l_fastcdc_max = None,
          l_canonical_descriptor =
            as_bytes ''AISTORE_LAYOUT'' @ [0, 0, 0, 1] @ replicate 32 5 @ [1] @ [0, 0, 0, 0, 0, 0, 0, 5] @
            [0, 0, 0, 0, 0, 0, 0, 1] @ replicate 32 5 @ [0, 0, 0, 0, 0, 0, 0, 0] @ [0, 0, 0, 0, 0, 0, 0, 5],
          l_total_size_bytes = 5, l_chunk_count = 1\<rparr>],
      object_layout_chunks :=
        [\<lparr>lc_layout_id = layout_73, lc_chunk_index = 0, lc_chunk_id = five_id, lc_byte_offset = 0, lc_chunk_size_bytes = 5\<rparr>],
      storage_locations :=
        [\<lparr>sl_chunk_id = five_id, sl_node_id = ''node-a'', sl_storage_path = ''p'', sl_state = Available\<rparr>],
      storage_nodes :=
        [\<lparr>n_node_id = ''node-a'', n_address = ''::1'', n_port = 7, n_state = Active\<rparr>,
         \<lparr>n_node_id = ''node-b'', n_address = ''::1'', n_port = 7, n_state = Active\<rparr>],
      artifact_versions :=
        [\<lparr>v_version_id = version_4c, v_artifact_id = sample_uuid, v_root_object_id = five_id, v_parent_version_id = None,
          v_descriptor_version = 1,
          v_canonical_descriptor =
            as_bytes ''AISTORE_VERSION'' @ [0, 0, 0, 1] @
            [0x01, 0x8b, 0xcf, 0xe5, 0x68, 0x00, 0x71, 0x02, 0x83, 0x04, 0x05, 0x06, 0x07, 0x08, 0x09, 0x0a] @
            replicate 32 5 @ [0] @ [0, 0, 0, 0, 0, 0, 0, 0],
          v_state = VersionCommitted, v_created_at = 0\<rparr>]\<rparr>"

definition sample_cluster :: cluster_world where
  "sample_cluster =
     \<lparr>mw_db = sample_replica_db, mw_calls = 0,
      cw_disks = (\<lambda>_. None)(''node-a'' := Some [(''05'', Fanout [(five_id, Regular [1, 2, 3, 4, 5])])],
        ''node-b'' := Some [])\<rparr>"

definition sample_repair_request :: repair_request where
  "sample_repair_request = \<lparr>rpq_run_id = sample_uuid,
     rpq_version_id = version_4c, rpq_replication_factor = 2\<rparr>"

definition delivering :: network where
  "delivering = \<lparr>nw_others = \<lambda>_ db. db, nw_fate = \<lambda>_. Delivered\<rparr>"

definition small_config :: http_client_config where
  "small_config = \<lparr>max_request_body_bytes = 1000, max_response_body_bytes = 1000\<rparr>"

definition working_node_io :: node_io where
  "working_node_io = \<lparr>nio_put = sample_put_io, nio_get = \<lparr>opens = True, reads = True\<rparr>, nio_removes = True\<rparr>"

definition sample_service :: "cluster_world metadata_client" where
  "sample_service = service_client delivering sample_hash (\<lambda>_. True) sample_parse sample_serialize (0, 0) 1000 small_config"

definition sample_nodes_pool :: "cluster_world client_pool" where
  "sample_nodes_pool = cluster_pool sample_hash sample_parse sample_serialize (\<lambda>_. working_node_io) 1000 small_config
     [''node-a'', ''node-b'']"

lemma sample_repair_runs:
  obtains w' result w1 run where "repair sample_hash sample_service sample_nodes_pool sample_repair_request sample_cluster = (w', Inr result)"
    and "start_replication_run_on sample_service (rpq_run_id sample_repair_request) (rpq_version_id sample_repair_request)
      (rpq_replication_factor sample_repair_request) sample_cluster = (w1, Inr run)" and "rpr_state run \<noteq> ReplCompleted"
    and "store_contains (cw_disks sample_cluster ''node-b'') five_id = Inr False"
    and "store_contains (cw_disks w' ''node-b'') five_id = Inr True"
    and "rst_replicas_verified (rps_stats result) = 1" and "rst_replicas_written (rps_stats result) = 1"
proof -
  have "case repair sample_hash sample_service sample_nodes_pool sample_repair_request sample_cluster of
      (w', Inr result) \<Rightarrow> store_contains (cw_disks w' ''node-b'') five_id = Inr True \<and>
        rst_replicas_verified (rps_stats result) = 1 \<and> rst_replicas_written (rps_stats result) = 1 | _ \<Rightarrow> False"
    by code_simp
  moreover have "case start_replication_run_on sample_service (rpq_run_id sample_repair_request) (rpq_version_id sample_repair_request)
      (rpq_replication_factor sample_repair_request) sample_cluster of (w1, Inr run) \<Rightarrow> rpr_state run \<noteq> ReplCompleted | _ \<Rightarrow> False"
    by code_simp
  moreover have "store_contains (cw_disks sample_cluster ''node-b'') five_id = Inr False" by code_simp
  ultimately show thesis by (auto intro: that split: prod.splits sum.splits)
qed

theorem repair_keeps_chunks_witness:
  "\<exists>w' r. repair sample_hash sample_service sample_nodes_pool sample_repair_request sample_cluster = (w', r) \<and>
     store_contains (cw_disks w' ''node-a'') five_id = Inr True"
proof (rule sample_repair_runs)
  fix w' result
  assume repaired: "repair sample_hash sample_service sample_nodes_pool sample_repair_request sample_cluster = (w', Inr result)"
  have "store_contains (cw_disks sample_cluster ''node-a'') five_id = Inr True" by code_simp
  with repair_keeps_chunks [OF sample_codec repaired [unfolded sample_service_def sample_nodes_pool_def], of "''node-a''" five_id] repaired
  show ?thesis by blast
qed


end
