(* ===== verification/Partial_File.thy ===== *)
theory Partial_File
  imports Chunk_Store
begin

section \<open>The partial file of a pull\<close>

text \<open>
  The first half of \<open>src/pull/pull_engine.cpp\<close>: the checks of the destination, the file \<open>.part\<close> beside it that a
  pull writes and a later one resumes, and its publication. The results of the system calls are arguments; a file is
  its bytes. The loops of \<open>read_all\<close> and \<open>write_all\<close> retry interrupted calls without bound, so \<open>None\<close> is not
  returning.
\<close>

subsection \<open>Paths\<close>

datatype file_kind = Regular_file "byte list" | Directory_file | Special_file

text \<open>A symbolic link has the kind of what it leads to, if anything.\<close>

datatype path_entry = No_entry | Entry file_kind | Symlink "file_kind option"

type_synonym files = "string \<Rightarrow> path_entry"

fun resolved :: "path_entry \<Rightarrow> file_kind option" where
  "resolved No_entry = None"
| "resolved (Entry kind) = Some kind"
| "resolved (Symlink target) = target"

definition path_exists :: "path_entry \<Rightarrow> bool" where
  "path_exists entry \<longleftrightarrow> resolved entry \<noteq> None"

definition path_is_directory :: "path_entry \<Rightarrow> bool" where
  "path_is_directory entry \<longleftrightarrow> resolved entry = Some Directory_file"

text \<open>\<open>std::filesystem::path::parent_path\<close>.\<close>

definition parent_path :: "string \<Rightarrow> string" where
  "parent_path path =
     (if CHR ''/'' \<notin> set path then []
      else let directory = rev (dropWhile (\<lambda>c. c = CHR ''/'') (dropWhile (\<lambda>c. c \<noteq> CHR ''/'') (rev path)))
           in if directory = [] then ''/'' else directory)"

record pull_request =
  plq_version_id :: string
  plq_destination_path :: string
  plq_overwrite :: bool

definition validate_destination :: "files \<Rightarrow> pull_request \<Rightarrow> unit res" where
  "validate_destination files request =
     (let destination = plq_destination_path request; parent = parent_path destination
      in if destination = [] then Inl Invalid_argument
         else if parent = [] then Inl Invalid_argument
         else if \<not> path_exists (files parent) then Inl Invalid_argument
         else if \<not> path_is_directory (files parent) then Inl Invalid_argument
         else if path_is_directory (files destination) then Inl Invalid_argument
         else if path_exists (files destination) \<and> \<not> plq_overwrite request then Inl Runtime_error
         else Inr ())"

definition partial_path :: "pull_request \<Rightarrow> string" where
  "partial_path request = plq_destination_path request @ ''.aistore.'' @ plq_version_id request @ ''.part''"

lemma partial_path_differs: "partial_path request \<noteq> plq_destination_path request"
  by (simp add: partial_path_def)

subsection \<open>System calls\<close>

datatype read_result = Read nat | Read_interrupted | Read_failed

record partial_io =
  pio_open :: bool
  pio_stat :: bool
  pio_size :: bool
  pio_truncate :: "nat \<Rightarrow> bool"
  pio_read :: "nat \<Rightarrow> read_result"
  pio_write :: "nat \<Rightarrow> write_result"
  pio_fsync :: bool
  pio_close :: bool
  pio_publish :: bool
  pio_unlink :: bool

text \<open>The largest \<open>ssize_t\<close> and \<open>off_t\<close>; a position beyond it is negative and refused by the kernel.\<close>

definition kOffMax :: int where
  "kOffMax = 0x7FFFFFFFFFFFFFFF"

definition fits_off :: "nat \<Rightarrow> bool" where
  "fits_off n \<longleftrightarrow> int n \<le> kOffMax"

definition write_at :: "byte list \<Rightarrow> nat \<Rightarrow> byte list \<Rightarrow> byte list" where
  "write_at content offset data =
     take offset content @ replicate (offset - length content) 0 @ data @ drop (offset + length data) content"

partial_function (option) pwrite_all ::
  "(nat \<Rightarrow> write_result) \<Rightarrow> nat \<Rightarrow> nat \<Rightarrow> byte list \<Rightarrow> byte list \<Rightarrow> (nat \<times> byte list \<times> unit res) option" where
  "pwrite_all results k offset data content =
     (if data = [] then Some (k, content, Inr ())
      else if \<not> fits_off (length data) then Some (k, content, Inl Runtime_error)
      else if \<not> fits_off offset then Some (k, content, Inl System_error)
      else case results k of
             Interrupted \<Rightarrow> pwrite_all results (Suc k) offset data content
           | Write_failed \<Rightarrow> Some (Suc k, content, Inl System_error)
           | Wrote n \<Rightarrow>
               if n = 0 then Some (Suc k, content, Inl Runtime_error)
               else pwrite_all results (Suc k) (offset + min n (length data)) (drop n data)
                      (write_at content offset (take n data)))"

declare pwrite_all.simps [code]

text \<open>\<open>pread\<close> at the end of the file reads nothing.\<close>

partial_function (option) pread_all ::
  "(nat \<Rightarrow> read_result) \<Rightarrow> nat \<Rightarrow> byte list \<Rightarrow> nat \<Rightarrow> nat \<Rightarrow> byte list \<Rightarrow> (nat \<times> byte list res) option" where
  "pread_all results k content offset size_bytes buffer =
     (if size_bytes \<le> length buffer then Some (k, Inr buffer)
      else if \<not> fits_off (size_bytes - length buffer) then Some (k, Inl Runtime_error)
      else if \<not> fits_off (offset + length buffer) then Some (k, Inl System_error)
      else case results k of
             Read_interrupted \<Rightarrow> pread_all results (Suc k) content offset size_bytes buffer
           | Read_failed \<Rightarrow> Some (Suc k, Inl System_error)
           | Read n \<Rightarrow>
               let bytes = take (min n (size_bytes - length buffer)) (drop (offset + length buffer) content)
               in if bytes = [] then Some (Suc k, Inl Runtime_error)
                  else pread_all results (Suc k) content offset size_bytes (buffer @ bytes))"

declare pread_all.simps [code]

definition truncate_file :: "bool \<Rightarrow> byte list \<Rightarrow> u64 \<Rightarrow> byte list \<times> unit res" where
  "truncate_file succeeds content new_length =
     (if kOffMax < uint new_length then (content, Inl Runtime_error)
      else if \<not> succeeds then (content, Inl System_error)
      else (take (unat new_length) content @ replicate (unat new_length - length content) 0, Inr ()))"

text \<open>\<open>fstat\<close> fails for a file whose size is no \<open>off_t\<close>.\<close>

definition file_size :: "partial_io \<Rightarrow> byte list \<Rightarrow> u64 res" where
  "file_size io content =
     (if \<not> pio_size io \<or> \<not> fits_off (length content) then Inl System_error else Inr (of_nat (length content)))"

text \<open>\<open>O_CREAT\<close> makes the file when nothing is there, \<open>O_NOFOLLOW\<close> refuses a link.\<close>

definition open_partial_file :: "partial_io \<Rightarrow> string \<Rightarrow> files \<Rightarrow> files \<times> byte list res" where
  "open_partial_file io path files =
     (if \<not> pio_open io then (files, Inl System_error)
      else case files path of
             No_entry \<Rightarrow> (files(path := Entry (Regular_file [])), if pio_stat io then Inr [] else Inl System_error)
           | Entry (Regular_file content) \<Rightarrow> (files, if pio_stat io then Inr content else Inl System_error)
           | Entry Special_file \<Rightarrow> (files, if pio_stat io then Inl Runtime_error else Inl System_error)
           | Entry Directory_file \<Rightarrow> (files, Inl System_error)
           | Symlink _ \<Rightarrow> (files, Inl System_error))"

subsection \<open>Resuming\<close>

definition chunk_bytes_match_id :: "hash \<Rightarrow> byte list \<Rightarrow> string \<Rightarrow> bool res" where
  "chunk_bytes_match_id H bytes chunk_id = rbind (hash_bytes H bytes) (\<lambda>actual. Inr (actual = chunk_id))"

record resume_state =
  rsm_first_download_index :: nat
  rsm_chunks_reused_from_partial :: nat
  rsm_object_hasher :: sha256

text \<open>The loop over the chunks, from the call number \<open>k\<close> of \<open>pread\<close>: the file afterwards and the state or the exception.\<close>

fun resume_chunks ::
  "hash \<Rightarrow> partial_io \<Rightarrow> u64 \<Rightarrow> nat \<Rightarrow> chunk_ref list \<Rightarrow> resume_state \<Rightarrow> nat \<Rightarrow> byte list \<Rightarrow>
   (byte list \<times> resume_state res) option" where
  "resume_chunks H io partial_size index [] state k content = Some (content, Inr state)"
| "resume_chunks H io partial_size index (chunk # chunks) state k content =
     (if cr_offset chunk + cr_size chunk \<le> partial_size then
        Option.bind (pread_all (pio_read io) k content (unat (cr_offset chunk)) (unat (cr_size chunk)) []) (\<lambda>(k, read_bytes).
        case rbind read_bytes (\<lambda>bytes. rbind (chunk_bytes_match_id H bytes (cr_chunk_id chunk)) (\<lambda>matches. Inr (bytes, matches))) of
          Inl e \<Rightarrow> Some (content, Inl e)
        | Inr (bytes, False) \<Rightarrow>
            (let (content, truncated) = truncate_file (pio_truncate io 1) content (cr_offset chunk)
             in Some (content, rbind truncated (\<lambda>_. Inr state)))
        | Inr (bytes, True) \<Rightarrow>
            (case sha256_update (rsm_object_hasher state) bytes of
               Inl e \<Rightarrow> Some (content, Inl e)
             | Inr hasher \<Rightarrow>
                 resume_chunks H io partial_size (Suc index) chunks
                   \<lparr>rsm_first_download_index = Suc index,
                    rsm_chunks_reused_from_partial = rsm_chunks_reused_from_partial state + 1,
                    rsm_object_hasher = hasher\<rparr> k content))
      else if cr_offset chunk < partial_size then
        (let (content, truncated) = truncate_file (pio_truncate io 1) content (cr_offset chunk)
         in Some (content, rbind truncated (\<lambda>_. Inr state)))
      else Some (content, Inr state))"

definition resume_from_partial ::
  "hash \<Rightarrow> partial_io \<Rightarrow> u64 \<Rightarrow> chunk_ref list \<Rightarrow> byte list \<Rightarrow> (byte list \<times> resume_state res) option" where
  "resume_from_partial H io total_size chunks content =
     (let fresh = \<lparr>rsm_first_download_index = 0, rsm_chunks_reused_from_partial = 0, rsm_object_hasher = sha256_new\<rparr>
      in case file_size io content of
           Inl e \<Rightarrow> Some (content, Inl e)
         | Inr partial_size \<Rightarrow>
             if total_size < partial_size
             then (case truncate_file (pio_truncate io 0) content 0 of
                     (content, Inl e) \<Rightarrow> Some (content, Inl e)
                   | (content, Inr _) \<Rightarrow> resume_chunks H io 0 0 chunks fresh 0 content)
             else resume_chunks H io partial_size 0 chunks fresh 0 content)"

subsection \<open>Publishing\<close>

text \<open>\<open>rename\<close> replaces the destination unless it is a directory; \<open>link\<close> fails when anything is there, and the partial
  file is then removed if it can be.\<close>

definition publish_partial :: "partial_io \<Rightarrow> string \<Rightarrow> string \<Rightarrow> bool \<Rightarrow> files \<Rightarrow> files \<times> unit res" where
  "publish_partial io partial destination overwrite files =
     (if overwrite
      then if \<not> pio_publish io \<or> files destination = Entry Directory_file then (files, Inl System_error)
           else (files(destination := files partial, partial := No_entry), Inr ())
      else if \<not> pio_publish io \<or> files destination \<noteq> No_entry then (files, Inl System_error)
      else ((files(destination := files partial))(partial := if pio_unlink io then No_entry else files partial), Inr ()))"

subsection \<open>Writing at the end, reading a slice\<close>

lemma write_at_end: "write_at content (length content) data = content @ data"
  by (simp add: write_at_def)

text \<open>Written at the end of the file, the data arrives there from the front, all of it when the loop succeeds.\<close>

lemma pwrite_all_appends:
  assumes "pwrite_all results k (length content) data content = Some (k', content', ended)"
  shows "(\<exists>n. content' = content @ take n data) \<and> (ended = Inr () \<longrightarrow> content' = content @ data)"
proof -
  have "\<forall>k' content' ended. r = (k', content', ended) \<longrightarrow> offset = length content \<longrightarrow>
      (\<exists>n. content' = content @ take n data) \<and> (ended = Inr () \<longrightarrow> content' = content @ data)"
    if "pwrite_all results k offset data content = Some r" for r offset
    using that
  proof (induction rule: pwrite_all.raw_induct [rotated, consumes 1])
    case (1 pwrite_all' results k offset data content r)
    have nothing: "\<exists>n. content = content @ take n data" by (rule exI [of _ 0]) simp
    show ?case
    proof (cases "data = [] \<or> \<not> fits_off (length data) \<or> \<not> fits_off offset")
      case True
      then show ?thesis using 1(2) nothing by (auto split: if_splits)
    next
      case False
      show ?thesis
      proof (cases "results k")
        case (Wrote n)
        show ?thesis
        proof (cases "n = 0")
          case n: False
          have rest: "pwrite_all' results (Suc k) (offset + min n (length data)) (drop n data)
              (write_at content offset (take n data)) = Some r"
            using 1(2) False Wrote n by simp
          note IH = 1(1) [OF rest, rule_format]
          have "content @ take n data @ take i (drop n data) = content @ take (n + i) data" for i
            by (simp add: take_add)
          then show ?thesis using IH by (fastforce simp: write_at_end)
        qed (use 1(2) False Wrote nothing in auto)
      qed (use 1(2) False nothing in \<open>auto dest: 1(1)\<close>)
    qed
  qed
  with assms show ?thesis by blast
qed

lemma pread_all_slice:
  assumes "pread_all results k content offset size_bytes [] = Some (k', Inr bytes)"
  shows "bytes = take size_bytes (drop offset content)" and "length bytes = size_bytes"
proof -
  have main: "\<forall>k' bytes. r = (k', Inr bytes) \<longrightarrow> buffer = take (length buffer) (drop offset content) \<longrightarrow> length buffer \<le> size_bytes \<longrightarrow>
      bytes = take size_bytes (drop offset content) \<and> length bytes = size_bytes"
    if "pread_all results k content offset size_bytes buffer = Some r" for r buffer
    using that
  proof (induction rule: pread_all.raw_induct [rotated, consumes 1])
    case (1 pread_all' results k content offset size_bytes buffer r)
    let ?left = "size_bytes - length buffer"
    show ?case
    proof (cases "size_bytes \<le> length buffer \<or> \<not> fits_off ?left \<or> \<not> fits_off (offset + length buffer)")
      case True
      then show ?thesis using 1(2) by (auto split: if_splits)
    next
      case False
      show ?thesis
      proof (cases "results k")
        case (Read n)
        let ?bytes = "take (min n ?left) (drop (offset + length buffer) content)"
        show ?thesis
        proof (cases "?bytes = []")
          case some: False
          have rest: "pread_all' results (Suc k) content offset size_bytes (buffer @ ?bytes) = Some r"
            using 1(2) False Read some by (simp add: Let_def split: if_splits)
          have "buffer @ ?bytes = take (length buffer + min n ?left) (drop offset content)"
            if "buffer = take (length buffer) (drop offset content)"
            using that by (metis drop_drop add.commute take_add)
          then have "buffer @ ?bytes = take (length (buffer @ ?bytes)) (drop offset content)"
            if "buffer = take (length buffer) (drop offset content)"
            using that by (metis append_take_drop_id append_eq_conv_conj)
          moreover have "length (buffer @ ?bytes) \<le> size_bytes"
          proof -
            have "length ?bytes \<le> ?left" by simp
            with False show ?thesis unfolding length_append by linarith
          qed
          ultimately show ?thesis using 1(1) [OF rest] by blast
        next
          case True
          then show ?thesis using 1(2) False Read by (auto simp: Let_def split: if_splits)
        qed
      qed (use 1(2) False in \<open>auto dest: 1(1)\<close>)
    qed
  qed
  have "bytes = take size_bytes (drop offset content) \<and> length bytes = size_bytes"
    by (rule main [OF assms, rule_format, OF refl]) simp_all
  then show "bytes = take size_bytes (drop offset content)" and "length bytes = size_bytes" by blast+
qed

text \<open>Both loops return when the calls are not interrupted forever.\<close>

lemma skip_interrupts:
  assumes "\<And>k. \<exists>j \<ge> k. \<not> interrupted j" and "\<And>k. interrupted k \<Longrightarrow> loop k = loop (Suc k)"
  shows "\<exists>j \<ge> (k :: nat). \<not> interrupted j \<and> loop k = loop j"
proof -
  define j where "j = (LEAST j. k \<le> j \<and> \<not> interrupted j)"
  have j: "k \<le> j" "\<not> interrupted j"
    using LeastI_ex [of "\<lambda>j. k \<le> j \<and> \<not> interrupted j"] assms(1) [of k] by (simp_all add: j_def)
  have between: "interrupted i" if "k \<le> i" "i < j" for i
    using not_less_Least [of i "\<lambda>j. k \<le> j \<and> \<not> interrupted j"] that by (auto simp: j_def)
  have "loop k = loop j" using j(1) between
  proof (induction rule: inc_induct)
    case (step n)
    with assms(2) show ?case by simp
  qed simp
  with j show ?thesis by blast
qed

lemma pwrite_all_returns:
  assumes "\<And>k. \<exists>j \<ge> k. results j \<noteq> Interrupted"
  shows "\<exists>r. pwrite_all results k offset data content = Some r"
proof (induction "length data" arbitrary: k offset data content rule: less_induct)
  case less
  show ?case
  proof (cases "data = [] \<or> \<not> fits_off (length data) \<or> \<not> fits_off offset")
    case True
    then show ?thesis by (subst pwrite_all.simps) auto
  next
    case False
    have "\<exists>j \<ge> k. \<not> results j = Interrupted \<and> pwrite_all results k offset data content = pwrite_all results j offset data content"
    proof (rule skip_interrupts)
      fix k
      assume "results k = Interrupted"
      with False show "pwrite_all results k offset data content = pwrite_all results (Suc k) offset data content"
        by (subst pwrite_all.simps) simp
    qed (use assms in simp)
    then obtain j where j: "results j \<noteq> Interrupted"
      and skip: "pwrite_all results k offset data content = pwrite_all results j offset data content" by blast
    have shorter: "\<exists>r. pwrite_all results (Suc j) (offset + min n (length data)) (drop n data) c = Some r"
      if "data \<noteq> []" "n \<noteq> 0" for n c
      using less that by simp
    show ?thesis
      unfolding skip pwrite_all.simps [of results j offset data content]
      using shorter j by (cases "results j") auto
  qed
qed

lemma pread_all_returns:
  assumes "\<And>k. \<exists>j \<ge> k. results j \<noteq> Read_interrupted"
  shows "\<exists>r. pread_all results k content offset size_bytes buffer = Some r"
proof (induction "size_bytes - length buffer" arbitrary: k buffer rule: less_induct)
  case less
  let ?left = "size_bytes - length buffer"
  show ?case
  proof (cases "size_bytes \<le> length buffer \<or> \<not> fits_off ?left \<or> \<not> fits_off (offset + length buffer)")
    case True
    then show ?thesis by (subst pread_all.simps) auto
  next
    case False
    have "\<exists>j \<ge> k. \<not> results j = Read_interrupted \<and>
        pread_all results k content offset size_bytes buffer = pread_all results j content offset size_bytes buffer"
    proof (rule skip_interrupts)
      fix k
      assume "results k = Read_interrupted"
      with False show "pread_all results k content offset size_bytes buffer = pread_all results (Suc k) content offset size_bytes buffer"
        by (subst pread_all.simps) simp
    qed (use assms in simp)
    then obtain j where j: "results j \<noteq> Read_interrupted"
      and skip: "pread_all results k content offset size_bytes buffer = pread_all results j content offset size_bytes buffer" by blast
    have shorter: "\<exists>r. pread_all results (Suc j) content offset size_bytes (buffer @ bytes) = Some r"
      if "\<not> size_bytes \<le> length buffer" "bytes \<noteq> []" for bytes
      using that by (intro less) (cases bytes, simp_all)
    show ?thesis
      unfolding skip pread_all.simps [of results j content offset size_bytes buffer]
      using shorter j by (cases "results j") (auto simp: Let_def)
  qed
qed


subsection \<open>What resuming leaves\<close>

text \<open>The file holds exactly the chunks before \<open>index\<close>, each verified, and they are what was hashed so far.\<close>

definition holds_chunks :: "hash \<Rightarrow> chunk_ref list \<Rightarrow> byte list \<Rightarrow> bool" where
  "holds_chunks H chunks content \<longleftrightarrow> length content = layout_bytes chunks \<and>
     (\<forall>chunk \<in> set chunks. hash_bytes H (take (unat (cr_size chunk)) (drop (unat (cr_offset chunk)) content)) = Inr (cr_chunk_id chunk))"

definition resumed :: "hash \<Rightarrow> chunk_ref list \<Rightarrow> resume_state \<Rightarrow> byte list \<Rightarrow> bool" where
  "resumed H chunks state content \<longleftrightarrow>
     rsm_first_download_index state \<le> length chunks \<and>
     rsm_chunks_reused_from_partial state = rsm_first_download_index state \<and>
     \<not> sha_finalized (rsm_object_hasher state) \<and> sha_data (rsm_object_hasher state) = content \<and>
     holds_chunks H (take (rsm_first_download_index state) chunks) content"

lemma layout_bytes_Nil [simp]: "layout_bytes [] = 0"
  by (simp add: layout_bytes_def)

lemma layout_bytes_append [simp]: "layout_bytes (xs @ ys) = layout_bytes xs + layout_bytes ys"
  by (simp add: layout_bytes_def)

lemma layout_bytes_Cons [simp]: "layout_bytes (c # cs) = unat (cr_size c) + layout_bytes cs"
  by (simp add: layout_bytes_def)

lemma tiles_from_append:
  "tiles_from start (xs @ ys) n \<longleftrightarrow> tiles_from start xs (start + layout_bytes xs) \<and> tiles_from (start + layout_bytes xs) ys n"
  by (induction start xs n rule: tiles_from.induct) (auto simp: layout_bytes_def add.assoc)

lemma tiles_within:
  assumes "tiles_from start cs n" and "c \<in> set cs"
  shows "start \<le> unat (cr_offset c)" and "unat (cr_offset c) + unat (cr_size c) \<le> n"
  using assms by (induction start cs n rule: tiles_from.induct) (auto dest: tiles_from_length)

text \<open>Chunks already there are not touched by what is written behind them.\<close>

lemma holds_chunks_append:
  assumes "holds_chunks H xs content" and tiles: "tiles_from 0 xs (layout_bytes xs)"
    and "unat (cr_offset c) = layout_bytes xs" and "length bytes = unat (cr_size c)" and "hash_bytes H bytes = Inr (cr_chunk_id c)"
  shows "holds_chunks H (xs @ [c]) (content @ bytes)"
proof -
  have len: "length content = layout_bytes xs" using assms(1) by (simp add: holds_chunks_def)
  have "hash_bytes H (take (unat (cr_size x)) (drop (unat (cr_offset x)) (content @ bytes))) = Inr (cr_chunk_id x)"
    if "x \<in> set xs" for x
  proof -
    have "take (unat (cr_size x)) (drop (unat (cr_offset x)) (content @ bytes)) =
        take (unat (cr_size x)) (drop (unat (cr_offset x)) content)"
      using tiles_within(2) [OF tiles that] len by simp
    then show ?thesis using assms(1) that by (simp only: holds_chunks_def)
  qed
  moreover have "take (unat (cr_size c)) (drop (unat (cr_offset c)) (content @ bytes)) = bytes"
    using assms(3,4) len by simp
  ultimately show ?thesis using assms(4,5) len by (simp only: holds_chunks_def set_append list.set ball_Un ball_simps) simp
qed

lemma holds_chunks_take:
  assumes "holds_chunks H xs (take (layout_bytes xs) content)" and "layout_bytes xs \<le> length content"
    and tiles: "tiles_from 0 xs (layout_bytes xs)" and offset: "unat (cr_offset c) = layout_bytes xs"
    and bytes: "bytes = take (unat (cr_size c)) (drop (unat (cr_offset c)) content)" "length bytes = unat (cr_size c)"
    and "hash_bytes H bytes = Inr (cr_chunk_id c)"
  shows "holds_chunks H (xs @ [c]) (take (layout_bytes (xs @ [c])) content)" and "layout_bytes (xs @ [c]) \<le> length content"
    and "take (layout_bytes (xs @ [c])) content = take (layout_bytes xs) content @ bytes"
proof -
  show taken: "take (layout_bytes (xs @ [c])) content = take (layout_bytes xs) content @ bytes"
    using bytes(1) offset by (simp add: take_add)
  show "layout_bytes (xs @ [c]) \<le> length content"
    using bytes assms(2) offset by simp
  show "holds_chunks H (xs @ [c]) (take (layout_bytes (xs @ [c])) content)"
    unfolding taken by (rule holds_chunks_append [OF assms(1) tiles offset bytes(2) assms(7)])
qed

lemma truncate_file_ok:
  assumes "truncate_file ok content n = (content', Inr ())" and "unat n \<le> length content"
  shows "content' = take (unat n) content"
  using assms by (auto simp: truncate_file_def split: if_splits)

lemma resume_chunks_ok:
  assumes "resume_chunks H io partial_size (length before) chunks state k content = Some (content', Inr state')"
    and "tiles_from 0 (before @ chunks) whole" and "whole < 2 ^ 64"
    and "unat partial_size = length content" and "unat partial_size \<le> whole"
    and "layout_bytes before \<le> length content" and "holds_chunks H before (take (layout_bytes before) content)"
    and "rsm_first_download_index state = length before" and "rsm_chunks_reused_from_partial state = length before"
    and "\<not> sha_finalized (rsm_object_hasher state)"
    and "sha_data (rsm_object_hasher state) = take (layout_bytes before) content"
  shows "resumed H (before @ chunks) state' content'"
  using assms
proof (induction chunks arbitrary: before state k)
  case Nil
  then have "whole = layout_bytes before" using tiles_from_length [of 0 before whole] by simp
  with Nil show ?case by (auto simp: resumed_def)
next
  case (Cons c cs)
  have tiles: "tiles_from 0 before (layout_bytes before)" and c: "unat (cr_offset c) = layout_bytes before"
      "layout_bytes before + unat (cr_size c) \<le> whole"
    using Cons.prems(2) tiles_from_length [of "layout_bytes before + unat (cr_size c)" cs whole]
    by (simp_all add: tiles_from_append)
  have no_wrap: "unat (cr_offset c + cr_size c) = layout_bytes before + unat (cr_size c)"
    using c Cons.prems(3) by (simp add: unat_word_ariths)
  let ?stopped = "resumed H (before @ c # cs) state' (take (layout_bytes before) content)"
  have stopped: "?stopped" if "state' = state"
    using that Cons.prems(6-) by (simp add: resumed_def)
  show ?case
  proof (cases "cr_offset c + cr_size c \<le> partial_size")
    case True
    obtain k' r where read: "pread_all (pio_read io) k content (unat (cr_offset c)) (unat (cr_size c)) [] = Some (k', r)"
      using Cons.prems(1) True by (auto simp: bind_eq_Some_conv)
    with Cons.prems(1) True obtain bytes id where r: "r = Inr bytes" and id: "hash_bytes H bytes = Inr id"
      by (cases r) (auto simp: chunk_bytes_match_id_def rbind_def split: sum.splits)
    note slice = pread_all_slice [OF read [unfolded r]]
    show ?thesis
    proof (cases "id = cr_chunk_id c")
      case mine: True
      note taken = holds_chunks_take [OF Cons.prems(7) Cons.prems(6) tiles c(1) slice id [unfolded mine]]
      let ?hasher = "(rsm_object_hasher state)\<lparr>sha_data := sha_data (rsm_object_hasher state) @ bytes\<rparr>"
      have rest: "resume_chunks H io partial_size (length (before @ [c])) cs
          \<lparr>rsm_first_download_index = Suc (length before),
           rsm_chunks_reused_from_partial = rsm_chunks_reused_from_partial state + 1, rsm_object_hasher = ?hasher\<rparr> k' content =
          Some (content', Inr state')"
        using Cons.prems(1) True read r id mine sha256_update_live [OF Cons.prems(10)]
        by (simp add: chunk_bytes_match_id_def)
      have "resumed H ((before @ [c]) @ cs) state' content'"
        by (rule Cons.IH [OF rest]) (use Cons.prems taken in simp_all)
      then show ?thesis by simp
    next
      case False
      with Cons.prems(1) True read r id
      have "truncate_file (pio_truncate io 1) content (cr_offset c) = (content', Inr ())" and "state' = state"
        by (auto simp: chunk_bytes_match_id_def rbind_eq_Inr split: prod.splits)
      with truncate_file_ok stopped Cons.prems(6) c(1) show ?thesis by fastforce
    qed
  next
    case False
    show ?thesis
    proof (cases "cr_offset c < partial_size")
      case behind: True
      with Cons.prems(1) False
      have "truncate_file (pio_truncate io 1) content (cr_offset c) = (content', Inr ())" and "state' = state"
        by (auto simp: rbind_eq_Inr split: prod.splits)
      with truncate_file_ok stopped Cons.prems(6) c(1) show ?thesis by fastforce
    next
      case at_end: False
      with Cons.prems(1) False have "content' = content" and "state' = state" by simp_all
      moreover have "length content = layout_bytes before"
        using at_end c(1) Cons.prems(4,6) by (simp add: word_less_nat_alt)
      ultimately show ?thesis using stopped by simp
    qed
  qed
qed

lemma resume_from_partial_ok:
  assumes "resume_from_partial H io total_size chunks content = Some (content', Inr state)"
    and "tiles_from 0 chunks (unat total_size)"
  shows "resumed H chunks state content'"
proof -
  let ?fresh = "\<lparr>rsm_first_download_index = 0, rsm_chunks_reused_from_partial = 0, rsm_object_hasher = sha256_new\<rparr>"
  have total: "unat total_size < 2 ^ 64" using unsigned_less [of total_size] by simp
  obtain size where size: "file_size io content = Inr size"
    using assms(1) by (cases "file_size io content") (auto simp: resume_from_partial_def Let_def)
  then have size_eq: "unat size = length content"
    by (auto simp: file_size_def fits_off_def kOffMax_def unat_of_nat split: if_splits)
  show ?thesis
  proof (cases "total_size < size")
    case True
    with assms(1) size obtain cut where cut: "truncate_file (pio_truncate io 0) content 0 = (cut, Inr ())"
      and rest: "resume_chunks H io 0 0 chunks ?fresh 0 cut = Some (content', Inr state)"
      by (auto simp: resume_from_partial_def Let_def split: prod.splits sum.splits)
    from truncate_file_ok [OF cut] have "cut = []" by simp
    with rest show ?thesis
      using resume_chunks_ok [of H io 0 "[]" chunks ?fresh 0 "[]" content' state "unat total_size"] assms(2) total
      by (simp add: holds_chunks_def layout_bytes_def sha256_new_def)
  next
    case False
    with assms(1) size have "resume_chunks H io size 0 chunks ?fresh 0 content = Some (content', Inr state)"
      by (simp add: resume_from_partial_def Let_def)
    then show ?thesis
      using resume_chunks_ok [of H io size "[]" chunks ?fresh 0 content content' state "unat total_size"] assms(2) total
        size_eq False
      by (simp add: holds_chunks_def layout_bytes_def sha256_new_def word_le_nat_alt not_less)
  qed
qed

end
