(* ===== verification/Pull_Download.thy ===== *)
theory Pull_Download
  imports Pull_Threads
begin

section \<open>Downloads\<close>

text \<open>
  What holds in every state the threads of a pull can reach: the window of chunks ahead of the writer, progress, and
  the content of the file.
\<close>

subsection \<open>Reachable states\<close>

text \<open>The states a download can be in.\<close>

inductive downloading ::
  "hash \<Rightarrow> 's client_pool \<Rightarrow> partial_io \<Rightarrow> (nat \<Rightarrow> bool) \<Rightarrow> download_job \<Rightarrow> 's download_state \<Rightarrow> 's download_state \<Rightarrow> bool"
  for H pool io spawns job start where
  begins: "downloading H pool io spawns job start start"
| steps: "downloading H pool io spawns job start d \<Longrightarrow> thread_step H pool io spawns job thread d = Some d' \<Longrightarrow>
    downloading H pool io spawns job start d'"

text \<open>What is known of the threads: who has returned, and why; how many workers there are.\<close>

fun worker_count_ok :: "main_state \<Rightarrow> nat \<Rightarrow> bool" where
  "worker_count_ok (Starting n) count \<longleftrightarrow> count = n \<and> n \<le> kWorkerCount"
| "worker_count_ok (Awaiting k) count \<longleftrightarrow> count = kWorkerCount"
| "worker_count_ok (Writing_chunk k bytes) count \<longleftrightarrow> count = kWorkerCount"
| "worker_count_ok (Wrote_chunk k) count \<longleftrightarrow> count = kWorkerCount"
| "worker_count_ok _ count \<longleftrightarrow> count \<le> kWorkerCount"

definition threads_inv :: "download_job \<Rightarrow> 's download_state \<Rightarrow> bool" where
  "threads_inv job d \<longleftrightarrow>
     (Worker_returned \<in> set (ds_workers d) \<longrightarrow> download_stopped d \<or> length (dj_chunks job) \<le> ds_next_claim_index d) \<and>
     (Worker_cancelling \<in> set (ds_workers d) \<longrightarrow> ds_failure d \<noteq> None) \<and>
     (ds_main d \<in> {Joining, Joined} \<longrightarrow> ds_cancelled d) \<and>
     (ds_cancelled d \<longrightarrow> ds_main d \<in> {Joining, Joined} \<or> ds_failure d \<noteq> None) \<and>
     worker_count_ok (ds_main d) (length (ds_workers d)) \<and>
     (ds_main d = Joined \<longrightarrow> set (ds_workers d) \<subseteq> {Worker_returned})"

lemma in_updated: "y \<in> set (xs[i := x]) \<Longrightarrow> y = x \<or> y \<in> set xs"
  by (meson insertE set_update_subset_insert subsetD)

lemma threads_worker_step:
  assumes "threads_inv job d" and i: "i < length (ds_workers d)" and "worker_step H pool job i d = Some d'"
  shows "threads_inv job d'"
proof -
  have here: "ds_workers d ! i \<in> set (ds_workers d)" using i by simp
  have busy: "ds_main d \<noteq> Joined" if "ds_workers d ! i \<noteq> Worker_returned"
    using assms(1) here that unfolding threads_inv_def by blast
  have kept: "threads_inv job d'"
    if "ds_workers d' = (ds_workers d)[i := w]" and "ds_main d' = ds_main d" and "ds_workers d ! i \<noteq> Worker_returned"
      and "ds_next_claim_index d \<le> ds_next_claim_index d'" and "ds_cancelled d \<Longrightarrow> ds_cancelled d'"
      and "ds_failure d \<noteq> None \<Longrightarrow> ds_failure d' \<noteq> None"
      and "w = Worker_returned \<Longrightarrow> download_stopped d' \<or> length (dj_chunks job) \<le> ds_next_claim_index d'"
      and "w = Worker_cancelling \<Longrightarrow> ds_failure d' \<noteq> None"
      and "ds_cancelled d' \<Longrightarrow> ds_cancelled d \<or> ds_failure d' \<noteq> None" for w
    using assms(1) busy that in_updated unfolding threads_inv_def download_stopped_def
    by (smt (verit, best) length_list_update order_trans)
  show ?thesis
    using assms(3)
  proof (cases rule: worker_step_cases)
    case return
    then show ?thesis by (intro kept [of Worker_returned]) (auto simp: download_stopped_def)
  next
    case claim
    show ?thesis by (rule kept, simp add: claim, simp_all add: claim)
  next
    case (none k)
    show ?thesis by (rule kept, simp add: none, simp_all add: none)
  next
    case (ask k source sources services asked)
    show ?thesis by (rule kept, simp add: ask(3)) (auto simp: ask(1,3) split: sum.splits option.splits)
  next
    case (wrong_size k bytes)
    show ?thesis by (rule kept, simp add: wrong_size, simp_all add: wrong_size)
  next
    case (ready k bytes)
    show ?thesis by (rule kept, simp add: ready, simp_all add: ready)
  next
    case (fail e)
    show ?thesis by (rule kept, simp add: fail) (auto simp: fail split: option.splits)
  next
    case cancel
    have "ds_failure d \<noteq> None" using assms(1) here unfolding threads_inv_def cancel(1) by blast
    then show ?thesis by (intro kept [of Worker_returned]) (simp_all add: cancel download_stopped_def)
  qed
qed

lemma threads_main_step:
  assumes "threads_inv job d" and "main_step io spawns job d = Some d'"
  shows "threads_inv job d'"
  using assms(2)
proof (cases rule: main_step_cases)
  case join
  with assms(1) show ?thesis by (auto simp: threads_inv_def download_stopped_def list_all_iff)
qed (use assms(1) in \<open>auto simp: threads_inv_def download_stopped_def kWorkerCount_def split: option.splits\<close>)

lemma downloading_inv:
  assumes "downloading H pool io spawns job start d" and "window_inv job start" and "threads_inv job start"
  shows "window_inv job d" and "threads_inv job d"
proof -
  have "window_inv job d \<and> threads_inv job d"
    using assms(1)
  proof (induction rule: downloading.induct)
    case (steps d thread d')
    then have inv: "window_inv job d" "threads_inv job d" by simp_all
    show ?case
    proof (cases thread)
      case Main_thread
      with steps(2) inv show ?thesis by (auto simp: thread_step_def intro: window_main_step threads_main_step)
    next
      case (Worker_thread i)
      with steps(2) have i: "i < length (ds_workers d)" and step: "worker_step H pool job i d = Some d'"
        by (simp_all add: thread_step_def split: if_splits)
      from inv(2) have "Worker_cancelling \<in> set (ds_workers d) \<Longrightarrow> ds_failure d \<noteq> None" by (simp add: threads_inv_def)
      with window_worker_step [OF inv(1) i step] threads_worker_step [OF inv(2) i step] show ?thesis by blast
    qed
  qed (use assms(2,3) in simp)
  then show "window_inv job d" and "threads_inv job d" by blast+
qed

lemma start_inv:
  assumes "dj_first_index job \<le> length (dj_chunks job)"
  shows "window_inv job (download_start job resume content services)"
    and "threads_inv job (download_start job resume content services)"
  using assms by (simp_all add: window_inv_def threads_inv_def download_start_def copies_def kWindowCapacity_def)

text \<open>
  C12: However the threads of a download interleave and whatever the nodes answer, the window is kept: the workers claim
  at most eight chunks beyond the one to be written next, none is claimed twice or lost while the download goes on,
  and at most eight chunks are held in memory.
\<close>

theorem download_window:
  assumes "dj_first_index job \<le> length (dj_chunks job)"
    and "downloading H pool io spawns job (download_start job resume content services) d"
  shows "ds_next_claim_index d \<le> ds_next_write_index d + kWindowCapacity \<and>
    (\<forall>k. copies d k \<le> 1) \<and>
    (\<forall>k \<in> {ds_next_write_index d..<ds_next_claim_index d}. copies d k = 1 \<or> giving_up d) \<and>
    length (ds_ready d) + length (filter (\<lambda>worker. worker_chunk worker \<noteq> None) (ds_workers d)) \<le> kWindowCapacity"
proof -
  have "window_inv job d" by (rule downloading_inv(1) [OF assms(2) start_inv [OF assms(1)]])
  note inv = this [unfolded window_inv_def]
  let ?W = "{ds_next_write_index d..<ds_next_claim_index d}"
  have le: "copies d k \<le> (if k \<in> ?W then 1 else 0)" for k using inv by simp
  have inside: "k \<in> ?W" if "0 < copies d k" for k using le [of k] that by (simp split: if_splits)
  have ready: "(\<Sum>k \<in> ?W. length (filter (\<lambda>x. f x = Some k) xs)) = length (filter (\<lambda>x. f x \<noteq> None) xs)"
    if "\<And>x k. x \<in> set xs \<Longrightarrow> f x = Some k \<Longrightarrow> k \<in> ?W" for f :: "'x \<Rightarrow> nat option" and xs
    using that
  proof (induction xs)
    case (Cons x xs)
    have "(\<Sum>k \<in> ?W. length (filter (\<lambda>y. f y = Some k) (x # xs))) =
        (\<Sum>k \<in> ?W. (if f x = Some k then 1 else 0)) + (\<Sum>k \<in> ?W. length (filter (\<lambda>y. f y = Some k) xs))"
      by (simp add: sum.distrib [symmetric] cong: sum.cong) (rule sum.cong; simp)
    moreover have "(\<Sum>k \<in> ?W. (if f x = Some k then 1 else (0 :: nat))) = (if f x \<noteq> None then 1 else 0)"
      using Cons.prems [of x] by (cases "f x") (auto simp: sum.delta)
    moreover have "(\<Sum>k \<in> ?W. length (filter (\<lambda>y. f y = Some k) xs)) = length (filter (\<lambda>y. f y \<noteq> None) xs)"
      by (rule Cons.IH) (rule Cons.prems, simp_all)
    ultimately show ?case by simp
  qed simp
  have claimed: "fst entry \<in> ?W" if "entry \<in> set (ds_ready d)" for entry
    by (rule inside) (use that in \<open>auto simp: copies_def filter_empty_conv\<close>)
  have held: "k \<in> ?W" if "worker \<in> set (ds_workers d)" "worker_chunk worker = Some k" for worker k
    by (rule inside) (use that in \<open>auto simp: copies_def filter_empty_conv\<close>)
  have "length (ds_ready d) + length (filter (\<lambda>worker. worker_chunk worker \<noteq> None) (ds_workers d)) =
      (\<Sum>k \<in> ?W. length (filter (\<lambda>entry. Some (fst entry) = Some k) (ds_ready d)) +
        length (filter (\<lambda>worker. worker_chunk worker = Some k) (ds_workers d)))"
    unfolding sum.distrib
    using ready [of "ds_ready d" "\<lambda>entry. Some (fst entry)"] ready [of "ds_workers d" worker_chunk] claimed held by fastforce
  also have "\<dots> \<le> (\<Sum>k \<in> ?W. copies d k)" by (rule sum_mono) (simp add: copies_def)
  also have "\<dots> \<le> (\<Sum>k \<in> ?W. 1)" by (rule sum_mono) (use le in \<open>metis (full_types)\<close>)
  also have "\<dots> \<le> kWindowCapacity"
  proof -
    from inv have "ds_next_claim_index d \<le> ds_next_write_index d + kWindowCapacity" by blast
    then show ?thesis by simp
  qed
  finally have "length (ds_ready d) + length (filter (\<lambda>worker. worker_chunk worker \<noteq> None) (ds_workers d)) \<le> kWindowCapacity" .
  moreover have "copies d k \<le> 1" for k using le [of k] by (simp split: if_splits)
  ultimately show ?thesis using inv by auto
qed

end
