(* ===== verification/Pull_Content.thy ===== *)
theory Pull_Content
  imports Pull_Download
begin

section \<open>What a download writes, and that it ends\<close>

text \<open>
  The file and the hasher hold the verified chunks written so far, in every state a download reaches; no state but the
  last is stuck, and every step brings the end nearer.
\<close>

subsection \<open>The content\<close>

text \<open>What a client returns has the id it was asked for.\<close>

lemma get_chunk_from_hash:
  assumes "get_chunk_from H client chunk_id services = (services', Inr (Some bytes))"
  shows "hash_bytes H bytes = Inr chunk_id"
  using assms
  by (auto simp: get_chunk_from_def step_of_def step_bind_def read_chunk_response_def rbind_eq_Inr sha256_hex_eq
      split: if_splits prod.splits sum.splits)

lemma ask_source_hash:
  assumes "ask_source H pool chunk_id source services = (services', Inr (Some bytes))"
  shows "hash_bytes H bytes = Inr chunk_id"
  using assms get_chunk_from_hash by (auto simp: ask_source_def split: sum.splits prod.splits if_splits)

fun chunks_written :: "download_job \<Rightarrow> main_state \<Rightarrow> nat option" where
  "chunks_written job (Starting n) = Some (dj_first_index job)"
| "chunks_written job (Awaiting k) = Some k"
| "chunks_written job (Writing_chunk k bytes) = Some k"
| "chunks_written job (Wrote_chunk k) = Some (k + 1)"
| "chunks_written job (Main_failing e) = None"
| "chunks_written job _ = Some (length (dj_chunks job))"

definition verified_chunk :: "hash \<Rightarrow> download_job \<Rightarrow> nat \<Rightarrow> byte list \<Rightarrow> bool" where
  "verified_chunk H job k bytes \<longleftrightarrow>
     hash_bytes H bytes = Inr (cr_chunk_id (dj_chunks job ! k)) \<and> length bytes = unat (cr_size (dj_chunks job ! k))"

definition written_ok :: "hash \<Rightarrow> chunk_ref list \<Rightarrow> sha256 \<Rightarrow> byte list \<Rightarrow> bool" where
  "written_ok H layout hasher content \<longleftrightarrow>
     holds_chunks H layout content \<and> \<not> sha_finalized hasher \<and> sha_data hasher = content"

definition file_inv :: "hash \<Rightarrow> download_job \<Rightarrow> 's download_state \<Rightarrow> bool" where
  "file_inv H job d \<longleftrightarrow>
     (\<forall>m. chunks_written job (ds_main d) = Some m \<longrightarrow>
        m \<le> length (dj_chunks job) \<and>
        (ds_main d \<in> {Main_cancelling, Joining, Joined} \<longrightarrow> ds_failure d = None) \<longrightarrow>
        written_ok H (take m (dj_chunks job)) (ds_hasher d) (ds_content d)) \<and>
     (\<forall>(k, bytes) \<in> set (ds_ready d). verified_chunk H job k bytes) \<and>
     (\<forall>k bytes. ds_main d = Writing_chunk k bytes \<longrightarrow> verified_chunk H job k bytes) \<and>
     (\<forall>k bytes. Fetched k bytes \<in> set (ds_workers d) \<longrightarrow> hash_bytes H bytes = Inr (cr_chunk_id (dj_chunks job ! k)))"

lemma file_worker_step:
  assumes "file_inv H job d" and i: "i < length (ds_workers d)" and "worker_step H pool job i d = Some d'"
  shows "file_inv H job d'"
proof -
  have kept: "file_inv H job d'"
    if "ds_workers d' = (ds_workers d)[i := w]" and "ds_main d' = ds_main d" and "ds_content d' = ds_content d"
      and "ds_hasher d' = ds_hasher d" and "ds_failure d \<noteq> None \<Longrightarrow> ds_failure d' \<noteq> None"
      and "\<forall>entry \<in> set (ds_ready d'). entry \<in> set (ds_ready d) \<or> verified_chunk H job (fst entry) (snd entry)"
      and "\<And>k bytes. w = Fetched k bytes \<Longrightarrow> hash_bytes H bytes = Inr (cr_chunk_id (dj_chunks job ! k))" for w
    using assms(1) that in_updated unfolding file_inv_def by (fastforce simp: case_prod_beta)
  show ?thesis
    using assms(3)
  proof (cases rule: worker_step_cases)
    case return
    show ?thesis by (rule kept, simp add: return, simp_all add: return)
  next
    case claim
    show ?thesis by (rule kept, simp add: claim, simp_all add: claim)
  next
    case (none k)
    show ?thesis by (rule kept, simp add: none, simp_all add: none)
  next
    case (ask k source sources services asked)
    show ?thesis
      by (rule kept, simp add: ask(3)) (use ask_source_hash ask(2) in \<open>auto simp: ask(3) split: sum.splits option.splits\<close>)
  next
    case (wrong_size k bytes)
    show ?thesis by (rule kept, simp add: wrong_size, simp_all add: wrong_size)
  next
    case (ready k bytes)
    have "hash_bytes H bytes = Inr (cr_chunk_id (dj_chunks job ! k))"
      using assms(1) i ready(1) nth_mem [OF i] unfolding file_inv_def by metis
    then show ?thesis by (intro kept [of Claiming]) (simp_all add: ready(2,3) verified_chunk_def)
  next
    case (fail e)
    show ?thesis by (rule kept, simp add: fail) (auto simp: fail split: option.splits)
  next
    case cancel
    show ?thesis by (rule kept, simp add: cancel, simp_all add: cancel)
  qed
qed

text \<open>One more chunk is written behind those that are there.\<close>

lemma written_next:
  assumes "written_ok H (take k layout) hasher content" and tiles: "tiles_from 0 layout whole" and k: "k < length layout"
    and "hash_bytes H bytes = Inr (cr_chunk_id (layout ! k))" and "length bytes = unat (cr_size (layout ! k))"
    and wrote: "pwrite_all results calls (unat (cr_offset (layout ! k))) bytes content = Some (calls', content', Inr ())"
    and hashed: "sha256_update hasher bytes = Inr hasher'"
  shows "written_ok H (take (Suc k) layout) hasher' content'"
proof -
  have split: "layout = take k layout @ layout ! k # drop (Suc k) layout" using k by (rule id_take_nth_drop)
  have before: "tiles_from 0 (take k layout) (layout_bytes (take k layout))"
    and offset: "unat (cr_offset (layout ! k)) = layout_bytes (take k layout)"
    using tiles unfolding tiles_from_append [of 0 "take k layout" "layout ! k # drop (Suc k) layout" whole, folded split] by simp_all
  have holds: "holds_chunks H (take k layout) content" using assms(1) by (simp add: written_ok_def)
  then have "length content = layout_bytes (take k layout)" by (simp add: holds_chunks_def)
  with wrote offset have content': "content' = content @ bytes"
    using pwrite_all_appends [of results calls content bytes calls' content' "Inr ()"] by simp
  have "holds_chunks H (take (Suc k) layout) content'"
    unfolding content' take_Suc_conv_app_nth [OF k] by (rule holds_chunks_append [OF holds before offset assms(5,4)])
  moreover have "hasher' = hasher\<lparr>sha_data := sha_data hasher @ bytes\<rparr>"
    using assms(1) hashed by (simp add: written_ok_def sha256_update_live)
  ultimately show ?thesis using assms(1) by (simp add: written_ok_def content')
qed

lemma file_main_step:
  assumes inv: "file_inv H job d" "window_inv job d" and tiles: "tiles_from 0 (dj_chunks job) whole"
    and "main_step io spawns job d = Some d'"
  shows "file_inv H job d'"
  using assms(4)
proof (cases rule: main_step_cases)
  case (take k bytes)
  have "(k, bytes) \<in> set (ds_ready d)" using take(4) by (rule map_of_SomeD)
  with inv(1) have "verified_chunk H job k bytes" by (auto simp: file_inv_def)
  with inv(1) take(1) show ?thesis by (auto simp: file_inv_def take(5))
next
  case (wrote k bytes calls content hasher)
  have k: "k < length (dj_chunks job)" using inv(2) wrote(1) by (simp add: window_inv_def)
  have "written_ok H (List.take k (dj_chunks job)) (ds_hasher d) (ds_content d)" and "verified_chunk H job k bytes"
    using inv(1) wrote(1) k by (auto simp: file_inv_def)
  then have "written_ok H (List.take (Suc k) (dj_chunks job)) hasher content"
    using written_next [OF _ tiles k _ _ wrote(2,3)] by (simp add: verified_chunk_def)
  with inv(1) show ?thesis by (auto simp: file_inv_def wrote(4))
next
  case (complete k)
  with inv show ?thesis by (auto simp: file_inv_def window_inv_def)
qed (use inv(1) in \<open>auto simp: file_inv_def split: option.splits\<close>)

lemma downloading_file:
  assumes "downloading H pool io spawns job start d" and "window_inv job start" and "threads_inv job start"
    and "file_inv H job start" and "tiles_from 0 (dj_chunks job) whole"
  shows "file_inv H job d"
  using assms(1)
proof (induction rule: downloading.induct)
  case (steps d thread d')
  show ?case
  proof (cases thread)
    case Main_thread
    with steps(2) file_main_step [OF steps(3) downloading_inv(1) [OF steps(1) assms(2,3)] assms(5)]
    show ?thesis by (simp add: thread_step_def)
  next
    case (Worker_thread i)
    with steps(2) file_worker_step [OF steps(3)] show ?thesis by (simp add: thread_step_def split: if_splits)
  qed
qed (use assms(4) in simp)

lemma start_file:
  assumes "resumed H (dj_chunks job) resume content" and "dj_first_index job = rsm_first_download_index resume"
  shows "file_inv H job (download_start job resume content services)"
  using assms by (auto simp: file_inv_def download_start_def resumed_def written_ok_def)

subsection \<open>Progress\<close>

text \<open>While the download is not over some thread can go on: no deadlock, whatever the order of the steps so far.\<close>

lemma worker_goes_on:
  assumes "worker \<noteq> Worker_returned" and "worker \<noteq> Claiming" and "ds_workers d ! i = worker"
  shows "\<exists>d'. worker_step H pool job i d = Some d'"
proof (cases worker)
  case (Fetching k sources)
  with assms show ?thesis by (cases sources) (auto simp: worker_step_def split: prod.splits)
qed (use assms in \<open>auto simp: worker_step_def\<close>)

lemma some_thread:
  assumes "i < length (ds_workers d)" and "worker_step H pool job i d = Some d'"
  shows "\<exists>thread d'. thread_step H pool io spawns job thread d = Some d'"
  using assms by (intro exI [of _ "Worker_thread i"]) (simp add: thread_step_def)

lemma main_thread:
  "main_step io spawns job d = Some d' \<Longrightarrow> \<exists>thread d'. thread_step H pool io spawns job thread d = Some d'"
  by (intro exI [of _ Main_thread]) (simp add: thread_step_def)

lemma waiting_goes_on:
  assumes "window_inv job d" and "threads_inv job d" and "ds_main d = Awaiting k" and "k < length (dj_chunks job)"
    and "\<not> download_stopped d" and "map_of (ds_ready d) k = None"
  shows "\<exists>thread d'. thread_step H pool io spawns job thread d = Some d'"
proof -
  have k: "ds_next_write_index d = k" using assms(1,3) by (simp add: window_inv_def)
  have no_fail: "\<not> giving_up d" if "\<And>worker. worker \<in> set (ds_workers d) \<Longrightarrow> \<not> worker_troubled worker"
    using assms(3,5) that by (auto simp: giving_up_eq download_stopped_def)
  have count: "length (ds_workers d) = kWorkerCount" using assms(2,3) by (simp add: threads_inv_def)
  show ?thesis
  proof (cases "\<exists>i < length (ds_workers d). ds_workers d ! i \<noteq> Worker_returned \<and> ds_workers d ! i \<noteq> Claiming")
    case True
    with worker_goes_on some_thread show ?thesis by metis
  next
    case False
    then have idle: "worker = Worker_returned \<or> worker = Claiming" if "worker \<in> set (ds_workers d)" for worker
      using that by (metis in_set_conv_nth)
    have "filter (\<lambda>entry. fst entry = k) (ds_ready d) = []"
      using assms(6) by (auto simp: map_of_eq_None_iff filter_empty_conv)
    moreover have "filter (\<lambda>worker. worker_chunk worker = Some k) (ds_workers d) = []"
      unfolding filter_empty_conv using idle by (metis worker_chunk.simps(3,6) option.discI)
    ultimately have "copies d k = 0" using assms(3) by (simp add: copies_def)
    moreover have "\<not> giving_up d" by (rule no_fail) (use idle in \<open>auto simp: worker_troubled_def\<close>)
    moreover have "k < ds_next_claim_index d \<Longrightarrow> copies d k = 1 \<or> giving_up d"
      using assms(1) k unfolding window_inv_def by blast
    ultimately have claim: "ds_next_claim_index d = k"
      using assms(1) k by (cases "k < ds_next_claim_index d") (simp_all add: window_inv_def)
    have "Worker_returned \<notin> set (ds_workers d)" using assms(2,4,5) claim by (auto simp: threads_inv_def)
    moreover have member: "ds_workers d ! 0 \<in> set (ds_workers d)" using count by (simp add: kWorkerCount_def)
    ultimately have "ds_workers d ! 0 = Claiming" using idle by metis
    with claim k assms(4,5) have "\<exists>d'. worker_step H pool job 0 d = Some d'"
      by (simp add: worker_step_def kWindowCapacity_def)
    moreover have "0 < length (ds_workers d)" using count by (simp add: kWorkerCount_def)
    ultimately show ?thesis using some_thread by metis
  qed
qed

lemma download_goes_on:
  assumes "window_inv job d" and "threads_inv job d" and "ds_main d \<noteq> Joined"
    and writes: "\<And>k. \<exists>j \<ge> k. pio_write io j \<noteq> Interrupted"
  shows "\<exists>thread d'. thread_step H pool io spawns job thread d = Some d'"
proof (cases "ds_main d")
  case (Starting n)
  then have "\<exists>d'. main_step io spawns job d = Some d'" by (simp add: main_step_def)
  with main_thread show ?thesis by blast
next
  case (Awaiting k)
  show ?thesis
  proof (cases "k < length (dj_chunks job) \<and> \<not> download_stopped d \<and> map_of (ds_ready d) k = None")
    case True
    with waiting_goes_on [OF assms(1,2) Awaiting] show ?thesis by blast
  next
    case False
    with Awaiting have "\<exists>d'. main_step io spawns job d = Some d'"
      by (auto simp: main_step_def download_stopped_def split: option.splits)
    with main_thread show ?thesis by blast
  qed
next
  case (Writing_chunk k bytes)
  with pwrite_all_returns [OF writes] have "\<exists>d'. main_step io spawns job d = Some d'" by (auto simp: main_step_def)
  with main_thread show ?thesis by blast
next
  case Joining
  show ?thesis
  proof (cases "\<exists>i < length (ds_workers d). ds_workers d ! i \<noteq> Worker_returned")
    case True
    then obtain i where i: "i < length (ds_workers d)" "ds_workers d ! i \<noteq> Worker_returned" by blast
    have "ds_cancelled d" using assms(2) Joining by (simp add: threads_inv_def)
    then have "\<exists>d'. worker_step H pool job i d = Some d'"
      using i by (cases "ds_workers d ! i = Claiming", simp add: worker_step_def download_stopped_def)
        (rule worker_goes_on [OF _ _ refl])
    with i(1) some_thread show ?thesis by metis
  next
    case False
    with Joining have "\<exists>d'. main_step io spawns job d = Some d'" by (auto simp: main_step_def list_all_length)
    with main_thread show ?thesis by blast
  qed
next
  case Joined
  with assms(3) show ?thesis by simp
qed (rule main_thread, simp add: main_step_def)+

text \<open>What is left to do, as a number every step makes smaller.\<close>

fun worker_work :: "worker_state \<Rightarrow> nat" where
  "worker_work Claiming = 1"
| "worker_work (Fetching k sources) = length sources + 4"
| "worker_work (Fetched k bytes) = 3"
| "worker_work (Worker_failing e) = 2"
| "worker_work Worker_cancelling = 1"
| "worker_work Worker_returned = 0"

fun main_work :: "download_job \<Rightarrow> main_state \<Rightarrow> nat" where
  "main_work job (Starting n) = 3 * (length (dj_chunks job) - dj_first_index job) + 5 + 2 * (kWorkerCount - n)"
| "main_work job (Awaiting k) = 3 * (length (dj_chunks job) - k) + 4"
| "main_work job (Writing_chunk k bytes) = 3 * (length (dj_chunks job) - k) + 3"
| "main_work job (Wrote_chunk k) = 3 * (length (dj_chunks job) - k) + 2"
| "main_work job (Main_failing e) = 3"
| "main_work job Main_cancelling = 2"
| "main_work job Joining = 1"
| "main_work job Joined = 0"

definition claim_work :: "download_job \<Rightarrow> nat \<Rightarrow> nat" where
  "claim_work job claimed =
     (\<Sum>k \<leftarrow> [claimed..<length (dj_chunks job)]. length (cs_sources (dj_sources job ! k)) + 4)"

definition download_work :: "download_job \<Rightarrow> 's download_state \<Rightarrow> nat" where
  "download_work job d =
     main_work job (ds_main d) + (\<Sum>worker \<leftarrow> ds_workers d. worker_work worker) + claim_work job (ds_next_claim_index d)"

lemma sum_update:
  fixes f :: "'x \<Rightarrow> nat"
  assumes "i < length xs"
  shows "(\<Sum>y \<leftarrow> xs[i := x]. f y) + f (xs ! i) = (\<Sum>y \<leftarrow> xs. f y) + f x"
  using assms
proof (induction xs arbitrary: i)
  case (Cons y ys)
  then show ?case by (cases i) auto
qed simp

lemma worker_step_works:
  assumes i: "i < length (ds_workers d)" and "worker_step H pool job i d = Some d'"
  shows "download_work job d' < download_work job d"
proof -
  have less: "download_work job d' < download_work job d"
    if "ds_workers d' = (ds_workers d)[i := w]" and "ds_main d' = ds_main d"
      and "worker_work w + claim_work job (ds_next_claim_index d') <
        worker_work (ds_workers d ! i) + claim_work job (ds_next_claim_index d)" for w
    using sum_update [OF i, of worker_work w] that by (simp add: download_work_def)
  show ?thesis
    using assms(2)
  proof (cases rule: worker_step_cases)
    case return
    show ?thesis by (rule less, simp add: return, simp_all add: return)
  next
    case claim
    then show ?thesis
      by (intro less [of "Fetching (ds_next_claim_index d) (cs_sources (dj_sources job ! ds_next_claim_index d))"])
        (simp_all add: claim_work_def upt_conv_Cons)
  next
    case (none k)
    show ?thesis by (rule less, simp add: none, simp_all add: none)
  next
    case (ask k source sources services asked)
    show ?thesis by (rule less, simp add: ask(3)) (auto simp: ask(1,3) split: sum.splits option.splits)
  next
    case (wrong_size k bytes)
    show ?thesis by (rule less, simp add: wrong_size, simp_all add: wrong_size)
  next
    case (ready k bytes)
    show ?thesis by (rule less, simp add: ready, simp_all add: ready)
  next
    case (fail e)
    show ?thesis by (rule less, simp add: fail, simp_all add: fail)
  next
    case cancel
    show ?thesis by (rule less, simp add: cancel, simp_all add: cancel)
  qed
qed

lemma main_step_works:
  assumes "window_inv job d" and "main_step io spawns job d = Some d'"
  shows "download_work job d' < download_work job d"
  using assms(2)
proof (cases rule: main_step_cases)
  case (release k)
  with assms(1) have "k < length (dj_chunks job)" by (simp add: window_inv_def)
  then show ?thesis by (simp add: download_work_def release)
next
  case (write_error k bytes calls content e)
  with assms(1) have "k < length (dj_chunks job)" by (simp add: window_inv_def)
  then show ?thesis by (simp add: download_work_def write_error)
qed (simp_all add: download_work_def)

lemma thread_step_works:
  assumes "window_inv job d" and "thread_step H pool io spawns job thread d = Some d'"
  shows "download_work job d' < download_work job d"
  using assms(2) main_step_works [OF assms(1)] worker_step_works
  by (auto simp: thread_step_def split: thread.splits if_splits)

subsection \<open>Schedules\<close>

lemma run_schedule_append:
  "run_schedule H pool io spawns job (xs @ ys) d = run_schedule H pool io spawns job ys (run_schedule H pool io spawns job xs d)"
  by (induction xs arbitrary: d) simp_all

lemma run_schedule_downloading:
  assumes "downloading H pool io spawns job start d"
  shows "downloading H pool io spawns job start (run_schedule H pool io spawns job threads d)"
  using assms
proof (induction threads arbitrary: d)
  case (Cons thread threads)
  then show ?case by (cases "thread_step H pool io spawns job thread d") (auto intro: downloading.steps)
qed simp

lemma run_schedule_works:
  assumes "window_inv job d" and "threads_inv job d"
  shows "run_schedule H pool io spawns job threads d = d \<and>
      (\<forall>thread \<in> set threads. thread_step H pool io spawns job thread d = None) \<or>
    download_work job (run_schedule H pool io spawns job threads d) < download_work job d"
  using assms
proof (induction threads arbitrary: d)
  case (Cons thread threads)
  show ?case
  proof (cases "thread_step H pool io spawns job thread d")
    case None
    with Cons show ?thesis by simp
  next
    case (Some d')
    have "downloading H pool io spawns job d d'" by (rule downloading.steps [OF downloading.begins Some])
    note inv = downloading_inv [OF this Cons.prems]
    with Cons.IH [OF inv] thread_step_works [OF Cons.prems(1) Some] Some show ?thesis by auto
  qed
qed simp

text \<open>The threads of a download, and a part of a schedule in which each has its turn.\<close>

definition all_threads :: "thread set" where
  "all_threads = insert Main_thread (Worker_thread ` {..<kWorkerCount})"

lemma round_goes_on:
  assumes inv: "window_inv job d" "threads_inv job d" and writes: "\<And>k. \<exists>j \<ge> k. pio_write io j \<noteq> Interrupted"
    and "all_threads \<subseteq> set round" and "ds_main d \<noteq> Joined"
  shows "download_work job (run_schedule H pool io spawns job round d) < download_work job d"
proof -
  obtain thread d' where step: "thread_step H pool io spawns job thread d = Some d'"
    using download_goes_on [OF inv assms(5) writes] by blast
  have "length (ds_workers d) \<le> kWorkerCount" using inv(2) by (cases "ds_main d") (simp_all add: threads_inv_def)
  with step have "thread \<in> all_threads" by (auto simp: all_threads_def thread_step_def split: thread.splits if_splits)
  with step assms(4) run_schedule_works [OF inv, of H pool io spawns round] show ?thesis by fastforce
qed

lemma joined_stuck:
  assumes "ds_main d = Joined" and "threads_inv job d"
  shows "thread_step H pool io spawns job thread d = None"
proof (cases thread)
  case (Worker_thread i)
  have "i < length (ds_workers d) \<Longrightarrow> ds_workers d ! i = Worker_returned"
    using assms nth_mem by (fastforce simp: threads_inv_def)
  with Worker_thread show ?thesis by (simp add: thread_step_def worker_step_def)
qed (use assms(1) in \<open>simp add: thread_step_def main_step_def\<close>)

lemma joined_stays:
  assumes "ds_main d = Joined" and "threads_inv job d"
  shows "run_schedule H pool io spawns job threads d = d"
  using joined_stuck [OF assms] by (induction threads) simp_all

lemma rounds_join:
  assumes "window_inv job d" and "threads_inv job d" and writes: "\<And>k. \<exists>j \<ge> k. pio_write io j \<noteq> Interrupted"
    and "\<forall>round \<in> set rounds. all_threads \<subseteq> set round" and "download_work job d \<le> length rounds"
  shows "ds_main (run_schedule H pool io spawns job (concat rounds) d) = Joined"
  using assms(1,2,4,5)
proof (induction rounds arbitrary: d)
  case Nil
  then have "main_work job (ds_main d) = 0" by (simp add: download_work_def)
  then show ?case by (cases "ds_main d") simp_all
next
  case (Cons round rounds)
  let ?next = "run_schedule H pool io spawns job round d"
  show ?case
  proof (cases "ds_main d = Joined")
    case True
    with joined_stays Cons.prems(2) show ?thesis by metis
  next
    case False
    have "downloading H pool io spawns job d ?next" by (rule run_schedule_downloading [OF downloading.begins])
    note inv = downloading_inv [OF this Cons.prems(1,2)]
    have "download_work job ?next < download_work job d"
      by (rule round_goes_on [OF Cons.prems(1,2) writes]) (use Cons.prems(3) False in simp_all)
    with Cons.prems(3,4) have "ds_main (run_schedule H pool io spawns job (concat rounds) ?next) = Joined"
      by (intro Cons.IH [OF inv]) simp_all
    then show ?thesis by (simp add: run_schedule_append)
  qed
qed

lemma start_work:
  "download_work job (download_start job resume content services) =
    3 * (length (dj_chunks job) - dj_first_index job) + 13 + claim_work job (dj_first_index job)"
  by (simp add: download_work_def download_start_def kWorkerCount_def)


subsection \<open>One node that has the chunk is enough\<close>

text \<open>A source that may fail or not have the chunk, but never answers with an exception that is no \<open>runtime_error\<close> or
  with other bytes; one that answers with the chunk; both as long as \<open>P\<close> holds of the services, which asking keeps.\<close>

definition answers_whole :: "hash \<Rightarrow> 's client_pool \<Rightarrow> ('s \<Rightarrow> bool) \<Rightarrow> chunk_ref \<Rightarrow> restore_node_endpoint \<Rightarrow> bool" where
  "answers_whole H pool P chunk source \<longleftrightarrow>
     (\<forall>services. P services \<longrightarrow>
        (case ask_source H pool (cr_chunk_id chunk) source services of
           (services', asked) \<Rightarrow> P services' \<and>
             (case asked of Inl e \<Rightarrow> False | Inr None \<Rightarrow> True | Inr (Some bytes) \<Rightarrow> length bytes = unat (cr_size chunk))))"

definition serves_chunk :: "hash \<Rightarrow> 's client_pool \<Rightarrow> ('s \<Rightarrow> bool) \<Rightarrow> chunk_ref \<Rightarrow> restore_node_endpoint \<Rightarrow> bool" where
  "serves_chunk H pool P chunk source \<longleftrightarrow>
     (\<forall>services. P services \<longrightarrow> snd (ask_source H pool (cr_chunk_id chunk) source services) \<noteq> Inr None)"

definition well_served :: "hash \<Rightarrow> 's client_pool \<Rightarrow> ('s \<Rightarrow> bool) \<Rightarrow> download_job \<Rightarrow> bool" where
  "well_served H pool P job \<longleftrightarrow>
     (\<forall>k \<in> {dj_first_index job..<length (dj_chunks job)}.
        (\<forall>source \<in> set (cs_sources (dj_sources job ! k)). answers_whole H pool P (dj_chunks job ! k) source) \<and>
        (\<exists>source \<in> set (cs_sources (dj_sources job ! k)). serves_chunk H pool P (dj_chunks job ! k) source))"

definition good_writes :: "partial_io \<Rightarrow> bool" where
  "good_writes io \<longleftrightarrow> (\<forall>k. pio_write io k \<noteq> Write_failed \<and> pio_write io k \<noteq> Wrote 0) \<and>
     (\<forall>k. \<exists>j \<ge> k. pio_write io j \<noteq> Interrupted)"

lemma fits_off_mono: "fits_off n \<Longrightarrow> m \<le> n \<Longrightarrow> fits_off m"
  by (simp add: fits_off_def)

lemma pwrite_all_succeeds:
  assumes "good_writes io" and "fits_off (offset + length data)"
    and "pwrite_all (pio_write io) k offset data content = Some (k', content', ended)"
  shows "ended = Inr ()"
proof -
  have "results = pio_write io \<longrightarrow> fits_off (offset + length data) \<longrightarrow> snd (snd r) = Inr ()"
    if "pwrite_all results k offset data content = Some r" for results r
    using that
  proof (induction rule: pwrite_all.raw_induct [rotated, consumes 1])
    case (1 pwrite_all' results k offset data content r)
    show ?case
    proof (intro impI, cases "data = []")
      assume io: "results = pio_write io" and all: "fits_off (offset + length data)"
      have fits: "fits_off offset" "fits_off (length data)" by (rule fits_off_mono [OF all], simp)+
      have rest: "fits_off (offset + min n (length data) + length (drop n data))" for n
        by (rule fits_off_mono [OF all]) (simp add: min_def)
      case False
      show "snd (snd r) = Inr ()"
      proof (cases "results k")
        case (Wrote n)
        then have "n \<noteq> 0" using assms(1) io unfolding good_writes_def by metis
        with 1(2) fits False Wrote have "pwrite_all' results (Suc k) (offset + min n (length data)) (drop n data)
            (write_at content offset (take n data)) = Some r" by simp
        from 1(1) [OF this, rule_format, OF io rest] show "snd (snd r) = Inr ()" .
      next
        case Interrupted
        with 1(2) fits False have "pwrite_all' results (Suc k) offset data content = Some r" by simp
        from 1(1) [OF this, rule_format, OF io all] show "snd (snd r) = Inr ()" .
      next
        case Write_failed
        with assms(1) io show "snd (snd r) = Inr ()" by (auto simp: good_writes_def)
      qed
    qed (use 1(2) in auto)
  qed
  with assms(2,3) show ?thesis by auto
qed

fun worker_fine :: "hash \<Rightarrow> 's client_pool \<Rightarrow> ('s \<Rightarrow> bool) \<Rightarrow> download_job \<Rightarrow> worker_state \<Rightarrow> bool" where
  "worker_fine H pool P job (Fetching k sources) \<longleftrightarrow>
     (\<forall>source \<in> set sources. answers_whole H pool P (dj_chunks job ! k) source) \<and>
     (\<exists>source \<in> set sources. serves_chunk H pool P (dj_chunks job ! k) source)"
| "worker_fine H pool P job (Fetched k bytes) \<longleftrightarrow> length bytes = unat (cr_size (dj_chunks job ! k))"
| "worker_fine H pool P job (Worker_failing e) \<longleftrightarrow> False"
| "worker_fine H pool P job Worker_cancelling \<longleftrightarrow> False"
| "worker_fine H pool P job _ \<longleftrightarrow> True"

definition flawless :: "hash \<Rightarrow> 's client_pool \<Rightarrow> ('s \<Rightarrow> bool) \<Rightarrow> download_job \<Rightarrow> 's download_state \<Rightarrow> bool" where
  "flawless H pool P job d \<longleftrightarrow>
     ds_failure d = None \<and> P (ds_services d) \<and> (\<forall>e. ds_main d \<noteq> Main_failing e) \<and>
     dj_first_index job \<le> ds_next_claim_index d \<and> (\<forall>worker \<in> set (ds_workers d). worker_fine H pool P job worker)"

lemma flawless_worker_step:
  assumes "flawless H pool P job d" and served: "well_served H pool P job" and i: "i < length (ds_workers d)"
    and "worker_step H pool job i d = Some d'"
  shows "flawless H pool P job d'"
proof -
  have here: "worker_fine H pool P job (ds_workers d ! i)" using assms(1) i by (simp add: flawless_def)
  have kept: "flawless H pool P job d'"
    if "ds_workers d' = (ds_workers d)[i := w]" and "ds_main d' = ds_main d" and "ds_failure d' = ds_failure d"
      and "P (ds_services d')" and "ds_next_claim_index d \<le> ds_next_claim_index d'" and "worker_fine H pool P job w" for w
    using assms(1) that in_updated unfolding flawless_def by (metis order_trans)
  have P: "P (ds_services d)" using assms(1) by (simp add: flawless_def)
  show ?thesis
    using assms(4)
  proof (cases rule: worker_step_cases)
    case return
    show ?thesis by (rule kept, simp add: return, simp_all add: return P set_worker_def)
  next
    case claim
    let ?c = "ds_next_claim_index d"
    have "?c \<in> {dj_first_index job..<length (dj_chunks job)}" using assms(1) claim(3) by (simp add: flawless_def)
    with served have "worker_fine H pool P job (Fetching ?c (cs_sources (dj_sources job ! ?c)))"
      by (simp add: well_served_def)
    then show ?thesis
      by (intro kept [of "Fetching ?c (cs_sources (dj_sources job ! ?c))"]) (simp_all add: claim(5) P set_worker_def)
  next
    case (ask k source sources services asked)
    have "answers_whole H pool P (dj_chunks job ! k) source" using here by (simp add: ask(1))
    with P ask(2) have P': "P services"
      and asked: "case asked of Inl e \<Rightarrow> False | Inr None \<Rightarrow> True | Inr (Some bytes) \<Rightarrow> length bytes = unat (cr_size (dj_chunks job ! k))"
      by (auto simp: answers_whole_def)
    have "asked \<noteq> Inr None" if "serves_chunk H pool P (dj_chunks job ! k) source"
      using that P ask(2) by (auto simp: serves_chunk_def)
    with here asked have "worker_fine H pool P job
        (case asked of Inl e \<Rightarrow> Worker_failing e | Inr None \<Rightarrow> Fetching k sources | Inr (Some bytes) \<Rightarrow> Fetched k bytes)"
      by (auto simp: ask(1) split: sum.splits option.splits)
    then show ?thesis by (rule kept [rotated -1]) (simp_all add: ask(3) P' set_worker_def)
  next
    case (ready k bytes)
    show ?thesis by (rule kept, simp add: ready, simp_all add: ready P set_worker_def)
  qed (use here in simp_all)
qed

lemma flawless_main_step:
  assumes flawless: "flawless H pool P job d" and inv: "window_inv job d" "file_inv H job d" "threads_inv job d"
    and tiles: "tiles_from 0 (dj_chunks job) whole" "fits_off whole" and works: "good_writes io" "\<And>n. spawns n"
    and "main_step io spawns job d = Some d'"
  shows "flawless H pool P job d'"
proof (cases "\<exists>k bytes. ds_main d = Writing_chunk k bytes")
  case False
  have "\<not> download_stopped d" if "ds_main d = Awaiting k" for k
    using flawless inv(3) that by (auto simp: flawless_def threads_inv_def download_stopped_def)
  with assms(9) False flawless works(2) show ?thesis
    by (cases rule: main_step_cases) (auto simp: flawless_def cancel_download_def)
next
  case True
  then obtain k bytes where main: "ds_main d = Writing_chunk k bytes" by blast
  let ?chunk = "dj_chunks job ! k"
  have k: "k < length (dj_chunks job)" using inv(1) main by (simp add: window_inv_def)
  have "written_ok H (take k (dj_chunks job)) (ds_hasher d) (ds_content d)" "length bytes = unat (cr_size ?chunk)"
    using inv(2) main k by (auto simp: file_inv_def verified_chunk_def)
  then have hashed: "sha256_update (ds_hasher d) bytes =
      Inr ((ds_hasher d)\<lparr>sha_data := sha_data (ds_hasher d) @ bytes\<rparr>)"
    and "unat (cr_offset ?chunk) + length bytes \<le> whole"
    using tiles_within(2) [OF tiles(1) nth_mem [OF k]] by (simp_all add: written_ok_def sha256_update_live)
  then have fits: "fits_off (unat (cr_offset ?chunk) + length bytes)" using fits_off_mono [OF tiles(2)] by blast
  from assms(9) main obtain calls content ended where wrote:
    "pwrite_all (pio_write io) (ds_write_calls d) (unat (cr_offset ?chunk)) bytes (ds_content d) = Some (calls, content, ended)"
    by (auto simp: main_step_def)
  with pwrite_all_succeeds [OF works(1) fits] have "ended = Inr ()" by blast
  with assms(9) main wrote hashed flawless show ?thesis by (auto simp: main_step_def flawless_def)
qed

lemma downloading_flawless:
  assumes "downloading H pool io spawns job start d" and "window_inv job start" and "threads_inv job start"
    and "file_inv H job start" and "flawless H pool P job start" and "well_served H pool P job"
    and "tiles_from 0 (dj_chunks job) whole" and "fits_off whole" and "good_writes io" and "\<And>n. spawns n"
  shows "flawless H pool P job d"
  using assms(1)
proof (induction rule: downloading.induct)
  case (steps d thread d')
  note inv = downloading_inv [OF steps(1) assms(2,3)]
  show ?case
  proof (cases thread)
    case Main_thread
    with steps(2) flawless_main_step [OF steps(3) inv(1) downloading_file [OF steps(1) assms(2-4,7)] inv(2) assms(7-10)]
    show ?thesis by (simp add: thread_step_def)
  next
    case (Worker_thread i)
    with steps(2) flawless_worker_step [OF steps(3) assms(6)] show ?thesis
      by (simp add: thread_step_def split: if_splits)
  qed
qed (use assms(5) in simp)

text \<open>What a download that has ended without a failure has written.\<close>

lemma joined_content:
  assumes "resumed H (dj_chunks job) resume content" and "dj_first_index job = rsm_first_download_index resume"
    and "tiles_from 0 (dj_chunks job) whole"
    and "downloading H pool io spawns job (download_start job resume content services) d"
    and "ds_main d = Joined" and "ds_failure d = None"
  shows "written_ok H (dj_chunks job) (ds_hasher d) (ds_content d)"
proof -
  have "dj_first_index job \<le> length (dj_chunks job)" using assms(1,2) by (simp add: resumed_def)
  from downloading_file [OF assms(4) start_inv [OF this] start_file [OF assms(1,2)] assms(3)] assms(5,6)
  show ?thesis by (simp add: file_inv_def)
qed


subsection \<open>Witnesses\<close>

text \<open>Two nodes are asked for the one chunk of the sample version: the first does not know it.\<close>

definition five_chunk_ref :: chunk_ref where
  "five_chunk_ref = \<lparr>cr_chunk_id = five_id, cr_offset = 0, cr_size = 5\<rparr>"

definition sample_node :: "string \<Rightarrow> restore_node_endpoint" where
  "sample_node node_id = \<lparr>en_node_id = node_id, en_address = ''::1'', en_port = 7\<rparr>"

definition sample_job :: download_job where
  "sample_job =
     \<lparr>dj_chunks = [five_chunk_ref],
      dj_sources = [\<lparr>cs_chunk_id = five_id, cs_offset = 0, cs_size_bytes = 5,
        cs_sources = [sample_node ''node-b'', sample_node ''node-a'']\<rparr>],
      dj_first_index = 0\<rparr>"

definition sample_fresh :: resume_state where
  "sample_fresh = \<lparr>rsm_first_download_index = 0, rsm_chunks_reused_from_partial = 0, rsm_object_hasher = sha256_new\<rparr>"

text \<open>Every system call works, but each read and write transfers two bytes at most and the first write is interrupted.\<close>

definition sample_pio :: partial_io where
  "sample_pio =
     \<lparr>pio_open = True, pio_stat = True, pio_size = True, pio_truncate = \<lambda>_. True, pio_read = \<lambda>_. Read 2,
      pio_write = \<lambda>k. if k = 0 then Interrupted else Wrote 2, pio_fsync = True, pio_close = True, pio_publish = True,
      pio_unlink = True\<rparr>"

definition sample_rounds :: "thread list list" where
  "sample_rounds = replicate 22 [Worker_thread 3, Main_thread, Worker_thread 1, Worker_thread 0, Worker_thread 2]"

definition sample_download :: "cluster_world download_state" where
  "sample_download = run_schedule sample_hash sample_nodes_pool sample_pio (\<lambda>_. True) sample_job (concat sample_rounds)
     (download_start sample_job sample_fresh [] sample_cluster)"

lemma sample_pio_writes: "good_writes sample_pio"
proof -
  have "\<exists>j \<ge> k. pio_write sample_pio j \<noteq> Interrupted" for k
    by (rule exI [of _ "Suc k"]) (simp add: sample_pio_def)
  then show ?thesis by (simp add: good_writes_def sample_pio_def)
qed

lemma sample_rounds_fair: "\<forall>round \<in> set sample_rounds. all_threads \<subseteq> set round" and sample_rounds_length: "length sample_rounds = 22"
  by (auto simp: sample_rounds_def all_threads_def kWorkerCount_def)

theorem download_window_witness:
  "ds_next_claim_index sample_download \<le> ds_next_write_index sample_download + kWindowCapacity"
  unfolding sample_download_def
  by (rule conjunct1 [OF download_window [OF _ run_schedule_downloading [OF downloading.begins]]]) (simp add: sample_job_def)


text \<open>The same download from one disk: the first node cannot be reached, the second has the chunk.\<close>

definition five_disk :: disk where
  "five_disk = Some [(''05'', Fanout [(five_id, Regular [1, 2, 3, 4, 5])])]"

definition five_pool :: "disk client_pool" where
  "five_pool =
     [(''node-a'', direct_client sample_hash sample_parse sample_serialize working_node_io ''node-a'' 1000 small_config),
      (''node-b'', \<lparr>nc_config = small_config, nc_exchange = \<lambda>_ disk. (disk, Inl System_error), nc_parse = sample_parse\<rparr>)]"

lemma five_pool_answers:
  "ask_source sample_hash five_pool five_id (sample_node ''node-b'') five_disk = (five_disk, Inr None)"
  "ask_source sample_hash five_pool five_id (sample_node ''node-a'') five_disk = (five_disk, Inr (Some [1, 2, 3, 4, 5]))"
  by code_simp+

lemma five_pool_serves: "well_served sample_hash five_pool (\<lambda>disk. disk = five_disk) sample_job"
  by (simp add: well_served_def answers_whole_def serves_chunk_def sample_job_def five_chunk_ref_def five_pool_answers)


end
