(* ===== verification/Pull_Engine.thy ===== *)
theory Pull_Engine
  imports Pull_Content
begin

section \<open>Pulls\<close>

text \<open>
  \<open>PullEngine::pull\<close> of \<open>src/pull/pull_engine.cpp\<close>: the restore plan, the partial file and what it holds already,
  the download of the rest, the check of the object, and its publication. What a pull returns is the services and
  the files afterwards and the result or the exception; \<open>None\<close> when a call is interrupted forever or the schedule
  ends before the threads do.
\<close>

subsection \<open>The operation\<close>

record pull_stats =
  pls_bytes_restored :: u64
  pls_total_chunks :: nat
  pls_chunks_downloaded :: nat
  pls_chunks_reused_from_partial :: nat
  pls_bytes_received_from_storage :: u64

record pull_result =
  plr_version_id :: string
  plr_artifact_id :: string
  plr_source_node_id :: string
  plr_object_id :: string
  plr_layout_id :: string
  plr_destination_path :: string
  plr_stats :: pull_stats

text \<open>A chunk of 64 bits is always addressable.\<close>

definition validate_chunk_sizes :: "chunk_ref list \<Rightarrow> unit res" where
  "validate_chunk_sizes refs =
     (if list_all (\<lambda>chunk. cr_size chunk \<le> kMaxM5ChunkSize) refs then Inr () else Inl Invalid_argument)"

definition plan_matches_layout :: "restore_chunk_sources list \<Rightarrow> chunk_ref list \<Rightarrow> unit res" where
  "plan_matches_layout sources refs =
     (if length sources \<noteq> length refs then Inl Runtime_error
      else if list_all2 (\<lambda>s chunk. cs_chunk_id s = cr_chunk_id chunk \<and> cs_offset s = cr_offset chunk \<and>
             cs_size_bytes s = cr_size chunk) sources refs
      then Inr () else Inl Runtime_error)"

definition primary_source_node_id :: "restore_chunk_sources list \<Rightarrow> string" where
  "primary_source_node_id sources =
     (case sources of
        [] \<Rightarrow> []
      | chunk # _ \<Rightarrow> (case cs_sources chunk of [] \<Rightarrow> [] | source # _ \<Rightarrow> en_node_id source))"

text \<open>The block of the workers: the content of the file, the hasher and the two counters, or the first failure.\<close>

definition download_missing ::
  "hash \<Rightarrow> 's client_pool \<Rightarrow> partial_io \<Rightarrow> (nat \<Rightarrow> bool) \<Rightarrow> thread list \<Rightarrow> multi_node_restore_plan \<Rightarrow> resume_state \<Rightarrow>
   byte list \<Rightarrow> 's \<Rightarrow> ('s \<times> byte list \<times> (sha256 \<times> nat \<times> u64) res) option" where
  "download_missing H pool io spawns threads plan resume content services =
     (let job = \<lparr>dj_chunks = ol_chunks (ld_layout (mp_layout_descriptor plan)), dj_sources = mp_chunks plan,
                 dj_first_index = rsm_first_download_index resume\<rparr>
      in if rsm_first_download_index resume < length (dj_chunks job)
         then let d = run_schedule H pool io spawns job threads (download_start job resume content services)
              in if ds_main d \<noteq> Joined then None
                 else Some (ds_services d, ds_content d,
                   case ds_failure d of
                     Some e \<Rightarrow> Inl e
                   | None \<Rightarrow> Inr (ds_hasher d, ds_chunks_downloaded d, ds_bytes_received d))
         else Some (services, content, Inr (rsm_object_hasher resume, 0, 0)))"

text \<open>The end: the hash, \<open>fsync\<close>, \<open>close\<close> and the publication.\<close>

definition verify_and_publish ::
  "hash \<Rightarrow> partial_io \<Rightarrow> pull_request \<Rightarrow> string \<Rightarrow> sha256 \<Rightarrow> files \<Rightarrow> files \<times> unit res" where
  "verify_and_publish H io request object_id hasher files =
     (case sha256_finalize H hasher of
        Inl e \<Rightarrow> (files, Inl e)
      | Inr (_, digest) \<Rightarrow>
          if digest_to_hex digest \<noteq> object_id then (files, Inl Runtime_error)
          else if \<not> pio_fsync io then (files, Inl System_error)
          else if \<not> pio_close io then (files, Inl System_error)
          else publish_partial io (partial_path request) (plq_destination_path request) (plq_overwrite request) files)"

definition pull_result_of ::
  "pull_request \<Rightarrow> multi_node_restore_plan \<Rightarrow> resume_state \<Rightarrow> nat \<Rightarrow> u64 \<Rightarrow> pull_result" where
  "pull_result_of request plan resume downloaded received =
     (let descriptor = mp_layout_descriptor plan
      in \<lparr>plr_version_id = mp_version_id plan, plr_artifact_id = mp_artifact_id plan,
          plr_source_node_id = primary_source_node_id (mp_chunks plan), plr_object_id = obj_object_id (ld_object descriptor),
          plr_layout_id = ld_layout_id descriptor, plr_destination_path = plq_destination_path request,
          plr_stats =
            \<lparr>pls_bytes_restored = obj_total_size (ld_object descriptor),
             pls_total_chunks = length (ol_chunks (ld_layout descriptor)), pls_chunks_downloaded = downloaded,
             pls_chunks_reused_from_partial = rsm_chunks_reused_from_partial resume,
             pls_bytes_received_from_storage = received\<rparr>\<rparr>)"

text \<open>From the open partial file on.\<close>

definition pull_into ::
  "hash \<Rightarrow> 's client_pool \<Rightarrow> partial_io \<Rightarrow> (nat \<Rightarrow> bool) \<Rightarrow> thread list \<Rightarrow> pull_request \<Rightarrow> multi_node_restore_plan \<Rightarrow>
   files \<Rightarrow> byte list \<Rightarrow> 's \<Rightarrow> ('s \<times> files \<times> pull_result res) option" where
  "pull_into H pool io spawns threads request plan files content services =
     (let descriptor = mp_layout_descriptor plan
      in Option.bind (resume_from_partial H io (obj_total_size (ld_object descriptor)) (ol_chunks (ld_layout descriptor)) content)
           (\<lambda>(content, resumed).
           case resumed of
             Inl e \<Rightarrow> Some (services, files(partial_path request := Entry (Regular_file content)), Inl e)
           | Inr resume \<Rightarrow>
               Option.bind (download_missing H pool io spawns threads plan resume content services)
                 (\<lambda>(services, content, ended).
                 let files = files(partial_path request := Entry (Regular_file content))
                 in case ended of
                      Inl e \<Rightarrow> Some (services, files, Inl e)
                    | Inr (hasher, downloaded, received) \<Rightarrow>
                        (case verify_and_publish H io request (obj_object_id (ld_object descriptor)) hasher files of
                           (files, published) \<Rightarrow>
                             Some (services, files,
                               rbind published (\<lambda>_. Inr (pull_result_of request plan resume downloaded received)))))))"

definition pull ::
  "hash \<Rightarrow> 's metadata_client \<Rightarrow> 's client_pool \<Rightarrow> partial_io \<Rightarrow> (nat \<Rightarrow> bool) \<Rightarrow> thread list \<Rightarrow> pull_request \<Rightarrow> files \<Rightarrow>
   's \<Rightarrow> ('s \<times> files \<times> pull_result res) option" where
  "pull H client pool io spawns threads request files services =
     (case validate_destination files request of
        Inl e \<Rightarrow> Some (services, files, Inl e)
      | Inr _ \<Rightarrow>
          (case get_multi_node_restore_plan_from H client (plq_version_id request) services of
             (services, Inl e) \<Rightarrow> Some (services, files, Inl e)
           | (services, Inr plan) \<Rightarrow>
               let refs = ol_chunks (ld_layout (mp_layout_descriptor plan))
               in case rbind (validate_chunk_sizes refs) (\<lambda>_. plan_matches_layout (mp_chunks plan) refs) of
                    Inl e \<Rightarrow> Some (services, files, Inl e)
                  | Inr _ \<Rightarrow>
                      (case open_partial_file io (partial_path request) files of
                         (files, Inl e) \<Rightarrow> Some (services, files, Inl e)
                       | (files, Inr content) \<Rightarrow>
                           pull_into H pool io spawns threads request plan files content services)))"

subsection \<open>The plan\<close>

lemma rebuild_layout_tiles:
  assumes "rebuild_layout H strategy parameters object_id total_size refs = Inr d"
  shows "tiles_from 0 (ol_chunks (ld_layout d)) (unat (obj_total_size (ld_object d)))"
    and "obj_object_id (ld_object d) = object_id" and "obj_total_size (ld_object d) = total_size"
proof -
  obtain obj layout where object: "object_new object_id total_size = Inr obj" and layout: "object_layout_new refs = Inr layout"
    and d: "ld_object d = obj" "ld_layout d = layout" "obj_total_size obj = ol_total_size layout"
    using assms by (auto simp: rebuild_layout_def as_protocol_error_def rbind_eq_Inr fixed_size_layout_descriptor_def
        fastcdc_layout_descriptor_def split: sum.splits if_splits option.splits)
  from layout have "unat (ol_total_size layout) = layout_bytes refs" and "ol_chunks layout = refs"
    and "tiles_from 0 refs (layout_bytes refs)"
    by (auto simp: object_layout_new_ok unat_of_nat)
  with d show "tiles_from 0 (ol_chunks (ld_layout d)) (unat (obj_total_size (ld_object d)))" by simp
  from object d show "obj_object_id (ld_object d) = object_id" and "obj_total_size (ld_object d) = total_size"
    by (auto simp: object_new_ok)
qed

text \<open>Whatever the service sends, a plan the client accepts tiles the object.\<close>

lemma plan_tiles:
  assumes "get_multi_node_restore_plan_from H client version_id services = (services', Inr plan)"
  shows "tiles_from 0 (ol_chunks (ld_layout (mp_layout_descriptor plan)))
      (unat (obj_total_size (ld_object (mp_layout_descriptor plan))))"
    and "obj_object_id (ld_object (mp_layout_descriptor plan)) = mp_object_id plan" and "mp_version_id plan = version_id"
proof -
  obtain object where "parse_multi_node_restore_plan H version_id object = Inr plan"
    using assms by (auto simp: get_multi_node_restore_plan_from_def step_of_def step_bind_def expect_status_def rbind_eq_Inr
        split: if_splits prod.splits sum.splits)
  then obtain strategy parameters object_id total_size sources where
    "rebuild_layout H strategy parameters object_id total_size sources = Inr (mp_layout_descriptor plan)"
    and "mp_object_id plan = object_id" and "mp_version_id plan = version_id"
    by (auto simp: parse_multi_node_restore_plan_def rbind_eq_Inr split: if_splits)
  with rebuild_layout_tiles show "tiles_from 0 (ol_chunks (ld_layout (mp_layout_descriptor plan)))
      (unat (obj_total_size (ld_object (mp_layout_descriptor plan))))"
    and "obj_object_id (ld_object (mp_layout_descriptor plan)) = mp_object_id plan" and "mp_version_id plan = version_id"
    by metis+
qed

text \<open>The steps of a pull that gets a plan, and one that is refused before.\<close>

lemma pull_cases:
  assumes "pull H client pool io spawns threads request files services = Some (services', files', r)"
  obtains (refused) e where "files' = files" "r = Inl e"
  | (unopened) e where "open_partial_file io (partial_path request) files = (files', Inl e)" "r = Inl e"
  | (opened) plan services1 files1 content where "validate_destination files request = Inr ()"
      "get_multi_node_restore_plan_from H client (plq_version_id request) services = (services1, Inr plan)"
      "plan_matches_layout (mp_chunks plan) (ol_chunks (ld_layout (mp_layout_descriptor plan))) = Inr ()"
      "open_partial_file io (partial_path request) files = (files1, Inr content)"
      "pull_into H pool io spawns threads request plan files1 content services1 = Some (services', files', r)"
proof (cases "validate_destination files request")
  case (Inl e)
  with assms have "files' = files" "r = Inl e" by (simp_all add: pull_def)
  with refused show ?thesis by blast
next
  case valid: (Inr u)
  obtain services1 planned where plan: "get_multi_node_restore_plan_from H client (plq_version_id request) services = (services1, planned)"
    by (cases "get_multi_node_restore_plan_from H client (plq_version_id request) services")
  show ?thesis
  proof (cases planned)
    case (Inl e)
    with assms valid plan have "files' = files" "r = Inl e" by (simp_all add: pull_def)
    with refused show ?thesis by blast
  next
    case (Inr plan')
    let ?refs = "ol_chunks (ld_layout (mp_layout_descriptor plan'))"
    show ?thesis
    proof (cases "rbind (validate_chunk_sizes ?refs) (\<lambda>_. plan_matches_layout (mp_chunks plan') ?refs)")
      case (Inl e)
      with assms valid plan Inr have "files' = files" "r = Inl e" by (simp_all add: pull_def Let_def)
      with refused show ?thesis by blast
    next
      case checked: (Inr u')
      obtain files1 content where partial: "open_partial_file io (partial_path request) files = (files1, content)"
        by (cases "open_partial_file io (partial_path request) files")
      show ?thesis
      proof (cases content)
        case (Inl e)
        with assms valid plan Inr checked partial have "files' = files1" "r = Inl e" by (simp_all add: pull_def Let_def)
        with partial Inl unopened show ?thesis by simp
      next
        case (Inr bytes)
        have "pull_into H pool io spawns threads request plan' files1 bytes services1 = Some (services', files', r)"
          using assms valid plan \<open>planned = Inr plan'\<close> checked partial Inr by (simp add: pull_def Let_def)
        with opened [of services1 plan' files1 bytes] valid plan \<open>planned = Inr plan'\<close> checked partial Inr show ?thesis
          by (simp add: rbind_eq_Inr)
      qed
    qed
  qed
qed

text \<open>What a download of a plan returns without a failure.\<close>

lemma download_missing_ok:
  assumes "download_missing H pool io spawns threads plan resume content services =
      Some (services', content', Inr (hasher, downloaded, received))"
    and "resumed H (ol_chunks (ld_layout (mp_layout_descriptor plan))) resume content"
    and "tiles_from 0 (ol_chunks (ld_layout (mp_layout_descriptor plan))) whole"
  shows "written_ok H (ol_chunks (ld_layout (mp_layout_descriptor plan))) hasher content'"
proof -
  let ?refs = "ol_chunks (ld_layout (mp_layout_descriptor plan))"
  let ?job = "\<lparr>dj_chunks = ?refs, dj_sources = mp_chunks plan, dj_first_index = rsm_first_download_index resume\<rparr>"
  let ?d = "run_schedule H pool io spawns ?job threads (download_start ?job resume content services)"
  show ?thesis
  proof (cases "rsm_first_download_index resume < length ?refs")
    case False
    with assms(1) have "content' = content" and "hasher = rsm_object_hasher resume"
      by (simp_all add: download_missing_def)
    with False assms(2) show ?thesis by (simp add: resumed_def written_ok_def)
  next
    case True
    with assms(1) have joined: "ds_main ?d = Joined" "ds_failure ?d = None" "content' = ds_content ?d" "hasher = ds_hasher ?d"
      by (auto simp: download_missing_def Let_def split: if_splits option.splits)
    have "written_ok H (dj_chunks ?job) (ds_hasher ?d) (ds_content ?d)"
      by (rule joined_content [where resume = resume and content = content and services = services and d = ?d, OF _ _ _
            run_schedule_downloading [OF downloading.begins] joined(1,2)]) (use assms(2,3) in simp_all)
    with joined(3,4) show ?thesis by simp
  qed
qed

subsection \<open>Correctness\<close>

lemma partial_path_not_destination [simp]: "plq_destination_path request \<noteq> partial_path request"
  by (metis partial_path_differs)

lemma verify_and_publish_ok:
  assumes "verify_and_publish H io request object_id hasher files = (files', Inr ())"
  shows "files' (plq_destination_path request) = files (partial_path request)"
    and "hash_bytes H (sha_data hasher) = Inr object_id"
    and "\<not> plq_overwrite request \<Longrightarrow> files (plq_destination_path request) = No_entry"
  using assms
  by (auto simp: verify_and_publish_def publish_partial_def sha256_finalize_def hash_bytes_ok Let_def split: if_splits sum.splits)

lemma verify_and_publish_touches:
  assumes "verify_and_publish H io request object_id hasher files = (files', published)"
  shows "path \<noteq> plq_destination_path request \<Longrightarrow> path \<noteq> partial_path request \<Longrightarrow> files' path = files path"
    and "published = Inl e \<Longrightarrow> files' = files"
  using assms by (auto simp: verify_and_publish_def publish_partial_def Let_def split: if_splits sum.splits)

lemma open_partial_file_touches:
  assumes "open_partial_file io path files = (files', r)" and "other \<noteq> path"
  shows "files' other = files other"
  using assms by (auto simp: open_partial_file_def split: if_splits path_entry.splits file_kind.splits)

lemma pull_into_cases:
  assumes "pull_into H pool io spawns threads request plan files content services = Some (services', files', r)"
  obtains (failed) content' e where "files' = files(partial_path request := Entry (Regular_file content'))" "r = Inl e"
  | (downloaded) content1 resume services1 content' hasher downloaded received published where
      "resume_from_partial H io (obj_total_size (ld_object (mp_layout_descriptor plan)))
         (ol_chunks (ld_layout (mp_layout_descriptor plan))) content = Some (content1, Inr resume)"
      "download_missing H pool io spawns threads plan resume content1 services =
         Some (services1, content', Inr (hasher, downloaded, received))"
      "verify_and_publish H io request (obj_object_id (ld_object (mp_layout_descriptor plan))) hasher
         (files(partial_path request := Entry (Regular_file content'))) = (files', published)"
      "r = rbind published (\<lambda>_. Inr (pull_result_of request plan resume downloaded received))"
proof -
  obtain content1 resumed where resume: "resume_from_partial H io (obj_total_size (ld_object (mp_layout_descriptor plan)))
      (ol_chunks (ld_layout (mp_layout_descriptor plan))) content = Some (content1, resumed)"
    using assms by (auto simp: pull_into_def Let_def bind_eq_Some_conv)
  show ?thesis
  proof (cases resumed)
    case (Inl e)
    with assms resume have "files' = files(partial_path request := Entry (Regular_file content1))" "r = Inl e"
      by (simp_all add: pull_into_def)
    with failed show ?thesis by blast
  next
    case (Inr state)
    then obtain services1 content' ended where download: "download_missing H pool io spawns threads plan state content1 services =
        Some (services1, content', ended)"
      using assms resume by (auto simp: pull_into_def Let_def bind_eq_Some_conv)
    show ?thesis
    proof (cases ended)
      case (Inl e)
      with assms resume Inr download have "files' = files(partial_path request := Entry (Regular_file content'))" "r = Inl e"
        by (simp_all add: pull_into_def Let_def \<open>resumed = Inr state\<close>)
      with failed show ?thesis by blast
    next
      case all: (Inr counted)
      obtain hasher downloaded received where counted: "counted = (hasher, downloaded, received)" by (cases counted)
      obtain files2 published where "verify_and_publish H io request (obj_object_id (ld_object (mp_layout_descriptor plan)))
          hasher (files(partial_path request := Entry (Regular_file content'))) = (files2, published)"
        by (cases "verify_and_publish H io request (obj_object_id (ld_object (mp_layout_descriptor plan))) hasher
          (files(partial_path request := Entry (Regular_file content')))")
      moreover from this assms resume Inr download all counted
      have "files' = files2" and "r = rbind published (\<lambda>_. Inr (pull_result_of request plan state downloaded received))"
        by (simp_all add: pull_into_def Let_def)
      ultimately show ?thesis using resume Inr download all counted by (intro downloaded) simp_all
    qed
  qed
qed

text \<open>
  C9: What a successful pull publishes is the object. Whatever the nodes answered, whatever a partial file held before
  and however the threads interleaved, the destination is afterwards a regular file whose bytes hash to the object
  identifier of the plan, whose length is the size the result reports, and in which every chunk of the layout stands
  at its offset with the bytes its identifier names.
\<close>

theorem pull_restores_the_object:
  assumes "pull H client pool io spawns threads request files services = Some (services', files', Inr result)"
  shows "\<exists>services1 plan content.
    get_multi_node_restore_plan_from H client (plq_version_id request) services = (services1, Inr plan) \<and>
    plr_version_id result = plq_version_id request \<and> plr_object_id result = mp_object_id plan \<and>
    files' (plq_destination_path request) = Entry (Regular_file content) \<and>
    hash_bytes H content = Inr (plr_object_id result) \<and>
    length content = unat (pls_bytes_restored (plr_stats result)) \<and>
    holds_chunks H (ol_chunks (ld_layout (mp_layout_descriptor plan))) content"
  using assms
proof (cases rule: pull_cases)
  case (opened plan services1 files1 content)
  let ?refs = "ol_chunks (ld_layout (mp_layout_descriptor plan))"
  note plan = plan_tiles [OF opened(2)]
  show ?thesis
    using opened(5)
  proof (cases rule: pull_into_cases)
    case (downloaded content1 resume services2 content' hasher count received published)
    then have published: "published = Inr ()" and result: "result = pull_result_of request plan resume count received"
      by (cases published; simp)+
    have "written_ok H ?refs hasher content'"
      by (rule download_missing_ok [OF downloaded(2) resume_from_partial_ok [OF downloaded(1) plan(1)] plan(1)])
    then have written: "holds_chunks H ?refs content'" "sha_data hasher = content'" by (simp_all add: written_ok_def)
    then have "length content' = unat (obj_total_size (ld_object (mp_layout_descriptor plan)))"
      using tiles_from_length [OF plan(1)] by (simp add: holds_chunks_def)
    with written verify_and_publish_ok(1,2) [OF downloaded(3) [unfolded published]] opened(2) plan(2,3)
    show ?thesis by (simp add: result pull_result_of_def Let_def)
  qed simp
qed simp_all

text \<open>
  C10: A pull touches nothing but the destination and the partial file beside it. When it fails, at any point, the
  destination is what it was; and without \<open>overwrite\<close> a destination where anything is, if only a dangling link, is
  never replaced: the pull fails.
\<close>

theorem pull_keeps_the_destination:
  assumes "pull H client pool io spawns threads request files services = Some (services', files', r)"
  shows "(\<forall>path. path \<noteq> plq_destination_path request \<and> path \<noteq> partial_path request \<longrightarrow> files' path = files path) \<and>
    (\<forall>e. r = Inl e \<longrightarrow> files' (plq_destination_path request) = files (plq_destination_path request)) \<and>
    (\<not> plq_overwrite request \<longrightarrow> files (plq_destination_path request) \<noteq> No_entry \<longrightarrow> (\<exists>e. r = Inl e))"
  using assms
proof (cases rule: pull_cases)
  case (refused e)
  then show ?thesis by simp
next
  case (unopened e)
  with open_partial_file_touches [OF unopened(1)] show ?thesis by simp
next
  case (opened plan services1 files1 content)
  note before = open_partial_file_touches [OF opened(4)]
  show ?thesis
    using opened(5)
  proof (cases rule: pull_into_cases)
    case (failed content' e)
    with before show ?thesis by simp
  next
    case (downloaded content1 resume services2 content' hasher count received published)
    note touches = verify_and_publish_touches [OF downloaded(3)]
    show ?thesis
    proof (cases published)
      case (Inl e)
      with touches before downloaded(4) show ?thesis by simp
    next
      case (Inr u)
      then have published: "published = Inr ()" by simp
      note absent = verify_and_publish_ok(3) [OF downloaded(3) [unfolded published]]
      have "files (plq_destination_path request) = No_entry" if "\<not> plq_overwrite request"
        using absent [OF that] before [of "plq_destination_path request"] by simp
      with touches(1) before downloaded(4) show ?thesis by (simp add: published)
    qed
  qed
qed

subsection \<open>Witnesses\<close>

text \<open>The sample version, pulled into an empty directory in which a first pull has left an incomplete partial file.\<close>

definition sample_pull_request :: pull_request where
  "sample_pull_request = \<lparr>plq_version_id = version_4c, plq_destination_path = ''/o/m'', plq_overwrite = False\<rparr>"

definition sample_files :: files where
  "sample_files = (\<lambda>_. No_entry)(''/o'' := Entry Directory_file,
     partial_path sample_pull_request := Entry (Regular_file [1, 2]))"

definition sample_schedule :: "thread list" where
  "sample_schedule = replicate 5 Main_thread @ replicate 4 (Worker_thread 2) @ replicate 6 Main_thread @
     map Worker_thread [0, 1, 2, 3] @ [Main_thread]"

lemma sample_pull_runs:
  obtains services' files' result where
    "pull sample_hash sample_service sample_nodes_pool sample_pio (\<lambda>_. True) sample_schedule sample_pull_request sample_files
       sample_cluster = Some (services', files', Inr result)"
    and "files' ''/o/m'' = Entry (Regular_file [1, 2, 3, 4, 5])" and "files' (partial_path sample_pull_request) = No_entry"
    and "pls_chunks_downloaded (plr_stats result) = 1"
proof -
  have "case pull sample_hash sample_service sample_nodes_pool sample_pio (\<lambda>_. True) sample_schedule sample_pull_request sample_files
      sample_cluster of
      Some (services', files', Inr result) \<Rightarrow> files' ''/o/m'' = Entry (Regular_file [1, 2, 3, 4, 5]) \<and>
        files' (partial_path sample_pull_request) = No_entry \<and> pls_chunks_downloaded (plr_stats result) = 1
    | _ \<Rightarrow> False"
    by code_simp
  then show thesis by (auto intro: that split: option.splits prod.splits sum.splits)
qed

theorem pull_restores_the_object_witness:
  "\<exists>services' files' result content.
     pull sample_hash sample_service sample_nodes_pool sample_pio (\<lambda>_. True) sample_schedule sample_pull_request sample_files
       sample_cluster = Some (services', files', Inr result) \<and>
     files' ''/o/m'' = Entry (Regular_file content) \<and> hash_bytes sample_hash content = Inr (plr_object_id result)"
proof (rule sample_pull_runs)
  fix services' files' result
  assume pulled: "pull sample_hash sample_service sample_nodes_pool sample_pio (\<lambda>_. True) sample_schedule sample_pull_request
      sample_files sample_cluster = Some (services', files', Inr result)"
  have "plq_destination_path sample_pull_request = ''/o/m''" by (simp add: sample_pull_request_def)
  with pull_restores_the_object [OF pulled] pulled show ?thesis by auto
qed

theorem pull_keeps_the_destination_witness:
  "\<exists>services' files' r.
     pull sample_hash sample_service sample_nodes_pool sample_pio (\<lambda>_. True) sample_schedule sample_pull_request sample_files
       sample_cluster = Some (services', files', r) \<and>
     files' ''/o'' = Entry Directory_file"
proof (rule sample_pull_runs)
  fix services' files' result
  assume pulled: "pull sample_hash sample_service sample_nodes_pool sample_pio (\<lambda>_. True) sample_schedule sample_pull_request
      sample_files sample_cluster = Some (services', files', Inr result)"
  have "sample_files ''/o'' = Entry Directory_file" and "''/o'' \<noteq> plq_destination_path sample_pull_request"
      and "''/o'' \<noteq> partial_path sample_pull_request"
    by code_simp+
  with pull_keeps_the_destination [OF pulled] pulled show ?thesis by metis
qed

end
